(* ===== verification/Prelude.thy ===== *)
theory Prelude
  imports Main "HOL-Library.Word" "HOL-Library.AList"
begin

text \<open>
  The prelude: the vocabulary every component theory shares.

  \<^item> Time. An \<open>instant\<close> (chrono's \<open>DateTime<Utc>\<close>) and a \<open>duration\<close>
    (\<open>chrono::Duration\<close>) are integers counting nanoseconds, chrono's own resolution; a
    \<open>day_number\<close> (\<open>NaiveDate\<close>) counts days since 1970-01-01. chrono panics outside its range
    of some 262000 years either way; the model stays inside it.
  \<^item> Results. A Rust \<open>Result<A, E>\<close> is the sum \<open>'e + 'a\<close>; \<open>rbind\<close> is the \<open>?\<close> operator,
    \<open>ensure\<close> an early return, \<open>ok_or\<close> the method of that name.
  \<^item> Lists as stores. \<open>update_first\<close> and \<open>update_last\<close> are \<open>iter_mut().find(..)\<close> and
    \<open>iter_mut().rev().find(..)\<close> followed by an assignment through the reference; \<open>retain\<close> is
    \<open>filter\<close> and \<open>iter().find\<close> is \<open>List.find\<close>.
  \<^item> Strings are lists of bytes, as Rust's are (\<open>len()\<close> counts bytes), and the std functions
    the components use on them.
  \<^item> Two locales, \<open>keyed_store\<close> (a list of records found and updated by key) and
    \<open>preserved\<close> (a step relation that keeps an invariant), interpreted by the components.
\<close>

section \<open>Hint collections\<close>

named_theorems result_simps \<open>case analysis of results and early returns\<close>
named_theorems store_simps \<open>lookups in lists updated in place\<close>
named_theorems frame_simps \<open>what an operation leaves alone\<close>

section \<open>Time\<close>

type_synonym instant = int
type_synonym duration = int
type_synonym day_number = int

abbreviation nanos_per_second :: int where "nanos_per_second \<equiv> 1000000000"
abbreviation seconds :: "int \<Rightarrow> duration" where "seconds n \<equiv> n * 1000000000"
abbreviation minutes :: "int \<Rightarrow> duration" where "minutes n \<equiv> n * 60000000000"
abbreviation hours :: "int \<Rightarrow> duration" where "hours n \<equiv> n * 3600000000000"
abbreviation days :: "int \<Rightarrow> duration" where "days n \<equiv> n * 86400000000000"

text \<open>\<open>Duration::num_seconds\<close> rounds towards zero.\<close>

definition num_seconds :: "duration \<Rightarrow> int" where
  "num_seconds d = sgn d * (\<bar>d\<bar> div nanos_per_second)"

text \<open>\<open>DateTime::date_naive\<close>: the UTC day an instant falls in.\<close>

definition date_naive :: "instant \<Rightarrow> day_number" where
  "date_naive t = t div days 1"

text \<open>Midnight UTC at the start of a day.\<close>

definition day_start :: "day_number \<Rightarrow> instant" where
  "day_start d = days d"

lemma num_seconds_nonneg: "0 \<le> d \<Longrightarrow> num_seconds d = d div nanos_per_second"
  by (cases "d = 0") (simp_all add: num_seconds_def)

lemma num_seconds_whole [simp]: "num_seconds (seconds n) = n"
  by (simp add: num_seconds_def abs_mult sgn_mult mult.commute [of "sgn n"] abs_mult_sgn)

lemma day_start_date_naive: "day_start (date_naive t) \<le> t" "t < day_start (date_naive t + 1)"
  by (simp_all add: day_start_def date_naive_def)

section \<open>Results\<close>

definition rbind :: "'e + 'a \<Rightarrow> ('a \<Rightarrow> 'e + 'b) \<Rightarrow> 'e + 'b" where
  "rbind m f = (case m of Inl e \<Rightarrow> Inl e | Inr x \<Rightarrow> f x)"

definition ensure :: "bool \<Rightarrow> 'e \<Rightarrow> 'e + unit" where
  "ensure b e = (if b then Inr () else Inl e)"

definition ok_or :: "'e \<Rightarrow> 'a option \<Rightarrow> 'e + 'a" where
  "ok_or e x = (case x of None \<Rightarrow> Inl e | Some y \<Rightarrow> Inr y)"

definition map_err :: "('e \<Rightarrow> 'f) \<Rightarrow> 'e + 'a \<Rightarrow> 'f + 'a" where
  "map_err f m = (case m of Inl e \<Rightarrow> Inl (f e) | Inr x \<Rightarrow> Inr x)"

lemma rbind_simps [simp, result_simps]:
  "rbind (Inl e) f = Inl e" "rbind (Inr x) f = f x"
  by (simp_all add: rbind_def)

lemma rbind_Inr_iff [result_simps]:
  "rbind m f = Inr y \<longleftrightarrow> (\<exists>x. m = Inr x \<and> f x = Inr y)"
  by (cases m) auto

lemma rbind_Inl_iff [result_simps]:
  "rbind m f = Inl e \<longleftrightarrow> m = Inl e \<or> (\<exists>x. m = Inr x \<and> f x = Inl e)"
  by (cases m) auto

lemma ensure_iff [simp, result_simps]:
  "ensure b e = Inr u \<longleftrightarrow> b" "ensure b e = Inl e' \<longleftrightarrow> \<not> b \<and> e' = e"
  by (auto simp: ensure_def)

lemma ensure_simps [simp]: "ensure True e = Inr ()" "ensure False e = Inl e"
  by (simp_all add: ensure_def)

lemma ok_or_iff [simp, result_simps]:
  "ok_or e x = Inr y \<longleftrightarrow> x = Some y" "ok_or e x = Inl e' \<longleftrightarrow> x = None \<and> e' = e"
  by (auto simp: ok_or_def split: option.splits)

lemma ok_or_simps [simp]: "ok_or e (Some y) = Inr y" "ok_or e None = Inl e"
  by (simp_all add: ok_or_def)

lemma map_err_iff [simp, result_simps]:
  "map_err f m = Inr y \<longleftrightarrow> m = Inr y" "map_err f m = Inl e \<longleftrightarrow> (\<exists>e'. m = Inl e' \<and> e = f e')"
  by (auto simp: map_err_def split: sum.splits)

lemma map_err_simps [simp]: "map_err f (Inr x) = Inr x" "map_err f (Inl e) = Inl (f e)"
  by (simp_all add: map_err_def)

text \<open>\<open>iter().map(f).collect::<Result<Vec<_>, _>>()\<close>: the first error, or every value.\<close>

fun collect_results :: "('a \<Rightarrow> 'e + 'b) \<Rightarrow> 'a list \<Rightarrow> 'e + 'b list" where
  "collect_results f [] = Inr []"
| "collect_results f (x # xs) = rbind (f x) (\<lambda>y. rbind (collect_results f xs) (\<lambda>ys. Inr (y # ys)))"

lemma collect_results_Inr:
  "collect_results f xs = Inr ys \<longleftrightarrow> list_all2 (\<lambda>x y. f x = Inr y) xs ys"
  by (induction xs arbitrary: ys) (auto simp: result_simps list_all2_Cons1)

section \<open>Lists as stores\<close>

fun update_first :: "('a \<Rightarrow> bool) \<Rightarrow> ('a \<Rightarrow> 'a) \<Rightarrow> 'a list \<Rightarrow> 'a list" where
  "update_first p f [] = []"
| "update_first p f (x # xs) = (if p x then f x # xs else x # update_first p f xs)"

definition update_last :: "('a \<Rightarrow> bool) \<Rightarrow> ('a \<Rightarrow> 'a) \<Rightarrow> 'a list \<Rightarrow> 'a list" where
  "update_last p f xs = rev (update_first p f (rev xs))"

definition find_last :: "('a \<Rightarrow> bool) \<Rightarrow> 'a list \<Rightarrow> 'a option" where
  "find_last p xs = List.find p (rev xs)"

lemma length_update_first [simp]: "length (update_first p f xs) = length xs"
  by (induction xs) auto

lemma length_update_last [simp]: "length (update_last p f xs) = length xs"
  by (simp add: update_last_def)

lemma find_SomeD: "List.find p xs = Some x \<Longrightarrow> x \<in> set xs \<and> p x"
  by (induction xs) (auto split: if_splits)

lemma find_last_SomeD: "find_last p xs = Some x \<Longrightarrow> x \<in> set xs \<and> p x"
  unfolding find_last_def by (drule find_SomeD) simp

lemma find_cong_set: "(\<And>x. x \<in> set xs \<Longrightarrow> p x = q x) \<Longrightarrow> List.find p xs = List.find q xs"
  by (induction xs) auto

lemma find_append [store_simps]:
  "List.find p (xs @ ys) = (case List.find p xs of None \<Rightarrow> List.find p ys | Some x \<Rightarrow> Some x)"
  by (induction xs) auto

lemma update_first_None [simp]: "List.find p xs = None \<Longrightarrow> update_first p f xs = xs"
  by (induction xs) (auto split: if_splits)

text \<open>The element a first-match update changes is the one \<open>find\<close> returns.\<close>

lemma update_first_split:
  "List.find p xs = Some x \<Longrightarrow>
     \<exists>us vs. xs = us @ x # vs \<and> (\<forall>u \<in> set us. \<not> p u) \<and> p x \<and> update_first p f xs = us @ f x # vs"
proof (induction xs)
  case (Cons y ys)
  show ?case
  proof (cases "p y")
    case True
    with Cons.prems show ?thesis by (intro exI [of _ "[]"] exI [of _ ys]) auto
  next
    case False
    with Cons.prems obtain us vs where "ys = us @ x # vs" "\<forall>u \<in> set us. \<not> p u" "p x"
      "update_first p f ys = us @ f x # vs"
      using Cons.IH by auto
    with False show ?thesis by (intro exI [of _ "y # us"] exI [of _ vs]) auto
  qed
qed simp

lemma update_first_mem: "List.find p xs = Some x \<Longrightarrow> f x \<in> set (update_first p f xs)"
  by (induction xs) (auto split: if_splits)

lemma list_ex_update_first: "List.find p xs = Some x \<Longrightarrow> q (f x) \<Longrightarrow> list_ex q (update_first p f xs)"
  unfolding list_ex_iff by (blast intro: update_first_mem)

lemma find_update_same_key:
  "(\<And>x. p (f x) = p x) \<Longrightarrow> List.find p (update_first p f xs) = map_option f (List.find p xs)"
  by (induction xs) auto

lemma find_update_other:
  "(\<And>x. p x \<Longrightarrow> q (f x) = False \<and> q x = False) \<Longrightarrow> List.find q (update_first p f xs) = List.find q xs"
  by (induction xs) auto

lemma update_last_find:
  "find_last p xs = Some x \<Longrightarrow> \<exists>us vs. xs = us @ x # vs \<and> update_last p f xs = us @ f x # vs \<and> p x"
proof -
  assume "find_last p xs = Some x"
  then have "List.find p (rev xs) = Some x" by (simp add: find_last_def)
  from update_first_split [OF this, of f] obtain us vs
    where "rev xs = us @ x # vs" "p x" "update_first p f (rev xs) = us @ f x # vs" by blast
  then have "xs = rev vs @ x # rev us" "p x" "update_last p f xs = rev vs @ f x # rev us"
    by (simp_all add: update_last_def) (metis append.assoc append_Cons append_Nil rev_append rev_rev_ident rev.simps(2))
  then show ?thesis by blast
qed

lemma update_last_mem: "find_last p xs = Some x \<Longrightarrow> f x \<in> set (update_last p f xs)"
  by (simp add: find_last_def update_last_def update_first_mem)

lemma list_all2_back: "list_all2 R xs ys \<Longrightarrow> y \<in> set ys \<Longrightarrow> \<exists>x \<in> set xs. R x y"
  by (induction rule: list_all2_induct) auto

lemma list_all2_forth: "list_all2 R xs ys \<Longrightarrow> x \<in> set xs \<Longrightarrow> \<exists>y \<in> set ys. R x y"
  by (induction rule: list_all2_induct) auto

lemma set_update_first: "y \<in> set (update_first p f xs) \<Longrightarrow> y \<in> set xs \<or> (\<exists>x \<in> set xs. p x \<and> y = f x)"
  by (induction xs) (auto split: if_splits)

lemma set_update_last: "y \<in> set (update_last p f xs) \<Longrightarrow> y \<in> set xs \<or> (\<exists>x \<in> set xs. p x \<and> y = f x)"
  unfolding update_last_def using set_update_first [of y p f "rev xs"] by simp

lemma map_update_first [simp]:
  "(\<And>x. p x \<Longrightarrow> g (f x) = g x) \<Longrightarrow> map g (update_first p f xs) = map g xs"
  by (induction xs) auto

lemma map_update_last [simp]:
  "(\<And>x. p x \<Longrightarrow> g (f x) = g x) \<Longrightarrow> map g (update_last p f xs) = map g xs"
  by (simp add: update_last_def rev_map [symmetric])

lemma list_all_update_first:
  "list_all q xs \<Longrightarrow> (\<And>x. p x \<Longrightarrow> q x \<Longrightarrow> q (f x)) \<Longrightarrow> list_all q (update_first p f xs)"
  by (induction xs) auto

lemma list_all_update_last:
  "list_all q xs \<Longrightarrow> (\<And>x. p x \<Longrightarrow> q x \<Longrightarrow> q (f x)) \<Longrightarrow> list_all q (update_last p f xs)"
  unfolding update_last_def by (auto intro: list_all_update_first simp: list_all_iff dest!: set_update_first)

lemma filter_update_first_same:
  "(\<And>x. p x \<Longrightarrow> q (f x) = q x) \<Longrightarrow> length (filter q (update_first p f xs)) = length (filter q xs)"
  by (induction xs) auto

lemma filter_update_first_le:
  "(\<And>x. p x \<Longrightarrow> q (f x) \<Longrightarrow> q x) \<Longrightarrow> length (filter q (update_first p f xs)) \<le> length (filter q xs)"
  by (induction xs) (auto intro: le_SucI)

text \<open>
  A store of records found by key: updates through the reference leave the key alone, so they
  change one record and no lookup of another key.
\<close>

locale keyed_store =
  fixes key :: "'r \<Rightarrow> 'k"
    and upd :: "'a \<Rightarrow> 'r \<Rightarrow> 'r"
  assumes key_upd: "key (upd a r) = key r"
begin

lemma find_other:
  "k' \<noteq> k \<Longrightarrow> List.find (\<lambda>r. key r = k') (update_first (\<lambda>r. key r = k) (upd a) rs)
     = List.find (\<lambda>r. key r = k') rs"
  by (induction rs) (auto simp: key_upd)

lemma find_same:
  "List.find (\<lambda>r. key r = k) (update_first (\<lambda>r. key r = k) (upd a) rs)
     = map_option (upd a) (List.find (\<lambda>r. key r = k) rs)"
  by (induction rs) (auto simp: key_upd)

lemma keys_update: "map key (update_first p (upd a) rs) = map key rs"
  by (rule map_update_first) (rule key_upd)

lemma distinct_update: "distinct (map key rs) \<Longrightarrow> distinct (map key (update_first p (upd a) rs))"
  by (simp add: keys_update)

end

text \<open>A step relation that keeps an invariant keeps it along every run.\<close>

locale preserved =
  fixes step :: "'s \<Rightarrow> 's \<Rightarrow> bool"
    and inv :: "'s \<Rightarrow> bool"
  assumes inv_step: "step s t \<Longrightarrow> inv s \<Longrightarrow> inv t"
begin

lemma inv_steps: "step\<^sup>*\<^sup>* s t \<Longrightarrow> inv s \<Longrightarrow> inv t"
  by (induction rule: rtranclp_induct) (auto intro: inv_step)

end

section \<open>Strings\<close>

type_synonym persona_id = "128 word"

fun strip_prefix :: "string \<Rightarrow> string \<Rightarrow> string option" where
  "strip_prefix [] s = Some s"
| "strip_prefix (p # ps) [] = None"
| "strip_prefix (p # ps) (c # cs) = (if p = c then strip_prefix ps cs else None)"

lemma strip_prefix_Some [simp]: "strip_prefix p s = Some r \<longleftrightarrow> s = p @ r"
  by (induction p s rule: strip_prefix.induct) auto

text \<open>\<open>str::split_once(char)\<close>: at the first occurrence.\<close>

fun split_once :: "char \<Rightarrow> string \<Rightarrow> (string \<times> string) option" where
  "split_once d [] = None"
| "split_once d (c # cs) =
     (if c = d then Some ([], cs) else map_option (\<lambda>(a, b). (c # a, b)) (split_once d cs))"

text \<open>\<open>str::trim_start_matches\<close>: the prefix is removed as often as it is there.\<close>

function trim_start_matches :: "string \<Rightarrow> string \<Rightarrow> string" where
  "trim_start_matches p s =
     (case strip_prefix p s of None \<Rightarrow> s | Some r \<Rightarrow> if p = [] then s else trim_start_matches p r)"
  by pat_completeness auto
termination by (relation "measure (\<lambda>(p, s). length s)") auto

declare trim_start_matches.simps [simp del]

definition ascii_digit :: "char \<Rightarrow> bool" where
  "ascii_digit c \<longleftrightarrow> 48 \<le> (of_char c :: nat) \<and> (of_char c :: nat) \<le> 57"

text \<open>A UTF-8 continuation byte belongs to the character before it, so \<open>chars().count()\<close> leaves it out.\<close>

definition continuation_byte :: "char \<Rightarrow> bool" where
  "continuation_byte c \<longleftrightarrow> 128 \<le> (of_char c :: nat) \<and> (of_char c :: nat) < 192"

definition char_count :: "string \<Rightarrow> nat" where
  "char_count s = length (filter (\<lambda>c. \<not> continuation_byte c) s)"

definition digit_value :: "char \<Rightarrow> nat" where
  "digit_value c = of_char c - 48"

definition digits_value :: "string \<Rightarrow> nat" where
  "digits_value ds = foldl (\<lambda>n c. 10 * n + digit_value c) 0 ds"

definition parse_digits :: "string \<Rightarrow> nat option" where
  "parse_digits s = (if s \<noteq> [] \<and> list_all ascii_digit s then Some (digits_value s) else None)"

text \<open>
  \<open>str::parse\<close> for \<open>u32\<close>, \<open>usize\<close> and \<open>i32\<close>: an optional sign (\<open>-\<close> for the signed type
  only), then digits, refused when out of range.
\<close>

definition parse_unsigned :: "nat \<Rightarrow> string \<Rightarrow> nat option" where
  "parse_unsigned limit s =
     (case parse_digits (case s of CHR ''+'' # r \<Rightarrow> r | _ \<Rightarrow> s) of
        None \<Rightarrow> None
      | Some n \<Rightarrow> if n < limit then Some n else None)"

definition parse_i32 :: "string \<Rightarrow> int option" where
  "parse_i32 s =
     (case s of
        CHR ''-'' # r \<Rightarrow>
          (case parse_digits r of None \<Rightarrow> None
           | Some n \<Rightarrow> if n \<le> 2 ^ 31 then Some (- int n) else None)
      | _ \<Rightarrow> map_option int (parse_unsigned (2 ^ 31) s))"

section \<open>Association lists\<close>

text \<open>
  A Rust map is an association list with distinct keys, \<open>AList.update\<close> its \<open>insert\<close> and
  \<open>AList.delete\<close> its \<open>remove\<close>.
\<close>

lemma set_alist_update: "set (AList.update k v al) \<subseteq> insert (k, v) (set al)"
  by (induction al) auto

lemma ball_update: "\<forall>x \<in> set al. P x \<Longrightarrow> P (k, v) \<Longrightarrow> x \<in> set (AList.update k v al) \<Longrightarrow> P x"
  by (induction al) (auto split: if_splits)

lemma set_delete_subset: "set (AList.delete k al) \<subseteq> set al"
  by (induction al) auto

lemma length_alist_update: "length (AList.update k v al) = (if k \<in> fst ` set al then length al else Suc (length al))"
  by (induction al) auto

lemma length_delete: "length (AList.delete k al) \<le> length al"
  by (induction al) auto

lemma length_delete_present: "map_of al k \<noteq> None \<Longrightarrow> length (AList.delete k al) < length al"
proof (induction al)
  case (Cons e al)
  obtain j v where "e = (j, v)" by (cases e)
  with Cons length_delete [of k al] show ?case by (auto split: if_splits)
qed simp

end
