(* ===== verification/Wire.thy ===== *)
theory Wire
  imports Prelude
begin

text \<open>
  What crosses the boundary of the program: JSON values (\<open>serde_json::Value\<close>, an object being an
  association list in document order) and the shapes of the generated Trust Task payloads and of
  the \<open>vta_sdk\<close> values, as far as \<open>openvtc-core/src/vetting\<close> reads or builds them.

  None of the code that checks those shapes, signs, verifies or draws randomness is in the
  repository. Each such function is a field of \<open>vetter_sdk\<close> below or of \<open>applicant_sdk\<close> in
  \<open>Applicant\<close>, and the operations that call it take the record as an argument: theorems hold for every such
  implementation unless a hypothesis says what is relied on. Fresh identifiers and random bytes
  are arguments of the operation that draws them.
\<close>

section \<open>JSON\<close>

datatype json =
    JNull
  | JBool bool
  | JNumber string
  | JString string
  | JArray "json list"
  | JObject "(string \<times> json) list"

fun jget :: "string \<Rightarrow> json \<Rightarrow> json option" where
  "jget k (JObject ms) = map_of ms k"
| "jget k _ = None"

fun jstr :: "json \<Rightarrow> string option" where
  "jstr (JString s) = Some s"
| "jstr _ = None"

fun jarray :: "json \<Rightarrow> json list option" where
  "jarray (JArray vs) = Some vs"
| "jarray _ = None"

text \<open>\<open>v.get(k).and_then(Value::as_str)\<close> and the same for arrays, through an optional value.\<close>

definition jmember :: "string \<Rightarrow> json option \<Rightarrow> json option" where
  "jmember k v = Option.bind v (jget k)"

definition jmember_str :: "string \<Rightarrow> json option \<Rightarrow> string option" where
  "jmember_str k v = Option.bind (jmember k v) jstr"

definition jmember_array :: "string \<Rightarrow> json option \<Rightarrow> json list option" where
  "jmember_array k v = Option.bind (jmember k v) jarray"

lemmas json_access = jmember_def jmember_str_def jmember_array_def

text \<open>A DIDComm message, as unpacked; its times are seconds since the epoch (\<open>u64\<close>).\<close>

record didcomm_message =
  dm_id :: string
  dm_type :: string
  dm_from :: "string option"
  dm_to :: "string list option"
  dm_thid :: "string option"
  dm_body :: json
  dm_created :: "64 word option"
  dm_expires :: "64 word option"

section \<open>Vetting vocabulary\<close>

text \<open>
  \<open>VettingMethod\<close> is the SDK's; the source names three of its members, and any other token it may
  carry is \<open>OtherMethod\<close>. Relationships, decline codes and withdrawal reasons are tokens.
\<close>

datatype vetting_method = InPerson | Video | PriorAcquaintance | OtherMethod string

type_synonym relationship = string
type_synonym decline_code = string

record card_claim =
  cc_type :: string
  cc_value :: json
  cc_provenance :: string

text \<open>\<open>VettedObjectValue\<close>: what a vetting statement says.\<close>

record vetted_value =
  vv_community :: string
  vv_method :: vetting_method
  vv_document_classes :: "string list"
  vv_claims_verified :: "string list"
  vv_liveness_confirmed :: bool
  vv_identity_commitment :: "string option"
  vv_card_digest :: "string option"
  vv_declared_relationship :: "relationship option"
  vv_attestation_text_digest :: "string option"

text \<open>\<open>VettedObjectValue::vetter_members\<close>: the three members only a vetter's statement has.\<close>

record vetter_members =
  vm_identity_commitment :: string
  vm_card_digest :: string
  vm_declared_relationship :: relationship

text \<open>\<open>CardExpectations\<close>, \<open>VerifiedCard\<close> and \<open>VerifiedStatement\<close>.\<close>

record card_expectations =
  ce_audience :: string
  ce_publisher :: string
  ce_community :: string
  ce_challenge :: string
  ce_domain :: string
  ce_required_claims :: "string list"
  ce_now :: instant

record verified_card =
  vc_id :: string
  vc_digest :: string
  vc_identity_commitment :: string
  vc_claims :: "card_claim list"

record verified_statement =
  vs_id :: string
  vs_digest :: string
  vs_issuer :: string
  vs_subject :: string
  vs_value :: vetted_value
  vs_task_context :: string
  vs_valid_from :: instant
  vs_valid_until :: instant

section \<open>Payloads\<close>

text \<open>The ticket a \<open>vetting/request\<close> presents; the published type may grow a third form.\<close>

datatype presented_ticket =
    ShortCodeTicket string
  | QrTicket string string
  | UnknownTicket

text \<open>\<open>vetting/request/0.1\<close> and its response.\<close>

record request_body =
  rq_community :: string
  rq_join_did :: string
  rq_ticket :: "presented_ticket option"
  rq_introduction :: "(string \<times> json) list"
  rq_requirements_digest :: "string option"
  rq_preferred_method :: "string option"
  rq_languages :: "string list option"
  rq_message :: "string option"
  rq_availability :: "string option"
  rq_ext :: "json option"

record request_response =
  rr_request_id :: string
  rr_accepts_documentation :: "string list option"
  rr_session_hint :: "string option"

text \<open>\<open>vetting/session/0.1\<close>.\<close>

record session_body =
  sb_request_id :: string
  sb_challenge :: string
  sb_domain :: string
  sb_method :: string
  sb_required_claims :: "string list"
  sb_optional_claims :: "string list option"
  sb_expires_at :: instant

text \<open>\<open>vetting/decline/0.1\<close> and \<open>vetting/revoke-statement/0.1\<close>.\<close>

record decline_body =
  db_request_id :: string
  db_code :: "decline_code option"
  db_message :: "string option"

record revoke_body =
  rb_statement_id :: string
  rb_statement_digest :: string
  rb_reason :: "string option"

text \<open>A community's published requirements, with what they serialise to.\<close>

record vetting_requirements =
  vr_wire :: json
  vr_required_claims :: "string list option"
  vr_vetter_role :: string
  vr_decision_sla :: "string option"

text \<open>What \<open>requirements::evaluate\<close> is given about each statement, and what it answers.\<close>

record statement_facts =
  sf_statement_id :: string
  sf_vetter :: string
  sf_method :: vetting_method
  sf_claims_verified :: "string list"
  sf_document_classes :: "string list"
  sf_declared_relationship :: relationship
  sf_identity_commitment :: string
  sf_valid_from :: instant
  sf_community_matches :: bool
  sf_eligible :: bool
  sf_revoked :: bool

record evaluation =
  ev_satisfied :: bool

section \<open>The code outside the repository\<close>

text \<open>Called by the vetter's side (\<open>vetter.rs\<close>).\<close>

record vetter_sdk =
  documentation_none :: string
  documentation_defaults :: "string list"
  check_request :: "request_body \<Rightarrow> string \<Rightarrow> bool"
  request_documentation :: "string \<Rightarrow> string option"
  response_ok :: "request_response \<Rightarrow> bool"
  request_method :: "string \<Rightarrow> vetting_method option"
  session_method :: "vetting_method \<Rightarrow> string option"
  session_claim_ok :: "string \<Rightarrow> bool"
  session_ok :: "session_body \<Rightarrow> bool"
  match_code_of :: "string \<Rightarrow> string"
  verify_card :: "json \<Rightarrow> card_expectations \<Rightarrow> verified_card option"
  statement_documentation :: "string \<Rightarrow> string option"
  claim_type_ok :: "string \<Rightarrow> bool"
  vetted_value_ok :: "vetted_value \<Rightarrow> bool"
  verify_statement :: "json \<Rightarrow> instant \<Rightarrow> verified_statement option"
  decline_ok :: "decline_body \<Rightarrow> bool"
  revoke_ok :: "revoke_body \<Rightarrow> bool"

end
