(* ===== verification/Schedule.thy ===== *)
theory Schedule
  imports Wire "HOL-Library.AList"
begin

text \<open>
  The hidden-vetting parameters a community publishes and the drip schedule derived from them
  (\<open>openvtc-core/src/vetting/hidden.rs\<close>, with \<open>VetterView\<close> of \<open>pcs_vta.rs\<close>): reading a published
  tick length, the criticality rule for a criterion's extensions, ticks as windows of time, and
  what a vetter's client owes a community now.

  \<^item> A \<open>u32\<close> tick is a \<open>nat\<close> with its limit and its saturation written out; a \<open>usize\<close> rate
    is a \<open>nat\<close>. A \<open>BTreeMap\<close> is an association list used through \<open>map_of\<close> and
    \<open>AList.update\<close>; only its length and its lookups are observed.
  \<^item> chrono panics when an addition leaves its range. \<open>tick_start\<close>, \<open>next_window\<close> and
    \<open>current_window\<close> add a duration the community chose, so they are options: \<open>None\<close> is the
    panic.
  \<^item> The calendar is the proleptic Gregorian one chrono documents; deserialising the parameters
    (serde) is the argument \<open>parse_params\<close>.
\<close>

section \<open>The calendar\<close>

definition days_from_civil :: "int \<Rightarrow> int \<Rightarrow> int \<Rightarrow> day_number" where
  "days_from_civil y m d =
     (let y' = (if m \<le> 2 then y - 1 else y);
          doy = (153 * (if m > 2 then m - 3 else m + 9) + 2) div 5 + d - 1
      in 365 * y' + y' div 4 - y' div 100 + y' div 400 + doy - 719468)"

definition first_of_month :: "int \<Rightarrow> int \<Rightarrow> day_number option" where
  "first_of_month y m = (if 1 \<le> m \<and> m \<le> 12 then Some (days_from_civil y m 1) else None)"

definition first_of_next_month :: "int \<Rightarrow> int \<Rightarrow> day_number" where
  "first_of_next_month y m =
     (if m = 12 then days_from_civil (y + 1) 1 1 else days_from_civil y (m + 1) 1)"

text \<open>The instants chrono can hold, and the durations (\<open>i64::MAX\<close> milliseconds either way).\<close>

definition chrono_min :: instant where "chrono_min = day_start (days_from_civil (-262143) 1 1)"
definition chrono_max :: instant where "chrono_max = day_start (days_from_civil 262143 1 1) - 1"
definition duration_max :: duration where "duration_max = 9223372036854775807 * 1000000"

definition checked_instant :: "instant \<Rightarrow> instant option" where
  "checked_instant t = (if chrono_min \<le> t \<and> t \<le> chrono_max then Some t else None)"

definition checked_duration :: "duration \<Rightarrow> duration option" where
  "checked_duration d = (if \<bar>d\<bar> \<le> duration_max then Some d else None)"

definition u32_max :: nat where "u32_max = 4294967295"
definition i32_max :: nat where "i32_max = 2147483647"
definition i64_limit :: nat where "i64_limit = 9223372036854775808"

definition succ_u32 :: "nat \<Rightarrow> nat" where "succ_u32 t = min (Suc t) u32_max"

section \<open>The published parameters\<close>

definition hidden_vetting_ns :: string where "hidden_vetting_ns = ''org.openvtc.hidden-vetting''"
definition suite :: string where "suite = ''ps-ddh-bls12381''"

record event_tier =
  tier_name :: string
  tier_drip_per_tick :: nat

record event_offer =
  eo_event_id :: string
  eo_start_date :: day_number
  eo_end_date :: day_number
  eo_group_floor :: nat
  eo_tiers :: "event_tier list"

record hidden_params =
  hp_suite :: string
  hp_helper_key :: string
  hp_token_key :: string
  hp_vetter_labels :: "string list"
  hp_token_labels :: "string list"
  hp_drip_per_tick :: nat
  hp_events :: "event_offer list"
  hp_tick_length :: "string option"

definition default_tick_length :: duration where "default_tick_length = days 3"
definition min_tick_length :: duration where "min_tick_length = hours 1"

text \<open>One \<open>digits unit\<close> component, or nothing: the outer option is the refusal.\<close>

definition tick_component :: "string \<Rightarrow> char \<Rightarrow> nat option option" where
  "tick_component part u =
     (if part = [] then Some None
      else if last part \<noteq> u then None
      else let ds = butlast part in
        case parse_digits ds of
          None \<Rightarrow> None
        | Some n \<Rightarrow> if n < i64_limit then Some (Some n) else None)"

definition the_count :: "nat option \<Rightarrow> int" where
  "the_count n = (case n of None \<Rightarrow> 0 | Some k \<Rightarrow> int k)"

definition parse_tick_length :: "string \<Rightarrow> duration option" where
  "parse_tick_length text =
     Option.bind (strip_prefix ''P'' text) (\<lambda>rest.
     Option.bind
       (case split_once (CHR ''T'') rest of
          Some (date, time) \<Rightarrow> if time = [] then None else Some (date, Some time)
        | None \<Rightarrow> Some (rest, None)) (\<lambda>(date, time).
     Option.bind (tick_component date (CHR ''D'')) (\<lambda>d.
     Option.bind (case time of None \<Rightarrow> Some None | Some t \<Rightarrow> tick_component t (CHR ''H'')) (\<lambda>h.
       if d = None \<and> h = None then None
       else
         Option.bind (checked_duration (days (the_count d))) (\<lambda>dd.
         Option.bind (checked_duration (hours (the_count h))) (\<lambda>hh.
         Option.bind (checked_duration (dd + hh)) (\<lambda>total.
           if min_tick_length \<le> total then Some total else None)))))))"

definition tick_length :: "hidden_params \<Rightarrow> duration" where
  "tick_length p =
     (case hp_tick_length p of
        None \<Rightarrow> default_tick_length
      | Some text \<Rightarrow> (case parse_tick_length text of None \<Rightarrow> default_tick_length | Some d \<Rightarrow> d))"

definition same_keys :: "hidden_params \<Rightarrow> hidden_params \<Rightarrow> bool" where
  "same_keys p q \<longleftrightarrow>
     hp_suite p = hp_suite q \<and> hp_helper_key p = hp_helper_key q \<and> hp_token_key p = hp_token_key q"

section \<open>What a criterion asks of this client\<close>

datatype hidden_error =
    UnsupportedExtension string
  | Unreadable string
  | UnsupportedSuite string
  | NotEnrolled
  | NotReady
  | NoToken

datatype mode = ModeNamed | ModeHidden hidden_params

definition critical_namespaces :: "json \<Rightarrow> string list" where
  "critical_namespaces raw =
     (case jmember_array ''extCritical'' (jget ''vetting'' raw) of
        None \<Rightarrow> []
      | Some vs \<Rightarrow> List.map_filter jstr vs)"

definition read_mode :: "(json \<Rightarrow> string + hidden_params) \<Rightarrow> json \<Rightarrow> hidden_error + mode" where
  "read_mode parse_params raw =
     (let critical = critical_namespaces raw in
      case List.find (\<lambda>ns. ns \<noteq> hidden_vetting_ns) critical of
        Some unknown \<Rightarrow> Inl (UnsupportedExtension unknown)
      | None \<Rightarrow>
         (case jmember hidden_vetting_ns (jmember ''ext'' (jget ''vetting'' raw)) of
            None \<Rightarrow>
              if hidden_vetting_ns \<in> set critical
              then Inl (Unreadable ''named in extCritical but absent from ext'')
              else Inr ModeNamed
          | Some ours \<Rightarrow>
             (case parse_params ours of
                Inl e \<Rightarrow>
                  if hidden_vetting_ns \<in> set critical then Inl (Unreadable e) else Inr ModeNamed
              | Inr params \<Rightarrow>
                  if hp_suite params \<noteq> suite
                  then if hidden_vetting_ns \<in> set critical
                       then Inl (UnsupportedSuite (hp_suite params)) else Inr ModeNamed
                  else Inr (ModeHidden params))))"

definition accepts_named :: "json \<Rightarrow> bool" where
  "accepts_named raw \<longleftrightarrow>
     \<not> (case jmember_array ''extCritical'' (jget ''vetting'' raw) of
          None \<Rightarrow> False
        | Some vs \<Rightarrow> list_ex (\<lambda>ns. jstr ns = Some hidden_vetting_ns) vs)"

definition request_ext :: "string \<Rightarrow> string \<Rightarrow> json" where
  "request_ext s applicant_id =
     JObject [(hidden_vetting_ns, JObject [(''suite'', JString s), (''id'', JString applicant_id)])]"

definition read_request_ext :: "json option \<Rightarrow> hidden_error + string option" where
  "read_request_ext ext =
     (case jmember hidden_vetting_ns ext of
        None \<Rightarrow> Inr None
      | Some ours \<Rightarrow>
         (let s = (case jmember_str ''suite'' (Some ours) of None \<Rightarrow> [] | Some s \<Rightarrow> s) in
          if s \<noteq> suite then Inl (UnsupportedSuite s)
          else case jmember_str ''id'' (Some ours) of
                 Some i \<Rightarrow>
                   if i \<noteq> [] then Inr (Some i)
                   else Inl (Unreadable ''the request names this namespace but carries no identifier'')
               | None \<Rightarrow>
                   Inl (Unreadable ''the request names this namespace but carries no identifier'')))"

section \<open>The vetter's engine, as the VTA reports it\<close>

type_synonym tick = nat

record vetter_view =
  vw_id :: string
  vw_enrolled_labels :: "string list"
  vw_pending_labels :: "string list"
  vw_tokens_free :: nat
  vw_tokens_held :: nat
  vw_draws_in_flight :: "(string \<times> tick) list"
  vw_attested :: nat

definition default_view :: vetter_view where
  "default_view = \<lparr>vw_id = [], vw_enrolled_labels = [], vw_pending_labels = [], vw_tokens_free = 0,
     vw_tokens_held = 0, vw_draws_in_flight = [], vw_attested = 0\<rparr>"

definition period_of :: "string \<Rightarrow> string" where
  "period_of label = trim_start_matches ''vetter/'' label"

definition enrolled_for :: "vetter_view \<Rightarrow> string \<Rightarrow> bool" where
  "enrolled_for v period \<longleftrightarrow> list_ex (\<lambda>l. period_of l = period) (vw_enrolled_labels v)"

section \<open>Ticks\<close>

definition max_draws_per_pass :: nat where "max_draws_per_pass = 16"

datatype due = DueNothing | DueEnrol string | DueDraw string tick nat

record event_draw =
  ed_label :: string
  ed_rate :: nat
  ed_opens_on :: day_number
  ed_closes_after :: day_number

type_synonym ticks = "(string \<times> tick) list"

definition month_of_label :: "string \<Rightarrow> (instant \<times> instant) option" where
  "month_of_label label =
     Option.bind (strip_prefix ''token/'' label) (\<lambda>period.
     Option.bind (split_once (CHR ''-'') period) (\<lambda>(year, month).
       if length year \<noteq> 4 \<or> length month \<noteq> 2 then None
       else
         Option.bind (parse_i32 year) (\<lambda>y.
         Option.bind (parse_unsigned (2 ^ 32) month) (\<lambda>m.
         Option.bind (first_of_month y (int m)) (\<lambda>first.
           Some (day_start first, day_start (first_of_next_month y (int m))))))))"

definition tick_of :: "instant \<Rightarrow> duration \<Rightarrow> instant \<Rightarrow> tick option" where
  "tick_of start len now =
     (if now < start \<or> len \<le> 0 then None
      else let n = num_seconds (now - start) div num_seconds len
           in if n \<le> int u32_max then Some (nat n) else None)"

definition tick_start :: "instant \<Rightarrow> duration \<Rightarrow> tick \<Rightarrow> instant option" where
  "tick_start start len t =
     Option.bind (checked_duration (len * int (if t \<le> i32_max then t else i32_max)))
       (\<lambda>d. checked_instant (start + d))"

definition covers_now :: "instant \<Rightarrow> string \<Rightarrow> (string \<times> instant \<times> instant) option" where
  "covers_now now label =
     (case month_of_label label of
        None \<Rightarrow> None
      | Some (start, fin) \<Rightarrow> if start \<le> now \<and> now < fin then Some (label, start, fin) else None)"

fun find_map :: "('a \<Rightarrow> 'b option) \<Rightarrow> 'a list \<Rightarrow> 'b option" where
  "find_map f [] = None"
| "find_map f (x # xs) = (case f x of Some y \<Rightarrow> Some y | None \<Rightarrow> find_map f xs)"

definition current_month_label ::
  "hidden_params \<Rightarrow> instant \<Rightarrow> (string \<times> instant \<times> instant) option" where
  "current_month_label p now = find_map (covers_now now) (hp_token_labels p)"

definition next_tick :: "instant \<Rightarrow> duration \<Rightarrow> tick option \<Rightarrow> instant \<Rightarrow> tick option" where
  "next_tick start len served now =
     Option.bind (tick_of start len now) (\<lambda>current.
       let nxt = (case served of Some t \<Rightarrow> if t \<le> current then succ_u32 t else 0 | None \<Rightarrow> 0)
       in if nxt \<le> current then Some nxt else None)"

section \<open>What is owed\<close>

fun due_event :: "duration \<Rightarrow> ticks \<Rightarrow> instant \<Rightarrow> event_draw list \<Rightarrow> due" where
  "due_event len served now [] = DueNothing"
| "due_event len served now (e # es) =
     (if ed_closes_after e < date_naive now then due_event len served now es
      else case next_tick (day_start (ed_opens_on e)) len (map_of served (ed_label e)) now of
             Some t \<Rightarrow> DueDraw (ed_label e) t (ed_rate e)
           | None \<Rightarrow> due_event len served now es)"

definition due ::
  "hidden_params \<Rightarrow> vetter_view option \<Rightarrow> ticks \<Rightarrow> event_draw list \<Rightarrow> instant \<Rightarrow> due" where
  "due p engine served events now =
     (case hp_vetter_labels p of
        [] \<Rightarrow> DueNothing
      | l # _ \<Rightarrow>
         (let period = period_of l in
          if \<not> (case engine of None \<Rightarrow> False | Some v \<Rightarrow> enrolled_for v period) then DueEnrol period
          else
            (case Option.bind (current_month_label p now) (\<lambda>(label, start, _).
                    map_option (\<lambda>t. (label, t))
                      (next_tick start (tick_length p) (map_of served label) now)) of
               Some (label, t) \<Rightarrow> DueDraw label t (hp_drip_per_tick p)
             | None \<Rightarrow> due_event (tick_length p) served now events)))"

text \<open>\<open>next_of\<close> of \<open>next_window\<close>: the label's next tick after \<open>now\<close>, or its first.\<close>

definition next_of :: "duration \<Rightarrow> instant \<Rightarrow> instant \<Rightarrow> instant option" where
  "next_of len now start =
     (case tick_of start len now of
        None \<Rightarrow> Some start
      | Some t \<Rightarrow> tick_start start len (succ_u32 t))"

fun event_windows :: "duration \<Rightarrow> instant \<Rightarrow> event_draw list \<Rightarrow> instant list option" where
  "event_windows len now [] = Some []"
| "event_windows len now (e # es) =
     (if date_naive now \<le> ed_closes_after e
      then Option.bind (next_of len now (day_start (ed_opens_on e))) (\<lambda>w.
             map_option ((#) w) (event_windows len now es))
      else event_windows len now es)"

definition earliest :: "instant list \<Rightarrow> instant option" where
  "earliest ws = (case ws of [] \<Rightarrow> None | w # ws \<Rightarrow> Some (foldl min w ws))"

definition next_window ::
  "hidden_params \<Rightarrow> event_draw list \<Rightarrow> instant \<Rightarrow> instant option option" where
  "next_window p events now =
     (let len = tick_length p in
      Option.bind
        (case current_month_label p now of
           None \<Rightarrow> Some []
         | Some (_, start, fin) \<Rightarrow> map_option (\<lambda>w. [min w fin]) (next_of len now start)) (\<lambda>month.
      map_option (\<lambda>ws. earliest (month @ ws)) (event_windows len now events)))"

definition label_start :: "string \<Rightarrow> event_draw list \<Rightarrow> instant option" where
  "label_start label events =
     (case month_of_label label of
        Some (start, _) \<Rightarrow> Some start
      | None \<Rightarrow> map_option (\<lambda>e. day_start (ed_opens_on e)) (List.find (\<lambda>e. ed_label e = label) events))"

text \<open>\<open>current_window\<close>: the outer option is the panic, the inner one the answer.\<close>

definition current_window ::
  "hidden_params \<Rightarrow> string \<Rightarrow> event_draw list \<Rightarrow> instant \<Rightarrow> (tick \<times> instant \<times> instant) option option" where
  "current_window p label events now =
     (case Option.bind (label_start label events) (\<lambda>start.
             map_option (\<lambda>t. (start, t)) (tick_of start (tick_length p) now)) of
        None \<Rightarrow> Some None
      | Some (start, t) \<Rightarrow>
          Option.bind (tick_start start (tick_length p) t) (\<lambda>opened.
          Option.bind (tick_start start (tick_length p) (succ_u32 t)) (\<lambda>closes.
            Some (Some (t, opened, closes)))))"

definition settled_entry ::
  "hidden_params \<Rightarrow> event_draw list \<Rightarrow> instant \<Rightarrow> string \<times> tick \<Rightarrow> bool" where
  "settled_entry p events now e =
     (let (label, t) = e in
      (label \<in> set (hp_token_labels p) \<or> list_ex (\<lambda>d. ed_label d = label) events) \<and>
      (case Option.bind (label_start label events) (\<lambda>start. tick_of start (tick_length p) now) of
         None \<Rightarrow> False
       | Some current \<Rightarrow> t \<le> current))"

definition settle_ticks ::
  "ticks \<Rightarrow> hidden_params \<Rightarrow> event_draw list \<Rightarrow> instant \<Rightarrow> ticks \<times> bool" where
  "settle_ticks served p events now =
     (let kept = filter (settled_entry p events now) served
      in (kept, length kept \<noteq> length served))"

section \<open>Lengths and windows\<close>

lemma whole_hours: "days a + hours b = seconds (86400 * a + 3600 * b)"
  by simp

lemma parse_tick_length_whole:
  assumes "parse_tick_length text = Some d"
  shows "\<exists>s. 3600 \<le> s \<and> d = seconds s \<and> d \<le> duration_max"
proof -
  obtain a b where "d = days (the_count a) + hours (the_count b)" "min_tick_length \<le> d" "d \<le> duration_max"
    using assms
    by (auto simp: parse_tick_length_def bind_eq_Some_conv checked_duration_def split: if_splits prod.splits)
  then show ?thesis
    unfolding whole_hours min_tick_length_def
    by (intro exI [of _ "86400 * the_count a + 3600 * the_count b"]) auto
qed

lemma div_bounds:
  assumes "0 < (s :: int)"
  shows "s * (e div s) \<le> e \<and> e < s * (e div s + 1)"
  using mult_div_mod_eq [of s e] pos_mod_bound [OF assms, of e] pos_mod_sign [OF assms, of e]
  unfolding distrib_left mult_1_right by linarith

text \<open>
  What the schedule relies on about a tick length: it is a whole number of seconds and at least an
  hour. Everything about windows follows from it.
\<close>

locale tick_lengths =
  fixes len_of :: "'p \<Rightarrow> duration"
  assumes whole: "\<exists>s \<ge> 3600. len_of p = seconds s"
begin

lemma len_pos: "0 < len_of p"
  using whole [of p] by auto

lemma window:
  assumes "tick_of start (len_of p) now = Some t"
  shows "start + len_of p * int t \<le> now" and "now < start + len_of p * (int t + 1)"
    and "t \<le> u32_max"
proof -
  obtain s where s: "3600 \<le> s" "len_of p = seconds s"
    using whole by auto
  have le: "start \<le> now" and t: "int t = ((now - start) div nanos_per_second) div s"
    and bound: "int t \<le> int u32_max"
    using assms s pos_imp_zdiv_nonneg_iff [of s] pos_imp_zdiv_nonneg_iff [of nanos_per_second "now - start"]
    by (auto simp: tick_of_def num_seconds_nonneg Let_def split: if_splits)
  let ?e = "(now - start) div nanos_per_second"
  have "s * int t \<le> ?e" and "?e < s * (int t + 1)"
    using div_bounds [of s ?e] s(1) unfolding t by simp_all
  then have "seconds (s * int t) \<le> now - start" "now - start < seconds (s * (int t + 1))"
    by linarith+
  then show "start + len_of p * int t \<le> now" "now < start + len_of p * (int t + 1)"
    unfolding s(2) by (simp_all add: algebra_simps)
  show "t \<le> u32_max" using bound by simp
qed

lemma next_tick_sound:
  assumes "next_tick start (len_of p) served now = Some t"
  shows "start + len_of p * int t \<le> now"
    and "\<And>last. served = Some last \<Longrightarrow> start + len_of p * int last \<le> now \<Longrightarrow>
            last < u32_max \<Longrightarrow> last < t"
proof -
  obtain current where c: "tick_of start (len_of p) now = Some current" "t \<le> current"
    and t: "t = (case served of Some t \<Rightarrow> if t \<le> current then succ_u32 t else 0 | None \<Rightarrow> 0)"
    using assms by (auto simp: next_tick_def bind_eq_Some_conv Let_def split: if_splits)
  have "len_of p * int t \<le> len_of p * int current"
    using c(2) len_pos [of p] by (intro mult_left_mono) auto
  then show "start + len_of p * int t \<le> now"
    using window(1) [OF c(1)] by linarith
  fix last assume last: "served = Some last" "start + len_of p * int last \<le> now" "last < u32_max"
  have "len_of p * int last < len_of p * (int current + 1)"
    using window(2) [OF c(1)] last(2) by linarith
  then have "last \<le> current"
    using len_pos [of p] by (simp add: mult_less_cancel_left)
  then show "last < t"
    using t last(1,3) by (auto simp: succ_u32_def u32_max_def min_def split: if_splits)
qed

end

lemma tick_length_whole: "\<exists>s \<ge> 3600. tick_length p = seconds s"
  using parse_tick_length_whole
  by (fastforce simp: tick_length_def default_tick_length_def split: option.splits)

interpretation published: tick_lengths tick_length
  by unfold_locales (rule tick_length_whole)

section \<open>Months\<close>

lemma epoch: "days_from_civil 1970 1 1 = 0" and leap_day: "days_from_civil 2024 3 1 = days_from_civil 2024 2 29 + 1"
  by (simp_all add: days_from_civil_def)

lemma div_minus_one:
  assumes "0 < (k :: int)"
  shows "(y - 1) div k = (if k dvd y then y div k - 1 else y div k)"
proof (cases "k dvd y")
  case True
  then obtain q where "y = k * q" by blast
  then have "y - 1 = k * (q - 1) + (k - 1)" by (simp add: algebra_simps)
  with True assms \<open>y = k * q\<close> show ?thesis
    by (simp add: int_div_pos_eq)
next
  case False
  then have "y mod k \<noteq> 0" by (simp add: dvd_eq_mod_eq_0)
  with assms have "0 < y mod k" "y mod k - 1 < k"
    using pos_mod_sign [OF assms, of y] pos_mod_bound [OF assms, of y] by linarith+
  moreover have "y - 1 = k * (y div k) + (y mod k - 1)" by simp
  ultimately show ?thesis
    using False assms int_div_pos_eq [of "y - 1" k "y div k" "y mod k - 1"] by simp
qed

text \<open>A year has one day more than the last one, or none: the leap rule.\<close>

definition leap_days :: "int \<Rightarrow> int" where
  "leap_days y = y div 4 - y div 100 + y div 400"

lemma leap_step: "leap_days (y - 1) \<le> leap_days y" "leap_days y \<le> leap_days (y - 1) + 1"
proof -
  have "100 dvd y \<Longrightarrow> 4 dvd y" "400 dvd y \<Longrightarrow> 100 dvd y"
    by (auto elim: dvd_trans [rotated])
  then show "leap_days (y - 1) \<le> leap_days y" "leap_days y \<le> leap_days (y - 1) + 1"
    by (simp_all add: leap_days_def div_minus_one)
qed

lemma days_from_civil_leap:
  "days_from_civil y m d =
     (let y' = (if m \<le> 2 then y - 1 else y);
          doy = (153 * (if m > 2 then m - 3 else m + 9) + 2) div 5 + d - 1
      in 365 * y' + leap_days y' + doy - 719468)"
  by (simp add: days_from_civil_def leap_days_def Let_def)

lemma month_length:
  assumes "1 \<le> m" "m \<le> 12"
  shows "28 \<le> first_of_next_month y m - days_from_civil y m 1 \<and>
         first_of_next_month y m - days_from_civil y m 1 \<le> 31"
proof -
  from assms have "m = 1 \<or> m = 2 \<or> m = 3 \<or> m = 4 \<or> m = 5 \<or> m = 6 \<or> m = 7 \<or> m = 8 \<or> m = 9 \<or>
      m = 10 \<or> m = 11 \<or> m = 12"
    by arith
  then show ?thesis
    using leap_step [of y] by (elim disjE) (simp_all add: first_of_next_month_def days_from_civil_leap)
qed

lemma month_window:
  assumes "month_of_label label = Some (start, fin)"
  shows "days 28 \<le> fin - start" "fin - start \<le> days 31"
proof -
  obtain y m where "1 \<le> m" "m \<le> 12" "start = day_start (days_from_civil y m 1)"
    "fin = day_start (first_of_next_month y m)"
    using assms unfolding month_of_label_def bind_eq_Some_conv first_of_month_def
    by (auto split: if_splits prod.splits simp: Option.bind_eq_Some_conv)
       (metis of_nat_1 of_nat_le_iff of_nat_numeral One_nat_def)
  then show "days 28 \<le> fin - start" "fin - start \<le> days 31"
    using month_length [of m y] by (simp_all add: day_start_def)
qed

lemma find_map_Some: "find_map f xs = Some y \<Longrightarrow> \<exists>x \<in> set xs. f x = Some y"
  by (induction xs) (auto split: option.splits)

lemma current_month_label_Some:
  assumes "current_month_label p now = Some (label, start, fin)"
  shows "label \<in> set (hp_token_labels p) \<and> month_of_label label = Some (start, fin) \<and> start \<le> now \<and> now < fin"
  using assms unfolding current_month_label_def
  by (auto dest!: find_map_Some simp: covers_now_def split: option.splits if_splits prod.splits)

text \<open>A month holds at most 744 ticks, so its tick is always found.\<close>

lemma tick_of_found:
  assumes "start \<le> now" "now - start < hours (int n)" "n \<le> u32_max"
  shows "\<exists>t. tick_of start (tick_length p) now = Some t \<and> t < n"
proof -
  obtain s where s: "3600 \<le> s" "tick_length p = seconds s"
    using tick_length_whole by blast
  let ?e = "(now - start) div nanos_per_second"
  have e: "0 \<le> ?e" "?e < 3600 * int n"
    using assms(1,2) div_bounds [of nanos_per_second "now - start"]
    by (auto simp: pos_imp_zdiv_nonneg_iff)
  have "s * (?e div s) < s * int n"
    using div_bounds [of s ?e] e s(1) mult_right_mono [of 3600 s "int n"] by linarith
  then have lt: "?e div s < int n"
    using s(1) by (simp add: mult_less_cancel_left)
  have "0 \<le> ?e div s"
    using e(1) s(1) by (simp add: pos_imp_zdiv_nonneg_iff)
  with lt show ?thesis
    using assms(1,3) s by (simp add: tick_of_def num_seconds_nonneg Let_def)
qed

section \<open>Properties of the schedule\<close>

lemma due_event_sound:
  assumes "due_event (tick_length p) served now events = DueDraw label t rate"
  shows "\<exists>e \<in> set events. ed_label e = label \<and> ed_rate e = rate \<and> date_naive now \<le> ed_closes_after e \<and>
           next_tick (day_start (ed_opens_on e)) (tick_length p) (map_of served label) now = Some t"
  using assms by (induction events) (auto split: if_splits option.splits)

lemma due_event_never_enrols: "due_event len served now events \<noteq> DueEnrol period"
  by (induction events) (auto split: option.splits)

lemma due_cases:
  "due p engine served events now =
     (case hp_vetter_labels p of
        [] \<Rightarrow> DueNothing
      | l # _ \<Rightarrow>
          if \<not> (case engine of None \<Rightarrow> False | Some v \<Rightarrow> enrolled_for v (period_of l)) then DueEnrol (period_of l)
          else
            (case current_month_label p now of
               None \<Rightarrow> due_event (tick_length p) served now events
             | Some (label, start, fin) \<Rightarrow>
                (case next_tick start (tick_length p) (map_of served label) now of
                   Some t \<Rightarrow> DueDraw label t (hp_drip_per_tick p)
                 | None \<Rightarrow> due_event (tick_length p) served now events)))"
  by (auto simp: due_def Let_def split: list.splits option.splits prod.splits)

text \<open>The label a draw is for, where its ticks are counted from, and its published rate.\<close>

definition draw_source ::
  "hidden_params \<Rightarrow> event_draw list \<Rightarrow> instant \<Rightarrow> string \<Rightarrow> nat \<Rightarrow> instant \<Rightarrow> bool" where
  "draw_source p events now label rate start \<longleftrightarrow>
     ((\<exists>fin. current_month_label p now = Some (label, start, fin)) \<and> rate = hp_drip_per_tick p) \<or>
     (\<exists>e \<in> set events. ed_label e = label \<and> ed_rate e = rate \<and> date_naive now \<le> ed_closes_after e \<and>
        start = day_start (ed_opens_on e))"

lemma due_draw_next_tick:
  assumes "due p engine served events now = DueDraw label t rate"
  shows "\<exists>start. draw_source p events now label rate start \<and>
           next_tick start (tick_length p) (map_of served label) now = Some t"
  using assms unfolding due_cases draw_source_def
  by (auto split: list.splits if_splits option.splits prod.splits dest!: due_event_sound; blast)

text \<open>Never ahead of the clock and never twice: a draw the schedule owes is for the current
  month's label or an approved event still open, at the published rate, for a tick whose window
  has opened, and later than every tick of that label already served.\<close>

theorem due_draw_sound:
  assumes "due p engine served events now = DueDraw label t rate"
  shows "\<exists>start. draw_source p events now label rate start \<and>
           start + tick_length p * int t \<le> now \<and>
           (\<forall>last. map_of served label = Some last \<and> last < u32_max \<and>
                   start + tick_length p * int last \<le> now \<longrightarrow> last < t)"
  using due_draw_next_tick [OF assms] published.next_tick_sound by blast

definition october :: hidden_params where
  "october = \<lparr>hp_suite = suite, hp_helper_key = ''zHelper'', hp_token_key = ''zToken'',
     hp_vetter_labels = [''vetter/2026-10''], hp_token_labels = [''token/2026-10''],
     hp_drip_per_tick = 3, hp_events = [], hp_tick_length = None\<rparr>"

definition october_view :: vetter_view where
  "october_view = default_view\<lparr>vw_id := ''zMe'', vw_enrolled_labels := [''vetter/2026-10'']\<rparr>"

definition oct_10 :: instant where "oct_10 = day_start (days_from_civil 2026 10 10)"

lemma strip_vetter: "period_of ''vetter/2026-10'' = ''2026-10''"
  by (simp add: period_of_def trim_start_matches.simps)

lemma october_digits: "parse_i32 ''2026'' = Some 2026" "parse_unsigned 4294967296 ''10'' = Some 10"
  by (simp_all add: parse_i32_def parse_unsigned_def parse_digits_def digits_value_def digit_value_def
      ascii_digit_def)

lemma october_month:
  "month_of_label ''token/2026-10''
     = Some (day_start (days_from_civil 2026 10 1), day_start (days_from_civil 2026 11 1))"
  by (simp add: month_of_label_def first_of_month_def first_of_next_month_def october_digits)

lemma october_due:
  "due october (Some october_view) [(''token/2026-10'', 1)] [] oct_10 = DueDraw ''token/2026-10'' 2 3"
  by (simp add: due_cases october_def october_view_def oct_10_def enrolled_for_def strip_vetter
      current_month_label_def covers_now_def october_month next_tick_def tick_of_def tick_length_def
      default_tick_length_def num_seconds_def day_start_def days_from_civil_def u32_max_def succ_u32_def)

theorem due_draw_sound_witness:
  "\<exists>start. draw_source october [] oct_10 ''token/2026-10'' 3 start \<and> start + tick_length october * 2 \<le> oct_10"
  using due_draw_sound [OF october_due] by auto

text \<open>The window a client waits for next is always still to come, as long as the calendar stays
  within 32-bit ticks and chrono's range: the schedule never sleeps until a moment already past.\<close>

lemma next_of_future:
  assumes "next_of (tick_length p) now start = Some w" "now - start < hours (int n)" "n \<le> i32_max"
  shows "now < w"
proof (cases "now < start")
  case True
  with assms(1) show ?thesis
    by (simp add: next_of_def tick_of_def split: option.splits)
next
  case False
  then obtain t where t: "tick_of start (tick_length p) now = Some t" "t < n"
    using tick_of_found [of start now n p] assms(2,3) by (auto simp: i32_max_def u32_max_def)
  then have "succ_u32 t = Suc t" "Suc t \<le> i32_max"
    using assms(3) by (auto simp: succ_u32_def u32_max_def i32_max_def)
  with assms(1) t(1) have "w = start + tick_length p * (int t + 1)"
    by (auto simp: next_of_def tick_start_def bind_eq_Some_conv checked_duration_def checked_instant_def
        add.commute split: if_splits)
  with published.window(2) [OF t(1)] show ?thesis by simp
qed

lemma event_windows_future:
  assumes "event_windows (tick_length p) now events = Some ws" "w \<in> set ws"
    and "\<And>e. e \<in> set events \<Longrightarrow> now - day_start (ed_opens_on e) < hours (int i32_max)"
  shows "now < w"
  using assms
proof (induction events arbitrary: ws)
  case (Cons e es)
  show ?case
  proof (cases "date_naive now \<le> ed_closes_after e")
    case True
    with Cons.prems(1) obtain v vs where
      v: "next_of (tick_length p) now (day_start (ed_opens_on e)) = Some v"
      and vs: "event_windows (tick_length p) now es = Some vs" and ws: "ws = v # vs"
      by (auto simp: bind_eq_Some_conv)
    have "now < v"
      by (rule next_of_future [OF v]) (use Cons.prems(3) in auto)
    with Cons.IH [OF vs] Cons.prems(2,3) ws show ?thesis by auto
  next
    case False
    with Cons show ?thesis by auto
  qed
qed simp

lemma earliest_in: "earliest ws = Some w \<Longrightarrow> w \<in> set ws"
proof -
  have "foldl min a vs \<in> insert a (set vs)" for a :: int and vs
    by (induction vs arbitrary: a) (auto simp: min_def)
  then show "earliest ws = Some w \<Longrightarrow> w \<in> set ws"
    unfolding earliest_def by (auto split: list.splits)
qed

theorem next_window_future:
  assumes "next_window p events now = Some (Some w)"
    and "\<And>e. e \<in> set events \<Longrightarrow> now - day_start (ed_opens_on e) < hours (int i32_max)"
  shows "now < w"
proof -
  obtain month ws where ws: "event_windows (tick_length p) now events = Some ws"
    and w: "earliest (month @ ws) = Some w"
    and month: "(case current_month_label p now of
           None \<Rightarrow> Some []
         | Some (_, start, fin) \<Rightarrow> map_option (\<lambda>w. [min w fin]) (next_of (tick_length p) now start)) = Some month"
    using assms(1) by (auto simp: next_window_def Let_def bind_eq_Some_conv)
  have "now < v" if "v \<in> set month" for v
  proof (cases "current_month_label p now")
    case None
    with month that show ?thesis by simp
  next
    case (Some c)
    obtain label start fin where c: "c = (label, start, fin)" by (cases c)
    note cur = current_month_label_Some [OF Some [unfolded c]]
    with month_window [of label start fin] have small: "now - start < hours (int 744)" by simp
    from month Some c obtain u where "next_of (tick_length p) now start = Some u" "month = [min u fin]"
      by auto
    with next_of_future [OF _ small] cur that show ?thesis by (simp add: i32_max_def)
  qed
  with event_windows_future [OF ws _ assms(2)] earliest_in [OF w] show ?thesis by auto
qed

lemma october_window: "next_window october [] oct_10 = Some (Some (oct_10 + days 3))"
  by (simp add: next_window_def october_def oct_10_def current_month_label_def covers_now_def october_month
      next_of_def tick_of_def tick_start_def tick_length_def default_tick_length_def num_seconds_def
      day_start_def days_from_civil_def u32_max_def i32_max_def succ_u32_def checked_duration_def
      checked_instant_def duration_max_def chrono_min_def chrono_max_def earliest_def)

theorem next_window_future_witness: "oct_10 < oct_10 + days 3"
  by (rule next_window_future [OF october_window]) simp

text \<open>A published tick length is not bounded above: one whose first window already ends past
  chrono's last instant is accepted, and asking when the next window opens then panics, whatever
  events there are. The community's manifest decides the length.\<close>

theorem long_tick_panics:
  assumes "current_month_label p now = Some (label, start, fin)" and "now \<le> chrono_max"
    and "chrono_max < start + tick_length p"
  shows "next_window p events now = None"
proof -
  have "start \<le> now"
    using current_month_label_Some [OF assms(1)] by simp
  obtain s where s: "3600 \<le> s" "tick_length p = seconds s"
    using tick_length_whole by blast
  have "num_seconds (now - start) < s"
    using \<open>start \<le> now\<close> assms(2,3) s(2) div_bounds [of nanos_per_second "now - start"]
    by (simp add: num_seconds_nonneg)
  moreover have "0 \<le> num_seconds (now - start)"
    using \<open>start \<le> now\<close> by (simp add: num_seconds_nonneg pos_imp_zdiv_nonneg_iff)
  ultimately have "tick_of start (tick_length p) now = Some 0"
    using \<open>start \<le> now\<close> s by (simp add: tick_of_def)
  then have "next_of (tick_length p) now start = None"
    using assms(3) by (simp add: next_of_def tick_start_def succ_u32_def u32_max_def i32_max_def
        checked_duration_def checked_instant_def)
  then show ?thesis
    using assms(1) by (simp add: next_window_def)
qed

lemma endless_tick: "parse_tick_length ''P96000000D'' = Some (days 96000000)"
  by (simp add: parse_tick_length_def tick_component_def parse_digits_def ascii_digit_def digits_value_def
      digit_value_def i64_limit_def checked_duration_def duration_max_def the_count_def min_tick_length_def)

theorem long_tick_panics_witness:
  "next_window (october\<lparr>hp_tick_length := Some ''P96000000D''\<rparr>) [] oct_10 = None"
proof (rule long_tick_panics)
  show "current_month_label (october\<lparr>hp_tick_length := Some ''P96000000D''\<rparr>) oct_10
      = Some (''token/2026-10'', day_start (days_from_civil 2026 10 1), day_start (days_from_civil 2026 11 1))"
    by (simp add: october_def oct_10_def current_month_label_def covers_now_def october_month
        day_start_def days_from_civil_def)
qed (simp_all add: tick_length_def october_def endless_tick oct_10_def day_start_def days_from_civil_def
      chrono_max_def)

section \<open>Properties of the criticality rule\<close>

lemma accepts_named_iff: "accepts_named raw \<longleftrightarrow> hidden_vetting_ns \<notin> set (critical_namespaces raw)"
proof -
  have "hidden_vetting_ns \<in> set (List.map_filter jstr vs)
      \<longleftrightarrow> list_ex (\<lambda>ns. jstr ns = Some hidden_vetting_ns) vs" for vs
    by (induction vs) (auto simp: List.map_filter_simps split: option.splits)
  then show ?thesis
    by (simp add: accepts_named_def critical_namespaces_def split: option.splits)
qed

definition unusable :: "(json \<Rightarrow> string + hidden_params) \<Rightarrow> json \<Rightarrow> bool" where
  "unusable parse_params raw \<longleftrightarrow>
     (case jmember hidden_vetting_ns (jmember ''ext'' (jget ''vetting'' raw)) of
        None \<Rightarrow> True
      | Some ours \<Rightarrow> (case parse_params ours of Inl _ \<Rightarrow> True | Inr p \<Rightarrow> hp_suite p \<noteq> suite))"

text \<open>A criterion is refused exactly when it marks critical a namespace this build does not
  implement, or marks our own critical and it is absent, unreadable or of another suite. Parameters
  that are not marked critical never cost the applicant the criterion.\<close>

theorem read_mode_refuses_iff:
  "(\<exists>e. read_mode parse_params raw = Inl e) =
     ((\<exists>ns \<in> set (critical_namespaces raw). ns \<noteq> hidden_vetting_ns) \<or>
      (hidden_vetting_ns \<in> set (critical_namespaces raw) \<and> unusable parse_params raw))"
proof (cases "List.find (\<lambda>ns. ns \<noteq> hidden_vetting_ns) (critical_namespaces raw)")
  case None
  then have "\<forall>ns \<in> set (critical_namespaces raw). ns = hidden_vetting_ns"
    by (auto simp: find_None_iff)
  with None show ?thesis
    by (auto simp: read_mode_def unusable_def Let_def split: option.splits sum.splits)
next
  case (Some ns)
  with find_SomeD [OF Some] show ?thesis
    by (auto simp: read_mode_def Let_def)
qed

text \<open>The identifier an applicant puts in a request's extension is the one a vetter reads back,
  as long as it is not empty and the suite is the one this build implements; any other suite is an
  error, not silence.\<close>

theorem request_ext_roundtrip:
  assumes "applicant_id \<noteq> []"
  shows "read_request_ext (Some (request_ext s applicant_id)) =
           (if s = suite then Inr (Some applicant_id) else Inl (UnsupportedSuite s))"
  using assms by (simp add: read_request_ext_def request_ext_def json_access suite_def)

theorem request_ext_roundtrip_witness:
  "read_request_ext (Some (request_ext suite ''zApplicant'')) = Inr (Some ''zApplicant'')"
  using request_ext_roundtrip [of "''zApplicant''" suite] by simp

end
