(* ===== verification/Applicant.thy ===== *)
theory Applicant
  imports Schedule
begin

text \<open>
  The applicant's side (\<open>openvtc-core/src/vetting/applicant.rs\<close>): one application to one community,
  which gathers vetters' statements until the community's published requirements are met.

  Methods that mutate \<open>self\<close> return the new record; each returns early before it writes anything, so
  an error leaves the application as it was. The application's \<open>extra\<close> map (members of a newer build,
  kept verbatim) is left out, as are the texts of schema errors. \<open>applicant_sdk\<close> holds what is
  called outside the repository: schema checks, verification, the checklist's evaluation, the parsing
  of published parameters, the SDK's constants.
\<close>

section \<open>Types\<close>

record open_session =
  os_id :: string
  os_challenge :: string
  os_domain :: string
  os_method :: vetting_method
  os_required_claims :: "string list"
  os_optional_claims :: "string list"
  os_expires_at :: instant
  os_match_code :: string
  os_document :: "json option"

record sent_card =
  sc_id :: string
  sc_digest :: string
  sc_identity_commitment :: string
  sc_sent_at :: instant

datatype vetter_eligibility =
    Shown "string option" instant
  | NotShown
  | FailedToShow string

datatype grant_status =
    GrantChecking instant
  | GrantActive instant
  | GrantRevoked instant
  | GrantUnknown string instant

datatype status_check = StatusActive | StatusRevoked | StatusUnknown string

definition from_check :: "status_check \<Rightarrow> instant \<Rightarrow> grant_status" where
  "from_check check now =
     (case check of
        StatusActive \<Rightarrow> GrantActive now
      | StatusRevoked \<Rightarrow> GrantRevoked now
      | StatusUnknown reason \<Rightarrow> GrantUnknown reason now)"

datatype request_state =
    Sent
  | Accepted string "string list" "string option"
  | InSession string open_session "sent_card option"
  | Attested string string
  | Declined "decline_code option" "string option"
  | RequestRefused string "string option"

record outbound_request =
  or_document_id :: string
  or_vetter :: string
  or_state :: request_state
  or_eligibility :: "vetter_eligibility option"
  or_grant_status :: "grant_status option"
  or_sent_at :: instant
  or_updated_at :: instant

record held_statement =
  hs_id :: string
  hs_vetter :: string
  hs_method :: vetting_method
  hs_declared_relationship :: relationship
  hs_document_classes :: "string list"
  hs_claims_verified :: "string list"
  hs_identity_commitment :: string
  hs_valid_from :: instant
  hs_valid_until :: instant
  hs_received_at :: instant
  hs_credential :: json

datatype vetting_path = PathNamed | PathHidden

record chosen_face =
  cf_profile_id :: string
  cf_name :: string

record attestation_meta =
  am_community :: string
  am_requirements_digest :: string
  am_method :: vetting_method
  am_claims_verified :: "string list"
  am_liveness_confirmed :: bool
  am_declared_relationship :: relationship
  am_identity_commitment :: string
  am_card_digest :: string
  am_valid_from :: day_number
  am_valid_until :: day_number
  am_token_label :: string
  am_token_serial :: string

record application_view =
  av_application_id :: string
  av_id :: string
  av_attestations :: "attestation_meta list"

record application =
  ap_id :: string
  ap_community :: string
  ap_persona :: persona_id
  ap_join_did :: string
  ap_context_id :: "string option"
  ap_criterion_id :: "string option"
  ap_requirements :: "vetting_requirements option"
  ap_requirements_digest :: "string option"
  ap_hidden :: "hidden_params option"
  ap_hidden_app :: "application_view option"
  ap_local_engine_dropped :: bool
  ap_hidden_submission :: "json option"
  ap_hidden_challenge :: "string option"
  ap_vetting_path :: "vetting_path option"
  ap_criterion_repicked :: "string option"
  ap_commitment_salt :: string
  ap_face :: "chosen_face option"
  ap_identity_claims :: "card_claim list"
  ap_requests :: "outbound_request list"
  ap_statements :: "held_statement list"
  ap_created_at :: instant

datatype applicant_error =
    HiddenErr hidden_error
  | NoMatchingRequest
  | WrongState string
  | Shape
  | WrongCommunity
  | SessionExpired
  | MissingClaim string
  | ValueWithheld string
  | StaleClaim string
  | IdentityChanged string
  | VettingErr
  | Binding string
  | NoVettingCriterion
  | InvalidRequirements

datatype next_step =
    SendCard string
  | LearnRequirements
  | Join
  | ChooseFace
  | AskVetter
  | WaitForVetters

datatype stale_attestation = StaleCriterion | StaleTokenLabel string

record ticket_uri =
  tu_community :: string
  tu_vetter :: string
  tu_presentation :: presented_ticket

datatype ticket_uri_error = UnreadableUri | OtherCommunity string

record request_draft =
  rd_preferred_method :: "vetting_method option"
  rd_languages :: "string list"
  rd_message :: "string option"
  rd_availability :: "string option"

record released_claim =
  rel_claim_type :: string
  rel_value :: "json option"
  rel_provenance :: "string option"
  rel_stale :: bool

record card_draft =
  cd_id :: string
  cd_publisher :: string
  cd_audience :: string
  cd_community :: string
  cd_challenge :: string
  cd_domain :: string
  cd_issued_at :: instant
  cd_validity :: duration
  cd_claims :: "card_claim list"
  cd_identity_types :: "string list"
  cd_salt :: string

record manifest_criterion =
  mc_id :: string
  mc_vetting :: "vetting_requirements option"
  mc_digest :: string
  mc_description :: "string option"
  mc_presentation :: "(string \<times> json) list"

record applicant_sdk =
  sdk_check_request :: "request_body \<Rightarrow> string \<Rightarrow> bool"
  sdk_request_schema :: "request_body \<Rightarrow> bool"
  sdk_requirements_ok :: "vetting_requirements \<Rightarrow> bool"
  sdk_response_ok :: "request_response \<Rightarrow> bool"
  sdk_session_ok :: "session_body \<Rightarrow> bool"
  sdk_method_of :: "string \<Rightarrow> vetting_method option"
  sdk_method_token :: "vetting_method \<Rightarrow> string option"
  sdk_decline_ok :: "decline_body \<Rightarrow> bool"
  sdk_card_claim_ok :: "card_claim \<Rightarrow> bool"
  sdk_match_code :: "string \<Rightarrow> string"
  sdk_verify_card :: "json \<Rightarrow> card_expectations \<Rightarrow> verified_card option"
  sdk_verify_statement :: "json \<Rightarrow> instant \<Rightarrow> verified_statement option"
  sdk_vetter_members :: "vetted_value \<Rightarrow> vetter_members option"
  sdk_check_against_session :: "verified_statement \<Rightarrow> json \<Rightarrow> bool"
  sdk_evaluate :: "vetting_requirements \<Rightarrow> statement_facts list \<Rightarrow> instant \<Rightarrow> evaluation"
  sdk_parse_params :: "json \<Rightarrow> string + hidden_params"
  sdk_decode_ticket :: "string \<Rightarrow> ticket_uri option"
  sdk_vetter_role :: string
  sdk_max_card_validity :: duration

section \<open>What an application gathers for\<close>

text \<open>A new application; \<open>salt\<close> is \<open>new_commitment_salt()\<close>, absent without randomness.\<close>

definition new_application ::
  "string \<Rightarrow> string \<Rightarrow> persona_id \<Rightarrow> string \<Rightarrow> string option \<Rightarrow> instant \<Rightarrow> application option" where
  "new_application fresh_id community persona join_did salt now =
     map_option (\<lambda>salt.
       \<lparr>ap_id = fresh_id, ap_community = community, ap_persona = persona, ap_join_did = join_did,
        ap_context_id = None, ap_criterion_id = None, ap_requirements = None,
        ap_requirements_digest = None, ap_hidden = None, ap_hidden_app = None,
        ap_local_engine_dropped = False, ap_hidden_submission = None, ap_hidden_challenge = None,
        ap_vetting_path = None, ap_criterion_repicked = None, ap_commitment_salt = salt,
        ap_face = None, ap_identity_claims = [], ap_requests = [], ap_statements = [],
        ap_created_at = now\<rparr>) salt"

definition holds_hidden_attestation :: "application \<Rightarrow> bool" where
  "holds_hidden_attestation a \<longleftrightarrow>
     (case ap_hidden_app a of None \<Rightarrow> False | Some h \<Rightarrow> av_attestations h \<noteq> [])"

definition holds_evidence :: "application \<Rightarrow> bool" where
  "holds_evidence a \<longleftrightarrow> ap_statements a \<noteq> [] \<or> holds_hidden_attestation a"

definition under_way :: "application \<Rightarrow> bool" where
  "under_way a \<longleftrightarrow> ap_requests a \<noteq> [] \<or> holds_evidence a"

definition default_path :: "application \<Rightarrow> vetting_path" where
  "default_path a = (if ap_hidden a = None \<and> under_way a then PathNamed else PathHidden)"

text \<open>\<open>book.rs\<close>: requirements are the same when they serialise to the same value.\<close>

definition same_requirements :: "vetting_requirements \<Rightarrow> vetting_requirements \<Rightarrow> bool" where
  "same_requirements r q \<longleftrightarrow> vr_wire r = vr_wire q"

definition offered_hidden :: "applicant_sdk \<Rightarrow> json option \<Rightarrow> hidden_error + hidden_params option" where
  "offered_hidden sdk raw =
     (case raw of
        None \<Rightarrow> Inr None
      | Some r \<Rightarrow> rbind (read_mode (sdk_parse_params sdk) r) (\<lambda>m.
                   case m of ModeHidden p \<Rightarrow> Inr (Some p) | ModeNamed \<Rightarrow> Inr None))"

definition adopted_hidden :: "hidden_params option \<Rightarrow> json option \<Rightarrow> application \<Rightarrow> hidden_params option" where
  "adopted_hidden offered raw a =
     (let accepts = (case raw of None \<Rightarrow> True | Some r \<Rightarrow> accepts_named r);
          path = (case ap_vetting_path a of None \<Rightarrow> default_path a | Some p \<Rightarrow> p)
      in case offered of
           Some params \<Rightarrow> if \<not> accepts \<or> path = PathHidden then Some params else None
         | None \<Rightarrow> None)"

definition adopt_criterion ::
  "applicant_sdk \<Rightarrow> string \<Rightarrow> vetting_requirements \<Rightarrow> string option \<Rightarrow> json option \<Rightarrow> application \<Rightarrow>
   applicant_error + application \<times> bool" where
  "adopt_criterion sdk criterion reqs digest raw a =
     rbind (ensure (sdk_requirements_ok sdk reqs) InvalidRequirements) (\<lambda>_.
     let changed = \<not> (case ap_requirements a of None \<Rightarrow> False | Some r \<Rightarrow> same_requirements r reqs) \<or>
                   ap_requirements_digest a \<noteq> digest \<or> ap_criterion_id a \<noteq> Some criterion
     in rbind (map_err HiddenErr (offered_hidden sdk raw)) (\<lambda>offered.
        let hidden = adopted_hidden offered raw a;
            repicked = (case ap_criterion_id a of
                          Some previous \<Rightarrow> if previous \<noteq> criterion then Some previous else ap_criterion_repicked a
                        | None \<Rightarrow> ap_criterion_repicked a)
        in Inr (a\<lparr>ap_criterion_repicked := repicked, ap_criterion_id := Some criterion,
                  ap_requirements := Some reqs, ap_requirements_digest := digest, ap_hidden := hidden\<rparr>,
                changed \<or> ap_hidden a \<noteq> hidden)))"

text \<open>A criterion as the manifest carried it, found by its id.\<close>

definition raw_criterion :: "json \<Rightarrow> string \<Rightarrow> json option" where
  "raw_criterion raw criterion =
     Option.bind (jmember_array ''criteria'' (Some raw)) (\<lambda>cs.
       List.find (\<lambda>c. jmember_str ''id'' (Some c) = Some criterion) cs)"

definition offers_hidden :: "applicant_sdk \<Rightarrow> json \<Rightarrow> manifest_criterion \<Rightarrow> bool" where
  "offers_hidden sdk raw c \<longleftrightarrow>
     (case raw_criterion raw (mc_id c) of
        None \<Rightarrow> False
      | Some r \<Rightarrow> (case read_mode (sdk_parse_params sdk) r of Inr (ModeHidden _) \<Rightarrow> True | _ \<Rightarrow> False))"

definition choose_criterion ::
  "applicant_sdk \<Rightarrow> manifest_criterion list \<Rightarrow> json \<Rightarrow> application \<Rightarrow> manifest_criterion option" where
  "choose_criterion sdk criteria raw a =
     (let with_vetting = filter (\<lambda>c. mc_vetting c \<noteq> None) criteria;
          kept = Option.bind (ap_criterion_id a) (\<lambda>i. List.find (\<lambda>c. mc_id c = i) with_vetting)
      in case kept of
           Some c \<Rightarrow> Some c
         | None \<Rightarrow>
             (case (if under_way a then None else List.find (offers_hidden sdk raw) with_vetting) of
                Some c \<Rightarrow> Some c
              | None \<Rightarrow> (case with_vetting of [] \<Rightarrow> None | c # _ \<Rightarrow> Some c)))"

definition adopt_manifest ::
  "applicant_sdk \<Rightarrow> manifest_criterion list \<Rightarrow> json \<Rightarrow> application \<Rightarrow> applicant_error + application \<times> bool" where
  "adopt_manifest sdk criteria raw a =
     rbind (ok_or NoVettingCriterion
              (Option.bind (choose_criterion sdk criteria raw a)
                 (\<lambda>c. map_option (\<lambda>r. (c, r)) (mc_vetting c)))) (\<lambda>(c, reqs).
       adopt_criterion sdk (mc_id c) reqs (Some (mc_digest c)) (raw_criterion raw (mc_id c)) a)"

section \<open>Requests\<close>

definition hidden_id :: "application \<Rightarrow> string option" where
  "hidden_id a = map_option av_id (ap_hidden_app a)"

definition request_document ::
  "applicant_sdk \<Rightarrow> presented_ticket \<Rightarrow> request_draft \<Rightarrow> application \<Rightarrow> request_body option" where
  "request_document sdk ticket draft a =
     Option.bind (case rd_preferred_method draft of
                    None \<Rightarrow> Some None
                  | Some m \<Rightarrow> map_option Some (sdk_method_token sdk m)) (\<lambda>preferred.
     let body = \<lparr>rq_community = ap_community a, rq_join_did = ap_join_did a, rq_ticket = Some ticket,
                 rq_introduction = [], rq_requirements_digest = ap_requirements_digest a,
                 rq_preferred_method = preferred,
                 rq_languages = (if rd_languages draft \<noteq> [] then Some (rd_languages draft) else None),
                 rq_message = rd_message draft, rq_availability = rd_availability draft, rq_ext = None\<rparr>
     in if \<not> sdk_request_schema sdk body then None
        else case hidden_id a of
               None \<Rightarrow> Some body
             | Some i \<Rightarrow>
                 let body = body\<lparr>rq_ext := Some (request_ext suite i)\<rparr>
                 in if sdk_request_schema sdk body then Some body else None)"

definition prepare_request ::
  "applicant_sdk \<Rightarrow> string \<Rightarrow> string \<Rightarrow> presented_ticket \<Rightarrow> request_draft \<Rightarrow> instant \<Rightarrow> application \<Rightarrow>
   applicant_error + application \<times> request_body" where
  "prepare_request sdk document_id vetter ticket draft now a =
     rbind (ok_or Shape (request_document sdk ticket draft a)) (\<lambda>body.
     rbind (ensure (sdk_check_request sdk body (ap_join_did a)) Shape) (\<lambda>_.
       Inr (a\<lparr>ap_requests := ap_requests a @
                [\<lparr>or_document_id = document_id, or_vetter = vetter, or_state = Sent, or_eligibility = None,
                  or_grant_status = None, or_sent_at = now, or_updated_at = now\<rparr>]\<rparr>, body)))"

definition forget_unsent :: "string \<Rightarrow> application \<Rightarrow> application \<times> bool" where
  "forget_unsent document_id a =
     (let kept = filter (\<lambda>r. \<not> (or_document_id r = document_id \<and> or_state r = Sent)) (ap_requests a)
      in (a\<lparr>ap_requests := kept\<rparr>, length kept \<noteq> length (ap_requests a)))"

definition sent :: "string \<Rightarrow> application \<Rightarrow> bool" where
  "sent document_id a \<longleftrightarrow> list_ex (\<lambda>r. or_document_id r = document_id) (ap_requests a)"

text \<open>The request a reply threads on, and the last one under the vetter's own handle.\<close>

definition by_thread :: "string \<Rightarrow> string \<Rightarrow> outbound_request \<Rightarrow> bool" where
  "by_thread thread vetter r \<longleftrightarrow> or_document_id r = thread \<and> or_vetter r = vetter"

fun request_id_of :: "request_state \<Rightarrow> string option" where
  "request_id_of (Accepted i _ _) = Some i"
| "request_id_of (InSession i _ _) = Some i"
| "request_id_of (Attested i _) = Some i"
| "request_id_of _ = None"

definition by_request_id :: "string \<Rightarrow> string \<Rightarrow> outbound_request \<Rightarrow> bool" where
  "by_request_id request_id vetter r \<longleftrightarrow>
     or_vetter r = vetter \<and> request_id_of (or_state r) = Some request_id"

definition vetter_role :: "applicant_sdk \<Rightarrow> application \<Rightarrow> string" where
  "vetter_role sdk a =
     (case ap_requirements a of None \<Rightarrow> sdk_vetter_role sdk | Some r \<Rightarrow> vr_vetter_role r)"

definition on_accepted ::
  "applicant_sdk \<Rightarrow> string \<Rightarrow> string \<Rightarrow> request_response \<Rightarrow> vetter_eligibility \<Rightarrow> instant \<Rightarrow> application \<Rightarrow>
   applicant_error + application" where
  "on_accepted sdk thread vetter body eligibility now a =
     rbind (ensure (sdk_response_ok sdk body) Shape) (\<lambda>_.
     rbind (ok_or NoMatchingRequest (List.find (by_thread thread vetter) (ap_requests a))) (\<lambda>r.
     rbind (ensure (case or_state r of Sent \<Rightarrow> True | Accepted i _ _ \<Rightarrow> i = rr_request_id body | _ \<Rightarrow> False)
              (WrongState ''be accepted'')) (\<lambda>_.
       Inr (a\<lparr>ap_requests := update_first (by_thread thread vetter) (\<lambda>r.
              r\<lparr>or_eligibility := Some eligibility, or_grant_status := None,
                or_state := Accepted (rr_request_id body)
                  (case rr_accepts_documentation body of None \<Rightarrow> [] | Some ds \<Rightarrow> ds) (rr_session_hint body),
                or_updated_at := now\<rparr>) (ap_requests a)\<rparr>))))"

definition record_grant_status ::
  "string \<Rightarrow> string \<Rightarrow> grant_status \<Rightarrow> application \<Rightarrow> applicant_error + application" where
  "record_grant_status document_id vetter status a =
     rbind (ok_or NoMatchingRequest (List.find (by_thread document_id vetter) (ap_requests a))) (\<lambda>_.
       Inr (a\<lparr>ap_requests := update_first (by_thread document_id vetter)
              (\<lambda>r. r\<lparr>or_grant_status := Some status\<rparr>) (ap_requests a)\<rparr>))"

definition ticket_from_uri :: "applicant_sdk \<Rightarrow> string \<Rightarrow> application \<Rightarrow> ticket_uri_error + ticket_uri" where
  "ticket_from_uri sdk input a =
     rbind (ok_or UnreadableUri (sdk_decode_ticket sdk input)) (\<lambda>t.
     rbind (ensure (tu_community t = ap_community a) (OtherCommunity (tu_community t))) (\<lambda>_. Inr t))"

definition on_refused ::
  "string \<Rightarrow> string \<Rightarrow> string \<Rightarrow> string option \<Rightarrow> instant \<Rightarrow> application \<Rightarrow> applicant_error + application" where
  "on_refused thread vetter code message now a =
     rbind (ok_or NoMatchingRequest (List.find (by_thread thread vetter) (ap_requests a))) (\<lambda>r.
     rbind (ensure (or_state r = Sent) (WrongState ''be refused'')) (\<lambda>_.
       Inr (a\<lparr>ap_requests := update_first (by_thread thread vetter) (\<lambda>r.
              r\<lparr>or_state := RequestRefused code message, or_updated_at := now\<rparr>) (ap_requests a)\<rparr>)))"
section \<open>Sessions and cards\<close>

text \<open>Whether a request is in the open session, and the first that is.\<close>

fun session_of :: "request_state \<Rightarrow> open_session option" where
  "session_of (InSession _ s _) = Some s"
| "session_of _ = None"

definition in_session :: "string \<Rightarrow> outbound_request \<Rightarrow> bool" where
  "in_session session_id r \<longleftrightarrow> map_option os_id (session_of (or_state r)) = Some session_id"

definition on_session ::
  "applicant_sdk \<Rightarrow> string \<Rightarrow> json \<Rightarrow> string \<Rightarrow> session_body \<Rightarrow> instant \<Rightarrow> application \<Rightarrow>
   applicant_error + application \<times> open_session" where
  "on_session sdk session_document_id document vetter body now a =
     rbind (ensure (sdk_session_ok sdk body) Shape) (\<lambda>_.
     rbind (ensure (sb_domain body = ap_community a) WrongCommunity) (\<lambda>_.
     rbind (ensure (\<not> sb_expires_at body \<le> now) SessionExpired) (\<lambda>_.
     rbind (ok_or NoMatchingRequest
              (find_last (by_request_id (sb_request_id body) vetter) (ap_requests a))) (\<lambda>r.
     rbind (ensure (case or_state r of Attested _ _ \<Rightarrow> False | _ \<Rightarrow> True)
              (WrongState ''open another session'')) (\<lambda>_.
     rbind (ok_or Shape (sdk_method_of sdk (sb_method body))) (\<lambda>method.
     let session = \<lparr>os_id = session_document_id, os_challenge = sb_challenge body, os_domain = sb_domain body,
                    os_method = method, os_required_claims = sb_required_claims body,
                    os_optional_claims = (case sb_optional_claims body of None \<Rightarrow> [] | Some cs \<Rightarrow> cs),
                    os_expires_at = sb_expires_at body,
                    os_match_code = sdk_match_code sdk session_document_id, os_document = Some document\<rparr>
     in Inr (a\<lparr>ap_requests := update_last (by_request_id (sb_request_id body) vetter) (\<lambda>r.
                r\<lparr>or_state := InSession (sb_request_id body) session None, or_updated_at := now\<rparr>)
                (ap_requests a)\<rparr>, session)))))))"

definition session :: "string \<Rightarrow> application \<Rightarrow> (string \<times> open_session) option" where
  "session session_id a =
     Option.bind (List.find (in_session session_id) (ap_requests a)) (\<lambda>r.
       map_option (\<lambda>s. (or_vetter r, s)) (session_of (or_state r)))"

definition requested_claims :: "string \<Rightarrow> application \<Rightarrow> string list" where
  "requested_claims session_id a =
     (case session session_id a of
        None \<Rightarrow> []
      | Some (_, s) \<Rightarrow> os_required_claims s @ os_optional_claims s)"

definition wanted_claim :: "open_session \<Rightarrow> string \<Rightarrow> bool" where
  "wanted_claim s t \<longleftrightarrow> t \<in> set (os_required_claims s) \<or> t \<in> set (os_optional_claims s)"

text \<open>Whether the applicant already showed vetters another value for a claim.\<close>

definition shows_other :: "application \<Rightarrow> string \<Rightarrow> json \<Rightarrow> bool" where
  "shows_other a t v \<longleftrightarrow> list_ex (\<lambda>shown. cc_type shown = t \<and> cc_value shown \<noteq> v) (ap_identity_claims a)"

definition card_claim_of :: "applicant_sdk \<Rightarrow> application \<Rightarrow> released_claim \<Rightarrow> applicant_error + card_claim" where
  "card_claim_of sdk a claim =
     rbind (ensure (\<not> rel_stale claim) (StaleClaim (rel_claim_type claim))) (\<lambda>_.
     rbind (ok_or (ValueWithheld (rel_claim_type claim)) (rel_value claim)) (\<lambda>v.
     rbind (ensure (\<not> shows_other a (rel_claim_type claim) v) (IdentityChanged (rel_claim_type claim))) (\<lambda>_.
     let c = \<lparr>cc_type = rel_claim_type claim, cc_value = v,
              cc_provenance = (case rel_provenance claim of None \<Rightarrow> ''unstated'' | Some p \<Rightarrow> p)\<rparr>
     in rbind (ensure (sdk_card_claim_ok sdk c) Shape) (\<lambda>_. Inr c))))"

definition first_missing :: "string list \<Rightarrow> card_claim list \<Rightarrow> string option" where
  "first_missing required claims = List.find (\<lambda>t. \<not> list_ex (\<lambda>c. cc_type c = t) claims) required"

definition card_claims ::
  "applicant_sdk \<Rightarrow> string \<Rightarrow> released_claim list \<Rightarrow> application \<Rightarrow> applicant_error + card_claim list" where
  "card_claims sdk session_id released a =
     rbind (ok_or NoMatchingRequest (session session_id a)) (\<lambda>(_, s).
     rbind (collect_results (card_claim_of sdk a)
              (filter (\<lambda>c. wanted_claim s (rel_claim_type c)) released)) (\<lambda>claims.
       case first_missing (os_required_claims s) claims of
         Some missing \<Rightarrow> Inl (MissingClaim missing)
       | None \<Rightarrow> Inr claims))"

text \<open>Claim types not shown before are remembered, each once.\<close>

fun remember_claims :: "card_claim list \<Rightarrow> card_claim list \<Rightarrow> card_claim list" where
  "remember_claims shown [] = shown"
| "remember_claims shown (c # cs) =
     remember_claims (if list_ex (\<lambda>d. cc_type d = cc_type c) shown then shown else shown @ [c]) cs"

definition put_card :: "sent_card \<Rightarrow> instant \<Rightarrow> outbound_request \<Rightarrow> outbound_request" where
  "put_card the_card now r =
     r\<lparr>or_state := (case or_state r of InSession i s _ \<Rightarrow> InSession i s (Some the_card) | st \<Rightarrow> st),
       or_updated_at := now\<rparr>"

definition record_sent_card ::
  "string \<Rightarrow> sent_card \<Rightarrow> card_claim list \<Rightarrow> instant \<Rightarrow> application \<Rightarrow> applicant_error + application" where
  "record_sent_card session_id the_card claims now a =
     (case List.find (\<lambda>c. shows_other a (cc_type c) (cc_value c)) claims of
        Some changed \<Rightarrow> Inl (IdentityChanged (cc_type changed))
      | None \<Rightarrow>
          rbind (ok_or NoMatchingRequest (List.find (in_session session_id) (ap_requests a))) (\<lambda>_.
            Inr (a\<lparr>ap_requests := update_first (in_session session_id) (put_card the_card now) (ap_requests a),
                   ap_identity_claims := remember_claims (ap_identity_claims a) claims\<rparr>)))"

definition card_draft ::
  "applicant_sdk \<Rightarrow> string \<Rightarrow> string \<Rightarrow> card_claim list \<Rightarrow> instant \<Rightarrow> application \<Rightarrow>
   applicant_error + card_draft" where
  "card_draft sdk fresh_uuid session_id claims now a =
     rbind (ok_or NoMatchingRequest (session session_id a)) (\<lambda>(vetter, s).
     rbind (ensure (\<not> os_expires_at s \<le> now) SessionExpired) (\<lambda>_.
     let claims = filter (\<lambda>c. wanted_claim s (cc_type c)) claims
     in case first_missing (os_required_claims s) claims of
          Some missing \<Rightarrow> Inl (MissingClaim missing)
        | None \<Rightarrow>
            Inr \<lparr>cd_id = ''urn:uuid:'' @ fresh_uuid, cd_publisher = ap_join_did a, cd_audience = vetter,
                 cd_community = ap_community a, cd_challenge = os_challenge s, cd_domain = os_domain s,
                 cd_issued_at = now,
                 cd_validity = min (sdk_max_card_validity sdk) (os_expires_at s - now),
                 cd_claims = claims, cd_identity_types = os_required_claims s,
                 cd_salt = ap_commitment_salt a\<rparr>))"

definition card_expected :: "application \<Rightarrow> string \<Rightarrow> open_session \<Rightarrow> instant \<Rightarrow> card_expectations" where
  "card_expected a vetter s now =
     \<lparr>ce_audience = vetter, ce_publisher = ap_join_did a, ce_community = ap_community a,
      ce_challenge = os_challenge s, ce_domain = os_domain s, ce_required_claims = os_required_claims s,
      ce_now = now\<rparr>"

definition record_card ::
  "applicant_sdk \<Rightarrow> string \<Rightarrow> json \<Rightarrow> instant \<Rightarrow> application \<Rightarrow> applicant_error + application \<times> sent_card" where
  "record_card sdk session_id the_card now a =
     rbind (ok_or NoMatchingRequest (session session_id a)) (\<lambda>(vetter, s).
     rbind (ok_or VettingErr (sdk_verify_card sdk the_card (card_expected a vetter s now))) (\<lambda>verified.
     let recorded = \<lparr>sc_id = vc_id verified, sc_digest = vc_digest verified,
                     sc_identity_commitment = vc_identity_commitment verified, sc_sent_at = now\<rparr>
     in Inr (a\<lparr>ap_requests := update_first (in_session session_id) (put_card recorded now) (ap_requests a)\<rparr>,
             recorded)))"

section \<open>Statements and declines\<close>

definition answers_session :: "string \<Rightarrow> string \<Rightarrow> outbound_request \<Rightarrow> bool" where
  "answers_session vetter task_context r \<longleftrightarrow> or_vetter r = vetter \<and> in_session task_context r"

fun card_of :: "request_state \<Rightarrow> sent_card option" where
  "card_of (InSession _ _ the_card) = the_card"
| "card_of _ = None"

definition held_from ::
  "string \<Rightarrow> verified_statement \<Rightarrow> vetter_members \<Rightarrow> json \<Rightarrow> instant \<Rightarrow> held_statement" where
  "held_from vetter verified members credential now =
     \<lparr>hs_id = vs_id verified, hs_vetter = vetter, hs_method = vv_method (vs_value verified),
      hs_declared_relationship = vm_declared_relationship members,
      hs_document_classes = vv_document_classes (vs_value verified),
      hs_claims_verified = vv_claims_verified (vs_value verified),
      hs_identity_commitment = vm_identity_commitment members,
      hs_valid_from = vs_valid_from verified, hs_valid_until = vs_valid_until verified,
      hs_received_at = now, hs_credential = credential\<rparr>"

text \<open>The members a vetter's statement must repeat of the card we sent, or why it does not.\<close>

definition bound_to_card ::
  "applicant_sdk \<Rightarrow> verified_statement \<Rightarrow> request_state \<Rightarrow> applicant_error + vetter_members" where
  "bound_to_card sdk verified st =
     rbind (ok_or (Binding ''taskDigestMultibase'')
              (Option.bind (session_of st) os_document)) (\<lambda>document.
     rbind (ensure (sdk_check_against_session sdk verified document) VettingErr) (\<lambda>_.
     rbind (ok_or (WrongState ''take a statement before a card'') (card_of st)) (\<lambda>the_card.
     rbind (ok_or (Binding ''identityCommitment'') (sdk_vetter_members sdk (vs_value verified))) (\<lambda>members.
     rbind (ensure (vm_card_digest members = sc_digest the_card) (Binding ''cardDigestMultibase'')) (\<lambda>_.
     rbind (ensure (vm_identity_commitment members = sc_identity_commitment the_card)
              (Binding ''identityCommitment'')) (\<lambda>_.
       Inr members))))))"

definition on_statement ::
  "applicant_sdk \<Rightarrow> string \<Rightarrow> json \<Rightarrow> instant \<Rightarrow> application \<Rightarrow>
   applicant_error + application \<times> held_statement" where
  "on_statement sdk vetter credential now a =
     rbind (ok_or VettingErr (sdk_verify_statement sdk credential now)) (\<lambda>verified.
     rbind (ensure (vs_issuer verified = vetter) (Binding ''issuer'')) (\<lambda>_.
     rbind (ensure (vs_subject verified = ap_join_did a) (Binding ''subject'')) (\<lambda>_.
     rbind (ensure (vv_community (vs_value verified) = ap_community a) (Binding ''community'')) (\<lambda>_.
     case List.find (\<lambda>s. hs_id s = vs_id verified) (ap_statements a) of
       Some held \<Rightarrow> Inr (a, held)
     | None \<Rightarrow>
         rbind (ok_or NoMatchingRequest
                  (List.find (answers_session vetter (vs_task_context verified)) (ap_requests a))) (\<lambda>r.
         rbind (bound_to_card sdk verified (or_state r)) (\<lambda>members.
         let held = held_from vetter verified members credential now
         in Inr (a\<lparr>ap_requests := update_first (answers_session vetter (vs_task_context verified)) (\<lambda>r.
                     r\<lparr>or_state := Attested (case request_id_of (or_state r) of None \<Rightarrow> [] | Some i \<Rightarrow> i) (hs_id held),
                       or_updated_at := now\<rparr>) (ap_requests a),
                   ap_statements := ap_statements a @ [held]\<rparr>, held)))))))"

definition on_decline ::
  "applicant_sdk \<Rightarrow> string \<Rightarrow> decline_body \<Rightarrow> instant \<Rightarrow> application \<Rightarrow> applicant_error + application" where
  "on_decline sdk vetter body now a =
     rbind (ensure (sdk_decline_ok sdk body) Shape) (\<lambda>_.
     rbind (ok_or NoMatchingRequest
              (find_last (by_request_id (db_request_id body) vetter) (ap_requests a))) (\<lambda>r.
     rbind (ensure (case or_state r of Attested _ _ \<Rightarrow> False | _ \<Rightarrow> True)
              (WrongState ''be declined after attesting'')) (\<lambda>_.
       Inr (a\<lparr>ap_requests := update_last (by_request_id (db_request_id body) vetter) (\<lambda>r.
              r\<lparr>or_state := Declined (db_code body) (db_message body), or_updated_at := now\<rparr>)
              (ap_requests a)\<rparr>))))"

section \<open>Hidden vetting\<close>

definition stale_hidden_attestation :: "application \<Rightarrow> attestation_meta \<Rightarrow> stale_attestation option" where
  "stale_hidden_attestation a held =
     (case ap_hidden a of
        None \<Rightarrow> None
      | Some params \<Rightarrow>
          if (case ap_requirements_digest a of None \<Rightarrow> False | Some d \<Rightarrow> d \<noteq> am_requirements_digest held)
          then Some StaleCriterion
          else if am_token_label held \<notin> set (hp_token_labels params)
          then Some (StaleTokenLabel (am_token_label held))
          else None)"

definition attestations :: "application \<Rightarrow> attestation_meta list" where
  "attestations a = (case ap_hidden_app a of None \<Rightarrow> [] | Some h \<Rightarrow> av_attestations h)"

definition stale_hidden_attestations :: "application \<Rightarrow> stale_attestation list" where
  "stale_hidden_attestations a = List.map_filter (stale_hidden_attestation a) (attestations a)"

definition holds_current_hidden_attestation :: "application \<Rightarrow> bool" where
  "holds_current_hidden_attestation a \<longleftrightarrow>
     list_ex (\<lambda>held. stale_hidden_attestation a held = None) (attestations a)"

definition hidden_held :: "application \<Rightarrow> nat" where
  "hidden_held a = length (attestations a)"

text \<open>A count in decimal.\<close>

fun decimal :: "nat \<Rightarrow> string" where
  "decimal n = (if n < 10 then [char_of (48 + n)] else decimal (n div 10) @ [char_of (48 + n mod 10)])"

definition hidden_fact :: "nat \<times> attestation_meta \<Rightarrow> statement_facts" where
  "hidden_fact e =
     (let (i, held) = e in
      \<lparr>sf_statement_id = ''hidden-'' @ decimal i, sf_vetter = ''hidden-vetter-'' @ decimal i,
       sf_method = am_method held, sf_claims_verified = am_claims_verified held,
       sf_document_classes = [], sf_declared_relationship = am_declared_relationship held,
       sf_identity_commitment = am_identity_commitment held, sf_valid_from = day_start (am_valid_from held),
       sf_community_matches = True, sf_eligible = True, sf_revoked = False\<rparr>)"

definition hidden_facts :: "instant \<Rightarrow> application \<Rightarrow> statement_facts list" where
  "hidden_facts now a =
     map hidden_fact
       (filter (\<lambda>(i, held). date_naive now \<le> am_valid_until held \<and> stale_hidden_attestation a held = None)
         (List.enumerate 0 (attestations a)))"

definition named_fact :: "held_statement \<Rightarrow> statement_facts" where
  "named_fact s =
     \<lparr>sf_statement_id = hs_id s, sf_vetter = hs_vetter s, sf_method = hs_method s,
      sf_claims_verified = hs_claims_verified s, sf_document_classes = hs_document_classes s,
      sf_declared_relationship = hs_declared_relationship s,
      sf_identity_commitment = hs_identity_commitment s, sf_valid_from = hs_valid_from s,
      sf_community_matches = True, sf_eligible = True, sf_revoked = False\<rparr>"

definition checklist_facts :: "instant \<Rightarrow> application \<Rightarrow> statement_facts list" where
  "checklist_facts now a =
     (let facts = map named_fact (filter (\<lambda>s. now < hs_valid_until s) (ap_statements a))
      in if facts = [] \<and> ap_hidden_app a \<noteq> None then hidden_facts now a else facts)"

definition checklist :: "applicant_sdk \<Rightarrow> instant \<Rightarrow> application \<Rightarrow> evaluation option" where
  "checklist sdk now a =
     map_option (\<lambda>reqs. sdk_evaluate sdk reqs (checklist_facts now a) now) (ap_requirements a)"

definition presentable_statements :: "instant \<Rightarrow> application \<Rightarrow> json list" where
  "presentable_statements now a = map hs_credential (filter (\<lambda>s. now < hs_valid_until s) (ap_statements a))"

definition extensions_member :: string where "extensions_member = ''hiddenVetting''"

definition join_extensions :: "application \<Rightarrow> json" where
  "join_extensions a =
     (case ap_hidden_submission a of
        None \<Rightarrow> JNull
      | Some hidden \<Rightarrow> JObject [(extensions_member, hidden)])"

definition set_hidden_submission :: "json \<Rightarrow> application \<Rightarrow> application" where
  "set_hidden_submission submission a = a\<lparr>ap_hidden_submission := Some submission\<rparr>"

definition hidden_submission_sent :: "application \<Rightarrow> application \<times> bool" where
  "hidden_submission_sent a =
     (if ap_hidden_submission a = None then (a, False)
      else (a\<lparr>ap_hidden_submission := None, ap_hidden_challenge := None\<rparr>, True))"

definition hidden_app_owed :: "application \<Rightarrow> bool" where
  "hidden_app_owed a \<longleftrightarrow> ap_hidden a \<noteq> None \<and> ap_hidden_app a = None"

definition forget_local_engine :: "application \<Rightarrow> application \<times> bool" where
  "forget_local_engine a =
     (if \<not> ap_local_engine_dropped a then (a, False)
      else (a\<lparr>ap_local_engine_dropped := False, ap_hidden_app := None, ap_hidden_submission := None\<rparr>, True))"

section \<open>What to do next\<close>

definition owed_card :: "instant \<Rightarrow> outbound_request \<Rightarrow> string option" where
  "owed_card now r =
     (case or_state r of
        InSession _ s None \<Rightarrow> if now < os_expires_at s then Some (os_id s) else None
      | _ \<Rightarrow> None)"

fun in_progress :: "request_state \<Rightarrow> bool" where
  "in_progress Sent = True"
| "in_progress (Accepted _ _ _) = True"
| "in_progress (InSession _ _ _) = True"
| "in_progress _ = False"

definition next_step :: "applicant_sdk \<Rightarrow> instant \<Rightarrow> application \<Rightarrow> next_step" where
  "next_step sdk now a =
     (case find_map (owed_card now) (ap_requests a) of
        Some session_id \<Rightarrow> SendCard session_id
      | None \<Rightarrow>
          (case checklist sdk now a of
             None \<Rightarrow> LearnRequirements
           | Some e \<Rightarrow>
               if ev_satisfied e then Join
               else if ap_face a = None \<and> ap_identity_claims a = [] \<and> ap_requests a = [] then ChooseFace
               else if list_ex (\<lambda>r. in_progress (or_state r)) (ap_requests a) then WaitForVetters
               else AskVetter))"

section \<open>Time\<close>

text \<open>\<open>VettingBook::prune\<close> on our requests: a session past its expiry goes back to accepted.\<close>

definition lapse_session :: "instant \<Rightarrow> outbound_request \<Rightarrow> outbound_request" where
  "lapse_session now r =
     (case or_state r of
        InSession i s _ \<Rightarrow>
          if os_expires_at s \<le> now then r\<lparr>or_state := Accepted i [] None, or_updated_at := now\<rparr> else r
      | _ \<Rightarrow> r)"

definition lapse_sessions :: "instant \<Rightarrow> application \<Rightarrow> application" where
  "lapse_sessions now a = a\<lparr>ap_requests := map (lapse_session now) (ap_requests a)\<rparr>"

end
