(* ===== verification/ApplicantFlow.thy ===== *)
theory ApplicantFlow
  imports Applicant
begin

text \<open>
  The life of an application: the steps its methods make, the request state machine of the module
  documentation as a relation, and what no sequence of steps can undo. An error leaves an application
  as it was, so only successful calls are steps.
\<close>

section \<open>Steps\<close>

text \<open>
  \<open>chosen\<close> stands for the writes the state handler makes itself: the face, the context, the vetting
  path, the engine view and the challenge.
\<close>

inductive app_step :: "applicant_sdk \<Rightarrow> application \<Rightarrow> application \<Rightarrow> bool" for sdk where
  adopt: "adopt_criterion sdk c reqs d raw a = Inr (a', changed) \<Longrightarrow> app_step sdk a a'"
| prepare: "prepare_request sdk doc vetter ticket draft now a = Inr (a', body) \<Longrightarrow> app_step sdk a a'"
| forget: "app_step sdk a (fst (forget_unsent doc a))"
| accepted: "on_accepted sdk thread vetter rsp eligibility now a = Inr a' \<Longrightarrow> app_step sdk a a'"
| grant: "record_grant_status doc vetter status a = Inr a' \<Longrightarrow> app_step sdk a a'"
| refused: "on_refused thread vetter code message now a = Inr a' \<Longrightarrow> app_step sdk a a'"
| session: "on_session sdk sid document vetter sb now a = Inr (a', s) \<Longrightarrow> app_step sdk a a'"
| sent_card: "record_sent_card sid sc claims now a = Inr a' \<Longrightarrow> app_step sdk a a'"
| recorded: "record_card sdk sid doc' now a = Inr (a', sc) \<Longrightarrow> app_step sdk a a'"
| statement: "on_statement sdk vetter credential now a = Inr (a', held) \<Longrightarrow> app_step sdk a a'"
| decline: "on_decline sdk vetter db now a = Inr a' \<Longrightarrow> app_step sdk a a'"
| lapse: "app_step sdk a (lapse_sessions now a)"
| submission: "app_step sdk a (set_hidden_submission submission a)"
| submitted: "app_step sdk a (fst (hidden_submission_sent a))"
| engine: "app_step sdk a (fst (forget_local_engine a))"
| chosen: "app_step sdk a (a\<lparr>ap_face := f, ap_context_id := cx, ap_vetting_path := p, ap_hidden_app := h,
                             ap_hidden_challenge := ch, ap_criterion_repicked := r\<rparr>)"

inductive_cases app_stepE: "app_step sdk a b"

section \<open>The request state machine\<close>

text \<open>\<open>drawn\<close> is the diagram of the module documentation; \<open>undrawn\<close> is what the code does beyond it.\<close>

inductive drawn :: "request_state \<Rightarrow> request_state \<Rightarrow> bool" where
  accept: "drawn Sent (Accepted i docs hint)"
| refuse: "drawn Sent (RequestRefused code message)"
| open_session: "drawn (Accepted i docs hint) (InSession i s None)"
| attest: "drawn (InSession i s (Some c)) (Attested i statement)"
| decline: "drawn (InSession i s c) (Declined code message)"

inductive undrawn :: "request_state \<Rightarrow> request_state \<Rightarrow> bool" where
  reaccept: "undrawn (Accepted i docs hint) (Accepted i docs' hint')"
| reopen: "undrawn (InSession i s c) (InSession i s' None)"
| send_card: "undrawn (InSession i s c) (InSession i s (Some c'))"
| expire: "undrawn (InSession i s c) (Accepted i [] None)"
| decline_early: "undrawn (Accepted i docs hint) (Declined code message)"

definition moves :: "request_state \<Rightarrow> request_state \<Rightarrow> bool" where
  "moves st st' \<longleftrightarrow> st' = st \<or> drawn st st' \<or> undrawn st st'"

inductive_simps drawn_from:
  "drawn Sent st"
  "drawn (Accepted i docs hint) st"
  "drawn (InSession i s c) st"
  "drawn (Attested i s) st"
  "drawn (Declined c m) st"
  "drawn (RequestRefused c m) st"

inductive_simps undrawn_from:
  "undrawn Sent st"
  "undrawn (Accepted i docs hint) st"
  "undrawn (InSession i s c) st"
  "undrawn (Attested i s) st"
  "undrawn (Declined c m) st"
  "undrawn (RequestRefused c m) st"

lemmas moves_from = moves_def drawn_from undrawn_from

lemma moves_stay [simp]: "moves st st"
  by (simp add: moves_def)

lemma moves_session:
  assumes "request_id_of st = Some i" "\<And>j k. st \<noteq> Attested j k"
  shows "moves st (InSession i s None)" "moves st (Declined code message)"
  using assms by (cases st; simp add: moves_from)+

text \<open>The states a request never leaves.\<close>

fun final :: "request_state \<Rightarrow> bool" where
  "final (Attested _ _) = True"
| "final (Declined _ _) = True"
| "final (RequestRefused _ _) = True"
| "final _ = False"

lemma moves_final: "moves st st' \<Longrightarrow> final st \<Longrightarrow> st' = st"
  by (cases st) (auto simp: moves_from)

definition evolves :: "outbound_request \<Rightarrow> outbound_request \<Rightarrow> bool" where
  "evolves r r' \<longleftrightarrow>
     or_document_id r' = or_document_id r \<and> or_vetter r' = or_vetter r \<and> or_sent_at r' = or_sent_at r \<and>
     moves (or_state r) (or_state r')"

lemma evolves_refl [simp]: "evolves r r"
  by (simp add: evolves_def)

lemma evolves_update_first:
  "(\<And>r. List.find p rs = Some r \<Longrightarrow> p r \<Longrightarrow> evolves r (f r)) \<Longrightarrow> list_all2 evolves rs (update_first p f rs)"
  by (induction rs) (auto simp: list.rel_refl split: if_splits)

lemma evolves_update_last:
  assumes "\<And>r. find_last p rs = Some r \<Longrightarrow> p r \<Longrightarrow> evolves r (f r)"
  shows "list_all2 evolves rs (update_last p f rs)"
proof -
  have "list_all2 evolves (rev rs) (update_first p f (rev rs))"
    using assms by (intro evolves_update_first) (auto simp: find_last_def)
  then show ?thesis
    by (simp add: update_last_def list_all2_rev1)
qed

lemma by_request_id_moves:
  assumes "by_request_id i vetter r" "\<forall>j k. or_state r \<noteq> Attested j k"
  shows "moves (or_state r) (InSession i s None)" "moves (or_state r) (Declined c m)"
  using assms
  by (auto simp: by_request_id_def intro: moves_session)

lemma on_accepted_evolves:
  assumes "on_accepted sdk thread vetter rsp el now a = Inr a'"
  shows "list_all2 evolves (ap_requests a) (ap_requests a')"
proof -
  obtain r where "List.find (by_thread thread vetter) (ap_requests a) = Some r"
    and st: "case or_state r of Sent \<Rightarrow> True | Accepted i _ _ \<Rightarrow> i = rr_request_id rsp | _ \<Rightarrow> False"
    using assms by (auto simp: on_accepted_def result_simps)
  moreover have "moves (or_state r) (Accepted (rr_request_id rsp) docs hint)" for docs hint
    using st by (auto simp: moves_from split: request_state.splits)
  ultimately show ?thesis
    using assms by (auto simp: on_accepted_def result_simps evolves_def intro!: evolves_update_first)
qed

lemma not_attested_iff [simp]:
  "(case st of Attested _ _ \<Rightarrow> False | _ \<Rightarrow> True) \<longleftrightarrow> (\<forall>j k. st \<noteq> Attested j k)"
  by (cases st) simp_all

lemma on_session_evolves:
  "on_session sdk sid doc vetter sb now a = Inr (a', s) \<Longrightarrow> list_all2 evolves (ap_requests a) (ap_requests a')"
  by (auto simp: on_session_def result_simps Let_def evolves_def by_request_id_moves intro!: evolves_update_last)

lemma on_decline_evolves:
  "on_decline sdk vetter db now a = Inr a' \<Longrightarrow> list_all2 evolves (ap_requests a) (ap_requests a')"
  by (auto simp: on_decline_def result_simps evolves_def by_request_id_moves intro!: evolves_update_last)

lemma on_refused_evolves:
  "on_refused thread vetter code message now a = Inr a' \<Longrightarrow> list_all2 evolves (ap_requests a) (ap_requests a')"
  by (auto simp: on_refused_def result_simps intro!: evolves_update_first simp: evolves_def moves_from)

lemma put_card_evolves: "in_session sid r \<Longrightarrow> evolves r (put_card c now r)"
  by (auto simp: evolves_def put_card_def in_session_def moves_from
      elim!: session_of.elims split: request_state.split)

text \<open>What a statement is checked against before it is taken.\<close>

lemma on_statement_cases:
  assumes "on_statement sdk vetter cred now a = Inr (a', held)"
  obtains (known) v where "sdk_verify_statement sdk cred now = Some v" "vs_id v = hs_id held"
      "held \<in> set (ap_statements a)" "a' = a"
    | (taken) v r i s c m where
      "sdk_verify_statement sdk cred now = Some v" "vs_issuer v = vetter" "vs_subject v = ap_join_did a"
      "vv_community (vs_value v) = ap_community a" "List.find (\<lambda>h. hs_id h = vs_id v) (ap_statements a) = None"
      "List.find (answers_session vetter (vs_task_context v)) (ap_requests a) = Some r"
      "or_state r = InSession i s (Some c)" "os_id s = vs_task_context v"
      "\<exists>d. os_document s = Some d \<and> sdk_check_against_session sdk v d"
      "sdk_vetter_members sdk (vs_value v) = Some m" "vm_card_digest m = sc_digest c"
      "vm_identity_commitment m = sc_identity_commitment c" "held = held_from vetter v m cred now"
      "a' = a\<lparr>ap_requests := update_first (answers_session vetter (vs_task_context v)) (\<lambda>r.
                r\<lparr>or_state := Attested (case request_id_of (or_state r) of None \<Rightarrow> [] | Some i \<Rightarrow> i) (hs_id held),
                  or_updated_at := now\<rparr>) (ap_requests a), ap_statements := ap_statements a @ [held]\<rparr>"
proof -
  obtain v where v: "sdk_verify_statement sdk cred now = Some v" "vs_issuer v = vetter"
    "vs_subject v = ap_join_did a" "vv_community (vs_value v) = ap_community a"
    using assms by (auto simp: on_statement_def result_simps)
  show ?thesis
  proof (cases "List.find (\<lambda>h. hs_id h = vs_id v) (ap_statements a)")
    case (Some h)
    with assms v have "held = h" "a' = a"
      by (simp_all add: on_statement_def)
    with find_SomeD [OF Some] show ?thesis
      by (intro known [OF v(1)]) simp_all
  next
    case None
    then obtain r where r: "List.find (answers_session vetter (vs_task_context v)) (ap_requests a) = Some r"
      using assms v by (cases "List.find (answers_session vetter (vs_task_context v)) (ap_requests a)")
        (simp_all add: on_statement_def)
    then obtain m where m: "bound_to_card sdk v (or_state r) = Inr m"
      using assms v None by (cases "bound_to_card sdk v (or_state r)") (simp_all add: on_statement_def)
    have "on_statement sdk vetter cred now a = Inr
        (a\<lparr>ap_requests := update_first (answers_session vetter (vs_task_context v)) (\<lambda>r.
             r\<lparr>or_state := Attested (case request_id_of (or_state r) of None \<Rightarrow> [] | Some i \<Rightarrow> i)
                             (hs_id (held_from vetter v m cred now)),
               or_updated_at := now\<rparr>) (ap_requests a),
           ap_statements := ap_statements a @ [held_from vetter v m cred now]\<rparr>, held_from vetter v m cred now)"
      using v None r m by (simp add: on_statement_def Let_def)
    with assms have held: "held = held_from vetter v m cred now"
      and a': "a' = a\<lparr>ap_requests := update_first (answers_session vetter (vs_task_context v)) (\<lambda>r.
                r\<lparr>or_state := Attested (case request_id_of (or_state r) of None \<Rightarrow> [] | Some i \<Rightarrow> i) (hs_id held),
                  or_updated_at := now\<rparr>) (ap_requests a), ap_statements := ap_statements a @ [held]\<rparr>"
      by auto
    from find_SomeD [OF r] have "in_session (vs_task_context v) r"
      by (simp add: answers_session_def)
    then obtain i s c where "or_state r = InSession i s c" "os_id s = vs_task_context v"
      by (auto simp: in_session_def elim!: session_of.elims)
    with m taken [OF v None r _ _ _ _ _ _ held a'] show ?thesis
      by (auto simp: bound_to_card_def result_simps)
  qed
qed

lemma on_statement_evolves:
  assumes "on_statement sdk vetter cred now a = Inr (a', held)"
  shows "list_all2 evolves (ap_requests a) (ap_requests a')"
  using assms
proof (cases rule: on_statement_cases)
  case (taken v r i s c m)
  then show ?thesis
    by (auto intro!: evolves_update_first simp: evolves_def moves_from)
qed (auto intro: list.rel_refl)

lemma lapse_evolves: "evolves r (lapse_session now r)"
  by (auto simp: evolves_def lapse_session_def moves_from split: request_state.split)
lemma record_card_evolves:
  "record_card sdk sid doc now a = Inr (a', sc) \<Longrightarrow> list_all2 evolves (ap_requests a) (ap_requests a')"
  by (auto simp: record_card_def result_simps Let_def intro!: evolves_update_first put_card_evolves)

lemma record_sent_card_evolves:
  "record_sent_card sid sc claims now a = Inr a' \<Longrightarrow> list_all2 evolves (ap_requests a) (ap_requests a')"
  by (auto simp: record_sent_card_def result_simps intro!: evolves_update_first put_card_evolves split: option.splits)

lemma record_grant_status_evolves:
  "record_grant_status doc vetter status a = Inr a' \<Longrightarrow> list_all2 evolves (ap_requests a) (ap_requests a')"
  by (auto simp: record_grant_status_def result_simps evolves_def intro!: evolves_update_first)

lemma adopt_criterion_frame:
  "adopt_criterion sdk c reqs d raw a = Inr (a', changed) \<Longrightarrow>
     ap_requests a' = ap_requests a \<and> ap_statements a' = ap_statements a \<and>
     ap_identity_claims a' = ap_identity_claims a"
  by (auto simp: adopt_criterion_def result_simps Let_def)

lemma all_evolves [simp]: "list_all2 evolves rs rs"
  by (rule list.rel_refl) simp

text \<open>Every step moves requests along the state machine, adds one that was sent, or forgets unsent ones.\<close>

definition new_request :: "applicant_sdk \<Rightarrow> application \<Rightarrow> application \<Rightarrow> outbound_request \<Rightarrow> bool" where
  "new_request sdk a b r \<longleftrightarrow> or_state r = Sent \<and> ap_requests b = ap_requests a @ [r] \<and>
     (\<exists>ticket draft body. prepare_request sdk (or_document_id r) (or_vetter r) ticket draft (or_sent_at r) a = Inr (b, body))"

definition forgets_unsent :: "application \<Rightarrow> application \<Rightarrow> string \<Rightarrow> bool" where
  "forgets_unsent a b doc \<longleftrightarrow> b = fst (forget_unsent doc a) \<and>
     ap_requests b = filter (\<lambda>r. \<not> (or_document_id r = doc \<and> or_state r = Sent)) (ap_requests a)"

lemma app_step_requests:
  assumes "app_step sdk a b"
  shows "list_all2 evolves (ap_requests a) (ap_requests b) \<or> (\<exists>r. new_request sdk a b r) \<or> (\<exists>doc. forgets_unsent a b doc)"
  using assms
proof (cases rule: app_step.cases)
  case (prepare doc vetter ticket draft now body)
  let ?r = "\<lparr>or_document_id = doc, or_vetter = vetter, or_state = Sent, or_eligibility = None, or_grant_status = None,
    or_sent_at = now, or_updated_at = now\<rparr>"
  have "ap_requests b = ap_requests a @ [?r]" using prepare by (auto simp: prepare_request_def result_simps)
  with prepare have "new_request sdk a b ?r" by (auto simp: new_request_def)
  then show ?thesis by blast
next
  case (forget doc)
  then have "forgets_unsent a b doc" by (simp add: forgets_unsent_def forget_unsent_def Let_def)
  then show ?thesis by blast
next
  case (lapse now)
  then show ?thesis
    by (simp add: lapse_sessions_def list.rel_map lapse_evolves list.rel_refl)
qed (simp_all add: adopt_criterion_frame on_accepted_evolves record_grant_status_evolves on_refused_evolves
    on_session_evolves record_sent_card_evolves record_card_evolves on_statement_evolves on_decline_evolves
    set_hidden_submission_def hidden_submission_sent_def forget_local_engine_def)

text \<open>(C33) Whatever the application does, its requests keep their places: each either stays as it is or moves by an
  arrow of the documentation's diagram (sent, accepted, in session, attested; or refused, or declined in session) or
  one of the five moves the code makes that the diagram does not draw (an acceptance repeated, a session opened anew,
  the card sent, a session that lapsed, a decline before the session), under the same document id, vetter and time of
  sending. Only preparing a request adds one, at the end, in the state sent; and only forgetting a request that was
  never sent takes any away, those of that document id that are still in the state sent.\<close>

theorem requests_follow_machine:
  assumes "app_step sdk a b"
  shows "list_all2 evolves (ap_requests a) (ap_requests b) \<or> (\<exists>r. new_request sdk a b r) \<or> (\<exists>doc. forgets_unsent a b doc)"
  using app_step_requests [OF assms] .

section \<open>What is final\<close>

definition settled_as :: "outbound_request \<Rightarrow> application \<Rightarrow> bool" where
  "settled_as r a \<longleftrightarrow>
     list_ex (\<lambda>r'. or_document_id r' = or_document_id r \<and> or_vetter r' = or_vetter r \<and>
                   or_state r' = or_state r) (ap_requests a)"

lemma settled_as_step: "app_step sdk a b \<Longrightarrow> final (or_state r) \<Longrightarrow> settled_as r a \<Longrightarrow> settled_as r b"
proof -
  assume step: "app_step sdk a b" and fin: "final (or_state r)" and "settled_as r a"
  then obtain r0 where r0: "r0 \<in> set (ap_requests a)" "or_document_id r0 = or_document_id r"
    "or_vetter r0 = or_vetter r" "or_state r0 = or_state r"
    by (auto simp: settled_as_def list_ex_iff)
  have "or_state r0 \<noteq> Sent" using fin r0(4) by auto
  then have "\<exists>r' \<in> set (ap_requests b). evolves r0 r'"
    using app_step_requests [OF step] r0(1) list_all2_forth [of evolves "ap_requests a" _ r0]
    by (elim disjE) (auto simp: new_request_def forgets_unsent_def intro: bexI [of _ r0])
  then show "settled_as r b"
    using r0 fin by (fastforce simp: settled_as_def list_ex_iff evolves_def dest: moves_final)
qed

interpretation final_request: preserved "app_step sdk" "\<lambda>a. final (or_state r) \<longrightarrow> settled_as r a" for sdk r
  by unfold_locales (auto intro: settled_as_step)

text \<open>An answered request stays answered: once a request is attested, declined or refused, no
  sequence of steps changes its state or drops it, so a vetter cannot withdraw a statement by declining
  afterwards, nor a late acceptance reopen a refusal.\<close>

theorem final_requests_stay:
  assumes "(app_step sdk)\<^sup>*\<^sup>* a b" "r \<in> set (ap_requests a)" "final (or_state r)"
  shows "settled_as r b"
proof -
  have "settled_as r a" using assms(2) by (auto simp: settled_as_def list_ex_iff)
  with final_request.inv_steps [OF assms(1)] assms(3) show ?thesis by blast
qed

section \<open>One identity\<close>

definition shown_value :: "application \<Rightarrow> string \<Rightarrow> json option" where
  "shown_value a t = map_option cc_value (List.find (\<lambda>c. cc_type c = t) (ap_identity_claims a))"

definition one_identity :: "application \<Rightarrow> bool" where
  "one_identity a \<longleftrightarrow> distinct (map cc_type (ap_identity_claims a))"

lemma remember_claims_prefix: "\<exists>new. remember_claims shown cs = shown @ new"
proof (induction cs arbitrary: shown)
  case (Cons c cs)
  then show ?case by (auto split: if_splits) (metis append.assoc)
qed simp

lemma remember_claims_distinct: "distinct (map cc_type shown) \<Longrightarrow> distinct (map cc_type (remember_claims shown cs))"
proof (induction cs arbitrary: shown)
  case (Cons c cs)
  then have "distinct (map cc_type (if list_ex (\<lambda>d. cc_type d = cc_type c) shown then shown else shown @ [c]))"
    by (auto simp: list_ex_iff)
  from Cons.IH [OF this] show ?case by simp
qed simp

lemma remember_claims_covers: "c \<in> set cs \<Longrightarrow> \<exists>d \<in> set (remember_claims shown cs). cc_type d = cc_type c"
proof (induction cs arbitrary: shown)
  case (Cons e cs)
  let ?shown = "if list_ex (\<lambda>d. cc_type d = cc_type e) shown then shown else shown @ [e]"
  obtain new where "remember_claims ?shown cs = ?shown @ new" using remember_claims_prefix by blast
  then have "\<exists>d \<in> set (remember_claims ?shown cs). cc_type d = cc_type e"
    by (auto simp: list_ex_iff)
  with Cons show ?case by auto
qed simp

lemma claims_same [simp]: "\<exists>cs. shown = remember_claims shown cs"
  by (rule exI [of _ "[]"]) simp

lemma app_step_claims:
  assumes "app_step sdk a b"
  shows "\<exists>cs. ap_identity_claims b = remember_claims (ap_identity_claims a) cs"
proof -
  have same: "ap_identity_claims b = ap_identity_claims a \<Longrightarrow> ?thesis"
    by simp
  from assms show ?thesis
  proof (cases rule: app_step.cases)
    case (statement vetter credential now held)
    then have "ap_identity_claims b = ap_identity_claims a"
      by (cases rule: on_statement_cases) simp_all
    then show ?thesis by (rule same)
  next
    case (sent_card sid sc claims now)
    then show ?thesis
      by (auto simp: record_sent_card_def result_simps split: option.splits)
  qed (auto intro!: same simp: adopt_criterion_frame prepare_request_def forget_unsent_def on_accepted_def
      record_grant_status_def on_refused_def on_session_def record_card_def on_decline_def lapse_sessions_def
      set_hidden_submission_def hidden_submission_sent_def forget_local_engine_def result_simps Let_def)
qed

lemma shown_value_step:
  assumes "app_step sdk a b" "shown_value a t = Some v"
  shows "shown_value b t = Some v"
proof -
  obtain cs new where "ap_identity_claims b = ap_identity_claims a @ new"
    using app_step_claims [OF assms(1)] remember_claims_prefix by metis
  with assms(2) show ?thesis by (auto simp: shown_value_def find_append)
qed

interpretation identity: preserved "app_step sdk" one_identity for sdk
  using app_step_claims by unfold_locales (fastforce simp: one_identity_def intro: remember_claims_distinct)

interpretation shown: preserved "app_step sdk" "\<lambda>a. shown_value a t = Some v" for sdk t v
  by unfold_locales (auto intro: shown_value_step)

lemma not_shows_other: "shown_value a t = Some v \<Longrightarrow> \<not> shows_other a t w \<Longrightarrow> w = v"
  by (auto simp: shown_value_def shows_other_def list_ex_iff dest: find_SomeD)

lemma card_claims_consistent:
  assumes "card_claims sdk sid released a = Inr claims" "c \<in> set claims"
  shows "\<not> shows_other a (cc_type c) (cc_value c)"
proof -
  obtain xs where "list_all2 (\<lambda>x y. card_claim_of sdk a x = Inr y) xs claims"
    using assms(1) by (auto simp: card_claims_def result_simps collect_results_Inr split: option.splits)
  from list_all2_back [OF this assms(2)] show ?thesis
    by (auto simp: card_claim_of_def result_simps Let_def)
qed

text \<open>An application shows one identity. Once a card was sent with a value for a claim type, every
  card built later in its life, for whichever vetter and from whatever the face then releases, carries
  that same value for the type, and a card with another value cannot be recorded as sent. Two vetters
  therefore never commit to different identities.\<close>

theorem identity_never_changes:
  assumes "(app_step sdk)\<^sup>*\<^sup>* a b" "shown_value a t = Some v"
  shows "(\<forall>sid released claims c. card_claims sdk sid released b = Inr claims \<longrightarrow> c \<in> set claims \<longrightarrow>
            cc_type c = t \<longrightarrow> cc_value c = v) \<and>
         (\<forall>sid sc claims now c b'. record_sent_card sid sc claims now b = Inr b' \<longrightarrow> c \<in> set claims \<longrightarrow>
            cc_type c = t \<longrightarrow> cc_value c = v)"
proof -
  have shown: "shown_value b t = Some v"
    using shown.inv_steps [OF assms] .
  have "cc_value c = v"
    if "record_sent_card sid sc claims now b = Inr b'" "c \<in> set claims" "cc_type c = t" for sid sc claims now c b'
  proof -
    have "List.find (\<lambda>c. shows_other b (cc_type c) (cc_value c)) claims = None"
      using that(1) by (auto simp: record_sent_card_def split: option.splits)
    with that(2,3) not_shows_other [OF shown] show ?thesis by (auto simp: find_None_iff)
  qed
  with not_shows_other [OF shown] show ?thesis
    by (auto dest!: card_claims_consistent)
qed

section \<open>Statements\<close>

text \<open>(C18) A statement is taken only if it is about this application and answers a card of ours: it
  verifies, its issuer is the vetter it came from, its subject the join DID and its community the
  application's; it cites, by id and by digest, the session that vetter opened with us, and repeats the
  digest and the identity commitment of the card sent into it. It is then appended to the statements,
  and the request it answers becomes attested under its id.\<close>

theorem statement_bound:
  assumes "on_statement sdk vetter cred now a = Inr (a', held)" "held \<notin> set (ap_statements a)"
  shows "\<exists>v r i s c m d.
    sdk_verify_statement sdk cred now = Some v \<and> vs_issuer v = vetter \<and> vs_subject v = ap_join_did a \<and>
    vv_community (vs_value v) = ap_community a \<and>
    r \<in> set (ap_requests a) \<and> or_vetter r = vetter \<and> or_state r = InSession i s (Some c) \<and>
    os_id s = vs_task_context v \<and> os_document s = Some d \<and> sdk_check_against_session sdk v d \<and>
    sdk_vetter_members sdk (vs_value v) = Some m \<and>
    vm_card_digest m = sc_digest c \<and> vm_identity_commitment m = sc_identity_commitment c \<and>
    held = held_from vetter v m cred now \<and> ap_statements a' = ap_statements a @ [held] \<and>
    list_ex (\<lambda>r'. or_document_id r' = or_document_id r \<and> or_state r' = Attested i (vs_id v)) (ap_requests a')"
  using assms(1)
proof (cases rule: on_statement_cases)
  case known
  with assms(2) show ?thesis by simp
next
  case (taken v r i s c m)
  have "list_ex (\<lambda>r'. or_document_id r' = or_document_id r \<and> or_state r' = Attested i (vs_id v)) (ap_requests a')"
    unfolding taken(14) by (auto simp: taken(7,13) held_from_def intro!: list_ex_update_first [OF taken(6)])
  moreover have "r \<in> set (ap_requests a)" "or_vetter r = vetter"
    using find_SomeD [OF taken(6)] by (auto simp: answers_session_def)
  ultimately show ?thesis
    using taken by auto
qed

text \<open>A statement signed after its session ran out is lost: once time has passed the session's
  expiry, the request is back to accepted and the card sent into it is forgotten, so a genuine statement
  for that card is answered with \<open>NoMatchingRequest\<close>. The vetter's desk keeps the card without any
  such limit.\<close>

theorem late_statement_refused:
  assumes "sdk_verify_statement sdk cred later = Some v" "vs_issuer v = vetter"
    and "vs_subject v = ap_join_did a" "vv_community (vs_value v) = ap_community a"
    and "List.find (\<lambda>h. hs_id h = vs_id v) (ap_statements a) = None"
    and "list_all (\<lambda>r. case session_of (or_state r) of
           None \<Rightarrow> True | Some s \<Rightarrow> os_id s = vs_task_context v \<longrightarrow> os_expires_at s \<le> now) (ap_requests a)"
  shows "on_statement sdk vetter cred later (lapse_sessions now a) = Inl NoMatchingRequest"
proof -
  have "List.find (answers_session vetter (vs_task_context v)) (map (lapse_session now) (ap_requests a)) = None"
    using assms(6)
    by (auto simp: find_None_iff list_all_iff answers_session_def in_session_def lapse_session_def
        split: request_state.splits option.splits)
  then show ?thesis
    using assms(1-5) by (simp add: on_statement_def lapse_sessions_def)
qed

section \<open>What to do next\<close>

text \<open>Joining is suggested exactly when the published requirements are known and met by what the
  application holds and no open session waits for a card; a card is suggested exactly for a session that
  is open, unexpired and has none; and the application is told to wait only while a request is under way
  and to ask only when none is.\<close>

theorem next_step_sound:
  "(next_step sdk now a = Join) =
     ((\<forall>r \<in> set (ap_requests a). owed_card now r = None) \<and>
      (\<exists>reqs. ap_requirements a = Some reqs \<and> ev_satisfied (sdk_evaluate sdk reqs (checklist_facts now a) now))) \<and>
   (next_step sdk now a = LearnRequirements) =
     ((\<forall>r \<in> set (ap_requests a). owed_card now r = None) \<and> ap_requirements a = None) \<and>
   (\<forall>sid. next_step sdk now a = SendCard sid \<longrightarrow>
      (\<exists>r \<in> set (ap_requests a). \<exists>i s. or_state r = InSession i s None \<and> os_id s = sid \<and> now < os_expires_at s)) \<and>
   (next_step sdk now a = WaitForVetters \<longrightarrow> (\<exists>r \<in> set (ap_requests a). in_progress (or_state r))) \<and>
   (next_step sdk now a = AskVetter \<longrightarrow> (\<forall>r \<in> set (ap_requests a). \<not> in_progress (or_state r)))"
proof -
  have none: "find_map (owed_card now) rs = None \<longleftrightarrow> (\<forall>r \<in> set rs. owed_card now r = None)" for rs
    by (induction rs) (auto split: option.splits)
  have some: "find_map (owed_card now) rs = Some sid \<Longrightarrow> \<exists>r \<in> set rs. owed_card now r = Some sid" for rs sid
    by (induction rs) (auto split: option.splits)
  have owed: "owed_card now r = Some sid \<Longrightarrow>
      \<exists>i s. or_state r = InSession i s None \<and> os_id s = sid \<and> now < os_expires_at s" for r sid
    by (auto simp: owed_card_def split: request_state.splits option.splits if_splits)
  show ?thesis
  proof (cases "find_map (owed_card now) (ap_requests a)")
    case None
    then have "\<forall>r \<in> set (ap_requests a). owed_card now r = None" by (simp add: none)
    then show ?thesis
      by (auto simp: next_step_def None checklist_def list_ex_iff split: option.split)
  next
    case (Some sid)
    from some [OF this] obtain r where r: "r \<in> set (ap_requests a)" "owed_card now r = Some sid" by blast
    moreover have "next_step sdk now a = SendCard sid"
      by (simp add: next_step_def Some)
    ultimately show ?thesis
      using owed [OF r(2)] by force
  qed
qed

section \<open>The criterion and the path\<close>

lemma offered_hidden_cases:
  "offered_hidden sdk raw = Inr offered \<Longrightarrow>
     (case raw of None \<Rightarrow> offered = None
      | Some r \<Rightarrow> read_mode (sdk_parse_params sdk) r = Inr (case offered of None \<Rightarrow> ModeNamed | Some p \<Rightarrow> ModeHidden p))"
  by (cases raw; cases "read_mode (sdk_parse_params sdk) (the raw)")
     (auto simp: offered_hidden_def split: mode.splits)

text \<open>Taking a criterion is idempotent: reading the same manifest again changes nothing and reports
  no change, so the path an application took is not undecided by a re-read even after requests went out.
  What it takes is hidden vetting only when the community publishes usable parameters, and always when the
  criterion accepts nothing else.\<close>

theorem adopt_criterion_stable:
  assumes "adopt_criterion sdk c reqs d raw a = Inr (a', changed)"
  shows "adopt_criterion sdk c reqs d raw a' = Inr (a', False) \<and>
    (\<forall>p. ap_hidden a' = Some p \<longrightarrow> (\<exists>r. raw = Some r \<and> read_mode (sdk_parse_params sdk) r = Inr (ModeHidden p))) \<and>
    (\<forall>r p. raw = Some r \<longrightarrow> read_mode (sdk_parse_params sdk) r = Inr (ModeHidden p) \<longrightarrow>
       \<not> accepts_named r \<longrightarrow> ap_hidden a' = Some p)"
proof -
  obtain offered where ok: "sdk_requirements_ok sdk reqs" "offered_hidden sdk raw = Inr offered"
    and a': "a' = a\<lparr>ap_criterion_repicked := (case ap_criterion_id a of
                  Some previous \<Rightarrow> if previous \<noteq> c then Some previous else ap_criterion_repicked a
                | None \<Rightarrow> ap_criterion_repicked a), ap_criterion_id := Some c, ap_requirements := Some reqs,
                ap_requirements_digest := d, ap_hidden := adopted_hidden offered raw a\<rparr>"
    using assms by (auto simp: adopt_criterion_def result_simps Let_def)
  have again: "adopted_hidden offered raw a' = adopted_hidden offered raw a"
    by (auto simp: a' adopted_hidden_def default_path_def under_way_def holds_evidence_def
        holds_hidden_attestation_def Let_def split: option.splits)
  have "a'\<lparr>ap_criterion_repicked := ap_criterion_repicked a', ap_criterion_id := Some c, ap_requirements := Some reqs,
      ap_requirements_digest := d, ap_hidden := adopted_hidden offered raw a\<rparr> = a'"
    by (simp add: a')
  moreover have "ap_criterion_id a' = Some c" "ap_requirements a' = Some reqs" "ap_requirements_digest a' = d"
    "ap_hidden a' = adopted_hidden offered raw a"
    by (simp_all add: a')
  ultimately have "adopt_criterion sdk c reqs d raw a' = Inr (a', False)"
    by (simp add: adopt_criterion_def ok again same_requirements_def Let_def)
  moreover have "\<exists>r. raw = Some r \<and> read_mode (sdk_parse_params sdk) r = Inr (ModeHidden p)"
    if "ap_hidden a' = Some p" for p
  proof -
    have "offered = Some p"
      using that by (simp add: a' adopted_hidden_def Let_def split: option.splits if_splits)
    with offered_hidden_cases [OF ok(2)] show ?thesis by (cases raw) auto
  qed
  moreover have "ap_hidden a' = Some p"
    if "raw = Some r" "read_mode (sdk_parse_params sdk) r = Inr (ModeHidden p)" "\<not> accepts_named r" for r p
    using that ok(2) by (auto simp: a' adopted_hidden_def offered_hidden_def)
  ultimately show ?thesis by blast
qed

text \<open>An attestation the community will refuse is not progress. If everything an application holds is
  expired or stale, its checklist is evaluated on nothing at all, whatever it once gathered.\<close>

theorem stale_not_counted:
  assumes "\<forall>s \<in> set (ap_statements a). hs_valid_until s \<le> now"
    and "\<forall>m \<in> set (attestations a). am_valid_until m < date_naive now \<or> stale_hidden_attestation a m \<noteq> None"
  shows "checklist sdk now a = map_option (\<lambda>reqs. sdk_evaluate sdk reqs [] now) (ap_requirements a)"
proof -
  have "filter (\<lambda>s. now < hs_valid_until s) (ap_statements a) = []"
    using assms(1) by (auto simp: filter_empty_conv)
  moreover have "hidden_facts now a = []"
    using assms(2) by (fastforce simp: hidden_facts_def filter_empty_conv in_set_enumerate_eq dest: nth_mem)
  ultimately show ?thesis
    by (simp add: checklist_def checklist_facts_def)
qed

section \<open>An application under way\<close>

text \<open>One vetter opened session \<open>s1\<close> and was sent a card; the SDK takes everything and reads one statement.\<close>

definition demo_session :: open_session where
  "demo_session = \<lparr>os_id = ''s1'', os_challenge = ''n'', os_domain = ''did:c'', os_method = Video,
     os_required_claims = [''name.legal''], os_optional_claims = [], os_expires_at = 50,
     os_match_code = ''red fox'', os_document = Some JNull\<rparr>"

definition demo_card :: sent_card where
  "demo_card = \<lparr>sc_id = ''c1'', sc_digest = ''zCard'', sc_identity_commitment = ''zId'', sc_sent_at = 10\<rparr>"

definition demo_request :: outbound_request where
  "demo_request = \<lparr>or_document_id = ''d1'', or_vetter = ''did:v'',
     or_state = InSession ''r1'' demo_session (Some demo_card), or_eligibility = None,
     or_grant_status = None, or_sent_at = 1, or_updated_at = 10\<rparr>"

definition demo_app :: application where
  "demo_app = (the (new_application ''a1'' ''did:c'' 7 ''did:me'' (Some ''salt'') 0))
     \<lparr>ap_requests := [demo_request],
      ap_identity_claims := [\<lparr>cc_type = ''name.legal'', cc_value = JString ''Ada'', cc_provenance = ''selfAsserted''\<rparr>]\<rparr>"

definition demo_value :: vetted_value where
  "demo_value = \<lparr>vv_community = ''did:c'', vv_method = Video, vv_document_classes = [''passport''],
     vv_claims_verified = [''name.legal''], vv_liveness_confirmed = True,
     vv_identity_commitment = Some ''zId'', vv_card_digest = Some ''zCard'',
     vv_declared_relationship = Some ''none'', vv_attestation_text_digest = None\<rparr>"

definition demo_statement :: verified_statement where
  "demo_statement = \<lparr>vs_id = ''st1'', vs_digest = ''zSt'', vs_issuer = ''did:v'', vs_subject = ''did:me'',
     vs_value = demo_value, vs_task_context = ''s1'', vs_valid_from = 20, vs_valid_until = 1000\<rparr>"

definition demo_sdk :: applicant_sdk where
  "demo_sdk = \<lparr>sdk_check_request = (\<lambda>_ _. True), sdk_request_schema = (\<lambda>_. True),
     sdk_requirements_ok = (\<lambda>_. True), sdk_response_ok = (\<lambda>_. True), sdk_session_ok = (\<lambda>_. True),
     sdk_method_of = (\<lambda>_. Some Video), sdk_method_token = (\<lambda>_. Some ''video''), sdk_decline_ok = (\<lambda>_. True),
     sdk_card_claim_ok = (\<lambda>_. True), sdk_match_code = (\<lambda>_. ''red fox''),
     sdk_verify_card = (\<lambda>_ _. None), sdk_verify_statement = (\<lambda>_ _. Some demo_statement),
     sdk_vetter_members = (\<lambda>_. Some \<lparr>vm_identity_commitment = ''zId'', vm_card_digest = ''zCard'',
                                         vm_declared_relationship = ''none''\<rparr>),
     sdk_check_against_session = (\<lambda>_ _. True),
     sdk_evaluate = (\<lambda>_ facts _. \<lparr>ev_satisfied = facts \<noteq> []\<rparr>),
     sdk_parse_params = (\<lambda>_. Inr october), sdk_decode_ticket = (\<lambda>_. None), sdk_vetter_role = ''vetter'',
     sdk_max_card_validity = hours 1\<rparr>"

lemmas demo_defs = demo_session_def demo_card_def demo_request_def demo_app_def demo_value_def
  demo_statement_def demo_sdk_def new_application_def

definition demo_attested :: application where
  "demo_attested = (case on_statement demo_sdk ''did:v'' JNull 20 demo_app of Inr (a, _) \<Rightarrow> a | Inl _ \<Rightarrow> demo_app)"

lemma demo_taken:
  "on_statement demo_sdk ''did:v'' JNull 20 demo_app = Inr (demo_attested,
     held_from ''did:v'' demo_statement \<lparr>vm_identity_commitment = ''zId'', vm_card_digest = ''zCard'',
        vm_declared_relationship = ''none''\<rparr> JNull 20)"
  by (simp add: demo_attested_def on_statement_def bound_to_card_def answers_session_def in_session_def
      held_from_def demo_defs Let_def)

lemma demo_attested_requests:
  "ap_requests demo_attested = [demo_request\<lparr>or_state := Attested ''r1'' ''st1'', or_updated_at := 20\<rparr>]"
  by (simp add: demo_attested_def on_statement_def bound_to_card_def answers_session_def in_session_def
      held_from_def demo_defs Let_def)

theorem requests_follow_machine_witness:
  "list_all2 evolves (ap_requests demo_app) (ap_requests demo_attested)"
proof -
  have "length (ap_requests demo_attested) = length (ap_requests demo_app)" by (simp add: demo_attested_requests demo_app_def)
  moreover have "or_state r \<noteq> Sent" if "r \<in> set (ap_requests demo_app)" for r using that by (auto simp: demo_defs)
  then have "\<not> forgets_unsent demo_app demo_attested doc" for doc
    by (auto simp: forgets_unsent_def demo_attested_requests demo_defs)
  ultimately show ?thesis
    using requests_follow_machine [OF app_step.statement [OF demo_taken]] by (auto simp: new_request_def)
qed

theorem final_requests_stay_witness:
  "settled_as (demo_request\<lparr>or_state := Attested ''r1'' ''st1'', or_updated_at := 20\<rparr>)
     (lapse_sessions 99 demo_attested)"
  by (rule final_requests_stay [of demo_sdk demo_attested])
     (auto simp: demo_attested_requests intro: app_step.lapse)

theorem identity_never_changes_witness:
  "card_claims demo_sdk ''s1'' [\<lparr>rel_claim_type = ''name.legal'', rel_value = Some (JString ''Eve''),
     rel_provenance = None, rel_stale = False\<rparr>] (lapse_sessions 5 demo_app) \<noteq>
   Inr [\<lparr>cc_type = ''name.legal'', cc_value = JString ''Eve'', cc_provenance = ''unstated''\<rparr>]"
proof
  let ?c = "\<lparr>cc_type = ''name.legal'', cc_value = JString ''Eve'', cc_provenance = ''unstated''\<rparr>"
  assume "card_claims demo_sdk ''s1'' [\<lparr>rel_claim_type = ''name.legal'', rel_value = Some (JString ''Eve''),
     rel_provenance = None, rel_stale = False\<rparr>] (lapse_sessions 5 demo_app) = Inr [?c]"
  moreover have "(app_step demo_sdk)\<^sup>*\<^sup>* demo_app (lapse_sessions 5 demo_app)"
    by (rule r_into_rtranclp) (rule app_step.lapse)
  moreover have "shown_value demo_app ''name.legal'' = Some (JString ''Ada'')"
    by (simp add: shown_value_def demo_defs)
  moreover have "?c \<in> set [?c]" "cc_type ?c = ''name.legal''" by simp_all
  ultimately have "cc_value ?c = JString ''Ada''" using identity_never_changes by blast
  then show False by simp
qed

theorem statement_bound_witness:
  "\<exists>r i s c. r \<in> set (ap_requests demo_app) \<and> or_state r = InSession i s (Some c) \<and> sc_digest c = ''zCard''"
proof -
  have "ap_statements demo_app = []" by (simp add: demo_defs)
  with statement_bound [OF demo_taken] show ?thesis
    by (auto simp: demo_sdk_def)
qed

theorem late_statement_refused_witness:
  "on_statement demo_sdk ''did:v'' JNull 60 (lapse_sessions 55 demo_app) = Inl NoMatchingRequest"
  by (rule late_statement_refused [of _ _ _ demo_statement]) (simp_all add: demo_defs)

definition demo_requirements :: vetting_requirements where
  "demo_requirements = \<lparr>vr_wire = JNull, vr_required_claims = Some [''name.legal''],
     vr_vetter_role = ''vetter'', vr_decision_sla = None\<rparr>"

theorem adopt_criterion_stable_witness:
  "\<exists>a'. adopt_criterion demo_sdk ''v'' demo_requirements None None a' = Inr (a', False)"
proof -
  obtain a' where "adopt_criterion demo_sdk ''v'' demo_requirements None None demo_app = Inr (a', True)"
    by (simp add: adopt_criterion_def offered_hidden_def demo_defs Let_def)
  from adopt_criterion_stable [OF this] show ?thesis by blast
qed

theorem stale_not_counted_witness:
  "checklist demo_sdk 0 (demo_app\<lparr>ap_requirements := Some demo_requirements\<rparr>) = Some \<lparr>ev_satisfied = False\<rparr>"
  by (subst stale_not_counted) (simp_all add: demo_defs attestations_def)

text \<open>The session's card is owed no longer once sent, and asking is pointless while one vetter is busy.\<close>

theorem next_step_sound_witness:
  "next_step demo_sdk 20 (demo_app\<lparr>ap_requirements := None\<rparr>) = LearnRequirements"
  using next_step_sound [of demo_sdk 20 "demo_app\<lparr>ap_requirements := None\<rparr>"]
  by (simp add: demo_defs owed_card_def)

end
