(* ===== verification/HiddenVetter.thy ===== *)
theory HiddenVetter
  imports Schedule
begin

text \<open>
  A vetter's hidden-vetting engine for one community, as this client keeps it
  (\<open>HiddenVetterState\<close> in \<open>openvtc-core/src/vetting/book.rs\<close>): taking a published manifest under
  pinned keys, planning a pass of the schedule, the back-off after silence, the hold after an
  over-quota refusal; and getting back to the key a community bound the vetter to
  (\<open>openvtc-core/src/vetting/binding.rs\<close>).

  Methods that mutate \<open>self\<close> return the new record, with their answer where they have one. The
  loop of \<open>plan\<close> pushes one request per turn up to sixteen, so it is a recursion on the number
  still allowed. The dropped member \<open>legacy_enrolments_asked\<close> has type \<open>()\<close> and is left out.
\<close>

section \<open>State\<close>

record hidden_event_state =
  he_event_id :: string
  he_tier :: string
  he_state :: string
  he_group_size :: nat
  he_group_floor :: nat
  he_label :: "string option"
  he_drip_per_tick :: "nat option"
  he_closes_after :: "day_number option"
  he_answered_at :: instant

record over_quota =
  oq_label :: string
  oq_asked :: nat
  oq_allowed :: "nat option"
  oq_at :: instant

record hidden_draw =
  hd_label :: string
  hd_tick :: tick
  hd_taken :: nat
  hd_at :: instant

record hidden_refusal =
  hr_what :: string
  hr_code :: string
  hr_at :: instant

datatype retry_why = RecoveredKey | AlreadyHeld | NotBound | ResetOpen

datatype key_phase =
    Checking
  | Recovering
  | Retrying retry_why
  | Lost
  | OtherContext string
  | RecoverRefused string string
  | StillRefused

record reset_state =
  rs_reset_at :: instant
  rs_waiting_on :: "string list"
  rs_open :: bool

record key_check =
  kc_phase :: key_phase
  kc_since :: instant
  kc_asked_at :: "instant option"
  kc_reset :: "reset_state option"
  kc_recovery_tried :: bool

record hidden_vetter_state =
  hv_community :: string
  hv_persona :: persona_id
  hv_params :: hidden_params
  hv_engine :: vetter_view
  hv_local_engine_dropped :: bool
  hv_last_ticks :: ticks
  hv_last_drawn_at :: "instant option"
  hv_events :: "hidden_event_state list"
  hv_enrolled_at :: "(string \<times> instant) list"
  hv_tokens_spent :: nat
  hv_last_draw :: "hidden_draw option"
  hv_last_refusal :: "hidden_refusal option"
  hv_retry_at :: "instant option"
  hv_rekeyed_at :: "instant option"
  hv_unanswered :: nat
  hv_lost_enrolment :: "string option"
  hv_lost_reasked :: bool
  hv_enrol_asked_at :: "instant option"
  hv_params_read_at :: "instant option"
  hv_over_quota :: "over_quota option"
  hv_awaiting_read :: bool
  hv_key :: "key_check option"
  hv_bound_id :: "string option"

definition enrolment_answer_wait :: duration where "enrolment_answer_wait = hours 1"
definition params_fresh_for :: duration where "params_fresh_for = minutes 10"
definition hidden_retry_first :: duration where "hidden_retry_first = minutes 1"
definition hidden_retry_cap :: duration where "hidden_retry_cap = hours 1"

section \<open>The numbers in a refusal\<close>

text \<open>\<open>text.find(marker)\<close>, answering what follows the marker.\<close>

fun after_marker :: "string \<Rightarrow> string \<Rightarrow> string option" where
  "after_marker marker [] = strip_prefix marker []"
| "after_marker marker (c # cs) =
     (case strip_prefix marker (c # cs) of Some r \<Rightarrow> Some r | None \<Rightarrow> after_marker marker cs)"

definition number_after :: "string \<Rightarrow> string \<Rightarrow> nat option" where
  "number_after text marker =
     Option.bind (after_marker marker text) (\<lambda>rest.
       parse_unsigned (2 ^ 64) (takeWhile ascii_digit rest))"

definition over_quota_allowed :: "string \<Rightarrow> nat option" where
  "over_quota_allowed detail = number_after detail ''drips ''"

definition over_quota_asked :: "string \<Rightarrow> nat option" where
  "over_quota_asked detail = number_after detail ''asked for ''"

definition hidden_retry_after :: "nat \<Rightarrow> duration" where
  "hidden_retry_after n = min (hidden_retry_first * 2 ^ min (n - 1) 16) hidden_retry_cap"

section \<open>Keeping a schedule\<close>

definition new_vetter_state :: "string \<Rightarrow> persona_id \<Rightarrow> hidden_params \<Rightarrow> hidden_vetter_state" where
  "new_vetter_state community persona params =
     \<lparr>hv_community = community, hv_persona = persona, hv_params = params, hv_engine = default_view,
      hv_local_engine_dropped = False, hv_last_ticks = [], hv_last_drawn_at = None, hv_events = [],
      hv_enrolled_at = [], hv_tokens_spent = 0, hv_last_draw = None, hv_last_refusal = None,
      hv_retry_at = None, hv_rekeyed_at = None, hv_unanswered = 0, hv_lost_enrolment = None,
      hv_lost_reasked = False, hv_enrol_asked_at = None, hv_params_read_at = None,
      hv_over_quota = None, hv_awaiting_read = False, hv_key = None, hv_bound_id = None\<rparr>"

datatype adopted = Unchanged | Updated | Rekeyed bool

definition adopt_published ::
  "hidden_params \<Rightarrow> instant \<Rightarrow> hidden_vetter_state \<Rightarrow> hidden_vetter_state \<times> adopted" where
  "adopt_published live now s =
     (if \<not> same_keys (hv_params s) live then
        (s\<lparr>hv_rekeyed_at := Some (case hv_rekeyed_at s of None \<Rightarrow> now | Some t \<Rightarrow> t)\<rparr>,
         Rekeyed (hv_rekeyed_at s = None))
      else
        let changed = (hv_rekeyed_at s \<noteq> None) \<or> hv_params s \<noteq> live
        in (s\<lparr>hv_rekeyed_at := None, hv_params := live\<rparr>, if changed then Updated else Unchanged))"

definition take_reading ::
  "hidden_params \<Rightarrow> instant \<Rightarrow> hidden_vetter_state \<Rightarrow> hidden_vetter_state \<times> adopted" where
  "take_reading live now s =
     (if \<not> same_keys (hv_params s) live then (s, Unchanged)
      else
        let (s', a) = adopt_published live now s;
            s'' = s'\<lparr>hv_params_read_at := Some now\<rparr>
        in (if a = Updated then s''\<lparr>hv_over_quota := None\<rparr> else s'', a))"

definition event_draw_of :: "hidden_params \<Rightarrow> day_number \<Rightarrow> hidden_event_state \<Rightarrow> event_draw option" where
  "event_draw_of p today e =
     (if he_state e \<noteq> ''approved'' then None
      else
        Option.bind (he_label e) (\<lambda>label.
        Option.bind (he_closes_after e) (\<lambda>closes_after.
        Option.bind (List.find (\<lambda>o'. eo_event_id o' = he_event_id e) (hp_events p)) (\<lambda>offer.
          if today \<le> closes_after
          then Some \<lparr>ed_label = label,
                     ed_rate = (case he_drip_per_tick e of None \<Rightarrow> hp_drip_per_tick p | Some r \<Rightarrow> r),
                     ed_opens_on = eo_start_date offer, ed_closes_after = closes_after\<rparr>
          else None))))"

definition event_draws :: "hidden_vetter_state \<Rightarrow> day_number \<Rightarrow> event_draw list" where
  "event_draws s today = List.map_filter (event_draw_of (hv_params s) today) (hv_events s)"

definition published_rate :: "hidden_vetter_state \<Rightarrow> string \<Rightarrow> day_number \<Rightarrow> nat" where
  "published_rate s label today =
     (case List.find (\<lambda>e. ed_label e = label) (event_draws s today) of
        None \<Rightarrow> hp_drip_per_tick (hv_params s)
      | Some e \<Rightarrow> ed_rate e)"

text \<open>A rate held to what an over-quota refusal under the label said the community issues.\<close>

definition held_rate :: "over_quota option \<Rightarrow> string \<Rightarrow> nat \<Rightarrow> nat" where
  "held_rate oq label rate =
     (case oq of
        Some q \<Rightarrow>
          if oq_label q = label then (case oq_allowed q of None \<Rightarrow> rate | Some m \<Rightarrow> min rate m)
          else rate
      | None \<Rightarrow> rate)"

definition rate_for :: "hidden_vetter_state \<Rightarrow> string \<Rightarrow> day_number \<Rightarrow> nat" where
  "rate_for s label today = held_rate (hv_over_quota s) label (published_rate s label today)"

definition reread_owed :: "hidden_vetter_state \<Rightarrow> bool" where
  "reread_owed s \<longleftrightarrow>
     (case hv_over_quota s of
        None \<Rightarrow> False
      | Some q \<Rightarrow> (case hv_params_read_at s of None \<Rightarrow> True | Some r \<Rightarrow> r \<le> oq_at q))"

definition refused_over_quota ::
  "string \<Rightarrow> string option \<Rightarrow> instant \<Rightarrow> hidden_vetter_state \<Rightarrow> hidden_vetter_state" where
  "refused_over_quota label detail now s =
     (let current = rate_for s label (date_naive now);
          asked = (case Option.bind detail over_quota_asked of None \<Rightarrow> current | Some a \<Rightarrow> a);
          allowed = Option.bind detail over_quota_allowed;
          fresh = (if asked \<noteq> current then s
                   else s\<lparr>hv_over_quota := Some \<lparr>oq_label = label, oq_asked = asked,
                             oq_allowed = allowed, oq_at = now\<rparr>,
                          hv_awaiting_read := True\<rparr>)
      in case hv_over_quota s of
           Some q \<Rightarrow>
             if oq_label q = label \<and> reread_owed s
             then s\<lparr>hv_over_quota := Some (q\<lparr>oq_allowed :=
                        (case allowed of None \<Rightarrow> oq_allowed q | Some a \<Rightarrow> Some a)\<rparr>)\<rparr>
             else fresh
         | None \<Rightarrow> fresh)"

datatype draw_hold = Reading | Unread | Disagrees string nat nat

definition draw_hold :: "hidden_vetter_state \<Rightarrow> bool \<Rightarrow> instant \<Rightarrow> draw_hold option" where
  "draw_hold s reading now =
     (if reading then Some Reading
      else
        let fresh = (case hv_params_read_at s of None \<Rightarrow> False | Some r \<Rightarrow> now - r \<le> params_fresh_for) in
        if \<not> fresh \<or> reread_owed s then Some Unread
        else
          (case hv_over_quota s of
             None \<Rightarrow> None
           | Some q \<Rightarrow>
               if oq_asked q \<le> rate_for s (oq_label q) (date_naive now)
               then Some (Disagrees (oq_label q) (oq_asked q)
                            (published_rate s (oq_label q) (date_naive now)))
               else None))"

definition enrolment_owed :: "hidden_vetter_state \<Rightarrow> string option" where
  "enrolment_owed s =
     (case hp_vetter_labels (hv_params s) of
        [] \<Rightarrow> None
      | l # _ \<Rightarrow> if enrolled_for (hv_engine s) (period_of l) then None else Some (period_of l))"

definition unanswered_at :: "instant \<Rightarrow> hidden_vetter_state \<Rightarrow> hidden_vetter_state \<times> instant" where
  "unanswered_at now s =
     (let n = succ_u32 (hv_unanswered s); retry = now + hidden_retry_after n
      in (s\<lparr>hv_unanswered := n, hv_retry_at := Some retry\<rparr>, retry))"

definition answered :: "hidden_vetter_state \<Rightarrow> hidden_vetter_state" where
  "answered s = (if 0 < hv_unanswered s then s\<lparr>hv_unanswered := 0, hv_retry_at := None\<rparr> else s)"

definition enrolment_held :: "hidden_vetter_state \<Rightarrow> bool" where
  "enrolment_held s \<longleftrightarrow>
     (case hv_key s of
        None \<Rightarrow> False
      | Some k \<Rightarrow> (case kc_phase k of Retrying _ \<Rightarrow> False | _ \<Rightarrow> True))"

text \<open>\<open>entry(label).or_insert(tick)\<close> raised to \<open>tick\<close>.\<close>

definition raise_tick :: "string \<Rightarrow> tick \<Rightarrow> ticks \<Rightarrow> ticks" where
  "raise_tick label t ts =
     AList.update label (case map_of ts label of None \<Rightarrow> t | Some u \<Rightarrow> max u t) ts"

definition record_served :: "string \<Rightarrow> tick \<Rightarrow> hidden_vetter_state \<Rightarrow> hidden_vetter_state" where
  "record_served label t s = s\<lparr>hv_last_ticks := raise_tick label t (hv_last_ticks s)\<rparr>"

record hidden_plan =
  pl_adopted :: adopted
  pl_settled :: bool
  pl_owed :: "due list"

fun plan_loop ::
  "nat \<Rightarrow> ticks \<Rightarrow> event_draw list \<Rightarrow> instant \<Rightarrow> hidden_vetter_state \<Rightarrow> hidden_vetter_state \<times> due list" where
  "plan_loop 0 ts events now s = (s, [])"
| "plan_loop (Suc n) ts events now s =
     (case due (hv_params s) (Some (hv_engine s)) ts events now of
        DueNothing \<Rightarrow> (s, [])
      | DueEnrol period \<Rightarrow>
          if enrolment_held s then (s, [])
          else if hv_lost_enrolment s = Some period
          then (if \<not> hv_lost_reasked s then (s\<lparr>hv_lost_reasked := True\<rparr>, [DueEnrol period]) else (s, []))
          else (s, [DueEnrol period])
      | DueDraw label t rate \<Rightarrow>
          let (s', rest) = plan_loop n (AList.update label t ts) events now s
          in (s', DueDraw label t (held_rate (hv_over_quota s) label rate) # rest))"

definition count_in_flight :: "(string \<times> tick) list \<Rightarrow> ticks \<Rightarrow> ticks" where
  "count_in_flight in_flight ts = foldl (\<lambda>ts (label, t). raise_tick label t ts) ts in_flight"

definition plan ::
  "hidden_params option \<Rightarrow> (string \<times> tick) list \<Rightarrow> instant \<Rightarrow> hidden_vetter_state \<Rightarrow>
   hidden_vetter_state \<times> hidden_plan" where
  "plan live in_flight now s =
     (let (s, adopted) = (case live of None \<Rightarrow> (s, Unchanged) | Some l \<Rightarrow> adopt_published l now s) in
      if hv_rekeyed_at s \<noteq> None then
        (s, \<lparr>pl_adopted = adopted, pl_settled = False, pl_owed = []\<rparr>)
      else
        let events = event_draws s (date_naive now);
            (kept, settled) = settle_ticks (hv_last_ticks s) (hv_params s) events now;
            s = s\<lparr>hv_last_ticks := kept\<rparr>
        in if (case hv_retry_at s of None \<Rightarrow> False | Some t \<Rightarrow> now < t)
           then (s, \<lparr>pl_adopted = adopted, pl_settled = settled, pl_owed = []\<rparr>)
           else
             let (s, owed) = plan_loop max_draws_per_pass (count_in_flight in_flight (hv_last_ticks s))
                               events now s
             in (s, \<lparr>pl_adopted = adopted, pl_settled = settled, pl_owed = owed\<rparr>))"

definition usize_max :: nat where "usize_max = 18446744073709551615"

definition tokens :: "hidden_vetter_state \<Rightarrow> nat \<times> nat" where
  "tokens s =
     (let count = (\<lambda>n. if n \<le> usize_max then n else usize_max)
      in (count (vw_tokens_held (hv_engine s)), count (vw_tokens_free (hv_engine s))))"

definition take_engine :: "vetter_view \<Rightarrow> hidden_vetter_state \<Rightarrow> hidden_vetter_state" where
  "take_engine v s = s\<lparr>hv_engine := v\<rparr>"

definition forget_local_vetter :: "hidden_vetter_state \<Rightarrow> hidden_vetter_state \<times> bool" where
  "forget_local_vetter s =
     (if \<not> hv_local_engine_dropped s then (s, False)
      else (s\<lparr>hv_local_engine_dropped := False, hv_engine := default_view, hv_enrolled_at := [],
              hv_last_ticks := [], hv_last_draw := None, hv_lost_enrolment := None,
              hv_lost_reasked := False, hv_enrol_asked_at := None, hv_retry_at := None,
              hv_unanswered := 0\<rparr>, True))"

definition enrolment_pending :: "hidden_vetter_state \<Rightarrow> string \<Rightarrow> instant \<Rightarrow> bool" where
  "enrolment_pending s period now \<longleftrightarrow>
     ''vetter/'' @ period \<in> set (vw_pending_labels (hv_engine s)) \<and>
     (case hv_enrol_asked_at s of None \<Rightarrow> False | Some at \<Rightarrow> now - at < enrolment_answer_wait)"

section \<open>The key the community bound\<close>

definition binding_reask :: duration where "binding_reask = minutes 15"
definition message_keep :: nat where "message_keep = 300"

record binding =
  bi_id :: "string option"
  bi_reset :: "reset_state option"

datatype key_move = Enrol retry_why | Recover string | Wait

definition decide :: "binding \<Rightarrow> string \<Rightarrow> bool \<Rightarrow> key_move" where
  "decide b engine_id recovery_tried =
     (case bi_id b of
        None \<Rightarrow> Enrol NotBound
      | Some bound_id \<Rightarrow>
          if bound_id = engine_id then Enrol AlreadyHeld
          else if \<not> recovery_tried then Recover bound_id
          else (case bi_reset b of
                  Some r \<Rightarrow> if rs_open r then Enrol ResetOpen else Wait
                | None \<Rightarrow> Wait))"

datatype recover_refusal = NotFound | HeldInAnotherContext string | RefusedRecovery string string

text \<open>\<open>RecoverRefusal::from_code\<close>; the two declared codes come from the generated task.\<close>

definition refusal_from_code :: "string \<Rightarrow> string \<Rightarrow> string \<Rightarrow> string \<Rightarrow> recover_refusal" where
  "refusal_from_code not_found held_elsewhere code message =
     (if code = not_found then NotFound
      else if code = held_elsewhere then HeldInAnotherContext message
      else RefusedRecovery code message)"

text \<open>\<open>chars().take(n)\<close> counts characters: a UTF-8 continuation byte belongs to the one before it.\<close>

fun take_chars :: "nat \<Rightarrow> string \<Rightarrow> string" where
  "take_chars n [] = []"
| "take_chars n (c # cs) =
     (if continuation_byte c then c # take_chars n cs
      else case n of 0 \<Rightarrow> [] | Suc m \<Rightarrow> c # take_chars m cs)"

definition kept_message :: "string \<Rightarrow> string" where
  "kept_message m = take_chars message_keep m"

definition key_check_at :: "key_phase \<Rightarrow> instant \<Rightarrow> key_check" where
  "key_check_at phase now =
     \<lparr>kc_phase = phase, kc_since = now, kc_asked_at = None, kc_reset = None, kc_recovery_tried = False\<rparr>"

definition on_rebound :: "instant \<Rightarrow> hidden_vetter_state \<Rightarrow> hidden_vetter_state" where
  "on_rebound now s =
     (case hv_key s of
        Some k \<Rightarrow>
          (case kc_phase k of
             Retrying _ \<Rightarrow> s\<lparr>hv_key := Some (k\<lparr>kc_phase := StillRefused, kc_since := now\<rparr>), hv_bound_id := None\<rparr>
           | _ \<Rightarrow> s\<lparr>hv_key := Some (key_check_at Checking now), hv_bound_id := None\<rparr>)
      | None \<Rightarrow> s\<lparr>hv_key := Some (key_check_at Checking now), hv_bound_id := None\<rparr>)"

definition ends_with :: "string \<Rightarrow> string \<Rightarrow> bool" where
  "ends_with s e \<longleftrightarrow> length e \<le> length s \<and> drop (length s - length e) s = e"

definition recheck_key :: "instant \<Rightarrow> hidden_vetter_state \<Rightarrow> hidden_vetter_state \<times> bool" where
  "recheck_key now s =
     (let rebound = (case hv_last_refusal s of None \<Rightarrow> False | Some r \<Rightarrow> ends_with (hr_code r) '':identifierRebound'');
          restart = (case hv_key s of
                       Some k \<Rightarrow> kc_phase k \<noteq> Checking \<and> kc_phase k \<noteq> Recovering
                     | None \<Rightarrow> rebound)
      in (if restart then s\<lparr>hv_key := Some (key_check_at Checking now), hv_bound_id := None\<rparr> else s, restart))"

definition binding_read_due :: "hidden_vetter_state \<Rightarrow> instant \<Rightarrow> bool" where
  "binding_read_due s now \<longleftrightarrow>
     (case hv_key s of
        None \<Rightarrow> False
      | Some k \<Rightarrow>
          (case kc_phase k of
             Checking \<Rightarrow> True | Lost \<Rightarrow> True | Recovering \<Rightarrow> hv_bound_id s = None | _ \<Rightarrow> False) \<and>
          (case kc_asked_at k of None \<Rightarrow> True | Some at \<Rightarrow> binding_reask \<le> now - at))"

definition binding_asked :: "instant \<Rightarrow> hidden_vetter_state \<Rightarrow> hidden_vetter_state" where
  "binding_asked now s = s\<lparr>hv_key := map_option (\<lambda>k. k\<lparr>kc_asked_at := Some now\<rparr>) (hv_key s)\<rparr>"

definition retry_enrolment :: "retry_why \<Rightarrow> instant \<Rightarrow> hidden_vetter_state \<Rightarrow> hidden_vetter_state" where
  "retry_enrolment why now s =
     s\<lparr>hv_bound_id := None, hv_last_refusal := None, hv_enrol_asked_at := None,
       hv_key := map_option (\<lambda>k. k\<lparr>kc_phase := Retrying why, kc_since := now\<rparr>) (hv_key s)\<rparr>"

definition move_phase :: "key_phase \<Rightarrow> instant \<Rightarrow> key_check \<Rightarrow> key_check" where
  "move_phase phase now k = (if kc_phase k \<noteq> phase then k\<lparr>kc_phase := phase, kc_since := now\<rparr> else k)"

definition on_binding_shown ::
  "binding \<Rightarrow> instant \<Rightarrow> hidden_vetter_state \<Rightarrow> hidden_vetter_state \<times> key_move option" where
  "on_binding_shown b now s =
     (case hv_key s of
        None \<Rightarrow> (s, None)
      | Some k \<Rightarrow>
          if kc_phase k \<noteq> Checking \<and> kc_phase k \<noteq> Recovering \<and> kc_phase k \<noteq> Lost then (s, None)
          else
            let k = k\<lparr>kc_reset := bi_reset b\<rparr>;
                step = decide b (vw_id (hv_engine s)) (kc_recovery_tried k)
            in (case step of
                  Enrol why \<Rightarrow> retry_enrolment why now (s\<lparr>hv_key := Some k\<rparr>)
                | Recover bound_id \<Rightarrow>
                    s\<lparr>hv_key := Some (move_phase Recovering now k), hv_bound_id := Some bound_id\<rparr>
                | Wait \<Rightarrow> s\<lparr>hv_key := Some (move_phase Lost now k), hv_bound_id := None\<rparr>,
                Some step))"

definition recovery_due :: "hidden_vetter_state \<Rightarrow> string option" where
  "recovery_due s =
     (case hv_key s of
        Some k \<Rightarrow> if kc_phase k = Recovering then hv_bound_id s else None
      | None \<Rightarrow> None)"

definition on_recovered :: "bool \<Rightarrow> vetter_view \<Rightarrow> instant \<Rightarrow> hidden_vetter_state \<Rightarrow> hidden_vetter_state" where
  "on_recovered recovered engine now s =
     retry_enrolment (if recovered then RecoveredKey else AlreadyHeld) now
       ((take_engine engine s)\<lparr>hv_key := map_option (\<lambda>k. k\<lparr>kc_recovery_tried := True\<rparr>) (hv_key s)\<rparr>)"

definition on_recover_refused ::
  "recover_refusal \<Rightarrow> instant \<Rightarrow> hidden_vetter_state \<Rightarrow> hidden_vetter_state" where
  "on_recover_refused refusal now s =
     (let s = s\<lparr>hv_bound_id := None\<rparr> in
      case hv_key s of
        None \<Rightarrow> s
      | Some k \<Rightarrow>
          let k = k\<lparr>kc_recovery_tried := True, kc_since := now\<rparr>;
              reset_open = (case kc_reset k of None \<Rightarrow> False | Some r \<Rightarrow> rs_open r)
          in case refusal of
               NotFound \<Rightarrow>
                 if reset_open then retry_enrolment ResetOpen now (s\<lparr>hv_key := Some k\<rparr>)
                 else s\<lparr>hv_key := Some (k\<lparr>kc_phase := Lost\<rparr>)\<rparr>
             | HeldInAnotherContext message \<Rightarrow>
                 s\<lparr>hv_key := Some (k\<lparr>kc_phase := OtherContext (kept_message message)\<rparr>)\<rparr>
             | RefusedRecovery code message \<Rightarrow>
                 s\<lparr>hv_key := Some (k\<lparr>kc_phase := RecoverRefused code (kept_message message)\<rparr>)\<rparr>)"

definition key_settled :: "hidden_vetter_state \<Rightarrow> hidden_vetter_state" where
  "key_settled s = s\<lparr>hv_key := None, hv_bound_id := None\<rparr>"

section \<open>The shape of a plan\<close>

lemma due_engine_cong:
  "vw_enrolled_labels v = vw_enrolled_labels w \<Longrightarrow> due p (Some v) ts events now = due p (Some w) ts events now"
  by (simp add: due_cases enrolled_for_def split: list.split)

lemma plan_loop_blind:
  "vw_enrolled_labels v = vw_enrolled_labels (hv_engine s) \<Longrightarrow>
     plan_loop n ts events now (s\<lparr>hv_engine := v\<rparr>) =
       (let (s', owed) = plan_loop n ts events now s in (s'\<lparr>hv_engine := v\<rparr>, owed))"
proof (induction n arbitrary: ts)
  case (Suc n)
  have due: "due (hv_params s) (Some v) ts events now = due (hv_params s) (Some (hv_engine s)) ts events now"
    using Suc.prems by (rule due_engine_cong)
  show ?case
    using Suc.IH [OF Suc.prems]
    by (auto simp: due enrolment_held_def Let_def split: due.splits prod.splits)
qed simp

lemma plan_loop_frame:
  "plan_loop n ts events now s = (s', owed) \<Longrightarrow> \<exists>b. s' = s\<lparr>hv_lost_reasked := b\<rparr>"
proof (induction n arbitrary: ts owed)
  case 0
  then show ?case by (auto intro: exI [of _ "hv_lost_reasked s"])
next
  case (Suc n)
  then show ?case
    by (auto simp: Let_def split: due.splits prod.splits if_splits intro: exI [of _ "hv_lost_reasked s"])
qed

lemma plan_loop_length: "plan_loop n ts events now s = (s', owed) \<Longrightarrow> length owed \<le> n"
  by (induction n arbitrary: ts owed) (auto simp: Let_def split: due.splits prod.splits if_splits)

fun is_draw :: "due \<Rightarrow> bool" where
  "is_draw (DueDraw _ _ _) = True"
| "is_draw _ = False"

fun draw_key :: "due \<Rightarrow> string \<times> tick" where
  "draw_key (DueDraw label t _) = (label, t)"
| "draw_key _ = ([], 0)"

lemma due_enrol_iff:
  "due p (Some v) ts events now = DueEnrol period \<longleftrightarrow>
     (\<exists>l ls. hp_vetter_labels p = l # ls \<and> period = period_of l \<and> \<not> enrolled_for v period)"
  unfolding due_cases
  by (auto split: list.splits option.splits prod.splits simp: due_event_never_enrols)

lemma plan_loop_shape:
  assumes "plan_loop n ts events now s = (s', owed)"
  shows "list_all is_draw owed \<or> (\<exists>period. owed = [DueEnrol period])"
proof (cases "\<exists>period. due (hv_params s) (Some (hv_engine s)) ts events now = DueEnrol period")
  case True
  with assms show ?thesis
    by (cases n) (auto split: if_splits)
next
  case False
  then have "due (hv_params s) (Some (hv_engine s)) us events now \<noteq> DueEnrol period" for us period
    unfolding due_enrol_iff by auto
  with assms have "list_all is_draw owed"
    by (induction n arbitrary: ts owed) (auto simp: Let_def split: due.splits prod.splits)
  then show ?thesis ..
qed

section \<open>Asked once, and drained\<close>

text \<open>
  The events a vetter draws for have labels of their own: no two share one, none is spelled like a
  month, and none has been open for four billion hours.
\<close>

definition labels_separate :: "event_draw list \<Rightarrow> instant \<Rightarrow> bool" where
  "labels_separate events now \<longleftrightarrow>
     distinct (map ed_label events) \<and>
     (\<forall>e \<in> set events. month_of_label (ed_label e) = None \<and>
        now - day_start (ed_opens_on e) < hours (int u32_max))"

text \<open>Every tick recorded or on its way belongs to a label that is drawn, and has begun.\<close>

definition ticks_valid :: "hidden_params \<Rightarrow> event_draw list \<Rightarrow> instant \<Rightarrow> ticks \<Rightarrow> bool" where
  "ticks_valid p events now ts \<longleftrightarrow> (\<forall>e \<in> set ts. settled_entry p events now e)"

lemma find_label:
  "distinct (map ed_label events) \<Longrightarrow> e \<in> set events \<Longrightarrow> List.find (\<lambda>d. ed_label d = ed_label e) events = Some e"
  by (induction events) (auto simp: image_iff)

lemma source_start:
  assumes "labels_separate events now" "draw_source p events now label rate start"
  shows "label_start label events = Some start \<and>
         (label \<in> set (hp_token_labels p) \<or> list_ex (\<lambda>d. ed_label d = label) events) \<and>
         now - start < hours (int u32_max)"
  using assms(2) unfolding draw_source_def
proof
  assume "(\<exists>fin. current_month_label p now = Some (label, start, fin)) \<and> rate = hp_drip_per_tick p"
  then obtain fin where "current_month_label p now = Some (label, start, fin)" by blast
  from current_month_label_Some [OF this] month_window [of label start fin] show ?thesis
    by (auto simp: label_start_def u32_max_def)
next
  assume "\<exists>e \<in> set events. ed_label e = label \<and> ed_rate e = rate \<and> date_naive now \<le> ed_closes_after e \<and>
            start = day_start (ed_opens_on e)"
  then obtain e where e: "e \<in> set events" "ed_label e = label" "start = day_start (ed_opens_on e)" by blast
  with assms(1) find_label [of events e] show ?thesis
    by (auto simp: labels_separate_def label_start_def list_ex_iff)
qed

lemma due_draw_step:
  assumes sep: "labels_separate events now" and valid: "ticks_valid p events now ts"
    and due: "due p engine ts events now = DueDraw label t rate"
  shows "settled_entry p events now (label, t)" and "\<And>u. map_of ts label = Some u \<Longrightarrow> u < t"
proof -
  obtain start where src: "draw_source p events now label rate start"
    and nxt: "next_tick start (tick_length p) (map_of ts label) now = Some t"
    using due_draw_next_tick [OF due] by blast
  note at = source_start [OF sep src]
  obtain current where c: "tick_of start (tick_length p) now = Some current" "t \<le> current"
    using nxt by (auto simp: next_tick_def bind_eq_Some_conv Let_def split: if_splits)
  then have "start \<le> now" by (auto simp: tick_of_def split: if_splits)
  then have small: "current < u32_max"
    using tick_of_found [of start now u32_max p] at c(1) by auto
  show "settled_entry p events now (label, t)"
    using at c by (simp add: settled_entry_def)
  fix u assume u: "map_of ts label = Some u"
  then have "settled_entry p events now (label, u)"
    using valid by (auto simp: ticks_valid_def dest: map_of_SomeD)
  then have "u \<le> current"
    using at c(1) by (simp add: settled_entry_def)
  with nxt u c(1) small show "u < t"
    by (auto simp: next_tick_def Let_def succ_u32_def split: if_splits)
qed

lemma ticks_valid_update:
  "ticks_valid p events now ts \<Longrightarrow> settled_entry p events now (label, t) \<Longrightarrow>
     ticks_valid p events now (AList.update label t ts)"
  using set_alist_update [of label t ts] by (auto simp: ticks_valid_def)

lemma plan_loop_fresh:
  assumes "labels_separate events now" "ticks_valid (hv_params s) events now ts"
    and "plan_loop n ts events now s = (s', owed)" "list_all is_draw owed"
  shows "distinct (map draw_key owed) \<and>
    (\<forall>d \<in> set owed. \<forall>u. map_of ts (fst (draw_key d)) = Some u \<longrightarrow> u < snd (draw_key d))"
  using assms(2-)
proof (induction n arbitrary: ts owed)
  case (Suc n)
  show ?case
  proof (cases "due (hv_params s) (Some (hv_engine s)) ts events now")
    case (DueDraw label t rate)
    then obtain r rest where rest: "plan_loop n (AList.update label t ts) events now s = (s', rest)"
      and owed: "owed = DueDraw label t r # rest"
      using Suc.prems(2) by (auto simp: Let_def split: prod.splits)
    note step = due_draw_step [OF assms(1) Suc.prems(1) DueDraw]
    have "ticks_valid (hv_params s) events now (AList.update label t ts)"
      by (rule ticks_valid_update [OF Suc.prems(1) step(1)])
    note IH = Suc.IH [OF this rest]
    have later: "fst (draw_key d) = label \<Longrightarrow> t < snd (draw_key d)" if "d \<in> set rest" for d
      using IH Suc.prems(3) owed that by (auto simp: update_conv)
    have "u < snd (draw_key d)" if "d \<in> set rest" "map_of ts (fst (draw_key d)) = Some u" for d u
    proof (cases "fst (draw_key d) = label")
      case True
      with later [OF that(1)] step(2) that(2) show ?thesis by fastforce
    next
      case False
      with IH Suc.prems(3) owed that show ?thesis by (auto simp: update_conv)
    qed
    then have old: "\<forall>d \<in> set owed. \<forall>u. map_of ts (fst (draw_key d)) = Some u \<longrightarrow> u < snd (draw_key d)"
      using step(2) by (simp add: owed)
    have "(label, t) \<notin> draw_key ` set rest"
      using later by (metis fst_conv imageE less_irrefl snd_conv)
    moreover have "distinct (map draw_key rest)"
      using IH Suc.prems(3) by (simp add: owed)
    ultimately show ?thesis
      using old by (simp add: owed)
  qed (use Suc.prems in \<open>auto split: if_splits\<close>)
qed simp

lemma plan_loop_drains:
  assumes "labels_separate events now" "ticks_valid (hv_params s) events now ts"
    and "plan_loop n ts events now s = (s', owed)" "length owed < n" "enrolment_owed s = None"
  shows "ticks_valid (hv_params s) events now (foldl (\<lambda>ts d. raise_tick (fst (draw_key d)) (snd (draw_key d)) ts) ts owed)"
    and "due (hv_params s) (Some (hv_engine s))
           (foldl (\<lambda>ts d. raise_tick (fst (draw_key d)) (snd (draw_key d)) ts) ts owed) events now = DueNothing"
  using assms(2-4)
proof (induction n arbitrary: ts owed)
  case (Suc n)
  have no_enrol: "due (hv_params s) (Some (hv_engine s)) us events now \<noteq> DueEnrol period" for us period
    using assms(5) unfolding due_enrol_iff by (auto simp: enrolment_owed_def split: if_splits)
  {
    case 1
    then show ?case
    proof (cases "due (hv_params s) (Some (hv_engine s)) ts events now")
      case (DueDraw label t rate)
      with 1 obtain r rest where rest: "plan_loop n (AList.update label t ts) events now s = (s', rest)"
        and owed: "owed = DueDraw label t r # rest"
        by (auto simp: Let_def split: prod.splits)
      note step = due_draw_step [OF assms(1) 1(1) DueDraw]
      have "raise_tick label t ts = AList.update label t ts"
        using step(2) by (force simp: raise_tick_def max_def split: option.splits)
      with Suc.IH(1) [OF ticks_valid_update [OF 1(1) step(1)] rest] 1(3) show ?thesis
        by (simp add: owed)
    qed (use no_enrol in auto)
  next
    case 2
    then show ?case
    proof (cases "due (hv_params s) (Some (hv_engine s)) ts events now")
      case (DueDraw label t rate)
      with 2 obtain r rest where rest: "plan_loop n (AList.update label t ts) events now s = (s', rest)"
        and owed: "owed = DueDraw label t r # rest"
        by (auto simp: Let_def split: prod.splits)
      note step = due_draw_step [OF assms(1) 2(1) DueDraw]
      have "raise_tick label t ts = AList.update label t ts"
        using step(2) by (force simp: raise_tick_def max_def split: option.splits)
      with Suc.IH(2) [OF ticks_valid_update [OF 2(1) step(1)] rest] 2(3) show ?thesis
        by (simp add: owed)
    qed (use no_enrol in auto)
  }
qed simp_all

section \<open>Nothing left out\<close>

text \<open>
  A tick is owed under a label that is drawn, at its published rate, when its window has opened and
  no tick as late has been served under that label.
\<close>

definition tick_owed ::
  "hidden_params \<Rightarrow> event_draw list \<Rightarrow> instant \<Rightarrow> ticks \<Rightarrow> string \<Rightarrow> tick \<Rightarrow> nat \<Rightarrow> bool" where
  "tick_owed p events now ts label t rate \<longleftrightarrow>
     (\<exists>start current. draw_source p events now label rate start \<and>
        tick_of start (tick_length p) now = Some current \<and> t \<le> current) \<and>
     (case map_of ts label of None \<Rightarrow> True | Some u \<Rightarrow> u < t)"

lemma source_unique:
  assumes "labels_separate events now" "draw_source p events now label rate start"
    "draw_source p events now label rate' start'"
  shows "rate' = rate \<and> start' = start"
  using assms
  by (auto simp: draw_source_def labels_separate_def distinct_map inj_on_def
      dest!: current_month_label_Some)

lemma source_current:
  assumes "labels_separate events now" "ticks_valid p events now ts" "draw_source p events now label rate start"
    and "tick_of start (tick_length p) now = Some current"
  shows "current < u32_max" and "map_of ts label = Some u \<Longrightarrow> u \<le> current"
proof -
  note src = source_start [OF assms(1,3)]
  from assms(4) have "start \<le> now" by (auto simp: tick_of_def split: if_splits)
  with tick_of_found [of start now u32_max p] src assms(4) show "current < u32_max" by auto
  show "map_of ts label = Some u \<Longrightarrow> u \<le> current"
    using assms(2,4) src by (auto simp: ticks_valid_def settled_entry_def dest!: map_of_SomeD)
qed

lemma due_nothing_sources:
  assumes "due p engine ts events now = DueNothing" "hp_vetter_labels p \<noteq> []"
    and "draw_source p events now label rate start"
  shows "next_tick start (tick_length p) (map_of ts label) now = None"
proof -
  have ev: "due_event len ts now es = DueNothing \<Longrightarrow> e \<in> set es \<Longrightarrow> date_naive now \<le> ed_closes_after e \<Longrightarrow>
      next_tick (day_start (ed_opens_on e)) len (map_of ts (ed_label e)) now = None" for len es e
    by (induction es) (auto split: if_splits option.splits)
  from assms show ?thesis
    unfolding due_cases draw_source_def
    by (auto split: list.splits if_splits option.splits prod.splits dest: ev)
qed

lemma due_nothing_owed:
  assumes "labels_separate events now" "ticks_valid p events now ts"
    and "due p engine ts events now = DueNothing" "hp_vetter_labels p \<noteq> []"
  shows "\<not> tick_owed p events now ts label t rate"
proof
  assume "tick_owed p events now ts label t rate"
  then obtain start current where src: "draw_source p events now label rate start"
    and cur: "tick_of start (tick_length p) now = Some current" "t \<le> current"
    and t: "case map_of ts label of None \<Rightarrow> True | Some u \<Rightarrow> u < t"
    unfolding tick_owed_def by blast
  note small = source_current [OF assms(1,2) src cur(1)]
  from due_nothing_sources [OF assms(3,4) src] cur t small show False
    by (auto simp: next_tick_def Let_def succ_u32_def min_def split: option.splits if_splits)
qed

lemma due_draw_owed:
  assumes "labels_separate events now" "ticks_valid p events now ts"
    and "due p engine ts events now = DueDraw label t rate"
  shows "tick_owed p events now ts l u q \<longleftrightarrow>
    l = label \<and> u = t \<and> q = rate \<or> tick_owed p events now (AList.update label t ts) l u q"
proof (cases "l = label")
  case True
  obtain start where src: "draw_source p events now label rate start"
    and nxt: "next_tick start (tick_length p) (map_of ts label) now = Some t"
    using due_draw_next_tick [OF assms(3)] by blast
  obtain current where cur: "tick_of start (tick_length p) now = Some current" "t \<le> current"
    using nxt by (auto simp: next_tick_def bind_eq_Some_conv Let_def split: if_splits)
  note small = source_current [OF assms(1,2) src cur(1)]
  have t: "t = (case map_of ts label of None \<Rightarrow> 0 | Some v \<Rightarrow> Suc v)"
    using nxt cur small by (auto simp: next_tick_def Let_def succ_u32_def min_def split: option.splits if_splits)
  have from_src: "(\<exists>start current. draw_source p events now label q start \<and>
        tick_of start (tick_length p) now = Some current \<and> u \<le> current) \<longleftrightarrow> q = rate \<and> u \<le> current"
    using src cur(1) by (metis source_unique [OF assms(1) src] option.inject)
  show ?thesis
    using cur(2) unfolding tick_owed_def True from_src
    by (auto simp: t update_conv split: option.splits)
qed (simp add: tick_owed_def update_conv)

lemma plan_loop_exact:
  assumes "labels_separate events now" "ticks_valid (hv_params s) events now ts"
    and "plan_loop n ts events now s = (s', owed)" "length owed < n" "enrolment_owed s = None"
    and "hp_vetter_labels (hv_params s) \<noteq> []"
  shows "set owed = {DueDraw label t (held_rate (hv_over_quota s) label rate) | label t rate.
    tick_owed (hv_params s) events now ts label t rate}"
  using assms(2-4)
proof (induction n arbitrary: ts owed)
  case (Suc n)
  have no_enrol: "due (hv_params s) (Some (hv_engine s)) us events now \<noteq> DueEnrol period" for us period
    using assms(5) unfolding due_enrol_iff by (auto simp: enrolment_owed_def split: if_splits)
  show ?case
  proof (cases "due (hv_params s) (Some (hv_engine s)) ts events now")
    case DueNothing
    with due_nothing_owed [OF assms(1) Suc.prems(1) DueNothing assms(6)] Suc.prems(2) show ?thesis
      by simp
  next
    case (DueDraw label t rate)
    then obtain rest where rest: "plan_loop n (AList.update label t ts) events now s = (s', rest)"
      and owed: "owed = DueDraw label t (held_rate (hv_over_quota s) label rate) # rest"
      using Suc.prems(2) by (auto simp: Let_def split: prod.splits)
    note step = due_draw_step [OF assms(1) Suc.prems(1) DueDraw]
    have "length rest < n" using Suc.prems(3) owed by simp
    note IH = Suc.IH [OF ticks_valid_update [OF Suc.prems(1) step(1)] rest this]
    show ?thesis
      unfolding owed list.set IH due_draw_owed [OF assms(1) Suc.prems(1) DueDraw] by blast
  qed (use no_enrol in auto)
qed simp

end
