(* ===== verification/Tickets.thy ===== *)
theory Tickets
  imports Wire
begin

text \<open>
  Vetting tickets (\<open>openvtc-core/src/vetting/tickets.rs\<close>): the spoken code and its Crockford
  alphabet, reading a code as a person types it, the throttle on wrong codes, checking a presented
  ticket and spending one use of it.

  A ticket's random bytes, its UUID and the base64 form of its secret come from outside and are
  arguments of \<open>issue\<close>; \<open>uses_left\<close> is the source's \<open>u32\<close>. \<open>code_presentation\<close>,
  \<open>scanned_presentation\<close> and \<open>uri\<close> only hand the fields to the SDK's builders.
\<close>

section \<open>Tickets\<close>

datatype vetter_mode = NamedMode | PcsZkpMode

record ticket =
  tk_id :: string
  tk_code :: string
  tk_secret :: string
  tk_community :: string
  tk_persona :: persona_id
  tk_methods :: "vetting_method list"
  tk_uses_left :: "32 word"
  tk_created_at :: instant
  tk_expires_at :: instant
  tk_label :: "string option"
  tk_mode :: "vetter_mode option"

definition crockford :: string where
  "crockford = ''0123456789ABCDEFGHJKMNPQRSTVWXYZ''"

definition default_validity :: duration where "default_validity = days 14"
definition guess_window :: duration where "guess_window = hours 1"
definition max_wrong_codes_per_sender :: nat where "max_wrong_codes_per_sender = 5"
definition max_wrong_codes :: nat where "max_wrong_codes = 60"

definition code_bits :: "8 word list \<Rightarrow> 64 word" where
  "code_bits bs = foldl (\<lambda>acc b. or (push_bit 8 acc) (ucast b)) 0 bs"

definition code_char :: "64 word \<Rightarrow> nat \<Rightarrow> char" where
  "code_char w i = crockford ! unat (and (drop_bit (35 - 5 * i) w) 31)"

definition encode_code :: "8 word list \<Rightarrow> string" where
  "encode_code bs =
     concat (map (\<lambda>i. (if i = 4 then ''-'' else '''') @ [code_char (code_bits bs) i]) [0..<8])"

definition issue ::
  "string \<Rightarrow> 8 word list \<Rightarrow> string \<Rightarrow> string \<Rightarrow> persona_id \<Rightarrow> vetting_method list \<Rightarrow>
   32 word \<Rightarrow> duration \<Rightarrow> instant \<Rightarrow> ticket" where
  "issue uuid code secret community persona methods uses validity now =
     \<lparr>tk_id = ''vt-'' @ uuid, tk_code = encode_code code, tk_secret = secret,
      tk_community = community, tk_persona = persona, tk_methods = methods,
      tk_uses_left = max uses 1, tk_created_at = now, tk_expires_at = now + validity,
      tk_label = None, tk_mode = None\<rparr>"

definition is_live :: "ticket \<Rightarrow> instant \<Rightarrow> bool" where
  "is_live t now \<longleftrightarrow> 0 < tk_uses_left t \<and> now < tk_expires_at t"

definition offers :: "ticket \<Rightarrow> vetting_method option \<Rightarrow> bool" where
  "offers t m \<longleftrightarrow> tk_methods t = [] \<or> (case m of None \<Rightarrow> True | Some v \<Rightarrow> v \<in> set (tk_methods t))"

definition to_ascii_uppercase :: "char \<Rightarrow> char" where
  "to_ascii_uppercase c =
     (let n = of_char c :: nat in if 97 \<le> n \<and> n \<le> 122 then char_of (n - 32) else c)"

text \<open>
  One character of a typed code: skipped (\<open>Some None\<close>), read as a symbol of the alphabet, or a
  reason to refuse the whole input (\<open>None\<close>).
\<close>

definition read_code_char :: "char \<Rightarrow> char option option" where
  "read_code_char c =
     (let u = to_ascii_uppercase c in
      if u = CHR ''-'' \<or> u = CHR '' '' then Some None
      else let d = (if u = CHR ''O'' then CHR ''0''
                    else if u = CHR ''I'' \<or> u = CHR ''L'' then CHR ''1'' else u)
           in if d \<in> set crockford then Some (Some d) else None)"

fun read_code_chars :: "string \<Rightarrow> string option" where
  "read_code_chars [] = Some []"
| "read_code_chars (c # cs) =
     (case read_code_char c of
        None \<Rightarrow> None
      | Some None \<Rightarrow> read_code_chars cs
      | Some (Some d) \<Rightarrow> map_option ((#) d) (read_code_chars cs))"

definition normalise_code :: "string \<Rightarrow> string option" where
  "normalise_code input =
     (case read_code_chars input of
        None \<Rightarrow> None
      | Some chars \<Rightarrow>
          if length chars = 8 then Some (take 4 chars @ ''-'' @ drop 4 chars) else None)"

definition constant_time_eq :: "string \<Rightarrow> string \<Rightarrow> bool" where
  "constant_time_eq a b \<longleftrightarrow>
     length a = length b \<and>
     foldl (\<lambda>acc (x, y). or acc (xor (of_char x) (of_char y))) (0 :: 8 word) (zip a b) = 0"

section \<open>The throttle on wrong codes\<close>

record wrong_code =
  wc_sender :: string
  wc_at :: instant

record guess_throttle =
  gt_wrong :: "wrong_code list"

definition throttle_prune :: "instant \<Rightarrow> guess_throttle \<Rightarrow> guess_throttle" where
  "throttle_prune now th = th\<lparr>gt_wrong := filter (\<lambda>w. now - wc_at w < guess_window) (gt_wrong th)\<rparr>"

definition throttle_allows :: "guess_throttle \<Rightarrow> string \<Rightarrow> bool" where
  "throttle_allows th sender \<longleftrightarrow>
     length (gt_wrong th) < max_wrong_codes \<and>
     length (filter (\<lambda>w. wc_sender w = sender) (gt_wrong th)) < max_wrong_codes_per_sender"

definition throttle_record :: "string \<Rightarrow> instant \<Rightarrow> guess_throttle \<Rightarrow> guess_throttle" where
  "throttle_record sender now th =
     th\<lparr>gt_wrong := gt_wrong th @ [\<lparr>wc_sender = sender, wc_at = now\<rparr>]\<rparr>"

section \<open>Checking and spending\<close>

text \<open>The \<open>VETTING_REQUEST_ERR_*\<close> codes of the SDK, by name.\<close>

datatype request_error = InvalidTicket | DeclinedError | MethodUnavailable | NotEligible | Capacity

datatype redemption = Matched string | Silent | Refused request_error

definition find_spoken ::
  "ticket list \<Rightarrow> string \<Rightarrow> string \<Rightarrow> persona_id \<Rightarrow> instant \<Rightarrow> ticket option" where
  "find_spoken tickets spoken community persona now =
     Option.bind (normalise_code spoken) (\<lambda>code.
       List.find (\<lambda>t. tk_persona t = persona \<and> tk_community t = community \<and> is_live t now \<and>
                      constant_time_eq (tk_code t) code) tickets)"

fun check ::
  "ticket list \<Rightarrow> guess_throttle \<Rightarrow> presented_ticket \<Rightarrow> string \<Rightarrow> string \<Rightarrow> persona_id \<Rightarrow> instant \<Rightarrow>
   guess_throttle \<times> redemption" where
  "check tickets th (ShortCodeTicket code) sender community persona now =
     (let th = throttle_prune now th in
      if \<not> throttle_allows th sender then (th, Silent)
      else case find_spoken tickets code community persona now of
             Some t \<Rightarrow> (th, Matched (tk_id t))
           | None \<Rightarrow> (throttle_record sender now th, Silent))"
| "check tickets th (QrTicket ticket_id secret) sender community persona now =
     (case List.find (\<lambda>t. tk_id t = ticket_id \<and> tk_persona t = persona) tickets of
        Some t \<Rightarrow>
          if tk_community t = community \<and> is_live t now \<and> constant_time_eq (tk_secret t) secret
          then (th, Matched (tk_id t)) else (th, Refused InvalidTicket)
      | None \<Rightarrow> (th, Refused InvalidTicket))"
| "check tickets th UnknownTicket sender community persona now = (th, Refused InvalidTicket)"

definition spendable :: "string \<Rightarrow> ticket \<Rightarrow> bool" where
  "spendable ticket_id t \<longleftrightarrow> tk_id t = ticket_id \<and> 0 < tk_uses_left t"

definition spend :: "ticket \<Rightarrow> ticket" where
  "spend t = t\<lparr>tk_uses_left := tk_uses_left t - 1\<rparr>"

definition consume :: "ticket list \<Rightarrow> string \<Rightarrow> ticket list \<times> bool" where
  "consume tickets ticket_id =
     (case List.find (spendable ticket_id) tickets of
        Some _ \<Rightarrow> (update_first (spendable ticket_id) spend tickets, True)
      | None \<Rightarrow> (tickets, False))"

section \<open>The spoken code\<close>

lemma crockford_facts: "length crockford = 32" "distinct crockford"
  by (simp_all add: crockford_def)

lemma five_bits: "unat (and w (31 :: 64 word)) < 32"
proof -
  have "unat (and w 31) \<le> unat (31 :: 64 word)"
    by (rule word_and_le1 [THEN word_le_nat_alt [THEN iffD1]])
  then show ?thesis by simp
qed

lemma code_char_in: "code_char w i \<in> set crockford"
  unfolding code_char_def by (rule nth_mem) (simp add: crockford_facts five_bits)

lemma code_char_eq:
  "code_char w i = code_char v i \<longleftrightarrow>
     and (drop_bit (35 - 5 * i) w) 31 = and (drop_bit (35 - 5 * i) v) (31 :: 64 word)"
proof -
  have "unat (and x 31) < length crockford" for x :: "64 word"
    by (simp add: crockford_facts five_bits)
  then show ?thesis
    unfolding code_char_def by (simp add: nth_eq_iff_index_eq crockford_facts word_unat_eq_iff)
qed

lemma list5: "length xs = 5 \<Longrightarrow> \<exists>a b c d e. xs = [a, b, c, d, e]"
  by (auto simp: numeral_eq_Suc length_Suc_conv)

text \<open>The eight symbols fix the forty bits, and the forty bits fix the five bytes.\<close>

lemma forty_bits:
  assumes "\<And>i. i < 8 \<Longrightarrow> code_char w i = code_char v i" and "k < 40"
  shows "bit w k = bit (v :: 64 word) k"
proof -
  define i where "i = 7 - k div 5"
  have i: "i < 8" "35 - 5 * i = 5 * (k div 5)"
    using assms(2) by (auto simp: i_def)
  have mask: "(31 :: 64 word) = mask 5"
    by (simp add: mask_eq_exp_minus_1)
  have "and (drop_bit (5 * (k div 5)) w) (mask 5) = and (drop_bit (5 * (k div 5)) v) (mask 5)"
    using assms(1) [OF i(1)] unfolding code_char_eq i(2) mask .
  then have "bit (and (drop_bit (5 * (k div 5)) w) (mask 5)) (k mod 5)
           = bit (and (drop_bit (5 * (k div 5)) v) (mask 5)) (k mod 5)"
    by simp
  moreover have "5 * (k div 5) + k mod 5 = k"
    by simp
  ultimately show ?thesis
    using assms(2) by (simp add: bit_and_iff bit_drop_bit_eq bit_mask_iff comp_def)
qed

lemma byte_of_bits:
  assumes "bs = [b0, b1, b2, b3, b4]"
  shows "b0 = ucast (drop_bit 32 (code_bits bs))"
    and "b1 = ucast (drop_bit 24 (code_bits bs))"
    and "b2 = ucast (drop_bit 16 (code_bits bs))"
    and "b3 = ucast (drop_bit 8 (code_bits bs))"
    and "b4 = ucast (code_bits bs)"
  unfolding assms code_bits_def
  by (rule bit_word_eqI; auto simp: bit_simps dest: bit_imp_le_length)+

lemma code_bits_inj:
  assumes "length a = 5" "length b = 5"
    and eq: "\<And>k. k < 40 \<Longrightarrow> bit (code_bits a) k = bit (code_bits b) k"
  shows "a = b"
proof -
  obtain a0 a1 a2 a3 a4 where a: "a = [a0, a1, a2, a3, a4]"
    using list5 [OF assms(1)] by blast
  obtain b0 b1 b2 b3 b4 where b: "b = [b0, b1, b2, b3, b4]"
    using list5 [OF assms(2)] by blast
  have part: "ucast (drop_bit n (code_bits a)) = (ucast (drop_bit n (code_bits b)) :: 8 word)"
    if "n \<le> 32" for n
    using that eq by (intro bit_word_eqI) (auto simp: bit_simps)
  note bytes = byte_of_bits [OF a] byte_of_bits [OF b]
  have "a0 = b0" using bytes(1,6) part [of 32] by simp
  moreover have "a1 = b1" using bytes(2,7) part [of 24] by simp
  moreover have "a2 = b2" using bytes(3,8) part [of 16] by simp
  moreover have "a3 = b3" using bytes(4,9) part [of 8] by simp
  moreover have "a4 = b4" using bytes(5,10) part [of 0] by simp
  ultimately show ?thesis by (simp add: a b)
qed

lemma encode_code_unfold:
  "encode_code bs =
     map (code_char (code_bits bs)) [0, 1, 2, 3] @ ''-'' @ map (code_char (code_bits bs)) [4, 5, 6, 7]"
  by (simp add: encode_code_def upt_rec) (simp add: numeral_eq_Suc)

lemma encode_code_inj:
  assumes "length a = 5" "length b = 5" "encode_code a = encode_code b"
  shows "a = b"
proof -
  have "code_char (code_bits a) i = code_char (code_bits b) i" if "i < 8" for i
  proof -
    from that have "i = 0 \<or> i = 1 \<or> i = 2 \<or> i = 3 \<or> i = 4 \<or> i = 5 \<or> i = 6 \<or> i = 7"
      by arith
    with assms(3) show ?thesis
      by (elim disjE) (simp_all add: encode_code_unfold)
  qed
  then show ?thesis
    using forty_bits by (intro code_bits_inj assms(1,2)) blast
qed

lemma crockford_reads: "c \<in> set crockford \<Longrightarrow> read_code_char c = Some (Some c)"
proof -
  have "list_all (\<lambda>c. read_code_char c = Some (Some c)) crockford"
    by code_simp
  then show "c \<in> set crockford \<Longrightarrow> read_code_char c = Some (Some c)"
    by (simp add: list_all_iff)
qed

lemma read_code_chars_append:
  "read_code_chars (xs @ ys) =
     Option.bind (read_code_chars xs) (\<lambda>a. map_option ((@) a) (read_code_chars ys))"
proof (induction xs)
  case Nil
  show ?case by (cases "read_code_chars ys") simp_all
next
  case (Cons c cs)
  then show ?case
    by (cases "read_code_chars cs"; cases "read_code_chars ys") (auto split: option.splits)
qed

lemma read_crockford: "set xs \<subseteq> set crockford \<Longrightarrow> read_code_chars xs = Some xs"
  by (induction xs) (auto simp: crockford_reads)

lemma read_dash: "read_code_chars (CHR ''-'' # cs) = read_code_chars cs"
  by (simp add: read_code_char_def to_ascii_uppercase_def)

lemma normalise_encode: "normalise_code (encode_code bs) = Some (encode_code bs)"
proof -
  let ?f = "code_char (code_bits bs)"
  have sub: "set (map ?f xs) \<subseteq> set crockford" for xs
    by (auto simp: code_char_in)
  have "read_code_chars (encode_code bs) = Some (map ?f [0, 1, 2, 3] @ map ?f [4, 5, 6, 7])"
    unfolding encode_code_unfold append_Cons append_Nil read_code_chars_append read_dash
    using read_crockford [OF sub [of "[0, 1, 2, 3]"]] read_crockford [OF sub [of "[4, 5, 6, 7]"]]
    by simp
  then show ?thesis
    by (simp add: normalise_code_def encode_code_unfold)
qed

lemma xor_zero: "xor a b = 0 \<longleftrightarrow> a = (b :: 8 word)"
  by (auto simp: bit_eq_iff bit_xor_iff)

lemma constant_time_fold:
  "foldl (\<lambda>acc (x, y). or acc (xor (of_char x) (of_char y))) (a :: 8 word) (zip xs ys) = 0 \<longleftrightarrow>
     a = 0 \<and> list_all (\<lambda>(x, y). (of_char x :: 8 word) = of_char y) (zip xs ys)"
proof (induction xs arbitrary: a ys)
  case (Cons x xs)
  then show ?case
    by (cases ys) (auto simp: or_eq_0_iff xor_zero)
qed simp

lemma byte_of_char: "unat (of_char c :: 8 word) = of_char c"
proof -
  have "(of_char c :: 8 word) = of_nat (of_char c)"
    by (simp add: of_nat_of_char)
  moreover have "(of_char c :: nat) < 256"
    by (rule nat_of_char_less_256)
  ultimately show ?thesis
    by (simp add: unat_of_nat)
qed

lemma constant_time_eq_iff [simp]: "constant_time_eq a b \<longleftrightarrow> a = b"
proof -
  have byte: "(of_char x :: 8 word) = of_char y \<longleftrightarrow> x = y" for x y
    by (metis byte_of_char of_char_eq_iff)
  have "list_all (\<lambda>(x, y). (of_char x :: 8 word) = of_char y) (zip a b) \<longleftrightarrow> a = b"
    if "length a = length b"
    using that by (induction a b rule: list_induct2) (auto simp: byte)
  then show ?thesis
    by (auto simp: constant_time_eq_def constant_time_fold)
qed

section \<open>What a check admits\<close>

lemma find_spoken_Some:
  "find_spoken tickets spoken community persona now = Some t \<Longrightarrow>
     t \<in> set tickets \<and> tk_persona t = persona \<and> tk_community t = community \<and> is_live t now \<and>
     normalise_code spoken = Some (tk_code t)"
  unfolding find_spoken_def by (auto simp: bind_eq_Some_conv dest!: find_SomeD)

lemma find_spoken_None:
  "find_spoken tickets spoken community persona now = None \<longleftrightarrow>
     (\<forall>t \<in> set tickets. tk_persona t = persona \<and> tk_community t = community \<and> is_live t now
        \<longrightarrow> normalise_code spoken \<noteq> Some (tk_code t))"
  unfolding find_spoken_def by (cases "normalise_code spoken") (auto simp: find_None_iff)

lemma throttle_prune_idem [simp]: "throttle_prune now (throttle_prune now th) = throttle_prune now th"
  by (simp add: throttle_prune_def)

section \<open>The rate of wrong guesses\<close>

text \<open>
  A run of spoken codes; the tickets may change between attempts. A sender is listened to when the right code would be
  matched now, whatever it says. The log holds who was listened to and was wrong, and when; it never shrinks, unlike
  the throttle, which forgets.
\<close>

record attempt =
  at_tickets :: "ticket list"
  at_code :: string
  at_sender :: string
  at_community :: string
  at_persona :: persona_id
  at_now :: instant

definition attempt_answer :: "ticket list \<Rightarrow> string \<Rightarrow> attempt \<Rightarrow> guess_throttle \<Rightarrow> guess_throttle \<times> redemption" where
  "attempt_answer tickets code a th = check tickets th (ShortCodeTicket code) (at_sender a) (at_community a) (at_persona a) (at_now a)"

text \<open>A ticket the sender might have, live now, and its code.\<close>

definition right_code :: string where "right_code = ''0000-0000''"

definition right_ticket :: "attempt \<Rightarrow> ticket" where
  "right_ticket a = \<lparr>tk_id = ''probe'', tk_code = right_code, tk_secret = [], tk_community = at_community a,
     tk_persona = at_persona a, tk_methods = [], tk_uses_left = 1, tk_created_at = at_now a,
     tk_expires_at = at_now a + 1, tk_label = None, tk_mode = None\<rparr>"

definition listened :: "attempt \<Rightarrow> guess_throttle \<Rightarrow> bool" where
  "listened a th \<longleftrightarrow> snd (attempt_answer [right_ticket a] right_code a th) = Matched ''probe''"

definition run_attempt ::
  "attempt \<Rightarrow> guess_throttle \<times> wrong_code list \<Rightarrow> guess_throttle \<times> wrong_code list" where
  "run_attempt a s =
     (case attempt_answer (at_tickets a) (at_code a) a (fst s) of
        (th, answer) \<Rightarrow>
          (th, snd s @ (case answer of
                          Matched _ \<Rightarrow> []
                        | _ \<Rightarrow> if listened a (fst s) then [\<lparr>wc_sender = at_sender a, wc_at = at_now a\<rparr>] else [])))"

definition run_attempts :: "attempt list \<Rightarrow> guess_throttle \<times> wrong_code list" where
  "run_attempts as = fold run_attempt as (\<lparr>gt_wrong = []\<rparr>, [])"

definition within_window :: "instant \<Rightarrow> wrong_code \<Rightarrow> bool" where
  "within_window t w \<longleftrightarrow> t \<le> wc_at w \<and> wc_at w < t + guess_window"

definition rate_bounded :: "wrong_code list \<Rightarrow> bool" where
  "rate_bounded log \<longleftrightarrow>
     (\<forall>t. length (filter (within_window t) log) \<le> max_wrong_codes \<and>
        (\<forall>sender. length (filter (\<lambda>w. within_window t w \<and> wc_sender w = sender) log)
                   \<le> max_wrong_codes_per_sender))"

text \<open>The wrong codes of the hour that ends now: how many, and how many of a sender.\<close>

definition under_limits :: "instant \<Rightarrow> string \<Rightarrow> wrong_code list \<Rightarrow> bool" where
  "under_limits now sender log \<longleftrightarrow>
     length (filter (\<lambda>w. now - wc_at w < guess_window) log) < max_wrong_codes \<and>
     length (filter (\<lambda>w. now - wc_at w < guess_window \<and> wc_sender w = sender) log) < max_wrong_codes_per_sender"

definition log_inv :: "instant \<Rightarrow> guess_throttle \<times> wrong_code list \<Rightarrow> bool" where
  "log_inv now s \<longleftrightarrow>
     gt_wrong (fst s) = filter (\<lambda>w. now - wc_at w < guess_window) (snd s) \<and>
     (\<forall>w \<in> set (snd s). wc_at w \<le> now) \<and> rate_bounded (snd s)"

lemma filter_le_length: "(\<And>x. x \<in> set xs \<Longrightarrow> p x \<Longrightarrow> q x) \<Longrightarrow> length (filter p xs) \<le> length (filter q xs)"
  by (induction xs) (auto intro: le_SucI)

lemma rate_bounded_snoc:
  assumes bounded: "rate_bounded log" and past: "\<forall>w \<in> set log. wc_at w \<le> now"
    and th: "gt_wrong th = filter (\<lambda>w. now - wc_at w < guess_window) log"
    and allows: "throttle_allows th sender"
  shows "rate_bounded (log @ [\<lparr>wc_sender = sender, wc_at = now\<rparr>])"
proof -
  have recent: "now - wc_at w < guess_window" if "within_window t \<lparr>wc_sender = sender, wc_at = now\<rparr>"
    "within_window t w" for t w
    using that by (simp add: within_window_def)
  have "length (filter (within_window t) log) < max_wrong_codes"
    if "within_window t \<lparr>wc_sender = sender, wc_at = now\<rparr>" for t
    using allows recent [OF that]
      filter_le_length [of log "within_window t" "\<lambda>w. now - wc_at w < guess_window"]
    by (simp add: throttle_allows_def th)
  moreover have "length (filter (\<lambda>w. within_window t w \<and> wc_sender w = sender) log)
      < max_wrong_codes_per_sender"
    if "within_window t \<lparr>wc_sender = sender, wc_at = now\<rparr>" for t
    using allows recent [OF that]
      filter_le_length [of log "\<lambda>w. within_window t w \<and> wc_sender w = sender"
        "\<lambda>w. now - wc_at w < guess_window \<and> wc_sender w = sender"]
    by (simp add: throttle_allows_def th)
  ultimately show ?thesis
    using bounded unfolding rate_bounded_def by (auto simp: Suc_le_eq)
qed

lemma right_code_reads: "normalise_code right_code = Some right_code"
  by code_simp

lemma listened_iff: "listened a th \<longleftrightarrow> throttle_allows (throttle_prune (at_now a) th) (at_sender a)"
  by (simp add: listened_def attempt_answer_def right_ticket_def find_spoken_def right_code_reads is_live_def Let_def)

lemma pruned_log:
  "gt_wrong th = filter (\<lambda>w. now - wc_at w < guess_window) log \<Longrightarrow> now \<le> later \<Longrightarrow>
     gt_wrong (throttle_prune later th) = filter (\<lambda>w. later - wc_at w < guess_window) log"
  by (auto simp: throttle_prune_def intro!: filter_cong)

lemma run_attempt_inv:
  assumes inv: "log_inv now s" and le: "now \<le> at_now a"
  shows "log_inv (at_now a) (run_attempt a s)"
proof -
  let ?n = "at_now a" and ?th = "throttle_prune (at_now a) (fst s)"
  have th: "gt_wrong ?th = filter (\<lambda>w. ?n - wc_at w < guess_window) (snd s)"
    using inv le pruned_log by (simp add: log_inv_def)
  have past: "\<forall>w \<in> set (snd s). wc_at w \<le> ?n" and bounded: "rate_bounded (snd s)"
    using inv le by (auto simp: log_inv_def)
  show ?thesis
  proof (cases "throttle_allows ?th (at_sender a) \<and>
      find_spoken (at_tickets a) (at_code a) (at_community a) (at_persona a) ?n = None")
    case True
    then have "run_attempt a s = (throttle_record (at_sender a) ?n ?th,
        snd s @ [\<lparr>wc_sender = at_sender a, wc_at = ?n\<rparr>])"
      by (simp add: run_attempt_def attempt_answer_def listened_iff Let_def)
    with rate_bounded_snoc [OF bounded past th] th past True show ?thesis
      by (auto simp: log_inv_def throttle_record_def guess_window_def)
  next
    case False
    then have "run_attempt a s = (?th, snd s)"
      by (auto simp: run_attempt_def attempt_answer_def listened_iff Let_def split: option.splits)
    with th past bounded show ?thesis
      by (simp add: log_inv_def)
  qed
qed

lemma run_attempts_inv:
  "log_inv now s \<Longrightarrow> sorted (now # map at_now as) \<Longrightarrow> \<exists>t. log_inv t (fold run_attempt as s) \<and> now \<le> t \<and> (\<forall>a \<in> set as. at_now a \<le> t) \<and>
     (t = now \<or> t \<in> at_now ` set as)"
proof (induction as arbitrary: now s)
  case Nil
  then show ?case by auto
next
  case (Cons a as)
  then have "log_inv (at_now a) (run_attempt a s)"
    by (intro run_attempt_inv) auto
  from Cons.IH [OF this] Cons.prems(2) obtain t where "log_inv t (fold run_attempt as (run_attempt a s))" "at_now a \<le> t"
    "\<forall>b \<in> set as. at_now b \<le> t" "t = at_now a \<or> t \<in> at_now ` set as" by auto
  with Cons.prems(2) show ?case by (intro exI [of _ t]) auto
qed

lemma listened_log:
  assumes "log_inv now s" "now \<le> at_now a"
  shows "listened a (fst s) \<longleftrightarrow> under_limits (at_now a) (at_sender a) (snd s)"
  using pruned_log [of "fst s" now "snd s" "at_now a"] assms
  by (simp add: listened_iff throttle_allows_def under_limits_def log_inv_def conj_commute)

section \<open>Spending\<close>

definition total_uses :: "ticket list \<Rightarrow> nat" where
  "total_uses ts = (\<Sum>t \<leftarrow> ts. unat (tk_uses_left t))"

lemma unat_spend: "0 < tk_uses_left t \<Longrightarrow> Suc (unat (tk_uses_left (spend t))) = unat (tk_uses_left t)"
  by (simp add: spend_def unat_minus_one word_greater_zero_iff unat_eq_zero)
     (simp add: unat_gt_0)

lemma spend_frame [simp, frame_simps]:
  "tk_id (spend t) = tk_id t" "tk_code (spend t) = tk_code t" "tk_secret (spend t) = tk_secret t"
  "tk_community (spend t) = tk_community t" "tk_persona (spend t) = tk_persona t"
  "tk_methods (spend t) = tk_methods t" "tk_expires_at (spend t) = tk_expires_at t"
  by (simp_all add: spend_def)

interpretation ticket_store: keyed_store tk_id "\<lambda>_. spend"
  by unfold_locales simp

lemma total_uses_update:
  "List.find (spendable i) ts = Some t \<Longrightarrow> Suc (total_uses (update_first (spendable i) spend ts)) = total_uses ts"
  by (drule update_first_split [where f = spend])
     (auto simp: total_uses_def spendable_def unat_spend [symmetric])

section \<open>Properties\<close>

text \<open>Every code a ticket can be issued with reads back as itself, dash included, and two
  tickets share a code only if their five random bytes are the same: the forty bits are spoken
  without loss.\<close>

theorem code_roundtrip:
  assumes "length a = 5" and "length b = 5"
  shows "normalise_code (encode_code a) = Some (encode_code a) \<and>
         (encode_code a = encode_code b \<longleftrightarrow> a = b)"
  using assms normalise_encode encode_code_inj by blast

theorem code_roundtrip_witness:
  "normalise_code (encode_code [1, 2, 3, 4, 255]) = Some (encode_code [1, 2, 3, 4, 255]) \<and>
   encode_code [1, 2, 3, 4, 255] \<noteq> encode_code [1, 2, 3, 4, 254]"
  using code_roundtrip [of "[1, 2, 3, 4, 255]" "[1, 2, 3, 4, 254]"] by simp

text \<open>(C27) What a presented ticket is answered. A spoken code is ignored from a throttled sender; otherwise it is matched
  when a live ticket of that persona for that community has it, by such a ticket, and met with silence and recorded
  in the throttle when none has. A scanned ticket is matched only by the live ticket of that persona for that
  community with its id and its secret, otherwise refused (wrongly so only where two tickets share the id), and
  leaves the throttle as it is, matched or refused; so does a form that is not known.\<close>

theorem check_sound:
  assumes "check tickets th presented sender community persona now = (th', r)"
  shows "let live = (\<lambda>t. t \<in> set tickets \<and> tk_persona t = persona \<and> tk_community t = community \<and> is_live t now) in
    case presented of
      ShortCodeTicket code \<Rightarrow>
        if \<not> throttle_allows (throttle_prune now th) sender then r = Silent \<and> th' = throttle_prune now th
        else if \<exists>t. live t \<and> normalise_code code = Some (tk_code t)
        then (\<exists>t. live t \<and> normalise_code code = Some (tk_code t) \<and> r = Matched (tk_id t)) \<and> th' = throttle_prune now th
        else r = Silent \<and> th' = throttle_record sender now (throttle_prune now th)
    | QrTicket i secret \<Rightarrow>
        th' = th \<and>
        (r = Matched i \<and> (\<exists>t. live t \<and> tk_id t = i \<and> tk_secret t = secret) \<or>
         r = Refused InvalidTicket \<and>
           (distinct (map tk_id tickets) \<longrightarrow> \<not> (\<exists>t. live t \<and> tk_id t = i \<and> tk_secret t = secret)))
    | UnknownTicket \<Rightarrow> th' = th \<and> r = Refused InvalidTicket"
proof (cases presented)
  case (ShortCodeTicket code)
  show ?thesis
  proof (cases "find_spoken tickets code community persona now")
    case None
    then have "\<not> (\<exists>t. t \<in> set tickets \<and> tk_persona t = persona \<and> tk_community t = community \<and> is_live t now \<and>
        normalise_code code = Some (tk_code t))" by (auto simp: find_spoken_None)
    with assms ShortCodeTicket None show ?thesis by (auto simp: Let_def split: if_splits)
  next
    case (Some t)
    with assms ShortCodeTicket find_spoken_Some [OF Some] show ?thesis by (auto simp: Let_def split: if_splits)
  qed
next
  case (QrTicket i secret)
  show ?thesis
  proof (cases "List.find (\<lambda>t. tk_id t = i \<and> tk_persona t = persona) tickets")
    case None
    then have "\<not> (\<exists>t. t \<in> set tickets \<and> tk_persona t = persona \<and> tk_id t = i)" by (auto simp: find_None_iff)
    with assms QrTicket None show ?thesis by (auto simp: Let_def)
  next
    case (Some t)
    note t = find_SomeD [OF Some]
    have "u = t" if "distinct (map tk_id tickets)" "u \<in> set tickets" "tk_id u = i" for u
      using that t by (auto simp: distinct_map dest: inj_onD)
    with assms QrTicket Some t show ?thesis by (auto simp: Let_def split: if_splits)
  qed
qed (use assms in simp)

definition desk_ticket :: ticket where
  "desk_ticket = issue ''7f'' [1, 2, 3, 4, 5] ''c2VjcmV0'' ''did:webvh:vtc'' 7 [] 3 default_validity 0"

theorem check_sound_witness:
  "check [desk_ticket] \<lparr>gt_wrong = []\<rparr> (QrTicket ''vt-7f'' ''c2VjcmV1'') ''did:alice'' ''did:webvh:vtc'' 7 1
     = (\<lparr>gt_wrong = []\<rparr>, Refused InvalidTicket)"
proof -
  obtain th' r where run: "check [desk_ticket] \<lparr>gt_wrong = []\<rparr> (QrTicket ''vt-7f'' ''c2VjcmV1'') ''did:alice'' ''did:webvh:vtc'' 7 1 = (th', r)"
    by fastforce
  from check_sound [OF run] run show ?thesis by (simp add: desk_ticket_def issue_def Let_def)
qed

text \<open>(C28) Whoever sends them and however the tickets change meanwhile, as long as the clock does not go back: no hour
  holds more than sixty wrong spoken codes from senders that were listened to, nor more than five from one sender. A
  sender is listened to, in that a right code would be matched, exactly when the last hour holds fewer than that; and one
  that is not gets silence whatever it says, and is not counted.\<close>

theorem guess_rate_bounded:
  assumes "sorted (map at_now (as @ [a]))"
  shows "case run_attempts as of (th, log) \<Rightarrow>
    rate_bounded log \<and>
    (listened a th \<longleftrightarrow> under_limits (at_now a) (at_sender a) log) \<and>
    (\<not> listened a th \<longrightarrow> snd (attempt_answer (at_tickets a) (at_code a) a th) = Silent \<and> snd (run_attempt a (th, log)) = log)"
proof -
  have "\<exists>t. log_inv t (run_attempts as) \<and> t \<le> at_now a"
  proof (cases as)
    case Nil
    then show ?thesis by (auto simp: run_attempts_def log_inv_def rate_bounded_def)
  next
    case (Cons b bs)
    have "log_inv (at_now b) (\<lparr>gt_wrong = []\<rparr>, [])"
      by (simp add: log_inv_def rate_bounded_def)
    from run_attempts_inv [OF this, of as] assms Cons show ?thesis
      by (auto simp: run_attempts_def sorted_append)
  qed
  then obtain t where inv: "log_inv t (run_attempts as)" "t \<le> at_now a" by blast
  obtain th log where run: "run_attempts as = (th, log)" by fastforce
  have "listened a th \<longleftrightarrow> under_limits (at_now a) (at_sender a) log" using listened_log [OF inv] run by simp
  moreover have "snd (attempt_answer (at_tickets a) (at_code a) a th) = Silent \<and> snd (run_attempt a (th, log)) = log" if "\<not> listened a th"
    using that by (simp add: listened_iff attempt_answer_def run_attempt_def Let_def)
  ultimately show ?thesis using inv(1) by (simp add: run log_inv_def)
qed

definition wrong_attempt :: "instant \<Rightarrow> attempt" where
  "wrong_attempt n = \<lparr>at_tickets = [desk_ticket], at_code = ''0000-0000'', at_sender = ''did:mallory'',
     at_community = ''did:webvh:vtc'', at_persona = 7, at_now = n\<rparr>"

theorem guess_rate_bounded_witness:
  "case run_attempts (map wrong_attempt [0, 1, 2, 3, 4]) of (th, log) \<Rightarrow>
     length log = 5 \<and> \<not> listened (wrong_attempt 5) th \<and> snd (attempt_answer [desk_ticket] (tk_code desk_ticket) (wrong_attempt 5) th) = Silent"
proof -
  let ?right = "(wrong_attempt 5)\<lparr>at_code := tk_code desk_ticket\<rparr>"
  have "sorted (map at_now (map wrong_attempt [0, 1, 2, 3, 4] @ [?right]))" by (simp add: wrong_attempt_def)
  note bounded = guess_rate_bounded [OF this]
  have log: "snd (run_attempts (map wrong_attempt [0, 1, 2, 3, 4])) = map (\<lambda>n. \<lparr>wc_sender = ''did:mallory'', wc_at = n\<rparr>) [0, 1, 2, 3, 4]"
    by code_simp
  have "\<not> under_limits 5 ''did:mallory'' (map (\<lambda>n. \<lparr>wc_sender = ''did:mallory'', wc_at = n\<rparr>) [0, 1, 2, 3, 4])" by code_simp
  with bounded log have "\<not> listened ?right (fst (run_attempts (map wrong_attempt [0, 1, 2, 3, 4])))"
    "snd (attempt_answer [desk_ticket] (tk_code desk_ticket) ?right (fst (run_attempts (map wrong_attempt [0, 1, 2, 3, 4])))) = Silent"
    by (auto simp: wrong_attempt_def split: prod.splits)
  moreover have "listened ?right th = listened (wrong_attempt 5) th" "attempt_answer ts c ?right th = attempt_answer ts c (wrong_attempt 5) th" for ts c th
    by (simp_all add: listened_iff attempt_answer_def)
  ultimately show ?thesis using log by (simp add: case_prod_unfold)
qed

text \<open>A throttled sender is told nothing: once five of its codes, or sixty of everyone's,
  missed within the hour, the answer is silence even for the right code of a live ticket, and the
  attempt is not recorded.\<close>

theorem throttled_sender_silent:
  assumes "\<not> throttle_allows (throttle_prune now th) sender"
  shows "check tickets th (ShortCodeTicket code) sender community persona now
           = (throttle_prune now th, Silent)"
  using assms by simp

theorem throttled_sender_silent_witness:
  "check [desk_ticket] \<lparr>gt_wrong = replicate 5 \<lparr>wc_sender = ''did:mallory'', wc_at = 0\<rparr>\<rparr>
     (ShortCodeTicket (tk_code desk_ticket)) ''did:mallory'' ''did:webvh:vtc'' 7 1
   = (throttle_prune 1 \<lparr>gt_wrong = replicate 5 \<lparr>wc_sender = ''did:mallory'', wc_at = 0\<rparr>\<rparr>, Silent)"
  by (rule throttled_sender_silent)
     (simp add: throttle_allows_def throttle_prune_def max_wrong_codes_def
        max_wrong_codes_per_sender_def guess_window_def numeral_eq_Suc)

text \<open>Spending a ticket takes exactly one use from exactly one ticket with that id, never
  below zero, and fails precisely when no ticket with that id has a use left.\<close>

theorem consume_spends_one:
  "let (ts', ok) = consume ts i in
     (ok \<longleftrightarrow> (\<exists>t \<in> set ts. tk_id t = i \<and> 0 < tk_uses_left t)) \<and>
     total_uses ts = total_uses ts' + of_bool ok \<and> map tk_id ts' = map tk_id ts"
proof (cases "List.find (spendable i) ts")
  case None
  then have "\<not> (\<exists>t \<in> set ts. tk_id t = i \<and> 0 < tk_uses_left t)"
    by (auto simp: find_None_iff spendable_def)
  with None show ?thesis
    by (simp add: consume_def)
next
  case (Some t)
  with total_uses_update [OF Some] find_SomeD [OF Some] show ?thesis
    by (auto simp: consume_def spendable_def)
qed

end
