(* ===== verification/Desk.thy ===== *)
theory Desk
  imports Tickets
begin

text \<open>
  One request at a vetter's desk (\<open>openvtc-core/src/vetting/vetter.rs\<close>): its states, the policy that
  governs it (\<open>VetterPolicy\<close> in \<open>book.rs\<close>), and the operations on a single entry. The operations on
  the whole book are in \<open>VetterDesk\<close>.
\<close>

section \<open>Policy\<close>

record vetter_policy =
  vp_max_open_requests :: nat
  vp_session_minutes :: int
  vp_statement_validity_days :: int
  vp_card_retention_days :: int
  vp_accepts_documentation :: "string list"

definition default_policy :: "vetter_sdk \<Rightarrow> vetter_policy" where
  "default_policy sdk =
     \<lparr>vp_max_open_requests = 10, vp_session_minutes = 15, vp_statement_validity_days = 180,
      vp_card_retention_days = 0, vp_accepts_documentation = documentation_defaults sdk\<rparr>"

definition policy_is_default :: "vetter_sdk \<Rightarrow> vetter_policy \<Rightarrow> bool" where
  "policy_is_default sdk p \<longleftrightarrow> p = default_policy sdk"

definition session_length :: "vetter_policy \<Rightarrow> duration" where
  "session_length p = minutes (min (max (vp_session_minutes p) 1) 60)"

text \<open>
  \<open>Duration::days\<close> panics for a day count beyond what a duration holds, about a hundred billion days; the definition
  says nothing of such a policy.
\<close>

definition statement_validity :: "vetter_policy \<Rightarrow> duration" where
  "statement_validity p = days (max (vp_statement_validity_days p) 1)"

section \<open>Types\<close>

record desk_session =
  ds_id :: string
  ds_challenge :: string
  ds_method :: vetting_method
  ds_required_claims :: "string list"
  ds_optional_claims :: "string list"
  ds_expires_at :: instant
  ds_match_code :: string
  ds_document :: "json option"

record received_card =
  rc_digest :: string
  rc_identity_commitment :: string
  rc_claims :: "card_claim list"
  rc_card :: "json option"
  rc_received_at :: instant

datatype desk_state =
    DeskAccepted
  | DeskInSession desk_session
  | DeskCardReceived desk_session received_card
  | DeskAttested string instant received_card
  | DeskDeclined "decline_code option" instant "received_card option"

record desk_entry =
  de_request_id :: string
  de_request_document_id :: string
  de_applicant :: string
  de_community :: string
  de_persona :: persona_id
  de_ticket_id :: "string option"
  de_request :: request_body
  de_state :: desk_state
  de_received_at :: instant
  de_updated_at :: instant

record withdrawal_notice =
  wn_document_id :: string
  wn_reason :: "string option"
  wn_sent_at :: instant
  wn_recorded_at :: "instant option"

record issued_statement =
  is_id :: string
  is_digest :: string
  is_applicant :: string
  is_community :: string
  is_persona :: persona_id
  is_method :: vetting_method
  is_issued_at :: instant
  is_valid_until :: instant
  is_withdrawal :: "withdrawal_notice option"

record incoming_request =
  in_document_id :: string
  in_sender :: string
  in_persona :: persona_id
  in_body :: request_body
  in_eligible :: bool

datatype intake =
    IntakeAccepted request_response
  | IntakeRefused request_error
  | IntakeSilent

record attestation =
  at_method :: vetting_method
  at_document_classes :: "string list"
  at_claims_verified :: "string list"
  at_liveness_confirmed :: bool
  at_declared_relationship :: relationship
  at_attestation_text_digest :: "string option"

record statement_draft =
  sd_id :: string
  sd_issuer :: string
  sd_issuer_scope :: string
  sd_subject :: string
  sd_value :: vetted_value
  sd_valid_from :: instant
  sd_valid_until :: instant
  sd_session :: json

datatype vetter_error =
    NoSuchRequest
  | DeskWrongState string
  | DeskShape
  | DeskVetting
  | SessionDocumentMissing
  | LivenessNotConfirmed
  | NoDocumentation
  | ClaimNotOnCard string
  | RequiredClaimNotVerified string
  | NoSuchStatement
  | AlreadyWithdrawn

section \<open>One entry\<close>

fun is_open :: "desk_state \<Rightarrow> bool" where
  "is_open DeskAccepted = True"
| "is_open (DeskInSession _) = True"
| "is_open (DeskCardReceived _ _) = True"
| "is_open _ = False"

fun match_code :: "desk_state \<Rightarrow> string option" where
  "match_code (DeskInSession s) = Some (ds_match_code s)"
| "match_code (DeskCardReceived s _) = Some (ds_match_code s)"
| "match_code _ = None"

definition expire_session :: "instant \<Rightarrow> desk_entry \<Rightarrow> desk_entry \<times> bool" where
  "expire_session now e =
     (case de_state e of
        DeskInSession s \<Rightarrow>
          if ds_expires_at s \<le> now then (e\<lparr>de_state := DeskAccepted, de_updated_at := now\<rparr>, True)
          else (e, False)
      | _ \<Rightarrow> (e, False))"

definition forget_card :: "received_card \<Rightarrow> received_card" where
  "forget_card c = c\<lparr>rc_card := None, rc_claims := []\<rparr>"

definition forgets :: "duration \<Rightarrow> instant \<Rightarrow> instant \<Rightarrow> received_card \<Rightarrow> bool" where
  "forgets retention now closed_at c \<longleftrightarrow> retention \<le> now - closed_at \<and> rc_card c \<noteq> None"

definition forget_card_after :: "duration \<Rightarrow> instant \<Rightarrow> desk_entry \<Rightarrow> desk_entry \<times> bool" where
  "forget_card_after retention now e =
     (case de_state e of
        DeskAttested i closed_at c \<Rightarrow>
          if forgets retention now closed_at c
          then (e\<lparr>de_state := DeskAttested i closed_at (forget_card c)\<rparr>, True) else (e, False)
      | DeskDeclined code closed_at (Some c) \<Rightarrow>
          if forgets retention now closed_at c
          then (e\<lparr>de_state := DeskDeclined code closed_at (Some (forget_card c))\<rparr>, True) else (e, False)
      | _ \<Rightarrow> (e, False))"

text \<open>The documentation list of an acceptance: each token once, in the policy's order.\<close>

fun documentation_list ::
  "vetter_sdk \<Rightarrow> string list \<Rightarrow> string list \<Rightarrow> string list option" where
  "documentation_list sdk accepted [] = Some accepted"
| "documentation_list sdk accepted (t # ts) =
     (case request_documentation sdk t of
        None \<Rightarrow> None
      | Some d \<Rightarrow> documentation_list sdk (if d \<in> set accepted then accepted else accepted @ [d]) ts)"

definition accepted_reply :: "vetter_sdk \<Rightarrow> vetter_policy \<Rightarrow> desk_entry \<Rightarrow> request_response option" where
  "accepted_reply sdk policy e =
     Option.bind (documentation_list sdk [] (vp_accepts_documentation policy)) (\<lambda>accepted.
     let body = \<lparr>rr_request_id = de_request_id e,
                 rr_accepts_documentation = (if accepted \<noteq> [] then Some accepted else None),
                 rr_session_hint = None\<rparr>
     in if response_ok sdk body then Some body else None)"

definition accept :: "vetter_sdk \<Rightarrow> vetter_policy \<Rightarrow> desk_entry \<Rightarrow> intake" where
  "accept sdk policy e =
     (case accepted_reply sdk policy e of
        Some body \<Rightarrow> IntakeAccepted body
      | None \<Rightarrow> IntakeRefused DeclinedError)"

section \<open>Facts\<close>

lemma expire_session_frame:
  "de_request_id (fst (expire_session now e)) = de_request_id e"
  "de_applicant (fst (expire_session now e)) = de_applicant e"
  "de_community (fst (expire_session now e)) = de_community e"
  "de_persona (fst (expire_session now e)) = de_persona e"
  "de_ticket_id (fst (expire_session now e)) = de_ticket_id e"
  "is_open (de_state (fst (expire_session now e))) = is_open (de_state e)"
  by (auto simp: expire_session_def split: desk_state.split)

lemma forget_card_after_frame:
  "de_request_id (fst (forget_card_after r now e)) = de_request_id e"
  "de_applicant (fst (forget_card_after r now e)) = de_applicant e"
  "de_community (fst (forget_card_after r now e)) = de_community e"
  "de_persona (fst (forget_card_after r now e)) = de_persona e"
  "de_ticket_id (fst (forget_card_after r now e)) = de_ticket_id e"
  "is_open (de_state (fst (forget_card_after r now e))) = is_open (de_state e)"
  by (auto simp: forget_card_after_def split: desk_state.split option.split)

declare expire_session_frame [frame_simps] forget_card_after_frame [frame_simps]

lemma documentation_list_distinct:
  "documentation_list sdk accepted ts = Some ds \<Longrightarrow> distinct accepted \<Longrightarrow>
     distinct ds \<and> set ds = set accepted \<union> set (List.map_filter (request_documentation sdk) ts)"
  by (induction ts arbitrary: accepted)
     (auto simp: List.map_filter_def split: option.splits if_splits)

text \<open>An acceptance never carries an empty documentation list, which the published response refuses:
  the member is left out when the vetter accepts nothing, and otherwise lists each document the policy
  names exactly once.\<close>

theorem acceptance_documents:
  assumes "accept sdk policy e = IntakeAccepted body"
  shows "rr_request_id body = de_request_id e \<and> response_ok sdk body \<and>
    (case rr_accepts_documentation body of
       None \<Rightarrow> vp_accepts_documentation policy = []
     | Some ds \<Rightarrow> ds \<noteq> [] \<and> distinct ds \<and>
         set ds = set (List.map_filter (request_documentation sdk) (vp_accepts_documentation policy)))"
proof -
  obtain ds where ds: "documentation_list sdk [] (vp_accepts_documentation policy) = Some ds"
    and body: "body = \<lparr>rr_request_id = de_request_id e,
        rr_accepts_documentation = (if ds \<noteq> [] then Some ds else None), rr_session_hint = None\<rparr>"
      "response_ok sdk body"
    using assms by (auto simp: accept_def accepted_reply_def bind_eq_Some_conv Let_def split: option.splits if_splits)
  have "vp_accepts_documentation policy = []" if "ds = []"
  proof (cases "vp_accepts_documentation policy")
    case (Cons t ts)
    with ds obtain d where "documentation_list sdk [d] ts = Some ds"
      by (auto split: option.splits)
    from documentation_list_distinct [OF this] that show ?thesis by simp
  qed simp
  with body documentation_list_distinct [OF ds] show ?thesis
    by simp
qed
end
