(* ===== verification/Book.thy ===== *)
theory Book
  imports HiddenVetter Applicant Desk
begin

text \<open>
  The vetting book (\<open>VettingBook\<close> in \<open>openvtc-core/src/vetting/book.rs\<close>): everything this client keeps
  of vetting, for both sides, and the operations on it that are not the desk's.

  The members the book keeps in memory only (questions, draws in flight, mode checks and switches, refresh and VTA
  counters) are members of the record too. A map (\<open>BTreeMap\<close>, \<open>HashMap\<close>) is an association list. The payloads a
  community answers with and a profile are kept as what they serialise to where nothing reads inside them. What
  another module of the repository computes from a manifest (\<open>join_answers::asked\<close>) is an argument.
\<close>

section \<open>Types\<close>

record known_criterion =
  kn_community :: string
  kn_criterion_id :: string
  kn_requirements_digest :: "string option"
  kn_requirements :: vetting_requirements
  kn_fetched_at :: instant
  kn_description :: "string option"

datatype criterion_paths = NamedOnly | Either | HiddenOnly

record vetting_option =
  vo_criterion_id :: string
  vo_description :: "string option"
  vo_path :: vetting_path
  vo_paths :: criterion_paths

datatype request_vetting =
    AttestHidden
  | AttestNamed "string option"
  | HiddenWithoutId string
  | UnreadableRequest hidden_error

datatype vetted_outcome = VettedSigned string | VettedDeclined

record vetted_record =
  vd_community :: string
  vd_closed_at :: instant
  vd_outcome :: vetted_outcome

record vetter_grant =
  gr_community :: string
  gr_persona :: persona_id
  gr_credential_id :: "string option"
  gr_valid_until :: "instant option"
  gr_received_at :: instant
  gr_credential :: json

record grant_warning =
  gw_community :: string
  gw_persona :: persona_id
  gw_expired :: bool
  gw_valid_until :: instant

record branding =
  br_display_name :: "string option"
  br_accent_color :: "string option"

datatype admission = Automatic | Review

record criterion_meta =
  cm_id :: string
  cm_admission :: "admission option"
  cm_invitation_required :: "bool option"

record community_criterion =
  cr_id :: string
  cr_requirements_digest :: "string option"
  cr_admission :: "admission option"
  cr_invitation_required :: "bool option"
  cr_vetting :: bool
  cr_wallet :: bool
  cr_wallet_types :: "string list"
  cr_description :: "string option"

datatype join_protocol = V0_4

text \<open>The mode a manifest said, why a reading failed, and a switch seen between two readings (\<open>mode.rs\<close>).\<close>

record mode_read =
  mr_mode :: vetter_mode
  mr_read_at :: instant

datatype mode_failure =
    ModeUnsent string
  | ModeUnanswered
  | ModeRefused string
  | ModeUnreadable string

record mode_check =
  mk_asked_at :: "instant option"
  mk_failed :: "(mode_failure \<times> instant) option"

record mode_switch =
  ms_community :: string
  ms_from :: vetter_mode
  ms_to :: vetter_mode
  ms_at :: instant

text \<open>What a manifest said about the member directory (\<open>disclosure.rs\<close>), compared by what it serialises to.\<close>

datatype directory_statement = Stated json | Malformed string

record known_community =
  km_community :: string
  km_branding :: branding
  km_requested :: "string list"
  km_fetched_at :: instant
  km_protocol :: "join_protocol option"
  km_routes :: "community_criterion list"
  km_post_quantum_key :: "bool option"
  km_vetter_mode :: "mode_read option"
  km_directory :: "directory_statement option"

text \<open>What is queued for the VTA, with the community's answers (\<open>wire::pcs\<close>).\<close>

record root_response =
  rt_label :: string
  rt_pre_credential :: string
  rt_ext :: "json option"

record tokens_response =
  ts_label :: string
  ts_tick :: tick
  ts_pre_credentials :: "string list"
  ts_ext :: "json option"

datatype pcs_inbound =
    Enrolled string persona_id root_response
  | TokensServed string persona_id tokens_response
  | DrawRefused string persona_id string tick
  | AttestationFor string json
  | DeleteApplication string

text \<open>A question put to a community (\<open>queries.rs\<close>), and a vetter profile sent to one (\<open>registry.rs\<close>).\<close>

datatype query_kind =
    ManifestQuery
  | VetterListQuery
  | VetterProfileQuery
  | VetterResendQuery
  | PcsRootQuery
  | PcsTokensQuery
  | PcsEventModeQuery
  | PcsChallengeQuery
  | PcsBindingQuery
  | WalletSessionStartQuery
  | WalletSessionStatusQuery

record community_query =
  cq_document_id :: string
  cq_community :: string
  cq_persona :: persona_id
  cq_kind :: query_kind
  cq_sent_at :: instant

datatype profile_state =
    ProfileSent instant
  | ProfileStored bool instant
  | ProfileRefused string instant

record vetter_profile_record =
  pf_community :: string
  pf_persona :: persona_id
  pf_profile :: json
  pf_state :: profile_state

record vetting_book =
  vb_applications :: "application list"
  vb_tickets :: "ticket list"
  vb_desk :: "desk_entry list"
  vb_issued :: "issued_statement list"
  vb_vetted :: "vetted_record list"
  vb_throttle :: guess_throttle
  vb_criteria :: "known_criterion list"
  vb_policy :: vetter_policy
  vb_vetter_grants :: "vetter_grant list"
  vb_grant_warnings :: "string list"
  vb_communities :: "known_community list"
  vb_vetter_profiles :: "vetter_profile_record list"
  vb_hidden_vetter :: "hidden_vetter_state list"
  vb_hidden_published :: "(string \<times> hidden_params) list"
  vb_retired :: "string list"
  vb_vetter_refresh_due :: bool
  vb_vetter_refresh_failures :: "8 word"
  vb_queries :: "community_query list"
  vb_draws_in_flight :: "(string \<times> string \<times> tick) list"
  vb_pcs_inbox :: "pcs_inbound list"
  vb_pcs_due :: bool
  vb_pcs_retry_at :: "instant option"
  vb_pcs_failures :: nat
  vb_mode_checks :: "(string \<times> mode_check) list"
  vb_mode_switches :: "mode_switch list"
  vb_extra :: "(string \<times> json) list"

section \<open>Known criteria\<close>

definition as_raw :: "known_criterion \<Rightarrow> json" where
  "as_raw k = JObject [(''id'', JString (kn_criterion_id k)), (''vetting'', vr_wire (kn_requirements k))]"

definition criterion_hidden_params :: "applicant_sdk \<Rightarrow> known_criterion \<Rightarrow> hidden_params option" where
  "criterion_hidden_params sdk k =
     (case read_mode (sdk_parse_params sdk) (as_raw k) of Inr (ModeHidden p) \<Rightarrow> Some p | _ \<Rightarrow> None)"

definition hidden_vetting :: "applicant_sdk \<Rightarrow> known_criterion \<Rightarrow> bool" where
  "hidden_vetting sdk k \<longleftrightarrow> criterion_hidden_params sdk k \<noteq> None"

definition paths :: "applicant_sdk \<Rightarrow> known_criterion \<Rightarrow> criterion_paths" where
  "paths sdk k =
     (if \<not> hidden_vetting sdk k then NamedOnly
      else if accepts_named (as_raw k) then Either else HiddenOnly)"

definition criteria_of :: "string \<Rightarrow> vetting_book \<Rightarrow> known_criterion list" where
  "criteria_of community b = filter (\<lambda>k. kn_community k = community) (vb_criteria b)"

datatype knowledge = UnknownCommunity | NoVetting | Vetting known_criterion

definition knowledge :: "string \<Rightarrow> vetting_book \<Rightarrow> knowledge" where
  "knowledge community b =
     (case List.find (\<lambda>k. kn_community k = community) (vb_criteria b) of
        Some k \<Rightarrow> Vetting k
      | None \<Rightarrow>
          if list_ex (\<lambda>c. km_community c = community) (vb_communities b) then NoVetting
          else UnknownCommunity)"

definition community_record :: "string \<Rightarrow> vetting_book \<Rightarrow> known_community option" where
  "community_record community b = List.find (\<lambda>c. km_community c = community) (vb_communities b)"

definition protocol_for :: "string \<Rightarrow> vetting_book \<Rightarrow> join_protocol" where
  "protocol_for community b =
     (case Option.bind (community_record community b) km_protocol of None \<Rightarrow> V0_4 | Some p \<Rightarrow> p)"

definition routes :: "string \<Rightarrow> vetting_book \<Rightarrow> community_criterion list" where
  "routes community b = (case community_record community b of None \<Rightarrow> [] | Some c \<Rightarrow> km_routes c)"

definition wallet_criterion :: "string \<Rightarrow> vetting_book \<Rightarrow> community_criterion option" where
  "wallet_criterion community b =
     List.find (\<lambda>c. cr_wallet c \<and> cr_requirements_digest c \<noteq> None) (routes community b)"

definition no_branding :: branding where
  "no_branding = \<lparr>br_display_name = None, br_accent_color = None\<rparr>"

definition community_branding :: "string \<Rightarrow> vetting_book \<Rightarrow> branding option" where
  "community_branding community b =
     Option.bind (community_record community b) (\<lambda>c.
       if km_branding c = no_branding then None else Some (km_branding c))"

definition requested_attributes :: "string \<Rightarrow> vetting_book \<Rightarrow> string list" where
  "requested_attributes community b =
     (case community_record community b of None \<Rightarrow> [] | Some c \<Rightarrow> km_requested c)"

definition note_post_quantum_key :: "string \<Rightarrow> bool \<Rightarrow> vetting_book \<Rightarrow> vetting_book" where
  "note_post_quantum_key community publishes b =
     b\<lparr>vb_communities := update_first (\<lambda>c. km_community c = community)
        (\<lambda>c. c\<lparr>km_post_quantum_key := Some publishes\<rparr>) (vb_communities b)\<rparr>"

definition post_quantum_key :: "string \<Rightarrow> vetting_book \<Rightarrow> bool option" where
  "post_quantum_key community b = Option.bind (community_record community b) km_post_quantum_key"

definition community_hidden_vetting :: "applicant_sdk \<Rightarrow> string \<Rightarrow> vetting_book \<Rightarrow> bool" where
  "community_hidden_vetting sdk community b \<longleftrightarrow>
     list_ex (\<lambda>k. kn_community k = community \<and> hidden_vetting sdk k) (vb_criteria b)"

definition named_alongside_hidden :: "applicant_sdk \<Rightarrow> string \<Rightarrow> vetting_book \<Rightarrow> bool" where
  "named_alongside_hidden sdk community b \<longleftrightarrow>
     list_ex (hidden_vetting sdk) (criteria_of community b) \<and>
     list_ex (\<lambda>k. paths sdk k \<noteq> HiddenOnly) (criteria_of community b)"

definition fallback_required_claims :: "string list" where
  "fallback_required_claims = [''name.legal'']"

definition required_claims_for :: "string \<Rightarrow> string option \<Rightarrow> vetting_book \<Rightarrow> string list \<times> bool" where
  "required_claims_for community digest b =
     (let named = Option.bind digest (\<lambda>d.
                    List.find (\<lambda>k. kn_community k = community \<and> kn_requirements_digest k = Some d) (vb_criteria b));
          chosen = (case named of
                      Some k \<Rightarrow> Some k
                    | None \<Rightarrow> (case criteria_of community b of [] \<Rightarrow> None | k # _ \<Rightarrow> Some k))
      in case chosen of
           Some k \<Rightarrow> (case vr_required_claims (kn_requirements k) of None \<Rightarrow> [] | Some cs \<Rightarrow> cs, True)
         | None \<Rightarrow> (fallback_required_claims, False))"

section \<open>Reading a manifest\<close>

definition hex_value :: "char \<Rightarrow> nat option" where
  "hex_value c =
     (let n = of_char c :: nat in
      if 48 \<le> n \<and> n \<le> 57 then Some (n - 48)
      else if 97 \<le> n \<and> n \<le> 102 then Some (n - 87)
      else if 65 \<le> n \<and> n \<le> 70 then Some (n - 55)
      else None)"

definition hex_channel :: "char \<Rightarrow> char \<Rightarrow> (8 word) option" where
  "hex_channel a b =
     Option.bind (hex_value a) (\<lambda>x. map_option (\<lambda>y. of_nat (16 * x + y)) (hex_value b))"

definition parse_accent :: "string \<Rightarrow> (8 word \<times> 8 word \<times> 8 word) option" where
  "parse_accent color =
     Option.bind (strip_prefix ''#'' color) (\<lambda>hex.
     case hex of
       [a, b, c, d, e, f] \<Rightarrow>
         Option.bind (hex_channel a b) (\<lambda>r. Option.bind (hex_channel c d) (\<lambda>g.
         Option.bind (hex_channel e f) (\<lambda>b'. Some (r, g, b'))))
     | _ \<Rightarrow> None)"

definition sd_jwt_vc_format :: string where "sd_jwt_vc_format = ''dc+sd-jwt''"

fun add_types :: "string list \<Rightarrow> json list \<Rightarrow> string list" where
  "add_types types [] = types"
| "add_types types (v # vs) =
     (case jstr v of
        None \<Rightarrow> add_types types vs
      | Some t \<Rightarrow> add_types (if t \<in> set types then types else types @ [t]) vs)"

definition wallet_step :: "bool \<times> string list \<Rightarrow> json \<Rightarrow> bool \<times> string list" where
  "wallet_step acc query =
     (if jmember_str ''format'' (Some query) \<noteq> Some sd_jwt_vc_format then acc
      else (True, add_types (snd acc)
                    (case jmember_array ''vct_values'' (jget ''meta'' query) of None \<Rightarrow> [] | Some vs \<Rightarrow> vs)))"

definition wallet_query :: "(string \<times> json) list \<Rightarrow> bool \<times> string list" where
  "wallet_query definition =
     foldl wallet_step (False, [])
       (case Option.bind (map_of definition ''credentials'') jarray of None \<Rightarrow> [] | Some qs \<Rightarrow> qs)"

record manifest =
  mf_criteria :: "manifest_criterion list"
  mf_branding :: "branding option"

definition route_of :: "criterion_meta list \<Rightarrow> manifest_criterion \<Rightarrow> community_criterion" where
  "route_of meta c =
     (let m = List.find (\<lambda>m. cm_id m = mc_id c) meta; (wallet, types) = wallet_query (mc_presentation c)
      in \<lparr>cr_id = mc_id c, cr_requirements_digest = Some (mc_digest c),
          cr_admission = Option.bind m cm_admission,
          cr_invitation_required = Option.bind m cm_invitation_required,
          cr_vetting = (mc_vetting c \<noteq> None), cr_wallet = wallet, cr_wallet_types = types,
          cr_description = mc_description c\<rparr>)"

definition criterion_known ::
  "applicant_sdk \<Rightarrow> string \<Rightarrow> instant \<Rightarrow> manifest_criterion \<Rightarrow> known_criterion option" where
  "criterion_known sdk community now c =
     Option.bind (mc_vetting c) (\<lambda>reqs.
       if sdk_requirements_ok sdk reqs
       then Some \<lparr>kn_community = community, kn_criterion_id = mc_id c,
                  kn_requirements_digest = Some (mc_digest c), kn_requirements = reqs,
                  kn_fetched_at = now, kn_description = mc_description c\<rparr>
       else None)"

definition same_criterion :: "known_criterion \<Rightarrow> known_criterion \<Rightarrow> bool" where
  "same_criterion a b \<longleftrightarrow>
     kn_criterion_id a = kn_criterion_id b \<and> kn_requirements_digest a = kn_requirements_digest b \<and>
     same_requirements (kn_requirements a) (kn_requirements b)"

text \<open>The record of a community after its manifest was read, and whether it changed.\<close>

definition learn_community ::
  "string \<Rightarrow> branding \<Rightarrow> string list \<Rightarrow> community_criterion list \<Rightarrow> join_protocol option \<Rightarrow> instant \<Rightarrow>
   known_community list \<Rightarrow> known_community list \<times> bool" where
  "learn_community community brand requested rts protocol now cs =
     (case List.find (\<lambda>c. km_community c = community) cs of
        Some known \<Rightarrow>
          (update_first (\<lambda>c. km_community c = community) (\<lambda>c.
             c\<lparr>km_fetched_at := now, km_branding := brand, km_requested := requested, km_routes := rts,
               km_protocol := (if protocol \<noteq> None then protocol else km_protocol c)\<rparr>) cs,
           km_branding known \<noteq> brand \<or> km_requested known \<noteq> requested \<or> km_routes known \<noteq> rts \<or>
           (protocol \<noteq> None \<and> km_protocol known \<noteq> protocol))
      | None \<Rightarrow>
          (cs @ [\<lparr>km_community = community, km_branding = brand, km_requested = requested,
                  km_fetched_at = now, km_protocol = protocol, km_routes = rts,
                  km_post_quantum_key = None, km_vetter_mode = None, km_directory = None\<rparr>], True))"

definition learn_manifest_in ::
  "applicant_sdk \<Rightarrow> string \<Rightarrow> manifest \<Rightarrow> string list \<Rightarrow> join_protocol option \<Rightarrow> criterion_meta list \<Rightarrow>
   instant \<Rightarrow> vetting_book \<Rightarrow> vetting_book \<times> bool" where
  "learn_manifest_in sdk community m requested protocol meta now b =
     (let rts = map (route_of meta) (mf_criteria m);
          fresh = List.map_filter (criterion_known sdk community now) (mf_criteria m);
          known = criteria_of community b;
          unchanged = length known = length fresh \<and> list_all (\<lambda>(a, b). same_criterion a b) (zip known fresh);
          brand = (case mf_branding m of None \<Rightarrow> no_branding | Some br \<Rightarrow> br);
          (cs, changed) = learn_community community brand requested rts protocol now (vb_communities b)
      in (b\<lparr>vb_criteria := filter (\<lambda>k. kn_community k \<noteq> community) (vb_criteria b) @ fresh,
            vb_communities := cs\<rparr>, \<not> unchanged \<or> changed))"

definition learn_manifest ::
  "applicant_sdk \<Rightarrow> string \<Rightarrow> manifest \<Rightarrow> string list \<Rightarrow> instant \<Rightarrow> vetting_book \<Rightarrow> vetting_book \<times> bool" where
  "learn_manifest sdk community m requested now b =
     learn_manifest_in sdk community m requested None [] now b"
section \<open>Applications\<close>

definition application_for :: "string \<Rightarrow> persona_id \<Rightarrow> vetting_book \<Rightarrow> application option" where
  "application_for community persona b =
     List.find (\<lambda>a. ap_community a = community \<and> ap_persona a = persona) (vb_applications b)"

definition application_by_id :: "string \<Rightarrow> vetting_book \<Rightarrow> application option" where
  "application_by_id i b = List.find (\<lambda>a. ap_id a = i) (vb_applications b)"

definition update_application ::
  "string \<Rightarrow> (application \<Rightarrow> application) \<Rightarrow> vetting_book \<Rightarrow> vetting_book" where
  "update_application i f b = b\<lparr>vb_applications := update_first (\<lambda>a. ap_id a = i) f (vb_applications b)\<rparr>"

definition start_application ::
  "string \<Rightarrow> string \<Rightarrow> persona_id \<Rightarrow> string \<Rightarrow> string option \<Rightarrow> instant \<Rightarrow> vetting_book \<Rightarrow>
   (vetting_book \<times> application) option" where
  "start_application fresh_id community persona join_did salt now b =
     (case application_for community persona b of
        Some a \<Rightarrow> Some (b, a)
      | None \<Rightarrow>
          map_option (\<lambda>a. (b\<lparr>vb_applications := vb_applications b @ [a]\<rparr>, a))
            (new_application fresh_id community persona join_did salt now))"

definition queue_for_vta :: "pcs_inbound \<Rightarrow> vetting_book \<Rightarrow> vetting_book" where
  "queue_for_vta item b = b\<lparr>vb_pcs_inbox := vb_pcs_inbox b @ [item], vb_pcs_due := True\<rparr>"

definition retires :: "(application \<Rightarrow> bool) \<Rightarrow> instant \<Rightarrow> application \<Rightarrow> bool" where
  "retires joined now a \<longleftrightarrow>
     joined a \<and> presentable_statements now a = [] \<and> \<not> holds_hidden_attestation a"

definition retire_joined :: "(application \<Rightarrow> bool) \<Rightarrow> instant \<Rightarrow> vetting_book \<Rightarrow> vetting_book \<times> nat" where
  "retire_joined joined now b =
     (let kept = filter (\<lambda>a. \<not> retires joined now a) (vb_applications b);
          retired = List.map_filter (\<lambda>a. if retires joined now a then map_option av_application_id (ap_hidden_app a)
                                    else None) (vb_applications b)
      in (fold (\<lambda>i. queue_for_vta (DeleteApplication i)) retired (b\<lparr>vb_applications := kept\<rparr>),
          length (vb_applications b) - length kept))"

fun remove_first :: "('a \<Rightarrow> bool) \<Rightarrow> 'a list \<Rightarrow> 'a list" where
  "remove_first p [] = []"
| "remove_first p (x # xs) = (if p x then xs else x # remove_first p xs)"

definition abandon_application :: "string \<Rightarrow> vetting_book \<Rightarrow> vetting_book \<times> application option" where
  "abandon_application i b =
     (case application_by_id i b of
        None \<Rightarrow> (b, None)
      | Some a \<Rightarrow>
          let b = b\<lparr>vb_applications := remove_first (\<lambda>a. ap_id a = i) (vb_applications b)\<rparr>
          in (case ap_hidden_app a of
                Some h \<Rightarrow> queue_for_vta (DeleteApplication (av_application_id h)) b
              | None \<Rightarrow> b, Some a))"

definition first_of :: "'a option \<Rightarrow> 'a list \<Rightarrow> 'a option" where
  "first_of x xs = (case x of Some y \<Rightarrow> Some y | None \<Rightarrow> (case xs of [] \<Rightarrow> None | y # _ \<Rightarrow> Some y))"

definition choose_known :: "applicant_sdk \<Rightarrow> application \<Rightarrow> vetting_book \<Rightarrow> known_criterion option" where
  "choose_known sdk a b =
     (let known = criteria_of (ap_community a) b;
          kept = Option.bind (ap_criterion_id a) (\<lambda>i. List.find (\<lambda>k. kn_criterion_id k = i) known)
      in case kept of
           Some k \<Rightarrow> Some k
         | None \<Rightarrow> first_of (if under_way a then None else List.find (hidden_vetting sdk) known) known)"

definition adopt_known_requirements ::
  "applicant_sdk \<Rightarrow> string \<Rightarrow> vetting_book \<Rightarrow> applicant_error + vetting_book \<times> bool" where
  "adopt_known_requirements sdk i b =
     (case application_by_id i b of
        None \<Rightarrow> Inr (b, False)
      | Some a \<Rightarrow>
          (case choose_known sdk a b of
             None \<Rightarrow> Inr (b, False)
           | Some k \<Rightarrow>
               rbind (adopt_criterion sdk (kn_criterion_id k) (kn_requirements k)
                        (kn_requirements_digest k) (Some (as_raw k)) a) (\<lambda>(a', changed).
                 Inr (update_application i (\<lambda>_. a') b, changed))))"

definition ways :: "criterion_paths \<Rightarrow> vetting_path list" where
  "ways ps = (case ps of NamedOnly \<Rightarrow> [PathNamed] | Either \<Rightarrow> [PathHidden, PathNamed] | HiddenOnly \<Rightarrow> [PathHidden])"

definition options_of :: "applicant_sdk \<Rightarrow> known_criterion \<Rightarrow> vetting_option list" where
  "options_of sdk k =
     map (\<lambda>p. \<lparr>vo_criterion_id = kn_criterion_id k, vo_description = kn_description k, vo_path = p,
               vo_paths = paths sdk k\<rparr>) (ways (paths sdk k))"

definition vetting_options :: "applicant_sdk \<Rightarrow> string \<Rightarrow> vetting_book \<Rightarrow> vetting_option list" where
  "vetting_options sdk community b = concat (map (options_of sdk) (criteria_of community b))"

definition find_known :: "string \<Rightarrow> string \<Rightarrow> vetting_book \<Rightarrow> known_criterion option" where
  "find_known community i b =
     List.find (\<lambda>k. kn_community k = community \<and> kn_criterion_id k = i) (vb_criteria b)"

definition application_vetting :: "applicant_sdk \<Rightarrow> string \<Rightarrow> vetting_book \<Rightarrow> vetting_option option" where
  "application_vetting sdk i b =
     Option.bind (application_by_id i b) (\<lambda>a.
     Option.bind (ap_criterion_id a) (\<lambda>c.
       let known = find_known (ap_community a) c b
       in Some \<lparr>vo_criterion_id = c, vo_description = Option.bind known kn_description,
                vo_path = (if ap_hidden a \<noteq> None then PathHidden else PathNamed),
                vo_paths = (case known of
                              None \<Rightarrow> if ap_hidden a \<noteq> None then HiddenOnly else NamedOnly
                            | Some k \<Rightarrow> paths sdk k)\<rparr>))"

datatype switch_error = RequirementsUnknown | ApplicationGone | HoldsEvidence | OneWayOnly | CouldNotSwitch applicant_error

fun position :: "('a \<Rightarrow> bool) \<Rightarrow> 'a list \<Rightarrow> nat option" where
  "position p [] = None"
| "position p (x # xs) = (if p x then Some 0 else map_option Suc (position p xs))"

definition next_option :: "vetting_option \<Rightarrow> vetting_option list \<Rightarrow> vetting_option option" where
  "next_option current options =
     (let here = position (\<lambda>o'. vo_criterion_id o' = vo_criterion_id current \<and> vo_path o' = vo_path current) options;
          candidate = (case here of
                         Some i \<Rightarrow> Some (options ! ((i + 1) mod length options))
                       | None \<Rightarrow> (case options of [] \<Rightarrow> None | x # _ \<Rightarrow> Some x))
      in case candidate of
           Some x \<Rightarrow> if x \<noteq> current then Some x else None
         | None \<Rightarrow> None)"

text \<open>The book is returned with the error too: the chosen path is written before the criterion is taken.\<close>

definition switch_vetting ::
  "applicant_sdk \<Rightarrow> string \<Rightarrow> vetting_book \<Rightarrow> vetting_book \<times> (switch_error + vetting_option)" where
  "switch_vetting sdk i b =
     (case application_vetting sdk i b of
        None \<Rightarrow> (b, Inl RequirementsUnknown)
      | Some current \<Rightarrow>
     (case application_by_id i b of
        None \<Rightarrow> (b, Inl ApplicationGone)
      | Some a \<Rightarrow>
          if holds_evidence a then (b, Inl HoldsEvidence)
          else
     (case next_option current (vetting_options sdk (ap_community a) b) of
        None \<Rightarrow> (b, Inl OneWayOnly)
      | Some nxt \<Rightarrow>
     (case find_known (ap_community a) (vo_criterion_id nxt) b of
        None \<Rightarrow> (b, Inl OneWayOnly)
      | Some known \<Rightarrow>
          let a = a\<lparr>ap_vetting_path := Some (vo_path nxt)\<rparr> in
          case adopt_criterion sdk (kn_criterion_id known) (kn_requirements known)
                 (kn_requirements_digest known) (Some (as_raw known)) a of
            Inl e \<Rightarrow> (update_application i (\<lambda>_. a) b, Inl (CouldNotSwitch e))
          | Inr (a', _) \<Rightarrow>
              (update_application i (\<lambda>_. a'\<lparr>ap_criterion_repicked := None\<rparr>) b, Inr nxt)))))"

section \<open>Vetter grants\<close>

fun contains :: "string \<Rightarrow> string \<Rightarrow> bool" where
  "contains needle [] = (needle = [])"
| "contains needle (c # cs) = (strip_prefix needle (c # cs) \<noteq> None \<or> contains needle cs)"

definition clear_retired_for :: "string \<Rightarrow> vetting_book \<Rightarrow> vetting_book" where
  "clear_retired_for community b = b\<lparr>vb_retired := filter (\<lambda>note. \<not> contains community note) (vb_retired b)\<rparr>"

definition same_grant :: "vetter_grant \<Rightarrow> vetter_grant \<Rightarrow> bool" where
  "same_grant grant g \<longleftrightarrow> gr_community g = gr_community grant \<and> gr_persona g = gr_persona grant"

definition keep_vetter_grant :: "vetter_grant \<Rightarrow> vetting_book \<Rightarrow> vetting_book \<times> bool" where
  "keep_vetter_grant grant b =
     (case List.find (same_grant grant) (vb_vetter_grants b) of
        Some existing \<Rightarrow>
          if gr_credential existing = gr_credential grant then (b, False)
          else (clear_retired_for (gr_community grant)
                  (b\<lparr>vb_vetter_grants := update_first (same_grant grant) (\<lambda>_. grant) (vb_vetter_grants b)\<rparr>), True)
      | None \<Rightarrow>
          let b = clear_retired_for (gr_community grant) b
          in (b\<lparr>vb_vetter_grants := vb_vetter_grants b @ [grant]\<rparr>, True))"

definition grant_is_live :: "vetter_grant \<Rightarrow> instant \<Rightarrow> bool" where
  "grant_is_live g now \<longleftrightarrow> (case gr_valid_until g of None \<Rightarrow> False | Some until \<Rightarrow> now < until)"

definition grant_expiry_warning_days :: int where "grant_expiry_warning_days = 14"

definition grant_is_expiring :: "vetter_grant \<Rightarrow> instant \<Rightarrow> bool" where
  "grant_is_expiring g now \<longleftrightarrow>
     grant_is_live g now \<and>
     (case gr_valid_until g of None \<Rightarrow> False | Some until \<Rightarrow> until \<le> now + days grant_expiry_warning_days)"

definition live_grant :: "string \<Rightarrow> persona_id \<Rightarrow> instant \<Rightarrow> vetting_book \<Rightarrow> vetter_grant option" where
  "live_grant community persona now b =
     List.find (\<lambda>g. gr_community g = community \<and> gr_persona g = persona \<and> grant_is_live g now) (vb_vetter_grants b)"

definition grants_needing_attention :: "instant \<Rightarrow> vetting_book \<Rightarrow> vetter_grant list" where
  "grants_needing_attention now b =
     filter (\<lambda>g. gr_valid_until g \<noteq> None \<and> (\<not> grant_is_live g now \<or> grant_is_expiring g now)) (vb_vetter_grants b)"

text \<open>A warning's identity spells its fields; how a persona and an instant are printed is the caller's.\<close>

definition warning_id ::
  "(persona_id \<Rightarrow> string) \<Rightarrow> (instant \<Rightarrow> string) \<Rightarrow> grant_warning \<Rightarrow> string" where
  "warning_id show_persona show_instant w =
     ''vetter-grant:'' @ gw_community w @ '':'' @ show_persona (gw_persona w) @ '':'' @
     show_instant (gw_valid_until w) @ '':'' @ (if gw_expired w then ''expired'' else ''expiring'')"

definition warning_for :: "instant \<Rightarrow> vetter_grant \<Rightarrow> grant_warning" where
  "warning_for now g =
     \<lparr>gw_community = gr_community g, gw_persona = gr_persona g, gw_expired = (\<not> grant_is_live g now),
      gw_valid_until = (case gr_valid_until g of None \<Rightarrow> now | Some t \<Rightarrow> t)\<rparr>"

fun give_warnings ::
  "(grant_warning \<Rightarrow> string) \<Rightarrow> grant_warning list \<Rightarrow> string list \<Rightarrow> string list \<times> grant_warning list" where
  "give_warnings wid [] given = (given, [])"
| "give_warnings wid (w # ws) given =
     (if wid w \<in> set given then give_warnings wid ws given
      else let (given', new) = give_warnings wid ws (given @ [wid w]) in (given', w # new))"

definition take_grant_warnings ::
  "(persona_id \<Rightarrow> string) \<Rightarrow> (instant \<Rightarrow> string) \<Rightarrow> instant \<Rightarrow> vetting_book \<Rightarrow>
   vetting_book \<times> grant_warning list" where
  "take_grant_warnings show_persona show_instant now b =
     (let wid = warning_id show_persona show_instant;
          owed = map (warning_for now) (grants_needing_attention now b);
          live_ids = map wid owed;
          (given, new) = give_warnings wid owed (filter (\<lambda>i. i \<in> set live_ids) (vb_grant_warnings b))
      in (b\<lparr>vb_grant_warnings := given\<rparr>, new))"

section \<open>The desk, from the book\<close>

definition desk_entry :: "string \<Rightarrow> vetting_book \<Rightarrow> desk_entry option" where
  "desk_entry request_id b = List.find (\<lambda>e. de_request_id e = request_id) (vb_desk b)"

definition set_desk_entry :: "string \<Rightarrow> desk_state \<Rightarrow> instant \<Rightarrow> vetting_book \<Rightarrow> vetting_book" where
  "set_desk_entry request_id st now b =
     b\<lparr>vb_desk := update_first (\<lambda>e. de_request_id e = request_id)
        (\<lambda>e. e\<lparr>de_state := st, de_updated_at := now\<rparr>) (vb_desk b)\<rparr>"

definition open_requests :: "persona_id \<Rightarrow> vetting_book \<Rightarrow> nat" where
  "open_requests persona b = length (filter (\<lambda>e. de_persona e = persona \<and> is_open (de_state e)) (vb_desk b))"

definition request_vetting :: "applicant_sdk \<Rightarrow> string \<Rightarrow> vetting_book \<Rightarrow> request_vetting" where
  "request_vetting sdk request_id b =
     (case desk_entry request_id b of
        None \<Rightarrow> AttestNamed None
      | Some e \<Rightarrow>
          (case read_request_ext (rq_ext (de_request e)) of
             Inl err \<Rightarrow> UnreadableRequest err
           | Inr (Some _) \<Rightarrow> AttestHidden
           | Inr None \<Rightarrow>
               let digest = rq_requirements_digest (de_request e);
                   ours = criteria_of (de_community e) b
               in case List.find (\<lambda>k. digest \<noteq> None \<and> kn_requirements_digest k = digest) ours of
                    Some k \<Rightarrow> if paths sdk k = HiddenOnly then HiddenWithoutId (kn_criterion_id k)
                               else AttestNamed (Some (kn_criterion_id k))
                  | None \<Rightarrow>
                      (case ours of
                         k # _ \<Rightarrow> if list_all (\<lambda>k. paths sdk k = HiddenOnly) ours
                                   then HiddenWithoutId (kn_criterion_id k) else AttestNamed None
                       | [] \<Rightarrow> AttestNamed None)))"

section \<open>Letting time pass\<close>

definition closed_grace :: duration where "closed_grace = minutes 10"

definition ticket_kept :: "instant \<Rightarrow> ticket \<Rightarrow> bool" where
  "ticket_kept now t \<longleftrightarrow> is_live t now \<or> now - min (tk_expires_at t) now < days 1"

text \<open>When and how a finished request with nothing left to forget closed.\<close>

definition closed :: "desk_entry \<Rightarrow> (instant \<times> vetted_outcome) option" where
  "closed e =
     (case de_state e of
        DeskAttested i at c \<Rightarrow> if rc_card c = None then Some (at, VettedSigned i) else None
      | DeskDeclined _ at c \<Rightarrow>
          if (case c of None \<Rightarrow> True | Some c \<Rightarrow> rc_card c = None) then Some (at, VettedDeclined) else None
      | _ \<Rightarrow> None)"

definition leaves_desk :: "instant \<Rightarrow> desk_entry \<Rightarrow> vetted_record option" where
  "leaves_desk now e =
     (case closed e of
        Some (at, outcome) \<Rightarrow>
          if closed_grace \<le> now - at
          then Some \<lparr>vd_community = de_community e, vd_closed_at = at, vd_outcome = outcome\<rparr> else None
      | None \<Rightarrow> None)"

definition prune_entry :: "duration \<Rightarrow> instant \<Rightarrow> desk_entry \<Rightarrow> desk_entry" where
  "prune_entry retention now e = fst (forget_card_after retention now (fst (expire_session now e)))"

definition entry_pruned :: "duration \<Rightarrow> instant \<Rightarrow> desk_entry \<Rightarrow> bool" where
  "entry_pruned retention now e \<longleftrightarrow>
     snd (expire_session now e) \<or> snd (forget_card_after retention now (fst (expire_session now e)))"

definition card_retention :: "vetter_policy \<Rightarrow> duration" where
  "card_retention p = days (max (vp_card_retention_days p) 0)"

definition prune :: "instant \<Rightarrow> vetting_book \<Rightarrow> vetting_book \<times> bool" where
  "prune now b =
     (let tickets = filter (ticket_kept now) (vb_tickets b);
          retention = card_retention (vb_policy b);
          desk = map (prune_entry retention now) (vb_desk b);
          apps = map (lapse_sessions now) (vb_applications b)
      in (b\<lparr>vb_tickets := tickets,
            vb_desk := filter (\<lambda>e. leaves_desk now e = None) desk,
            vb_vetted := vb_vetted b @ List.map_filter (leaves_desk now) desk,
            vb_applications := apps\<rparr>,
          length tickets \<noteq> length (vb_tickets b) \<or> list_ex (entry_pruned retention now) (vb_desk b) \<or>
          list_ex (\<lambda>e. leaves_desk now e \<noteq> None) desk \<or>
          list_ex (\<lambda>a. list_ex (\<lambda>r. lapse_session now r \<noteq> r) (ap_requests a)) (vb_applications b)))"

section \<open>Upgrades\<close>

text \<open>\<open>nonconformant\<close> is \<open>crate::dtg::nonconformance\<close>; the notices are the sentences it leads to.\<close>

definition add_notes :: "string list \<Rightarrow> vetting_book \<Rightarrow> vetting_book" where
  "add_notes notes b =
     b\<lparr>vb_retired := foldl (\<lambda>r n. if n \<in> set r then r else r @ [n]) (vb_retired b) notes\<rparr>"

definition retire_nonconformant ::
  "(json \<Rightarrow> bool) \<Rightarrow> (string \<Rightarrow> string) \<Rightarrow> (string \<Rightarrow> string \<Rightarrow> string) \<Rightarrow> vetting_book \<Rightarrow> vetting_book \<times> nat" where
  "retire_nonconformant nonconformant grant_note statement_note b =
     (let bad_grants = filter (\<lambda>g. nonconformant (gr_credential g)) (vb_vetter_grants b);
          grant_notes = map (\<lambda>g. grant_note (gr_community g)) bad_grants;
          statement_notes = concat (map (\<lambda>a. map (\<lambda>h. statement_note (hs_vetter h) (ap_community a))
                              (filter (\<lambda>h. nonconformant (hs_credential h)) (ap_statements a))) (vb_applications b));
          notes = grant_notes @ statement_notes
      in (add_notes notes
            (b\<lparr>vb_vetter_grants := filter (\<lambda>g. \<not> nonconformant (gr_credential g)) (vb_vetter_grants b),
               vb_applications := map (\<lambda>a. a\<lparr>ap_statements :=
                 filter (\<lambda>h. \<not> nonconformant (hs_credential h)) (ap_statements a)\<rparr>) (vb_applications b)\<rparr>),
          length notes))"

definition forget_local_engines ::
  "(string \<Rightarrow> string) \<Rightarrow> (string \<Rightarrow> string) \<Rightarrow> vetting_book \<Rightarrow> vetting_book \<times> nat" where
  "forget_local_engines vetter_note application_note b =
     (let vetter_notes = map (\<lambda>h. vetter_note (hv_community h)) (filter hv_local_engine_dropped (vb_hidden_vetter b));
          dropped = filter ap_local_engine_dropped (vb_applications b);
          notes = vetter_notes @ map (\<lambda>a. application_note (ap_community a)) dropped
      in (add_notes notes
            (b\<lparr>vb_hidden_vetter := map (\<lambda>h. fst (forget_local_vetter h)) (vb_hidden_vetter b),
               vb_applications := map (\<lambda>a. fst (forget_local_engine a)) (vb_applications b),
               vb_pcs_due := (vb_pcs_due b \<or> dropped \<noteq> [])\<rparr>), length notes))"

definition is_empty :: "vetter_sdk \<Rightarrow> vetting_book \<Rightarrow> bool" where
  "is_empty sdk b \<longleftrightarrow>
     vb_applications b = [] \<and> vb_tickets b = [] \<and> vb_desk b = [] \<and> vb_issued b = [] \<and>
     gt_wrong (vb_throttle b) = [] \<and> vb_criteria b = [] \<and> policy_is_default sdk (vb_policy b) \<and>
     vb_vetter_grants b = [] \<and> vb_communities b = [] \<and> vb_vetter_profiles b = [] \<and>
     vb_retired b = [] \<and> vb_extra b = []"

end
