(* ===== verification/VetterDesk.thy ===== *)
theory VetterDesk
  imports Book
begin

text \<open>
  The vetter's desk (\<open>impl VettingBook\<close> in \<open>openvtc-core/src/vetting/vetter.rs\<close>, and the hidden path's
  last two steps in \<open>book.rs\<close>): taking a request in, opening a session, receiving a card, signing,
  declining, withdrawing. Fresh identifiers and the challenge are arguments; an operation that fails
  leaves the book as it was, except that a wrong spoken code is remembered in the throttle.
\<close>

section \<open>Taking a request in\<close>

definition new_entry :: "string \<Rightarrow> incoming_request \<Rightarrow> string \<Rightarrow> instant \<Rightarrow> desk_entry" where
  "new_entry fresh_id incoming ticket_id now =
     \<lparr>de_request_id = fresh_id, de_request_document_id = in_document_id incoming,
      de_applicant = in_sender incoming, de_community = rq_community (in_body incoming),
      de_persona = in_persona incoming, de_ticket_id = Some ticket_id, de_request = in_body incoming,
      de_state = DeskAccepted, de_received_at = now, de_updated_at = now\<rparr>"

definition already_taken :: "incoming_request \<Rightarrow> desk_entry \<Rightarrow> bool" where
  "already_taken incoming e \<longleftrightarrow>
     de_request_document_id e = in_document_id incoming \<and> de_applicant e = in_sender incoming"

definition admit ::
  "vetter_sdk \<Rightarrow> string \<Rightarrow> incoming_request \<Rightarrow> string \<Rightarrow> instant \<Rightarrow> vetting_book \<Rightarrow> vetting_book \<times> intake" where
  "admit sdk fresh_id incoming ticket_id now b =
     (let preferred = Option.bind (rq_preferred_method (in_body incoming)) (request_method sdk) in
      if \<not> (case List.find (\<lambda>t. tk_id t = ticket_id) (vb_tickets b) of
               None \<Rightarrow> False | Some t \<Rightarrow> offers t preferred)
      then (b, IntakeRefused MethodUnavailable)
      else if \<not> in_eligible incoming then (b, IntakeRefused NotEligible)
      else if vp_max_open_requests (vb_policy b) \<le> open_requests (in_persona incoming) b
      then (b, IntakeRefused Capacity)
      else
        let e = new_entry fresh_id incoming ticket_id now
        in (b\<lparr>vb_tickets := fst (consume (vb_tickets b) ticket_id), vb_desk := vb_desk b @ [e]\<rparr>,
            accept sdk (vb_policy b) e))"

definition take_request ::
  "vetter_sdk \<Rightarrow> string \<Rightarrow> incoming_request \<Rightarrow> instant \<Rightarrow> vetting_book \<Rightarrow> vetting_book \<times> intake" where
  "take_request sdk fresh_id incoming now b =
     (let body = in_body incoming in
      if \<not> check_request sdk body (in_sender incoming) then (b, IntakeSilent)
      else
        case List.find (already_taken incoming) (vb_desk b) of
          Some existing \<Rightarrow> (b, accept sdk (vb_policy b) existing)
        | None \<Rightarrow>
            (case rq_ticket body of
               None \<Rightarrow> (b, if rq_introduction body = [] then IntakeSilent else IntakeRefused DeclinedError)
             | Some t \<Rightarrow>
                 let (th, r) = check (vb_tickets b) (vb_throttle b) t (in_sender incoming)
                                 (rq_community body) (in_persona incoming) now;
                     b = b\<lparr>vb_throttle := th\<rparr>
                 in case r of
                      Matched ticket_id \<Rightarrow> admit sdk fresh_id incoming ticket_id now b
                    | Silent \<Rightarrow> (b, IntakeSilent)
                    | Refused code \<Rightarrow> (b, IntakeRefused code)))"

section \<open>Sessions\<close>

definition session_payload ::
  "string \<Rightarrow> desk_entry \<Rightarrow> string \<Rightarrow> string \<Rightarrow> string list \<Rightarrow> string list \<Rightarrow> instant \<Rightarrow> session_body" where
  "session_payload request_id e challenge task_method required optional expires_at =
     \<lparr>sb_request_id = request_id, sb_challenge = challenge, sb_domain = de_community e,
      sb_method = task_method, sb_required_claims = required,
      sb_optional_claims = (if optional \<noteq> [] then Some optional else None), sb_expires_at = expires_at\<rparr>"

definition open_session ::
  "vetter_sdk \<Rightarrow> string option \<Rightarrow> string \<Rightarrow> vetting_method \<Rightarrow> string list \<Rightarrow> string list \<Rightarrow> string \<Rightarrow> instant \<Rightarrow>
   vetting_book \<Rightarrow> vetter_error + vetting_book \<times> session_body" where
  "open_session sdk salt request_id method required optional session_document_id now b =
     rbind (ok_or NoSuchRequest (desk_entry request_id b)) (\<lambda>e.
     rbind (ensure (is_open (de_state e)) (DeskWrongState ''open a session'')) (\<lambda>_.
     rbind (ok_or DeskVetting salt) (\<lambda>challenge.
     rbind (ok_or DeskShape (session_method sdk method)) (\<lambda>task_method.
     rbind (ensure (list_all (session_claim_ok sdk) required) DeskShape) (\<lambda>_.
     rbind (ensure (list_all (session_claim_ok sdk) optional) DeskShape) (\<lambda>_.
     let body = session_payload request_id e challenge task_method required optional
                  (now + session_length (vb_policy b))
     in rbind (ensure (session_ok sdk body) DeskShape) (\<lambda>_.
        let session = \<lparr>ds_id = session_document_id, ds_challenge = challenge, ds_method = method,
                       ds_required_claims = required, ds_optional_claims = optional,
                       ds_expires_at = sb_expires_at body,
                       ds_match_code = match_code_of sdk session_document_id, ds_document = None\<rparr>
        in Inr (set_desk_entry request_id (DeskInSession session) now b, body))))))))"

definition record_session_document ::
  "string \<Rightarrow> json \<Rightarrow> vetting_book \<Rightarrow> vetter_error + vetting_book" where
  "record_session_document request_id document b =
     rbind (ok_or NoSuchRequest (desk_entry request_id b)) (\<lambda>e.
     case de_state e of
       DeskInSession s \<Rightarrow>
         if jmember_str ''id'' (Some document) = Some (ds_id s)
         then Inr (b\<lparr>vb_desk := update_first (\<lambda>e. de_request_id e = request_id)
                      (\<lambda>e. e\<lparr>de_state := DeskInSession (s\<lparr>ds_document := Some document\<rparr>)\<rparr>) (vb_desk b)\<rparr>)
         else Inl (DeskWrongState ''record another session's document'')
     | _ \<Rightarrow> Inl (DeskWrongState ''record its session document''))"

fun desk_session_of :: "desk_state \<Rightarrow> desk_session option" where
  "desk_session_of (DeskInSession s) = Some s"
| "desk_session_of _ = None"

definition awaits_card :: "string \<Rightarrow> string \<Rightarrow> desk_entry \<Rightarrow> bool" where
  "awaits_card applicant session_id e \<longleftrightarrow>
     de_applicant e = applicant \<and> map_option ds_id (desk_session_of (de_state e)) = Some session_id"

definition receive_card ::
  "vetter_sdk \<Rightarrow> string \<Rightarrow> string \<Rightarrow> string \<Rightarrow> json \<Rightarrow> instant \<Rightarrow> vetting_book \<Rightarrow> vetter_error + vetting_book" where
  "receive_card sdk vetter_did applicant session_id the_card now b =
     rbind (ok_or NoSuchRequest (List.find (awaits_card applicant session_id) (vb_desk b))) (\<lambda>e.
     rbind (ok_or NoSuchRequest (desk_session_of (de_state e))) (\<lambda>s.
     rbind (ensure (\<not> ds_expires_at s \<le> now) (DeskWrongState ''take a card after its session closed'')) (\<lambda>_.
     rbind (ok_or DeskVetting (verify_card sdk the_card
              \<lparr>ce_audience = vetter_did, ce_publisher = applicant, ce_community = de_community e,
               ce_challenge = ds_challenge s, ce_domain = de_community e,
               ce_required_claims = ds_required_claims s, ce_now = now\<rparr>)) (\<lambda>verified.
     let received = \<lparr>rc_digest = vc_digest verified, rc_identity_commitment = vc_identity_commitment verified,
                     rc_claims = vc_claims verified, rc_card = Some the_card, rc_received_at = now\<rparr>
     in Inr (b\<lparr>vb_desk := update_first (awaits_card applicant session_id)
                 (\<lambda>e. e\<lparr>de_state := DeskCardReceived s received, de_updated_at := now\<rparr>) (vb_desk b)\<rparr>)))))"

section \<open>Attesting\<close>

fun card_received :: "desk_state \<Rightarrow> (desk_session \<times> received_card) option" where
  "card_received (DeskCardReceived s c) = Some (s, c)"
| "card_received _ = None"

definition statement_draft ::
  "vetter_sdk \<Rightarrow> string \<Rightarrow> string \<Rightarrow> string \<Rightarrow> attestation \<Rightarrow> instant \<Rightarrow> vetting_book \<Rightarrow>
   vetter_error + statement_draft" where
  "statement_draft sdk fresh_uuid request_id vetter_did att now b =
     rbind (ok_or NoSuchRequest (desk_entry request_id b)) (\<lambda>e.
     rbind (ok_or (DeskWrongState ''be attested'') (card_received (de_state e))) (\<lambda>(s, c).
     let documentary = at_method att \<noteq> PriorAcquaintance in
     rbind (ensure (\<not> (documentary \<and> \<not> at_liveness_confirmed att)) LivenessNotConfirmed) (\<lambda>_.
     rbind (collect_results (\<lambda>d. ok_or DeskShape (statement_documentation sdk d))
              (filter (\<lambda>d. d \<noteq> documentation_none sdk) (at_document_classes att))) (\<lambda>classes.
     rbind (ensure (\<not> (documentary \<and> classes = [])) NoDocumentation) (\<lambda>_.
     case List.find (\<lambda>t. \<not> list_ex (\<lambda>cl. cc_type cl = t) (rc_claims c)) (at_claims_verified att) of
       Some missing \<Rightarrow> Inl (ClaimNotOnCard missing)
     | None \<Rightarrow>
     (case List.find (\<lambda>t. t \<notin> set (at_claims_verified att)) (ds_required_claims s) of
       Some unverified \<Rightarrow> Inl (RequiredClaimNotVerified unverified)
     | None \<Rightarrow>
     rbind (ensure (list_all (claim_type_ok sdk) (at_claims_verified att)) DeskShape) (\<lambda>_.
     rbind (ok_or SessionDocumentMissing (ds_document s)) (\<lambda>document.
     let value = \<lparr>vv_community = de_community e, vv_method = at_method att,
                  vv_document_classes = classes, vv_claims_verified = at_claims_verified att,
                  vv_liveness_confirmed = at_liveness_confirmed att,
                  vv_identity_commitment = Some (rc_identity_commitment c),
                  vv_card_digest = Some (rc_digest c),
                  vv_declared_relationship = Some (at_declared_relationship att),
                  vv_attestation_text_digest = at_attestation_text_digest att\<rparr>
     in rbind (ensure (vetted_value_ok sdk value) DeskShape) (\<lambda>_.
        Inr \<lparr>sd_id = ''urn:uuid:'' @ fresh_uuid, sd_issuer = vetter_did, sd_issuer_scope = ''directed'',
             sd_subject = de_applicant e, sd_value = value, sd_valid_from = now,
             sd_valid_until = now + statement_validity (vb_policy b), sd_session = document\<rparr>)))))))))"

definition record_statement ::
  "vetter_sdk \<Rightarrow> string \<Rightarrow> json \<Rightarrow> instant \<Rightarrow> vetting_book \<Rightarrow> vetter_error + vetting_book \<times> issued_statement" where
  "record_statement sdk request_id signed_doc now b =
     rbind (ok_or DeskVetting (verify_statement sdk signed_doc now)) (\<lambda>verified.
     rbind (ok_or NoSuchRequest (desk_entry request_id b)) (\<lambda>e.
     rbind (ok_or (DeskWrongState ''be attested'') (card_received (de_state e))) (\<lambda>(_, c).
     let issued = \<lparr>is_id = vs_id verified, is_digest = vs_digest verified, is_applicant = de_applicant e,
                   is_community = de_community e, is_persona = de_persona e,
                   is_method = vv_method (vs_value verified), is_issued_at = now,
                   is_valid_until = vs_valid_until verified, is_withdrawal = None\<rparr>;
         b' = set_desk_entry request_id (DeskAttested (is_id issued) now c) now b
     in Inr (b'\<lparr>vb_issued := vb_issued b @ [issued]\<rparr>, issued))))"

definition decline ::
  "vetter_sdk \<Rightarrow> string \<Rightarrow> decline_code option \<Rightarrow> string option \<Rightarrow> instant \<Rightarrow> vetting_book \<Rightarrow>
   vetter_error + vetting_book \<times> decline_body" where
  "decline sdk request_id code message now b =
     rbind (ok_or NoSuchRequest (desk_entry request_id b)) (\<lambda>e.
     rbind (ensure (is_open (de_state e)) (DeskWrongState ''be declined'')) (\<lambda>_.
     let body = \<lparr>db_request_id = request_id, db_code = code, db_message = message\<rparr>
     in rbind (ensure (decline_ok sdk body) DeskShape) (\<lambda>_.
        Inr (set_desk_entry request_id
               (DeskDeclined code now (map_option snd (card_received (de_state e)))) now b, body))))"

section \<open>Withdrawing\<close>

definition withdrawal ::
  "vetter_sdk \<Rightarrow> string \<Rightarrow> string option \<Rightarrow> string \<Rightarrow> instant \<Rightarrow> vetting_book \<Rightarrow>
   vetter_error + vetting_book \<times> revoke_body \<times> issued_statement" where
  "withdrawal sdk statement_id reason document_id now b =
     rbind (ok_or NoSuchStatement (List.find (\<lambda>s. is_id s = statement_id) (vb_issued b))) (\<lambda>issued.
     rbind (ensure (\<not> (case is_withdrawal issued of None \<Rightarrow> False | Some w \<Rightarrow> wn_recorded_at w \<noteq> None))
              AlreadyWithdrawn) (\<lambda>_.
     let body = \<lparr>rb_statement_id = is_id issued, rb_statement_digest = is_digest issued, rb_reason = reason\<rparr>
     in rbind (ensure (revoke_ok sdk body) DeskShape) (\<lambda>_.
        let notice = \<lparr>wn_document_id = document_id, wn_reason = reason, wn_sent_at = now, wn_recorded_at = None\<rparr>
        in Inr (b\<lparr>vb_issued := update_first (\<lambda>s. is_id s = statement_id)
                    (\<lambda>s. s\<lparr>is_withdrawal := Some notice\<rparr>) (vb_issued b)\<rparr>,
                body, issued\<lparr>is_withdrawal := Some notice\<rparr>))))"

definition withdraws :: "string \<Rightarrow> string \<Rightarrow> issued_statement \<Rightarrow> bool" where
  "withdraws community document_id s \<longleftrightarrow>
     is_community s = community \<and> map_option wn_document_id (is_withdrawal s) = Some document_id"

definition on_withdrawal_recorded ::
  "string \<Rightarrow> string \<Rightarrow> instant \<Rightarrow> vetting_book \<Rightarrow> vetting_book" where
  "on_withdrawal_recorded community document_id recorded_at b =
     b\<lparr>vb_issued := update_first (withdraws community document_id)
        (\<lambda>s. s\<lparr>is_withdrawal := map_option (\<lambda>w. w\<lparr>wn_recorded_at := Some recorded_at\<rparr>) (is_withdrawal s)\<rparr>)
        (vb_issued b)\<rparr>"

section \<open>The hidden path\<close>

datatype hidden_attest_error = AttestErr vetter_error | AttestHiddenErr hidden_error

record hidden_attest_job =
  hj_request_id :: string
  hj_community :: string
  hj_persona :: persona_id
  hj_applicant :: string
  hj_applicant_id :: string
  hj_requirements_digest :: string
  hj_draft :: statement_draft
  hj_params :: hidden_params

definition hidden_vetter_for :: "string \<Rightarrow> persona_id \<Rightarrow> vetting_book \<Rightarrow> hidden_vetter_state option" where
  "hidden_vetter_for community persona b =
     List.find (\<lambda>h. hv_community h = community \<and> hv_persona h = persona) (vb_hidden_vetter b)"

text \<open>\<open>members_of\<close> is \<open>VettedObjectValue::vetter_members\<close>; the job carries what \<open>statement_meta\<close> spells.\<close>

definition hidden_attestation_job ::
  "vetter_sdk \<Rightarrow> (vetted_value \<Rightarrow> vetter_members option) \<Rightarrow> string \<Rightarrow> string \<Rightarrow> string \<Rightarrow> attestation \<Rightarrow>
   instant \<Rightarrow> vetting_book \<Rightarrow> hidden_attest_error + hidden_attest_job" where
  "hidden_attestation_job sdk members_of fresh_uuid request_id vetter_did att now b =
     rbind (ok_or (AttestErr NoSuchRequest) (desk_entry request_id b)) (\<lambda>e.
     rbind (ensure (card_received (de_state e) \<noteq> None) (AttestErr (DeskWrongState ''be attested''))) (\<lambda>_.
     rbind (map_err AttestHiddenErr (read_request_ext (rq_ext (de_request e)))) (\<lambda>ext.
     rbind (ok_or (AttestHiddenErr (Unreadable ''no hidden-vetting identifier'')) ext) (\<lambda>applicant_id.
     rbind (map_err AttestErr (statement_draft sdk fresh_uuid request_id vetter_did att now b)) (\<lambda>draft.
     rbind (ensure (members_of (sd_value draft) \<noteq> None) (AttestHiddenErr (Unreadable ''no vetter members''))) (\<lambda>_.
     rbind (ok_or (AttestHiddenErr NotEnrolled) (hidden_vetter_for (de_community e) (de_persona e) b)) (\<lambda>h.
     rbind (ensure (list_ex (\<lambda>l. enrolled_for (hv_engine h) (trim_start_matches ''vetter/'' l))
                     (hp_vetter_labels (hv_params h))) (AttestHiddenErr NotEnrolled)) (\<lambda>_.
       Inr \<lparr>hj_request_id = request_id, hj_community = de_community e, hj_persona = de_persona e,
            hj_applicant = de_applicant e, hj_applicant_id = applicant_id,
            hj_requirements_digest = (case rq_requirements_digest (de_request e) of None \<Rightarrow> [] | Some d \<Rightarrow> d),
            hj_draft = draft, hj_params = hv_params h\<rparr>))))))))"

definition hidden_attestation_prefix :: string where
  "hidden_attestation_prefix = ''urn:openvtc:hidden-attestation:''"

definition is_hidden_attestation :: "string \<Rightarrow> bool" where
  "is_hidden_attestation statement_id \<longleftrightarrow> strip_prefix hidden_attestation_prefix statement_id \<noteq> None"

definition spend_token :: "hidden_vetter_state \<Rightarrow> hidden_vetter_state" where
  "spend_token h =
     h\<lparr>hv_tokens_spent := succ_u32 (hv_tokens_spent h),
       hv_engine := (hv_engine h)\<lparr>vw_tokens_free := vw_tokens_free (hv_engine h) - 1,
                                   vw_tokens_held := vw_tokens_held (hv_engine h) - 1,
                                   vw_attested := min (vw_attested (hv_engine h) + 1) (2 ^ 64 - 1)\<rparr>\<rparr>"

definition hidden_attested :: "string \<Rightarrow> instant \<Rightarrow> vetting_book \<Rightarrow> vetter_error + vetting_book" where
  "hidden_attested request_id now b =
     rbind (ok_or NoSuchRequest (desk_entry request_id b)) (\<lambda>e.
     rbind (ok_or (DeskWrongState ''be attested'') (card_received (de_state e))) (\<lambda>(_, c).
     let b' = set_desk_entry request_id
                (DeskAttested (hidden_attestation_prefix @ request_id) now c) now b
     in Inr (b'\<lparr>vb_hidden_vetter := update_first
                  (\<lambda>h. hv_community h = de_community e \<and> hv_persona h = de_persona e)
                  spend_token (vb_hidden_vetter b)\<rparr>)))"
end
