(* ===== verification/DeskFlow.thy ===== *)
theory DeskFlow
  imports VetterDesk
begin

text \<open>
  What the vetter's desk guarantees: what a stranger can learn, how tickets and capacity are accounted
  for, what a signed statement rests on, and that a closed request stays closed.
\<close>

section \<open>The ways a request is answered\<close>

lemma check_matched:
  assumes "check tickets th presented sender community persona now = (th', Matched i)"
  shows "\<exists>t \<in> set tickets. tk_id t = i \<and> tk_persona t = persona \<and> tk_community t = community \<and> is_live t now"
  using assms by (cases presented)
    (force simp: Let_def split: if_splits option.splits dest!: find_SomeD find_spoken_Some)+

lemma admit_cases:
  assumes "admit sdk fid inc i now b = (b', r)"
  obtains (declined) "b' = b" "r \<in> {IntakeRefused MethodUnavailable, IntakeRefused NotEligible, IntakeRefused Capacity}"
    | (admitted) t where "List.find (\<lambda>t. tk_id t = i) (vb_tickets b) = Some t"
      "offers t (Option.bind (rq_preferred_method (in_body inc)) (request_method sdk))" "in_eligible inc"
      "open_requests (in_persona inc) b < vp_max_open_requests (vb_policy b)"
      "b' = b\<lparr>vb_tickets := fst (consume (vb_tickets b) i), vb_desk := vb_desk b @ [new_entry fid inc i now]\<rparr>"
      "r = accept sdk (vb_policy b) (new_entry fid inc i now)"
proof -
  let ?preferred = "Option.bind (rq_preferred_method (in_body inc)) (request_method sdk)"
  show ?thesis
  proof (cases "List.find (\<lambda>t. tk_id t = i) (vb_tickets b)")
    case None
    with assms declined show ?thesis by (simp add: admit_def)
  next
    case (Some t)
    show ?thesis
    proof (cases "offers t ?preferred \<and> in_eligible inc \<and> open_requests (in_persona inc) b < vp_max_open_requests (vb_policy b)")
      case True
      with assms Some admitted [of t] show ?thesis by (simp add: admit_def Let_def)
    next
      case False
      with assms Some have "b' = b \<and> r \<in> {IntakeRefused MethodUnavailable, IntakeRefused NotEligible, IntakeRefused Capacity}"
        by (simp add: admit_def Let_def split: if_splits)
      with declined show ?thesis by blast
    qed
  qed
qed

lemma take_request_cases:
  assumes "take_request sdk fid inc now b = (b', r)"
  obtains (known) e where "check_request sdk (in_body inc) (in_sender inc)"
      "List.find (already_taken inc) (vb_desk b) = Some e" "b' = b" "r = accept sdk (vb_policy b) e"
    | (quiet) th where "List.find (already_taken inc) (vb_desk b) = None \<or> \<not> check_request sdk (in_body inc) (in_sender inc)"
      "b' = b\<lparr>vb_throttle := th\<rparr>" "\<And>body. r \<noteq> IntakeAccepted body"
    | (admitted) th i t u where "check_request sdk (in_body inc) (in_sender inc)"
      "List.find (already_taken inc) (vb_desk b) = None"
      "t \<in> set (vb_tickets b)" "tk_id t = i" "tk_persona t = in_persona inc"
      "tk_community t = rq_community (in_body inc)" "is_live t now"
      "u \<in> set (vb_tickets b)" "tk_id u = i"
      "offers u (Option.bind (rq_preferred_method (in_body inc)) (request_method sdk))"
      "in_eligible inc"
      "open_requests (in_persona inc) b < vp_max_open_requests (vb_policy b)"
      "b' = b\<lparr>vb_throttle := th, vb_tickets := fst (consume (vb_tickets b) i),
              vb_desk := vb_desk b @ [new_entry fid inc i now]\<rparr>"
      "r = accept sdk (vb_policy b) (new_entry fid inc i now)"
proof (cases "check_request sdk (in_body inc) (in_sender inc)")
  case False
  with assms have "b' = b" "r = IntakeSilent" by (auto simp: take_request_def Let_def)
  then show ?thesis by (intro quiet [of "vb_throttle b"]) (simp_all add: False)
next
  case ok: True
  show ?thesis
  proof (cases "List.find (already_taken inc) (vb_desk b)")
    case (Some e)
    with assms ok have "b' = b" "r = accept sdk (vb_policy b) e" by (auto simp: take_request_def Let_def)
    then show ?thesis by (rule known [OF ok Some])
  next
    case None
    show ?thesis
    proof (cases "rq_ticket (in_body inc)")
      case no: None
      with assms ok None have "b' = b" "r = (if rq_introduction (in_body inc) = [] then IntakeSilent else IntakeRefused DeclinedError)"
        by (auto simp: take_request_def Let_def)
      then show ?thesis by (intro quiet [of "vb_throttle b"]) (simp_all add: None)
    next
      case (Some presented)
      obtain th red where c: "check (vb_tickets b) (vb_throttle b) presented (in_sender inc)
          (rq_community (in_body inc)) (in_persona inc) now = (th, red)" by fastforce
      have unfolded: "(b', r) = (case red of
            Matched i \<Rightarrow> admit sdk fid inc i now (b\<lparr>vb_throttle := th\<rparr>)
          | Silent \<Rightarrow> (b\<lparr>vb_throttle := th\<rparr>, IntakeSilent)
          | Refused code \<Rightarrow> (b\<lparr>vb_throttle := th\<rparr>, IntakeRefused code))"
        using assms ok None Some c by (simp add: take_request_def Let_def)
      show ?thesis
      proof (cases red)
        case (Matched i)
        with unfolded have "admit sdk fid inc i now (b\<lparr>vb_throttle := th\<rparr>) = (b', r)" by simp
        then show ?thesis
        proof (cases rule: admit_cases)
          case declined
          then show ?thesis by (intro quiet [of th]) (auto simp: None)
        next
          case (admitted u)
          from check_matched [OF c [unfolded Matched]] obtain t where
            t: "t \<in> set (vb_tickets b)" "tk_id t = i" "tk_persona t = in_persona inc"
            "tk_community t = rq_community (in_body inc)" "is_live t now" by blast
          have "open_requests (in_persona inc) (b\<lparr>vb_throttle := th\<rparr>) = open_requests (in_persona inc) b"
            by (simp add: open_requests_def)
          with admitted find_SomeD [OF admitted(1)] show ?thesis
            by (intro that(3) [OF ok None t, of u th]) simp_all
        qed
      next
        case Silent
        with unfolded show ?thesis by (intro quiet [of th]) (simp_all add: None)
      next
        case (Refused code)
        with unfolded show ?thesis by (intro quiet [of th]) (simp_all add: None)
      qed
    qed
  qed
qed

section \<open>What a stranger learns\<close>

text \<open>(C29) Without a ticket a stranger learns nothing. If what a request presents matches no ticket, its
  answer is the same whatever is on the desk, whatever the vetter's policy, capacity, communities and
  grants are and whether the sender would be eligible; and nothing but the count of wrong codes changes.\<close>

theorem stranger_learns_nothing:
  assumes "vb_tickets b = vb_tickets b2" "vb_throttle b = vb_throttle b2"
    and "List.find (already_taken inc) (vb_desk b) = None" "List.find (already_taken inc) (vb_desk b2) = None"
    and "case rq_ticket (in_body inc) of None \<Rightarrow> True
         | Some t \<Rightarrow> (\<forall>i. snd (check (vb_tickets b) (vb_throttle b) t (in_sender inc)
                               (rq_community (in_body inc)) (in_persona inc) now) \<noteq> Matched i)"
  shows "snd (take_request sdk fid inc now b) = snd (take_request sdk fid2 (inc\<lparr>in_eligible := el\<rparr>) now b2) \<and>
    (\<exists>th. fst (take_request sdk fid inc now b) = b\<lparr>vb_throttle := th\<rparr>)"
proof -
  have same: "already_taken (inc\<lparr>in_eligible := el\<rparr>) = already_taken inc"
    by (simp add: already_taken_def fun_eq_iff)
  have frame: "\<exists>th. b = b\<lparr>vb_throttle := th\<rparr>"
    by (rule exI [of _ "vb_throttle b"]) simp
  show ?thesis
  proof (cases "rq_ticket (in_body inc)")
    case None
    with assms(3,4) frame show ?thesis
      by (auto simp: take_request_def same Let_def)
  next
    case (Some t)
    obtain th red where c: "check (vb_tickets b) (vb_throttle b) t (in_sender inc)
          (rq_community (in_body inc)) (in_persona inc) now = (th, red)" by fastforce
    with Some assms(5) have "red \<noteq> Matched i" for i by simp
    with c Some assms(1-4) frame show ?thesis
      by (cases red) (auto simp: take_request_def same Let_def)
  qed
qed

section \<open>Tickets, capacity, repeats\<close>

lemma consume_live:
  assumes "t \<in> set ts" "tk_id t = i" "is_live t now"
  shows "total_uses ts = Suc (total_uses (fst (consume ts i)))"
proof -
  have "spendable i t" using assms by (simp add: spendable_def is_live_def)
  then obtain u where "List.find (spendable i) ts = Some u"
    using assms(1) by (cases "List.find (spendable i) ts") (auto simp: find_None_iff)
  from total_uses_update [OF this] this show ?thesis by (simp add: consume_def)
qed

text \<open>A request reaches the desk only on a ticket, and pays for it: it comes from an eligible sender
  whose request has not been taken before, on a live ticket for this persona and community that offers the
  method asked for, while the persona holds fewer open requests than the policy allows; and exactly one use
  of the tickets is spent.\<close>

theorem admission_pays:
  assumes "take_request sdk fid inc now b = (b', r)" "vb_desk b' \<noteq> vb_desk b"
  shows "in_eligible inc \<and> List.find (already_taken inc) (vb_desk b) = None \<and>
    open_requests (in_persona inc) b < vp_max_open_requests (vb_policy b) \<and>
    total_uses (vb_tickets b) = Suc (total_uses (vb_tickets b')) \<and>
    (\<exists>t \<in> set (vb_tickets b). tk_persona t = in_persona inc \<and> tk_community t = rq_community (in_body inc) \<and>
       is_live t now \<and> vb_desk b' = vb_desk b @ [new_entry fid inc (tk_id t) now])"
  using assms(1)
proof (cases rule: take_request_cases)
  case (admitted th i t u)
  with consume_live [OF admitted(3,4,7)] show ?thesis by auto
qed (use assms(2) in simp_all)

text \<open>A request delivered twice is taken once: the second delivery is answered exactly as the first,
  with the same request id, and changes neither the desk nor the tickets.\<close>

theorem repeat_is_idempotent:
  assumes "take_request sdk fid inc now b = (b', IntakeAccepted body)"
  shows "take_request sdk fid2 inc later b' = (b', IntakeAccepted body)"
  using assms
proof (cases rule: take_request_cases)
  case (known e)
  then show ?thesis by (simp add: take_request_def)
next
  case (admitted th i t u)
  have "already_taken inc (new_entry fid inc i now)"
    by (simp add: already_taken_def new_entry_def)
  with admitted show ?thesis
    by (simp add: take_request_def find_append)
qed blast
section \<open>Steps of the desk\<close>

inductive desk_step :: "vetter_sdk \<Rightarrow> vetting_book \<Rightarrow> vetting_book \<Rightarrow> bool" for sdk where
  taken: "desk_step sdk b (fst (take_request sdk fid inc now b))"
| opened: "open_session sdk salt rid m req opt sid now b = Inr (b', body) \<Longrightarrow> desk_step sdk b b'"
| documented: "record_session_document rid doc b = Inr b' \<Longrightarrow> desk_step sdk b b'"
| carded: "receive_card sdk did applicant sid doc now b = Inr b' \<Longrightarrow> desk_step sdk b b'"
| signed: "record_statement sdk rid doc now b = Inr (b', issued) \<Longrightarrow> desk_step sdk b b'"
| attested: "hidden_attested rid now b = Inr b' \<Longrightarrow> desk_step sdk b b'"
| declined: "decline sdk rid code message now b = Inr (b', db) \<Longrightarrow> desk_step sdk b b'"
| withdrew: "withdrawal sdk i reason doc' now b = Inr (b', rb, issued) \<Longrightarrow> desk_step sdk b b'"
| recorded: "desk_step sdk b (on_withdrawal_recorded community doc' at b)"
| ticketed: "desk_step sdk b (b\<lparr>vb_tickets := vb_tickets b @ [t]\<rparr>)"
| pruned: "desk_step sdk b (fst (prune now b))"

inductive_cases desk_stepE: "desk_step sdk b b'"

text \<open>How a request ended, and when.\<close>

fun outcome :: "desk_state \<Rightarrow> (instant \<times> vetted_outcome) option" where
  "outcome (DeskAttested i at _) = Some (at, VettedSigned i)"
| "outcome (DeskDeclined _ at _) = Some (at, VettedDeclined)"
| "outcome _ = None"

lemma outcome_None [simp]: "outcome st = None \<longleftrightarrow> is_open st"
  by (cases st) auto

definition entry_step :: "desk_entry \<Rightarrow> desk_entry \<Rightarrow> bool" where
  "entry_step e e' \<longleftrightarrow>
     de_request_id e' = de_request_id e \<and> de_request_document_id e' = de_request_document_id e \<and>
     de_applicant e' = de_applicant e \<and> de_community e' = de_community e \<and> de_persona e' = de_persona e \<and>
     de_ticket_id e' = de_ticket_id e \<and>
     (\<not> is_open (de_state e) \<longrightarrow> outcome (de_state e') = outcome (de_state e))"

lemma entry_step_refl [simp]: "entry_step e e"
  by (simp add: entry_step_def)

lemma entry_steps_refl [simp]: "list_all2 entry_step es es"
  by (rule list.rel_refl) simp

lemma entry_step_open: "entry_step e e' \<Longrightarrow> is_open (de_state e') \<Longrightarrow> is_open (de_state e)"
  unfolding entry_step_def by (metis outcome_None)

lemma entry_update_first:
  "(\<And>e. List.find p es = Some e \<Longrightarrow> p e \<Longrightarrow> entry_step e (f e)) \<Longrightarrow> list_all2 entry_step es (update_first p f es)"
  by (induction es) (auto split: if_splits)

lemma set_desk_entry_steps:
  assumes "desk_entry rid b = Some e" "is_open (de_state e)"
  shows "list_all2 entry_step (vb_desk b) (vb_desk (set_desk_entry rid st now b))"
  unfolding set_desk_entry_def using assms
  by (auto intro!: entry_update_first simp: entry_step_def desk_entry_def)

lemma card_received_open: "card_received st = Some x \<Longrightarrow> is_open st"
  by (cases st) auto

lemma desk_session_open: "desk_session_of st = Some s \<Longrightarrow> is_open st"
  by (cases st) auto

lemma prune_entry_step: "entry_step e (prune_entry r now e)"
  by (auto simp: entry_step_def prune_entry_def expire_session_def forget_card_after_def forget_card_def
      split: desk_state.split option.split)

text \<open>Every step moves entries along, takes one in, or clears closed ones into the record of the vetted.\<close>

lemma desk_step_entries:
  assumes "desk_step sdk b b'"
  shows "(list_all2 entry_step (vb_desk b) (vb_desk b') \<and> vb_vetted b' = vb_vetted b) \<or>
    (\<exists>e. vb_desk b' = vb_desk b @ [e] \<and> open_requests (de_persona e) b < vp_max_open_requests (vb_policy b) \<and>
         vb_vetted b' = vb_vetted b) \<or>
    (\<exists>now es. list_all2 entry_step (vb_desk b) es \<and> vb_desk b' = filter (\<lambda>e. leaves_desk now e = None) es \<and>
         vb_vetted b' = vb_vetted b @ List.map_filter (leaves_desk now) es)"
  using assms
proof (cases rule: desk_step.cases)
  case (taken fid inc now)
  obtain r where "take_request sdk fid inc now b = (b', r)" using taken by (metis prod.collapse)
  then show ?thesis
    by (cases rule: take_request_cases) (auto simp: new_entry_def)
next
  case (opened salt rid m req opt sid now body)
  then show ?thesis
    by (auto simp: open_session_def result_simps Let_def set_desk_entry_steps) (simp add: set_desk_entry_def)
next
  case (documented rid doc)
  then obtain e where e: "desk_entry rid b = Some e"
    by (auto simp: record_session_document_def result_simps)
  with documented show ?thesis
    by (cases "de_state e")
       (auto simp: record_session_document_def entry_step_def desk_entry_def split: if_splits
          intro!: entry_update_first)
next
  case (carded did applicant sid doc now)
  then obtain e s received where "List.find (awaits_card applicant sid) (vb_desk b) = Some e"
    "desk_session_of (de_state e) = Some s"
    "b' = b\<lparr>vb_desk := update_first (awaits_card applicant sid)
             (\<lambda>e. e\<lparr>de_state := DeskCardReceived s received, de_updated_at := now\<rparr>) (vb_desk b)\<rparr>"
    by (auto simp: receive_card_def result_simps Let_def)
  moreover from this have "list_all2 entry_step (vb_desk b) (vb_desk b')"
    by (auto simp: entry_step_def dest: desk_session_open intro!: entry_update_first)
  ultimately show ?thesis by simp
next
  case (signed rid doc now issued)
  then obtain e s c i where "desk_entry rid b = Some e" "card_received (de_state e) = Some (s, c)"
    "b' = (set_desk_entry rid (DeskAttested i now c) now b)\<lparr>vb_issued := vb_issued b @ [issued]\<rparr>"
    by (auto simp: record_statement_def result_simps Let_def)
  then show ?thesis
    using set_desk_entry_steps [OF _ card_received_open] by (auto simp: set_desk_entry_def)
next
  case (attested rid now)
  then obtain e s c hv where "desk_entry rid b = Some e" "card_received (de_state e) = Some (s, c)"
    "b' = (set_desk_entry rid (DeskAttested (hidden_attestation_prefix @ rid) now c) now b)\<lparr>vb_hidden_vetter := hv\<rparr>"
    by (auto simp: hidden_attested_def result_simps Let_def)
  then show ?thesis
    using set_desk_entry_steps [OF _ card_received_open] by (auto simp: set_desk_entry_def)
next
  case (declined rid code message now db)
  then show ?thesis
    by (auto simp: decline_def result_simps Let_def set_desk_entry_steps) (simp add: set_desk_entry_def)
next
  case (pruned now)
  have "list_all2 entry_step (vb_desk b) (map (prune_entry (card_retention (vb_policy b)) now) (vb_desk b))"
    by (simp add: list.rel_map prune_entry_step list.rel_refl)
  with pruned show ?thesis by (auto simp: prune_def Let_def)
qed (auto simp: withdrawal_def on_withdrawal_recorded_def result_simps Let_def)

section \<open>Capacity\<close>

definition within_capacity :: "vetting_book \<Rightarrow> bool" where
  "within_capacity b \<longleftrightarrow> (\<forall>persona. open_requests persona b \<le> vp_max_open_requests (vb_policy b))"

lemma open_filter_le:
  "list_all2 entry_step es es' \<Longrightarrow>
     length (filter (\<lambda>e. de_persona e = p \<and> is_open (de_state e)) es')
       \<le> length (filter (\<lambda>e. de_persona e = p \<and> is_open (de_state e)) es)"
proof (induction rule: list_all2_induct)
  case (Cons e es e' es')
  then show ?case
    using entry_step_open [of e e'] by (auto simp: entry_step_def)
qed simp

lemma filter_filter_le: "length (filter p (filter q xs)) \<le> length (filter p xs)"
  by (induction xs) auto

lemma set_desk_entry_policy [simp]: "vb_policy (set_desk_entry rid st now b) = vb_policy b"
  by (simp add: set_desk_entry_def)

lemma desk_step_policy: "desk_step sdk b b' \<Longrightarrow> vb_policy b' = vb_policy b"
proof (erule desk_step.cases)
  fix b0 fid inc now
  assume step: "b = b0" "b' = fst (take_request sdk fid inc now b0)"
  obtain r where "take_request sdk fid inc now b0 = (b', r)" using step by (metis prod.collapse)
  then have "vb_policy b' = vb_policy b0" by (cases rule: take_request_cases) simp_all
  with step show ?thesis by simp
next
  fix rid doc b0 b1
  assume "record_session_document rid doc b0 = Inr b1" "b = b0" "b' = b1"
  then show ?thesis
    by (cases "desk_entry rid b0"; cases "de_state (the (desk_entry rid b0))")
       (auto simp: record_session_document_def split: if_splits)
qed (auto simp: open_session_def receive_card_def record_statement_def hidden_attested_def decline_def
    withdrawal_def on_withdrawal_recorded_def prune_def result_simps Let_def)

lemma within_capacity_step: "desk_step sdk b b' \<Longrightarrow> within_capacity b \<Longrightarrow> within_capacity b'"
proof -
  assume step: "desk_step sdk b b'" and cap: "within_capacity b"
  have "open_requests p b' \<le> vp_max_open_requests (vb_policy b)" for p
  proof -
    from cap have old: "open_requests p b \<le> vp_max_open_requests (vb_policy b)"
      by (simp add: within_capacity_def)
    from desk_step_entries [OF step] show ?thesis
    proof (elim disjE exE conjE)
      assume "list_all2 entry_step (vb_desk b) (vb_desk b')"
      with old open_filter_le [OF this, of p] show ?thesis by (simp add: open_requests_def)
    next
      fix e assume "vb_desk b' = vb_desk b @ [e]" "open_requests (de_persona e) b < vp_max_open_requests (vb_policy b)"
      with old show ?thesis by (auto simp: open_requests_def)
    next
      fix now es assume "list_all2 entry_step (vb_desk b) es" "vb_desk b' = filter (\<lambda>e. leaves_desk now e = None) es"
      with old open_filter_le [of "vb_desk b" es p]
        filter_filter_le [of "\<lambda>e. de_persona e = p \<and> is_open (de_state e)" "\<lambda>e. leaves_desk now e = None" es]
      show ?thesis by (simp add: open_requests_def)
    qed
  qed
  then show "within_capacity b'"
    by (simp add: within_capacity_def desk_step_policy [OF step])
qed

interpretation capacity: preserved "desk_step sdk" within_capacity for sdk
  by unfold_locales (rule within_capacity_step)

text \<open>(C34) A persona never holds more open requests than its policy allows, however requests, sessions,
  cards, statements, refusals and time interleave.\<close>

theorem capacity_kept:
  assumes "(desk_step sdk)\<^sup>*\<^sup>* b b'" "\<forall>p. open_requests p b \<le> vp_max_open_requests (vb_policy b)"
  shows "open_requests persona b' \<le> vp_max_open_requests (vb_policy b')"
  using capacity.inv_steps [OF assms(1)] assms(2) by (simp add: within_capacity_def)

section \<open>Closed is final\<close>

definition ended :: "string \<Rightarrow> string \<Rightarrow> instant \<times> vetted_outcome \<Rightarrow> vetting_book \<Rightarrow> bool" where
  "ended rid community o' b \<longleftrightarrow>
     list_ex (\<lambda>e. de_request_id e = rid \<and> de_community e = community \<and> outcome (de_state e) = Some o') (vb_desk b) \<or>
     \<lparr>vd_community = community, vd_closed_at = fst o', vd_outcome = snd o'\<rparr> \<in> set (vb_vetted b)"

lemma closed_outcome: "closed e = Some o' \<Longrightarrow> outcome (de_state e) = Some o'"
  by (auto simp: closed_def split: desk_state.splits if_splits)

lemma ended_step: "desk_step sdk b b' \<Longrightarrow> ended rid community o' b \<Longrightarrow> ended rid community o' b'"
proof -
  assume step: "desk_step sdk b b'" and "ended rid community o' b"
  let ?here = "\<lambda>e. de_request_id e = rid \<and> de_community e = community \<and> outcome (de_state e) = Some o'"
  let ?rec = "\<lparr>vd_community = community, vd_closed_at = fst o', vd_outcome = snd o'\<rparr>"
  from \<open>ended rid community o' b\<close> consider (rec) "?rec \<in> set (vb_vetted b)"
    | (desk) e where "e \<in> set (vb_desk b)" "?here e"
    by (auto simp: ended_def list_ex_iff)
  then show "ended rid community o' b'"
  proof cases
    case rec
    with desk_step_entries [OF step] show ?thesis by (auto simp: ended_def)
  next
    case (desk e)
    have moved: "\<exists>e' \<in> set es. ?here e'" if "list_all2 entry_step (vb_desk b) es" for es
    proof -
      from list_all2_forth [OF that desk(1)] obtain e' where "e' \<in> set es" "entry_step e e'" by blast
      moreover have "\<not> is_open (de_state e)"
        using desk(2) by (metis outcome_None option.distinct(1))
      ultimately show ?thesis using desk(2) by (auto simp: entry_step_def)
    qed
    from desk_step_entries [OF step] show ?thesis
    proof (elim disjE exE conjE)
      assume "list_all2 entry_step (vb_desk b) (vb_desk b')"
      from moved [OF this] show ?thesis by (auto simp: ended_def list_ex_iff)
    next
      fix x assume "vb_desk b' = vb_desk b @ [x]"
      with desk show ?thesis by (auto simp: ended_def list_ex_iff)
    next
      fix now es
      assume es: "list_all2 entry_step (vb_desk b) es" "vb_desk b' = filter (\<lambda>e. leaves_desk now e = None) es"
        "vb_vetted b' = vb_vetted b @ List.map_filter (leaves_desk now) es"
      from moved [OF es(1)] obtain e' where e': "e' \<in> set es" "?here e'" by blast
      show ?thesis
      proof (cases "leaves_desk now e'")
        case None
        with e' es show ?thesis by (auto simp: ended_def list_ex_iff)
      next
        case (Some v)
        then have "v = ?rec"
          using e'(2) closed_outcome [of e'] by (cases o') (auto simp: leaves_desk_def split: option.splits if_splits)
        with Some e' es(3) show ?thesis by (force simp: ended_def List.map_filter_def)
      qed
    qed
  qed
qed

interpretation ending: preserved "desk_step sdk" "ended rid community o'" for sdk rid community o'
  by unfold_locales (rule ended_step)

text \<open>Closed is final. A request that was signed or declined is never reopened, signed again or
  declined again by anything the desk does: from then on it is on the desk with that outcome, under that
  statement id and time, or in the record of the vetted with the same.\<close>

theorem closed_stays_closed:
  assumes "(desk_step sdk)\<^sup>*\<^sup>* b b'" "e \<in> set (vb_desk b)" "outcome (de_state e) = Some (at, how)"
  shows "ended (de_request_id e) (de_community e) (at, how) b'"
proof -
  have "ended (de_request_id e) (de_community e) (at, how) b"
    using assms(2,3) by (auto simp: ended_def list_ex_iff)
  with ending.inv_steps [OF assms(1)] show ?thesis .
qed

end
