(* ===== verification/DeskStatement.thy ===== *)
theory DeskStatement
  imports DeskFlow
begin

text \<open>
  What a statement signed at the desk rests on, what prune forgets and keeps, and a concrete desk on which
  the properties of \<open>DeskFlow\<close> and of this theory are applied.
\<close>

section \<open>Signing\<close>

text \<open>(C26) A statement is only drafted from what the vetter checked. The request holds a verified card; the
  two people confirmed the match code and some documentation was relied on, unless the vetter knew the
  applicant before; every claim marked verified is on the card and every claim the session requires is
  marked; and the draft names the applicant, the community, this card by digest and commitment and this
  session by its document, for a validity of at least a day.\<close>

theorem statement_draft_sound:
  assumes "statement_draft sdk uuid rid did att now b = Inr d"
  shows "\<exists>e s c doc. desk_entry rid b = Some e \<and> de_state e = DeskCardReceived s c \<and>
    ds_document s = Some doc \<and> sd_session d = doc \<and> sd_issuer d = did \<and> sd_subject d = de_applicant e \<and>
    vv_community (sd_value d) = de_community e \<and>
    vv_card_digest (sd_value d) = Some (rc_digest c) \<and>
    vv_identity_commitment (sd_value d) = Some (rc_identity_commitment c) \<and>
    (at_method att \<noteq> PriorAcquaintance \<longrightarrow>
       vv_liveness_confirmed (sd_value d) \<and> vv_document_classes (sd_value d) \<noteq> []) \<and>
    set (ds_required_claims s) \<subseteq> set (vv_claims_verified (sd_value d)) \<and>
    set (vv_claims_verified (sd_value d)) \<subseteq> cc_type ` set (rc_claims c) \<and>
    sd_valid_from d = now \<and> now + days 1 \<le> sd_valid_until d"
proof -
  obtain e s c where e: "desk_entry rid b = Some e" "card_received (de_state e) = Some (s, c)"
    using assms by (auto simp: statement_draft_def result_simps)
  then have st: "de_state e = DeskCardReceived s c"
    by (cases "de_state e") auto
  obtain classes where classes: "collect_results (\<lambda>d. ok_or DeskShape (statement_documentation sdk d))
      (filter (\<lambda>d. d \<noteq> documentation_none sdk) (at_document_classes att)) = Inr classes"
    and live: "at_method att \<noteq> PriorAcquaintance \<longrightarrow> at_liveness_confirmed att \<and> classes \<noteq> []"
    using assms e by (auto simp: statement_draft_def result_simps Let_def)
  have on_card: "List.find (\<lambda>t. \<not> list_ex (\<lambda>cl. cc_type cl = t) (rc_claims c)) (at_claims_verified att) = None"
    and required: "List.find (\<lambda>t. t \<notin> set (at_claims_verified att)) (ds_required_claims s) = None"
    using assms e classes live by (auto simp: statement_draft_def result_simps Let_def split: option.splits)
  from assms e classes live on_card required obtain doc where doc: "ds_document s = Some doc" and
    d: "d = \<lparr>sd_id = ''urn:uuid:'' @ uuid, sd_issuer = did, sd_issuer_scope = ''directed'',
             sd_subject = de_applicant e,
             sd_value = \<lparr>vv_community = de_community e, vv_method = at_method att,
                  vv_document_classes = classes, vv_claims_verified = at_claims_verified att,
                  vv_liveness_confirmed = at_liveness_confirmed att,
                  vv_identity_commitment = Some (rc_identity_commitment c), vv_card_digest = Some (rc_digest c),
                  vv_declared_relationship = Some (at_declared_relationship att),
                  vv_attestation_text_digest = at_attestation_text_digest att\<rparr>,
             sd_valid_from = now, sd_valid_until = now + statement_validity (vb_policy b), sd_session = doc\<rparr>"
    by (auto simp: statement_draft_def result_simps Let_def)
  have "set (at_claims_verified att) \<subseteq> cc_type ` set (rc_claims c)"
    using on_card by (auto simp: find_None_iff list_ex_iff)
  moreover have "set (ds_required_claims s) \<subseteq> set (at_claims_verified att)"
    using required by (auto simp: find_None_iff)
  moreover have "days 1 \<le> statement_validity (vb_policy b)"
    by (simp add: statement_validity_def)
  ultimately show ?thesis
    using e(1) st doc live by (simp add: d)
qed

text \<open>A vetter whose documentation list the published response cannot carry answers \<open>declined\<close>, and
  yet takes the request: it is on the desk, counts against the capacity, and a use of the ticket is spent,
  although the applicant is told it was not taken.\<close>

theorem declined_but_taken:
  assumes "take_request sdk fid inc now b = (b', IntakeRefused DeclinedError)"
    and "vb_desk b' \<noteq> vb_desk b"
  shows "open_requests (in_persona inc) b' = Suc (open_requests (in_persona inc) b) \<and>
    total_uses (vb_tickets b) = Suc (total_uses (vb_tickets b')) \<and>
    accepted_reply sdk (vb_policy b) (last (vb_desk b')) = None"
  using assms(1)
proof (cases rule: take_request_cases)
  case (admitted th i t u)
  with consume_live [OF admitted(3,4,7)] show ?thesis
    by (auto simp: open_requests_def new_entry_def accept_def split: option.splits)
qed (use assms(2) in simp_all)

section \<open>Reopening\<close>

lemma open_session_ok:
  assumes "open_session sdk salt rid m req opt sid now b = Inr (b', body)"
  obtains e challenge token where "desk_entry rid b = Some e" "is_open (de_state e)" "salt = Some challenge"
    "session_method sdk m = Some token"
    "body = session_payload rid e challenge token req opt (now + session_length (vb_policy b))"
    "session_ok sdk body"
    "b' = set_desk_entry rid (DeskInSession
            \<lparr>ds_id = sid, ds_challenge = challenge, ds_method = m, ds_required_claims = req,
             ds_optional_claims = opt, ds_expires_at = now + session_length (vb_policy b),
             ds_match_code = match_code_of sdk sid, ds_document = None\<rparr>) now b"
  using assms by (auto simp: open_session_def result_simps Let_def session_payload_def)

text \<open>Reopening a session replaces it: a card for any other session id of the same request is refused,
  whatever it proves, once the new session is open.\<close>

theorem reopened_refuses_old_card:
  assumes "open_session sdk salt rid m req opt sid now b = Inr (b', body)"
    and "desk_entry rid b = Some e" "old \<noteq> sid"
    and "\<forall>x \<in> set (vb_desk b). de_applicant x = de_applicant e \<longrightarrow> de_request_id x \<noteq> rid \<longrightarrow>
           map_option ds_id (desk_session_of (de_state x)) \<noteq> Some old"
    and "distinct (map de_request_id (vb_desk b))"
  shows "receive_card sdk did (de_applicant e) old doc later b' = Inl NoSuchRequest"
proof -
  obtain s where s: "ds_id s = sid" and b': "b' = set_desk_entry rid (DeskInSession s) now b"
    by (rule open_session_ok [OF assms(1)]) (metis desk_session.select_convs(1))
  have "\<not> awaits_card (de_applicant e) old x" if x: "x \<in> set (vb_desk b')" for x
  proof -
    let ?f = "\<lambda>e. e\<lparr>de_state := DeskInSession s, de_updated_at := now\<rparr>"
    from find_SomeD [OF assms(2) [unfolded desk_entry_def]] obtain us vs where
      split: "vb_desk b = us @ e # vs" "vb_desk b' = us @ ?f e # vs" "de_request_id e = rid"
      using update_first_split [OF assms(2) [unfolded desk_entry_def], of ?f] by (auto simp: b' set_desk_entry_def)
    show ?thesis
    proof (cases "x = ?f e")
      case True
      with s assms(3) show ?thesis by (simp add: awaits_card_def)
    next
      case False
      with x split have "x \<in> set us \<union> set vs" by auto
      moreover have "rid \<notin> de_request_id ` (set us \<union> set vs)"
        using assms(5) split by auto
      ultimately have "x \<in> set us \<union> set vs" "de_request_id x \<noteq> rid" by blast+
      then show ?thesis
        using assms(4) split(1) by (auto simp: awaits_card_def)
    qed
  qed
  then have "List.find (awaits_card (de_applicant e) old) (vb_desk b') = None"
    by (simp add: find_None_iff)
  then show ?thesis by (simp add: receive_card_def)
qed
section \<open>Letting time pass\<close>

lemma leaves_desk_open: "is_open (de_state e) \<Longrightarrow> leaves_desk now e = None"
  by (cases "de_state e") (simp_all add: leaves_desk_def closed_def)

lemma prune_entry_idem: "prune_entry r now (prune_entry r now e) = prune_entry r now e"
  by (cases "de_state e")
     (auto simp: prune_entry_def expire_session_def forget_card_after_def forget_card_def forgets_def split: option.split)

lemma entry_pruned_after: "\<not> entry_pruned r now (prune_entry r now e)"
  by (cases "de_state e")
     (auto simp: entry_pruned_def prune_entry_def expire_session_def forget_card_after_def forget_card_def forgets_def split: option.split)

lemma lapse_session_idem: "lapse_session now (lapse_session now r) = lapse_session now r"
  by (auto simp: lapse_session_def split: request_state.split)

lemma lapse_sessions_idem: "lapse_sessions now (lapse_sessions now a) = lapse_sessions now a"
  by (simp add: lapse_sessions_def lapse_session_idem)

lemma prune_open:
  "is_open (de_state (prune_entry r now e)) = is_open (de_state e)" "de_persona (prune_entry r now e) = de_persona e"
  by (simp_all add: prune_entry_def expire_session_frame forget_card_after_frame)

lemma prune_open_requests: "open_requests p (fst (prune now b)) = open_requests p b"
proof -
  let ?open = "\<lambda>e. de_persona e = p \<and> is_open (de_state e)"
  have "length (filter ?open (filter (\<lambda>e. leaves_desk now e = None) (map (prune_entry r now) es)))
      = length (filter ?open es)" for r es
    by (induction es) (auto simp: prune_open leaves_desk_open)
  then show ?thesis
    by (simp add: open_requests_def prune_def Let_def)
qed

lemma map_filter_length: "length (filter (\<lambda>e. f e = None) es) + length (List.map_filter f es) = length es"
  by (induction es) (auto simp: List.map_filter_def)

text \<open>Letting time pass loses nothing that is still wanted, and settles at once. No open request and no
  live ticket is dropped; every request that leaves the desk is in the record of the vetted; on what stays,
  no session is past its expiry and no card is kept past its retention; and doing it again at the same
  instant changes nothing.\<close>

theorem prune_settles:
  "open_requests p (fst (prune now b)) = open_requests p b \<and>
   (\<forall>t \<in> set (vb_tickets b). is_live t now \<longrightarrow> t \<in> set (vb_tickets (fst (prune now b)))) \<and>
   length (vb_desk (fst (prune now b))) + length (vb_vetted (fst (prune now b)))
     = length (vb_desk b) + length (vb_vetted b) \<and>
   (\<forall>e \<in> set (vb_desk (fst (prune now b))).
      (\<forall>s. de_state e = DeskInSession s \<longrightarrow> now < ds_expires_at s) \<and>
      (\<forall>i at c. de_state e = DeskAttested i at c \<longrightarrow>
         card_retention (vb_policy b) \<le> now - at \<longrightarrow> rc_card c = None)) \<and>
   prune now (fst (prune now b)) = (fst (prune now b), False)"
proof -
  let ?r = "card_retention (vb_policy b)"
  let ?desk = "map (prune_entry ?r now) (vb_desk b)"
  have "\<forall>t \<in> set (vb_tickets b). is_live t now \<longrightarrow> t \<in> set (vb_tickets (fst (prune now b)))"
    by (simp add: prune_def Let_def ticket_kept_def)
  moreover have "length (vb_desk (fst (prune now b))) + length (vb_vetted (fst (prune now b)))
      = length (vb_desk b) + length (vb_vetted b)"
    using map_filter_length [of "leaves_desk now" ?desk] by (simp add: prune_def Let_def)
  moreover have "(\<forall>s. de_state e = DeskInSession s \<longrightarrow> now < ds_expires_at s) \<and>
      (\<forall>i at c. de_state e = DeskAttested i at c \<longrightarrow> ?r \<le> now - at \<longrightarrow> rc_card c = None)"
    if "e \<in> set (vb_desk (fst (prune now b)))" for e
  proof -
    from that obtain e0 where "e = prune_entry ?r now e0"
      by (auto simp: prune_def Let_def)
    then show ?thesis
      by (auto simp: prune_entry_def expire_session_def forget_card_after_def forget_card_def forgets_def
          split: desk_state.splits option.splits if_splits)
  qed
  moreover have "prune now (fst (prune now b)) = (fst (prune now b), False)"
  proof -
  have kept: "map (prune_entry ?r now) (filter (\<lambda>e. leaves_desk now e = None) ?desk)
      = filter (\<lambda>e. leaves_desk now e = None) ?desk"
    by (rule map_idI) (auto simp: prune_entry_idem)
  have still: "\<not> list_ex (entry_pruned ?r now) (filter (\<lambda>e. leaves_desk now e = None) ?desk)"
    by (auto simp: list_ex_iff entry_pruned_after)
  have none: "List.map_filter (leaves_desk now) (filter (\<lambda>e. leaves_desk now e = None) ?desk) = []"
    by (auto simp: List.map_filter_def filter_empty_conv)
  show ?thesis
    using kept still none
    by (auto simp: prune_def Let_def comp_def prune_entry_idem lapse_sessions_idem list_ex_iff lapse_sessions_def lapse_session_idem)
qed
  ultimately show ?thesis
    by (simp add: prune_open_requests)
qed

section \<open>A desk\<close>

text \<open>A vetter with one ticket; the SDK takes everything, and reads no documentation but a passport.\<close>

definition desk_sdk :: vetter_sdk where
  "desk_sdk = \<lparr>documentation_none = ''none'', documentation_defaults = [''passport''],
     check_request = (\<lambda>_ _. True), request_documentation = (\<lambda>d. if d = ''passport'' then Some d else None),
     response_ok = (\<lambda>_. True), request_method = (\<lambda>_. Some Video), session_method = (\<lambda>_. Some ''video''),
     session_claim_ok = (\<lambda>_. True), session_ok = (\<lambda>_. True), match_code_of = (\<lambda>_. ''red fox''),
     verify_card = (\<lambda>_ _. Some \<lparr>vc_id = ''c1'', vc_digest = ''zCard'', vc_identity_commitment = ''zId'',
       vc_claims = [\<lparr>cc_type = ''name.legal'', cc_value = JString ''Ada'', cc_provenance = ''selfAsserted''\<rparr>]\<rparr>),
     statement_documentation = (\<lambda>d. Some d), claim_type_ok = (\<lambda>_. True), vetted_value_ok = (\<lambda>_. True),
     verify_statement = (\<lambda>_ _. None), decline_ok = (\<lambda>_. True), revoke_ok = (\<lambda>_. True)\<rparr>"

definition desk_book :: vetting_book where
  "desk_book = \<lparr>vb_applications = [], vb_tickets = [desk_ticket], vb_desk = [], vb_issued = [], vb_vetted = [],
     vb_throttle = \<lparr>gt_wrong = []\<rparr>, vb_criteria = [], vb_policy = default_policy desk_sdk,
     vb_vetter_grants = [], vb_grant_warnings = [], vb_communities = [], vb_vetter_profiles = [],
     vb_hidden_vetter = [], vb_hidden_published = [], vb_retired = [], vb_vetter_refresh_due = False,
     vb_vetter_refresh_failures = 0, vb_queries = [], vb_draws_in_flight = [], vb_pcs_inbox = [],
     vb_pcs_due = False, vb_pcs_retry_at = None, vb_pcs_failures = 0, vb_mode_checks = [], vb_mode_switches = [],
     vb_extra = []\<rparr>"

definition desk_body :: request_body where
  "desk_body = \<lparr>rq_community = ''did:webvh:vtc'', rq_join_did = ''did:alice'',
     rq_ticket = Some (QrTicket ''vt-7f'' ''c2VjcmV0''), rq_introduction = [], rq_requirements_digest = None,
     rq_preferred_method = None, rq_languages = None, rq_message = None, rq_availability = None, rq_ext = None\<rparr>"

definition alice_asks :: incoming_request where
  "alice_asks = \<lparr>in_document_id = ''d1'', in_sender = ''did:alice'', in_persona = 7, in_body = desk_body,
     in_eligible = True\<rparr>"

lemmas desk_defs = desk_sdk_def desk_book_def desk_body_def alice_asks_def desk_ticket_def issue_def is_live_def
  default_validity_def default_policy_def

definition alice_entry :: desk_entry where
  "alice_entry = new_entry ''r1'' alice_asks ''vt-7f'' 1"

definition alice_reply :: request_response where
  "alice_reply = \<lparr>rr_request_id = ''r1'', rr_accepts_documentation = Some [''passport''], rr_session_hint = None\<rparr>"

definition book_1 :: vetting_book where
  "book_1 = desk_book\<lparr>vb_tickets := [spend desk_ticket], vb_desk := [alice_entry]\<rparr>"

lemma alice_fields [simp]:
  "de_request_id alice_entry = ''r1''" "de_state alice_entry = DeskAccepted" "de_applicant alice_entry = ''did:alice''"
  "de_community alice_entry = ''did:webvh:vtc''" "de_persona alice_entry = 7"
  "de_request_document_id alice_entry = ''d1''"
  by (simp_all add: alice_entry_def new_entry_def alice_asks_def desk_body_def)

lemma alice_accepted: "accept desk_sdk (default_policy desk_sdk) alice_entry = IntakeAccepted alice_reply"
  by (simp add: accept_def accepted_reply_def alice_reply_def desk_sdk_def default_policy_def)

lemma alice_taken: "take_request desk_sdk ''r1'' alice_asks 1 desk_book = (book_1, IntakeAccepted alice_reply)"
proof -
  have "check [desk_ticket] \<lparr>gt_wrong = []\<rparr> (QrTicket ''vt-7f'' ''c2VjcmV0'') ''did:alice''
          ''did:webvh:vtc'' 7 1 = (\<lparr>gt_wrong = []\<rparr>, Matched ''vt-7f'')"
    by (simp add: desk_ticket_def issue_def is_live_def default_validity_def max_def)
  moreover have "tk_id desk_ticket = ''vt-7f''" "offers desk_ticket None" "spendable ''vt-7f'' desk_ticket"
    by (simp_all add: desk_ticket_def issue_def offers_def spendable_def max_def)
  moreover have "default_policy desk_sdk = vb_policy desk_book" by (simp add: desk_book_def)
  moreover have "vp_max_open_requests (default_policy desk_sdk) = 10" by (simp add: default_policy_def)
  ultimately show ?thesis
    using alice_accepted
    by (simp add: take_request_def admit_def book_1_def desk_book_def alice_entry_def alice_asks_def desk_body_def
        open_requests_def consume_def Let_def desk_sdk_def)
qed

theorem admission_pays_witness: "total_uses (vb_tickets desk_book) = Suc (total_uses (vb_tickets book_1))"
  using admission_pays [OF alice_taken] by (simp add: book_1_def desk_book_def)

theorem repeat_is_idempotent_witness:
  "take_request desk_sdk ''r2'' alice_asks 5 book_1 = (book_1, IntakeAccepted alice_reply)"
  by (rule repeat_is_idempotent [OF alice_taken])

theorem acceptance_documents_witness: "distinct [''passport'']"
  using acceptance_documents [OF alice_accepted] by (simp add: alice_reply_def)

theorem stranger_learns_nothing_witness:
  "snd (take_request desk_sdk ''r1'' (alice_asks\<lparr>in_body := desk_body\<lparr>rq_ticket := Some (QrTicket ''vt-7f'' ''guess'')\<rparr>\<rparr>) 1 desk_book)
     = snd (take_request desk_sdk ''r9''
         (alice_asks\<lparr>in_body := desk_body\<lparr>rq_ticket := Some (QrTicket ''vt-7f'' ''guess'')\<rparr>, in_eligible := False\<rparr>) 1
         (desk_book\<lparr>vb_policy := (default_policy desk_sdk)\<lparr>vp_max_open_requests := 0\<rparr>\<rparr>))"
proof -
  let ?inc = "alice_asks\<lparr>in_body := desk_body\<lparr>rq_ticket := Some (QrTicket ''vt-7f'' ''guess'')\<rparr>\<rparr>"
  have "snd (check [desk_ticket] th (QrTicket ''vt-7f'' ''guess'') s c p n) \<noteq> Matched i" for th s c p n i
    by (simp add: desk_ticket_def issue_def split: option.split)
  then show ?thesis
    using stranger_learns_nothing [of desk_book
        "desk_book\<lparr>vb_policy := (default_policy desk_sdk)\<lparr>vp_max_open_requests := 0\<rparr>\<rparr>" ?inc 1 desk_sdk "''r1''" "''r9''" False]
    by (simp add: desk_book_def)
qed

theorem capacity_kept_witness: "open_requests 7 book_1 \<le> vp_max_open_requests (vb_policy book_1)"
proof -
  have "desk_step desk_sdk desk_book book_1"
    using desk_step.taken [of desk_sdk desk_book "''r1''" alice_asks 1] by (simp add: alice_taken)
  then show ?thesis
    by (rule capacity_kept [OF r_into_rtranclp]) (simp add: desk_book_def open_requests_def)
qed

definition alice_session :: desk_session where
  "alice_session = \<lparr>ds_id = ''s1'', ds_challenge = ''n'', ds_method = Video, ds_required_claims = [''name.legal''],
     ds_optional_claims = [], ds_expires_at = 1 + minutes 15, ds_match_code = ''red fox'',
     ds_document = Some (JObject [(''id'', JString ''s1'')])\<rparr>"

definition alice_card :: received_card where
  "alice_card = \<lparr>rc_digest = ''zCard'', rc_identity_commitment = ''zId'',
     rc_claims = [\<lparr>cc_type = ''name.legal'', cc_value = JString ''Ada'', cc_provenance = ''selfAsserted''\<rparr>],
     rc_card = Some JNull, rc_received_at = 2\<rparr>"

definition book_2 :: vetting_book where
  "book_2 = book_1\<lparr>vb_desk := [alice_entry\<lparr>de_state := DeskCardReceived alice_session alice_card\<rparr>]\<rparr>"

definition alice_checked :: attestation where
  "alice_checked = \<lparr>at_method = Video, at_document_classes = [''passport''], at_claims_verified = [''name.legal''],
     at_liveness_confirmed = True, at_declared_relationship = ''none'', at_attestation_text_digest = None\<rparr>"

theorem statement_draft_sound_witness:
  "\<exists>d. statement_draft desk_sdk ''u'' ''r1'' ''did:v'' alice_checked 3 book_2 = Inr d \<and>
     vv_card_digest (sd_value d) = Some ''zCard'' \<and> 3 + days 1 \<le> sd_valid_until d"
proof -
  obtain d where d: "statement_draft desk_sdk ''u'' ''r1'' ''did:v'' alice_checked 3 book_2 = Inr d"
    by (simp add: statement_draft_def desk_entry_def book_2_def alice_session_def alice_card_def alice_checked_def
        desk_sdk_def Let_def)
  have "desk_entry ''r1'' book_2 = Some (alice_entry\<lparr>de_state := DeskCardReceived alice_session alice_card\<rparr>)"
    by (simp add: desk_entry_def book_2_def)
  with statement_draft_sound [OF d] d show ?thesis by (auto simp: alice_card_def)
qed

theorem closed_stays_closed_witness:
  "ended ''r1'' ''did:webvh:vtc'' (3, VettedDeclined)
     (fst (prune (3 + hours 1) (book_1\<lparr>vb_desk := [alice_entry\<lparr>de_state := DeskDeclined None 3 None\<rparr>]\<rparr>)))"
proof -
  let ?b = "book_1\<lparr>vb_desk := [alice_entry\<lparr>de_state := DeskDeclined None 3 None\<rparr>]\<rparr>"
  have "desk_step desk_sdk ?b (fst (prune (3 + hours 1) ?b))" by (rule desk_step.pruned)
  then have "(desk_step desk_sdk)\<^sup>*\<^sup>* ?b (fst (prune (3 + hours 1) ?b))" ..
  from closed_stays_closed [OF this, of "alice_entry\<lparr>de_state := DeskDeclined None 3 None\<rparr>" 3 VettedDeclined]
  show ?thesis by simp
qed

definition vague_book :: vetting_book where
  "vague_book = desk_book\<lparr>vb_policy := (default_policy desk_sdk)\<lparr>vp_accepts_documentation := [''library card'']\<rparr>\<rparr>"

lemma vague_answer:
  "take_request desk_sdk ''r1'' alice_asks 1 vague_book
     = (vague_book\<lparr>vb_tickets := [spend desk_ticket], vb_desk := [alice_entry]\<rparr>, IntakeRefused DeclinedError)"
proof -
  have "check [desk_ticket] \<lparr>gt_wrong = []\<rparr> (QrTicket ''vt-7f'' ''c2VjcmV0'') ''did:alice''
          ''did:webvh:vtc'' 7 1 = (\<lparr>gt_wrong = []\<rparr>, Matched ''vt-7f'')"
    by (simp add: desk_ticket_def issue_def is_live_def default_validity_def max_def)
  moreover have "tk_id desk_ticket = ''vt-7f''" "offers desk_ticket None" "spendable ''vt-7f'' desk_ticket"
    by (simp_all add: desk_ticket_def issue_def offers_def spendable_def max_def)
  moreover have "vp_max_open_requests (default_policy desk_sdk) = 10" by (simp add: default_policy_def)
  ultimately show ?thesis
    by (simp add: take_request_def admit_def vague_book_def desk_book_def alice_entry_def alice_asks_def desk_body_def
        open_requests_def consume_def Let_def desk_sdk_def accept_def accepted_reply_def)
qed

theorem declined_but_taken_witness:
  "open_requests 7 (fst (take_request desk_sdk ''r1'' alice_asks 1 vague_book)) = Suc (open_requests 7 vague_book)"
proof -
  have "in_persona alice_asks = 7" by (simp add: alice_asks_def)
  moreover have "vb_desk (vague_book\<lparr>vb_tickets := [spend desk_ticket], vb_desk := [alice_entry]\<rparr>) \<noteq> vb_desk vague_book"
    by (simp add: vague_book_def desk_book_def)
  ultimately show ?thesis using declined_but_taken [OF vague_answer] by (simp add: vague_answer)
qed

theorem reopened_refuses_old_card_witness:
  "\<exists>b'. receive_card desk_sdk ''did:v'' ''did:alice'' ''s1'' JNull 4 b' = Inl NoSuchRequest"
proof -
  obtain b' body where o': "open_session desk_sdk (Some ''n2'') ''r1'' Video [''name.legal''] [] ''s2'' 4 book_2 = Inr (b', body)"
    by (simp add: open_session_def desk_entry_def book_2_def desk_sdk_def Let_def)
  have "desk_entry ''r1'' book_2 = Some (alice_entry\<lparr>de_state := DeskCardReceived alice_session alice_card\<rparr>)"
    by (simp add: desk_entry_def book_2_def)
  from reopened_refuses_old_card [OF o' this, where old = "''s1''" and did = "''did:v''" and doc = JNull and later = 4]
  show ?thesis by (intro exI [of _ b']) (simp add: book_2_def)
qed

theorem prune_settles_witness:
  "length (vb_vetted (fst (prune (3 + hours 1) (book_1\<lparr>vb_desk := [alice_entry\<lparr>de_state := DeskDeclined None 3 None\<rparr>]\<rparr>)))) = 1"
proof -
  let ?b = "book_1\<lparr>vb_desk := [alice_entry\<lparr>de_state := DeskDeclined None 3 None\<rparr>]\<rparr>"
  have "vb_desk (fst (prune (3 + hours 1) ?b)) = []"
    by (simp add: prune_def prune_entry_def expire_session_def forget_card_after_def leaves_desk_def closed_def
        closed_grace_def Let_def)
  with prune_settles [of 7 "3 + hours 1" ?b] show ?thesis
    by (simp add: book_1_def desk_book_def)
qed

end
