(* ===== verification/Handshake.thy ===== *)
theory Handshake
  imports ApplicantFlow DeskStatement
begin

text \<open>
  The two sides together: what the vetter's desk (\<open>vetter.rs\<close>) sends is what the applicant's client
  (\<open>applicant.rs\<close>) accepts, step by step, from the session to the signed statement. The sides share no
  state; each message is given as the payload one produced and the other reads, and what the SDK does to
  it in between (signing, verifying) is a hypothesis.
\<close>

section \<open>One SDK on both sides\<close>

text \<open>
  Both sides run the same SDK: the checks they share are the same functions, a method's token names it, and
  a vetter's members are the three of a value that carries them.
\<close>

definition one_sdk :: "vetter_sdk \<Rightarrow> applicant_sdk \<Rightarrow> bool" where
  "one_sdk v s \<longleftrightarrow>
     session_ok v = sdk_session_ok s \<and> match_code_of v = sdk_match_code s \<and>
     verify_card v = sdk_verify_card s \<and> verify_statement v = sdk_verify_statement s \<and>
     (\<forall>m t. session_method v m = Some t \<longrightarrow> sdk_method_of s t = Some m) \<and>
     (\<forall>x i c r. vv_identity_commitment x = Some i \<longrightarrow> vv_card_digest x = Some c \<longrightarrow>
        vv_declared_relationship x = Some r \<longrightarrow>
        sdk_vetter_members s x
          = Some \<lparr>vm_identity_commitment = i, vm_card_digest = c, vm_declared_relationship = r\<rparr>)"

text \<open>The two records of one session.\<close>

definition same_session :: "desk_session \<Rightarrow> open_session \<Rightarrow> bool" where
  "same_session ds s \<longleftrightarrow>
     ds_id ds = os_id s \<and> ds_challenge ds = os_challenge s \<and> ds_method ds = os_method s \<and>
     ds_required_claims ds = os_required_claims s \<and> ds_optional_claims ds = os_optional_claims s \<and>
     ds_expires_at ds = os_expires_at s \<and> ds_match_code ds = os_match_code s \<and>
     ds_document ds = os_document s"

section \<open>The session\<close>

lemma desk_entry_set:
  "desk_entry rid b = Some e \<Longrightarrow>
     desk_entry rid (set_desk_entry rid st now b) = Some (e\<lparr>de_state := st, de_updated_at := now\<rparr>)"
  by (simp add: desk_entry_def set_desk_entry_def find_update_same_key)

text \<open>A session the vetter opens is one the applicant takes, as the same session: unless it has expired or
  the request was already attested, the applicant accepts the payload, and the two then hold the same session
  id, challenge, method, claims, end and match code, and the same signed document.\<close>

theorem session_agreement:
  assumes "one_sdk v s" "open_session v salt rid m req opt sid now b = Inr (b', body)"
    and "desk_entry rid b = Some e" "ap_community a = de_community e"
    and "find_last (by_request_id rid vetter) (ap_requests a) = Some r" "\<forall>i st. or_state r \<noteq> Attested i st"
    and "later < now + session_length (vb_policy b)" "\<forall>r \<in> set (ap_requests a). \<not> in_session sid r"
    and "jmember_str ''id'' (Some doc) = Some sid"
  shows "\<exists>a' os b'' ds. on_session s sid doc vetter body later a = Inr (a', os) \<and>
    session sid a' = Some (vetter, os) \<and> record_session_document rid doc b' = Inr b'' \<and>
    map_option de_state (desk_entry rid b'') = Some (DeskInSession ds) \<and> same_session ds os"
proof -
  obtain challenge token where o': "session_method v m = Some token" "session_ok v body"
    "body = session_payload rid e challenge token req opt (now + session_length (vb_policy b))"
    "b' = set_desk_entry rid (DeskInSession
            \<lparr>ds_id = sid, ds_challenge = challenge, ds_method = m, ds_required_claims = req,
             ds_optional_claims = opt, ds_expires_at = now + session_length (vb_policy b),
             ds_match_code = match_code_of v sid, ds_document = None\<rparr>) now b"
    by (rule open_session_ok [OF assms(2)]) (use assms(3) in auto)
  let ?ds = "\<lparr>ds_id = sid, ds_challenge = challenge, ds_method = m, ds_required_claims = req,
             ds_optional_claims = opt, ds_expires_at = now + session_length (vb_policy b),
             ds_match_code = match_code_of v sid, ds_document = Some doc\<rparr>"
  let ?os = "\<lparr>os_id = sid, os_challenge = challenge, os_domain = de_community e, os_method = m,
              os_required_claims = req, os_optional_claims = opt,
              os_expires_at = now + session_length (vb_policy b), os_match_code = sdk_match_code s sid,
              os_document = Some doc\<rparr>"
  let ?f = "\<lambda>r. r\<lparr>or_state := InSession rid ?os None, or_updated_at := later\<rparr>"
  let ?a = "a\<lparr>ap_requests := update_last (by_request_id rid vetter) ?f (ap_requests a)\<rparr>"
  have taken: "on_session s sid doc vetter body later a = Inr (?a, ?os)"
    using assms(1,4-7) o'(1-3)
    by (auto simp: on_session_def one_sdk_def session_payload_def Let_def split: request_state.split)
  obtain us vs where split: "ap_requests a = us @ r # vs"
      "update_last (by_request_id rid vetter) ?f (ap_requests a) = us @ ?f r # vs" "by_request_id rid vetter r"
    using update_last_find [OF assms(5), of ?f] by blast
  have "List.find (in_session sid) us = None"
    using assms(8) split(1) by (auto simp: find_None_iff)
  then have "session sid ?a = Some (vetter, ?os)"
    using split(3) by (simp add: session_def split(2) find_append in_session_def by_request_id_def)
  moreover have "record_session_document rid doc b'
      = Inr (b'\<lparr>vb_desk := update_first (\<lambda>e. de_request_id e = rid) (\<lambda>e. e\<lparr>de_state := DeskInSession ?ds\<rparr>) (vb_desk b')\<rparr>)"
    using desk_entry_set [OF assms(3)] assms(9) by (simp add: record_session_document_def o'(4))
  moreover have "map_option de_state (desk_entry rid
      (b'\<lparr>vb_desk := update_first (\<lambda>e. de_request_id e = rid) (\<lambda>e. e\<lparr>de_state := DeskInSession ?ds\<rparr>) (vb_desk b')\<rparr>))
      = Some (DeskInSession ?ds)"
    using desk_entry_set [OF assms(3)] find_SomeD [OF assms(3) [unfolded desk_entry_def]]
    by (simp add: desk_entry_def o'(4) find_update_same_key)
  moreover have "same_session ?ds ?os" using assms(1) by (simp add: same_session_def one_sdk_def)
  ultimately show ?thesis using taken by blast
qed

section \<open>The card\<close>

text \<open>A card the applicant recorded as sent is one the vetter takes: both sides check it against the same
  expectations, so if it still verifies when it arrives, in the session's time, the desk accepts it and holds the
  digest and identity commitment the applicant recorded; from there the statement can be bound to it.\<close>

theorem card_agreement:
  assumes "one_sdk v s" "record_card s sid the_card now a = Inr (a', out)"
    and "session sid a = Some (vetter, os)" "same_session ds os" "os_domain os = ap_community a"
    and "List.find (awaits_card (ap_join_did a) sid) (vb_desk b) = Some e" "de_state e = DeskInSession ds"
    and "de_community e = ap_community a" "later < os_expires_at os"
    and "sdk_verify_card s the_card (card_expected a vetter os later)
           = sdk_verify_card s the_card (card_expected a vetter os now)"
  shows "\<exists>b' c. receive_card v vetter (ap_join_did a) sid the_card later b = Inr b' \<and>
    e\<lparr>de_state := DeskCardReceived ds c, de_updated_at := later\<rparr> \<in> set (vb_desk b') \<and>
    rc_digest c = sc_digest out \<and> rc_identity_commitment c = sc_identity_commitment out \<and>
    (\<exists>r \<in> set (ap_requests a'). or_vetter r = vetter \<and> session_of (or_state r) = Some os \<and> card_of (or_state r) = Some out)"
proof -
  obtain verified where ver: "sdk_verify_card s the_card (card_expected a vetter os now) = Some verified"
    and out: "out = \<lparr>sc_id = vc_id verified, sc_digest = vc_digest verified,
                   sc_identity_commitment = vc_identity_commitment verified, sc_sent_at = now\<rparr>"
    and a': "a' = a\<lparr>ap_requests := update_first (in_session sid) (put_card out now) (ap_requests a)\<rparr>"
    using assms(2,3) by (auto simp: record_card_def result_simps Let_def)
  let ?c = "\<lparr>rc_digest = vc_digest verified, rc_identity_commitment = vc_identity_commitment verified,
             rc_claims = vc_claims verified, rc_card = Some the_card, rc_received_at = later\<rparr>"
  let ?f = "\<lambda>e. e\<lparr>de_state := DeskCardReceived ds ?c, de_updated_at := later\<rparr>"
  have "card_expected a vetter os later = \<lparr>ce_audience = vetter, ce_publisher = ap_join_did a,
      ce_community = de_community e, ce_challenge = ds_challenge ds, ce_domain = de_community e,
      ce_required_claims = ds_required_claims ds, ce_now = later\<rparr>"
    using assms(4,5,8) by (simp add: card_expected_def same_session_def)
  then have "receive_card v vetter (ap_join_did a) sid the_card later b
      = Inr (b\<lparr>vb_desk := update_first (awaits_card (ap_join_did a) sid) ?f (vb_desk b)\<rparr>)"
    using assms(1,4,6,7,9,10) ver by (simp add: receive_card_def one_sdk_def same_session_def Let_def)
  moreover have "?f e \<in> set (update_first (awaits_card (ap_join_did a) sid) ?f (vb_desk b))"
    by (rule update_first_mem [OF assms(6)])
  moreover obtain r where r: "List.find (in_session sid) (ap_requests a) = Some r" "or_vetter r = vetter"
      "session_of (or_state r) = Some os"
    using assms(3) by (cases "List.find (in_session sid) (ap_requests a)") (auto simp: session_def)
  then have "put_card out now r \<in> set (ap_requests a')"
    by (simp add: a' update_first_mem)
  moreover have "or_vetter (put_card out now r) = vetter" "session_of (or_state (put_card out now r)) = Some os"
      "card_of (or_state (put_card out now r)) = Some out"
    using r by (cases "or_state r"; simp add: put_card_def)+
  ultimately show ?thesis by (fastforce simp: out)
qed

section \<open>The statement\<close>

text \<open>
  What signing keeps, as the SDK reads it back: the draft's parties and value, the session it answers as its
  task context, and a task digest that is the session document's.
\<close>

definition signed_as :: "applicant_sdk \<Rightarrow> statement_draft \<Rightarrow> string \<Rightarrow> verified_statement \<Rightarrow> bool" where
  "signed_as s d sid x \<longleftrightarrow>
     vs_issuer x = sd_issuer d \<and> vs_subject x = sd_subject d \<and> vs_value x = sd_value d \<and>
     vs_task_context x = sid \<and> vs_valid_from x = sd_valid_from d \<and> vs_valid_until x = sd_valid_until d \<and>
     sdk_check_against_session s x (sd_session d)"

text \<open>(C12) A statement the vetter drafts and signs is one the applicant takes, as long as its request is
  still waiting for it. Both sides read documents with one SDK; the vetter's entry holds the session and
  the card it received; at the applicant, the request that session answers is still in session (neither
  decided nor lapsed), with the session document the vetter sent and the card the vetter holds, in the
  application of the same applicant and community; signing kept the draft as it was; and the document
  verifies when it arrives and carries an id of its own. Then whatever the draft says of the card, the
  session and the parties is what the applicant requires of it: its request is attested and it holds the
  statement under the id the desk records, the one a later withdrawal names. (After the session lapsed
  the same statement is refused: \<open>late_statement_refused\<close> in \<open>ApplicantFlow\<close>.)\<close>

theorem statement_agreement:
  assumes "one_sdk v s" "statement_draft v u rid vetter att now b = Inr d"
    and "desk_entry rid b = Some e" "de_state e = DeskCardReceived ds c"
    and "List.find (answers_session vetter (ds_id ds)) (ap_requests a) = Some r"
      "or_state r = InSession rid os (Some sc)" "same_session ds os"
      "sc_digest sc = rc_digest c" "sc_identity_commitment sc = rc_identity_commitment c"
    and "ap_join_did a = de_applicant e" "ap_community a = de_community e"
    and "sdk_verify_statement s doc later = Some x" "signed_as s d (ds_id ds) x"
      "\<forall>h \<in> set (ap_statements a). hs_id h \<noteq> vs_id x"
  shows "\<exists>a' held b' issued. on_statement s vetter doc later a = Inr (a', held) \<and>
    record_statement v rid doc later b = Inr (b', issued) \<and> is_id issued = hs_id held \<and>
    is_applicant issued = ap_join_did a \<and> hs_method held = at_method att \<and>
    hs_claims_verified held = at_claims_verified att \<and> held \<in> set (ap_statements a') \<and>
    r\<lparr>or_state := Attested rid (is_id issued), or_updated_at := later\<rparr> \<in> set (ap_requests a')"
proof -
  obtain document where doc: "ds_document ds = Some document" "sd_session d = document"
    and d: "sd_issuer d = vetter" "sd_subject d = de_applicant e" "vv_community (sd_value d) = de_community e"
      "vv_identity_commitment (sd_value d) = Some (rc_identity_commitment c)"
      "vv_card_digest (sd_value d) = Some (rc_digest c)"
      "vv_declared_relationship (sd_value d) = Some (at_declared_relationship att)"
      "vv_method (sd_value d) = at_method att" "vv_claims_verified (sd_value d) = at_claims_verified att"
    using assms(2,3,4) by (auto simp: statement_draft_def result_simps Let_def split: option.splits)
  let ?m = "\<lparr>vm_identity_commitment = rc_identity_commitment c, vm_card_digest = rc_digest c,
            vm_declared_relationship = at_declared_relationship att\<rparr>"
  note x = assms(13) [unfolded signed_as_def]
  have members: "sdk_vetter_members s (sd_value d) = Some ?m"
    using assms(1) d(4-6) by (simp add: one_sdk_def)
  have "os_document os = Some document" using assms(7) doc(1) by (simp add: same_session_def)
  then have bound: "bound_to_card s x (or_state r) = Inr ?m"
    using assms(6,8,9) doc(2) x members by (simp add: bound_to_card_def)
  have new: "List.find (\<lambda>h. hs_id h = vs_id x) (ap_statements a) = None"
    using assms(14) by (auto simp: find_None_iff)
  let ?h = "held_from vetter x ?m doc later"
  let ?f = "\<lambda>r. r\<lparr>or_state := Attested (case request_id_of (or_state r) of None \<Rightarrow> [] | Some i \<Rightarrow> i) (hs_id ?h),
      or_updated_at := later\<rparr>"
  let ?a = "a\<lparr>ap_requests := update_first (answers_session vetter (ds_id ds)) ?f (ap_requests a),
      ap_statements := ap_statements a @ [?h]\<rparr>"
  have taken: "on_statement s vetter doc later a = Inr (?a, ?h)"
    using assms(5,10-12) x d bound new by (simp add: on_statement_def Let_def)
  obtain b' issued where rec: "record_statement v rid doc later b = Inr (b', issued)" "is_id issued = vs_id x"
      "is_applicant issued = de_applicant e"
    using assms(1,3,4,12) by (simp add: record_statement_def one_sdk_def Let_def)
  have held: "hs_id ?h = vs_id x" "hs_method ?h = at_method att" "hs_claims_verified ?h = at_claims_verified att"
    using x d by (simp_all add: held_from_def)
  have "r\<lparr>or_state := Attested rid (vs_id x), or_updated_at := later\<rparr> \<in> set (ap_requests ?a)"
    using update_first_mem [OF assms(5), of ?f] assms(6) held(1) by simp
  then show ?thesis
    using taken rec held assms(10) by (intro exI [of _ ?a] exI [of _ ?h] exI [of _ b'] exI [of _ issued]) simp
qed

section \<open>Two sides\<close>

definition alice_value :: vetted_value where
  "alice_value = \<lparr>vv_community = ''did:webvh:vtc'', vv_method = Video, vv_document_classes = [''passport''],
     vv_claims_verified = [''name.legal''], vv_liveness_confirmed = True, vv_identity_commitment = Some ''zId'',
     vv_card_digest = Some ''zCard'', vv_declared_relationship = Some ''none'', vv_attestation_text_digest = None\<rparr>"

definition alice_statement :: verified_statement where
  "alice_statement = \<lparr>vs_id = ''st1'', vs_digest = ''zSt'', vs_issuer = ''did:v'', vs_subject = ''did:alice'',
     vs_value = alice_value, vs_task_context = ''s1'', vs_valid_from = 3,
     vs_valid_until = 3 + statement_validity (vb_policy book_2)\<rparr>"

definition vetter_side :: vetter_sdk where
  "vetter_side = desk_sdk\<lparr>session_method := (\<lambda>m. if m = Video then Some ''video'' else None),
     verify_statement := (\<lambda>_ _. Some alice_statement)\<rparr>"

definition applicant_side :: applicant_sdk where
  "applicant_side = demo_sdk\<lparr>sdk_verify_card := verify_card desk_sdk,
     sdk_verify_statement := (\<lambda>_ _. Some alice_statement),
     sdk_vetter_members := (\<lambda>x. Option.bind (vv_identity_commitment x) (\<lambda>i. Option.bind (vv_card_digest x) (\<lambda>c.
       map_option (\<lambda>r. \<lparr>vm_identity_commitment = i, vm_card_digest = c, vm_declared_relationship = r\<rparr>)
         (vv_declared_relationship x))))\<rparr>"

lemma sides_agree: "one_sdk vetter_side applicant_side"
  by (auto simp: one_sdk_def vetter_side_def applicant_side_def desk_sdk_def demo_sdk_def split: if_splits)

definition s1_document :: json where
  "s1_document = JObject [(''id'', JString ''s1'')]"

definition alice_request :: outbound_request where
  "alice_request = \<lparr>or_document_id = ''d1'', or_vetter = ''did:v'', or_state = Accepted ''r1'' [] None,
     or_eligibility = None, or_grant_status = None, or_sent_at = 1, or_updated_at = 1\<rparr>"

definition alice_app :: application where
  "alice_app = (the (new_application ''a1'' ''did:webvh:vtc'' 7 ''did:alice'' (Some ''salt'') 0))
     \<lparr>ap_requests := [alice_request]\<rparr>"

lemma alice_app_fields [simp]:
  "ap_community alice_app = ''did:webvh:vtc''" "ap_join_did alice_app = ''did:alice''"
  "ap_requests alice_app = [alice_request]" "ap_statements alice_app = []"
  by (simp_all add: alice_app_def new_application_def)

theorem session_agreement_witness:
  "\<exists>b' body a' os. open_session vetter_side (Some ''n'') ''r1'' Video [''name.legal''] [] ''s1'' 1 book_1 = Inr (b', body) \<and>
     on_session applicant_side ''s1'' s1_document ''did:v'' body 2 alice_app = Inr (a', os) \<and> os_id os = ''s1''"
proof -
  have entry: "desk_entry ''r1'' book_1 = Some alice_entry" by (simp add: desk_entry_def book_1_def)
  obtain b' body where o': "open_session vetter_side (Some ''n'') ''r1'' Video [''name.legal''] [] ''s1'' 1 book_1 = Inr (b', body)"
    by (simp add: open_session_def entry vetter_side_def desk_sdk_def Let_def)
  have open_: "2 < 1 + session_length (vb_policy book_1)"
    by (simp add: session_length_def book_1_def desk_book_def default_policy_def)
  have "find_last (by_request_id ''r1'' ''did:v'') (ap_requests alice_app) = Some alice_request"
    by (simp add: find_last_def by_request_id_def alice_request_def)
  moreover have "\<forall>i st. or_state alice_request \<noteq> Attested i st" "\<not> in_session ''s1'' alice_request"
    by (simp_all add: alice_request_def in_session_def)
  moreover have "jmember_str ''id'' (Some s1_document) = Some ''s1''" by (simp add: s1_document_def json_access)
  ultimately obtain a' os ds where "on_session applicant_side ''s1'' s1_document ''did:v'' body 2 alice_app = Inr (a', os)"
    "session ''s1'' a' = Some (''did:v'', os)" "same_session ds os"
    using session_agreement [OF sides_agree o' entry _ _ _ open_, of alice_app "''did:v''" alice_request s1_document] by auto
  moreover then have "os_id os = ''s1''"
    by (auto simp: session_def in_session_def split: Option.bind_splits dest!: find_SomeD)
  ultimately show ?thesis using o' by blast
qed

definition alice_open :: open_session where
  "alice_open = \<lparr>os_id = ''s1'', os_challenge = ''n'', os_domain = ''did:webvh:vtc'', os_method = Video,
     os_required_claims = [''name.legal''], os_optional_claims = [], os_expires_at = 1 + minutes 15,
     os_match_code = ''red fox'', os_document = Some s1_document\<rparr>"

lemma alice_same: "same_session alice_session alice_open"
  by (simp add: same_session_def alice_session_def alice_open_def s1_document_def)

theorem card_agreement_witness:
  "\<exists>b'. receive_card vetter_side ''did:v'' ''did:alice'' ''s1'' JNull 9
     (book_1\<lparr>vb_desk := [alice_entry\<lparr>de_state := DeskInSession alice_session\<rparr>]\<rparr>) = Inr b'"
proof -
  let ?a = "alice_app\<lparr>ap_requests := [alice_request\<lparr>or_state := InSession ''r1'' alice_open None\<rparr>]\<rparr>"
  let ?e = "alice_entry\<lparr>de_state := DeskInSession alice_session\<rparr>"
  have s: "session ''s1'' ?a = Some (''did:v'', alice_open)"
    by (simp add: session_def in_session_def alice_open_def alice_request_def)
  then obtain a' out where out: "record_card applicant_side ''s1'' JNull 2 ?a = Inr (a', out)"
    by (simp add: record_card_def applicant_side_def desk_sdk_def Let_def)
  have "List.find (awaits_card ''did:alice'' ''s1'') (vb_desk (book_1\<lparr>vb_desk := [?e]\<rparr>)) = Some ?e"
    by (simp add: awaits_card_def alice_session_def)
  then show ?thesis
    using card_agreement [OF sides_agree out s alice_same, of "book_1\<lparr>vb_desk := [?e]\<rparr>" ?e 9]
    by (auto simp: alice_open_def applicant_side_def desk_sdk_def)
qed

theorem statement_agreement_witness:
  "\<exists>a' held. on_statement applicant_side ''did:v'' JNull 9 (alice_app\<lparr>ap_requests :=
     [alice_request\<lparr>or_state := InSession ''r1'' alice_open (Some demo_card)\<rparr>]\<rparr>) = Inr (a', held) \<and>
     hs_claims_verified held = [''name.legal'']"
proof -
  let ?r = "alice_request\<lparr>or_state := InSession ''r1'' alice_open (Some demo_card)\<rparr>"
  have entry: "desk_entry ''r1'' book_2 = Some (alice_entry\<lparr>de_state := DeskCardReceived alice_session alice_card\<rparr>)"
    by (simp add: desk_entry_def book_2_def)
  obtain d where d: "statement_draft vetter_side ''u'' ''r1'' ''did:v'' alice_checked 3 book_2 = Inr d"
    and dv: "sd_issuer d = ''did:v''" "sd_subject d = ''did:alice''" "sd_value d = alice_value" "sd_valid_from d = 3"
      "sd_valid_until d = 3 + statement_validity (vb_policy book_2)"
    by (simp add: statement_draft_def entry alice_session_def alice_card_def alice_checked_def
        vetter_side_def desk_sdk_def alice_value_def Let_def)
  have "signed_as applicant_side d ''s1'' alice_statement"
    using dv by (simp add: signed_as_def alice_statement_def) (simp add: applicant_side_def demo_sdk_def)
  moreover have "ds_id alice_session = ''s1''" by (simp add: alice_session_def)
  moreover have "List.find (answers_session ''did:v'' ''s1'') [?r] = Some ?r"
    by (simp add: answers_session_def in_session_def alice_open_def) (simp add: alice_request_def)
  moreover have "sc_digest demo_card = rc_digest alice_card"
    "sc_identity_commitment demo_card = rc_identity_commitment alice_card"
    by (simp_all add: demo_card_def alice_card_def)
  moreover have "sdk_verify_statement applicant_side JNull 9 = Some alice_statement" by (simp add: applicant_side_def)
  moreover have "at_claims_verified alice_checked = [''name.legal'']" by (simp add: alice_checked_def)
  ultimately show ?thesis
    using statement_agreement [OF sides_agree d entry, where ds = alice_session and c = alice_card
        and a = "alice_app\<lparr>ap_requests := [?r]\<rparr>" and r = ?r and os = alice_open and sc = demo_card
        and doc = JNull and later = 9 and x = alice_statement] alice_same by auto
qed

end
