(* ===== verification/BookFlow.thy ===== *)
theory BookFlow
  imports ApplicantFlow DeskStatement "HOL-Library.Multiset"
begin

text \<open>
  What the book's operations guarantee: warnings are given once, a manifest read settles, switching how an
  application is vetted moves through what the community offers, a request is attested the way it and its
  criterion allow, the VTA is told of every application that goes, and the book never holds two of what it
  keeps one of.
\<close>

section \<open>Warnings\<close>

lemma give_warnings_new:
  "give_warnings wid ws given = (given', new) \<Longrightarrow>
     set given' = set given \<union> wid ` set ws \<and> (\<forall>w \<in> set new. wid w \<notin> set given) \<and>
     distinct (map wid new) \<and> wid ` set ws \<subseteq> set given \<union> wid ` set new \<and> set new \<subseteq> set ws"
proof (induction ws arbitrary: given given' new)
  case (Cons w ws)
  show ?case
  proof (cases "wid w \<in> set given")
    case True
    with Cons.prems have "give_warnings wid ws given = (given', new)" by simp
    from Cons.IH [OF this] True show ?thesis by auto
  next
    case False
    then obtain new' where rest: "give_warnings wid ws (given @ [wid w]) = (given', new')" and new: "new = w # new'"
      using Cons.prems by (auto split: prod.splits)
    from Cons.IH [OF rest] False new show ?thesis by auto
  qed
qed simp

lemma give_warnings_none: "wid ` set ws \<subseteq> set given \<Longrightarrow> give_warnings wid ws given = (given, [])"
  by (induction ws arbitrary: given) auto

text \<open>A warning about a vetter's grant is given once. What a sweep raises was not raised before and is
  raised once; everything owed has been raised by then, now or earlier; and sweeping again at the same time
  raises nothing and writes nothing. A warning no longer owed is forgotten, so it can be given again.\<close>

theorem warnings_given_once:
  assumes "take_grant_warnings sp si now b = (b', new)"
  shows "(\<forall>w \<in> set new. warning_id sp si w \<notin> set (vb_grant_warnings b)) \<and>
    distinct (map (warning_id sp si) new) \<and>
    set (vb_grant_warnings b')
      = (\<lambda>g. warning_id sp si (warning_for now g)) ` set (grants_needing_attention now b) \<and>
    (\<forall>g \<in> set (grants_needing_attention now b). warning_id sp si (warning_for now g)
       \<in> set (vb_grant_warnings b) \<union> warning_id sp si ` set new) \<and>
    take_grant_warnings sp si now b' = (b', [])"
proof -
  let ?wid = "warning_id sp si" and ?owed = "map (warning_for now) (grants_needing_attention now b)"
  let ?old = "filter (\<lambda>i. i \<in> set (map ?wid ?owed)) (vb_grant_warnings b)"
  obtain given new' where g': "give_warnings ?wid ?owed ?old = (given, new')" by (cases "give_warnings ?wid ?owed ?old")
  with assms have b': "b' = b\<lparr>vb_grant_warnings := given\<rparr>" and "new' = new"
    by (simp_all add: take_grant_warnings_def Let_def del: map_map set_map)
  with g' have g: "give_warnings ?wid ?owed ?old = (given, new)" by simp
  note new = give_warnings_new [OF g]
  have given: "set given = ?wid ` set ?owed" using new by auto
  have "grants_needing_attention now b' = grants_needing_attention now b"
    by (simp add: b' grants_needing_attention_def)
  moreover have "filter (\<lambda>i. i \<in> set (map ?wid ?owed)) given = given"
    using given by (simp add: filter_id_conv)
  ultimately have again: "take_grant_warnings sp si now b' = (b', [])"
    using given by (simp add: take_grant_warnings_def Let_def b' give_warnings_none del: map_map)
  have fresh: "?wid w \<notin> set (vb_grant_warnings b)" if "w \<in> set new" for w
  proof -
    from that new have "w \<in> set ?owed" "?wid w \<notin> set ?old" by blast+
    then show ?thesis by auto
  qed
  have kept: "set (vb_grant_warnings b') = (\<lambda>g. ?wid (warning_for now g)) ` set (grants_needing_attention now b)"
    using given by (auto simp: b')
  have owed: "?wid (warning_for now g) \<in> set (vb_grant_warnings b) \<union> ?wid ` set new"
    if "g \<in> set (grants_needing_attention now b)" for g
  proof -
    have "?wid ` set ?owed \<subseteq> set ?old \<union> ?wid ` set new" using new by blast
    moreover have "set ?old \<subseteq> set (vb_grant_warnings b)" by (rule filter_is_subset)
    moreover have "?wid (warning_for now g) \<in> ?wid ` set ?owed" using that by simp
    ultimately show ?thesis by blast
  qed
  have once: "distinct (map ?wid new)" using new by blast
  show ?thesis by (intro conjI ballI fresh once kept owed again)
qed

section \<open>Manifests\<close>

lemma learned_community:
  assumes "learn_community c brand rq rts p now cs = (cs', changed)"
  obtains k where "List.find (\<lambda>x. km_community x = c) cs' = Some k" "km_branding k = brand"
    "km_requested k = rq" "km_routes k = rts" "p \<noteq> None \<longrightarrow> km_protocol k = p"
    "\<And>c'. c' \<noteq> c \<Longrightarrow> List.find (\<lambda>x. km_community x = c') cs' = List.find (\<lambda>x. km_community x = c') cs"
proof (cases "List.find (\<lambda>x. km_community x = c) cs")
  case None
  show ?thesis
    by (rule that) (use assms None in \<open>auto simp: learn_community_def find_append split: option.split\<close>)
next
  case (Some k0)
  let ?f = "\<lambda>c. c\<lparr>km_fetched_at := now, km_branding := brand, km_requested := rq, km_routes := rts,
               km_protocol := (if p \<noteq> None then p else km_protocol c)\<rparr>"
  have cs': "cs' = update_first (\<lambda>x. km_community x = c) ?f cs"
    using assms Some by (simp add: learn_community_def)
  show ?thesis
  proof (rule that [of "?f k0"])
    show "List.find (\<lambda>x. km_community x = c) cs' = Some (?f k0)"
      by (simp add: cs' find_update_same_key Some)
    show "List.find (\<lambda>x. km_community x = c') cs' = List.find (\<lambda>x. km_community x = c') cs" if "c' \<noteq> c" for c'
      unfolding cs' by (rule find_update_other) (use that in auto)
  qed simp_all
qed

lemma learn_community_settled:
  assumes "List.find (\<lambda>x. km_community x = c) cs = Some k" "km_branding k = brand"
    "km_requested k = rq" "km_routes k = rts" "p \<noteq> None \<longrightarrow> km_protocol k = p"
  shows "\<not> snd (learn_community c brand rq rts p now cs)"
  using assms by (auto simp: learn_community_def)

lemma same_criterion_refl: "same_criterion k (k\<lparr>kn_fetched_at := t\<rparr>)"
  by (simp add: same_criterion_def same_requirements_def)

lemma criterion_known_time:
  "criterion_known sdk c later m = map_option (\<lambda>k. k\<lparr>kn_fetched_at := later\<rparr>) (criterion_known sdk c now m)"
  by (cases "mc_vetting m") (simp_all add: criterion_known_def)

lemma criteria_known_time:
  "List.map_filter (criterion_known sdk c later) ms
     = map (\<lambda>k. k\<lparr>kn_fetched_at := later\<rparr>) (List.map_filter (criterion_known sdk c now) ms)"
proof (induction ms)
  case (Cons m ms)
  then show ?case
    using criterion_known_time [of sdk c later m now]
    by (cases "criterion_known sdk c now m") (simp_all add: List.map_filter_simps)
qed (simp add: List.map_filter_simps)

lemma criterion_known_community: "criterion_known sdk c now m = Some k \<Longrightarrow> kn_community k = c"
  by (auto simp: criterion_known_def split: Option.bind_splits if_splits)

lemma fresh_community: "k \<in> set (List.map_filter (criterion_known sdk c now) ms) \<Longrightarrow> kn_community k = c"
  by (auto simp: List.map_filter_def dest: criterion_known_community)

lemma learned_criteria:
  assumes "learn_manifest_in sdk c m rq p meta now b = (b', changed)"
  shows "criteria_of c b' = List.map_filter (criterion_known sdk c now) (mf_criteria m)"
    and "c' \<noteq> c \<Longrightarrow> criteria_of c' b' = criteria_of c' b"
proof -
  let ?fresh = "List.map_filter (criterion_known sdk c now) (mf_criteria m)"
  have b': "vb_criteria b' = filter (\<lambda>k. kn_community k \<noteq> c) (vb_criteria b) @ ?fresh"
    using assms by (auto simp: learn_manifest_in_def Let_def split: prod.splits)
  have "filter (\<lambda>k. kn_community k = c) ?fresh = ?fresh"
    by (rule filter_True) (blast dest: fresh_community)
  then show "criteria_of c b' = ?fresh" by (simp add: criteria_of_def b')
  assume "c' \<noteq> c"
  moreover then have "filter (\<lambda>k. kn_community k = c') ?fresh = []"
    using fresh_community by (fastforce simp: filter_empty_conv)
  moreover from \<open>c' \<noteq> c\<close> have "filter (\<lambda>k. kn_community k = c') (filter (\<lambda>k. kn_community k \<noteq> c) (vb_criteria b))
      = filter (\<lambda>k. kn_community k = c') (vb_criteria b)"
    by (auto simp: filter_filter intro: filter_cong)
  ultimately show "criteria_of c' b' = criteria_of c' b" by (simp add: criteria_of_def b')
qed

text \<open>Reading a manifest replaces what was known of that community and of no other: its criteria are the
  ones that name vetting requirements this build can read, its routes all of them, in published order, and the
  community is known from then on. The same manifest read again, at any time, reports no change.\<close>

theorem manifest_settles:
  assumes "learn_manifest_in sdk c m rq p meta now b = (b', changed)"
  shows "\<not> snd (learn_manifest_in sdk c m rq p meta later b') \<and>
    routes c b' = map (route_of meta) (mf_criteria m) \<and> requested_attributes c b' = rq \<and>
    knowledge c b' \<noteq> UnknownCommunity \<and>
    map kn_criterion_id (criteria_of c b')
      = map mc_id (filter (\<lambda>x. \<exists>r. mc_vetting x = Some r \<and> sdk_requirements_ok sdk r) (mf_criteria m)) \<and>
    (\<forall>c'. c' \<noteq> c \<longrightarrow> criteria_of c' b' = criteria_of c' b \<and> community_record c' b' = community_record c' b)"
proof -
  let ?brand = "case mf_branding m of None \<Rightarrow> no_branding | Some br \<Rightarrow> br"
  let ?rts = "map (route_of meta) (mf_criteria m)" and ?fresh = "List.map_filter (criterion_known sdk c now) (mf_criteria m)"
  obtain cs' ch where lc: "learn_community c ?brand rq ?rts p now (vb_communities b) = (cs', ch)"
    by (cases "learn_community c ?brand rq ?rts p now (vb_communities b)")
  then have b': "vb_communities b' = cs'"
    using assms by (auto simp: learn_manifest_in_def Let_def)
  obtain k where k: "List.find (\<lambda>x. km_community x = c) cs' = Some k" "km_branding k = ?brand"
    "km_requested k = rq" "km_routes k = ?rts" "p \<noteq> None \<longrightarrow> km_protocol k = p"
    "\<And>c'. c' \<noteq> c \<Longrightarrow> List.find (\<lambda>x. km_community x = c') cs' = List.find (\<lambda>x. km_community x = c') (vb_communities b)"
    by (rule learned_community [OF lc]) blast
  note crit = learned_criteria [OF assms]
  have "list_all (\<lambda>(a, b). same_criterion a b) (zip ks (map (\<lambda>k. k\<lparr>kn_fetched_at := later\<rparr>) ks))" for ks
    by (induction ks) (simp_all add: same_criterion_refl)
  then have "\<not> snd (learn_manifest_in sdk c m rq p meta later b')"
    using learn_community_settled [OF k(1-5), of later]
    by (auto simp: learn_manifest_in_def Let_def crit(1) b' criteria_known_time [of sdk c later _ now] split: prod.split)
  moreover have rec: "community_record c b' = Some k" by (simp add: community_record_def b' k(1))
  moreover have "list_ex (\<lambda>x. km_community x = c) cs'"
    using find_SomeD [OF k(1)] by (auto simp: list_ex_iff)
  then have "knowledge c b' \<noteq> UnknownCommunity" by (simp add: knowledge_def b' split: option.split)
  moreover have "map kn_criterion_id (List.map_filter (criterion_known sdk c now) ms)
      = map mc_id (filter (\<lambda>x. \<exists>r. mc_vetting x = Some r \<and> sdk_requirements_ok sdk r) ms)" for ms
    by (induction ms) (auto simp: List.map_filter_simps criterion_known_def split: option.splits Option.bind_splits if_splits)
  ultimately show ?thesis
    using crit k by (simp add: routes_def requested_attributes_def community_record_def b')
qed

section \<open>Switching\<close>

lemma position_Some: "position p xs = Some n \<Longrightarrow> n < length xs \<and> p (xs ! n)"
  by (induction xs arbitrary: n) (auto split: if_splits simp: nth_Cons')

lemma position_unique:
  assumes "n < length xs" "p (xs ! n)" "\<And>k. k < n \<Longrightarrow> \<not> p (xs ! k)"
  shows "position p xs = Some n"
  using assms
proof (induction xs arbitrary: n)
  case (Cons x xs)
  show ?case
  proof (cases n)
    case 0
    with Cons.prems show ?thesis by simp
  next
    case (Suc k)
    have "\<not> p x" using Cons.prems(3) [of 0] Suc by simp
    moreover have "position p xs = Some k"
      using Cons.IH [of k] Cons.prems Suc by fastforce
    ultimately show ?thesis by (simp add: Suc)
  qed
qed simp

lemma find_update_same:
  "List.find (\<lambda>x. key x = k) xs = Some x \<Longrightarrow> key (f x) = k \<Longrightarrow>
     List.find (\<lambda>x. key x = k) (update_first (\<lambda>x. key x = k) f xs) = Some (f x)"
  by (induction xs) auto

lemma update_first_twice:
  "update_first p (\<lambda>_. y) (update_first p (\<lambda>_. y) xs) = update_first p (\<lambda>_. y) xs"
  if "p y"
  using that by (induction xs) auto

lemma application_by_id_update:
  "(\<And>a. ap_id (f a) = ap_id a) \<Longrightarrow>
     application_by_id i (update_application i f b) = map_option f (application_by_id i b)"
  by (simp add: application_by_id_def update_application_def find_update_same_key)

lemma application_by_id_set:
  assumes "application_by_id i b = Some a" "ap_id a' = i"
  shows "application_by_id i (update_application i (\<lambda>_. a') b) = Some a'"
  using find_update_same [where key = ap_id and k = i, OF assms(1) [unfolded application_by_id_def], of "\<lambda>_. a'"] assms(2)
  by (simp add: application_by_id_def update_application_def)

lemma application_by_id_id: "application_by_id i b = Some a \<Longrightarrow> ap_id a = i"
  by (auto simp: application_by_id_def dest: find_SomeD)

lemma find_filter: "List.find p (filter q xs) = List.find (\<lambda>x. q x \<and> p x) xs"
  by (induction xs) auto

lemma find_distinct: "distinct (map f xs) \<Longrightarrow> x \<in> set xs \<Longrightarrow> List.find (\<lambda>y. f y = f x) xs = Some x"
  by (induction xs) auto

lemma find_known_in: "find_known c i b = List.find (\<lambda>k. kn_criterion_id k = i) (criteria_of c b)"
  by (simp add: find_known_def criteria_of_def find_filter)

lemma option_origin:
  assumes "o' \<in> set (vetting_options sdk c b)"
  obtains k where "k \<in> set (criteria_of c b)" "vo_criterion_id o' = kn_criterion_id k"
    "vo_description o' = kn_description k" "vo_paths o' = paths sdk k" "vo_path o' \<in> set (ways (paths sdk k))"
  using assms by (auto simp: vetting_options_def options_of_def)

lemma option_keys_distinct:
  "distinct (map kn_criterion_id ks) \<Longrightarrow>
     distinct (map (\<lambda>o'. (vo_criterion_id o', vo_path o')) (concat (map (options_of sdk) ks)))"
proof (induction ks)
  case (Cons k ks)
  have "distinct (ways ps)" for ps by (cases ps) (simp_all add: ways_def)
  then have "distinct (map (\<lambda>o'. (vo_criterion_id o', vo_path o')) (options_of sdk k))"
    by (simp add: options_of_def distinct_map inj_on_def)
  with Cons show ?case by (auto simp: options_of_def)
qed simp

lemma adopted_path:
  assumes "adopt_criterion sdk c r d (Some (as_raw k)) a = Inr (a', ch)" "ap_vetting_path a = Some p"
    "p \<in> set (ways (paths sdk k))"
  shows "ap_hidden a' \<noteq> None \<longleftrightarrow> p = PathHidden"
proof -
  obtain offered where o': "offered_hidden sdk (Some (as_raw k)) = Inr offered"
    and h: "ap_hidden a' = adopted_hidden offered (Some (as_raw k)) a"
    using assms(1) by (auto simp: adopt_criterion_def result_simps Let_def)
  have off: "offered = criterion_hidden_params sdk k"
    using o' by (cases "read_mode (sdk_parse_params sdk) (as_raw k)")
      (auto simp: offered_hidden_def criterion_hidden_params_def split: mode.splits)
  show ?thesis
    using assms(3) by (auto simp: h off adopted_hidden_def assms(2) paths_def ways_def hidden_vetting_def split: if_splits)
qed

lemma adopted_frame:
  assumes "adopt_criterion sdk c r d raw a = Inr (a', ch)"
  shows "ap_id a' = ap_id a" "ap_community a' = ap_community a" "ap_persona a' = ap_persona a"
    "ap_requests a' = ap_requests a" "ap_statements a' = ap_statements a" "ap_criterion_id a' = Some c"
    "ap_requirements a' = Some r" "ap_hidden_app a' = ap_hidden_app a" "ap_vetting_path a' = ap_vetting_path a"
  using assms by (auto simp: adopt_criterion_def result_simps Let_def)

text \<open>What a switch did, when the chosen criterion could be taken.\<close>

lemma switch_cases:
  assumes "switch_vetting sdk i b = (b', Inr nxt)"
  obtains a current known a' ch where "application_by_id i b = Some a" "application_vetting sdk i b = Some current"
    "\<not> holds_evidence a" "next_option current (vetting_options sdk (ap_community a) b) = Some nxt"
    "find_known (ap_community a) (vo_criterion_id nxt) b = Some known"
    "adopt_criterion sdk (kn_criterion_id known) (kn_requirements known) (kn_requirements_digest known)
       (Some (as_raw known)) (a\<lparr>ap_vetting_path := Some (vo_path nxt)\<rparr>) = Inr (a', ch)"
    "b' = update_application i (\<lambda>_. a'\<lparr>ap_criterion_repicked := None\<rparr>) b"
  using assms unfolding switch_vetting_def Let_def
  by (auto split: option.splits if_splits sum.splits)

lemma next_option_in: "next_option c os = Some x \<Longrightarrow> x \<in> set os \<and> x \<noteq> c"
  by (auto simp: next_option_def Let_def split: option.splits list.splits if_splits dest!: position_Some intro!: nth_mem mod_less_divisor)

lemma next_option_cycles:
  assumes "distinct (map (\<lambda>o'. (vo_criterion_id o', vo_path o')) os)" "n < length os"
    "next_option (os ! n) os = Some x"
  shows "x = os ! (Suc n mod length os)"
proof -
  have "position (\<lambda>o'. vo_criterion_id o' = vo_criterion_id (os ! n) \<and> vo_path o' = vo_path (os ! n)) os = Some n"
  proof (rule position_unique)
    show "\<not> (vo_criterion_id (os ! k) = vo_criterion_id (os ! n) \<and> vo_path (os ! k) = vo_path (os ! n))" if "k < n" for k
      using assms(1,2) that by (force simp: distinct_conv_nth)
  qed (use assms in auto)
  with assms(3) show ?thesis by (simp add: next_option_def Let_def split: if_splits)
qed

lemma known_after_switch: "find_known c k (update_application i f b) = find_known c k b"
  "vetting_options sdk c (update_application i f b) = vetting_options sdk c b"
  by (simp_all add: find_known_def update_application_def vetting_options_def criteria_of_def)

text \<open>Switching moves an application to the next way its community offers, in published order and round
  again, and nowhere else: afterwards the application's own view of how it is vetted is the option that was
  announced, one the community publishes, and the requests and statements are untouched. An application that
  holds evidence never moves.\<close>

theorem switch_lands:
  assumes "switch_vetting sdk i b = (b', Inr nxt)" "application_by_id i b = Some a"
    "distinct (map kn_criterion_id (criteria_of (ap_community a) b))"
  shows "application_vetting sdk i b' = Some nxt \<and> nxt \<in> set (vetting_options sdk (ap_community a) b') \<and>
    \<not> holds_evidence a \<and>
    (\<forall>n < length (vetting_options sdk (ap_community a) b).
       application_vetting sdk i b = Some (vetting_options sdk (ap_community a) b ! n) \<longrightarrow>
       nxt = vetting_options sdk (ap_community a) b ! (Suc n mod length (vetting_options sdk (ap_community a) b))) \<and>
    (\<exists>a'. application_by_id i b' = Some a' \<and> ap_requests a' = ap_requests a \<and> ap_statements a' = ap_statements a)"
  using assms(1)
proof (cases rule: switch_cases)
  case (1 a0 current known a' ch)
  then have a0: "a0 = a" using assms(2) by simp
  note sw = 1 [unfolded a0]
  let ?c = "ap_community a" let ?os = "vetting_options sdk ?c b" let ?a' = "a'\<lparr>ap_criterion_repicked := None\<rparr>"
  obtain k where k: "k \<in> set (criteria_of ?c b)" "vo_criterion_id nxt = kn_criterion_id k"
    "vo_description nxt = kn_description k" "vo_paths nxt = paths sdk k" "vo_path nxt \<in> set (ways (paths sdk k))"
    using next_option_in [OF sw(4)] by (blast elim: option_origin)
  have known: "known = k"
    using sw(5) find_distinct [OF assms(3) k(1)] by (simp add: find_known_in k(2))
  note fr = adopted_frame [OF sw(6)] and path = adopted_path [OF sw(6)]
  have hid: "ap_hidden a' \<noteq> None \<longleftrightarrow> vo_path nxt = PathHidden"
    using path k(5) by (simp add: known)
  have a': "application_by_id i b' = Some ?a'"
    unfolding sw(7) by (rule application_by_id_set [OF assms(2)])
      (use fr(1) application_by_id_id [OF assms(2)] in simp)
  have "find_known ?c (kn_criterion_id k) b' = Some k"
    using sw(5) by (simp add: sw(7) known_after_switch k(2) known)
  then have "application_vetting sdk i b' = Some nxt"
    using fr hid k by (cases "vo_path nxt") (auto simp: application_vetting_def a' known Let_def)
  moreover have "nxt = ?os ! (Suc n mod length ?os)"
    if "n < length ?os" "application_vetting sdk i b = Some (?os ! n)" for n
    using next_option_cycles [of ?os n nxt] option_keys_distinct [OF assms(3)] that sw(2,4)
    by (simp add: vetting_options_def)
  ultimately show ?thesis
    using sw(3) next_option_in [OF sw(4)] a' fr by (auto simp: sw(7) known_after_switch)
qed

text \<open>A switch that fails is not without effect: the path it would have taken is stored on the application
  before the criterion is found unusable, so a later manifest is adopted on that path; and the next attempt fails
  the same way, whatever other ways to be vetted the community offers after the unusable one.\<close>

theorem failed_switch_sticks:
  assumes "switch_vetting sdk i b = (b', Inl (CouldNotSwitch e))" "application_by_id i b = Some a"
  shows "\<exists>nxt. next_option (the (application_vetting sdk i b)) (vetting_options sdk (ap_community a) b) = Some nxt \<and>
    application_by_id i b' = Some (a\<lparr>ap_vetting_path := Some (vo_path nxt)\<rparr>) \<and>
    switch_vetting sdk i b' = (b', Inl (CouldNotSwitch e))"
proof -
  obtain current where cur: "application_vetting sdk i b = Some current"
    using assms by (cases "application_vetting sdk i b") (simp_all add: switch_vetting_def)
  have hold: "\<not> holds_evidence a"
    using assms cur by (auto simp: switch_vetting_def split: if_splits)
  obtain nxt where nxt: "next_option current (vetting_options sdk (ap_community a) b) = Some nxt"
    using assms cur hold by (auto simp: switch_vetting_def split: option.splits)
  obtain known where known: "find_known (ap_community a) (vo_criterion_id nxt) b = Some known"
    using assms cur hold nxt by (auto simp: switch_vetting_def split: option.splits)
  let ?a = "a\<lparr>ap_vetting_path := Some (vo_path nxt)\<rparr>"
  have bad: "adopt_criterion sdk (kn_criterion_id known) (kn_requirements known) (kn_requirements_digest known)
       (Some (as_raw known)) ?a = Inl e" and b': "b' = update_application i (\<lambda>_. ?a) b"
    using assms cur hold nxt known by (auto simp: switch_vetting_def Let_def split: sum.splits)
  have a': "application_by_id i b' = Some ?a"
    unfolding b' by (rule application_by_id_set [OF assms(2)]) (use application_by_id_id [OF assms(2)] in simp)
  have "find_known c k b' = find_known c k b" "vetting_options sdk c b' = vetting_options sdk c b" for c k
    by (simp_all add: b' known_after_switch)
  moreover have "application_vetting sdk i b' = Some current"
    using cur by (cases "ap_hidden a"; cases "ap_criterion_id a")
      (auto simp: application_vetting_def a' assms(2) Let_def calculation split: option.split)
  moreover have "holds_evidence ?a = holds_evidence a"
    by (simp add: holds_evidence_def holds_hidden_attestation_def)
  moreover have "update_application i (\<lambda>_. ?a) b' = b'"
    using application_by_id_id [OF assms(2)] by (simp add: b' update_application_def update_first_twice)
  ultimately have "switch_vetting sdk i b' = (b', Inl (CouldNotSwitch e))"
    using hold nxt known bad by (simp add: switch_vetting_def a' Let_def)
  with nxt a' show ?thesis by (simp add: cur)
qed

section \<open>How a request is attested\<close>

text \<open>A request is attested the way it asks, within what its criterion takes: with a proof exactly when it
  carries an identifier for one; as a named statement under a criterion only when the request names that
  criterion's digest and the criterion counts named statements; and it is refused for want of an identifier only
  when its criterion takes a proof alone, or, where its digest names none, when every criterion of its community
  does.\<close>

theorem request_attested_as_asked:
  assumes "desk_entry rid b = Some e"
  shows "(request_vetting sdk rid b = AttestHidden) = (\<exists>x. read_request_ext (rq_ext (de_request e)) = Inr (Some x)) \<and>
    (\<forall>c. request_vetting sdk rid b = AttestNamed (Some c) \<longrightarrow>
       (\<exists>k \<in> set (criteria_of (de_community e) b). kn_criterion_id k = c \<and> paths sdk k \<noteq> HiddenOnly \<and>
          kn_requirements_digest k \<noteq> None \<and> kn_requirements_digest k = rq_requirements_digest (de_request e))) \<and>
    (\<forall>c. request_vetting sdk rid b = HiddenWithoutId c \<longrightarrow>
       (\<exists>k \<in> set (criteria_of (de_community e) b). kn_criterion_id k = c \<and> paths sdk k = HiddenOnly \<and>
          (kn_requirements_digest k = rq_requirements_digest (de_request e) \<or>
           (\<forall>k' \<in> set (criteria_of (de_community e) b). paths sdk k' = HiddenOnly))))"
proof -
  let ?d = "rq_requirements_digest (de_request e)" let ?ks = "criteria_of (de_community e) b"
  show ?thesis
  proof (cases "read_request_ext (rq_ext (de_request e))")
    case (Inl err)
    then show ?thesis by (simp add: request_vetting_def assms)
  next
    case (Inr x)
    note ext = this
    show ?thesis
    proof (cases x)
      case (Some y)
      then show ?thesis by (simp add: request_vetting_def assms ext)
    next
      case None
      show ?thesis
      proof (cases "List.find (\<lambda>k. ?d \<noteq> None \<and> kn_requirements_digest k = ?d) ?ks")
        case (Some k)
        with find_SomeD [OF Some] None show ?thesis
          by (auto simp: request_vetting_def assms ext Let_def)
      next
        case nomatch: None
        have "request_vetting sdk rid b = (case ?ks of [] \<Rightarrow> AttestNamed None
            | k # _ \<Rightarrow> if list_all (\<lambda>k. paths sdk k = HiddenOnly) ?ks then HiddenWithoutId (kn_criterion_id k)
                       else AttestNamed None)"
          by (simp add: request_vetting_def assms ext None nomatch Let_def del: not_None_eq)
        then show ?thesis
          by (cases ?ks) (simp_all add: ext None list_all_iff)
      qed
    qed
  qed
qed

section \<open>Applications that go\<close>

text \<open>The applications the VTA holds for this client, and those it has been asked to delete.\<close>

definition vta_held :: "vetting_book \<Rightarrow> string multiset" where
  "vta_held b = mset (List.map_filter (\<lambda>a. map_option av_application_id (ap_hidden_app a)) (vb_applications b))"

definition vta_deletions :: "vetting_book \<Rightarrow> string multiset" where
  "vta_deletions b =
     mset (List.map_filter (\<lambda>q. case q of DeleteApplication i \<Rightarrow> Some i | _ \<Rightarrow> None) (vb_pcs_inbox b))"

lemma map_filter_append: "List.map_filter f (xs @ ys) = List.map_filter f xs @ List.map_filter f ys"
  by (simp add: List.map_filter_def)

lemma queue_for_vta_deletes:
  "vta_deletions (queue_for_vta (DeleteApplication i) b) = add_mset i (vta_deletions b)"
  "vb_applications (queue_for_vta q b) = vb_applications b"
  by (simp_all add: vta_deletions_def queue_for_vta_def map_filter_append List.map_filter_simps)

lemma queue_all_deletes:
  "vta_deletions (fold (\<lambda>i. queue_for_vta (DeleteApplication i)) is b) = mset is + vta_deletions b"
  "vb_applications (fold (\<lambda>i. queue_for_vta (DeleteApplication i)) is b) = vb_applications b"
  by (induction "is" arbitrary: b) (simp_all add: queue_for_vta_deletes)

lemma map_filter_split:
  "mset (List.map_filter f (filter (\<lambda>x. \<not> p x) xs)) + mset (List.map_filter (\<lambda>x. if p x then f x else None) xs)
     = mset (List.map_filter f xs)"
  by (induction xs) (auto simp: List.map_filter_simps split: option.split)

lemma map_filter_remove_first:
  "List.find p xs = Some x \<Longrightarrow>
     mset (List.map_filter f xs) = mset (List.map_filter f [x]) + mset (List.map_filter f (remove_first p xs))"
  by (induction xs) (auto simp: List.map_filter_simps split: option.split if_splits)

text \<open>No application is orphaned at the VTA: joining and abandoning both ask it to delete exactly the
  applications that leave the book, each once, so what it holds for the book and what it was asked to delete
  together stay the same. And joining retires no application that still has vetting to present.\<close>

theorem vta_deletions_complete:
  "vta_held (fst (retire_joined joined now b)) + vta_deletions (fst (retire_joined joined now b))
     = vta_held b + vta_deletions b \<and>
   vta_held (fst (abandon_application i b)) + vta_deletions (fst (abandon_application i b))
     = vta_held b + vta_deletions b \<and>
   (\<forall>a \<in> set (vb_applications b). presentable_statements now a \<noteq> [] \<or> holds_hidden_attestation a \<longrightarrow>
      a \<in> set (vb_applications (fst (retire_joined joined now b))))"
proof (intro conjI)
  show "vta_held (fst (retire_joined joined now b)) + vta_deletions (fst (retire_joined joined now b))
      = vta_held b + vta_deletions b"
    using map_filter_split [of "\<lambda>a. map_option av_application_id (ap_hidden_app a)" "retires joined now" "vb_applications b"]
    by (simp add: retire_joined_def Let_def vta_held_def queue_all_deletes) (simp add: vta_deletions_def ac_simps)
  show "vta_held (fst (abandon_application i b)) + vta_deletions (fst (abandon_application i b))
      = vta_held b + vta_deletions b"
  proof (cases "application_by_id i b")
    case (Some a)
    note rf = map_filter_remove_first [OF Some [unfolded application_by_id_def],
        of "\<lambda>a. map_option av_application_id (ap_hidden_app a)"]
    show ?thesis
    proof (cases "ap_hidden_app a")
      case None
      with rf Some show ?thesis
        by (simp add: abandon_application_def Let_def vta_held_def vta_deletions_def List.map_filter_simps)
    next
      case (Some h)
      with rf \<open>application_by_id i b = Some a\<close> show ?thesis
        by (simp add: abandon_application_def Let_def queue_for_vta_deletes vta_held_def List.map_filter_simps)
          (simp add: vta_deletions_def)
    qed
  qed (simp add: abandon_application_def)
  show "\<forall>a \<in> set (vb_applications b). presentable_statements now a \<noteq> [] \<or> holds_hidden_attestation a \<longrightarrow>
      a \<in> set (vb_applications (fst (retire_joined joined now b)))"
    by (auto simp: retire_joined_def Let_def queue_all_deletes retires_def)
qed

section \<open>One of each\<close>

text \<open>
  The operations that change the book's lists: the applications they reach are changed in place
  (\<open>changes_application\<close> is any update that leaves the application's community, persona and id alone, as
  every operation of \<open>Applicant\<close> does).
\<close>

definition changes_application :: "(application \<Rightarrow> application) \<Rightarrow> bool" where
  "changes_application f \<longleftrightarrow>
     (\<forall>a. ap_id (f a) = ap_id a \<and> ap_community (f a) = ap_community a \<and> ap_persona (f a) = ap_persona a)"

inductive book_step :: "applicant_sdk \<Rightarrow> vetting_book \<Rightarrow> vetting_book \<Rightarrow> bool" for sdk where
  started: "start_application i c p did salt now b = Some (b', a) \<Longrightarrow> book_step sdk b b'"
| adopted: "adopt_known_requirements sdk i b = Inr (b', ch) \<Longrightarrow> book_step sdk b b'"
| switched: "book_step sdk b (fst (switch_vetting sdk i b))"
| moved: "changes_application f \<Longrightarrow> book_step sdk b (update_application i f b)"
| retired: "book_step sdk b (fst (retire_joined joined now b))"
| abandoned: "book_step sdk b (fst (abandon_application i b))"
| learnt: "book_step sdk b (fst (learn_manifest_in sdk c m rq p meta now b))"
| granted: "book_step sdk b (fst (keep_vetter_grant g b))"
| noted: "book_step sdk b (note_post_quantum_key c yes b)"
| pruned: "book_step sdk b (fst (prune now b))"
| upgraded: "book_step sdk b (fst (retire_nonconformant bad gn sn b))"
| forgotten: "book_step sdk b (fst (forget_local_engines vn an b))"
| warned: "book_step sdk b (fst (take_grant_warnings sp si now b))"
| queued: "book_step sdk b (queue_for_vta q b)"

inductive_cases book_stepE: "book_step sdk b b'"

definition app_key :: "application \<Rightarrow> string \<times> persona_id" where
  "app_key a = (ap_community a, ap_persona a)"

definition grant_key :: "vetter_grant \<Rightarrow> string \<times> persona_id" where
  "grant_key g = (gr_community g, gr_persona g)"

definition one_of_each :: "vetting_book \<Rightarrow> bool" where
  "one_of_each b \<longleftrightarrow> distinct (map app_key (vb_applications b)) \<and> distinct (map grant_key (vb_vetter_grants b)) \<and>
     distinct (map km_community (vb_communities b))"

lemma find_map_none: "List.find (\<lambda>x. f x = k) xs = None \<longleftrightarrow> k \<notin> f ` set xs"
  by (induction xs) auto

lemma app_key_find: "application_for c p b = List.find (\<lambda>a. app_key a = (c, p)) (vb_applications b)"
  by (simp add: application_for_def app_key_def)

lemma same_grant_key: "same_grant g = (\<lambda>x. grant_key x = grant_key g)"
  by (auto simp: same_grant_def grant_key_def)

lemma map_remove_first: "set (map f (remove_first p xs)) \<subseteq> set (map f xs)"
  "distinct (map f xs) \<Longrightarrow> distinct (map f (remove_first p xs))"
proof -
  show sub: "set (map f (remove_first p xs)) \<subseteq> set (map f xs)" for xs by (induction xs) auto
  show "distinct (map f xs) \<Longrightarrow> distinct (map f (remove_first p xs))"
    using sub by (induction xs) fastforce+
qed

lemma distinct_filter_map: "distinct (map f xs) \<Longrightarrow> distinct (map f (filter p xs))"
  by (induction xs) auto

lemma learn_community_distinct:
  "distinct (map km_community cs) \<Longrightarrow> distinct (map km_community (fst (learn_community c br rq rts p now cs)))"
  by (auto simp: learn_community_def find_map_none split: option.split)

lemma update_application_keys:
  assumes "application_by_id i b = Some a" "app_key a' = app_key a"
  shows "map app_key (vb_applications (update_application i (\<lambda>_. a') b)) = map app_key (vb_applications b)"
  using update_first_split [OF assms(1) [unfolded application_by_id_def], of "\<lambda>_. a'"] assms(2)
  by (auto simp: update_application_def)

lemma adopted_key: "adopt_criterion sdk c r d raw a = Inr (a', ch) \<Longrightarrow> app_key a' = app_key a"
  by (simp add: app_key_def adopted_frame)

lemma app_key_updates [simp]:
  "app_key (a\<lparr>ap_vetting_path := v\<rparr>) = app_key a" "app_key (a\<lparr>ap_criterion_repicked := w\<rparr>) = app_key a"
  "app_key (a\<lparr>ap_statements := s\<rparr>) = app_key a"
  by (simp_all add: app_key_def)

lemma frame_keys [frame_simps]:
  "vb_vetter_grants (update_application i f b) = vb_vetter_grants b"
  "vb_communities (update_application i f b) = vb_communities b"
  "vb_vetter_grants (queue_for_vta q b) = vb_vetter_grants b"
  "vb_communities (queue_for_vta q b) = vb_communities b"
  "vb_applications (clear_retired_for c b) = vb_applications b"
  "vb_communities (clear_retired_for c b) = vb_communities b"
  "vb_vetter_grants (clear_retired_for c b) = vb_vetter_grants b"
  "vb_applications (add_notes ns b) = vb_applications b"
  "vb_communities (add_notes ns b) = vb_communities b"
  "vb_vetter_grants (add_notes ns b) = vb_vetter_grants b"
  by (simp_all add: update_application_def queue_for_vta_def clear_retired_for_def add_notes_def)

lemma frame_queue_all [frame_simps]:
  "vb_vetter_grants (fold (\<lambda>i. queue_for_vta (DeleteApplication i)) is b) = vb_vetter_grants b"
  "vb_communities (fold (\<lambda>i. queue_for_vta (DeleteApplication i)) is b) = vb_communities b"
  by (induction "is" arbitrary: b) (simp_all add: frame_keys)

lemma start_one:
  assumes "start_application i c p did salt now b = Some (b', a)" "one_of_each b"
  shows "one_of_each b'"
proof (cases "application_for c p b")
  case None
  from None have "(c, p) \<notin> app_key ` set (vb_applications b)"
    by (simp add: app_key_find find_map_none)
  moreover have "app_key a = (c, p)" "b' = b\<lparr>vb_applications := vb_applications b @ [a]\<rparr>"
    using assms(1) None by (auto simp: start_application_def new_application_def app_key_def)
  ultimately show ?thesis using assms(2) by (simp add: one_of_each_def)
next
  case (Some x)
  with assms show ?thesis by (simp add: start_application_def)
qed

lemma update_one:
  assumes "application_by_id i b = Some a" "app_key a' = app_key a" "one_of_each b"
  shows "one_of_each (update_application i (\<lambda>_. a') b)"
  using assms(3) by (simp add: one_of_each_def update_application_keys [OF assms(1,2)] frame_simps)

lemma adopt_known_one:
  assumes "adopt_known_requirements sdk i b = Inr (b', ch)" "one_of_each b"
  shows "one_of_each b'"
  using assms by (auto simp: adopt_known_requirements_def result_simps adopted_key intro: update_one
      split: option.splits)

lemma switch_one: "one_of_each b \<Longrightarrow> one_of_each (fst (switch_vetting sdk i b))"
  by (auto simp: switch_vetting_def Let_def dest!: adopted_key intro: update_one split: option.split sum.split)

lemma grant_one: "one_of_each b \<Longrightarrow> one_of_each (fst (keep_vetter_grant g b))"
proof -
  have "map grant_key (update_first (same_grant g) (\<lambda>_. g) gs) = map grant_key gs" for gs
    by (rule map_update_first) (simp add: same_grant_key)
  then show "one_of_each b \<Longrightarrow> ?thesis"
    by (auto simp: keep_vetter_grant_def one_of_each_def find_map_none Let_def frame_simps
        same_grant_key split: option.split)
qed

lemma removed_one:
  "one_of_each b \<Longrightarrow> one_of_each (fst (retire_joined joined now b))"
  "one_of_each b \<Longrightarrow> one_of_each (fst (abandon_application i b))"
  by (auto simp: one_of_each_def retire_joined_def abandon_application_def Let_def queue_all_deletes frame_simps
      queue_for_vta_deletes intro: distinct_filter_map map_remove_first split: option.split)

lemma kept_one:
  "one_of_each b \<Longrightarrow> one_of_each (fst (prune now b))"
  "one_of_each b \<Longrightarrow> one_of_each (fst (retire_nonconformant bad gn sn b))"
  "one_of_each b \<Longrightarrow> one_of_each (fst (forget_local_engines vn an b))"
  "one_of_each b \<Longrightarrow> one_of_each (fst (take_grant_warnings sp si now b))"
proof -
  have "app_key (lapse_sessions now a) = app_key a" "app_key (fst (forget_local_engine a)) = app_key a" for a
    by (simp_all add: app_key_def lapse_sessions_def forget_local_engine_def)
  then show "one_of_each b \<Longrightarrow> one_of_each (fst (prune now b))"
    "one_of_each b \<Longrightarrow> one_of_each (fst (retire_nonconformant bad gn sn b))"
    "one_of_each b \<Longrightarrow> one_of_each (fst (forget_local_engines vn an b))"
    "one_of_each b \<Longrightarrow> one_of_each (fst (take_grant_warnings sp si now b))"
    by (simp_all add: one_of_each_def prune_def retire_nonconformant_def forget_local_engines_def
        take_grant_warnings_def Let_def frame_simps o_def distinct_filter_map split: prod.split)
qed

lemma book_step_one: "book_step sdk b b' \<Longrightarrow> one_of_each b \<Longrightarrow> one_of_each b'"
proof (induction rule: book_step.induct)
  case (moved f i b)
  have "map app_key (update_first q f xs) = map app_key xs" for q xs
    using moved.hyps by (intro map_update_first) (simp add: changes_application_def app_key_def)
  with moved.prems show ?case by (simp add: one_of_each_def frame_simps) (simp add: update_application_def)
next
  case (learnt c m rq p meta now b)
  then show ?case
    by (auto simp: one_of_each_def learn_manifest_in_def Let_def split: prod.split)
      (metis fst_conv learn_community_distinct)
qed (simp_all add: start_one adopt_known_one switch_one grant_one removed_one kept_one,
     simp_all add: one_of_each_def note_post_quantum_key_def frame_simps queue_for_vta_deletes)

interpretation unique: preserved "book_step sdk" one_of_each for sdk
  by unfold_locales (rule book_step_one)

text \<open>The book keeps one application and one vetter's grant for a community and persona, and one record of
  a community, through every operation in any order; so starting an application twice gives the first again and
  changes nothing, and a second grant replaces the first.\<close>

theorem one_of_each_kept:
  assumes "(book_step sdk)\<^sup>*\<^sup>* b b'" "one_of_each b"
  shows "one_of_each b' \<and>
    (\<forall>a \<in> set (vb_applications b').
       start_application i (ap_community a) (ap_persona a) did salt now b' = Some (b', a)) \<and>
    (\<forall>g \<in> set (vb_vetter_grants b'). \<forall>g'. same_grant g g' \<longrightarrow> gr_credential g' \<noteq> gr_credential g \<longrightarrow>
       g' \<in> set (vb_vetter_grants (fst (keep_vetter_grant g' b'))) \<and>
       g \<notin> set (vb_vetter_grants (fst (keep_vetter_grant g' b'))))"
proof -
  have one: "one_of_each b'" by (rule unique.inv_steps [OF assms])
  have again: "start_application i (ap_community a) (ap_persona a) did salt now b' = Some (b', a)"
    if "a \<in> set (vb_applications b')" for a
  proof -
    have "application_for (ap_community a) (ap_persona a) b' = Some a"
      using find_distinct [of app_key "vb_applications b'" a] one that
      by (simp add: app_key_find one_of_each_def app_key_def)
    then show ?thesis by (simp add: start_application_def)
  qed
  have replaced: "g' \<in> set (vb_vetter_grants (fst (keep_vetter_grant g' b'))) \<and>
       g \<notin> set (vb_vetter_grants (fst (keep_vetter_grant g' b')))"
    if g: "g \<in> set (vb_vetter_grants b')" "same_grant g g'" "gr_credential g' \<noteq> gr_credential g" for g g'
  proof -
    have d: "distinct (map grant_key (vb_vetter_grants b'))" using one by (simp add: one_of_each_def)
    have k: "grant_key g' = grant_key g" using g(2) by (simp add: same_grant_key)
    have f: "List.find (same_grant g') (vb_vetter_grants b') = Some g"
      using find_distinct [OF d g(1)] by (simp add: same_grant_key k)
    obtain us vs where split: "vb_vetter_grants b' = us @ g # vs"
      "update_first (same_grant g') (\<lambda>_. g') (vb_vetter_grants b') = us @ g' # vs"
      using update_first_split [OF f] by blast
    have "g \<notin> set us \<union> set vs" using d by (auto simp: split(1))
    with g(3) show ?thesis by (auto simp: keep_vetter_grant_def f split(2) frame_simps)
  qed
  show ?thesis using one again replaced by blast
qed

section \<open>Notices\<close>

lemma contains_iff: "contains n s \<longleftrightarrow> (\<exists>pre post. s = pre @ n @ post)"
proof (induction s)
  case (Cons c s)
  have "(\<exists>pre post. c # s = pre @ n @ post) \<longleftrightarrow> (\<exists>post. c # s = n @ post) \<or> (\<exists>pre post. s = pre @ n @ post)"
    by (metis append_Cons append_Nil append_eq_Cons_conv)
  moreover have "contains n (c # s) \<longleftrightarrow> (\<exists>post. strip_prefix n (c # s) = Some post) \<or> contains n s" by simp
  ultimately show ?case by (simp only: strip_prefix_Some Cons)
qed simp

text \<open>A new grant clears the notices that name its community, and by finding the identifier anywhere in the
  sentence also those of every community whose identifier begins with it: a credential of that other community,
  retired as nonconformant, is then no longer mentioned although nothing replaced it.\<close>

theorem notices_of_longer_names_cleared:
  assumes "keep_vetter_grant g b = (b', True)"
    and "\<And>c. \<exists>pre post. note_for c = pre @ c @ post"
  shows "note_for (gr_community g @ rest) \<notin> set (vb_retired b') \<and>
    set (vb_retired b') = {n \<in> set (vb_retired b). \<nexists>pre post. n = pre @ gr_community g @ post}"
proof -
  have "vb_retired b' = filter (\<lambda>n. \<not> contains (gr_community g) n) (vb_retired b)"
    using assms(1) by (auto simp: keep_vetter_grant_def clear_retired_for_def Let_def split: option.splits if_splits)
  then have kept: "set (vb_retired b') = {n \<in> set (vb_retired b). \<nexists>pre post. n = pre @ gr_community g @ post}"
    by (auto simp: contains_iff)
  from assms(2) [of "gr_community g @ rest"] obtain pre post
    where "note_for (gr_community g @ rest) = pre @ gr_community g @ (rest @ post)" by auto
  with kept show ?thesis by blast
qed

section \<open>A book\<close>

definition c_grant :: vetter_grant where
  "c_grant = \<lparr>gr_community = ''did:c'', gr_persona = 7, gr_credential_id = None, gr_valid_until = Some 5,
     gr_received_at = 0, gr_credential = JNull\<rparr>"

text \<open>Two criteria: one that takes either path, and one whose critical extension no build of this suite reads.\<close>

definition wire_either :: json where
  "wire_either = JObject [(''ext'', JObject [(hidden_vetting_ns, JNull)])]"

definition wire_odd :: json where
  "wire_odd = JObject [(''extCritical'', JArray [JString ''urn:odd''])]"

definition criterion_of :: "string \<Rightarrow> json \<Rightarrow> known_criterion" where
  "criterion_of i w = \<lparr>kn_community = ''did:c'', kn_criterion_id = i, kn_requirements_digest = Some (''z'' @ i),
     kn_requirements = \<lparr>vr_wire = w, vr_required_claims = None, vr_vetter_role = ''vetter'', vr_decision_sla = None\<rparr>,
     kn_fetched_at = 0, kn_description = None\<rparr>"

definition c_app :: application where
  "c_app = (the (new_application ''a1'' ''did:c'' 7 ''did:me'' (Some ''salt'') 0))
     \<lparr>ap_criterion_id := Some ''either'', ap_hidden := Some october,
      ap_hidden_app := Some \<lparr>av_application_id = ''h1'', av_id = ''u'', av_attestations = []\<rparr>\<rparr>"

definition c_book :: vetting_book where
  "c_book = desk_book\<lparr>vb_applications := [c_app], vb_vetter_grants := [c_grant],
     vb_criteria := [criterion_of ''either'' wire_either, criterion_of ''odd'' wire_odd]\<rparr>"

lemma october_suite: "hp_suite october = suite"
  by (simp add: october_def)

lemma modes:
  "read_mode (sdk_parse_params demo_sdk) (as_raw (criterion_of i wire_either)) = Inr (ModeHidden october)"
  "read_mode (sdk_parse_params demo_sdk) (as_raw (criterion_of i wire_odd)) = Inl (UnsupportedExtension ''urn:odd'')"
  "accepts_named (as_raw (criterion_of i wire_either))"
  by (simp_all add: read_mode_def as_raw_def criterion_of_def wire_either_def wire_odd_def critical_namespaces_def
      json_access demo_sdk_def october_suite hidden_vetting_ns_def accepts_named_def Let_def List.map_filter_simps)

lemma c_paths:
  "paths demo_sdk (criterion_of i wire_either) = Either" "paths demo_sdk (criterion_of i wire_odd) = NamedOnly"
  by (simp_all add: paths_def hidden_vetting_def criterion_hidden_params_def modes)

lemma c_criteria: "criteria_of ''did:c'' c_book = [criterion_of ''either'' wire_either, criterion_of ''odd'' wire_odd]"
  by (simp add: criteria_of_def c_book_def criterion_of_def)

lemma c_application: "application_by_id ''a1'' c_book = Some c_app" "ap_community c_app = ''did:c''"
  "\<not> holds_evidence c_app" "ap_criterion_id c_app = Some ''either''" "ap_hidden c_app = Some october"
  by (simp_all add: application_by_id_def c_book_def c_app_def new_application_def holds_evidence_def
      holds_hidden_attestation_def)

definition way :: "string \<Rightarrow> vetting_path \<Rightarrow> criterion_paths \<Rightarrow> vetting_option" where
  "way i p ps = \<lparr>vo_criterion_id = i, vo_description = None, vo_path = p, vo_paths = ps\<rparr>"

lemma way_fields [simp]: "vo_criterion_id (way i p ps) = i" "vo_path (way i p ps) = p"
  by (simp_all add: way_def)

lemma c_options: "vetting_options demo_sdk ''did:c'' c_book
    = [way ''either'' PathHidden Either, way ''either'' PathNamed Either, way ''odd'' PathNamed NamedOnly]"
  by (simp add: vetting_options_def c_criteria options_of_def c_paths ways_def way_def) (simp add: criterion_of_def)

lemma c_known: "find_known ''did:c'' ''either'' c_book = Some (criterion_of ''either'' wire_either)"
  "find_known ''did:c'' ''odd'' c_book = Some (criterion_of ''odd'' wire_odd)"
  by (simp_all add: find_known_in c_criteria) (simp_all add: criterion_of_def)

lemma c_current: "application_vetting demo_sdk ''a1'' c_book = Some (way ''either'' PathHidden Either)"
  by (simp add: application_vetting_def c_application c_known c_paths way_def Let_def) (simp add: criterion_of_def)

lemma c_next: "next_option (way ''either'' PathHidden Either) (vetting_options demo_sdk ''did:c'' c_book)
    = Some (way ''either'' PathNamed Either)"
  by (simp add: c_options next_option_def way_def Let_def)

lemma c_switched: "\<exists>b'. switch_vetting demo_sdk ''a1'' c_book = (b', Inr (way ''either'' PathNamed Either))"
proof -
  have "sdk_requirements_ok demo_sdk r" for r by (simp add: demo_sdk_def)
  then show ?thesis
    by (simp add: switch_vetting_def c_application c_current c_next c_known adopt_criterion_def
        offered_hidden_def modes Let_def)
qed

theorem switch_lands_witness:
  "\<exists>b'. application_vetting demo_sdk ''a1'' b' = Some (way ''either'' PathNamed Either)"
proof -
  obtain b' where "switch_vetting demo_sdk ''a1'' c_book = (b', Inr (way ''either'' PathNamed Either))"
    using c_switched by blast
  from switch_lands [OF this c_application(1)] show ?thesis
    by (auto simp: c_application c_criteria criterion_of_def)
qed

definition c_named :: vetting_book where
  "c_named = c_book\<lparr>vb_applications := [c_app\<lparr>ap_hidden := None, ap_vetting_path := Some PathNamed\<rparr>]\<rparr>"

theorem failed_switch_sticks_witness:
  "snd (switch_vetting demo_sdk ''a1'' (fst (switch_vetting demo_sdk ''a1'' c_named)))
     = Inl (CouldNotSwitch (HiddenErr (UnsupportedExtension ''urn:odd'')))"
proof -
  let ?a = "c_app\<lparr>ap_hidden := None, ap_vetting_path := Some PathNamed\<rparr>"
  have a: "application_by_id ''a1'' c_named = Some ?a" "\<not> holds_evidence ?a"
    by (simp_all add: application_by_id_def c_named_def c_app_def new_application_def holds_evidence_def
        holds_hidden_attestation_def)
  have same: "find_known c k c_named = find_known c k c_book"
    "vetting_options demo_sdk c c_named = vetting_options demo_sdk c c_book" for c k
    by (simp_all add: find_known_def c_named_def vetting_options_def criteria_of_def)
  have cur: "application_vetting demo_sdk ''a1'' c_named = Some (way ''either'' PathNamed Either)"
    by (simp add: application_vetting_def a same c_application c_known c_paths way_def Let_def) (simp add: criterion_of_def)
  have nxt: "next_option (way ''either'' PathNamed Either) (vetting_options demo_sdk ''did:c'' c_book)
      = Some (way ''odd'' PathNamed NamedOnly)"
    by (simp add: c_options next_option_def way_def Let_def)
  have "adopt_criterion demo_sdk (kn_criterion_id k) (kn_requirements k) (kn_requirements_digest k)
      (Some (as_raw (criterion_of ''odd'' wire_odd))) x = Inl (HiddenErr (UnsupportedExtension ''urn:odd''))"
    for k :: known_criterion and x :: application
  proof -
    have "sdk_requirements_ok demo_sdk r" for r by (simp add: demo_sdk_def)
    then show ?thesis by (simp add: adopt_criterion_def offered_hidden_def modes Let_def)
  qed
  then have "\<exists>b'. switch_vetting demo_sdk ''a1'' c_named
      = (b', Inl (CouldNotSwitch (HiddenErr (UnsupportedExtension ''urn:odd''))))"
    using a by (simp add: switch_vetting_def cur same nxt c_known c_application Let_def)
  then obtain b' where sw: "switch_vetting demo_sdk ''a1'' c_named
      = (b', Inl (CouldNotSwitch (HiddenErr (UnsupportedExtension ''urn:odd''))))" by blast
  from failed_switch_sticks [OF sw a(1)] show ?thesis by (auto simp: sw)
qed

theorem warnings_given_once_witness:
  "snd (take_grant_warnings (\<lambda>_. ''7'') (\<lambda>_. ''t'') 10 (fst (take_grant_warnings (\<lambda>_. ''7'') (\<lambda>_. ''t'') 10 c_book))) = []"
  using warnings_given_once [OF prod.collapse [symmetric],
      where sp = "\<lambda>_. ''7''" and si = "\<lambda>_. ''t''" and now = 10 and b = c_book] by simp

definition c_manifest :: manifest where
  "c_manifest = \<lparr>mf_criteria = [\<lparr>mc_id = ''v'', mc_vetting = Some (kn_requirements (criterion_of ''v'' wire_either)),
     mc_digest = ''zV'', mc_description = None, mc_presentation = []\<rparr>], mf_branding = None\<rparr>"

theorem manifest_settles_witness:
  "knowledge ''did:c'' (fst (learn_manifest_in demo_sdk ''did:c'' c_manifest [] (Some V0_4) [] 3 c_book)) \<noteq> UnknownCommunity \<and>
   \<not> snd (learn_manifest_in demo_sdk ''did:c'' c_manifest [] (Some V0_4) [] 9
       (fst (learn_manifest_in demo_sdk ''did:c'' c_manifest [] (Some V0_4) [] 3 c_book)))"
  using manifest_settles [OF prod.collapse [symmetric],
      where sdk = demo_sdk and c = "''did:c''" and m = c_manifest and rq = "[]" and p = "Some V0_4" and meta = "[]"
        and now = 3 and later = 9 and b = c_book] by simp

theorem request_attested_as_asked_witness: "request_vetting demo_sdk ''r1'' book_1 \<noteq> AttestHidden"
proof -
  have "desk_entry ''r1'' book_1 = Some alice_entry" by (simp add: desk_entry_def book_1_def)
  moreover have "rq_ext (de_request alice_entry) = None"
    by (simp add: alice_entry_def new_entry_def alice_asks_def desk_body_def)
  ultimately show ?thesis
    using request_attested_as_asked [of "''r1''" book_1 alice_entry demo_sdk]
    by (simp add: read_request_ext_def json_access)
qed

theorem vta_deletions_complete_witness:
  "vta_deletions (fst (abandon_application ''a1'' c_book)) = {#''h1''#}"
proof -
  have "vta_held c_book = {#''h1''#}" "vta_deletions c_book = {#}"
    by (simp_all add: vta_held_def vta_deletions_def c_book_def c_app_def new_application_def desk_book_def
        List.map_filter_simps)
  moreover have "vb_applications (fst (abandon_application ''a1'' c_book)) = []"
    by (simp add: abandon_application_def c_application(1) Let_def queue_for_vta_deletes split: option.split)
      (simp add: c_book_def c_app_def new_application_def)
  then have "vta_held (fst (abandon_application ''a1'' c_book)) = {#}"
    by (simp add: vta_held_def List.map_filter_simps)
  ultimately show ?thesis
    using vta_deletions_complete [of "\<lambda>_. False" 0 c_book "''a1''"] by simp
qed

theorem one_of_each_kept_witness:
  "start_application ''a2'' ''did:c'' 7 ''did:me'' None 5 (queue_for_vta (DeleteApplication ''h'') c_book)
     = Some (queue_for_vta (DeleteApplication ''h'') c_book, c_app)"
proof -
  let ?b = "queue_for_vta (DeleteApplication ''h'') c_book"
  have "book_step demo_sdk c_book ?b" by (rule book_step.queued)
  then have run: "(book_step demo_sdk)\<^sup>*\<^sup>* c_book ?b" ..
  have one: "one_of_each c_book" by (simp add: one_of_each_def c_book_def desk_book_def)
  have mem: "c_app \<in> set (vb_applications ?b)" by (simp add: queue_for_vta_def c_book_def)
  have seven: "ap_persona c_app = 7" by (simp add: c_app_def new_application_def)
  have "\<forall>a \<in> set (vb_applications ?b).
      start_application ''a2'' (ap_community a) (ap_persona a) ''did:me'' None 5 ?b = Some (?b, a)"
    using one_of_each_kept [OF run one, where i = "''a2''" and did = "''did:me''" and salt = None and now = 5]
    by (elim conjE)
  from bspec [OF this mem] show ?thesis by (simp only: c_application(2) seven)
qed

theorem notices_of_longer_names_cleared_witness:
  "''Replace your grant from did:coop'' \<notin>
     set (vb_retired (fst (keep_vetter_grant (c_grant\<lparr>gr_credential := JString ''new''\<rparr>)
       (c_book\<lparr>vb_retired := [''Replace your grant from did:coop'']\<rparr>))))"
proof -
  let ?g = "c_grant\<lparr>gr_credential := JString ''new''\<rparr>"
  let ?b = "c_book\<lparr>vb_retired := [''Replace your grant from did:coop'']\<rparr>"
  have "snd (keep_vetter_grant ?g ?b)"
    by (simp add: keep_vetter_grant_def same_grant_def c_book_def c_grant_def)
  then have kept: "keep_vetter_grant ?g ?b = (fst (keep_vetter_grant ?g ?b), True)"
    by (simp only: prod_eq_iff fst_conv snd_conv)
  have "\<exists>pre post. ''Replace your grant from '' @ c = pre @ c @ post" for c
    by (intro exI [of _ "''Replace your grant from ''"] exI [of _ "[]"]) simp
  from notices_of_longer_names_cleared [OF kept, where note_for = "\<lambda>c. ''Replace your grant from '' @ c" and rest = "''oop''", OF this, THEN conjunct1]
  moreover have "gr_community ?g = ''did:c''" by (simp add: c_grant_def)
  ultimately show ?thesis by simp
qed

end
