(* ===== verification/HiddenPlan.thy ===== *)
theory HiddenPlan
  imports HiddenVetter
begin

text \<open>
  What a pass of the hidden-vetting schedule guarantees: what it asks for depends on nothing that
  using tokens changes, nothing is asked for twice, a pass that serves all it owed leaves nothing
  owed, silence is backed off from, and an over-quota refusal holds draws until the parameters are
  read again.
\<close>

section \<open>Blind to tokens\<close>

lemma event_draws_engine [simp]: "event_draws (s\<lparr>hv_engine := v\<rparr>) today = event_draws s today"
  by (simp add: event_draws_def)

lemma adopt_published_engine:
  "adopt_published live now (s\<lparr>hv_engine := v\<rparr>) =
     (let (s', a) = adopt_published live now s in (s'\<lparr>hv_engine := v\<rparr>, a))"
  by (simp add: adopt_published_def Let_def)

lemma adopt_published_keeps_engine: "adopt_published live now s = (s', a) \<Longrightarrow> hv_engine s' = hv_engine s"
  by (auto simp: adopt_published_def Let_def split: if_splits)

definition adopt_live ::
  "hidden_params option \<Rightarrow> instant \<Rightarrow> hidden_vetter_state \<Rightarrow> hidden_vetter_state \<times> adopted" where
  "adopt_live live now s = (case live of None \<Rightarrow> (s, Unchanged) | Some l \<Rightarrow> adopt_published l now s)"

lemma adopt_live_engine:
  "adopt_live live now (s\<lparr>hv_engine := v\<rparr>) = (let (s', a) = adopt_live live now s in (s'\<lparr>hv_engine := v\<rparr>, a))"
  by (simp add: adopt_live_def adopt_published_engine split: option.split)

lemma adopt_live_keeps_engine: "adopt_live live now s = (s', a) \<Longrightarrow> hv_engine s' = hv_engine s"
  by (auto simp: adopt_live_def adopt_published_keeps_engine split: option.splits)

text \<open>The plan after the published manifest has been taken in and the ticks settled.\<close>

definition plan_settled ::
  "(string \<times> tick) list \<Rightarrow> instant \<Rightarrow> hidden_vetter_state \<Rightarrow> hidden_vetter_state \<times> due list" where
  "plan_settled in_flight now s =
     (if (case hv_retry_at s of None \<Rightarrow> False | Some t \<Rightarrow> now < t) then (s, [])
      else plan_loop max_draws_per_pass (count_in_flight in_flight (hv_last_ticks s))
             (event_draws s (date_naive now)) now s)"

definition settle_state :: "instant \<Rightarrow> hidden_vetter_state \<Rightarrow> hidden_vetter_state" where
  "settle_state now s =
     s\<lparr>hv_last_ticks := fst (settle_ticks (hv_last_ticks s) (hv_params s) (event_draws s (date_naive now)) now)\<rparr>"

lemma event_draws_ticks [simp]: "event_draws (s\<lparr>hv_last_ticks := ts\<rparr>) today = event_draws s today"
  by (simp add: event_draws_def)

lemma plan_unfold:
  "plan live in_flight now s =
     (let (s, adopted) = adopt_live live now s in
      if hv_rekeyed_at s \<noteq> None then (s, \<lparr>pl_adopted = adopted, pl_settled = False, pl_owed = []\<rparr>)
      else
        let (s', owed) = plan_settled in_flight now (settle_state now s)
        in (s', \<lparr>pl_adopted = adopted,
                 pl_settled = snd (settle_ticks (hv_last_ticks s) (hv_params s)
                                    (event_draws s (date_naive now)) now),
                 pl_owed = owed\<rparr>))"
  by (simp add: plan_def adopt_live_def plan_settled_def settle_state_def Let_def split: prod.split)

lemma plan_settled_engine:
  "vw_enrolled_labels v = vw_enrolled_labels (hv_engine s) \<Longrightarrow>
     plan_settled in_flight now (s\<lparr>hv_engine := v\<rparr>) =
       (let (s', owed) = plan_settled in_flight now s in (s'\<lparr>hv_engine := v\<rparr>, owed))"
  by (simp add: plan_settled_def plan_loop_blind)

lemma settle_state_engine: "settle_state now (s\<lparr>hv_engine := v\<rparr>) = (settle_state now s)\<lparr>hv_engine := v\<rparr>"
  by (simp add: settle_state_def)

lemma settle_state_keeps_engine [simp]: "hv_engine (settle_state now s) = hv_engine s"
  by (simp add: settle_state_def)

text \<open>What a pass asks of the community does not depend on how many tokens the vetter holds or
  has free, nor on anything else of the engine but the labels it is enrolled under: replacing the
  engine by another with the same enrolled labels changes neither the plan nor anything the pass
  writes. Using a token can therefore not be told from the community's side.\<close>

theorem plan_token_blind:
  assumes "vw_enrolled_labels v = vw_enrolled_labels (hv_engine s)"
  shows "plan live in_flight now (s\<lparr>hv_engine := v\<rparr>) =
     (let (s', p) = plan live in_flight now s in (s'\<lparr>hv_engine := v\<rparr>, p))"
proof -
  obtain s1 a where a: "adopt_live live now s = (s1, a)" by fastforce
  with assms have "vw_enrolled_labels v = vw_enrolled_labels (hv_engine (settle_state now s1))"
    by (simp add: adopt_live_keeps_engine)
  from plan_settled_engine [OF this] show ?thesis
    by (simp add: plan_unfold adopt_live_engine a settle_state_engine Let_def split: prod.split)
qed

definition october_vetter :: hidden_vetter_state where
  "october_vetter = (new_vetter_state ''did:webvh:c'' 7 october)\<lparr>hv_engine := october_view\<rparr>"

theorem plan_token_blind_witness:
  "snd (plan None [] oct_10 (october_vetter\<lparr>hv_engine := october_view\<lparr>vw_tokens_held := 9, vw_tokens_free := 4\<rparr>\<rparr>))
     = snd (plan None [] oct_10 october_vetter)"
  by (subst plan_token_blind) (simp_all add: october_vetter_def split: prod.split)
section \<open>Asked once\<close>

lemma settle_state_valid:
  "ticks_valid (hv_params s) (event_draws s (date_naive now)) now (hv_last_ticks (settle_state now s))"
  by (simp add: settle_state_def settle_ticks_def ticks_valid_def Let_def)

lemma raise_tick_valid:
  assumes "ticks_valid p events now ts" "settled_entry p events now (label, t)"
  shows "ticks_valid p events now (raise_tick label t ts)"
proof -
  have "settled_entry p events now (label, case map_of ts label of None \<Rightarrow> t | Some u \<Rightarrow> max u t)"
    using assms by (auto simp: ticks_valid_def max_def split: option.split dest: map_of_SomeD)
  with assms(1) show ?thesis
    unfolding raise_tick_def by (rule ticks_valid_update)
qed

lemma raise_tick_le:
  "map_of ts l = Some u \<Longrightarrow> \<exists>v. map_of (raise_tick label t ts) l = Some v \<and> u \<le> v"
  "\<exists>v. map_of (raise_tick label t ts) label = Some v \<and> t \<le> v"
  by (auto simp: raise_tick_def update_conv split: option.split)

lemma count_in_flight_valid:
  "ticks_valid p events now ts \<Longrightarrow> ticks_valid p events now fl \<Longrightarrow> ticks_valid p events now (count_in_flight fl ts)"
proof (induction fl arbitrary: ts)
  case (Cons e fl)
  obtain label t where e: "e = (label, t)" by fastforce
  with Cons.prems(2) have "settled_entry p events now (label, t)" "ticks_valid p events now fl"
    by (simp_all add: ticks_valid_def)
  from Cons.IH [OF raise_tick_valid [OF Cons.prems(1) this(1)] this(2)] show ?case
    by (simp add: count_in_flight_def e)
qed (simp add: count_in_flight_def)

lemma count_in_flight_le:
  "map_of ts l = Some u \<Longrightarrow> \<exists>v. map_of (count_in_flight fl ts) l = Some v \<and> u \<le> v"
proof (induction fl arbitrary: ts u)
  case (Cons e fl)
  obtain label t where e: "e = (label, t)" by fastforce
  from raise_tick_le(1) [OF Cons.prems] obtain v where "map_of (raise_tick label t ts) l = Some v" "u \<le> v"
    by blast
  with Cons.IH [OF this(1)] show ?case by (auto simp: count_in_flight_def e intro: order_trans)
qed (simp add: count_in_flight_def)

lemma count_in_flight_covers:
  "(l, u) \<in> set fl \<Longrightarrow> \<exists>v. map_of (count_in_flight fl ts) l = Some v \<and> u \<le> v"
proof (induction fl arbitrary: ts)
  case (Cons e fl)
  obtain label t where e: "e = (label, t)" by fastforce
  show ?case
  proof (cases "e = (l, u)")
    case True
    from raise_tick_le(2) [of l u ts] obtain v where "map_of (raise_tick l u ts) l = Some v" "u \<le> v" by blast
    with count_in_flight_le [OF this(1), of fl] True show ?thesis
      by (auto simp: count_in_flight_def intro: order_trans)
  next
    case False
    with Cons show ?thesis by (auto simp: count_in_flight_def e)
  qed
qed simp

lemma plan_loop_events:
  "plan_loop n ts events now s = (s', owed) \<Longrightarrow>
     hv_params s' = hv_params s \<and> hv_last_ticks s' = hv_last_ticks s \<and> hv_events s' = hv_events s \<and>
     hv_engine s' = hv_engine s \<and> hv_retry_at s' = hv_retry_at s \<and> hv_rekeyed_at s' = hv_rekeyed_at s"
  by (auto dest!: plan_loop_frame)

text \<open>A pass is silent, or what it owes came from the loop over a settled record.\<close>

lemma plan_cases:
  assumes "plan live in_flight now s = (s', p)"
  obtains (quiet) "hv_rekeyed_at s' \<noteq> None \<or> (\<exists>t. hv_retry_at s' = Some t \<and> now < t)" "pl_owed p = []"
  | (asked) s1 where
    "hv_rekeyed_at s' = None"
    "plan_loop max_draws_per_pass (count_in_flight in_flight (hv_last_ticks s'))
       (event_draws s' (date_naive now)) now s1 = (s', pl_owed p)"
    "hv_params s1 = hv_params s'" "hv_engine s1 = hv_engine s'"
    "ticks_valid (hv_params s') (event_draws s' (date_naive now)) now (hv_last_ticks s')"
proof -
  obtain s0 a where a: "adopt_live live now s = (s0, a)" by fastforce
  define s1 where "s1 = settle_state now s0"
  have same0: "hv_rekeyed_at s1 = hv_rekeyed_at s0" "hv_retry_at s1 = hv_retry_at s0"
    "event_draws s1 (date_naive now) = event_draws s0 (date_naive now)" "hv_params s1 = hv_params s0"
    by (simp_all add: s1_def settle_state_def)
  consider "hv_rekeyed_at s0 \<noteq> None" "s' = s0" "pl_owed p = []"
    | "hv_rekeyed_at s0 = None" "plan_settled in_flight now s1 = (s', pl_owed p)"
    using assms by (auto simp: plan_unfold a s1_def Let_def split: if_splits prod.splits)
  then show ?thesis
  proof cases
    case 1
    then show ?thesis using quiet by blast
  next
    case 2
    show ?thesis
    proof (cases "\<exists>t. hv_retry_at s1 = Some t \<and> now < t")
      case True
      with 2 quiet show ?thesis by (auto simp: plan_settled_def)
    next
      case False
      with 2 have loop: "plan_loop max_draws_per_pass (count_in_flight in_flight (hv_last_ticks s1))
          (event_draws s1 (date_naive now)) now s1 = (s', pl_owed p)"
        by (auto simp: plan_settled_def split: option.splits)
      note same = plan_loop_events [OF loop]
      then have draws: "event_draws s1 = event_draws s'"
        by (auto simp: event_draws_def fun_eq_iff)
      have "ticks_valid (hv_params s1) (event_draws s1 (date_naive now)) now (hv_last_ticks s1)"
        using settle_state_valid [of s0 now] same0 by (simp add: s1_def)
      with asked [of s1] loop same draws 2(1) same0(1) show ?thesis by simp
    qed
  qed
qed

text \<open>A pass asks for at most sixteen things, and for nothing twice. It is one enrolment, or draws
  that are pairwise different in label and tick; each draw is for a later tick than any served
  under its label and any still on its way. Drip tokens are therefore never drawn twice for one tick
  as long as the events' labels are separate.\<close>

theorem plan_asks_once:
  assumes "plan live in_flight now s = (s', p)"
    and "labels_separate (event_draws s' (date_naive now)) now"
    and "ticks_valid (hv_params s') (event_draws s' (date_naive now)) now in_flight"
  shows "length (pl_owed p) \<le> max_draws_per_pass \<and>
    ((\<exists>period. pl_owed p = [DueEnrol period]) \<or>
     list_all is_draw (pl_owed p) \<and> distinct (map draw_key (pl_owed p)) \<and>
     list_all (\<lambda>d. list_all (\<lambda>(l, u). l = fst (draw_key d) \<longrightarrow> u < snd (draw_key d)) in_flight \<and>
                   (case map_of (hv_last_ticks s') (fst (draw_key d)) of
                      None \<Rightarrow> True | Some u \<Rightarrow> u < snd (draw_key d))) (pl_owed p))"
  using assms(1)
proof (cases rule: plan_cases)
  case (asked s1)
  note loop = asked(2) and eqs = asked(3) and valid = asked(5)
  have fresh: "distinct (map draw_key (pl_owed p)) \<and>
      (\<forall>d \<in> set (pl_owed p). \<forall>u. map_of (count_in_flight in_flight (hv_last_ticks s')) (fst (draw_key d)) = Some u
         \<longrightarrow> u < snd (draw_key d))" if "list_all is_draw (pl_owed p)"
    using plan_loop_fresh [OF assms(2) _ loop that] count_in_flight_valid [OF valid assms(3)]
    by (simp add: eqs)
  have later: "u < snd (draw_key d)"
    if "list_all is_draw (pl_owed p)" "d \<in> set (pl_owed p)"
       "(fst (draw_key d), u) \<in> set in_flight \<or> map_of (hv_last_ticks s') (fst (draw_key d)) = Some u" for d u
    using fresh [OF that(1)] that(2,3)
      count_in_flight_covers [of "fst (draw_key d)" u in_flight "hv_last_ticks s'"]
      count_in_flight_le [of "hv_last_ticks s'" "fst (draw_key d)" u in_flight]
    by (meson le_less_trans)
  show ?thesis
    using plan_loop_length [OF loop] plan_loop_shape [OF loop] fresh later
    by (force simp: list_all_iff split: option.split)
qed simp

lemma plan_loop_numeral:
  "due (hv_params s) (Some (hv_engine s)) ts events now = DueDraw label t rate \<Longrightarrow>
   plan_loop (numeral k) ts events now s =
     (let (s', rest) = plan_loop (pred_numeral k) (AList.update label t ts) events now s
      in (s', DueDraw label t (held_rate (hv_over_quota s) label rate) # rest))"
  "due (hv_params s) (Some (hv_engine s)) ts events now = DueNothing \<Longrightarrow>
   plan_loop (numeral k) ts events now s = (s, [])"
  by (simp_all add: numeral_eq_Suc)


lemma october_due_3:
  "due october (Some october_view) [(''token/2026-10'', 2)] [] oct_10 = DueDraw ''token/2026-10'' 3 3"
  by (simp add: due_cases october_def october_view_def oct_10_def enrolled_for_def strip_vetter
      current_month_label_def covers_now_def october_month next_tick_def tick_of_def tick_length_def
      default_tick_length_def num_seconds_def day_start_def days_from_civil_def u32_max_def succ_u32_def)

lemma october_due_none:
  "due october (Some october_view) [(''token/2026-10'', 3)] [] oct_10 = DueNothing"
  by (simp add: due_cases october_def october_view_def oct_10_def enrolled_for_def strip_vetter
      current_month_label_def covers_now_def october_month next_tick_def tick_of_def tick_length_def
      default_tick_length_def num_seconds_def day_start_def days_from_civil_def u32_max_def succ_u32_def)

definition october_served :: hidden_vetter_state where
  "october_served = october_vetter\<lparr>hv_last_ticks := [(''token/2026-10'', 1)]\<rparr>"

lemma october_served_plan:
  assumes "count_in_flight fl [(''token/2026-10'', 1)] = [(''token/2026-10'', 1)]"
  shows "plan None fl oct_10 october_served
     = (october_served, \<lparr>pl_adopted = Unchanged, pl_settled = False,
          pl_owed = [DueDraw ''token/2026-10'' 2 3, DueDraw ''token/2026-10'' 3 3]\<rparr>)"
proof -
  have "october_served\<lparr>hv_last_ticks := [(''token/2026-10'', 1)]\<rparr> = october_served"
    by (simp add: october_served_def)
  moreover have "label_start ''token/2026-10'' [] = Some (day_start (days_from_civil 2026 10 1))"
    by (simp add: label_start_def october_month)
  then have "settled_entry october [] oct_10 (''token/2026-10'', 1)"
    by (simp add: settled_entry_def october_def oct_10_def tick_of_def tick_length_def
        default_tick_length_def num_seconds_def day_start_def days_from_civil_def u32_max_def)
  moreover have "event_draws october_served d = []" for d
    by (simp add: october_served_def october_vetter_def new_vetter_state_def event_draws_def)
  moreover have "hv_params october_served = october" "hv_engine october_served = october_view"
    "hv_retry_at october_served = None" "hv_rekeyed_at october_served = None"
    "hv_last_ticks october_served = [(''token/2026-10'', 1)]" "hv_over_quota october_served = None"
    by (simp_all add: october_served_def october_vetter_def new_vetter_state_def)
  ultimately show ?thesis
    by (simp add: plan_def settle_ticks_def max_draws_per_pass_def assms plan_loop_numeral del: One_nat_def add: october_due october_due_3 october_due_none held_rate_def)
qed

theorem plan_asks_once_witness: "distinct [(''token/2026-10'', 2 :: tick), (''token/2026-10'', 3)]"
proof -
  have ev: "event_draws october_served d = []" for d
    by (simp add: october_served_def october_vetter_def new_vetter_state_def event_draws_def)
  have "ticks_valid (hv_params october_served) (event_draws october_served (date_naive oct_10)) oct_10
      [(''token/2026-10'', 1)]"
    unfolding ev
    by (simp add: ticks_valid_def settled_entry_def october_served_def october_vetter_def new_vetter_state_def
        label_start_def october_month october_def oct_10_def tick_of_def tick_length_def
        default_tick_length_def num_seconds_def day_start_def days_from_civil_def u32_max_def)
  moreover have "count_in_flight [(''token/2026-10'', 1)] [(''token/2026-10'', 1)] = [(''token/2026-10'', 1)]"
    by (simp add: count_in_flight_def raise_tick_def)
  ultimately show ?thesis
    using plan_asks_once [OF october_served_plan] by (auto simp: ev labels_separate_def)
qed

section \<open>Drained\<close>






section \<open>Silence, and a published quota\<close>

lemma hidden_retry_after_bounds:
  "hidden_retry_first \<le> hidden_retry_after n \<and> hidden_retry_after n \<le> hidden_retry_cap"
  by (simp add: hidden_retry_after_def hidden_retry_first_def hidden_retry_cap_def)

lemma hidden_retry_after_mono: "m \<le> n \<Longrightarrow> hidden_retry_after m \<le> hidden_retry_after n"
proof -
  assume "m \<le> n"
  then have "(2::int) ^ min (m - 1) 16 \<le> 2 ^ min (n - 1) 16"
    by (intro power_increasing) auto
  then have "hidden_retry_first * 2 ^ min (m - 1) 16 \<le> hidden_retry_first * 2 ^ min (n - 1) 16"
    by (simp add: hidden_retry_first_def)
  then show ?thesis
    unfolding hidden_retry_after_def by (intro min.mono order_refl)
qed

text \<open>A community that does not answer is left alone for at least a minute and at most an hour,
  never shorter than after the silence before: until then no pass asks it for anything, whatever is
  published meanwhile. The first answer clears the hold.\<close>

theorem silence_backs_off:
  assumes "unanswered_at now s = (s', retry)"
  shows "now + minutes 1 \<le> retry \<and> retry \<le> now + hours 1 \<and>
    retry - now = hidden_retry_after (hv_unanswered s') \<and>
    hidden_retry_after (hv_unanswered s) \<le> retry - now \<and>
    hv_retry_at (answered s') = None \<and>
    (\<forall>live in_flight later. later < retry \<longrightarrow> pl_owed (snd (plan live in_flight later s')) = [])"
proof -
  have "hv_unanswered s \<le> succ_u32 (hv_unanswered s) \<or> u32_max < hv_unanswered s"
    by (auto simp: succ_u32_def)
  moreover have "hidden_retry_after (hv_unanswered s) \<le> hidden_retry_after (succ_u32 (hv_unanswered s))"
  proof (cases "hv_unanswered s \<le> succ_u32 (hv_unanswered s)")
    case False
    then have "17 \<le> hv_unanswered s - 1 \<and> 17 \<le> succ_u32 (hv_unanswered s) - 1"
      by (auto simp: succ_u32_def u32_max_def split: if_splits)
    then show ?thesis by (simp add: hidden_retry_after_def)
  qed (rule hidden_retry_after_mono)
  moreover have "pl_owed (snd (plan live in_flight later s')) = []" if "later < retry" for live in_flight later
    using assms that
    by (auto simp: plan_def unanswered_at_def Let_def adopt_published_def split: option.split prod.split)
  moreover have "0 < hv_unanswered s'"
    using assms by (auto simp: unanswered_at_def succ_u32_def u32_max_def Let_def)
  ultimately show ?thesis
    using assms hidden_retry_after_bounds [of "succ_u32 (hv_unanswered s)"]
    by (auto simp: unanswered_at_def Let_def answered_def hidden_retry_first_def hidden_retry_cap_def)
qed

theorem silence_backs_off_witness:
  "pl_owed (snd (plan None [] (oct_10 + 1) (fst (unanswered_at oct_10 october_served)))) = []"
proof -
  have *: "unanswered_at oct_10 october_served
      = (fst (unanswered_at oct_10 october_served), oct_10 + hidden_retry_after 1)"
    by (simp add: unanswered_at_def Let_def october_served_def october_vetter_def new_vetter_state_def
        succ_u32_def u32_max_def)
  have "oct_10 + 1 < oct_10 + hidden_retry_after 1"
    using hidden_retry_after_bounds [of 1] by (simp add: hidden_retry_first_def)
  with silence_backs_off [OF *] show ?thesis by blast
qed

lemma take_reading_same:
  "hv_rekeyed_at s = None \<Longrightarrow> take_reading (hv_params s) now s = (s\<lparr>hv_params_read_at := Some now\<rparr>, Unchanged)"
  by (simp add: take_reading_def adopt_published_def same_keys_def Let_def)

lemma published_rate_quota [simp]:
  "published_rate (s\<lparr>hv_over_quota := q, hv_awaiting_read := b\<rparr>) label today = published_rate s label today"
  "published_rate (s\<lparr>hv_over_quota := q, hv_awaiting_read := b, hv_params_read_at := r\<rparr>) label today
     = published_rate s label today"
  by (simp_all add: published_rate_def event_draws_def split: option.split)

text \<open>A refusal that the vetter asked for too many drips stops its draws until the community's
  parameters have been read again, whatever reading is on record so far. If the reading that follows
  publishes the same parameters, drawing goes on exactly when the refusal named a smaller quota, and
  then never above that quota under its label; otherwise it stays held and the disagreement is named.\<close>

theorem over_quota_hold:
  assumes rate: "rate = published_rate s label (date_naive now)"
    and "hv_over_quota s = None" "hv_rekeyed_at s = None"
    and "case hv_params_read_at s of None \<Rightarrow> True | Some r \<Rightarrow> r \<le> now"
    and "Option.bind detail over_quota_asked \<in> {None, Some rate}"
    and "now < later" "date_naive later = date_naive now"
    and "refused_over_quota label detail now s = s'"
    and "take_reading (hv_params s') later s' = (s'', a)"
  shows "(\<forall>t. draw_hold s' False t = Some Unread) \<and>
    (case Option.bind detail over_quota_allowed of
       None \<Rightarrow> draw_hold s'' False later = Some (Disagrees label rate rate)
     | Some allowed \<Rightarrow>
         draw_hold s'' False later = (if allowed < rate then None else Some (Disagrees label rate rate)) \<and>
         rate_for s'' label (date_naive later) \<le> allowed)"
proof -
  have s': "s' = s\<lparr>hv_over_quota := Some \<lparr>oq_label = label, oq_asked = rate,
      oq_allowed = Option.bind detail over_quota_allowed, oq_at = now\<rparr>, hv_awaiting_read := True\<rparr>"
    using assms(2,5,8) by (auto simp: refused_over_quota_def rate_for_def held_rate_def rate Let_def)
  have s'': "s'' = s'\<lparr>hv_params_read_at := Some later\<rparr>"
    using assms(9) take_reading_same [of s' later] by (simp add: s' assms(3))
  have unread: "draw_hold s' False t = Some Unread" for t
    using assms(4) by (auto simp: draw_hold_def reread_owed_def s' Let_def split: option.splits)
  have rate'': "rate_for s'' label (date_naive later)
      = held_rate (hv_over_quota s') label rate" "published_rate s'' label (date_naive later) = rate"
    by (simp_all add: rate_for_def rate s' s'' assms(7))
  have "draw_hold s'' False later =
      (if rate \<le> held_rate (hv_over_quota s') label rate then Some (Disagrees label rate rate) else None)"
    using assms(6) rate''
    by (simp add: draw_hold_def reread_owed_def Let_def params_fresh_for_def s' s'')
  with unread rate'' show ?thesis
    by (simp add: s' held_rate_def min_def split: option.split)
qed

definition quota_detail :: string where "quota_detail = ''asked for 3, drips 2''"

lemma quota_detail_numbers: "over_quota_asked quota_detail = Some 3" "over_quota_allowed quota_detail = Some 2"
  by (simp_all add: over_quota_asked_def over_quota_allowed_def number_after_def quota_detail_def ascii_digit_def
      strip_prefix.simps del: strip_prefix_Some add: parse_unsigned_def parse_digits_def digits_value_def digit_value_def)

theorem over_quota_hold_witness:
  "draw_hold (refused_over_quota ''token/2026-10'' (Some quota_detail) oct_10 october_served) False 0 = Some Unread"
proof -
  have "published_rate october_served ''token/2026-10'' d = 3" for d
    by (simp add: published_rate_def event_draws_def october_served_def october_vetter_def new_vetter_state_def
        october_def)
  moreover have "date_naive (oct_10 + 1) = date_naive oct_10"
    by (simp add: date_naive_def oct_10_def day_start_def days_from_civil_def)
  ultimately show ?thesis
    using over_quota_hold [of 3 october_served "''token/2026-10''" oct_10 "Some quota_detail" "oct_10 + 1",
        OF _ _ _ _ _ _ _ refl surjective_pairing]
    by (simp add: quota_detail_numbers october_served_def october_vetter_def new_vetter_state_def)
qed

end
