(* ===== verification/KeyBinding.thy ===== *)
theory KeyBinding
  imports HiddenPlan
begin

text \<open>
  A check of the key a community bound the vetter to, as a step relation over the operations of
  \<open>openvtc-core/src/vetting/binding.rs\<close>. The callers test nothing of the check before they apply an
  answer (\<open>hidden_refused\<close> in \<open>vetting/inbound.rs\<close>, \<open>apply_recovery\<close> in
  \<open>state_handler/vetting_actions.rs\<close>), so no step is guarded: a late refusal, an answer of the VTA to
  a check already settled and an answer nobody waits for are all steps. A VTA that could not be
  reached changes nothing; a restart forgets the identifier, which is kept in memory only; whatever
  else is done to the record leaves the check as it is.
\<close>

datatype key_event =
    Rebound
  | Rechecked bool
  | Asked
  | Shown binding
  | Recovered bool vetter_view
  | RecoveryRefused recover_refusal
  | Unreached
  | Settled
  | Restarted
  | Elsewhere

inductive key_step :: "hidden_vetter_state \<Rightarrow> key_event \<Rightarrow> hidden_vetter_state \<Rightarrow> bool" where
  rebound: "key_step s Rebound (on_rebound now s)"
| rechecked: "recheck_key now s = (t, started) \<Longrightarrow> key_step s (Rechecked started) t"
| asked: "key_step s Asked (binding_asked now s)"
| shown: "key_step s (Shown b) (fst (on_binding_shown b now s))"
| recovered: "key_step s (Recovered r v) (on_recovered r v now s)"
| refused: "key_step s (RecoveryRefused r) (on_recover_refused r now s)"
| unreached: "key_step s Unreached s"
| settled: "key_step s Settled (key_settled s)"
| restarted: "key_step s Restarted (s\<lparr>hv_bound_id := None\<rparr>)"
| elsewhere: "hv_key t = hv_key s \<Longrightarrow> hv_bound_id t = hv_bound_id s \<Longrightarrow> key_step s Elsewhere t"

inductive_cases key_stepE: "key_step s e t"

fun key_run :: "hidden_vetter_state \<Rightarrow> key_event list \<Rightarrow> hidden_vetter_state \<Rightarrow> bool" where
  "key_run s [] t \<longleftrightarrow> s = t"
| "key_run s (e # es) t \<longleftrightarrow> (\<exists>u. key_step s e u \<and> key_run u es t)"

lemma key_run_append: "key_run s (es @ fs) t \<longleftrightarrow> (\<exists>u. key_run s es u \<and> key_run u fs t)"
  by (induction es arbitrary: s) auto

fun is_recovery :: "key_event \<Rightarrow> bool" where
  "is_recovery (Recovered _ _) = True"
| "is_recovery (RecoveryRefused _) = True"
| "is_recovery _ = False"

text \<open>The events that leave the identifier a check holds as it is.\<close>

fun keeps_identifier :: "key_event \<Rightarrow> bool" where
  "keeps_identifier (Rechecked started) = (\<not> started)"
| "keeps_identifier Asked = True"
| "keeps_identifier Unreached = True"
| "keeps_identifier Elsewhere = True"
| "keeps_identifier _ = False"

lemmas key_ops =
  on_rebound_def recheck_key_def binding_asked_def on_binding_shown_def on_recovered_def
  on_recover_refused_def key_settled_def take_engine_def retry_enrolment_def move_phase_def key_check_at_def

text \<open>The operations of the schedule are among what leaves a check alone.\<close>

lemma take_reading_key [simp]:
  "hv_key (fst (take_reading p now s)) = hv_key s"
  "hv_bound_id (fst (take_reading p now s)) = hv_bound_id s"
  by (simp_all add: take_reading_def adopt_published_def Let_def split: prod.split)

lemma adopt_live_key: "adopt_live live now s = (s', a) \<Longrightarrow> hv_key s' = hv_key s \<and> hv_bound_id s' = hv_bound_id s"
  by (auto simp: adopt_live_def adopt_published_def Let_def split: option.splits if_splits)

lemma plan_key: "plan live in_flight now s = (s', p) \<Longrightarrow> hv_key s' = hv_key s \<and> hv_bound_id s' = hv_bound_id s"
  by (auto simp: plan_unfold plan_settled_def settle_state_def Let_def split: prod.splits if_splits option.splits
      dest!: adopt_live_key plan_loop_frame)

lemma schedule_elsewhere:
  "key_step s Elsewhere (fst (take_reading p now s))"
  "key_step s Elsewhere (fst (plan live in_flight now s))"
  "key_step s Elsewhere (take_engine v s)"
  "key_step s Elsewhere (record_served label t s)"
  "key_step s Elsewhere (answered s)"
  "key_step s Elsewhere (fst (unanswered_at now s))"
  "key_step s Elsewhere (refused_over_quota label detail now s)"
  using plan_key [of live in_flight now s "fst (plan live in_flight now s)" "snd (plan live in_flight now s)"]
  by (auto intro!: key_step.elsewhere simp: take_engine_def record_served_def answered_def unanswered_at_def
      refused_over_quota_def Let_def split: option.splits)

section \<open>An identifier is kept only while it is needed\<close>

definition bound_kept :: "hidden_vetter_state \<Rightarrow> bool" where
  "bound_kept s \<longleftrightarrow>
     (case hv_bound_id s of
        None \<Rightarrow> True
      | Some _ \<Rightarrow> (case hv_key s of
                     None \<Rightarrow> False
                   | Some k \<Rightarrow> kc_phase k = Recovering \<and> \<not> kc_recovery_tried k))"

lemma bound_kept_step: "key_step s e t \<Longrightarrow> bound_kept s \<Longrightarrow> bound_kept t"
  by (erule key_step.cases)
     (auto simp: bound_kept_def key_ops decide_def Let_def
        split: option.splits if_splits key_phase.splits recover_refusal.splits prod.splits)

interpretation bound: preserved "\<lambda>s t. \<exists>e. key_step s e t" bound_kept
  by unfold_locales (auto intro: bound_kept_step)

lemma key_run_reaches: "key_run s es t \<Longrightarrow> (\<lambda>s t. \<exists>e. key_step s e t)\<^sup>*\<^sup>* s t"
  by (induction es arbitrary: s) (auto intro: converse_rtranclp_into_rtranclp)

lemma bound_kept_run: "key_run s es t \<Longrightarrow> bound_kept s \<Longrightarrow> bound_kept t"
  by (rule bound.inv_steps [OF key_run_reaches])

lemma bound_kept_new [simp]: "bound_kept (new_vetter_state community persona p)"
  by (simp add: bound_kept_def new_vetter_state_def)

section \<open>Where the identifier comes from\<close>

lemma identifier_step:
  assumes "key_step s e t" "bound_kept s" "hv_bound_id t = Some b"
  shows "(\<exists>bnd. e = Shown bnd \<and> bi_id bnd = Some b \<and> vw_id (hv_engine s) \<noteq> b)
    \<or> keeps_identifier e \<and> hv_bound_id s = Some b"
  using assms
  by (cases rule: key_step.cases)
     (auto simp: bound_kept_def key_ops decide_def Let_def
        split: option.splits if_splits key_phase.splits recover_refusal.splits prod.splits)

lemma identifier_shown:
  assumes "key_run s es t" "bound_kept s" "hv_bound_id s = None" "hv_bound_id t = Some b"
  shows "\<exists>pre bnd post u. es = pre @ Shown bnd # post \<and> bi_id bnd = Some b \<and>
    key_run s pre u \<and> vw_id (hv_engine u) \<noteq> b \<and> list_all keeps_identifier post"
  using assms(1,4)
proof (induction es arbitrary: t rule: rev_induct)
  case Nil
  with assms(3) show ?case by simp
next
  case (snoc e es)
  then obtain u where u: "key_run s es u" "key_step u e t"
    by (auto simp: key_run_append)
  from identifier_step [OF u(2) bound_kept_run [OF u(1) assms(2)] snoc.prems(2)] show ?case
  proof (elim disjE exE conjE)
    fix bnd
    assume "e = Shown bnd" "bi_id bnd = Some b" "vw_id (hv_engine u) \<noteq> b"
    with u(1) show ?case by fastforce
  next
    assume e: "keeps_identifier e" "hv_bound_id u = Some b"
    from snoc.IH [OF u(1) e(2)] obtain pre bnd post v where
      "es = pre @ Shown bnd # post" "bi_id bnd = Some b" "key_run s pre v" "vw_id (hv_engine v) \<noteq> b"
      "list_all keeps_identifier post"
      by blast
    with e(1) show ?case
      by (intro exI [of _ pre] exI [of _ bnd] exI [of _ "post @ [e]"] exI [of _ v]) simp
  qed
qed

section \<open>One answer a check\<close>

text \<open>The VTA's answer has been taken in the check that runs, if one runs.\<close>

definition recovery_over :: "hidden_vetter_state \<Rightarrow> bool" where
  "recovery_over s \<longleftrightarrow>
     hv_bound_id s = None \<and> (case hv_key s of None \<Rightarrow> True | Some k \<Rightarrow> kc_recovery_tried k)"

lemma recovery_over_start: "key_step s e t \<Longrightarrow> is_recovery e \<Longrightarrow> recovery_over t"
  by (erule key_step.cases)
     (auto simp: recovery_over_def key_ops Let_def split: option.splits recover_refusal.splits)

lemma recovery_over_step:
  "key_step s e t \<Longrightarrow> recovery_over s \<Longrightarrow> e \<noteq> Rebound \<Longrightarrow> e \<noteq> Rechecked True \<Longrightarrow> recovery_over t"
  by (erule key_step.cases)
     (auto simp: recovery_over_def key_ops decide_def Let_def
        split: option.splits if_splits key_phase.splits recover_refusal.splits prod.splits)

lemma recovery_over_run:
  "key_run s es t \<Longrightarrow> recovery_over s \<Longrightarrow> Rebound \<notin> set es \<Longrightarrow> Rechecked True \<notin> set es \<Longrightarrow> recovery_over t"
  by (induction es arbitrary: s) (auto intro: recovery_over_step)

lemma recovery_over_due: "recovery_over s \<Longrightarrow> recovery_due s = None"
  by (simp add: recovery_over_def recovery_due_def split: option.split)

lemma held_never_enrols:
  "enrolment_held s \<Longrightarrow> DueEnrol period \<notin> set (snd (plan_loop n ts events now s))"
  by (induction n arbitrary: ts) (auto simp: Let_def split: due.splits prod.splits, metis snd_conv)

lemma plan_held:
  assumes "enrolment_held s"
  shows "DueEnrol period \<notin> set (pl_owed (snd (plan live in_flight now s)))"
proof -
  obtain s1 a where a: "adopt_live live now s = (s1, a)" by fastforce
  with assms have "enrolment_held (settle_state now s1)"
    by (auto simp: enrolment_held_def settle_state_def dest!: adopt_live_key)
  from held_never_enrols [OF this] show ?thesis
    by (auto simp: plan_unfold a plan_settled_def Let_def split: prod.split)
       (metis snd_conv)
qed

text \<open>(C39) The VTA is asked to restore a key only for the identifier the community last named, and until
  it has answered once. From a new record, whatever order refusals, the community's answers, the VTA's
  answers, settlements, restarts, checks started by hand and other changes come in, late ones
  included: when a pass asks the VTA for an identifier, the community named it in an answer taken when
  the engine held another, and since then no refusal, no other answer about the binding, no answer of
  the VTA, no settlement and no restart has come. If the VTA ever answered before, restored or
  refused, a check was started after that, by another identifierRebound or a recheck; only a VTA
  that could not be reached is asked again in the same check. While it is asked, no pass owes an
  enrolment.\<close>

theorem recovery_asked_for_named:
  assumes "key_run (new_vetter_state community persona params) es t" and "recovery_due t = Some b"
  shows "(\<exists>pre bnd post u. es = pre @ Shown bnd # post \<and> bi_id bnd = Some b \<and>
      key_run (new_vetter_state community persona params) pre u \<and> vw_id (hv_engine u) \<noteq> b \<and>
      list_all keeps_identifier post) \<and>
    (\<forall>pre a post. es = pre @ a # post \<and> is_recovery a \<longrightarrow> Rebound \<in> set post \<or> Rechecked True \<in> set post) \<and>
    (\<forall>live in_flight now period. DueEnrol period \<notin> set (pl_owed (snd (plan live in_flight now t))))"
proof (intro conjI allI impI)
  have due: "hv_bound_id t = Some b" "enrolment_held t"
    using assms(2) by (auto simp: recovery_due_def enrolment_held_def split: option.splits if_splits)
  show "\<exists>pre bnd post u. es = pre @ Shown bnd # post \<and> bi_id bnd = Some b \<and>
      key_run (new_vetter_state community persona params) pre u \<and> vw_id (hv_engine u) \<noteq> b \<and>
      list_all keeps_identifier post"
    by (rule identifier_shown [OF assms(1) bound_kept_new _ due(1)]) (simp add: new_vetter_state_def)
  fix pre a post
  assume "es = pre @ a # post \<and> is_recovery a"
  with assms(1) obtain u v where "key_step u a v" "is_recovery a" "key_run v post t"
    by (auto simp: key_run_append)
  with recovery_over_run [OF _ recovery_over_start] recovery_over_due assms(2)
  show "Rebound \<in> set post \<or> Rechecked True \<in> set post"
    by (metis option.distinct(1))
next
  fix live in_flight now period
  show "DueEnrol period \<notin> set (pl_owed (snd (plan live in_flight now t)))"
    using assms(2) by (intro plan_held) (auto simp: recovery_due_def enrolment_held_def split: option.splits if_splits)
qed

definition fresh_vetter :: hidden_vetter_state where
  "fresh_vetter = new_vetter_state ''did:webvh:c'' 7 october"

definition old_key_named :: binding where
  "old_key_named = \<lparr>bi_id = Some ''zOld'', bi_reset = None\<rparr>"

text \<open>Refused, asked, named, answered, settled, refused once more and named once more.\<close>

definition named_again :: "key_event list" where
  "named_again = [Rebound, Asked, Shown old_key_named, Unreached, Recovered True default_view, Settled,
     Rebound, Shown old_key_named]"

lemma key_run_Cons: "key_step s e u \<Longrightarrow> key_run u es t \<Longrightarrow> key_run s (e # es) t"
  by auto

lemma named_again_runs: "\<exists>t. key_run fresh_vetter named_again t \<and> recovery_due t = Some ''zOld''"
proof -
  let ?s = "key_settled (on_recovered True default_view 3
      (fst (on_binding_shown old_key_named 2 (binding_asked 1 (on_rebound 0 fresh_vetter)))))"
  have "key_run fresh_vetter named_again (fst (on_binding_shown old_key_named 5 (on_rebound 4 ?s)))"
    unfolding named_again_def
    by (rule key_run_Cons, rule key_step.rebound, rule key_run_Cons, rule key_step.asked,
        rule key_run_Cons, rule key_step.shown, rule key_run_Cons, rule key_step.unreached,
        rule key_run_Cons, rule key_step.recovered, rule key_run_Cons, rule key_step.settled,
        rule key_run_Cons, rule key_step.rebound, rule key_run_Cons, rule key_step.shown) simp
  moreover have "vw_id (hv_engine ?s) = []" "hv_key ?s = None"
    by (simp_all add: key_ops fresh_vetter_def new_vetter_state_def default_view_def old_key_named_def
        decide_def Let_def)
  then have "recovery_due (fst (on_binding_shown old_key_named 5 (on_rebound 4 ?s))) = Some ''zOld''"
    by (simp add: on_binding_shown_def on_rebound_def old_key_named_def decide_def key_check_at_def Let_def
        move_phase_def recovery_due_def)
  ultimately show ?thesis by blast
qed

theorem recovery_asked_for_named_witness:
  "\<exists>t. key_run fresh_vetter named_again t \<and> recovery_due t = Some ''zOld'' \<and>
    (\<forall>pre a post. named_again = pre @ a # post \<and> is_recovery a \<longrightarrow> Rebound \<in> set post \<or> Rechecked True \<in> set post)"
proof -
  obtain t where t: "key_run fresh_vetter named_again t" "recovery_due t = Some ''zOld''"
    using named_again_runs by blast
  from recovery_asked_for_named [OF t(1) [unfolded fresh_vetter_def] t(2)] t show ?thesis by blast
qed

end
