(* ===== verification/Relations.thy ===== *)
theory Relations
  imports Wire "HOL-Library.AList"
begin

text \<open>
  Relationships between two personas (\<open>relationships.rs\<close>), the inbox of tasks (\<open>tasks.rs\<close>) and the relationship
  credentials issued and received (\<open>vrc.rs\<close>): their data, the lookups and updates, and the proofs that bind a
  relationship's DID to one handshake.

  A \<open>HashMap\<close> is an association list in its iteration order, which the program does not control: theorems hold for
  every order. A \<open>DTGCredential\<close> is a type of the crate \<open>dtg-credentials\<close>; what is read of it is its issuer and the
  value of its proof. Signing and verifying are arguments.
\<close>

section \<open>Data\<close>

datatype relationship_state = RequestSent | RequestAccepted | RequestRejected | Established | NoRelation

record peer_relationship =
  rl_task_id :: string
  rl_our_did :: string
  rl_remote_did :: string
  rl_remote_p_did :: string
  rl_created :: instant
  rl_state :: relationship_state
  rl_our_persona :: "persona_id option"
  rl_needs_reestablishment :: bool

record relationships =
  rs_map :: "(string \<times> peer_relationship) list"
  rs_path_pointer :: "32 word"

record relationships_shadow =
  rsh_relationships :: "peer_relationship list"
  rsh_path_pointer :: "32 word"

record dtg_credential =
  dc_issuer :: string
  dc_proof_value :: "string option"
  dc_document :: json

record vrcs =
  vr_vrcs :: "(string \<times> (string \<times> dtg_credential) list) list"
  vr_retired :: nat

record vrc_request =
  vq_reason :: "string option"

record relationship_request_body =
  rlb_reason :: "string option"
  rlb_did :: string
  rlb_name :: "string option"
  rlb_did_proof :: "json option"
  rlb_persona_proof :: "json option"

record relationship_accept_body =
  rla_did :: string
  rla_did_proof :: "json option"
  rla_persona_proof :: "json option"

record relationship_reject_body =
  rlj_reason :: "string option"

datatype task_type =
    RelationshipRequestOutbound string
  | RelationshipRequestInbound string string relationship_request_body
  | RelationshipRequestRejected
  | RelationshipRequestAccepted
  | RelationshipRequestFinalized
  | TrustPing string string string
  | TrustPong
  | VRCRequestOutbound string
  | VRCRequestInbound vrc_request string
  | VRCRequestRejected
  | VRCIssued dtg_credential
  | VettingRequestInbound string string string
  | VettingSessionInbound string string string
  | VettingCardReceived string string
  | VetterGrantExpiring string bool string

record task =
  tk_id :: string
  tk_type :: task_type
  tk_created :: instant
  tk_our_persona :: "persona_id option"

type_synonym tasks = "(string \<times> task) list"

section \<open>Tasks\<close>

definition tasks_remove :: "string \<Rightarrow> tasks \<Rightarrow> bool \<times> tasks" where
  "tasks_remove i ts = (map_of ts i \<noteq> None, AList.delete i ts)"

definition new_task_for :: "string \<Rightarrow> task_type \<Rightarrow> persona_id option \<Rightarrow> instant \<Rightarrow> tasks \<Rightarrow> tasks" where
  "new_task_for i ty persona now ts =
     AList.update i \<lparr>tk_id = i, tk_type = ty, tk_created = now, tk_our_persona = persona\<rparr> ts"

definition get_by_pos :: "tasks \<Rightarrow> nat \<Rightarrow> task option" where
  "get_by_pos ts n = (if n < length ts then Some (snd (ts ! n)) else None)"

definition get_by_id :: "tasks \<Rightarrow> string \<Rightarrow> task option" where
  "get_by_id ts i = map_of ts i"

definition tasks_clear :: "tasks \<Rightarrow> bool \<times> tasks" where
  "tasks_clear ts = (ts \<noteq> [], [])"

section \<open>Relationship credentials\<close>

definition vrcs_empty :: vrcs where
  "vrcs_empty = \<lparr>vr_vrcs = [], vr_retired = 0\<rparr>"

definition vrcs_get :: "vrcs \<Rightarrow> string \<Rightarrow> (string \<times> dtg_credential) list option" where
  "vrcs_get v remote = map_of (vr_vrcs v) remote"

text \<open>A credential without a proof is refused; the secondary key is the value of the proof.\<close>

definition vrcs_insert :: "string \<Rightarrow> dtg_credential \<Rightarrow> vrcs \<Rightarrow> string + vrcs" where
  "vrcs_insert remote vrc v =
     (case dc_proof_value vrc of
        None \<Rightarrow> Inl ''VRC has no proof value''
      | Some hash \<Rightarrow>
          let held = (case map_of (vr_vrcs v) remote of None \<Rightarrow> [] | Some hm \<Rightarrow> hm)
          in Inr (v\<lparr>vr_vrcs := AList.update remote (AList.update hash vrc held) (vr_vrcs v)\<rparr>))"

definition remove_vrc :: "string \<Rightarrow> vrcs \<Rightarrow> vrcs" where
  "remove_vrc i v = v\<lparr>vr_vrcs := map (\<lambda>(remote, hm). (remote, filter (\<lambda>(k, _). k \<noteq> i) hm)) (vr_vrcs v)\<rparr>"

definition remove_vrcs_of :: "string \<Rightarrow> vrcs \<Rightarrow> bool \<times> vrcs" where
  "remove_vrcs_of remote v =
     (map_of (vr_vrcs v) remote \<noteq> None, v\<lparr>vr_vrcs := AList.delete remote (vr_vrcs v)\<rparr>)"

definition vrcs_clear_retired :: "vrcs \<Rightarrow> vrcs" where
  "vrcs_clear_retired v = v\<lparr>vr_retired := 0\<rparr>"

text \<open>
  Loading: each stored credential is parsed on its own; one that does not conform is dropped and counted.
\<close>

fun load_by_id ::
  "(json \<Rightarrow> dtg_credential option) \<Rightarrow> string \<Rightarrow> (string \<times> json) list \<Rightarrow> vrcs \<Rightarrow> vrcs" where
  "load_by_id parse remote [] v = v"
| "load_by_id parse remote ((i, value) # rest) v =
     load_by_id parse remote rest
       (case parse value of
          Some vrc \<Rightarrow>
            let held = (case map_of (vr_vrcs v) remote of None \<Rightarrow> [] | Some hm \<Rightarrow> hm)
            in v\<lparr>vr_vrcs := AList.update remote (AList.update i vrc held) (vr_vrcs v)\<rparr>
        | None \<Rightarrow> v\<lparr>vr_retired := vr_retired v + 1\<rparr>)"

fun load_vrcs ::
  "(json \<Rightarrow> dtg_credential option) \<Rightarrow> (string \<times> (string \<times> json) list) list \<Rightarrow> vrcs \<Rightarrow> vrcs" where
  "load_vrcs parse [] v = v"
| "load_vrcs parse ((remote, by_id) # rest) v = load_vrcs parse rest (load_by_id parse remote by_id v)"

text \<open>\<open>Vrcs::deserialize\<close>, from the raw map and the count of earlier loads.\<close>

definition vrcs_deserialize ::
  "(json \<Rightarrow> dtg_credential option) \<Rightarrow> (string \<times> (string \<times> json) list) list \<Rightarrow> nat \<Rightarrow> vrcs" where
  "vrcs_deserialize parse raw retired = load_vrcs parse raw \<lparr>vr_vrcs = [], vr_retired = retired\<rparr>"

section \<open>Relationships\<close>

definition no_relationships :: relationships where
  "no_relationships = \<lparr>rs_map = [], rs_path_pointer = 0\<rparr>"

text \<open>Persistence: a list, keyed again by the remote persona on load.\<close>

definition relationships_from_shadow :: "relationships_shadow \<Rightarrow> relationships" where
  "relationships_from_shadow sh =
     \<lparr>rs_map = foldl (\<lambda>m r. AList.update (rl_remote_p_did r) r m) [] (rsh_relationships sh),
      rs_path_pointer = rsh_path_pointer sh\<rparr>"

definition shadow_from_relationships :: "relationships \<Rightarrow> relationships_shadow" where
  "shadow_from_relationships rs =
     \<lparr>rsh_relationships = map snd (rs_map rs), rsh_path_pointer = rs_path_pointer rs\<rparr>"

definition rel_get :: "relationships \<Rightarrow> string \<Rightarrow> peer_relationship option" where
  "rel_get rs p_did = map_of (rs_map rs) p_did"

definition rel_insert :: "string \<Rightarrow> peer_relationship \<Rightarrow> relationships \<Rightarrow> relationships" where
  "rel_insert k r rs = rs\<lparr>rs_map := AList.update k r (rs_map rs)\<rparr>"

text \<open>\<open>get_mut(key)\<close> followed by an assignment through the reference.\<close>

definition rel_modify :: "string \<Rightarrow> (peer_relationship \<Rightarrow> peer_relationship) \<Rightarrow> relationships \<Rightarrow> relationships" where
  "rel_modify k f rs = rs\<lparr>rs_map := update_first (\<lambda>(j, _). j = k) (\<lambda>(j, r). (j, f r)) (rs_map rs)\<rparr>"

definition find_by_task_id :: "relationships \<Rightarrow> string \<Rightarrow> peer_relationship option" where
  "find_by_task_id rs i = List.find (\<lambda>r. rl_task_id r = i) (map snd (rs_map rs))"

definition find_key_by_task_id :: "relationships \<Rightarrow> string \<Rightarrow> string option" where
  "find_key_by_task_id rs i = map_option fst (List.find (\<lambda>(_, r). rl_task_id r = i) (rs_map rs))"

definition awaiting :: "relationships \<Rightarrow> string \<Rightarrow> relationship_state \<Rightarrow> string \<Rightarrow> string option" where
  "awaiting rs thid st sender =
     (if thid = [] then None
      else case List.find (\<lambda>(_, r). rl_task_id r = thid) (rs_map rs) of
             None \<Rightarrow> None
           | Some (k, r) \<Rightarrow> if rl_state r = st \<and> rl_remote_p_did r = sender then Some k else None)"

definition find_by_remote_did :: "relationships \<Rightarrow> string \<Rightarrow> peer_relationship option" where
  "find_by_remote_did rs did =
     List.find (\<lambda>r. rl_remote_did r = did \<or> rl_remote_p_did r = did) (map snd (rs_map rs))"

definition find_key_by_remote_did :: "relationships \<Rightarrow> string \<Rightarrow> string option" where
  "find_key_by_remote_did rs did =
     map_option fst (List.find (\<lambda>(_, r). rl_remote_did r = did \<or> rl_remote_p_did r = did) (rs_map rs))"

definition get_established :: "relationships \<Rightarrow> peer_relationship list" where
  "get_established rs = filter (\<lambda>r. rl_state r = Established) (map snd (rs_map rs))"

text \<open>Removing a relationship drops the credentials filed under its key, of both directions.\<close>

definition rel_remove ::
  "string \<Rightarrow> relationships \<Rightarrow> vrcs \<Rightarrow> vrcs \<Rightarrow> peer_relationship option \<times> relationships \<times> vrcs \<times> vrcs" where
  "rel_remove k rs issued received =
     (map_of (rs_map rs) k, rs\<lparr>rs_map := AList.delete k (rs_map rs)\<rparr>,
      snd (remove_vrcs_of k issued), snd (remove_vrcs_of k received))"

definition remove_by_task_id ::
  "string \<Rightarrow> relationships \<Rightarrow> vrcs \<Rightarrow> vrcs \<Rightarrow> peer_relationship option \<times> relationships \<times> vrcs \<times> vrcs" where
  "remove_by_task_id i rs issued received =
     (case find_key_by_task_id rs i of
        Some k \<Rightarrow> rel_remove k rs issued received
      | None \<Rightarrow> (None, rs, issued, received))"

definition is_our_vrc_request_to :: "tasks \<Rightarrow> relationships \<Rightarrow> string \<Rightarrow> string \<Rightarrow> bool" where
  "is_our_vrc_request_to ts rs task_id sender =
     (case get_by_id ts task_id of
        None \<Rightarrow> False
      | Some t \<Rightarrow>
          (case tk_type t of
             VRCRequestOutbound remote_p_did \<Rightarrow>
               remote_p_did = sender \<or>
               (case rel_get rs remote_p_did of None \<Rightarrow> False | Some r \<Rightarrow> rl_remote_did r = sender)
           | _ \<Rightarrow> False))"

section \<open>The binding of a relationship DID\<close>

datatype binding_role = RoleRequest | RoleAccept

fun binding_role_str :: "binding_role \<Rightarrow> string" where
  "binding_role_str RoleRequest = ''request''"
| "binding_role_str RoleAccept = ''accept''"

definition relationship_did_binding_type :: string where
  "relationship_did_binding_type = ''https://linuxfoundation.org/openvtc/1.0/relationship-did-binding''"

definition did_binding :: "string \<Rightarrow> string \<Rightarrow> string \<Rightarrow> string \<Rightarrow> binding_role \<Rightarrow> json" where
  "did_binding did persona peer thid role =
     JObject [(''type'', JString relationship_did_binding_type), (''role'', JString (binding_role_str role)),
       (''did'', JString did), (''persona'', JString persona), (''peer'', JString peer), (''thid'', JString thid)]"

text \<open>\<open>signed["proof"] = proof\<close>.\<close>

fun with_proof :: "json \<Rightarrow> json \<Rightarrow> json" where
  "with_proof (JObject ms) p = JObject (AList.update ''proof'' p ms)"
| "with_proof v p = v"

datatype did_binding_error =
    BindingNotChecked
  | BindingCheckUnfinished
  | MissingDidProof
  | MissingPersonaProof
  | DidProof string
  | PersonaProof string

text \<open>\<open>sign\<close> answers the proof a key makes over a statement.\<close>

definition did_binding_proofs ::
  "('k \<Rightarrow> json \<Rightarrow> 'e + json) \<Rightarrow> string \<Rightarrow> string \<Rightarrow> string \<Rightarrow> string \<Rightarrow> binding_role \<Rightarrow> 'k \<Rightarrow> 'k
     \<Rightarrow> 'e + json \<times> json option" where
  "did_binding_proofs sign did persona peer thid role did_signer persona_signer =
     rbind (sign did_signer (did_binding did persona peer thid role)) (\<lambda>did_proof.
       if did = persona then Inr (did_proof, None)
       else rbind (sign persona_signer (did_binding did persona peer thid role)) (\<lambda>persona_proof.
         Inr (did_proof, Some persona_proof)))"

text \<open>\<open>verify document signer\<close> is \<open>verify_signed\<close> for the purpose \<open>authentication\<close>: \<open>None\<close> when it holds.\<close>

definition verify_did_binding ::
  "(json \<Rightarrow> string \<Rightarrow> string option) \<Rightarrow> string \<Rightarrow> json option \<Rightarrow> string \<Rightarrow> json option \<Rightarrow> string \<Rightarrow> string \<Rightarrow> binding_role
     \<Rightarrow> did_binding_error + unit" where
  "verify_did_binding verify did did_proof persona persona_proof peer thid role =
     (let statement = did_binding did persona peer thid role
      in rbind (ok_or MissingDidProof did_proof) (\<lambda>p.
         case verify (with_proof statement p) did of
           Some e \<Rightarrow> Inl (DidProof e)
         | None \<Rightarrow>
             if did \<noteq> persona then
               rbind (ok_or MissingPersonaProof persona_proof) (\<lambda>q.
               case verify (with_proof statement q) persona of
                 Some e \<Rightarrow> Inl (PersonaProof e)
               | None \<Rightarrow> Inr ())
             else Inr ()))"

section \<open>Lookups after updates\<close>

text \<open>Relationships are keyed by the remote persona, each key once: what every operation of the program keeps.\<close>

definition rel_keyed :: "relationships \<Rightarrow> bool" where
  "rel_keyed rs \<longleftrightarrow> distinct (map fst (rs_map rs)) \<and> (\<forall>(k, r) \<in> set (rs_map rs). rl_remote_p_did r = k)"

lemma rel_get_insert: "rel_get (rel_insert k r rs) j = (if j = k then Some r else rel_get rs j)"
  by (simp add: rel_get_def rel_insert_def update_conv')

lemma map_of_update_first:
  "map_of (update_first (\<lambda>(j, _). j = k) (\<lambda>(j, r). (j, f r)) es) j
     = (if j = k then map_option f (map_of es k) else map_of es j)"
  by (induction es) auto

lemma rel_get_modify: "rel_get (rel_modify k f rs) j = (if j = k then map_option f (rel_get rs k) else rel_get rs j)"
  by (simp add: rel_get_def rel_modify_def map_of_update_first)

lemma rel_get_remove:
  "rel_get (fst (snd (rel_remove k rs issued received))) j = (if j = k then None else rel_get rs j)"
  by (simp add: rel_get_def rel_remove_def delete_conv')

lemma task_get_new: "get_by_id (new_task_for i ty p now ts) j = (if j = i
    then Some \<lparr>tk_id = i, tk_type = ty, tk_created = now, tk_our_persona = p\<rparr> else get_by_id ts j)"
  by (simp add: get_by_id_def new_task_for_def update_conv')

lemma task_get_remove: "get_by_id (snd (tasks_remove i ts)) j = (if j = i then None else get_by_id ts j)"
  by (simp add: get_by_id_def tasks_remove_def delete_conv')

lemma keyed_insert: "rel_keyed rs \<Longrightarrow> rl_remote_p_did r = k \<Longrightarrow> rel_keyed (rel_insert k r rs)"
  using set_alist_update [of k r "rs_map rs"] by (auto simp: rel_keyed_def rel_insert_def distinct_update)

lemma keyed_modify:
  assumes "rel_keyed rs" "\<And>r. rl_remote_p_did (f r) = rl_remote_p_did r"
  shows "rel_keyed (rel_modify k f rs)"
proof -
  have "map fst (update_first (\<lambda>(j, _). j = k) (\<lambda>(j, r). (j, f r)) (rs_map rs)) = map fst (rs_map rs)"
    by (rule map_update_first) auto
  then show ?thesis
    using assms by (auto simp: rel_keyed_def rel_modify_def dest!: set_update_first)
qed

lemma keyed_remove: "rel_keyed rs \<Longrightarrow> rel_keyed (fst (snd (rel_remove k rs issued received)))"
  using set_delete_subset [of k "rs_map rs"] by (auto simp: rel_keyed_def rel_remove_def distinct_delete)

lemma awaitingD:
  assumes "awaiting rs thid st sender = Some k" "rel_keyed rs"
  shows "k = sender" "\<exists>r. rel_get rs k = Some r \<and> rl_task_id r = thid \<and> rl_state r = st \<and> rl_remote_p_did r = sender"
    "find_key_by_task_id rs thid = Some k"
proof -
  from assms(1) obtain r where f: "List.find (\<lambda>(_, r). rl_task_id r = thid) (rs_map rs) = Some (k, r)"
    and r: "rl_state r = st" "rl_remote_p_did r = sender"
    by (auto simp: awaiting_def split: option.splits if_splits)
  from find_SomeD [OF f] have mem: "(k, r) \<in> set (rs_map rs)" and t: "rl_task_id r = thid" by auto
  from mem assms(2) r show "k = sender" by (auto simp: rel_keyed_def)
  from mem assms(2) have "rel_get rs k = Some r" by (auto simp: rel_keyed_def rel_get_def)
  with t r show "\<exists>r. rel_get rs k = Some r \<and> rl_task_id r = thid \<and> rl_state r = st \<and> rl_remote_p_did r = sender" by blast
  from f show "find_key_by_task_id rs thid = Some k" by (simp add: find_key_by_task_id_def)
qed

section \<open>Persistence\<close>

lemma update_new: "k \<notin> fst ` set al \<Longrightarrow> AList.update k v al = al @ [(k, v)]"
  by (induction al) auto

lemma fold_keyed:
  "distinct (map fst (acc @ es)) \<Longrightarrow> \<forall>(k, r) \<in> set es. rl_remote_p_did r = k \<Longrightarrow>
     foldl (\<lambda>m r. AList.update (rl_remote_p_did r) r m) acc (map snd es) = acc @ es"
proof (induction es arbitrary: acc)
  case (Cons e es)
  obtain k r where e: "e = (k, r)" by (cases e)
  with Cons.prems have k: "rl_remote_p_did r = k" "k \<notin> fst ` set acc" by auto
  have "distinct (map fst ((acc @ [(k, r)]) @ es))" using Cons.prems(1) e by simp
  with Cons.IH [of "acc @ [(k, r)]"] Cons.prems(2) k e show ?case by (simp add: update_new)
qed simp

lemma loaded_keyed: "rel_keyed (relationships_from_shadow sh)"
proof -
  have "distinct (map fst m) \<and> (\<forall>(k, r) \<in> set m. rl_remote_p_did r = k) \<Longrightarrow>
    distinct (map fst (foldl (\<lambda>m r. AList.update (rl_remote_p_did r) r m) m rs)) \<and>
    (\<forall>(k, r) \<in> set (foldl (\<lambda>m r. AList.update (rl_remote_p_did r) r m) m rs). rl_remote_p_did r = k)" for m rs
  proof (induction rs arbitrary: m)
    case (Cons r rs)
    have "distinct (map fst (AList.update (rl_remote_p_did r) r m)) \<and>
      (\<forall>(k, r) \<in> set (AList.update (rl_remote_p_did r) r m). rl_remote_p_did r = k)"
      using Cons.prems set_alist_update [of "rl_remote_p_did r" r m] by (auto simp: distinct_update)
    from Cons.IH [OF this] show ?case by simp
  qed simp
  from this [of "[]" "rsh_relationships sh"] show ?thesis
    by (simp add: rel_keyed_def relationships_from_shadow_def)
qed

text \<open>(C36) 
  Saving relationships and loading them again gives them back, in any order the map is iterated in, and
  whatever list is loaded is keyed by the remote persona.
\<close>

theorem shadow_roundtrip:
  assumes "rel_keyed rs"
  shows "relationships_from_shadow (shadow_from_relationships rs) = rs \<and> rel_keyed (relationships_from_shadow sh)"
  using loaded_keyed [of sh] fold_keyed [of "[]" "rs_map rs"] assms
  by (simp add: relationships_from_shadow_def shadow_from_relationships_def rel_keyed_def)

definition example_rel :: peer_relationship where
  "example_rel = \<lparr>rl_task_id = ''t1'', rl_our_did = ''did:me'', rl_remote_did = ''did:peer:2x'', rl_remote_p_did = ''did:bob'',
     rl_created = 0, rl_state = Established, rl_our_persona = None, rl_needs_reestablishment = False\<rparr>"

definition example_rels :: relationships where
  "example_rels = \<lparr>rs_map = [(''did:bob'', example_rel)], rs_path_pointer = 3\<rparr>"

theorem shadow_roundtrip_witness: "relationships_from_shadow (shadow_from_relationships example_rels) = example_rels"
  using shadow_roundtrip [of example_rels] by (simp add: rel_keyed_def example_rels_def example_rel_def)

text \<open>Loading credentials counts what it drops, and keeps nothing that did not parse.\<close>

definition unparsed :: "(json \<Rightarrow> dtg_credential option) \<Rightarrow> (string \<times> (string \<times> json) list) list \<Rightarrow> nat" where
  "unparsed parse raw = length (filter (\<lambda>v. parse v = None) (map snd (concat (map snd raw))))"

definition vrcs_all :: "(dtg_credential \<Rightarrow> bool) \<Rightarrow> vrcs \<Rightarrow> bool" where
  "vrcs_all p v \<longleftrightarrow> (\<forall>e \<in> set (vr_vrcs v). \<forall>x \<in> set (snd e). p (snd x))"

lemma vrcs_all_put:
  assumes "vrcs_all p v" "p vrc"
  shows "vrcs_all p (v\<lparr>vr_vrcs := AList.update remote
    (AList.update i vrc (case map_of (vr_vrcs v) remote of None \<Rightarrow> [] | Some hm \<Rightarrow> hm)) (vr_vrcs v)\<rparr>)"
proof -
  let ?held = "case map_of (vr_vrcs v) remote of None \<Rightarrow> [] | Some hm \<Rightarrow> hm"
  let ?put = "AList.update i vrc ?held"
  have "\<forall>x \<in> set ?held. p (snd x)"
    using assms(1) by (cases "map_of (vr_vrcs v) remote") (fastforce simp: vrcs_all_def dest: map_of_SomeD)+
  then have put: "\<forall>x \<in> set ?put. p (snd x)"
    using ball_update [of ?held "\<lambda>x. p (snd x)" i vrc] assms(2) by (metis snd_conv)
  have "\<forall>e \<in> set (AList.update remote ?put (vr_vrcs v)). \<forall>x \<in> set (snd e). p (snd x)"
    using ball_update [of "vr_vrcs v" "\<lambda>e. \<forall>x \<in> set (snd e). p (snd x)" remote ?put] put assms(1)
    unfolding vrcs_all_def by (metis snd_conv)
  then show ?thesis by (simp add: vrcs_all_def)
qed

lemma load_by_id_spec:
  "vr_retired (load_by_id parse remote es v) = vr_retired v + length (filter (\<lambda>x. parse x = None) (map snd es))"
  "vrcs_all (\<lambda>c. \<exists>x. parse x = Some c) v \<Longrightarrow> vrcs_all (\<lambda>c. \<exists>x. parse x = Some c) (load_by_id parse remote es v)"
proof (induction parse remote es v rule: load_by_id.induct)
  case (2 parse remote i x rest v)
  {
    case 1
    show ?case using "2.IH"(1) by (simp add: Let_def split: option.splits)
  next
    case 2
    show ?case
    proof (cases "parse x")
      case None
      then show ?thesis using "2.IH"(2) 2 by (simp add: vrcs_all_def)
    next
      case (Some vrc)
      then have "\<exists>x. parse x = Some vrc" by blast
      from "2.IH"(2) vrcs_all_put [OF 2 this, of remote i] Some show ?thesis by (simp add: Let_def)
    qed
  }
qed simp_all

lemma load_vrcs_spec:
  "vr_retired (load_vrcs parse raw v) = vr_retired v + unparsed parse raw"
  "vrcs_all (\<lambda>c. \<exists>x. parse x = Some c) v \<Longrightarrow> vrcs_all (\<lambda>c. \<exists>x. parse x = Some c) (load_vrcs parse raw v)"
  by (induction parse raw v rule: load_vrcs.induct) (simp_all add: unparsed_def load_by_id_spec)

section \<open>What a binding proof is good for\<close>

text \<open>
  Loading stored credentials loses none silently: what does not parse is counted on top of the earlier count,
  and everything kept is the parse of a stored value.
\<close>

theorem load_counts_what_it_drops:
  "vr_retired (vrcs_deserialize parse raw retired) = retired + unparsed parse raw \<and>
   vrcs_all (\<lambda>c. \<exists>x. parse x = Some c) (vrcs_deserialize parse raw retired)"
proof -
  have "vrcs_all (\<lambda>c. \<exists>x. parse x = Some c) \<lparr>vr_vrcs = [], vr_retired = retired\<rparr>" by (simp add: vrcs_all_def)
  from load_vrcs_spec(2) [OF this] load_vrcs_spec(1) show ?thesis by (simp add: vrcs_deserialize_def)
qed

lemma did_binding_inj:
  "did_binding d p q t r = did_binding d' p' q' t' r' \<longleftrightarrow> d = d' \<and> p = p' \<and> q = q' \<and> t = t' \<and> r = r'"
  by (cases r; cases r') (auto simp: did_binding_def)

lemma verify_did_bindingD:
  assumes "verify_did_binding verify did did_proof persona persona_proof peer thid role = Inr u"
  obtains p where "did_proof = Some p" "verify (with_proof (did_binding did persona peer thid role) p) did = None"
    "did \<noteq> persona \<Longrightarrow> \<exists>q. persona_proof = Some q \<and>
       verify (with_proof (did_binding did persona peer thid role) q) persona = None"
  using assms by (auto simp: verify_did_binding_def Let_def result_simps split: option.splits if_splits)

text \<open>(C31) 
  A proof of a relationship DID stands for one handshake only. If a proof that verifies was made over the
  statement it is checked with (what a signature scheme gives: \<open>made p\<close> is the statement and the signer of the
  proof \<open>p\<close>), then a proof accepted for two handshakes was accepted for the same DID, the same personas, the same
  thread and the same side: it cannot be carried from a request to an accept, nor to another peer or thread.
\<close>

theorem binding_not_transferable:
  assumes unforgeable: "\<And>d persona peer thid role p signer.
      verify (with_proof (did_binding d persona peer thid role) p) signer = None
        \<Longrightarrow> made p = (did_binding d persona peer thid role, signer)"
    and one: "verify_did_binding verify d (Some p) persona pp peer thid role = Inr ()"
    and two: "verify_did_binding verify d' (Some p) persona' pp' peer' thid' role' = Inr ()"
  shows "d' = d \<and> persona' = persona \<and> peer' = peer \<and> thid' = thid \<and> role' = role"
proof -
  from one have "made p = (did_binding d persona peer thid role, d)"
    by (rule verify_did_bindingD) (auto dest: unforgeable)
  moreover from two have "made p = (did_binding d' persona' peer' thid' role', d')"
    by (rule verify_did_bindingD) (auto dest: unforgeable)
  ultimately show ?thesis by (auto simp: did_binding_inj)
qed

text \<open>
  What an honest side sends is accepted: the proofs made for a handshake verify for it, for a relationship DID
  and for a persona used directly alike, when what a DID's own key signs verifies under that DID.
\<close>

theorem honest_binding_accepted:
  assumes "\<And>key d a b c t r p. owns key d \<Longrightarrow> sign key (did_binding a b c t r) = Inr p
      \<Longrightarrow> verify (with_proof (did_binding a b c t r) p) d = None"
    and "owns did_signer did" "owns persona_signer persona"
    and "did_binding_proofs sign did persona peer thid role did_signer persona_signer = Inr (p, q)"
  shows "verify_did_binding verify did (Some p) persona q peer thid role = Inr ()"
  using assms by (auto simp: did_binding_proofs_def verify_did_binding_def Let_def result_simps split: if_splits)

text \<open>A toy scheme: the proof is the statement and the key that signed it, a key being its DID.\<close>

definition toy_sign :: "string \<Rightarrow> json \<Rightarrow> string + json" where
  "toy_sign key doc = Inr (JArray [doc, JString key])"

fun toy_verify :: "json \<Rightarrow> string \<Rightarrow> string option" where
  "toy_verify (JObject ms) signer =
     (case map_of ms ''proof'' of
        Some (JArray [doc, JString key]) \<Rightarrow>
          if doc = JObject (AList.delete ''proof'' ms) \<and> key = signer then None else Some ''does not verify''
      | _ \<Rightarrow> Some ''no proof'')"
| "toy_verify _ _ = Some ''not a document''"

fun toy_made :: "json \<Rightarrow> json \<times> string" where
  "toy_made (JArray [doc, JString key]) = (doc, key)"
| "toy_made p = (p, [])"

lemma toy_verify_binding:
  "toy_verify (with_proof (did_binding d persona peer thid role) p) signer = None
     \<longleftrightarrow> p = JArray [did_binding d persona peer thid role, JString signer]"
  by (auto simp: did_binding_def split: option.splits json.splits list.splits)

lemma toy_ok: "toy_verify (with_proof (did_binding d persona peer thid role)
    (JArray [did_binding d persona peer thid role, JString signer])) signer = None"
  by (simp add: toy_verify_binding)

theorem binding_not_transferable_witness:
  "verify_did_binding toy_verify ''did:peer:2x'' (Some (JArray [did_binding ''did:peer:2x'' ''did:a'' ''did:b'' ''t1''
       RoleRequest, JString ''did:peer:2x''])) ''did:a'' (Some (JArray [did_binding ''did:peer:2x'' ''did:a'' ''did:b'' ''t1''
       RoleRequest, JString ''did:a''])) ''did:b'' ''t1'' RoleRequest = Inr () \<and>
   (\<forall>thid. verify_did_binding toy_verify ''did:peer:2x'' (Some (JArray [did_binding ''did:peer:2x'' ''did:a'' ''did:b''
       ''t1'' RoleRequest, JString ''did:peer:2x''])) ''did:a'' None ''did:b'' thid RoleAccept \<noteq> Inr ())"
  (is "?one \<and> (\<forall>thid. ?two thid \<noteq> Inr ())")
proof -
  have one: ?one by (simp add: verify_did_binding_def toy_ok Let_def)
  moreover have "?two thid \<noteq> Inr ()" for thid
  proof
    assume two: "?two thid = Inr ()"
    have "toy_verify (with_proof (did_binding d persona peer th role) p) signer = None
        \<Longrightarrow> toy_made p = (did_binding d persona peer th role, signer)" for d persona peer th role p signer
      by (simp add: toy_verify_binding)
    from binding_not_transferable [OF this one two] show False by simp
  qed
  ultimately show ?thesis by blast
qed

theorem honest_binding_accepted_witness:
  "\<exists>p q. did_binding_proofs toy_sign ''did:peer:2x'' ''did:a'' ''did:b'' ''t1'' RoleAccept ''did:peer:2x'' ''did:a''
     = Inr (p, q) \<and> verify_did_binding toy_verify ''did:peer:2x'' (Some p) ''did:a'' q ''did:b'' ''t1'' RoleAccept = Inr ()"
proof -
  obtain p q where made: "did_binding_proofs toy_sign ''did:peer:2x'' ''did:a'' ''did:b'' ''t1'' RoleAccept
      ''did:peer:2x'' ''did:a'' = Inr (p, q)"
    by (simp add: did_binding_proofs_def toy_sign_def)
  have "verify_did_binding toy_verify ''did:peer:2x'' (Some p) ''did:a'' q ''did:b'' ''t1'' RoleAccept = Inr ()"
    by (rule honest_binding_accepted [where owns = "(=)", OF _ refl refl made]) (auto simp: toy_sign_def toy_ok)
  with made show ?thesis by blast
qed

end
