(* ===== verification/Account.thy ===== *)
theory Account
  imports Relations "HOL-Library.Char_ord" "HOL-Library.List_Lexorder" "HOL-Library.Product_Lexorder"
    "HOL-Library.Multiset"
begin

text \<open>
  The account (\<open>config/account.rs\<close>): its personas and its memberships of communities, the life of a membership from
  the join request to its end, what is kept of the community's decision, and the folding of older configurations on
  load.

  A \<open>HashMap\<close> is an association list in its iteration order; a \<open>BTreeMap\<close> likewise. A \<open>&mut\<close> lookup followed by
  changes through the reference is a first-match update. Whether a stored credential conforms to the DTG
  specification is decided by a library: the argument \<open>nonconformance\<close>.
\<close>

section \<open>Data\<close>

type_synonym uuid = "128 word"
type_synonym vtc_did = string

datatype key_types =
    PersonaSigning | PersonaAuthentication | PersonaEncryption | PersonaOther
  | RelationshipVerification | RelationshipEncryption | WebVHManagement | UnknownKey

record key_ref =
  kr_key_id :: string
  kr_purpose :: key_types
  kr_created_at :: instant

record persona_record =
  pr_persona_id :: persona_id
  pr_did :: string
  pr_did_document :: "json option"
  pr_did_locator :: "string option"
  pr_key_refs :: "key_ref list"
  pr_mediator_did :: "string option"
  pr_origin_context_id :: string
  pr_created_at :: instant
  pr_label :: "string option"
  pr_extra :: "(string \<times> json) list"

datatype community_status =
    PendingJoin uuid
  | Active
  | LeftByMember
  | Withdrawn
  | Rejected
  | Removed
  | Expired

fun is_active :: "community_status \<Rightarrow> bool" where
  "is_active Active = True"
| "is_active _ = False"

definition is_read_only :: "community_status \<Rightarrow> bool" where
  "is_read_only s \<longleftrightarrow> \<not> is_active s"

fun is_inactive :: "community_status \<Rightarrow> bool" where
  "is_inactive (PendingJoin _) = False"
| "is_inactive Active = False"
| "is_inactive _ = True"

fun status_needs_attention :: "community_status \<Rightarrow> bool" where
  "status_needs_attention (PendingJoin _) = True"
| "status_needs_attention Rejected = True"
| "status_needs_attention Removed = True"
| "status_needs_attention Expired = True"
| "status_needs_attention _ = False"

fun requires_live_session :: "community_status \<Rightarrow> bool" where
  "requires_live_session Active = True"
| "requires_live_session (PendingJoin _) = True"
| "requires_live_session _ = False"

fun pending_id :: "community_status \<Rightarrow> uuid option" where
  "pending_id (PendingJoin r) = Some r"
| "pending_id _ = None"

record decision_evidence =
  de_code :: "string option"
  de_reason :: "string option"
  de_decided_by :: "string option"
  de_decided_at :: "instant option"
  de_disposition :: "string option"

definition no_evidence :: decision_evidence where
  "no_evidence = \<lparr>de_code = None, de_reason = None, de_decided_by = None, de_decided_at = None, de_disposition = None\<rparr>"

definition evidence_is_empty :: "decision_evidence \<Rightarrow> bool" where
  "evidence_is_empty e \<longleftrightarrow> de_code e = None \<and> de_reason e = None \<and> de_decided_by e = None \<and>
     de_decided_at e = None \<and> de_disposition e = None"

datatype identifier_default = Attributed | Pairwise

datatype messaging_transport = DidComm | Tsp

datatype credential_kind = MembershipKind | RoleKind | CommunityVettingKind

definition credential_kinds :: "credential_kind list" where
  "credential_kinds = [MembershipKind, RoleKind, CommunityVettingKind]"

fun config_key :: "credential_kind \<Rightarrow> string" where
  "config_key MembershipKind = ''Membership''"
| "config_key RoleKind = ''Role''"
| "config_key CommunityVettingKind = ''CommunityVetting''"

fun activates_membership :: "credential_kind \<Rightarrow> bool" where
  "activates_membership MembershipKind = True"
| "activates_membership _ = False"

definition from_config_key :: "string \<Rightarrow> credential_kind option" where
  "from_config_key k = List.find (\<lambda>c. config_key c = k) credential_kinds"

datatype resend_answer =
    Queued instant
  | RateLimited "instant option"
  | NotNeeded

record credential_delivery =
  cd_delivered :: bool
  cd_last_answer :: "resend_answer option"

record retired_credential =
  rc_kind :: string
  rc_credential_id :: "string option"
  rc_reason :: string
  rc_retired_at :: instant

definition member_acknowledgement :: string where
  "member_acknowledgement = ''Acknowledgement''"

record community_record =
  cr_vtc_did :: vtc_did
  cr_display_name :: "string option"
  cr_sub_context_id :: string
  cr_persona_ref :: persona_id
  cr_status :: community_status
  cr_favourite :: bool
  cr_archived :: bool
  cr_acknowledged :: bool
  cr_member_since :: "instant option"
  cr_requested_at :: "instant option"
  cr_receipt_at :: "instant option"
  cr_approved_at :: "instant option"
  cr_credential_delivery :: "credential_delivery option"
  cr_credential_refused :: "string option"
  cr_submit_transport :: "messaging_transport option"
  cr_directory_statement_digest :: "string option"
  cr_request_id_confirmed :: bool
  cr_relationships :: relationships
  cr_tasks :: tasks
  cr_vrcs_issued :: vrcs
  cr_vrcs_received :: vrcs
  cr_credentials :: "(credential_kind \<times> json) list"
  cr_member_vmc :: "json option"
  cr_decision :: "decision_evidence option"
  cr_relationship_identifier_default :: "identifier_default option"
  cr_retired_credentials :: "retired_credential list"
  cr_extra :: "(string \<times> json) list"

datatype did_method = WebVh | Scid

record account =
  ac_vta_did :: string
  ac_vta_url :: string
  ac_top_context_id :: string
  ac_personas :: "(persona_id \<times> persona_record) list"
  ac_communities :: "(vtc_did \<times> community_record list) list"
  ac_preferred_did_method :: "did_method option"
  ac_scid_also_known_as :: "bool option"
  ac_extra :: "(string \<times> json) list"

section \<open>One membership\<close>

definition pending_timeout_days :: int where "pending_timeout_days = 7"
definition pending_ack_grace_secs :: int where "pending_ack_grace_secs = 120"
definition credential_resend_grace_secs :: int where "credential_resend_grace_secs = 10 * 60"

definition record_retired ::
  "string \<Rightarrow> json \<Rightarrow> string \<Rightarrow> instant \<Rightarrow> retired_credential list \<Rightarrow> retired_credential list" where
  "record_retired kind vc reason now into =
     (let cid = jmember_str ''id'' (Some vc)
      in if list_ex (\<lambda>r. rc_kind r = kind \<and> rc_credential_id r = cid) into then into
         else into @ [\<lparr>rc_kind = kind, rc_credential_id = cid, rc_reason = reason, rc_retired_at = now\<rparr>])"

definition clear_retired :: "string \<Rightarrow> community_record \<Rightarrow> community_record" where
  "clear_retired kind c = c\<lparr>cr_retired_credentials := filter (\<lambda>r. rc_kind r \<noteq> kind) (cr_retired_credentials c)\<rparr>"

definition new_pending ::
  "vtc_did \<Rightarrow> string option \<Rightarrow> string \<Rightarrow> persona_id \<Rightarrow> uuid \<Rightarrow> instant \<Rightarrow> community_record" where
  "new_pending vtc name sub persona request now =
     \<lparr>cr_vtc_did = vtc, cr_display_name = name, cr_sub_context_id = sub, cr_persona_ref = persona,
      cr_status = PendingJoin request, cr_favourite = False, cr_archived = False, cr_acknowledged = False,
      cr_member_since = None, cr_requested_at = Some now, cr_receipt_at = None, cr_approved_at = None,
      cr_credential_delivery = None, cr_credential_refused = None, cr_submit_transport = None,
      cr_directory_statement_digest = None, cr_request_id_confirmed = False,
      cr_relationships = no_relationships, cr_tasks = [], cr_vrcs_issued = vrcs_empty, cr_vrcs_received = vrcs_empty,
      cr_credentials = [], cr_member_vmc = None, cr_decision = None, cr_relationship_identifier_default = None,
      cr_retired_credentials = [], cr_extra = []\<rparr>"

definition is_live_membership :: "community_record \<Rightarrow> bool" where
  "is_live_membership c \<longleftrightarrow> requires_live_session (cr_status c)"

definition activate :: "instant \<Rightarrow> community_record \<Rightarrow> community_record" where
  "activate now c =
     c\<lparr>cr_member_since := (case cr_member_since c of None \<Rightarrow> Some now | Some t \<Rightarrow> Some t),
       cr_status := Active, cr_acknowledged := False\<rparr>"

definition reject :: "decision_evidence \<Rightarrow> community_record \<Rightarrow> community_record" where
  "reject e c = c\<lparr>cr_status := Rejected, cr_acknowledged := False, cr_decision := Some e\<rparr>"

definition remove_member :: "decision_evidence \<Rightarrow> community_record \<Rightarrow> community_record" where
  "remove_member e c = c\<lparr>cr_status := Removed, cr_acknowledged := False, cr_decision := Some e\<rparr>"

definition leave :: "community_record \<Rightarrow> community_record" where
  "leave c = c\<lparr>cr_status := LeftByMember, cr_acknowledged := False\<rparr>"

text \<open>Operations that report whether they changed anything answer the flag and the record.\<close>

definition withdraw :: "community_record \<Rightarrow> bool \<times> community_record" where
  "withdraw c =
     (if pending_id (cr_status c) = None then (False, c)
      else (True, c\<lparr>cr_status := Withdrawn, cr_acknowledged := False\<rparr>))"

definition acknowledge :: "community_record \<Rightarrow> community_record" where
  "acknowledge c = c\<lparr>cr_acknowledged := True\<rparr>"

definition needs_attention :: "community_record \<Rightarrow> bool" where
  "needs_attention c =
     (case cr_status c of
        PendingJoin _ \<Rightarrow> True
      | Rejected \<Rightarrow> \<not> cr_acknowledged c
      | Removed \<Rightarrow> \<not> cr_acknowledged c
      | Expired \<Rightarrow> \<not> cr_acknowledged c
      | _ \<Rightarrow> False)"

definition toggle_favourite :: "community_record \<Rightarrow> bool \<times> community_record" where
  "toggle_favourite c = (\<not> cr_favourite c, c\<lparr>cr_favourite := \<not> cr_favourite c\<rparr>)"

definition can_archive_or_delete :: "community_record \<Rightarrow> bool" where
  "can_archive_or_delete c \<longleftrightarrow> is_inactive (cr_status c)"

definition expire_if_stale_after :: "instant \<Rightarrow> duration \<Rightarrow> community_record \<Rightarrow> bool \<times> community_record" where
  "expire_if_stale_after now timeout c =
     (case (pending_id (cr_status c), cr_requested_at c) of
        (Some _, Some requested) \<Rightarrow>
          if timeout \<le> now - requested then (True, c\<lparr>cr_status := Expired, cr_acknowledged := False\<rparr>) else (False, c)
      | _ \<Rightarrow> (False, c))"

definition expire_if_stale :: "instant \<Rightarrow> community_record \<Rightarrow> bool \<times> community_record" where
  "expire_if_stale now c = expire_if_stale_after now (days pending_timeout_days) c"

definition mark_acknowledged :: "instant \<Rightarrow> community_record \<Rightarrow> bool \<times> community_record" where
  "mark_acknowledged now c = (if cr_receipt_at c = None then (True, c\<lparr>cr_receipt_at := Some now\<rparr>) else (False, c))"

definition confirm_request_id :: "uuid \<Rightarrow> community_record \<Rightarrow> bool \<times> community_record" where
  "confirm_request_id request c =
     (case pending_id (cr_status c) of
        None \<Rightarrow> (False, c)
      | Some held \<Rightarrow>
          if held = request \<and> cr_request_id_confirmed c then (False, c)
          else (True, c\<lparr>cr_status := PendingJoin request, cr_request_id_confirmed := True\<rparr>))"

definition is_pollable_pending :: "community_record \<Rightarrow> bool" where
  "is_pollable_pending c \<longleftrightarrow> pending_id (cr_status c) \<noteq> None"

definition mark_approved :: "instant \<Rightarrow> community_record \<Rightarrow> bool \<times> community_record" where
  "mark_approved now c = (if cr_approved_at c = None then (True, c\<lparr>cr_approved_at := Some now\<rparr>) else (False, c))"

definition approved_awaiting_credential :: "community_record \<Rightarrow> bool" where
  "approved_awaiting_credential c \<longleftrightarrow> pending_id (cr_status c) \<noteq> None \<and> cr_approved_at c \<noteq> None \<and>
     map_of (cr_credentials c) MembershipKind = None"

definition joined_over_tsp :: "community_record \<Rightarrow> bool" where
  "joined_over_tsp c \<longleftrightarrow> cr_submit_transport c = Some Tsp"

definition can_renew :: "community_record \<Rightarrow> bool" where
  "can_renew c \<longleftrightarrow> is_active (cr_status c) \<or> approved_awaiting_credential c"

definition wants_credential_resend :: "instant \<Rightarrow> community_record \<Rightarrow> bool" where
  "wants_credential_resend now c =
     (let grace = seconds credential_resend_grace_secs in
      approved_awaiting_credential c \<and>
      (case cr_approved_at c of None \<Rightarrow> False | Some at \<Rightarrow> grace \<le> now - at) \<and>
      (case cr_credential_delivery c of
         None \<Rightarrow> False
       | Some delivery \<Rightarrow>
           \<not> cd_delivered delivery \<and>
           (case cd_last_answer delivery of
              None \<Rightarrow> True
            | Some (Queued at) \<Rightarrow> grace \<le> now - at
            | Some (RateLimited (Some t)) \<Rightarrow> t \<le> now
            | Some (RateLimited None) \<Rightarrow> False
            | Some NotNeeded \<Rightarrow> False)))"

definition pending_unacknowledged :: "instant \<Rightarrow> community_record \<Rightarrow> bool" where
  "pending_unacknowledged now c \<longleftrightarrow> pending_id (cr_status c) \<noteq> None \<and> cr_receipt_at c = None \<and>
     (case cr_requested_at c of None \<Rightarrow> False | Some r \<Rightarrow> seconds pending_ack_grace_secs \<le> now - r)"

section \<open>Loading\<close>

text \<open>
  The deserialise-only shadow: the fields it carries over unchanged are \<open>sh_record\<close>'s; \<open>credentials\<close> is read by
  string key, and two flat fields of older configurations are folded in.
\<close>

record community_record_shadow =
  sh_record :: community_record
  sh_credentials :: "(string \<times> json) list"
  sh_membership_credential :: "json option"
  sh_role_credential :: "json option"

definition known_credentials :: "(string \<times> json) list \<Rightarrow> (credential_kind \<rightharpoonup> json)" where
  "known_credentials raw = foldl (\<lambda>m (key, vc). case from_config_key key of None \<Rightarrow> m | Some k \<Rightarrow> m(k \<mapsto> vc)) Map.empty raw"

definition or_insert :: "credential_kind \<Rightarrow> json option \<Rightarrow> (credential_kind \<rightharpoonup> json) \<Rightarrow> (credential_kind \<rightharpoonup> json)" where
  "or_insert k vc m = (case (vc, m k) of (Some v, None) \<Rightarrow> m(k \<mapsto> v) | _ \<Rightarrow> m)"

text \<open>The entries of the \<open>BTreeMap\<close>, in the order of the kinds.\<close>

definition kind_entries :: "(credential_kind \<rightharpoonup> json) \<Rightarrow> (credential_kind \<times> json) list" where
  "kind_entries m = List.map_filter (\<lambda>k. map_option (Pair k) (m k)) credential_kinds"

fun retire_entries ::
  "(json \<Rightarrow> string option) \<Rightarrow> instant \<Rightarrow> (credential_kind \<times> json) list \<Rightarrow> retired_credential list
     \<Rightarrow> (credential_kind \<times> json) list \<times> retired_credential list" where
  "retire_entries nonconformance now [] into = ([], into)"
| "retire_entries nonconformance now ((k, vc) # es) into =
     (case nonconformance vc of
        None \<Rightarrow> (let (kept, into') = retire_entries nonconformance now es into in ((k, vc) # kept, into'))
      | Some reason \<Rightarrow> retire_entries nonconformance now es (record_retired (config_key k) vc reason now into))"

definition retire_member_vmc ::
  "(json \<Rightarrow> string option) \<Rightarrow> instant \<Rightarrow> json option \<Rightarrow> retired_credential list
     \<Rightarrow> json option \<times> retired_credential list" where
  "retire_member_vmc nonconformance now vmc into =
     (case vmc of
        None \<Rightarrow> (None, into)
      | Some vc \<Rightarrow>
          (case nonconformance vc of
             None \<Rightarrow> (Some vc, into)
           | Some reason \<Rightarrow> (None, record_retired member_acknowledgement vc reason now into)))"

definition record_from_shadow ::
  "(json \<Rightarrow> string option) \<Rightarrow> instant \<Rightarrow> community_record_shadow \<Rightarrow> community_record" where
  "record_from_shadow nonconformance now sh =
     (let m = known_credentials (sh_credentials sh);
          m1 = or_insert MembershipKind (sh_membership_credential sh) m;
          m2 = or_insert RoleKind (sh_role_credential sh) m1;
          (kept, retired) = retire_entries nonconformance now (kind_entries m2) (cr_retired_credentials (sh_record sh));
          (vmc, retired') = retire_member_vmc nonconformance now (cr_member_vmc (sh_record sh)) retired
      in (sh_record sh)\<lparr>cr_credentials := kept, cr_member_vmc := vmc, cr_retired_credentials := retired'\<rparr>)"

text \<open>A community's value is a list of memberships, or the one record of older configurations.\<close>

datatype one_or_many = Many "community_record list" | One community_record

fun de_community :: "one_or_many \<Rightarrow> community_record list" where
  "de_community (Many cs) = cs"
| "de_community (One c) = [c]"

definition de_communities :: "(vtc_did \<times> one_or_many) list \<Rightarrow> (vtc_did \<times> community_record list) list" where
  "de_communities raw = map (\<lambda>(k, v). (k, de_community v)) raw"

section \<open>The account\<close>

record did_presentation =
  dp_method :: "did_method option"
  dp_scid_also_known_as :: "bool option"

definition persona_presentation :: "account \<Rightarrow> did_method option \<Rightarrow> did_presentation" where
  "persona_presentation a choice =
     \<lparr>dp_method = (case choice of Some m \<Rightarrow> Some m | None \<Rightarrow> ac_preferred_did_method a),
      dp_scid_also_known_as = ac_scid_also_known_as a\<rparr>"

definition memberships :: "account \<Rightarrow> community_record list" where
  "memberships a = concat (map snd (ac_communities a))"

definition memberships_for :: "account \<Rightarrow> vtc_did \<Rightarrow> community_record list" where
  "memberships_for a vtc = (case map_of (ac_communities a) vtc of None \<Rightarrow> [] | Some cs \<Rightarrow> cs)"

text \<open>\<open>communities.get_mut(vtc)\<close> and a change of the list it holds.\<close>

definition on_community :: "vtc_did \<Rightarrow> (community_record list \<Rightarrow> community_record list) \<Rightarrow> account \<Rightarrow> account" where
  "on_community vtc f a =
     a\<lparr>ac_communities := update_first (\<lambda>(k, _). k = vtc) (\<lambda>(k, cs). (k, f cs)) (ac_communities a)\<rparr>"

definition on_membership :: "vtc_did \<Rightarrow> (community_record \<Rightarrow> bool) \<Rightarrow> (community_record \<Rightarrow> community_record)
    \<Rightarrow> account \<Rightarrow> account" where
  "on_membership vtc p f a = on_community vtc (update_first p f) a"

definition note_credential_refused :: "vtc_did \<Rightarrow> string option \<Rightarrow> account \<Rightarrow> account" where
  "note_credential_refused vtc reason a =
     on_community vtc (map (\<lambda>c. case reason of
         Some r \<Rightarrow> if approved_awaiting_credential c then c\<lparr>cr_credential_refused := Some r\<rparr> else c
       | None \<Rightarrow> c\<lparr>cr_credential_refused := None\<rparr>)) a"

definition membership :: "account \<Rightarrow> vtc_did \<Rightarrow> persona_id \<Rightarrow> community_record option" where
  "membership a vtc persona = List.find (\<lambda>c. cr_persona_ref c = persona) (memberships_for a vtc)"

definition membership_mut ::
  "vtc_did \<Rightarrow> persona_id \<Rightarrow> (community_record \<Rightarrow> community_record) \<Rightarrow> account \<Rightarrow> account" where
  "membership_mut vtc persona f a = on_membership vtc (\<lambda>c. cr_persona_ref c = persona) f a"

definition holds_request :: "uuid \<Rightarrow> community_record \<Rightarrow> bool" where
  "holds_request request c \<longleftrightarrow> pending_id (cr_status c) = Some request"

definition membership_by_pending_request :: "account \<Rightarrow> vtc_did \<Rightarrow> uuid \<Rightarrow> community_record option" where
  "membership_by_pending_request a vtc request = List.find (holds_request request) (memberships_for a vtc)"

definition unconfirmed_personas :: "account \<Rightarrow> vtc_did \<Rightarrow> persona_id list" where
  "unconfirmed_personas a vtc =
     map cr_persona_ref (filter (\<lambda>c. pending_id (cr_status c) \<noteq> None \<and> \<not> cr_request_id_confirmed c) (memberships_for a vtc))"

text \<open>The persona \<open>membership_awaiting_request_id\<close> settles on; its record is then the persona's membership.\<close>

definition awaiting_persona :: "account \<Rightarrow> vtc_did \<Rightarrow> string list \<Rightarrow> persona_id option" where
  "awaiting_persona a vtc recipients =
     (case unconfirmed_personas a vtc of
        [] \<Rightarrow> None
      | [only] \<Rightarrow> Some only
      | several \<Rightarrow>
          (case filter (\<lambda>p. case map_of (ac_personas a) p of None \<Rightarrow> False | Some r \<Rightarrow> pr_did r \<in> set recipients) several of
             [only] \<Rightarrow> Some only
           | _ \<Rightarrow> None))"

definition membership_awaiting_request_id :: "account \<Rightarrow> vtc_did \<Rightarrow> string list \<Rightarrow> community_record option" where
  "membership_awaiting_request_id a vtc recipients =
     Option.bind (awaiting_persona a vtc recipients) (membership a vtc)"

record pending_poll =
  pp_vtc_did :: vtc_did
  pp_persona_ref :: persona_id
  pp_request_id :: "uuid option"
  pp_submit_transport :: "messaging_transport option"
  pp_resend_credentials :: bool

definition poll_of :: "instant \<Rightarrow> community_record \<Rightarrow> pending_poll option" where
  "poll_of now c = map_option (\<lambda>request.
     \<lparr>pp_vtc_did = cr_vtc_did c, pp_persona_ref = cr_persona_ref c,
      pp_request_id = (if cr_request_id_confirmed c then Some request else None),
      pp_submit_transport = cr_submit_transport c, pp_resend_credentials = wants_credential_resend now c\<rparr>)
     (pending_id (cr_status c))"

definition pollable_pending :: "account \<Rightarrow> instant \<Rightarrow> pending_poll list" where
  "pollable_pending a now = List.map_filter (poll_of now) (filter is_pollable_pending (memberships a))"

definition add_membership :: "community_record \<Rightarrow> account \<Rightarrow> account" where
  "add_membership c a =
     a\<lparr>ac_communities :=
         (case map_of (ac_communities a) (cr_vtc_did c) of
            None \<Rightarrow> ac_communities a @ [(cr_vtc_did c, [c])]
          | Some _ \<Rightarrow> ac_communities (on_community (cr_vtc_did c) (\<lambda>cs. cs @ [c]) a))\<rparr>"

definition has_live_membership :: "account \<Rightarrow> vtc_did \<Rightarrow> persona_id \<Rightarrow> bool" where
  "has_live_membership a vtc persona =
     (case membership a vtc persona of None \<Rightarrow> False | Some c \<Rightarrow> is_live_membership c)"

definition persona_id_for_did :: "account \<Rightarrow> string \<Rightarrow> persona_id option" where
  "persona_id_for_did a did = map_option fst (List.find (\<lambda>(_, p). pr_did p = did) (ac_personas a))"

definition membership_persona :: "account \<Rightarrow> vtc_did \<Rightarrow> persona_id \<Rightarrow> persona_record option" where
  "membership_persona a vtc persona =
     Option.bind (membership a vtc persona) (\<lambda>c. map_of (ac_personas a) (cr_persona_ref c))"

definition persona_referenced :: "account \<Rightarrow> persona_id \<Rightarrow> bool" where
  "persona_referenced a p \<longleftrightarrow> list_ex (\<lambda>c. cr_persona_ref c = p) (memberships a)"

definition can_delete_persona :: "account \<Rightarrow> persona_id \<Rightarrow> bool" where
  "can_delete_persona a p \<longleftrightarrow> map_of (ac_personas a) p \<noteq> None \<and> \<not> persona_referenced a p"

definition dangling_refs :: "account \<Rightarrow> (vtc_did \<times> persona_id) list" where
  "dangling_refs a =
     map (\<lambda>(vtc, c). (vtc, cr_persona_ref c))
       (filter (\<lambda>(_, c). map_of (ac_personas a) (cr_persona_ref c) = None)
         (concat (map (\<lambda>(vtc, cs). map (Pair vtc) cs) (ac_communities a))))"

definition active_communities :: "account \<Rightarrow> community_record list" where
  "active_communities a = filter (\<lambda>c. is_active (cr_status c)) (memberships a)"

definition expire_stale_pending_with ::
  "instant \<Rightarrow> (community_record \<Rightarrow> duration) \<Rightarrow> account \<Rightarrow> (vtc_did \<times> persona_id) list \<times> account" where
  "expire_stale_pending_with now timeout_for a =
     (map (\<lambda>c. (cr_vtc_did c, cr_persona_ref c))
        (filter (\<lambda>c. fst (expire_if_stale_after now (timeout_for c) c)) (memberships a)),
      a\<lparr>ac_communities := map (\<lambda>(k, cs). (k, map (\<lambda>c. snd (expire_if_stale_after now (timeout_for c) c)) cs))
          (ac_communities a)\<rparr>)"

definition expire_stale_pending :: "instant \<Rightarrow> account \<Rightarrow> (vtc_did \<times> persona_id) list \<times> account" where
  "expire_stale_pending now a = expire_stale_pending_with now (\<lambda>_. days pending_timeout_days) a"

definition actions_required_count :: "account \<Rightarrow> nat" where
  "actions_required_count a = length (filter (\<lambda>c. \<not> cr_archived c \<and> needs_attention c) (memberships a))"

datatype config_error = UnknownMembership vtc_did | StillLive vtc_did

definition archive_membership :: "vtc_did \<Rightarrow> persona_id \<Rightarrow> account \<Rightarrow> config_error + account" where
  "archive_membership vtc persona a =
     rbind (ok_or (UnknownMembership vtc) (membership a vtc persona)) (\<lambda>c.
     rbind (ensure (can_archive_or_delete c) (StillLive vtc)) (\<lambda>_.
       Inr (membership_mut vtc persona (\<lambda>c. c\<lparr>cr_archived := True\<rparr>) a)))"

fun remove_first :: "('a \<Rightarrow> bool) \<Rightarrow> 'a list \<Rightarrow> 'a list" where
  "remove_first p [] = []"
| "remove_first p (x # xs) = (if p x then xs else x # remove_first p xs)"

definition delete_membership :: "vtc_did \<Rightarrow> persona_id \<Rightarrow> account \<Rightarrow> config_error + community_record \<times> account" where
  "delete_membership vtc persona a =
     rbind (ok_or (UnknownMembership vtc) (map_of (ac_communities a) vtc)) (\<lambda>cs.
     rbind (ok_or (UnknownMembership vtc) (List.find (\<lambda>c. cr_persona_ref c = persona) cs)) (\<lambda>c.
     rbind (ensure (can_archive_or_delete c) (StillLive vtc)) (\<lambda>_.
       let rest = remove_first (\<lambda>c. cr_persona_ref c = persona) cs
       in Inr (c, if rest = [] then a\<lparr>ac_communities := AList.delete vtc (ac_communities a)\<rparr>
                  else on_community vtc (\<lambda>_. rest) a))))"

section \<open>The order of the overview\<close>

text \<open>An unnamed community sorts after every named one.\<close>

datatype name_key = Named string | Unnamed

instantiation name_key :: linorder
begin

fun less_eq_name_key :: "name_key \<Rightarrow> name_key \<Rightarrow> bool" where
  "less_eq_name_key (Named s) (Named t) = (s \<le> t)"
| "less_eq_name_key (Named _) Unnamed = True"
| "less_eq_name_key Unnamed Unnamed = True"
| "less_eq_name_key Unnamed (Named _) = False"

definition less_name_key :: "name_key \<Rightarrow> name_key \<Rightarrow> bool" where
  "less_name_key x y \<longleftrightarrow> x \<le> y \<and> \<not> y \<le> x"

instance
proof
  fix x y z :: name_key
  show "(x < y) = (x \<le> y \<and> \<not> y \<le> x)" by (rule less_name_key_def)
  show "x \<le> x" by (cases x) auto
  show "x \<le> y \<Longrightarrow> y \<le> z \<Longrightarrow> x \<le> z" by (cases x; cases y; cases z) auto
  show "x \<le> y \<Longrightarrow> y \<le> x \<Longrightarrow> x = y" by (cases x; cases y) auto
  show "x \<le> y \<or> y \<le> x" by (cases x; cases y) auto
qed

end

text \<open>\<open>lower\<close> is \<open>str::to_lowercase\<close>, Unicode's tables.\<close>

definition name_key_of :: "(string \<Rightarrow> string) \<Rightarrow> string option \<Rightarrow> name_key" where
  "name_key_of lower name = (case name of Some n \<Rightarrow> Named (lower n) | None \<Rightarrow> Unnamed)"

definition display_key :: "(string \<Rightarrow> string) \<Rightarrow> community_record \<Rightarrow> bool \<times> name_key \<times> string \<times> persona_id" where
  "display_key lower c = (\<not> cr_favourite c, name_key_of lower (cr_display_name c), cr_vtc_did c, cr_persona_ref c)"

definition communities_for_display :: "(string \<Rightarrow> string) \<Rightarrow> bool \<Rightarrow> account \<Rightarrow> community_record list" where
  "communities_for_display lower include_archived a =
     sort_key (display_key lower) (filter (\<lambda>c. include_archived \<or> \<not> cr_archived c) (memberships a))"

definition default_working_membership :: "(string \<Rightarrow> string) \<Rightarrow> account \<Rightarrow> (vtc_did \<times> persona_id) option" where
  "default_working_membership lower a =
     map_option (\<lambda>c. (cr_vtc_did c, cr_persona_ref c))
       (List.find (\<lambda>c. is_active (cr_status c)) (communities_for_display lower False a))"

section \<open>Buckets\<close>

text \<open>Each community has one bucket, holding its own memberships.\<close>

definition filed :: "account \<Rightarrow> bool" where
  "filed a \<longleftrightarrow> distinct (map fst (ac_communities a)) \<and>
     (\<forall>(k, cs) \<in> set (ac_communities a). \<forall>c \<in> set cs. cr_vtc_did c = k)"

definition membership_key :: "community_record \<Rightarrow> vtc_did \<times> persona_id" where
  "membership_key c = (cr_vtc_did c, cr_persona_ref c)"

lemma memberships_for_on_community:
  "memberships_for (on_community vtc f a) v = (if v = vtc \<and> map_of (ac_communities a) vtc \<noteq> None
     then f (memberships_for a v) else memberships_for a v)"
  by (auto simp: memberships_for_def on_community_def map_of_update_first split: option.splits)

lemma on_membership_for:
  "memberships_for (on_membership vtc p f a) v = (if v = vtc then update_first p f (memberships_for a v) else memberships_for a v)"
  unfolding on_membership_def memberships_for_on_community
  by (auto simp: memberships_for_def)

lemma on_community_frame [simp, frame_simps]:
  "ac_personas (on_community vtc f a) = ac_personas a"
  "map fst (ac_communities (on_community vtc f a)) = map fst (ac_communities a)"
  by (auto simp: on_community_def intro!: map_update_first)

lemma on_membership_frame [simp, frame_simps]:
  "ac_personas (on_membership vtc p f a) = ac_personas a"
  "map fst (ac_communities (on_membership vtc p f a)) = map fst (ac_communities a)"
  by (simp_all add: on_membership_def)

lemma persona_lookup_frame [simp, frame_simps]:
  "persona_id_for_did (on_membership vtc p f a) did = persona_id_for_did a did"
  by (simp add: persona_id_for_did_def)

lemma membership_mut_other:
  "membership (membership_mut vtc persona f a) v q
     = (if v = vtc \<and> q = persona then map_option f (membership a v q) else membership a v q)"
  if "\<And>c. cr_persona_ref (f c) = cr_persona_ref c"
  using that by (auto simp: membership_def membership_mut_def on_membership_for find_update_same_key
      intro!: find_update_other)

lemma filed_on_membership:
  assumes "filed a" "\<And>c. cr_vtc_did (f c) = cr_vtc_did c"
  shows "filed (on_membership vtc p f a)"
proof -
  have "\<forall>c \<in> set cs. cr_vtc_did c = k" if e: "(k, cs) \<in> set (ac_communities (on_membership vtc p f a))" for k cs
  proof -
    from e have "(k, cs) \<in> set (ac_communities a) \<or>
        (\<exists>ds. (k, ds) \<in> set (ac_communities a) \<and> cs = update_first p f ds)"
      by (auto simp: on_membership_def on_community_def dest!: set_update_first)
    then show ?thesis
      using assms by (auto simp: filed_def dest!: set_update_first)
  qed
  with assms(1) show ?thesis by (auto simp: filed_def)
qed

lemma filter_bucket:
  assumes "filed a" "\<And>c. p c \<Longrightarrow> cr_vtc_did c = v"
  shows "filter p (memberships a) = filter p (memberships_for a v)"
proof -
  have "distinct (map fst es) \<Longrightarrow> \<forall>(k, cs) \<in> set es. \<forall>c \<in> set cs. cr_vtc_did c = k \<Longrightarrow>
    filter p (concat (map snd es)) = filter p (case map_of es v of None \<Rightarrow> [] | Some cs \<Rightarrow> cs)" for es
  proof (induction es)
    case (Cons e es)
    obtain k cs where e: "e = (k, cs)" by (cases e)
    show ?case
    proof (cases "k = v")
      case True
      then have "map_of es v = None" using Cons.prems(1) e by (simp add: map_of_eq_None_iff)
      with Cons True e show ?thesis by simp
    next
      case False
      then have "filter p cs = []" using Cons.prems(2) assms(2) e by (auto simp: filter_empty_conv)
      with Cons False e show ?thesis by simp
    qed
  qed simp
  with assms(1) show ?thesis by (simp add: filed_def memberships_def memberships_for_def)
qed

lemma mem_memberships:
  "filed a \<Longrightarrow> c \<in> set (memberships a) \<longleftrightarrow> c \<in> set (memberships_for a (cr_vtc_did c))"
  using arg_cong [OF filter_bucket [of a "\<lambda>d. d = c" "cr_vtc_did c"], of set] by auto

section \<open>An example account\<close>

definition example_persona :: persona_record where
  "example_persona = \<lparr>pr_persona_id = 1, pr_did = ''did:me'', pr_did_document = None, pr_did_locator = None,
     pr_key_refs = [], pr_mediator_did = None, pr_origin_context_id = [], pr_created_at = 0, pr_label = None, pr_extra = []\<rparr>"

definition example_pending :: community_record where
  "example_pending = new_pending ''did:c'' (Some ''Coop'') ''top/c'' 1 10 0"

definition example_member :: community_record where
  "example_member = activate 5 (new_pending ''did:d'' None ''top/d'' 1 11 0)"

definition example_account :: account where
  "example_account = \<lparr>ac_vta_did = ''did:vta'', ac_vta_url = [], ac_top_context_id = ''top'',
     ac_personas = [(1, example_persona)],
     ac_communities = [(''did:c'', [example_pending]), (''did:d'', [example_member])],
     ac_preferred_did_method = None, ac_scid_also_known_as = None, ac_extra = []\<rparr>"

lemmas example_account_defs = example_account_def example_persona_def example_pending_def example_member_def
  new_pending_def activate_def

end
