(* ===== verification/Credentials.thy ===== *)
theory Credentials
  imports Account
begin

text \<open>
  What a community issues to a member: whether a credential is a conformant DTG credential and of which kind
  (\<open>dtg.rs\<close>, \<open>CredentialKind::from_credential\<close>), and the checks an issued one passes before it can be stored
  (\<open>issued_credential.rs\<close>).

  Parsing a DTG credential, reading its members, proofs, revocation lists and RFC 3339 times are libraries': the
  fields of \<open>credential_sdk\<close>. \<open>dtg_document\<close> is what the code reads of a parsed credential.
\<close>

section \<open>The libraries\<close>

datatype dtg_type =
    MembershipCredential
  | AuthorityCredential
  | StatementCredential
  | OtherCredential string

datatype issuer_scope = PublicScope | DirectedScope | PairwiseScope

record dtg_authority =
  au_scope :: string
  au_parent :: "json option"
  au_actions :: "string list"

datatype statement_object = ObjectId string | ObjectDigest string | ObjectValue json

record dtg_statement =
  ds_predicate :: string
  ds_object :: statement_object

record dtg_document =
  dd_type :: dtg_type
  dd_scope :: issuer_scope
  dd_issuer :: string
  dd_subject :: string
  dd_authority :: "dtg_authority option"
  dd_statement :: "dtg_statement option"

datatype status_check = StatusActive | StatusRevoked | StatusNotKnown string

record credential_sdk =
  ck_parse :: "json \<Rightarrow> string + dtg_document"
  ck_role_of_action :: "string \<Rightarrow> string option"
  ck_vetted_v1 :: string
  ck_vetted_value :: "json \<Rightarrow> vetted_value option"
  ck_rfc3339 :: "string \<Rightarrow> instant option"
  ck_assertion_error :: "json \<Rightarrow> string \<Rightarrow> string option"
  ck_authentication_error :: "json \<Rightarrow> string \<Rightarrow> string option"
  ck_status :: "json \<Rightarrow> string \<Rightarrow> instant \<Rightarrow> status_check"

section \<open>Conformance and kind\<close>

text \<open>The scope declared for a member's identifier, and for the issuer of a relationship credential.\<close>

definition member_identifier_scope :: issuer_scope where "member_identifier_scope = DirectedScope"

definition relationship_issuer_scope :: "bool \<Rightarrow> issuer_scope" where
  "relationship_issuer_scope issuer_is_persona = (if issuer_is_persona then DirectedScope else PairwiseScope)"

fun parse_conformant :: "credential_sdk \<Rightarrow> json \<Rightarrow> string + dtg_document" where
  "parse_conformant sdk (JObject ms) = ck_parse sdk (JObject (AList.delete ''proof'' ms))"
| "parse_conformant sdk _ = Inl ''not a JSON object''"

definition nonconformance :: "credential_sdk \<Rightarrow> json \<Rightarrow> string option" where
  "nonconformance sdk v = (case parse_conformant sdk v of Inl e \<Rightarrow> Some e | Inr _ \<Rightarrow> None)"

definition community_roles :: "credential_sdk \<Rightarrow> dtg_document \<Rightarrow> string list option" where
  "community_roles sdk d =
     (if dd_type d \<noteq> AuthorityCredential \<or> dd_scope d \<noteq> PublicScope then None
      else case dd_authority d of
             None \<Rightarrow> None
           | Some au \<Rightarrow>
               if au_scope au \<noteq> dd_issuer d \<or> au_parent au \<noteq> None then None
               else let roles = List.map_filter (ck_role_of_action sdk) (au_actions au)
                    in if roles = [] then None else Some roles)"

definition has_no_vetter_members :: "vetted_value \<Rightarrow> bool" where
  "has_no_vetter_members v \<longleftrightarrow> vv_identity_commitment v = None \<and> vv_card_digest v = None \<and>
     vv_declared_relationship v = None"

definition is_community_vetting :: "credential_sdk \<Rightarrow> dtg_document \<Rightarrow> bool" where
  "is_community_vetting sdk d =
     (case dd_statement d of
        None \<Rightarrow> False
      | Some st \<Rightarrow>
          ds_predicate st = ck_vetted_v1 sdk \<and>
          (case ds_object st of
             ObjectValue value \<Rightarrow>
               (case ck_vetted_value sdk value of
                  None \<Rightarrow> False
                | Some v \<Rightarrow> has_no_vetter_members v \<and> vv_community v = dd_issuer d)
           | _ \<Rightarrow> False))"

definition kind_of_credential :: "credential_sdk \<Rightarrow> json \<Rightarrow> credential_kind option" where
  "kind_of_credential sdk v =
     (case parse_conformant sdk v of
        Inl _ \<Rightarrow> None
      | Inr d \<Rightarrow>
          (case dd_type d of
             MembershipCredential \<Rightarrow> Some MembershipKind
           | AuthorityCredential \<Rightarrow> if community_roles sdk d \<noteq> None then Some RoleKind else None
           | StatementCredential \<Rightarrow> if is_community_vetting sdk d then Some CommunityVettingKind else None
           | OtherCredential _ \<Rightarrow> None))"

section \<open>Issued credentials\<close>

datatype issued_credential_error =
    CredentialNotChecked
  | DeliveryIssuerNotSender
  | DeliveryProof string
  | NoCredential
  | CredentialCheckUnfinished
  | NoIssuer
  | CredentialIssuerNotSender
  | CredentialProof string
  | BadTimestamp string
  | NotYetValid
  | CredentialExpired
  | CredentialRevoked
  | StatusUnknown string

fun jpointer :: "string list \<Rightarrow> json \<Rightarrow> json option" where
  "jpointer [] v = Some v"
| "jpointer (k # ks) v = (case jget k v of None \<Rightarrow> None | Some w \<Rightarrow> jpointer ks w)"

definition valid_from_skew :: duration where "valid_from_skew = minutes 5"

definition issuer_of :: "json \<Rightarrow> string option" where
  "issuer_of credential =
     (case jget ''issuer'' credential of
        Some (JString s) \<Rightarrow> Some s
      | Some (JObject ms) \<Rightarrow> jmember_str ''id'' (Some (JObject ms))
      | _ \<Rightarrow> None)"

definition read_time :: "credential_sdk \<Rightarrow> json \<Rightarrow> string \<Rightarrow> issued_credential_error + instant option" where
  "read_time sdk credential key =
     (case jget key credential of
        None \<Rightarrow> Inr None
      | Some JNull \<Rightarrow> Inr None
      | Some (JString s) \<Rightarrow> rbind (ok_or (BadTimestamp key) (ck_rfc3339 sdk s)) (\<lambda>t. Inr (Some t))
      | Some _ \<Rightarrow> Inl (BadTimestamp key))"

definition read_time_or ::
  "credential_sdk \<Rightarrow> json \<Rightarrow> string \<Rightarrow> string \<Rightarrow> issued_credential_error + instant option" where
  "read_time_or sdk credential key old =
     rbind (read_time sdk credential key) (\<lambda>t.
       case t of Some u \<Rightarrow> Inr (Some u) | None \<Rightarrow> read_time sdk credential old)"

definition check_validity_window :: "credential_sdk \<Rightarrow> json \<Rightarrow> instant \<Rightarrow> issued_credential_error + unit" where
  "check_validity_window sdk credential now =
     rbind (read_time_or sdk credential ''validFrom'' ''issuanceDate'') (\<lambda>start.
     rbind (read_time_or sdk credential ''validUntil'' ''expirationDate'') (\<lambda>until.
     rbind (ensure (case start of None \<Rightarrow> True | Some f \<Rightarrow> f \<le> now + valid_from_skew) NotYetValid) (\<lambda>_.
       ensure (case until of None \<Rightarrow> True | Some u \<Rightarrow> now < u) CredentialExpired)))"

definition check_status :: "credential_sdk \<Rightarrow> json \<Rightarrow> string \<Rightarrow> instant \<Rightarrow> issued_credential_error + unit" where
  "check_status sdk status issuer now =
     (case ck_status sdk status issuer now of
        StatusActive \<Rightarrow> Inr ()
      | StatusRevoked \<Rightarrow> Inl CredentialRevoked
      | StatusNotKnown reason \<Rightarrow> Inl (StatusUnknown reason))"

text \<open>The credential that comes back is the verified one: \<open>VerifiedIssuedCredential\<close>.\<close>

definition verify_issued_credential ::
  "credential_sdk \<Rightarrow> json \<Rightarrow> string \<Rightarrow> instant \<Rightarrow> issued_credential_error + json" where
  "verify_issued_credential sdk credential sender now =
     rbind (ok_or NoIssuer (issuer_of credential)) (\<lambda>issuer.
     rbind (ensure (issuer = sender) CredentialIssuerNotSender) (\<lambda>_.
     rbind (check_validity_window sdk credential now) (\<lambda>_.
     rbind (case ck_assertion_error sdk credential issuer of None \<Rightarrow> Inr () | Some e \<Rightarrow> Inl (CredentialProof e)) (\<lambda>_.
     rbind (case jget ''credentialStatus'' credential of
              None \<Rightarrow> Inr () | Some status \<Rightarrow> check_status sdk status issuer now) (\<lambda>_.
       Inr credential)))))"

definition verify_issued_delivery ::
  "credential_sdk \<Rightarrow> json \<Rightarrow> string \<Rightarrow> instant \<Rightarrow> issued_credential_error + json" where
  "verify_issued_delivery sdk doc sender now =
     rbind (ensure (jmember_str ''issuer'' (Some doc) = Some sender) DeliveryIssuerNotSender) (\<lambda>_.
     rbind (case ck_authentication_error sdk doc sender of None \<Rightarrow> Inr () | Some e \<Rightarrow> Inl (DeliveryProof e)) (\<lambda>_.
     rbind (ok_or NoCredential (jpointer [''payload'', ''credential_response'', ''credential''] doc)) (\<lambda>credential.
       verify_issued_credential sdk credential sender now)))"

section \<open>What a verified credential is\<close>

text \<open>
  Everything that passes is the community's own: issued by the sender, proven under its key, in its validity window
  and, where it names a status, established as not revoked.
\<close>

lemma verify_issued_credentialD:
  assumes "verify_issued_credential sdk credential sender now = Inr v"
  shows "v = credential" "issuer_of credential = Some sender" "ck_assertion_error sdk credential sender = None"
    "check_validity_window sdk credential now = Inr ()"
    "\<And>status. jget ''credentialStatus'' credential = Some status \<Longrightarrow> ck_status sdk status sender now = StatusActive"
  using assms
  by (auto simp: verify_issued_credential_def check_status_def result_simps split: option.splits status_check.splits)

lemma kind_membership_iff:
  "kind_of_credential sdk v = Some MembershipKind \<longleftrightarrow>
     (\<exists>d. parse_conformant sdk v = Inr d \<and> dd_type d = MembershipCredential)"
  by (auto simp: kind_of_credential_def split: sum.splits dtg_type.splits if_splits)

end
