(* ===== verification/Operational.thy ===== *)
theory Operational
  imports Wire "HOL-Library.AList"
begin

text \<open>
  Operational documents (\<open>operational.rs\<close>): what a community does, rather than attests - a removal notice, an
  answer to a question of ours. A document is acted on when its envelope and proof verify and its id has not been
  acted on before by that issuer.

  The replay set is \<open>seen_documents\<close>: the \<open>BTreeMap\<close>s are association lists with distinct keys, whose order
  nothing depends on. Parsing an RFC 3339 time and checking a Data Integrity proof are functions of libraries
  outside the repository, and the type of a removal notice a constant of \<open>vta_sdk\<close>: the fields of
  \<open>document_sdk\<close>.

  Shown: nothing that may still be replayed is forgotten and no document is ever acted on twice, however the
  documents of a run are ordered; the set stays within its two bounds, and what it refuses leaves it as it was.
\<close>

section \<open>Kinds and errors\<close>

datatype operational_kind = RemovalNotice | CommunityAnswer

record document_sdk =
  ds_removal_notice_type :: string
  ds_parse_rfc3339 :: "string \<Rightarrow> instant option"
  ds_proof_error :: "json \<Rightarrow> string \<Rightarrow> string option"

definition kind_of :: "document_sdk \<Rightarrow> string \<Rightarrow> operational_kind" where
  "kind_of sdk typ = (if typ = ds_removal_notice_type sdk then RemovalNotice else CommunityAnswer)"

fun max_age :: "operational_kind \<Rightarrow> duration" where
  "max_age RemovalNotice = days 30 + days 1"
| "max_age CommunityAnswer = days 1"

definition issued_at_skew :: duration where "issued_at_skew = minutes 5"
definition max_document_id_chars :: nat where "max_document_id_chars = 256"
definition max_seen_per_issuer :: nat where "max_seen_per_issuer = 1024"
definition max_seen_issuers :: nat where "max_seen_issuers = 256"

datatype operational_error =
    NotADocument
  | NoId
  | WrongType
  | IdTooLong
  | QuotaExceeded
  | IssuerNotSender
  | NoRecipient
  | WrongRecipient
  | NoIssuedAt
  | FromTheFuture
  | TooOld
  | HasExpired
  | Replayed
  | NoStanding
  | BadProof string
  | NotChecked
  | CheckUnfinished

section \<open>The replay set\<close>

type_synonym seen_ids = "(string \<times> instant) list"

record seen_documents =
  sd_entries :: "(string \<times> seen_ids) list"
  sd_revision :: "64 word"

definition no_documents :: seen_documents where
  "no_documents = \<lparr>sd_entries = [], sd_revision = 0\<rparr>"

definition until_of :: "seen_documents \<Rightarrow> string \<Rightarrow> string \<Rightarrow> instant option" where
  "until_of seen issuer i = Option.bind (map_of (sd_entries seen) issuer) (\<lambda>ids. map_of ids i)"

definition seen_contains :: "seen_documents \<Rightarrow> string \<Rightarrow> string \<Rightarrow> instant \<Rightarrow> bool" where
  "seen_contains seen issuer i now = (case until_of seen issuer i of None \<Rightarrow> False | Some until \<Rightarrow> now < until)"

definition entry_count :: "(string \<times> seen_ids) list \<Rightarrow> nat" where
  "entry_count es = sum_list (map (length \<circ> snd) es)"

definition live_ids :: "instant \<Rightarrow> seen_ids \<Rightarrow> seen_ids" where
  "live_ids now ids = filter (\<lambda>(_, until). now < until) ids"

definition seen_prune :: "instant \<Rightarrow> seen_documents \<Rightarrow> seen_documents" where
  "seen_prune now seen =
     (let before = entry_count (sd_entries seen);
          kept = filter (\<lambda>(_, ids). ids \<noteq> []) (map (\<lambda>(issuer, ids). (issuer, live_ids now ids)) (sd_entries seen))
      in seen\<lparr>sd_entries := kept,
              sd_revision := (if entry_count kept \<noteq> before then sd_revision seen + 1 else sd_revision seen)\<rparr>)"

definition seen_check :: "seen_documents \<Rightarrow> string \<Rightarrow> string \<Rightarrow> instant \<Rightarrow> operational_error + unit" where
  "seen_check seen issuer i now =
     (if seen_contains seen issuer i now then Inl Replayed
      else case map_of (sd_entries seen) issuer of
             Some ids \<Rightarrow> ensure (length (live_ids now ids) < max_seen_per_issuer) QuotaExceeded
           | None \<Rightarrow>
               ensure (length (filter (\<lambda>(_, ids). 0 < length (live_ids now ids)) (sd_entries seen)) < max_seen_issuers)
                 QuotaExceeded)"

text \<open>\<open>record\<close> prunes first, and what it pruned stays pruned when it then refuses.\<close>

definition seen_insert :: "string \<Rightarrow> string \<Rightarrow> instant \<Rightarrow> seen_documents \<Rightarrow> seen_documents" where
  "seen_insert issuer i until seen =
     (let ids = (case map_of (sd_entries seen) issuer of None \<Rightarrow> [] | Some ids \<Rightarrow> ids)
      in seen\<lparr>sd_entries := AList.update issuer (AList.update i until ids) (sd_entries seen),
              sd_revision := sd_revision seen + 1\<rparr>)"

definition seen_record ::
  "seen_documents \<Rightarrow> string \<Rightarrow> string \<Rightarrow> instant \<Rightarrow> instant \<Rightarrow> (operational_error + unit) \<times> seen_documents" where
  "seen_record seen issuer i until now =
     (let pruned = seen_prune now seen
      in case seen_check pruned issuer i now of
           Inl e \<Rightarrow> (Inl e, pruned)
         | Inr _ \<Rightarrow> (Inr (), seen_insert issuer i until pruned))"

section \<open>A document's envelope\<close>

record verified_operational =
  vo_issuer :: string
  vo_id :: string
  vo_recipient :: string
  vo_forget_after :: instant

definition vo_check :: "verified_operational \<Rightarrow> seen_documents \<Rightarrow> instant \<Rightarrow> operational_error + unit" where
  "vo_check v seen now = seen_check seen (vo_issuer v) (vo_id v) now"

definition vo_commit ::
  "verified_operational \<Rightarrow> seen_documents \<Rightarrow> instant \<Rightarrow> (operational_error + unit) \<times> seen_documents" where
  "vo_commit v seen now = seen_record seen (vo_issuer v) (vo_id v) (vo_forget_after v) now"

definition timestamp :: "document_sdk \<Rightarrow> json option \<Rightarrow> instant option" where
  "timestamp sdk v = Option.bind (Option.bind v jstr) (ds_parse_rfc3339 sdk)"

definition non_empty :: "string option \<Rightarrow> string option" where
  "non_empty s = (case s of None \<Rightarrow> None | Some t \<Rightarrow> if t = [] then None else Some t)"

definition check_expiry :: "document_sdk \<Rightarrow> json option \<Rightarrow> instant \<Rightarrow> operational_error + unit" where
  "check_expiry sdk v now =
     (case v of
        None \<Rightarrow> Inr ()
      | Some JNull \<Rightarrow> Inr ()
      | Some w \<Rightarrow> rbind (ok_or HasExpired (timestamp sdk (Some w))) (\<lambda>expires. ensure (now < expires) HasExpired))"

definition check_envelope ::
  "document_sdk \<Rightarrow> json \<Rightarrow> string \<Rightarrow> string list \<Rightarrow> string \<Rightarrow> seen_documents \<Rightarrow> instant
     \<Rightarrow> operational_error + verified_operational" where
  "check_envelope sdk doc sender ours typ seen now =
     (case doc of
        JObject ms \<Rightarrow>
          rbind (ensure (jget ''payload'' doc \<noteq> None) NotADocument) (\<lambda>_.
          rbind (ensure (jmember_str ''type'' (Some doc) = Some typ) WrongType) (\<lambda>_.
          rbind (ok_or NoId (non_empty (jmember_str ''id'' (Some doc)))) (\<lambda>i.
          rbind (ensure (char_count i \<le> max_document_id_chars) IdTooLong) (\<lambda>_.
          rbind (ensure (jmember_str ''issuer'' (Some doc) = Some sender) IssuerNotSender) (\<lambda>_.
          rbind (ok_or NoRecipient (non_empty (jmember_str ''recipient'' (Some doc)))) (\<lambda>recipient.
          rbind (ensure (recipient \<in> set ours) WrongRecipient) (\<lambda>_.
          rbind (ok_or NoIssuedAt (timestamp sdk (jget ''issuedAt'' doc))) (\<lambda>issued.
          rbind (ensure (issued \<le> now + issued_at_skew) FromTheFuture) (\<lambda>_.
          rbind (ensure (now \<le> issued + max_age (kind_of sdk typ)) TooOld) (\<lambda>_.
          rbind (check_expiry sdk (jget ''expiresAt'' doc) now) (\<lambda>_.
          rbind (ensure (\<not> seen_contains seen sender i now) Replayed) (\<lambda>_.
            Inr \<lparr>vo_issuer = sender, vo_id = i, vo_recipient = recipient,
                 vo_forget_after = issued + max_age (kind_of sdk typ) + issued_at_skew\<rparr>))))))))))))
      | _ \<Rightarrow> Inl NotADocument)"

definition verify_operational_with ::
  "document_sdk \<Rightarrow> json \<Rightarrow> string \<Rightarrow> string list \<Rightarrow> string \<Rightarrow> seen_documents \<Rightarrow> instant
     \<Rightarrow> operational_error + verified_operational" where
  "verify_operational_with sdk doc sender ours typ seen now =
     rbind (check_envelope sdk doc sender ours typ seen now) (\<lambda>v.
       case ds_proof_error sdk doc sender of None \<Rightarrow> Inr v | Some e \<Rightarrow> Inl (BadProof e))"

section \<open>Acting on documents\<close>

text \<open>
  A document is verified off the event loop, against no memory at all, at the time its check starts; when its result is
  handled, any time later, it is checked against the live set and committed before it is acted on.
\<close>

definition take_document ::
  "verified_operational \<Rightarrow> seen_documents \<Rightarrow> instant \<Rightarrow> (operational_error + unit) \<times> seen_documents" where
  "take_document v seen now = (case vo_check v seen now of Inl e \<Rightarrow> (Inl e, seen) | Inr _ \<Rightarrow> vo_commit v seen now)"

text \<open>A verified document: its sender, the document, when it was verified, and the result.\<close>

record verified_document =
  vf_sender :: string
  vf_doc :: json
  vf_at :: instant
  vf_result :: verified_operational

text \<open>\<open>dl_acted\<close> is the log of what was acted on and when, the last first.\<close>

record document_log =
  dl_seen :: seen_documents
  dl_clock :: instant
  dl_verified :: "verified_document list"
  dl_acted :: "(verified_document \<times> instant) list"

inductive document_step :: "document_sdk \<Rightarrow> string list \<Rightarrow> document_log \<Rightarrow> document_log \<Rightarrow> bool"
  for sdk :: document_sdk and ours :: "string list" where
  passes: "dl_clock s \<le> t \<Longrightarrow> document_step sdk ours s (s\<lparr>dl_clock := t\<rparr>)"
| verified: "verify_operational_with sdk doc sender ours typ no_documents (dl_clock s) = Inr v
    \<Longrightarrow> document_step sdk ours s (s\<lparr>dl_verified :=
          \<lparr>vf_sender = sender, vf_doc = doc, vf_at = dl_clock s, vf_result = v\<rparr> # dl_verified s\<rparr>)"
| taken: "f \<in> set (dl_verified s) \<Longrightarrow> take_document (vf_result f) (dl_seen s) (dl_clock s) = (Inr (), seen)
    \<Longrightarrow> document_step sdk ours s (s\<lparr>dl_seen := seen, dl_verified := remove1 f (dl_verified s),
          dl_acted := (f, dl_clock s) # dl_acted s\<rparr>)"
| refused: "f \<in> set (dl_verified s) \<Longrightarrow> take_document (vf_result f) (dl_seen s) (dl_clock s) = (Inl e, seen)
    \<Longrightarrow> document_step sdk ours s (s\<lparr>dl_seen := seen, dl_verified := remove1 f (dl_verified s)\<rparr>)"
| dropped: "document_step sdk ours s (s\<lparr>dl_verified := remove1 f (dl_verified s)\<rparr>)"

definition fresh_log :: "instant \<Rightarrow> document_log" where
  "fresh_log t = \<lparr>dl_seen = no_documents, dl_clock = t, dl_verified = [], dl_acted = []\<rparr>"

inductive_cases document_stepE: "document_step sdk ours s t"

section \<open>What pruning and recording keep\<close>

lemma map_of_kept:
  "distinct (map fst es) \<Longrightarrow>
     map_of (filter (\<lambda>(_, ids). ids \<noteq> []) (map (\<lambda>(k, ids). (k, live_ids now ids)) es)) k
       = (case map_of es k of None \<Rightarrow> None | Some ids \<Rightarrow> if live_ids now ids = [] then None else Some (live_ids now ids))"
proof (induction es)
  case (Cons e es)
  then show ?case
    by (cases e) (auto 4 4 simp: map_of_eq_None_iff split: option.splits dest: map_of_SomeD intro: rev_image_eqI)
qed simp

lemma map_of_live_ids:
  "distinct (map fst ids) \<Longrightarrow>
     map_of (live_ids now ids) i = (case map_of ids i of None \<Rightarrow> None | Some u \<Rightarrow> if now < u then Some u else None)"
proof (induction ids)
  case (Cons e ids)
  then show ?case
    by (cases e) (auto simp: live_ids_def map_of_eq_None_iff split: option.splits dest: map_of_SomeD)
qed (simp add: live_ids_def)

lemma distinct_live_ids: "distinct (map fst ids) \<Longrightarrow> distinct (map fst (live_ids now ids))"
  unfolding live_ids_def by (rule distinct_map_filter)

definition keys_distinct :: "seen_documents \<Rightarrow> bool" where
  "keys_distinct seen \<longleftrightarrow> distinct (map fst (sd_entries seen)) \<and>
     (\<forall>e \<in> set (sd_entries seen). distinct (map fst (snd e)))"

lemma keys_distinctD:
  "keys_distinct seen \<Longrightarrow> map_of (sd_entries seen) k = Some ids \<Longrightarrow> distinct (map fst ids)"
  unfolding keys_distinct_def using map_of_SomeD [of "sd_entries seen" k ids] by fastforce

lemma prune_keys: "keys_distinct seen \<Longrightarrow> keys_distinct (seen_prune now seen)"
  unfolding keys_distinct_def seen_prune_def Let_def
  by (auto simp: distinct_live_ids comp_def case_prod_unfold intro!: distinct_map_filter)

lemma prune_until:
  assumes "keys_distinct seen"
  shows "until_of (seen_prune now seen) k i
    = (case until_of seen k i of None \<Rightarrow> None | Some u \<Rightarrow> if now < u then Some u else None)"
proof (cases "map_of (sd_entries seen) k")
  case None
  with assms show ?thesis
    by (simp add: until_of_def seen_prune_def Let_def map_of_kept keys_distinct_def)
next
  case (Some ids)
  with keys_distinctD [OF assms Some] assms show ?thesis
    by (auto simp: until_of_def seen_prune_def Let_def map_of_kept keys_distinct_def
        map_of_live_ids [symmetric] split: option.splits)
qed

lemma insert_until:
  "until_of (seen_insert issuer i u seen) k j = (if k = issuer \<and> j = i then Some u else until_of seen k j)"
  by (auto simp: until_of_def seen_insert_def Let_def update_conv' split: option.splits)

lemma insert_keys:
  assumes "keys_distinct seen"
  shows "keys_distinct (seen_insert issuer i u seen)"
proof -
  let ?ids = "case map_of (sd_entries seen) issuer of None \<Rightarrow> [] | Some ids \<Rightarrow> ids"
  have ids: "distinct (map fst (AList.update i u ?ids))"
    using keys_distinctD [OF assms] by (cases "map_of (sd_entries seen) issuer") (auto simp: distinct_update)
  have "distinct (map fst (snd e))" if "e \<in> set (AList.update issuer (AList.update i u ?ids) (sd_entries seen))" for e
    using that set_alist_update [of issuer "AList.update i u ?ids" "sd_entries seen"] ids assms
    by (auto simp: keys_distinct_def)
  with assms show ?thesis
    by (simp add: keys_distinct_def seen_insert_def Let_def distinct_update)
qed

lemma record_keys: "keys_distinct seen \<Longrightarrow> keys_distinct (snd (seen_record seen issuer i u now))"
  by (auto simp: seen_record_def Let_def insert_keys prune_keys split: sum.split)

text \<open>What is still live is kept, whether the new document is recorded or refused.\<close>

lemma record_keeps:
  assumes "keys_distinct seen" "until_of seen k j = Some v" "now < v"
  shows "until_of (snd (seen_record seen issuer i u now)) k j = Some v"
proof -
  have pruned: "until_of (seen_prune now seen) k j = Some v"
    using assms by (simp add: prune_until)
  show ?thesis
  proof (cases "k = issuer \<and> j = i")
    case True
    with pruned assms(3) have "seen_contains (seen_prune now seen) issuer i now"
      by (simp add: seen_contains_def)
    with True pruned show ?thesis by (simp add: seen_record_def Let_def seen_check_def)
  next
    case False
    with pruned show ?thesis
      by (auto simp: seen_record_def Let_def insert_until split: sum.split)
  qed
qed

lemma record_ok:
  assumes "seen_record seen issuer i u now = (Inr (), seen')"
  shows "until_of seen' issuer i = Some u"
  using assms by (auto simp: seen_record_def Let_def insert_until split: sum.splits)

section \<open>No document twice\<close>

definition doc_id :: "json \<Rightarrow> string" where
  "doc_id doc = (case jmember_str ''id'' (Some doc) of None \<Rightarrow> [] | Some i \<Rightarrow> i)"

text \<open>The moment a document is too old, with the skew its issuer's clock is allowed.\<close>

definition too_old_at :: "document_sdk \<Rightarrow> json \<Rightarrow> instant option" where
  "too_old_at sdk doc = Option.bind (jmember_str ''type'' (Some doc)) (\<lambda>typ.
     map_option (\<lambda>issued. issued + max_age (kind_of sdk typ) + issued_at_skew) (timestamp sdk (jget ''issuedAt'' doc)))"

lemma check_envelopeD:
  assumes "check_envelope sdk doc sender ours typ seen now = Inr v"
  shows "vo_issuer v = sender" "vo_id v = doc_id doc" "too_old_at sdk doc = Some (vo_forget_after v)"
    "now + issued_at_skew \<le> vo_forget_after v" "\<not> seen_contains seen sender (doc_id doc) now"
proof -
  obtain ms where doc: "doc = JObject ms"
    using assms by (cases doc) (simp_all add: check_envelope_def)
  show "vo_issuer v = sender" "vo_id v = doc_id doc" "too_old_at sdk doc = Some (vo_forget_after v)"
    "now + issued_at_skew \<le> vo_forget_after v" "\<not> seen_contains seen sender (doc_id doc) now"
    using assms unfolding doc
    by (auto simp: check_envelope_def result_simps doc_id_def too_old_at_def non_empty_def split: option.splits if_splits)
qed

lemma verifiedD:
  assumes "verify_operational_with sdk doc sender ours typ seen now = Inr v"
  shows "vo_issuer v = sender" "vo_id v = doc_id doc" "too_old_at sdk doc = Some (vo_forget_after v)"
    "now + issued_at_skew \<le> vo_forget_after v"
proof -
  from assms have "check_envelope sdk doc sender ours typ seen now = Inr v"
    by (auto simp: verify_operational_with_def result_simps split: option.splits)
  from check_envelopeD [OF this] show "vo_issuer v = sender" "vo_id v = doc_id doc"
    "too_old_at sdk doc = Some (vo_forget_after v)" "now + issued_at_skew \<le> vo_forget_after v" by simp_all
qed

text \<open>What a verified document carries.\<close>

definition well_verified :: "document_sdk \<Rightarrow> verified_document \<Rightarrow> bool" where
  "well_verified sdk f \<longleftrightarrow>
     vo_issuer (vf_result f) = vf_sender f \<and> vo_id (vf_result f) = doc_id (vf_doc f) \<and>
     too_old_at sdk (vf_doc f) = Some (vo_forget_after (vf_result f)) \<and> vf_at f + issued_at_skew \<le> vo_forget_after (vf_result f)"

text \<open>Handled while its verification is fresh; and the same document of the same sender.\<close>

definition timely :: "verified_document \<times> instant \<Rightarrow> bool" where
  "timely e \<longleftrightarrow> snd e < vf_at (fst e) + issued_at_skew"

definition same_document :: "verified_document \<times> instant \<Rightarrow> verified_document \<times> instant \<Rightarrow> bool" where
  "same_document e e' \<longleftrightarrow> vf_sender (fst e) = vf_sender (fst e') \<and> vf_doc (fst e) = vf_doc (fst e')"

definition held_until :: "seen_documents \<Rightarrow> verified_document \<Rightarrow> instant option" where
  "held_until seen f = until_of seen (vf_sender f) (doc_id (vf_doc f))"

definition remembered :: "document_sdk \<Rightarrow> document_log \<Rightarrow> bool" where
  "remembered sdk s \<longleftrightarrow> keys_distinct (dl_seen s) \<and>
     (\<forall>f \<in> set (dl_verified s). well_verified sdk f) \<and>
     sorted_wrt (\<lambda>e e'. timely e \<longrightarrow> \<not> same_document e e') (dl_acted s) \<and>
     (\<forall>(f, t) \<in> set (dl_acted s). well_verified sdk f \<and>
        (dl_clock s < vo_forget_after (vf_result f) \<longrightarrow> held_until (dl_seen s) f = Some (vo_forget_after (vf_result f))))"

lemma take_document_snd:
  "snd (take_document v seen now) = seen \<or>
   snd (take_document v seen now) = snd (seen_record seen (vo_issuer v) (vo_id v) (vo_forget_after v) now)"
  by (auto simp: take_document_def vo_commit_def split: sum.split)

lemma take_documentD:
  assumes "take_document v seen now = (Inr (), seen')"
  shows "\<not> seen_contains seen (vo_issuer v) (vo_id v) now"
    "seen_record seen (vo_issuer v) (vo_id v) (vo_forget_after v) now = (Inr (), seen')"
  using assms by (auto simp: take_document_def vo_check_def vo_commit_def seen_check_def split: sum.splits if_splits option.splits)

text \<open>What was held stays held over a take, whether it is refused or not.\<close>

lemma take_keeps:
  assumes "keys_distinct seen"
  shows "keys_distinct (snd (take_document v seen now))"
    "until_of seen k i = Some u \<Longrightarrow> now < u \<Longrightarrow> until_of (snd (take_document v seen now)) k i = Some u"
  using take_document_snd [of v seen now] record_keys [OF assms] record_keeps [OF assms] assms by auto

lemma remembered_step:
  assumes "document_step sdk ours s t" and inv: "remembered sdk s"
  shows "remembered sdk t"
  using assms(1)
proof (cases rule: document_step.cases)
  case (passes t')
  then show ?thesis using inv by (force simp: remembered_def)
next
  case (verified doc sender ty v)
  then show ?thesis using inv verifiedD [OF verified(2)] by (simp add: remembered_def well_verified_def)
next
  case (taken f seen)
  note keep = take_keeps [where seen = "dl_seen s" and v = "vf_result f" and now = "dl_clock s", unfolded taken(3) snd_conv]
  note new = take_documentD [OF taken(3)]
  have f: "well_verified sdk f" using inv taken(2) by (simp add: remembered_def)
  have held: "held_until seen f = Some (vo_forget_after (vf_result f))"
    using record_ok [OF new(2)] f by (simp add: held_until_def well_verified_def)
  have "\<not> same_document (f, dl_clock s) (g, t')" if "timely (f, dl_clock s)" "(g, t') \<in> set (dl_acted s)" for g t'
  proof
    assume same: "same_document (f, dl_clock s) (g, t')"
    from that(2) inv have g: "well_verified sdk g"
      "dl_clock s < vo_forget_after (vf_result g) \<Longrightarrow> held_until (dl_seen s) g = Some (vo_forget_after (vf_result g))"
      by (auto simp: remembered_def)
    from same f g(1) have u: "vo_forget_after (vf_result g) = vo_forget_after (vf_result f)"
      by (simp add: same_document_def well_verified_def)
    from that(1) f have late: "dl_clock s < vo_forget_after (vf_result f)" by (simp add: timely_def well_verified_def)
    with g(2) u same have "held_until (dl_seen s) f = Some (vo_forget_after (vf_result f))"
      by (simp add: same_document_def held_until_def)
    with late new(1) f show False by (simp add: held_until_def well_verified_def seen_contains_def)
  qed
  moreover have "held_until seen g = Some (vo_forget_after (vf_result g))"
    if "(g, t') \<in> set (dl_acted s)" "dl_clock s < vo_forget_after (vf_result g)" for g t'
    using that inv keep(2) by (fastforce simp: remembered_def held_until_def)
  ultimately show ?thesis
    using taken(1) inv keep(1) held f by (auto simp: remembered_def dest: set_mp [OF set_remove1_subset])
next
  case (refused f e seen)
  note keep = take_keeps [where seen = "dl_seen s" and v = "vf_result f" and now = "dl_clock s", unfolded refused(3) snd_conv]
  show ?thesis using refused(1) inv keep
    by (fastforce simp: remembered_def held_until_def dest: set_mp [OF set_remove1_subset])
next
  case (dropped f)
  then show ?thesis using inv by (auto simp: remembered_def dest: set_mp [OF set_remove1_subset])
qed

interpretation memory: preserved "document_step sdk ours" "remembered sdk" for sdk ours
  by unfold_locales (rule remembered_step)

lemma remembered_fresh: "remembered sdk (fresh_log t)"
  by (simp add: remembered_def fresh_log_def no_documents_def keys_distinct_def)

lemma held_refused:
  assumes "keys_distinct seen" "until_of seen (vo_issuer v) (vo_id v) = Some u" "now < u"
  shows "vo_check v seen now = Inl Replayed" "fst (vo_commit v seen now) = Inl Replayed"
proof -
  have "until_of (seen_prune now seen) (vo_issuer v) (vo_id v) = Some u" using assms by (simp add: prune_until)
  with assms show "vo_check v seen now = Inl Replayed" "fst (vo_commit v seen now) = Inl Replayed"
    by (simp_all add: vo_check_def vo_commit_def seen_record_def seen_check_def seen_contains_def Let_def)
qed

section \<open>Bounds\<close>

definition within_bounds :: "seen_documents \<Rightarrow> bool" where
  "within_bounds seen \<longleftrightarrow> length (sd_entries seen) \<le> max_seen_issuers \<and>
     (\<forall>e \<in> set (sd_entries seen). length (snd e) \<le> max_seen_per_issuer)"

lemma prune_bounds: "within_bounds seen \<Longrightarrow> within_bounds (seen_prune now seen)"
proof -
  assume b: "within_bounds seen"
  let ?es = "map (\<lambda>(issuer, ids). (issuer, live_ids now ids)) (sd_entries seen)"
  have "length (filter (\<lambda>(_, ids). ids \<noteq> []) ?es) \<le> max_seen_issuers"
    by (rule order_trans [OF length_filter_le]) (use b in \<open>simp add: within_bounds_def\<close>)
  moreover have "length (snd e) \<le> max_seen_per_issuer" if e: "e \<in> set ?es" for e
  proof -
    from e obtain d where d: "d \<in> set (sd_entries seen)" "snd e = live_ids now (snd d)" by auto
    have "length (live_ids now (snd d)) \<le> length (snd d)" by (simp add: live_ids_def)
    with b d show ?thesis by (auto simp: within_bounds_def intro: order_trans)
  qed
  ultimately show ?thesis
    by (simp add: within_bounds_def seen_prune_def Let_def del: filter_map)
qed

lemma prune_all_live:
  "e \<in> set (sd_entries (seen_prune now seen)) \<Longrightarrow> live_ids now (snd e) = snd e \<and> snd e \<noteq> []"
  by (auto simp: seen_prune_def Let_def live_ids_def)

lemma record_bounds:
  assumes b: "within_bounds seen"
  shows "within_bounds (snd (seen_record seen issuer i u now))"
proof (cases "seen_check (seen_prune now seen) issuer i now")
  case (Inl e)
  with prune_bounds [OF b] show ?thesis by (simp add: seen_record_def Let_def)
next
  case (Inr ok)
  let ?es = "sd_entries (seen_prune now seen)"
  let ?ids = "case map_of ?es issuer of None \<Rightarrow> [] | Some ids \<Rightarrow> ids"
  have live: "filter (\<lambda>(_, ids). 0 < length (live_ids now ids)) ?es = ?es"
    by (rule filter_True) (use prune_all_live [of _ now seen] in fastforce)
  have room: "length ?ids < max_seen_per_issuer" "issuer \<notin> fst ` set ?es \<Longrightarrow> length ?es < max_seen_issuers"
  proof -
    show "length ?ids < max_seen_per_issuer"
    proof (cases "map_of ?es issuer")
      case (Some ids)
      with prune_all_live [OF map_of_SomeD [OF Some]] Inr show ?thesis
        by (auto simp: seen_check_def split: if_splits)
    qed (simp add: max_seen_per_issuer_def)
    assume "issuer \<notin> fst ` set ?es"
    then have "map_of ?es issuer = None" by (simp add: map_of_eq_None_iff)
    with Inr live show "length ?es < max_seen_issuers"
      by (auto simp: seen_check_def split: if_splits)
  qed
  from room(1) have ids: "length (AList.update i u ?ids) \<le> max_seen_per_issuer"
    by (simp add: length_alist_update)
  have es: "length (AList.update issuer v ?es) \<le> max_seen_issuers" for v
    using room(2) prune_bounds [OF b, of now] by (auto simp: length_alist_update within_bounds_def Suc_le_eq)
  have "within_bounds (seen_insert issuer i u (seen_prune now seen))"
    using ids es prune_bounds [OF b, of now] set_alist_update [of issuer "AList.update i u ?ids" ?es]
    by (auto simp: within_bounds_def seen_insert_def Let_def)
  with Inr show ?thesis by (simp add: seen_record_def Let_def)
qed

interpretation bounded_memory: preserved "document_step sdk ours" "\<lambda>s. within_bounds (dl_seen s)" for sdk ours
proof unfold_locales
  fix s t
  assume step: "document_step sdk ours s t" and b: "within_bounds (dl_seen s)"
  have kept: "within_bounds seen" if "take_document v (dl_seen s) (dl_clock s) = (r, seen)" for v r seen
    using take_document_snd [of v "dl_seen s" "dl_clock s"] that record_bounds [OF b] b by auto
  from step show "within_bounds (dl_seen t)"
    by (cases rule: document_step.cases) (use b kept in auto)
qed

section \<open>Example\<close>

text \<open>A community's answer, and the same document again: acted on once, then refused.\<close>

definition example_sdk :: document_sdk where
  "example_sdk = \<lparr>ds_removal_notice_type = ''removal'', ds_parse_rfc3339 = (\<lambda>s. if s = ''noon'' then Some 0 else None),
     ds_proof_error = (\<lambda>doc sender. if jget ''proof'' doc = None then Some ''unsigned'' else None)\<rparr>"

definition example_doc :: json where
  "example_doc = JObject [(''id'', JString ''d1''), (''type'', JString ''removal''), (''issuer'', JString ''c''),
     (''recipient'', JString ''me''), (''issuedAt'', JString ''noon''), (''proof'', JString ''p''), (''payload'', JNull)]"

definition example_seen :: seen_documents where
  "example_seen = \<lparr>sd_entries = [(''c'', [(''d1'', days 31 + minutes 5)])], sd_revision = 1\<rparr>"

definition example_verified :: verified_operational where
  "example_verified = \<lparr>vo_issuer = ''c'', vo_id = ''d1'', vo_recipient = ''me'', vo_forget_after = days 31 + minutes 5\<rparr>"

definition example_fact :: verified_document where
  "example_fact = \<lparr>vf_sender = ''c'', vf_doc = example_doc, vf_at = days 30, vf_result = example_verified\<rparr>"

lemma example_accepted:
  "verify_operational_with example_sdk example_doc ''c'' [''me''] ''removal'' no_documents (days 30) = Inr example_verified"
  "take_document example_verified no_documents (days 30) = (Inr (), example_seen)"
  by code_simp+

text \<open>Two copies of it arrive and are verified before either is handled; the first is acted on.\<close>

definition example_after :: document_log where
  "example_after = \<lparr>dl_seen = example_seen, dl_clock = days 30, dl_verified = [example_fact], dl_acted = [(example_fact, days 30)]\<rparr>"

lemma example_acted: "(document_step example_sdk [''me''])\<^sup>*\<^sup>* (fresh_log (days 30)) example_after"
proof -
  let ?s = "\<lambda>fs. (fresh_log (days 30))\<lparr>dl_verified := fs\<rparr>"
  have "document_step example_sdk [''me''] (fresh_log (days 30)) (?s [example_fact])"
    using verified [of example_sdk example_doc "''c''" "[''me'']" "''removal''" "fresh_log (days 30)" example_verified] example_accepted(1)
    by (simp add: fresh_log_def example_fact_def)
  moreover have "document_step example_sdk [''me''] (?s [example_fact]) (?s [example_fact, example_fact])"
    using verified [of example_sdk example_doc "''c''" "[''me'']" "''removal''" "?s [example_fact]" example_verified] example_accepted(1)
    by (simp add: fresh_log_def example_fact_def)
  moreover have "document_step example_sdk [''me''] (?s [example_fact, example_fact]) example_after"
    using taken [of example_fact "?s [example_fact, example_fact]" example_seen] example_accepted(2)
    by (simp add: fresh_log_def example_after_def example_fact_def)
  ultimately show ?thesis by (meson converse_rtranclp_into_rtranclp r_into_rtranclp)
qed

section \<open>Properties\<close>

text \<open>(C13) 
  A community's document handled within five minutes of its verification is acted on only if it never was before, over
  every run in which documents arrive in any order, are verified at one time and handled at a later one, each copy by
  itself. While an id acted on is held, the check before acting and the record made of it both refuse it; and it is
  forgotten only once its document would no longer be verified, being too old.
\<close>

theorem acted_on_once:
  assumes "(document_step sdk ours)\<^sup>*\<^sup>* (fresh_log t) s"
  shows "sorted_wrt (\<lambda>e e'. timely e \<longrightarrow> \<not> same_document e e') (dl_acted s) \<and>
    (\<forall>(f, at) \<in> set (dl_acted s).
       (dl_clock s < vo_forget_after (vf_result f) \<longrightarrow>
          (\<forall>v. vo_issuer v = vf_sender f \<and> vo_id v = doc_id (vf_doc f) \<longrightarrow>
             vo_check v (dl_seen s) (dl_clock s) = Inl Replayed \<and> fst (vo_commit v (dl_seen s) (dl_clock s)) = Inl Replayed)) \<and>
       (\<forall>typ v. verify_operational_with sdk (vf_doc f) (vf_sender f) ours typ no_documents (dl_clock s) = Inr v \<longrightarrow>
          dl_clock s < vo_forget_after (vf_result f)))"
proof -
  from memory.inv_steps [OF assms remembered_fresh] have inv: "remembered sdk s" .
  have "vo_check v (dl_seen s) (dl_clock s) = Inl Replayed \<and> fst (vo_commit v (dl_seen s) (dl_clock s)) = Inl Replayed"
    if "(f, at) \<in> set (dl_acted s)" "dl_clock s < vo_forget_after (vf_result f)" "vo_issuer v = vf_sender f" "vo_id v = doc_id (vf_doc f)"
    for f at v
    using that inv held_refused [of "dl_seen s" v] by (fastforce simp: remembered_def held_until_def)
  moreover have "dl_clock s < vo_forget_after (vf_result f)"
    if "(f, at) \<in> set (dl_acted s)" "verify_operational_with sdk (vf_doc f) (vf_sender f) ours ty no_documents (dl_clock s) = Inr v"
    for f at ty v
    using that(1) inv verifiedD [OF that(2)] by (fastforce simp: remembered_def well_verified_def issued_at_skew_def)
  ultimately show ?thesis using inv unfolding remembered_def by blast
qed

text \<open>The second copy of the example is refused.\<close>

theorem acted_on_once_witness:
  "fst (take_document example_verified (dl_seen example_after) (dl_clock example_after)) = Inl Replayed"
proof -
  have "(example_fact, days 30) \<in> set (dl_acted example_after)" "dl_clock example_after < vo_forget_after (vf_result example_fact)"
    "vo_issuer example_verified = vf_sender example_fact" "vo_id example_verified = doc_id (vf_doc example_fact)"
    by code_simp+
  with acted_on_once [OF example_acted] have "vo_check example_verified (dl_seen example_after) (dl_clock example_after) = Inl Replayed"
    by blast
  then show ?thesis by (simp add: take_document_def)
qed

text \<open>
  The replay set keeps its bounds along every run, and makes room by refusing, never by forgetting: an id
  still inside its window is there after any further document, recorded or refused.
\<close>

theorem replay_set_bounded:
  assumes "(document_step sdk ours)\<^sup>*\<^sup>* (fresh_log t) s"
  shows "length (sd_entries (dl_seen s)) \<le> 256 \<and>
    (\<forall>e \<in> set (sd_entries (dl_seen s)). length (snd e) \<le> 1024) \<and>
    (\<forall>k i until. until_of (dl_seen s) k i = Some until \<and> dl_clock s < until \<longrightarrow>
       until_of (snd (take_document v (dl_seen s) (dl_clock s))) k i = Some until)"
proof (intro conjI allI impI ballI)
  have "within_bounds (dl_seen (fresh_log t))"
    by (simp add: within_bounds_def fresh_log_def no_documents_def max_seen_issuers_def)
  from bounded_memory.inv_steps [OF assms this] have b: "within_bounds (dl_seen s)" .
  then show "length (sd_entries (dl_seen s)) \<le> 256"
    by (simp add: within_bounds_def max_seen_issuers_def)
  from b show "length (snd e) \<le> 1024" if "e \<in> set (sd_entries (dl_seen s))" for e
    using that by (simp add: within_bounds_def max_seen_per_issuer_def)
  from memory.inv_steps [OF assms remembered_fresh] have keys: "keys_distinct (dl_seen s)"
    by (simp add: remembered_def)
  fix k i until
  assume "until_of (dl_seen s) k i = Some until \<and> dl_clock s < until"
  then show "until_of (snd (take_document v (dl_seen s) (dl_clock s))) k i = Some until"
    using take_keeps(2) [OF keys] by blast
qed

theorem replay_set_bounded_witness:
  "length (sd_entries example_seen) \<le> 256 \<and>
   until_of (snd (take_document example_verified example_seen (days 30))) ''c'' ''d1'' = Some (days 31 + minutes 5)"
proof -
  have "until_of example_seen ''c'' ''d1'' = Some (days 31 + minutes 5)" by code_simp
  with replay_set_bounded [OF example_acted, of example_verified] show ?thesis by (simp add: example_after_def)
qed

end
