(* ===== verification/Messaging.thy ===== *)
theory Messaging
  imports Credentials Operational
begin

text \<open>
  The handlers of inbound messages (\<open>messaging.rs\<close>): the freshness and replay gates, the replies of a community to a
  join (receipt, status, verdict, error), the removal notice, the community's profile, an issued credential, and the
  gates an inbound relationship credential passes.

  A handler maps the account to the account afterwards and an outcome; the moment it reads the clock is an argument.
  A handler that finds its record by a \<open>&mut\<close> lookup computes from that record what becomes of it. What the wire types
  parse to, the error codes of the protocol and the parsing of UUIDs are the fields of \<open>join_sdk\<close>.
\<close>

section \<open>Freshness and replay\<close>

definition max_message_age_secs :: "64 word" where "max_message_age_secs = 48 * 60 * 60"
definition max_future_skew_secs :: "64 word" where "max_future_skew_secs = 5 * 60"
definition max_tasks :: nat where "max_tasks = 10000"
definition message_expiry_secs :: "64 word" where "message_expiry_secs = 60 * 60 * 48"

definition build_didcomm_message ::
  "string \<Rightarrow> 64 word \<Rightarrow> string \<Rightarrow> json \<Rightarrow> string \<Rightarrow> string \<Rightarrow> string option \<Rightarrow> didcomm_message" where
  "build_didcomm_message fresh now ty body sender recipient thid =
     \<lparr>dm_id = fresh, dm_type = ty, dm_from = Some sender, dm_to = Some [recipient], dm_thid = thid, dm_body = body,
      dm_created = Some now, dm_expires = Some (now + message_expiry_secs)\<rparr>"

text \<open>The ids seen, oldest first, and the same ids as a set: at its capacity it forgets the oldest.\<close>

record seen_messages =
  sm_cap :: nat
  sm_order :: "string list"
  sm_set :: "string set"

definition seen_with_capacity :: "nat \<Rightarrow> seen_messages" where
  "seen_with_capacity cap = \<lparr>sm_cap = cap, sm_order = [], sm_set = {}\<rparr>"

definition seen_new :: seen_messages where
  "seen_new = seen_with_capacity 1024"

definition evict_oldest :: "seen_messages \<Rightarrow> seen_messages" where
  "evict_oldest s =
     (if length (sm_order s) = sm_cap s then
        (case sm_order s of
           [] \<Rightarrow> s
         | evicted # rest \<Rightarrow> s\<lparr>sm_order := rest, sm_set := sm_set s - {evicted}\<rparr>)
      else s)"

definition observe :: "string \<Rightarrow> seen_messages \<Rightarrow> bool \<times> seen_messages" where
  "observe i s =
     (if i \<in> sm_set s then (True, s)
      else let t = evict_oldest s
           in (False, t\<lparr>sm_order := sm_order t @ [i], sm_set := insert i (sm_set t)\<rparr>))"

text \<open>\<open>u64::saturating_add\<close> and \<open>saturating_sub\<close>.\<close>

definition sat_add :: "64 word \<Rightarrow> 64 word \<Rightarrow> 64 word" where
  "sat_add a b = (if unat a + unat b < 2 ^ 64 then a + b else - 1)"

definition sat_sub :: "64 word \<Rightarrow> 64 word \<Rightarrow> 64 word" where
  "sat_sub a b = (if b \<le> a then a - b else 0)"

datatype age_error = TooFarInFuture | OlderThanReplayWindow | AlreadyExpired

definition check_message_age :: "64 word \<Rightarrow> didcomm_message \<Rightarrow> age_error + unit" where
  "check_message_age now m =
     rbind (case dm_created m of
              None \<Rightarrow> Inr ()
            | Some created \<Rightarrow>
                if sat_add now max_future_skew_secs < created then Inl TooFarInFuture
                else if max_message_age_secs < sat_sub now created then Inl OlderThanReplayWindow
                else Inr ()) (\<lambda>_.
       case dm_expires m of
         None \<Rightarrow> Inr ()
       | Some expires \<Rightarrow> ensure (\<not> expires < now) AlreadyExpired)"

definition check_task_capacity :: "tasks \<Rightarrow> string \<Rightarrow> bool" where
  "check_task_capacity ts i \<longleftrightarrow> get_by_id ts i = None \<and> length ts < max_tasks"

section \<open>The wire types\<close>

datatype credential_resend = ResendQueued | ResendRateLimited | ResendNotNeeded

record join_status_body =
  jb_request_id :: uuid
  jb_status :: string
  jb_code :: "string option"
  jb_reason :: "string option"
  jb_decided_at :: "instant option"
  jb_credentials_delivered :: "bool option"
  jb_credential_resend :: "credential_resend option"
  jb_retry_after :: "instant option"

datatype verdict_effect = Allow | Deny | Refer | RequestMore

record verdict_response =
  vd_request_id :: uuid
  vd_effect :: verdict_effect
  vd_code :: "string option"
  vd_reason :: "string option"
  vd_needs :: "string list"

datatype removal_code = AdminRemoved | Purged | OtherRemoval

record removal_body =
  rm_did :: string
  rm_code :: removal_code
  rm_reason :: "string option"
  rm_decided_by :: string
  rm_decided_at :: string
  rm_disposition :: string

record join_sdk =
  jk_uuid :: "string \<Rightarrow> uuid option"
  jk_receipt :: "json \<Rightarrow> uuid option"
  jk_status :: "json \<Rightarrow> join_status_body option"
  jk_verdict :: "json \<Rightarrow> verdict_response option"
  jk_removal :: "json \<Rightarrow> removal_body option"
  jk_problem :: "json \<Rightarrow> string \<times> string"
  jk_rfc3339 :: "string \<Rightarrow> instant option"
  jk_challenge_expired :: string
  jk_challenge_already_used :: string
  jk_challenge_not_issued :: string
  jk_challenge_mismatch :: string
  jk_not_accepting :: string
  jk_criterion_unknown :: string

record status_outcome =
  so_changed :: bool
  so_inactivated :: "persona_id option"

definition status_none :: status_outcome where
  "status_none = \<lparr>so_changed = False, so_inactivated = None\<rparr>"

definition trust_task_reply_payload :: "json \<Rightarrow> json" where
  "trust_task_reply_payload body = (case jget ''payload'' body of Some p \<Rightarrow> p | None \<Rightarrow> body)"

text \<open>
  A handler's last step: the record the lookup \<open>p\<close> finds at the community is replaced by what the effect makes of it,
  and its outcome is the handler's.
\<close>

definition settle ::
  "vtc_did \<Rightarrow> (community_record \<Rightarrow> bool) \<Rightarrow> (community_record \<Rightarrow> status_outcome \<times> community_record) \<Rightarrow> account
     \<Rightarrow> status_outcome \<times> account" where
  "settle vtc p effect a =
     (case List.find p (memberships_for a vtc) of
        None \<Rightarrow> (status_none, a)
      | Some c \<Rightarrow> (fst (effect c), on_membership vtc p (\<lambda>c. snd (effect c)) a))"

section \<open>Replies to a join\<close>

definition receipt_effect :: "uuid \<Rightarrow> instant \<Rightarrow> community_record \<Rightarrow> community_record" where
  "receipt_effect request now c = snd (mark_acknowledged now (snd (confirm_request_id request c)))"

definition handle_join_submit_receipt ::
  "join_sdk \<Rightarrow> didcomm_message \<Rightarrow> vtc_did \<Rightarrow> instant \<Rightarrow> account \<Rightarrow> bool \<times> account" where
  "handle_join_submit_receipt sdk m sender now a =
     (case Option.bind (dm_thid m) (jk_uuid sdk) of
        None \<Rightarrow> (False, a)
      | Some placeholder \<Rightarrow>
          (case jk_receipt sdk (trust_task_reply_payload (dm_body m)) of
             None \<Rightarrow> (False, a)
           | Some request \<Rightarrow>
               if membership_by_pending_request a sender placeholder = None then (False, a)
               else (True, on_membership sender (holds_request placeholder) (receipt_effect request now) a)))"

definition resend_answer_of ::
  "join_status_body \<Rightarrow> instant \<Rightarrow> credential_delivery option \<Rightarrow> resend_answer option" where
  "resend_answer_of body now previous =
     (case jb_credential_resend body of
        Some ResendQueued \<Rightarrow> Some (Queued now)
      | Some ResendRateLimited \<Rightarrow> Some (RateLimited (jb_retry_after body))
      | Some ResendNotNeeded \<Rightarrow> Some NotNeeded
      | None \<Rightarrow> Option.bind previous cd_last_answer)"

definition record_credential_delivery ::
  "join_status_body \<Rightarrow> instant \<Rightarrow> community_record \<Rightarrow> bool \<times> community_record" where
  "record_credential_delivery body now c =
     (case jb_credentials_delivered body of
        None \<Rightarrow> (False, c)
      | Some delivered \<Rightarrow>
          let next_delivery = \<lparr>cd_delivered = delivered,
                cd_last_answer = resend_answer_of body now (cr_credential_delivery c)\<rparr>
          in if cr_credential_delivery c = Some next_delivery then (False, c)
             else (True, c\<lparr>cr_credential_delivery := Some next_delivery\<rparr>))"

text \<open>What a status reply does to the record, its id already adopted.\<close>

definition status_effect ::
  "join_status_body \<Rightarrow> instant \<Rightarrow> community_record \<Rightarrow> status_outcome \<times> community_record" where
  "status_effect body now c =
     (if jb_status body = ''approved'' then
        (let (acknowledged, c1) = mark_acknowledged now c;
             (approved, c2) = mark_approved now c1;
             (delivery, c3) = record_credential_delivery body now c2
         in (\<lparr>so_changed = acknowledged \<or> approved \<or> delivery, so_inactivated = None\<rparr>, c3))
      else if jb_status body = ''rejected'' then
        (\<lparr>so_changed = True, so_inactivated = Some (cr_persona_ref c)\<rparr>,
         reject \<lparr>de_code = jb_code body, de_reason = jb_reason body, de_decided_by = None,
                 de_decided_at = jb_decided_at body, de_disposition = None\<rparr> c)
      else if jb_status body = ''withdrawn'' then
        (let (changed, c1) = withdraw c
         in (\<lparr>so_changed = changed, so_inactivated = (if changed then Some (cr_persona_ref c) else None)\<rparr>, c1))
      else if jb_status body = ''deferred'' \<or> jb_status body = ''pending'' then
        (let (changed, c1) = mark_acknowledged now c in (\<lparr>so_changed = changed, so_inactivated = None\<rparr>, c1))
      else (status_none, c))"

definition adopt_and_apply ::
  "join_status_body \<Rightarrow> instant \<Rightarrow> community_record \<Rightarrow> status_outcome \<times> community_record" where
  "adopt_and_apply body now c =
     (let (adopted, c1) = confirm_request_id (jb_request_id body) c;
          (outcome, c2) = status_effect body now c1
      in (outcome\<lparr>so_changed := so_changed outcome \<or> adopted\<rparr>, c2))"

definition handle_join_status_response ::
  "join_sdk \<Rightarrow> didcomm_message \<Rightarrow> vtc_did \<Rightarrow> instant \<Rightarrow> account \<Rightarrow> status_outcome \<times> account" where
  "handle_join_status_response sdk m sender now a =
     (case jk_status sdk (trust_task_reply_payload (dm_body m)) of
        None \<Rightarrow> (status_none, a)
      | Some body \<Rightarrow>
          if membership_by_pending_request a sender (jb_request_id body) \<noteq> None then
            settle sender (holds_request (jb_request_id body)) (adopt_and_apply body now) a
          else
            (case awaiting_persona a sender (case dm_to m of None \<Rightarrow> [] | Some tos \<Rightarrow> tos) of
               None \<Rightarrow> (status_none, a)
             | Some p \<Rightarrow> settle sender (\<lambda>c. cr_persona_ref c = p) (adopt_and_apply body now) a))"

definition verdict_effect_on ::
  "verdict_response \<Rightarrow> instant \<Rightarrow> community_record \<Rightarrow> status_outcome \<times> community_record" where
  "verdict_effect_on body now c =
     (let (adopted, c1) = confirm_request_id (vd_request_id body) c;
          (acknowledged, c2) = mark_acknowledged now c1
      in case vd_effect body of
           Deny \<Rightarrow>
             (\<lparr>so_changed = True, so_inactivated = Some (cr_persona_ref c)\<rparr>,
              reject \<lparr>de_code = vd_code body, de_reason = vd_reason body, de_decided_by = None,
                      de_decided_at = None, de_disposition = None\<rparr> c2)
         | _ \<Rightarrow> (\<lparr>so_changed = adopted \<or> acknowledged, so_inactivated = None\<rparr>, c2))"

definition handle_join_verdict ::
  "join_sdk \<Rightarrow> didcomm_message \<Rightarrow> vtc_did \<Rightarrow> instant \<Rightarrow> account \<Rightarrow> status_outcome \<times> account" where
  "handle_join_verdict sdk m sender now a =
     (case Option.bind (dm_thid m) (jk_uuid sdk) of
        None \<Rightarrow> (status_none, a)
      | Some placeholder \<Rightarrow>
          (case jk_verdict sdk (trust_task_reply_payload (dm_body m)) of
             None \<Rightarrow> (status_none, a)
           | Some body \<Rightarrow> settle sender (holds_request placeholder) (verdict_effect_on body now) a))"

definition join_verdict_needs :: "join_sdk \<Rightarrow> didcomm_message \<Rightarrow> string list option" where
  "join_verdict_needs sdk m =
     (case jk_verdict sdk (trust_task_reply_payload (dm_body m)) of
        None \<Rightarrow> None
      | Some body \<Rightarrow> if vd_effect body = RequestMore then Some (vd_needs body) else None)"

section \<open>What a join still needs, in words\<close>

definition em_dash :: string where
  "em_dash = [CHR 0xE2, CHR 0x80, CHR 0x94]"

fun str_join :: "string \<Rightarrow> string list \<Rightarrow> string" where
  "str_join sep [] = []"
| "str_join sep [s] = s"
| "str_join sep (s # t # ts) = s @ sep @ str_join sep (t # ts)"

definition describe_hidden_reason :: "string \<Rightarrow> string" where
  "describe_hidden_reason code =
     (if code = ''requirements-digest-mismatch'' then
        ''a vetter's attestation was made under an earlier version of the community's criterion (its hidden-vetting parameters changed since) '' @ em_dash @ '' ask the vetter to attest again''
      else if code = ''token-label-not-live'' then
        ''a vetter's attestation spends a token under a label the community no longer accepts '' @ em_dash @ '' ask the vetter to attest again''
      else if code = ''no-token'' then
        ''a vetter's attestation carries a token the community did not issue''
      else if code = ''token-mismatch'' then
        ''a vetter's attestation does not match the token it spends''
      else if code = ''token-double-spend'' then
        ''a vetter's attestation spends a token already spent''
      else if code = ''expired'' then
        ''a vetter's attestation has expired '' @ em_dash @ '' ask the vetter to attest again''
      else if code = ''no-proof'' then
        ''no proof arrived with the request '' @ em_dash @ '' join again''
      else if code = ''unsupported'' then
        ''the community cannot verify PCS ZKP proofs''
      else if code = ''issuer-not-vetter'' then
        ''a vetter's attestation is not from an eligible vetter''
      else if code = ''revoked'' then
        ''a vetter withdrew their attestation''
      else if code = ''wrong-community'' then
        ''a vetter's attestation is for another community''
      else if code = ''method-not-accepted'' then
        ''a vetter used a vetting method this criterion does not accept''
      else if code = ''claim-not-verified'' then
        ''a vetter did not verify a claim this criterion asks for''
      else if code = ''too-old'' then
        ''a vetter's attestation is older than this criterion accepts''
      else if code = ''same-vetter'' then
        ''two attestations are from the same vetter''
      else code)"

definition hidden_need_prefix :: string where
  "hidden_need_prefix = ''vetting:hidden:''"

definition statements_prefix :: string where
  "statements_prefix = ''vetting:statements:''"

definition need_words :: "string \<Rightarrow> string" where
  "need_words need =
     (if need = ''credentials'' then ''a credential it recognises''
      else if need = ''invitation'' then ''an invitation''
      else if need = ''vetting:consistency'' then ''vetting statements that agree on who you are''
      else if need = ''vetting:independence'' then
        ''vetting statements from vetters independent of you and of each other''
      else case strip_prefix ''vetting:'' need of
             Some what \<Rightarrow> ''more vetting ('' @ what @ '')''
           | None \<Rightarrow> need)"

definition starts_with :: "string \<Rightarrow> string \<Rightarrow> bool" where
  "starts_with p s \<longleftrightarrow> strip_prefix p s \<noteq> None"

definition describe_join_needs :: "string list \<Rightarrow> bool \<Rightarrow> string" where
  "describe_join_needs needs hidden_criterion =
     (if needs = [] then ''it needs more evidence, but did not say what''
      else
        let hidden_reasons = map describe_hidden_reason (List.map_filter (strip_prefix hidden_need_prefix) needs);
            hidden = (hidden_criterion \<or> hidden_reasons \<noteq> []);
            shortfalls = List.map_filter (strip_prefix statements_prefix) needs;
            proof_shortfall = (if hidden \<and> shortfalls \<noteq> [] then Some (hd shortfalls) else None);
            words = map need_words (filter (\<lambda>n. \<not> starts_with hidden_need_prefix n \<and>
                      \<not> (hidden \<and> starts_with statements_prefix n)) needs);
            reason = (if hidden_reasons = [] then ''it gave no reason'' else str_join ''; '' hidden_reasons);
            count = (case proof_shortfall of
                       None \<Rightarrow> []
                     | Some n \<Rightarrow> if n = ''1'' then '' (it still needs 1 more vetter)''
                                 else '' (it still needs '' @ n @ '' more vetters)'');
            about_proof = (if hidden \<and> (proof_shortfall \<noteq> None \<or> hidden_reasons \<noteq> [])
                           then [''the community did not count your PCS ZKP proof'' @ count @ '': '' @ reason] else []);
            about_rest = (if words = [] then [] else [''it still needs '' @ str_join '', '' words])
        in str_join ''; and '' (about_proof @ about_rest))"

section \<open>Problem reports and errors\<close>

record problem_report_note =
  pn_code :: string
  pn_comment :: string
  pn_on_pending_join :: bool

definition read_problem_report ::
  "join_sdk \<Rightarrow> account \<Rightarrow> didcomm_message \<Rightarrow> vtc_did \<Rightarrow> problem_report_note option" where
  "read_problem_report sdk a m sender =
     (if memberships_for a sender = [] then None
      else Some \<lparr>pn_code = fst (jk_problem sdk (dm_body m)), pn_comment = snd (jk_problem sdk (dm_body m)),
                 pn_on_pending_join =
                   (case Option.bind (dm_thid m) (jk_uuid sdk) of
                      None \<Rightarrow> False
                    | Some i \<Rightarrow> list_ex (holds_request i) (memberships_for a sender))\<rparr>)"

definition trust_task_error_type_prefix :: string where
  "trust_task_error_type_prefix = ''https://trusttasks.org/spec/trust-task-error/''"

definition is_trust_task_error_type :: "string \<Rightarrow> bool" where
  "is_trust_task_error_type ty = starts_with trust_task_error_type_prefix ty"

definition join_refusal_reason :: "join_sdk \<Rightarrow> string \<Rightarrow> string option" where
  "join_refusal_reason sdk code =
     (if code = jk_challenge_expired sdk then
        Some (''the community's challenge for your zero-knowledge proof had expired before the request arrived '' @ em_dash @ '' join again; a fresh challenge is asked for automatically'')
      else if code = jk_challenge_already_used sdk then
        Some (''the challenge your zero-knowledge proof was bound to had already been used by an earlier submission '' @ em_dash @ '' join again for a fresh one'')
      else if code = jk_challenge_not_issued sdk then
        Some (''the community holds no challenge for this identity '' @ em_dash @ '' it was never issued, or it lapsed and was cleared '' @ em_dash @ '' join again for a fresh one'')
      else if code = jk_challenge_mismatch sdk then
        Some (''your zero-knowledge proof was bound to a different challenge from the one the community issued '' @ em_dash @ '' likely an OpenVTC fault, not yours; join again, and report it if it repeats'')
      else if code = jk_not_accepting sdk then
        Some (''the community is not accepting applications right now'')
      else if code = jk_criterion_unknown sdk then
        Some (''the community no longer publishes the criterion this join was made under '' @ em_dash @ '' join again to apply under its current requirements'')
      else None)"

definition is_join_denial_code :: "join_sdk \<Rightarrow> string \<Rightarrow> bool" where
  "is_join_denial_code sdk code \<longleftrightarrow>
     code \<in> {''permissionDenied'', ''forbidden'', ''identityMismatch''} \<or> join_refusal_reason sdk code \<noteq> None"

definition pointer_text :: "string list \<Rightarrow> json \<Rightarrow> string" where
  "pointer_text path v = (case Option.bind (jpointer path v) jstr of None \<Rightarrow> [] | Some s \<Rightarrow> s)"

definition error_effect ::
  "join_sdk \<Rightarrow> string \<Rightarrow> string \<Rightarrow> instant \<Rightarrow> community_record \<Rightarrow> status_outcome \<times> community_record" where
  "error_effect sdk code detail now c =
     (if is_join_denial_code sdk code then
        (\<lparr>so_changed = True, so_inactivated = Some (cr_persona_ref c)\<rparr>,
         reject \<lparr>de_code = (if code = [] then None else Some code),
                 de_reason = (if detail = [] then join_refusal_reason sdk code else Some detail),
                 de_decided_by = None, de_decided_at = None, de_disposition = None\<rparr> c)
      else
        (let (changed, c1) = mark_acknowledged now c in (\<lparr>so_changed = changed, so_inactivated = None\<rparr>, c1)))"

definition handle_join_trust_task_error ::
  "join_sdk \<Rightarrow> didcomm_message \<Rightarrow> vtc_did \<Rightarrow> instant \<Rightarrow> account \<Rightarrow> status_outcome \<times> account" where
  "handle_join_trust_task_error sdk m sender now a =
     (case Option.bind (dm_thid m) (jk_uuid sdk) of
        None \<Rightarrow> (status_none, a)
      | Some placeholder \<Rightarrow>
          settle sender (holds_request placeholder)
            (error_effect sdk (pointer_text [''payload'', ''code''] (dm_body m))
               (pointer_text [''payload'', ''message''] (dm_body m)) now) a)"

section \<open>The removal notice\<close>

datatype removal_notice_error =
    NoticeDocument operational_error
  | NoticeMalformed
  | NoticeWrongRecipient
  | NoticeNoMembership

text \<open>
  The local half of the check: the result of verifying the document is an argument (it was verified off the loop);
  the notice is recorded in the replay set only when everything else passed. What comes back is the verified notice.
\<close>

definition bind_removal_notice ::
  "join_sdk \<Rightarrow> didcomm_message \<Rightarrow> vtc_did \<Rightarrow> account \<Rightarrow> seen_documents
     \<Rightarrow> operational_error + verified_operational \<Rightarrow> instant
     \<Rightarrow> (removal_notice_error + removal_body) \<times> seen_documents" where
  "bind_removal_notice sdk m sender a seen verified now =
     (let checked =
        (case jget ''payload'' (dm_body m) of
           None \<Rightarrow> Inl (NoticeDocument NotADocument)
         | Some payload \<Rightarrow>
             rbind (ok_or NoticeMalformed (jk_removal sdk payload)) (\<lambda>body.
             rbind (ensure (case jmember_str ''recipient'' (Some (dm_body m)) of
                              None \<Rightarrow> True | Some r \<Rightarrow> r = rm_did body) NoticeWrongRecipient) (\<lambda>_.
             rbind (map_err NoticeDocument verified) (\<lambda>v.
             rbind (ensure (case persona_id_for_did a (rm_did body) of
                              None \<Rightarrow> False | Some p \<Rightarrow> membership a sender p \<noteq> None) NoticeNoMembership) (\<lambda>_.
             rbind (map_err NoticeDocument (vo_check v seen now)) (\<lambda>_.
               Inr (body, v)))))))
      in case checked of
           Inl e \<Rightarrow> (Inl e, seen)
         | Inr (body, v) \<Rightarrow>
             (case vo_commit v seen now of
                (Inl e, seen') \<Rightarrow> (Inl (NoticeDocument e), seen')
              | (Inr _, seen') \<Rightarrow> (Inr body, seen')))"

definition removal_code_text :: "removal_code \<Rightarrow> string" where
  "removal_code_text code =
     (case code of AdminRemoved \<Rightarrow> ''adminRemoved'' | Purged \<Rightarrow> ''purged'' | OtherRemoval \<Rightarrow> ''unknown'')"

definition removal_evidence :: "join_sdk \<Rightarrow> removal_body \<Rightarrow> decision_evidence" where
  "removal_evidence sdk body =
     \<lparr>de_code = Some (removal_code_text (rm_code body)), de_reason = rm_reason body,
      de_decided_by = Some (rm_decided_by body), de_decided_at = jk_rfc3339 sdk (rm_decided_at body),
      de_disposition = Some (rm_disposition body)\<rparr>"

definition removal_effect ::
  "join_sdk \<Rightarrow> removal_body \<Rightarrow> persona_id \<Rightarrow> community_record \<Rightarrow> status_outcome \<times> community_record" where
  "removal_effect sdk body persona c =
     (if \<not> is_active (cr_status c) then (status_none, c)
      else (\<lparr>so_changed = True, so_inactivated = Some persona\<rparr>, remove_member (removal_evidence sdk body) c))"

definition handle_member_removal_notice ::
  "join_sdk \<Rightarrow> removal_body \<Rightarrow> vtc_did \<Rightarrow> account \<Rightarrow> status_outcome \<times> account" where
  "handle_member_removal_notice sdk body sender a =
     (case persona_id_for_did a (rm_did body) of
        None \<Rightarrow> (status_none, a)
      | Some persona \<Rightarrow> settle sender (\<lambda>c. cr_persona_ref c = persona) (removal_effect sdk body persona) a)"

section \<open>The community's profile\<close>

definition declared_default :: "json \<Rightarrow> identifier_default option" where
  "declared_default payload =
     (case Option.bind (jpointer [''profile'', ''relationshipIdentifierDefault''] payload) jstr of
        None \<Rightarrow> None
      | Some s \<Rightarrow> if s = ''attributed'' then Some Attributed else if s = ''pairwise'' then Some Pairwise else None)"

definition take_default :: "identifier_default option \<Rightarrow> community_record \<Rightarrow> bool \<times> community_record" where
  "take_default declared c =
     (if declared = Some Attributed \<and> cr_relationship_identifier_default c \<noteq> Some Attributed then (False, c)
      else if cr_relationship_identifier_default c \<noteq> declared then (True, c\<lparr>cr_relationship_identifier_default := declared\<rparr>)
      else (False, c))"

definition handle_community_profile_show_response :: "didcomm_message \<Rightarrow> vtc_did \<Rightarrow> account \<Rightarrow> bool \<times> account" where
  "handle_community_profile_show_response m sender a =
     (let declared = declared_default (trust_task_reply_payload (dm_body m));
          records = filter (\<lambda>c. cr_vtc_did c = sender) (memberships a)
      in (list_ex (\<lambda>c. fst (take_default declared c)) records,
          a\<lparr>ac_communities := map (\<lambda>(k, cs). (k,
              map (\<lambda>c. if cr_vtc_did c = sender then snd (take_default declared c) else c) cs)) (ac_communities a)\<rparr>))"

section \<open>An issued credential\<close>

record credential_issue_outcome =
  co_changed :: bool
  co_closed_join :: "(persona_id \<times> uuid) option"

definition issue_none :: credential_issue_outcome where
  "issue_none = \<lparr>co_changed = False, co_closed_join = None\<rparr>"

definition credential_in_issue :: "didcomm_message \<Rightarrow> json option" where
  "credential_in_issue m =
     (case jmember_str ''issuer'' (Some (dm_body m)) of
        None \<Rightarrow> None
      | Some issuer \<Rightarrow>
          if Some issuer \<noteq> dm_from m then None
          else jpointer [''payload'', ''credential_response'', ''credential''] (dm_body m))"

datatype issue_refusal =
    NotFromTheIssuer
  | NoSubject
  | NotOurPersona
  | UnknownKind
  | NoSuchMembership
  | MembershipEnded

definition credential_issue_admissible ::
  "credential_sdk \<Rightarrow> account \<Rightarrow> json \<Rightarrow> vtc_did \<Rightarrow> issue_refusal + persona_id \<times> credential_kind" where
  "credential_issue_admissible sdk a credential sender =
     rbind (ensure (issuer_of credential = Some sender) NotFromTheIssuer) (\<lambda>_.
     rbind (ok_or NoSubject (jmember_str ''id'' (jget ''credentialSubject'' credential))) (\<lambda>subject.
     rbind (ok_or NotOurPersona (persona_id_for_did a subject)) (\<lambda>persona.
     rbind (ok_or UnknownKind (kind_of_credential sdk credential)) (\<lambda>kind.
     rbind (ok_or NoSuchMembership (membership a sender persona)) (\<lambda>c.
     rbind (ensure (pending_id (cr_status c) \<noteq> None \<or> is_active (cr_status c)) MembershipEnded) (\<lambda>_.
       Inr (persona, kind)))))))"

definition store_credential :: "credential_kind \<Rightarrow> json \<Rightarrow> community_record \<Rightarrow> community_record" where
  "store_credential kind credential c =
     clear_retired (config_key kind) (c\<lparr>cr_credentials := AList.update kind credential (cr_credentials c)\<rparr>)"

definition issue_effect :: "credential_kind \<Rightarrow> json \<Rightarrow> instant \<Rightarrow> community_record \<Rightarrow> uuid option \<times> community_record" where
  "issue_effect kind credential now c =
     (let c1 = store_credential kind credential c
      in case pending_id (cr_status c1) of
           Some request \<Rightarrow> if activates_membership kind then (Some request, activate now c1) else (None, c1)
         | None \<Rightarrow> (None, c1))"

definition handle_credential_issue ::
  "credential_sdk \<Rightarrow> json \<Rightarrow> vtc_did \<Rightarrow> instant \<Rightarrow> account \<Rightarrow> credential_issue_outcome \<times> account" where
  "handle_credential_issue sdk credential sender now a =
     (case credential_issue_admissible sdk a credential sender of
        Inl _ \<Rightarrow> (issue_none, a)
      | Inr (persona, kind) \<Rightarrow>
          (case membership a sender persona of
             None \<Rightarrow> (issue_none, a)
           | Some c \<Rightarrow>
               (\<lparr>co_changed = True, co_closed_join = map_option (Pair persona) (fst (issue_effect kind credential now c))\<rparr>,
                membership_mut sender persona (\<lambda>c. snd (issue_effect kind credential now c)) a)))"

section \<open>An issued relationship credential\<close>

datatype vrc_refusal =
    NoRelationshipWithSender
  | NotEstablished relationship_state
  | IssuerNotTheirDid string string

definition vet_vrc_issued ::
  "relationships \<Rightarrow> tasks \<Rightarrow> dtg_credential \<Rightarrow> string \<Rightarrow> string option \<Rightarrow> vrc_refusal + string option" where
  "vet_vrc_issued rs ts vrc sender thid =
     rbind (ok_or NoRelationshipWithSender (find_by_remote_did rs sender)) (\<lambda>r.
     rbind (ensure (rl_state r = Established) (NotEstablished (rl_state r))) (\<lambda>_.
     rbind (ensure (dc_issuer vrc = rl_remote_did r) (IssuerNotTheirDid (dc_issuer vrc) (rl_remote_did r))) (\<lambda>_.
       Inr (case thid of
              None \<Rightarrow> None
            | Some i \<Rightarrow>
                (case get_by_id ts i of
                   None \<Rightarrow> None
                 | Some t \<Rightarrow>
                     (case tk_type t of
                        VRCRequestOutbound remote \<Rightarrow> if remote = rl_remote_p_did r then Some i else None
                      | _ \<Rightarrow> None))))))"

text \<open>\<open>same_reference\<close> compares two DIDs up to the locator of a did:scid; it is \<open>vta_sdk\<close>'s.\<close>

definition check_vrc_issuer_binding :: "(string \<Rightarrow> string \<Rightarrow> bool) \<Rightarrow> string option \<Rightarrow> string \<Rightarrow> string + string" where
  "check_vrc_issuer_binding same_reference verification_method issuer =
     (case verification_method of
        None \<Rightarrow> Inl ''credential has no data-integrity proof''
      | Some vm \<Rightarrow>
          let vm_did = (case split_once (CHR ''#'') vm of Some (did, _) \<Rightarrow> did | None \<Rightarrow> vm)
          in if same_reference vm_did issuer then Inr vm
             else Inl ''proof verification method does not belong to the issuer'')"

section \<open>Message parts\<close>

definition require_thid :: "didcomm_message \<Rightarrow> string + string" where
  "require_thid m = ok_or ''message missing required 'thid' header'' (dm_thid m)"

definition is_did_msi_char :: "char \<Rightarrow> bool" where
  "is_did_msi_char c \<longleftrightarrow> (CHR ''a'' \<le> c \<and> c \<le> CHR ''z'') \<or> (CHR ''A'' \<le> c \<and> c \<le> CHR ''Z'') \<or>
     (CHR ''0'' \<le> c \<and> c \<le> CHR ''9'') \<or> c \<in> {CHR ''.'', CHR ''-'', CHR ''_'', CHR ''%''}"

text \<open>\<open>str::split(char)\<close>.\<close>

fun split_on :: "char \<Rightarrow> string \<Rightarrow> string list" where
  "split_on d [] = [[]]"
| "split_on d (c # cs) = (if c = d then [] # split_on d cs
     else (case split_on d cs of [] \<Rightarrow> [[c]] | s # ss \<Rightarrow> (c # s) # ss))"

text \<open>A DID without a locator; \<open>True\<close> is \<open>Ok(())\<close>.\<close>

definition plain_did_ok :: "string \<Rightarrow> bool" where
  "plain_did_ok did =
     (case strip_prefix ''did:'' did of
        None \<Rightarrow> False
      | Some rest \<Rightarrow>
          (case split_once (CHR '':'') rest of
             None \<Rightarrow> False
           | Some (meth, msi) \<Rightarrow>
               meth \<noteq> [] \<and>
               list_all (\<lambda>c. (CHR ''a'' \<le> c \<and> c \<le> CHR ''z'') \<or> (CHR ''0'' \<le> c \<and> c \<le> CHR ''9'')) meth \<and>
               msi \<noteq> [] \<and> last (split_on (CHR '':'') msi) \<noteq> [] \<and>
               list_all (list_all is_did_msi_char) (split_on (CHR '':'') msi)))"

text \<open>
  A DID URL with a \<open>?src=\<close> locator is checked as its locator and then as the DID without it. Reading and stripping the
  locator are \<open>vta_sdk\<close>'s, so whether the recursion ends is theirs too: the value is \<open>None\<close> where it does not.
\<close>

partial_function (option) validate_did ::
  "(string \<Rightarrow> string option) \<Rightarrow> (string \<Rightarrow> string) \<Rightarrow> string \<Rightarrow> bool option" where
  "validate_did src strip_src did =
     (case src did of
        Some s \<Rightarrow>
          if CHR ''#'' \<in> set did \<or> \<not> list_all (\<lambda>c. is_did_msi_char c \<or> c = CHR ''/'' \<or> c = CHR '':'') s then Some False
          else validate_did src strip_src (strip_src did)
      | None \<Rightarrow> Some (plain_did_ok did))"

end
