(* ===== verification/Renewal.thy ===== *)
theory Renewal
  imports Messaging
begin

text \<open>
  Renewing a membership (\<open>renewal.rs\<close>): the requests outstanding, the checks on a community's answer, and storing the
  renewed credentials. The table of outstanding requests is a \<open>HashMap\<close> behind a lock, kept as an association list;
  \<open>Instant\<close> is a time of the process's own clock. The wire types and UUIDs are parsed by libraries (\<open>renew_sdk\<close>).
\<close>

section \<open>Outstanding requests\<close>

record pending_renewal =
  pr_vtc_did :: string
  pr_member_did :: string
  pr_at :: instant

type_synonym renewals = "(uuid \<times> pending_renewal) list"

definition pending_ttl :: duration where "pending_ttl = seconds 600"
definition max_pending :: nat where "max_pending = 64"

record renew_response =
  rn_did :: string
  rn_vmc :: "(string \<times> json) list"
  rn_role_vac :: "(string \<times> json) list"
  rn_personhood :: bool
  rn_personhood_changed :: bool

record renew_sdk =
  rk_uuid :: "string \<Rightarrow> uuid option"
  rk_response :: "json \<Rightarrow> renew_response option"
  rk_response_type :: string
  rk_not_member :: string

definition request_id_of :: "renew_sdk \<Rightarrow> string \<Rightarrow> uuid option" where
  "request_id_of sdk thid =
     rk_uuid sdk (case strip_prefix ''urn:uuid:'' thid of Some r \<Rightarrow> r | None \<Rightarrow> thid)"

text \<open>\<open>elapsed()\<close> is zero for a moment that has not come.\<close>

definition still_pending :: "instant \<Rightarrow> pending_renewal \<Rightarrow> bool" where
  "still_pending now p \<longleftrightarrow> max 0 (now - pr_at p) < pending_ttl"

definition record_request :: "uuid \<Rightarrow> string \<Rightarrow> string \<Rightarrow> instant \<Rightarrow> renewals \<Rightarrow> renewals" where
  "record_request request vtc member now rs =
     (let live = filter (\<lambda>(_, p). still_pending now p) rs
      in if length live < max_pending
         then AList.update request \<lparr>pr_vtc_did = vtc, pr_member_did = member, pr_at = now\<rparr> live else live)"

definition forget :: "uuid \<Rightarrow> renewals \<Rightarrow> renewals" where
  "forget request rs = AList.delete request rs"

definition answers :: "string \<Rightarrow> instant \<Rightarrow> pending_renewal option \<Rightarrow> bool" where
  "answers vtc now p = (case p of None \<Rightarrow> False | Some q \<Rightarrow> pr_vtc_did q = vtc \<and> still_pending now q)"

definition is_pending :: "renew_sdk \<Rightarrow> string \<Rightarrow> string \<Rightarrow> instant \<Rightarrow> renewals \<Rightarrow> bool" where
  "is_pending sdk vtc thid now rs =
     (case request_id_of sdk thid of None \<Rightarrow> False | Some i \<Rightarrow> answers vtc now (map_of rs i))"

definition take_pending ::
  "renew_sdk \<Rightarrow> string \<Rightarrow> string \<Rightarrow> instant \<Rightarrow> renewals \<Rightarrow> string option \<times> renewals" where
  "take_pending sdk vtc thid now rs =
     (case request_id_of sdk thid of
        None \<Rightarrow> (None, rs)
      | Some i \<Rightarrow>
          if answers vtc now (map_of rs i) then (map_option pr_member_did (map_of rs i), AList.delete i rs) else (None, rs))"

section \<open>Checking the answer\<close>

datatype renewal_error =
    RenewalDocument operational_error
  | RenewalMalformed
  | WrongMember
  | VmcShape string
  | RoleShape string
  | RenewalVmc issued_credential_error
  | RenewalRoleVac issued_credential_error
  | NoMembership
  | RenewalNotChecked
  | RenewalCheckUnfinished

record verified_renewal =
  vn_document :: verified_operational
  vn_did :: string
  vn_vmc :: json
  vn_role_vac :: json
  vn_roles :: "string list"
  vn_personhood :: bool
  vn_personhood_changed :: bool

definition parse_response :: "renew_sdk \<Rightarrow> json \<Rightarrow> renewal_error + renew_response" where
  "parse_response sdk doc =
     rbind (ok_or RenewalMalformed (jget ''payload'' doc)) (\<lambda>payload. ok_or RenewalMalformed (rk_response sdk payload))"

definition check_shape ::
  "credential_sdk \<Rightarrow> json \<Rightarrow> json \<Rightarrow> string \<Rightarrow> string \<Rightarrow> renewal_error + string list" where
  "check_shape csdk vmc role_vac community member =
     rbind (map_err VmcShape (parse_conformant csdk vmc)) (\<lambda>grant.
     rbind (ensure (dd_type grant = MembershipCredential) (VmcShape ''it is not a membership credential'')) (\<lambda>_.
     rbind (ensure (dd_scope grant = PublicScope) (VmcShape ''it does not declare issuerScope public'')) (\<lambda>_.
     rbind (ensure (dd_issuer grant = community) (VmcShape ''its issuer is not the community'')) (\<lambda>_.
     rbind (ensure (dd_subject grant = member) WrongMember) (\<lambda>_.
     rbind (map_err RoleShape (parse_conformant csdk role_vac)) (\<lambda>vac.
     rbind (ensure (dd_issuer vac = community) (RoleShape ''its issuer is not the community'')) (\<lambda>_.
     rbind (ensure (dd_subject vac = member) WrongMember) (\<lambda>_.
       ok_or (RoleShape ''it confers no role in the community's own scope'') (community_roles csdk vac)))))))))"

definition verify_renewal_response ::
  "renew_sdk \<Rightarrow> credential_sdk \<Rightarrow> document_sdk \<Rightarrow> json \<Rightarrow> string \<Rightarrow> string list \<Rightarrow> instant
     \<Rightarrow> renewal_error + verified_renewal" where
  "verify_renewal_response sdk csdk dsdk doc sender ours now =
     rbind (parse_response sdk doc) (\<lambda>response.
     rbind (ok_or (RenewalDocument NoRecipient) (jmember_str ''recipient'' (Some doc))) (\<lambda>recipient.
     rbind (ensure (rn_did response = recipient) WrongMember) (\<lambda>_.
     rbind (check_shape csdk (JObject (rn_vmc response)) (JObject (rn_role_vac response)) sender recipient) (\<lambda>roles.
     rbind (map_err RenewalDocument
             (verify_operational_with dsdk doc sender ours (rk_response_type sdk) no_documents now)) (\<lambda>document.
     rbind (map_err RenewalVmc (verify_issued_credential csdk (JObject (rn_vmc response)) sender now)) (\<lambda>vmc.
     rbind (map_err RenewalRoleVac (verify_issued_credential csdk (JObject (rn_role_vac response)) sender now)) (\<lambda>role_vac.
       Inr \<lparr>vn_document = document, vn_did = rn_did response, vn_vmc = vmc, vn_role_vac = role_vac, vn_roles = roles,
            vn_personhood = rn_personhood response, vn_personhood_changed = rn_personhood_changed response\<rparr>)))))))"

section \<open>Storing it\<close>

record renewal_summary =
  rs_persona :: persona_id
  rs_roles :: "string list"
  rs_personhood :: bool
  rs_personhood_changed :: bool
  rs_cleared_retired :: nat
  rs_closed_join :: "uuid option"

definition renew_record :: "verified_renewal \<Rightarrow> instant \<Rightarrow> community_record \<Rightarrow> community_record" where
  "renew_record renewal now c =
     (let c1 = store_credential RoleKind (vn_role_vac renewal) (store_credential MembershipKind (vn_vmc renewal) c)
      in case pending_id (cr_status c1) of None \<Rightarrow> c1 | Some _ \<Rightarrow> activate now c1)"

definition apply_renewal ::
  "verified_renewal \<Rightarrow> string \<Rightarrow> instant \<Rightarrow> account \<Rightarrow> renewal_error + renewal_summary \<times> account" where
  "apply_renewal renewal sender now a =
     rbind (ok_or WrongMember (persona_id_for_did a (vn_did renewal))) (\<lambda>persona.
     rbind (ok_or NoMembership (membership a sender persona)) (\<lambda>c.
     rbind (ensure (can_renew c) NoMembership) (\<lambda>_.
       Inr (\<lparr>rs_persona = persona, rs_roles = vn_roles renewal, rs_personhood = vn_personhood renewal,
             rs_personhood_changed = vn_personhood_changed renewal,
             rs_cleared_retired =
               length (cr_retired_credentials c) - length (cr_retired_credentials (renew_record renewal now c)),
             rs_closed_join = pending_id (cr_status c)\<rparr>,
            membership_mut sender persona (renew_record renewal now) a))))"

definition store_acknowledgement :: "string \<Rightarrow> persona_id \<Rightarrow> json \<Rightarrow> account \<Rightarrow> account" where
  "store_acknowledgement sender persona vmc a =
     membership_mut sender persona (\<lambda>c. clear_retired member_acknowledgement (c\<lparr>cr_member_vmc := Some vmc\<rparr>)) a"

datatype renewal_refusal = NotMember | OtherRefusal string string

definition read_refusal :: "renew_sdk \<Rightarrow> json \<Rightarrow> renewal_refusal" where
  "read_refusal sdk doc =
     (let code = pointer_text [''payload'', ''code''] doc
      in if code = rk_not_member sdk then NotMember else OtherRefusal code (pointer_text [''payload'', ''message''] doc))"

section \<open>What the checks and the table give\<close>

lemma verify_renewal_responseD:
  assumes "verify_renewal_response sdk csdk dsdk doc sender ours now = Inr r"
  shows "issuer_of (vn_vmc r) = Some sender" "kind_of_credential csdk (vn_vmc r) = Some MembershipKind" "kind_of_credential csdk (vn_role_vac r) = Some RoleKind"
    "ck_assertion_error csdk (vn_vmc r) sender = None" "ck_assertion_error csdk (vn_role_vac r) sender = None"
    "\<exists>d. parse_conformant csdk (vn_vmc r) = Inr d \<and> dd_issuer d = sender \<and> dd_subject d = vn_did r"
proof -
  from assms obtain response :: renew_response and roles where
    shape: "check_shape csdk (JObject (rn_vmc response)) (JObject (rn_role_vac response)) sender (vn_did r) = Inr roles"
    and vmc: "verify_issued_credential csdk (JObject (rn_vmc response)) sender now = Inr (vn_vmc r)"
    and vac: "verify_issued_credential csdk (JObject (rn_role_vac response)) sender now = Inr (vn_role_vac r)"
    by (auto simp: verify_renewal_response_def result_simps)
  show "issuer_of (vn_vmc r) = Some sender"
    using verify_issued_credentialD(1,2) [OF vmc] by simp
  note v = verify_issued_credentialD(1,3) [OF vmc] and w = verify_issued_credentialD(1,3) [OF vac]
  show "ck_assertion_error csdk (vn_vmc r) sender = None" "ck_assertion_error csdk (vn_role_vac r) sender = None"
    using v w by simp_all
  from shape obtain grant vac where
    g: "parse_conformant csdk (vn_vmc r) = Inr grant" "dd_type grant = MembershipCredential" "dd_issuer grant = sender"
      "dd_subject grant = vn_did r"
    and a: "parse_conformant csdk (vn_role_vac r) = Inr vac" "community_roles csdk vac = Some roles"
    unfolding v(1) w(1) by (auto simp: check_shape_def result_simps)
  from g show "kind_of_credential csdk (vn_vmc r) = Some MembershipKind" by (auto simp: kind_membership_iff)
  from a show "kind_of_credential csdk (vn_role_vac r) = Some RoleKind"
    by (auto simp: kind_of_credential_def community_roles_def Let_def split: if_splits option.splits)
  from g show "\<exists>d. parse_conformant csdk (vn_vmc r) = Inr d \<and> dd_issuer d = sender \<and> dd_subject d = vn_did r"
    by blast
qed

lemma length_record_request: "length rs \<le> max_pending \<Longrightarrow> length (record_request request vtc member now rs) \<le> max_pending"
  unfolding record_request_def Let_def
  by (simp add: length_alist_update) (metis (no_types) le_neq_implies_less length_filter_le order_trans)

lemma take_pending_once:
  assumes "take_pending sdk vtc thid now rs = (Some member, rs')"
  shows "\<not> is_pending sdk vtc thid later rs'"
  using assms by (auto simp: take_pending_def is_pending_def answers_def delete_conv' split: option.splits if_splits)

end
