(* ===== verification/AccountView.thy ===== *)
theory AccountView
  imports Account
begin

text \<open>
  What the account promises: the overview and the default working membership do not depend on the iteration order of
  its maps, the expiry sweep settles in one pass, personas that are referenced cannot go, and where the uniqueness of
  a membership per persona breaks.
\<close>

section \<open>The overview does not depend on the map's order\<close>

lemma mset_memberships: "mset (memberships a) = (\<Sum>x\<in>#mset (ac_communities a). mset (snd x))"
proof -
  have "mset (concat (map snd es)) = (\<Sum>x\<in>#mset es. mset (snd x))" for es :: "(vtc_did \<times> community_record list) list"
    by (induction es) auto
  then show ?thesis by (simp add: memberships_def)
qed

lemma same_buckets:
  assumes "filed a" "mset (ac_communities b) = mset (ac_communities a)"
  shows "filed b" "memberships_for b v = memberships_for a v" "mset (memberships b) = mset (memberships a)"
proof -
  have d: "distinct (map fst (ac_communities b))"
    using assms mset_map [of fst "ac_communities a"] mset_map [of fst "ac_communities b"]
    by (metis filed_def mset_eq_imp_distinct_iff)
  have s: "set (ac_communities b) = set (ac_communities a)" using assms(2) by (metis set_mset_mset)
  show "filed b" using d s assms(1) by (simp add: filed_def)
  have "map_of (ac_communities b) = map_of (ac_communities a)"
    using d s assms(1) by (metis filed_def map_of_inject_set)
  then show "memberships_for b v = memberships_for a v" by (simp add: memberships_for_def)
  show "mset (memberships b) = mset (memberships a)" by (simp add: mset_memberships assms(2))
qed

lemma sort_key_same:
  assumes "mset ys = mset xs" "\<And>k. filter (\<lambda>x. f k = f x) ys = filter (\<lambda>x. f k = f x) xs"
  shows "sort_key f ys = sort_key f xs"
proof (rule properties_for_sort_key [symmetric])
  show "filter (\<lambda>x. f k = f x) (sort_key f ys) = filter (\<lambda>x. f k = f x) xs" for k
    using sort_key_stable [of f "f k" ys] assms(2) [of k] by (simp add: eq_commute [of "f k"])
qed (use assms(1) in simp_all)

text \<open>
  The overview and the default working membership do not depend on the iteration order of the map of
  communities: two accounts that hold the same buckets in any two orders show the same list and start in the same
  membership.
\<close>

theorem display_order_stable:
  assumes "filed a" "mset (ac_communities b) = mset (ac_communities a)"
  shows "communities_for_display lower archived b = communities_for_display lower archived a \<and>
    default_working_membership lower b = default_working_membership lower a"
proof -
  note same = same_buckets [OF assms]
  have display: "communities_for_display lower arch b = communities_for_display lower arch a" for arch
  proof -
    let ?keep = "\<lambda>c. arch \<or> \<not> cr_archived c"
    have "filter (\<lambda>c. display_key lower k = display_key lower c) (filter ?keep (memberships b))
        = filter (\<lambda>c. display_key lower k = display_key lower c) (filter ?keep (memberships a))" for k
    proof -
      have v: "display_key lower k = display_key lower c \<and> ?keep c \<Longrightarrow> cr_vtc_did c = cr_vtc_did k" for c
        by (auto simp: display_key_def)
      show ?thesis
        using filter_bucket [OF \<open>filed b\<close> v] filter_bucket [OF assms(1) v] same(2)
        by (simp add: conj_commute)
    qed
    with same(3) show ?thesis
      unfolding communities_for_display_def by (intro sort_key_same) simp_all
  qed
  then show ?thesis by (simp add: default_working_membership_def)
qed

theorem display_order_stable_witness:
  "default_working_membership id (example_account\<lparr>ac_communities := rev (ac_communities example_account)\<rparr>)
     = default_working_membership id example_account"
proof -
  have "filed example_account" by (simp add: filed_def example_account_defs)
  then show ?thesis
    using display_order_stable [of example_account "example_account\<lparr>ac_communities := rev (ac_communities example_account)\<rparr>" id]
    by simp
qed

section \<open>Expiry\<close>

lemma expire_changes_only_pending:
  "snd (expire_if_stale_after now timeout c) = c \<or>
   (\<exists>r. cr_status c = PendingJoin r \<and> snd (expire_if_stale_after now timeout c) = c\<lparr>cr_status := Expired, cr_acknowledged := False\<rparr>)"
  by (cases "cr_status c") (auto simp: expire_if_stale_after_def split: option.split)

lemma expire_fst:
  "fst (expire_if_stale_after now timeout c) \<Longrightarrow>
     pending_id (cr_status c) \<noteq> None \<and> pending_id (cr_status (snd (expire_if_stale_after now timeout c))) = None"
  by (auto simp: expire_if_stale_after_def split: option.splits if_splits)

lemma expire_again: "fst (expire_if_stale_after now timeout (snd (expire_if_stale_after now timeout' c))) \<Longrightarrow>
    snd (expire_if_stale_after now timeout' c) = c"
  by (cases "cr_status c") (auto simp: expire_if_stale_after_def split: option.splits if_splits)

lemma expire_key: "membership_key (snd (expire_if_stale_after now timeout c)) = membership_key c"
  using expire_changes_only_pending [of now timeout c] by (auto simp: membership_key_def)

lemma sweep_memberships:
  "memberships (snd (expire_stale_pending_with now tf a)) = map (\<lambda>c. snd (expire_if_stale_after now (tf c) c)) (memberships a)"
  by (simp add: memberships_def expire_stale_pending_with_def comp_def case_prod_unfold map_concat)

text \<open>
  The expiry sweep does what it says and once: what it reports are memberships that were pending and are now
  expired, every other membership is left exactly as it was, no pending one past its timeout remains, and a second
  sweep at the same moment reports nothing.
\<close>

theorem sweep_settles:
  assumes swept: "expire_stale_pending_with now tf a = (expired, b)"
  shows "expired = map membership_key (filter (\<lambda>c. fst (expire_if_stale_after now (tf c) c)) (memberships a)) \<and>
    list_all2 (\<lambda>c d. d = c \<or> (membership_key c \<in> set expired \<and> pending_id (cr_status c) \<noteq> None \<and>
        d = c\<lparr>cr_status := Expired, cr_acknowledged := False\<rparr>)) (memberships a) (memberships b) \<and>
    fst (expire_stale_pending_with now tf b) = []"
proof (intro conjI)
  from swept have e: "expired = fst (expire_stale_pending_with now tf a)" and b: "b = snd (expire_stale_pending_with now tf a)"
    by simp_all
  show expired: "expired = map membership_key (filter (\<lambda>c. fst (expire_if_stale_after now (tf c) c)) (memberships a))"
    by (simp add: e expire_stale_pending_with_def membership_key_def)
  show "list_all2 (\<lambda>c d. d = c \<or> (membership_key c \<in> set expired \<and> pending_id (cr_status c) \<noteq> None \<and>
        d = c\<lparr>cr_status := Expired, cr_acknowledged := False\<rparr>)) (memberships a) (memberships b)"
    unfolding b sweep_memberships list_all2_conv_all_nth
  proof (intro conjI allI impI)
    fix i
    assume i: "i < length (memberships a)"
    let ?c = "memberships a ! i"
    show "map (\<lambda>c. snd (expire_if_stale_after now (tf c) c)) (memberships a) ! i = ?c \<or>
      (membership_key ?c \<in> set expired \<and> pending_id (cr_status ?c) \<noteq> None \<and>
       map (\<lambda>c. snd (expire_if_stale_after now (tf c) c)) (memberships a) ! i = ?c\<lparr>cr_status := Expired, cr_acknowledged := False\<rparr>)"
    proof (cases "fst (expire_if_stale_after now (tf ?c) ?c)")
      case True
      with i have "membership_key ?c \<in> set expired" by (simp add: expired)
      with True i show ?thesis
        by (auto simp: expire_if_stale_after_def split: option.splits if_splits)
    next
      case False
      with i show ?thesis by (auto simp: expire_if_stale_after_def split: option.splits if_splits)
    qed
  qed simp
  have "\<not> fst (expire_if_stale_after now (tf d) d)" if "d \<in> set (memberships b)" for d
  proof -
    from that obtain c where d: "d = snd (expire_if_stale_after now (tf c) c)" by (auto simp: b sweep_memberships)
    show ?thesis
    proof
      assume "fst (expire_if_stale_after now (tf d) d)"
      moreover from this have "d = c" using expire_again [of now "tf d" "tf c" c] by (simp add: d)
      ultimately show False using d expire_fst [of now "tf c" c] by auto
    qed
  qed
  then show "fst (expire_stale_pending_with now tf b) = []"
    by (simp add: expire_stale_pending_with_def filter_empty_conv)
qed

theorem sweep_settles_witness:
  "fst (expire_stale_pending (days 7) example_account) = [(''did:c'', 1)] \<and>
   fst (expire_stale_pending (days 7) (snd (expire_stale_pending (days 7) example_account))) = []"
  (is "?one \<and> ?two")
proof -
  have one: ?one by code_simp
  moreover have ?two
    using sweep_settles [of "days 7" "\<lambda>_. days pending_timeout_days" example_account
        "fst (expire_stale_pending (days 7) example_account)" "snd (expire_stale_pending (days 7) example_account)"]
    by (simp add: expire_stale_pending_def)
  ultimately show ?thesis by blast
qed

section \<open>One membership of a community per persona\<close>

text \<open>
  The pair of community and persona is meant to be unique, and the join flow asks \<open>has_live_membership\<close> before
  it records a join. For a membership that has ended that check passes, the new request is pushed behind the ended
  record, and every lookup goes on answering the ended one: the join that is now pending is not live to the program,
  so the check passes again.
\<close>

theorem rejoin_is_shadowed:
  assumes "membership a vtc persona = Some c" "is_inactive (cr_status c)"
  shows "\<not> has_live_membership a vtc persona \<and>
    membership (add_membership (new_pending vtc name sub persona request now) a) vtc persona = Some c \<and>
    \<not> has_live_membership (add_membership (new_pending vtc name sub persona request now) a) vtc persona \<and>
    new_pending vtc name sub persona request now
      \<in> set (memberships_for (add_membership (new_pending vtc name sub persona request now) a) vtc)"
proof -
  let ?n = "new_pending vtc name sub persona request now"
  from assms(1) obtain cs where cs: "map_of (ac_communities a) vtc = Some cs"
    by (auto simp: membership_def memberships_for_def split: option.splits)
  have bucket: "memberships_for (add_membership ?n a) vtc = memberships_for a vtc @ [?n]"
  proof -
    have "memberships_for (add_membership ?n a) vtc = memberships_for (on_community vtc (\<lambda>cs. cs @ [?n]) a) vtc"
      using cs by (simp add: memberships_for_def add_membership_def new_pending_def)
    with cs show ?thesis by (simp add: memberships_for_on_community)
  qed
  with assms(1) have found: "membership (add_membership ?n a) vtc persona = Some c"
    by (simp add: membership_def find_append)
  from assms(2) have "\<not> is_live_membership c" by (cases "cr_status c") (simp_all add: is_live_membership_def)
  with assms(1) found bucket show ?thesis by (simp add: has_live_membership_def)
qed

theorem rejoin_is_shadowed_witness:
  "membership (add_membership (new_pending ''did:d'' None ''top/d'' 1 12 9) (membership_mut ''did:d'' 1 leave example_account))
     ''did:d'' 1 = Some (leave example_member)"
proof -
  have "membership (membership_mut ''did:d'' 1 leave example_account) ''did:d'' 1 = Some (leave example_member)"
    by code_simp
  from rejoin_is_shadowed [OF this, of None "''top/d''" 12 9] show ?thesis by (simp add: leave_def)
qed

section \<open>References to personas\<close>

text \<open>
  Deleting a persona the account allows to be deleted leaves no membership without its persona, and while a
  membership presents a persona the account does not allow it.
\<close>

theorem persona_deletion_safe:
  assumes "can_delete_persona a p"
  shows "dangling_refs (a\<lparr>ac_personas := AList.delete p (ac_personas a)\<rparr>) = dangling_refs a \<and>
    p \<notin> cr_persona_ref ` set (memberships a)"
proof -
  from assms have free: "p \<notin> cr_persona_ref ` set (memberships a)"
    by (auto simp: can_delete_persona_def persona_referenced_def list_ex_iff)
  have "filter (\<lambda>(_, c). map_of (AList.delete p (ac_personas a)) (cr_persona_ref c) = None)
        (concat (map (\<lambda>(vtc, cs). map (Pair vtc) cs) (ac_communities a)))
      = filter (\<lambda>(_, c). map_of (ac_personas a) (cr_persona_ref c) = None)
        (concat (map (\<lambda>(vtc, cs). map (Pair vtc) cs) (ac_communities a)))"
  proof (rule filter_cong [OF refl])
    fix x
    assume "x \<in> set (concat (map (\<lambda>(vtc, cs). map (Pair vtc) cs) (ac_communities a)))"
    then have "snd x \<in> set (memberships a)" by (force simp: memberships_def)
    with free have "cr_persona_ref (snd x) \<noteq> p" by blast
    then show "(case x of (_, c) \<Rightarrow> map_of (AList.delete p (ac_personas a)) (cr_persona_ref c) = None)
      = (case x of (_, c) \<Rightarrow> map_of (ac_personas a) (cr_persona_ref c) = None)"
      by (cases x) simp
  qed
  with free show ?thesis by (simp add: dangling_refs_def)
qed

theorem persona_deletion_safe_witness:
  "dangling_refs ((example_account\<lparr>ac_personas := [(1, example_persona), (2, example_persona)]\<rparr>)\<lparr>ac_personas :=
     AList.delete 2 [(1, example_persona), (2, example_persona)]\<rparr>) = []"
proof -
  have "can_delete_persona (example_account\<lparr>ac_personas := [(1, example_persona), (2, example_persona)]\<rparr>) 2"
    by code_simp
  from persona_deletion_safe [OF this]
  have "dangling_refs ((example_account\<lparr>ac_personas := [(1, example_persona), (2, example_persona)]\<rparr>)\<lparr>ac_personas :=
     AList.delete 2 [(1, example_persona), (2, example_persona)]\<rparr>)
     = dangling_refs (example_account\<lparr>ac_personas := [(1, example_persona), (2, example_persona)]\<rparr>)" by simp
  also have "\<dots> = []" by code_simp
  finally show ?thesis .
qed

end
