(* ===== verification/MembershipStep.thy ===== *)
theory MembershipStep
  imports Renewal AccountView
begin

text \<open>
  The life of memberships: the step relation \<open>account_step\<close> has one rule per operation that changes them - a join, each
  inbound message, a credential or renewal that verified, and what the member does. Each step is shown lawful for each
  membership, keeps one membership per community and persona, and keeps every active one backed by a credential.

  A join is recorded where \<open>has_live_membership\<close> finds none, the gate both join flows pass; where the pair has a record
  that ended, the new one is then shadowed by it (theory AccountView), and the pair has two.
\<close>

section \<open>Steps\<close>

text \<open>A context deleted at the VTA: the records let go of it.\<close>

definition release_context :: "string \<Rightarrow> account \<Rightarrow> account" where
  "release_context ctxt a =
     a\<lparr>ac_communities := map (\<lambda>(v, cs). (v, map (\<lambda>c. if cr_sub_context_id c = ctxt then c\<lparr>cr_sub_context_id := []\<rparr> else c) cs))
        (ac_communities a)\<rparr>"

inductive account_step ::
  "join_sdk \<Rightarrow> credential_sdk \<Rightarrow> renew_sdk \<Rightarrow> document_sdk \<Rightarrow> account \<Rightarrow> account \<Rightarrow> bool"
  for js :: join_sdk and cs :: credential_sdk and rsdk :: renew_sdk and ds :: document_sdk where
  joins: "\<not> has_live_membership a vtc persona \<Longrightarrow>
    account_step js cs rsdk ds a
      (add_membership ((new_pending vtc name sub persona request now)\<lparr>cr_submit_transport := transport\<rparr>) a)"
| receipt: "account_step js cs rsdk ds a (snd (handle_join_submit_receipt js m sender now a))"
| status: "account_step js cs rsdk ds a (snd (handle_join_status_response js m sender now a))"
| verdict: "account_step js cs rsdk ds a (snd (handle_join_verdict js m sender now a))"
| error: "account_step js cs rsdk ds a (snd (handle_join_trust_task_error js m sender now a))"
| removal: "bind_removal_notice js m sender a seen (verify_operational_with ds (dm_body m) sender ours ty seen' t) now
      = (Inr body, seen'')
    \<Longrightarrow> account_step js cs rsdk ds a (snd (handle_member_removal_notice js body sender a))"
| profile: "account_step js cs rsdk ds a (snd (handle_community_profile_show_response m sender a))"
| issued: "verify_issued_credential cs credential sender now = Inr v
    \<Longrightarrow> account_step js cs rsdk ds a (snd (handle_credential_issue cs v sender later a))"
| renewed: "verify_renewal_response rsdk cs ds doc sender ours now = Inr r
    \<Longrightarrow> apply_renewal r sender later a = Inr (summary, b) \<Longrightarrow> account_step js cs rsdk ds a b"
| acknowledgement: "account_step js cs rsdk ds a (store_acknowledgement vtc persona vmc a)"
| noted: "account_step js cs rsdk ds a (note_credential_refused vtc reason a)"
| left: "account_step js cs rsdk ds a (membership_mut vtc persona leave a)"
| withdrawn: "account_step js cs rsdk ds a (membership_mut vtc persona (\<lambda>c. snd (withdraw c)) a)"
| acknowledged: "account_step js cs rsdk ds a (membership_mut vtc persona acknowledge a)"
| starred: "account_step js cs rsdk ds a (membership_mut vtc persona (\<lambda>c. snd (toggle_favourite c)) a)"
| archived: "archive_membership vtc persona a = Inr b \<Longrightarrow> account_step js cs rsdk ds a b"
| deleted: "delete_membership vtc persona a = Inr (c, b) \<Longrightarrow> account_step js cs rsdk ds a b"
| swept: "account_step js cs rsdk ds a (snd (expire_stale_pending_with now timeout_for a))"
| released: "account_step js cs rsdk ds a (release_context ctxt a)"

inductive_cases account_stepE: "account_step js cs rsdk ds a b"

section \<open>What may become of one membership\<close>

fun allowed :: "community_status \<Rightarrow> community_status \<Rightarrow> bool" where
  "allowed (PendingJoin _) t = (t \<noteq> Removed)"
| "allowed Active t = (t \<in> {Active, Removed, LeftByMember})"
| "allowed s t = (t = s \<or> t = LeftByMember)"

definition proven_membership :: "credential_sdk \<Rightarrow> vtc_did \<Rightarrow> community_record \<Rightarrow> bool" where
  "proven_membership cs vtc c \<longleftrightarrow>
     (\<exists>v. map_of (cr_credentials c) MembershipKind = Some v \<and> kind_of_credential cs v = Some MembershipKind \<and>
        issuer_of v = Some vtc \<and> ck_assertion_error cs v vtc = None)"

definition lawful :: "credential_sdk \<Rightarrow> vtc_did \<Rightarrow> community_record \<Rightarrow> community_record \<Rightarrow> bool" where
  "lawful cs vtc c d \<longleftrightarrow> membership_key d = membership_key c \<and> allowed (cr_status c) (cr_status d) \<and>
     (map_of (cr_credentials c) MembershipKind \<noteq> None \<longrightarrow> map_of (cr_credentials d) MembershipKind \<noteq> None) \<and>
     (is_active (cr_status d) \<longrightarrow> proven_membership cs vtc d \<or>
        (is_active (cr_status c) \<and> map_of (cr_credentials d) MembershipKind = map_of (cr_credentials c) MembershipKind))"

lemma allowed_refl [simp]: "allowed s s"
  by (cases s) auto

lemma lawful_quiet:
  "membership_key d = membership_key c \<Longrightarrow> cr_status d = cr_status c \<Longrightarrow> cr_credentials d = cr_credentials c \<Longrightarrow>
     lawful cs vtc c d"
  by (auto simp: lawful_def)

lemma lawful_refl [simp]: "lawful cs vtc c c"
  by (rule lawful_quiet) auto

text \<open>Ending a membership: the status moves where it may, to one that is not active, and the credentials stay.\<close>

lemma lawful_end:
  "membership_key d = membership_key c \<Longrightarrow> allowed (cr_status c) (cr_status d) \<Longrightarrow> \<not> is_active (cr_status d) \<Longrightarrow>
     cr_credentials d = cr_credentials c \<Longrightarrow> lawful cs vtc c d"
  by (auto simp: lawful_def)

lemmas record_ops = mark_acknowledged_def mark_approved_def confirm_request_id_def withdraw_def reject_def leave_def
  acknowledge_def toggle_favourite_def remove_member_def membership_key_def clear_retired_def

lemma pending_id_iff: "pending_id s = Some r \<longleftrightarrow> s = PendingJoin r"
  by (cases s) auto

lemma pending_not_removed: "pending_id s = Some r \<Longrightarrow> allowed s t \<longleftrightarrow> t \<noteq> Removed"
  by (cases s) auto

lemma allowed_pending:
  "pending_id s \<noteq> None \<Longrightarrow> t \<noteq> Removed \<Longrightarrow> allowed s t"
  by (cases s) auto

lemma adopt_lawful:
  assumes "pending_id (cr_status c) \<noteq> None"
  shows "lawful cs vtc c (snd (adopt_and_apply body now c))"
proof -
  from assms obtain r where s: "cr_status c = PendingJoin r" by (cases "cr_status c") auto
  have delivery: "cr_status (snd (record_credential_delivery body now d)) = cr_status d"
    "cr_credentials (snd (record_credential_delivery body now d)) = cr_credentials d"
    "membership_key (snd (record_credential_delivery body now d)) = membership_key d" for d
    by (auto simp: record_credential_delivery_def Let_def membership_key_def split: option.split)
  have "cr_status (snd (adopt_and_apply body now c)) \<in> {PendingJoin (jb_request_id body), Rejected, Withdrawn}"
    "cr_credentials (snd (adopt_and_apply body now c)) = cr_credentials c"
    "membership_key (snd (adopt_and_apply body now c)) = membership_key c"
    using s delivery
    by (auto simp: adopt_and_apply_def status_effect_def record_ops case_prod_unfold Let_def split: option.split)
  then show ?thesis by (auto simp: lawful_def s)
qed

lemma verdict_lawful:
  assumes "pending_id (cr_status c) \<noteq> None"
  shows "lawful cs vtc c (snd (verdict_effect_on body now c))"
proof -
  from assms obtain r where s: "cr_status c = PendingJoin r" by (cases "cr_status c") auto
  show ?thesis
    by (cases "vd_effect body") (auto simp: lawful_def verdict_effect_on_def record_ops case_prod_unfold Let_def s)
qed

lemma error_lawful:
  assumes "pending_id (cr_status c) \<noteq> None"
  shows "lawful cs vtc c (snd (error_effect js code detail now c))"
proof -
  from assms obtain r where s: "cr_status c = PendingJoin r" by (cases "cr_status c") auto
  show ?thesis by (auto simp: lawful_def error_effect_def record_ops case_prod_unfold Let_def s)
qed

lemma receipt_lawful:
  assumes "pending_id (cr_status c) \<noteq> None"
  shows "lawful cs vtc c (receipt_effect request now c)"
proof -
  from assms obtain r where s: "cr_status c = PendingJoin r" by (cases "cr_status c") auto
  show ?thesis by (auto simp: lawful_def receipt_effect_def record_ops s)
qed

lemma removal_lawful: "lawful cs vtc c (snd (removal_effect js body persona c))"
  by (cases "cr_status c") (auto simp: lawful_def removal_effect_def record_ops)

lemma store_credential_fields:
  "cr_status (store_credential kind v c) = cr_status c" "membership_key (store_credential kind v c) = membership_key c"
  "map_of (cr_credentials (store_credential kind v c)) k = (if k = kind then Some v else map_of (cr_credentials c) k)"
  by (auto simp: store_credential_def clear_retired_def membership_key_def update_conv')

lemma activate_fields:
  "cr_status (activate now c) = Active" "membership_key (activate now c) = membership_key c"
  "cr_credentials (activate now c) = cr_credentials c"
  by (simp_all add: activate_def membership_key_def)

lemma issue_lawful:
  assumes "kind_of_credential cs v = Some kind" "issuer_of v = Some vtc" "ck_assertion_error cs v vtc = None"
  shows "lawful cs vtc c (snd (issue_effect kind v now c))"
proof (cases "pending_id (cr_status c) \<noteq> None \<and> kind = MembershipKind")
  case True
  then obtain r where "cr_status c = PendingJoin r" by (cases "cr_status c") auto
  with True assms store_credential_fields(3) [of kind v c] show ?thesis
    by (auto simp: lawful_def issue_effect_def Let_def store_credential_fields activate_fields proven_membership_def)
next
  case False
  then have "snd (issue_effect kind v now c) = store_credential kind v c"
    by (cases kind) (auto simp: issue_effect_def Let_def store_credential_fields split: option.split)
  with assms show ?thesis
    by (cases "kind = MembershipKind") (auto simp: lawful_def store_credential_fields proven_membership_def)
qed

lemma renew_lawful:
  assumes "can_renew c" "issuer_of (vn_vmc r) = Some vtc" "kind_of_credential cs (vn_vmc r) = Some MembershipKind"
    "ck_assertion_error cs (vn_vmc r) vtc = None"
  shows "lawful cs vtc c (renew_record r now c)"
proof -
  let ?d = "store_credential RoleKind (vn_role_vac r) (store_credential MembershipKind (vn_vmc r) c)"
  have d: "cr_status ?d = cr_status c" "membership_key ?d = membership_key c"
    "map_of (cr_credentials ?d) MembershipKind = Some (vn_vmc r)"
    by (simp_all add: store_credential_fields)
  show ?thesis
  proof (cases "pending_id (cr_status c)")
    case None
    with d assms show ?thesis by (auto simp: lawful_def renew_record_def proven_membership_def)
  next
    case (Some q)
    with d assms show ?thesis
      by (auto simp: lawful_def renew_record_def Let_def activate_fields proven_membership_def pending_id_iff)
  qed
qed

section \<open>One membership per community and persona\<close>

definition unique_memberships :: "account \<Rightarrow> bool" where
  "unique_memberships a \<longleftrightarrow> filed a \<and> (\<forall>v. distinct (map cr_persona_ref (memberships_for a v)))"

text \<open>Under uniqueness, changing the record one lookup finds is changing what the lookup by persona finds.\<close>

lemma find_before: "distinct (map g (us @ c # vs)) \<Longrightarrow> List.find (\<lambda>d. g d = g c) us = None"
  by (induction us) auto

lemma on_membership_lookup:
  assumes u: "distinct (map cr_persona_ref (memberships_for a vtc))"
    and c: "List.find p (memberships_for a vtc) = Some c" and f: "cr_persona_ref (f c) = cr_persona_ref c"
  shows "membership (on_membership vtc p f a) v q =
    (if v = vtc \<and> q = cr_persona_ref c then Some (f c) else membership a v q)"
    and "membership a vtc (cr_persona_ref c) = Some c"
proof -
  from update_first_split [OF c, of f] obtain us vs where l: "memberships_for a vtc = us @ c # vs"
    "update_first p f (memberships_for a vtc) = us @ f c # vs" by blast
  have us: "List.find (\<lambda>d. cr_persona_ref d = cr_persona_ref c) us = None"
    using u unfolding l(1) by (rule find_before)
  show "membership a vtc (cr_persona_ref c) = Some c" by (simp add: membership_def l(1) find_append us)
  show "membership (on_membership vtc p f a) v q =
    (if v = vtc \<and> q = cr_persona_ref c then Some (f c) else membership a v q)"
  proof (cases "v = vtc")
    case True
    have "List.find (\<lambda>d. cr_persona_ref d = q) (us @ f c # vs) =
      (if q = cr_persona_ref c then Some (f c) else List.find (\<lambda>d. cr_persona_ref d = q) (us @ c # vs))"
      using f us by (auto simp: find_append split: option.split)
    with True show ?thesis by (simp only: membership_def on_membership_for l(2) if_True simp_thms) (simp only: l(1))
  next
    case False
    then show ?thesis by (simp add: membership_def on_membership_for)
  qed
qed

lemma on_membership_unique:
  assumes "unique_memberships a" "\<And>c. membership_key (f c) = membership_key c"
  shows "unique_memberships (on_membership vtc p f a)"
proof -
  have "map cr_persona_ref (update_first p f cs) = map cr_persona_ref cs" for cs
    using assms(2) by (intro map_update_first) (simp add: membership_key_def)
  moreover have "filed (on_membership vtc p f a)"
    using assms by (intro filed_on_membership) (auto simp: unique_memberships_def membership_key_def)
  ultimately show ?thesis
    using assms(1) by (auto simp: unique_memberships_def on_membership_for)
qed

definition lawful_account :: "credential_sdk \<Rightarrow> account \<Rightarrow> account \<Rightarrow> bool" where
  "lawful_account cs a b \<longleftrightarrow> (\<forall>v q. case (membership a v q, membership b v q) of
      (Some c, Some d) \<Rightarrow> lawful cs v c d
    | (None, Some d) \<Rightarrow> pending_id (cr_status d) \<noteq> None
    | (Some c, None) \<Rightarrow> is_inactive (cr_status c)
    | (None, None) \<Rightarrow> True)"

lemma lawful_account_refl [simp]: "lawful_account cs a a"
  by (auto simp: lawful_account_def split: option.split)

lemma lawful_on_membership:
  assumes u: "unique_memberships a"
    and l: "\<And>c. List.find p (memberships_for a vtc) = Some c \<Longrightarrow> lawful cs vtc c (f c)"
  shows "lawful_account cs a (on_membership vtc p f a)"
proof (cases "List.find p (memberships_for a vtc)")
  case None
  then have "memberships_for (on_membership vtc p f a) v = memberships_for a v" for v
    by (simp add: on_membership_for)
  then show ?thesis by (auto simp: lawful_account_def membership_def split: option.split)
next
  case (Some c)
  from u have d: "distinct (map cr_persona_ref (memberships_for a vtc))" by (simp add: unique_memberships_def)
  from l [OF Some] have "cr_persona_ref (f c) = cr_persona_ref c" by (simp add: lawful_def membership_key_def)
  note look = on_membership_lookup [where f = f, OF d Some this]
  show ?thesis
    using l [OF Some] look(2) by (auto simp: lawful_account_def look(1) split: option.split)
qed

lemma lawful_membership_mut:
  assumes "unique_memberships a" "\<And>c. membership a vtc persona = Some c \<Longrightarrow> lawful cs vtc c (f c)"
  shows "lawful_account cs a (membership_mut vtc persona f a)"
  unfolding membership_mut_def using assms by (intro lawful_on_membership) (simp_all add: membership_def)

text \<open>A handler that settles one record it found is lawful where its effect is, and keeps uniqueness.\<close>

lemma lawful_settle:
  assumes "unique_memberships a" "\<And>c. List.find p (memberships_for a vtc) = Some c \<Longrightarrow> lawful cs vtc c (snd (effect c))"
  shows "lawful_account cs a (snd (settle vtc p effect a))"
  using lawful_on_membership [OF assms(1), of p vtc cs "\<lambda>c. snd (effect c)"] assms(2)
  by (auto simp: settle_def split: option.split)

lemma settle_unique:
  "unique_memberships a \<Longrightarrow> (\<And>c. membership_key (snd (effect c)) = membership_key c) \<Longrightarrow>
     unique_memberships (snd (settle vtc p effect a))"
  by (auto simp: settle_def intro!: on_membership_unique split: option.split)

text \<open>Operations that change every record of a bucket alike.\<close>

lemma filed_buckets:
  "distinct (map fst (ac_communities a)) \<Longrightarrow>
     filed a \<longleftrightarrow> (\<forall>v. \<forall>c \<in> set (memberships_for a v). cr_vtc_did c = v)"
  by (fastforce simp: filed_def memberships_for_def split: option.splits)

lemma mapped_buckets:
  assumes "map fst (ac_communities b) = map fst (ac_communities a)"
    "\<And>v. memberships_for b v = map (g v) (memberships_for a v)" "\<And>v c. membership_key (g v c) = membership_key c"
  shows "membership b v q = map_option (g v) (membership a v q)"
    and "unique_memberships a \<Longrightarrow> unique_memberships b"
proof -
  have key: "cr_persona_ref (g v c) = cr_persona_ref c" "cr_vtc_did (g v c) = cr_vtc_did c" for v c
    using assms(3) by (simp_all add: membership_key_def)
  then have find: "List.find (\<lambda>c. cr_persona_ref c = q) (map (g v) cs) = map_option (g v) (List.find (\<lambda>c. cr_persona_ref c = q) cs)"
    for cs by (induction cs) auto
  show "membership b v q = map_option (g v) (membership a v q)"
    by (simp add: membership_def assms(2) find)
  assume u: "unique_memberships a"
  then have d: "distinct (map fst (ac_communities a))" "distinct (map fst (ac_communities b))"
    by (simp_all add: unique_memberships_def filed_def assms(1))
  have "filed b"
    using u by (simp add: unique_memberships_def filed_buckets d assms(2) key)
  moreover have "map cr_persona_ref (memberships_for b v) = map cr_persona_ref (memberships_for a v)" for v
    by (simp add: assms(2) key comp_def)
  ultimately show "unique_memberships b" using u by (simp add: unique_memberships_def)
qed

lemma lawful_mapped:
  assumes "\<And>v q. membership b v q = map_option (g v) (membership a v q)" "\<And>v c. lawful cs v c (g v c)"
  shows "lawful_account cs a b"
  using assms by (auto simp: lawful_account_def split: option.split)

lemma profile_by_did:
  "memberships_for (snd (handle_community_profile_show_response m sender a)) v =
    map (\<lambda>c. if cr_vtc_did c = sender then snd (take_default (declared_default (trust_task_reply_payload (dm_body m))) c) else c)
      (memberships_for a v)"
  by (simp add: handle_community_profile_show_response_def Let_def memberships_for_def map_of_map split: option.split)

lemma profile_buckets:
  assumes "filed a"
  shows "memberships_for (snd (handle_community_profile_show_response m sender a)) v =
    map (\<lambda>c. if v = sender then snd (take_default (declared_default (trust_task_reply_payload (dm_body m))) c) else c)
      (memberships_for a v)"
proof -
  from assms have own: "cr_vtc_did c = v" if "c \<in> set (memberships_for a v)" for c
    using that filed_buckets [of a] by (simp add: filed_def)
  show ?thesis unfolding profile_by_did using own by (intro map_cong) auto
qed

lemma take_default_lawful: "lawful cs v c (snd (take_default declared c))"
  by (rule lawful_quiet) (auto simp: take_default_def membership_key_def)

lemma note_buckets:
  "memberships_for (note_credential_refused vtc reason a) v =
     map (\<lambda>c. if v = vtc then (case reason of
         Some r \<Rightarrow> if approved_awaiting_credential c then c\<lparr>cr_credential_refused := Some r\<rparr> else c
       | None \<Rightarrow> c\<lparr>cr_credential_refused := None\<rparr>) else c) (memberships_for a v)"
proof (cases "v = vtc \<and> map_of (ac_communities a) vtc \<noteq> None")
  case True
  then show ?thesis unfolding note_credential_refused_def memberships_for_on_community by simp
next
  case False
  then have "v \<noteq> vtc \<or> memberships_for a v = []" by (auto simp: memberships_for_def)
  with False show ?thesis
    unfolding note_credential_refused_def memberships_for_on_community by (cases "v = vtc") auto
qed

lemma expire_lawful: "lawful cs v c (snd (expire_if_stale_after now timeout c))"
  using expire_changes_only_pending [of now timeout c] by (auto simp: lawful_def membership_key_def)

lemma release_buckets:
  "memberships_for (release_context ctxt a) v =
     map (\<lambda>c. if cr_sub_context_id c = ctxt then c\<lparr>cr_sub_context_id := []\<rparr> else c) (memberships_for a v)"
  by (simp add: memberships_for_def release_context_def map_of_map split: option.split)

lemma release_lawful: "lawful cs v c (if cr_sub_context_id c = ctxt then c\<lparr>cr_sub_context_id := []\<rparr> else c)"
  by (auto intro!: lawful_quiet simp: membership_key_def)

lemma sweep_buckets:
  "memberships_for (snd (expire_stale_pending_with now tf a)) v = map (\<lambda>c. snd (expire_if_stale_after now (tf c) c)) (memberships_for a v)"
  by (simp add: memberships_for_def expire_stale_pending_with_def map_of_map split: option.split)

lemma joins_bucket:
  "memberships_for (add_membership c a) v = (if v = cr_vtc_did c then memberships_for a v @ [c] else memberships_for a v)"
proof (cases "map_of (ac_communities a) (cr_vtc_did c)")
  case None
  then show ?thesis
    by (auto simp: memberships_for_def add_membership_def map_of_append map_add_def split: option.split)
next
  case (Some cs)
  then have "memberships_for (add_membership c a) v = memberships_for (on_community (cr_vtc_did c) (\<lambda>cs. cs @ [c]) a) v"
    by (simp add: memberships_for_def add_membership_def)
  with Some show ?thesis by (simp add: memberships_for_on_community)
qed

lemma joins_unique:
  assumes u: "unique_memberships a" and free: "membership a (cr_vtc_did c) (cr_persona_ref c) = None"
  shows "unique_memberships (add_membership c a)"
proof -
  from u have d: "distinct (map fst (ac_communities a))" by (simp add: unique_memberships_def filed_def)
  have d': "distinct (map fst (ac_communities (add_membership c a)))"
    using d by (auto simp: add_membership_def on_community_frame dest: map_of_SomeD split: option.split
        simp: map_of_eq_None_iff)
  have "filed (add_membership c a)"
    using u unfolding filed_buckets [OF d'] unique_memberships_def filed_buckets [OF d] by (simp add: joins_bucket)
  moreover have "cr_persona_ref c \<notin> set (map cr_persona_ref (memberships_for a (cr_vtc_did c)))"
    using free by (auto simp: membership_def find_None_iff)
  ultimately show ?thesis using u by (simp add: unique_memberships_def joins_bucket)
qed

lemma joins_lawful:
  assumes "membership a (cr_vtc_did c) (cr_persona_ref c) = None" "pending_id (cr_status c) \<noteq> None"
  shows "lawful_account cs a (add_membership c a)"
proof -
  have "membership (add_membership c a) v q =
    (if v = cr_vtc_did c \<and> q = cr_persona_ref c then Some c else membership a v q)" for v q
    using assms(1) by (auto simp: membership_def joins_bucket find_append split: option.split)
  with assms show ?thesis by (auto simp: lawful_account_def split: option.split)
qed

text \<open>A join beside an ended record of its pair: every lookup goes on answering the ended one.\<close>

definition shadowed_join :: "account \<Rightarrow> account \<Rightarrow> bool" where
  "shadowed_join a b \<longleftrightarrow>
     (\<exists>c d. membership a (cr_vtc_did c) (cr_persona_ref c) = Some d \<and> is_inactive (cr_status d) \<and>
        pending_id (cr_status c) \<noteq> None \<and> b = add_membership c a)"

lemma inactive_iff: "is_inactive (cr_status d) \<longleftrightarrow> \<not> is_live_membership d"
  by (cases "cr_status d") (simp_all add: is_live_membership_def)

lemma joins_good:
  assumes u: "unique_memberships a" and free: "\<not> has_live_membership a (cr_vtc_did c) (cr_persona_ref c)"
    and new: "pending_id (cr_status c) \<noteq> None"
  shows "lawful_account cs a (add_membership c a) \<and> (unique_memberships (add_membership c a) \<or> shadowed_join a (add_membership c a))"
proof (cases "membership a (cr_vtc_did c) (cr_persona_ref c)")
  case None
  with u new show ?thesis by (simp add: joins_lawful joins_unique)
next
  case (Some d)
  then have ended: "is_inactive (cr_status d)" using free by (simp add: has_live_membership_def inactive_iff)
  have "membership (add_membership c a) v q = membership a v q" for v q
    using Some by (auto simp: membership_def joins_bucket find_append split: option.splits)
  then have "lawful_account cs a (add_membership c a)" by (auto simp: lawful_account_def split: option.split)
  with Some ended new show ?thesis by (auto simp: shadowed_join_def)
qed

lemma remove_first_unique:
  "distinct (map g cs) \<Longrightarrow> remove_first (\<lambda>c. g c = q) cs = filter (\<lambda>c. g c \<noteq> q) cs"
proof (induction cs)
  case (Cons c cs)
  show ?case
  proof (cases "g c = q")
    case True
    from Cons.prems have "g c \<notin> g ` set cs" by simp
    then have "filter (\<lambda>d. g d \<noteq> g c) cs = cs" by (intro filter_True) (metis imageI)
    with True show ?thesis by simp
  qed (use Cons in simp)
qed simp

lemma deleted_buckets:
  assumes u: "unique_memberships a" and del: "delete_membership vtc persona a = Inr (c, b)"
  shows "membership a vtc persona = Some c" "is_inactive (cr_status c)" "distinct (map fst (ac_communities b))"
    "memberships_for b v = filter (\<lambda>d. \<not> (v = vtc \<and> cr_persona_ref d = persona)) (memberships_for a v)"
proof -
  from del obtain bucket where bucket: "map_of (ac_communities a) vtc = Some bucket"
    and c: "List.find (\<lambda>c. cr_persona_ref c = persona) bucket = Some c" and gone: "can_archive_or_delete c"
    and b: "b = (let rest = remove_first (\<lambda>c. cr_persona_ref c = persona) bucket in
        if rest = [] then a\<lparr>ac_communities := AList.delete vtc (ac_communities a)\<rparr> else on_community vtc (\<lambda>_. rest) a)"
    by (auto simp: delete_membership_def result_simps Let_def)
  show "membership a vtc persona = Some c" using bucket c by (simp add: membership_def memberships_for_def)
  show "is_inactive (cr_status c)" using gone by (simp add: can_archive_or_delete_def)
  from u have "distinct (map cr_persona_ref bucket)"
    using bucket by (auto simp: unique_memberships_def memberships_for_def dest: spec [of _ vtc])
  then have rest: "remove_first (\<lambda>c. cr_persona_ref c = persona) bucket = filter (\<lambda>d. cr_persona_ref d \<noteq> persona) bucket"
    by (rule remove_first_unique)
  have d: "distinct (map fst (ac_communities a))" using u by (simp add: unique_memberships_def filed_def)
  then show "distinct (map fst (ac_communities b))"
    by (simp add: b Let_def distinct_delete)
  show "memberships_for b v = filter (\<lambda>d. \<not> (v = vtc \<and> cr_persona_ref d = persona)) (memberships_for a v)"
  proof (cases "v = vtc")
    case True
    with bucket show ?thesis
      by (simp add: b Let_def rest memberships_for_on_community) (auto simp: memberships_for_def delete_conv')
  next
    case False
    then show ?thesis
      by (simp add: b Let_def memberships_for_on_community) (auto simp: memberships_for_def delete_conv')
  qed
qed

lemma deleted_unique:
  assumes "unique_memberships a" "delete_membership vtc persona a = Inr (c, b)"
  shows "unique_memberships b"
proof -
  note del = deleted_buckets [OF assms]
  from assms(1) have d: "distinct (map fst (ac_communities a))" by (simp add: unique_memberships_def filed_def)
  from assms(1) show ?thesis
    unfolding unique_memberships_def filed_buckets [OF d] filed_buckets [OF del(3)] del(4)
    by (auto intro: distinct_map_filter)
qed

lemma deleted_lawful:
  assumes "unique_memberships a" "delete_membership vtc persona a = Inr (c, b)"
  shows "lawful_account cs a b"
proof -
  note del = deleted_buckets [OF assms]
  have "membership b v q = (if v = vtc \<and> q = persona then None else membership a v q)" for v q
  proof -
    have "List.find (\<lambda>d. cr_persona_ref d = q) (filter (\<lambda>d. \<not> (v = vtc \<and> cr_persona_ref d = persona)) cs) =
      (if v = vtc \<and> q = persona then None else List.find (\<lambda>d. cr_persona_ref d = q) cs)" for cs
      by (induction cs) auto
    then show ?thesis unfolding membership_def del(4) .
  qed
  with del(1,2) show ?thesis by (auto simp: lawful_account_def split: option.split)
qed

section \<open>Every step is lawful\<close>

lemma leave_lawful: "lawful cs v c (leave c)"
  by (cases "cr_status c") (auto simp: lawful_def leave_def membership_key_def)

lemma withdraw_lawful: "lawful cs v c (snd (withdraw c))"
  by (cases "cr_status c") (auto simp: lawful_def withdraw_def membership_key_def)

lemma quiet_ops:
  "lawful cs v c (acknowledge c)" "lawful cs v c (snd (toggle_favourite c))" "lawful cs v c (c\<lparr>cr_archived := b\<rparr>)"
  "lawful cs v c (clear_retired kind (c\<lparr>cr_member_vmc := Some vmc\<rparr>))"
  by (auto intro!: lawful_quiet simp: record_ops)

lemma lawful_key: "lawful cs v c d \<Longrightarrow> membership_key d = membership_key c"
  by (simp add: lawful_def)

text \<open>The operations through one record: what they do to it, and that they leave its key alone.\<close>

lemma effect_keys:
  "membership_key (snd (adopt_and_apply body now c)) = membership_key c"
  "membership_key (snd (verdict_effect_on vbody now c)) = membership_key c"
  "membership_key (snd (error_effect js code detail now c)) = membership_key c"
  "membership_key (receipt_effect request now c) = membership_key c"
  "membership_key (snd (issue_effect kind v now c)) = membership_key c"
  "membership_key (renew_record r now c) = membership_key c"
proof -
  show "membership_key (snd (adopt_and_apply body now c)) = membership_key c"
    by (auto simp: adopt_and_apply_def status_effect_def record_credential_delivery_def record_ops case_prod_unfold Let_def
        split: option.split)
  show "membership_key (snd (verdict_effect_on vbody now c)) = membership_key c"
    by (cases "vd_effect vbody") (auto simp: verdict_effect_on_def record_ops case_prod_unfold Let_def split: option.split)
  show "membership_key (snd (error_effect js code detail now c)) = membership_key c"
    by (auto simp: error_effect_def record_ops case_prod_unfold Let_def)
  show "membership_key (receipt_effect request now c) = membership_key c"
    by (auto simp: receipt_effect_def record_ops split: option.split)
  show "membership_key (snd (issue_effect kind v now c)) = membership_key c"
    by (auto simp: issue_effect_def Let_def store_credential_fields activate_fields split: option.split)
  show "membership_key (renew_record r now c) = membership_key c"
    by (auto simp: renew_record_def Let_def store_credential_fields activate_fields split: option.split)
qed

lemma holdsD: "List.find (holds_request r) cs = Some c \<Longrightarrow> pending_id (cr_status c) \<noteq> None"
  by (auto simp: holds_request_def find_Some_iff)

lemma filter_singletonD: "filter p xs = [x] \<Longrightarrow> x \<in> set xs"
  by (metis filter_is_subset list.set_intros(1) subsetD)

lemma list_shapes:
  obtains (1) "xs = []" | (2) x where "xs = [x]" | (3) x y zs where "xs = x # y # zs"
  by (metis list.exhaust)

lemma awaiting_pending:
  assumes u: "unique_memberships a" and p: "awaiting_persona a vtc tos = Some p" and c: "membership a vtc p = Some c"
  shows "pending_id (cr_status c) \<noteq> None \<and> \<not> cr_request_id_confirmed c"
proof -
  have "p \<in> set (unconfirmed_personas a vtc)"
  proof (cases "unconfirmed_personas a vtc" rule: list_shapes)
    case (3 x y zs)
    then obtain f where "filter f (unconfirmed_personas a vtc) = [p]"
      using p by (auto simp add: awaiting_persona_def simp del: filter.simps split: list.split_asm)
    then show ?thesis by (rule filter_singletonD)
  qed (use p in \<open>auto simp: awaiting_persona_def\<close>)
  then obtain d where d: "d \<in> set (memberships_for a vtc)" "pending_id (cr_status d) \<noteq> None" "\<not> cr_request_id_confirmed d"
      "cr_persona_ref d = p"
    by (auto simp: unconfirmed_personas_def)
  from c have "c \<in> set (memberships_for a vtc)" "cr_persona_ref c = p"
    by (auto simp: membership_def dest: find_SomeD)
  moreover have "distinct (map cr_persona_ref (memberships_for a vtc))" using u by (simp add: unique_memberships_def)
  ultimately have "c = d" using d by (auto simp: distinct_map dest: inj_onD)
  with d show ?thesis by simp
qed

lemma membership_by_persona: "List.find (\<lambda>c. cr_persona_ref c = p) (memberships_for a v) = membership a v p"
  by (simp add: membership_def)

text \<open>Two ways to discharge a step: it changes one record lawfully, or each record of every bucket lawfully.\<close>

lemma lawful_mut_step:
  assumes "unique_memberships a" "\<And>c. lawful cs vtc c (f c)"
  shows "lawful_account cs a (membership_mut vtc persona f a) \<and> unique_memberships (membership_mut vtc persona f a)"
  using lawful_membership_mut [OF assms(1), of vtc persona cs f] on_membership_unique [OF assms(1) lawful_key [OF assms(2)]]
  by (simp add: assms(2) membership_mut_def)

lemma lawful_mapped_step:
  assumes "map fst (ac_communities b) = map fst (ac_communities a)"
    "\<And>v. memberships_for b v = map (g v) (memberships_for a v)" "\<And>v c. lawful cs v c (g v c)" "unique_memberships a"
  shows "lawful_account cs a b \<and> unique_memberships b"
  using lawful_mapped [OF mapped_buckets(1) [OF assms(1,2) lawful_key [OF assms(3)]] assms(3)]
    mapped_buckets(2) [OF assms(1,2) lawful_key [OF assms(3)] assms(4)] by simp

lemma disjoinedI: "p \<and> q \<Longrightarrow> p \<and> (q \<or> r)"
  by blast

lemma step_good:
  assumes "account_step js cs rsdk ds a b" and u: "unique_memberships a"
  shows "lawful_account cs a b \<and> (unique_memberships b \<or> shadowed_join a b)"
  using assms(1)
proof cases
  case (joins vtc persona name sub request now transport)
  show ?thesis unfolding joins(1) by (rule joins_good [OF u]) (use joins(2) in \<open>simp_all add: new_pending_def\<close>)
next
  case (receipt m sender now)
  then show ?thesis using u
    by (auto simp: handle_join_submit_receipt_def intro!: lawful_on_membership on_membership_unique receipt_lawful
        effect_keys dest: holdsD split: option.split)
next
  case (status m sender now)
  have one: "lawful_account cs a (snd (settle sender (\<lambda>c. cr_persona_ref c = p) (adopt_and_apply body now) a))"
    if "awaiting_persona a sender tos = Some p" for p tos body
    using awaiting_pending [OF u that] by (intro lawful_settle u adopt_lawful) (simp add: membership_by_persona)
  have other: "lawful_account cs a (snd (settle sender (holds_request r) (adopt_and_apply body now) a))" for r body
    by (intro lawful_settle u adopt_lawful) (rule holdsD)
  have keep: "unique_memberships (snd (settle sender p (adopt_and_apply body now) a))" for p body
    by (intro settle_unique u effect_keys)
  show ?thesis unfolding status handle_join_status_response_def
    using u one other keep by (simp split: option.split)
next
  case (verdict m sender now)
  have "lawful_account cs a (snd (settle sender (holds_request r) (verdict_effect_on body now) a))" for r body
    by (intro lawful_settle u verdict_lawful) (rule holdsD)
  moreover have "unique_memberships (snd (settle sender p (verdict_effect_on body now) a))" for p body
    by (intro settle_unique u effect_keys)
  ultimately show ?thesis using u by (simp add: verdict handle_join_verdict_def split: option.split)
next
  case (error m sender now)
  have "lawful_account cs a (snd (settle sender (holds_request r) (error_effect js code detail now) a))" for r code detail
    by (intro lawful_settle u error_lawful) (rule holdsD)
  moreover have "unique_memberships (snd (settle sender p (error_effect js code detail now) a))" for p code detail
    by (intro settle_unique u effect_keys)
  ultimately show ?thesis using u by (simp add: error handle_join_trust_task_error_def split: option.split)
next
  case (removal m sender seen ours ty seen' t now body seen'')
  have "lawful_account cs a (snd (settle sender p (removal_effect js body persona) a))" for p persona
    by (intro lawful_settle u removal_lawful)
  moreover have "unique_memberships (snd (settle sender p (removal_effect js body persona) a))" for p persona
    by (intro settle_unique u lawful_key [where cs = cs and v = sender] removal_lawful)
  ultimately show ?thesis using u by (simp add: removal(1) handle_member_removal_notice_def split: option.split)
next
  case (profile m sender)
  have "filed a" using u by (simp add: unique_memberships_def)
  note buckets = profile_buckets [OF this, of m sender]
  have keys: "map fst (ac_communities b) = map fst (ac_communities a)"
    by (simp add: profile handle_community_profile_show_response_def Let_def comp_def case_prod_unfold)
  show ?thesis
    by (rule disjoinedI, rule lawful_mapped_step [OF keys _ _ u], unfold profile, rule buckets) (simp add: take_default_lawful)
next
  case (issued credential sender now v later)
  note v = verify_issued_credentialD [OF issued(2)]
  have lawful: "lawful cs sender c (snd (issue_effect kind v later c))"
    if "credential_issue_admissible cs a v sender = Inr (persona, kind)" for c persona kind
    using that v by (intro issue_lawful) (auto simp: credential_issue_admissible_def result_simps)
  have "lawful_account cs a (membership_mut sender persona (\<lambda>c. snd (issue_effect kind v later c)) a)"
    if "credential_issue_admissible cs a v sender = Inr (persona, kind)" for persona kind
    using lawful [OF that] by (intro lawful_membership_mut u)
  moreover have "unique_memberships (membership_mut sender persona (\<lambda>c. snd (issue_effect kind v later c)) a)" for persona kind
    unfolding membership_mut_def by (intro on_membership_unique u effect_keys)
  ultimately show ?thesis using u
    by (auto simp: issued(1) handle_credential_issue_def split: sum.split option.split)
next
  case (renewed doc sender ours now r later summary)
  note r = verify_renewal_responseD [OF renewed(1)]
  from renewed(2) obtain persona c where "membership a sender persona = Some c" "can_renew c"
      "b = membership_mut sender persona (renew_record r later) a"
    by (auto simp: apply_renewal_def result_simps)
  moreover from this have "lawful_account cs a (membership_mut sender persona (renew_record r later) a)"
    using r by (intro lawful_membership_mut u renew_lawful) auto
  moreover have "unique_memberships (membership_mut sender persona (renew_record r later) a)"
    unfolding membership_mut_def by (intro on_membership_unique u effect_keys)
  ultimately show ?thesis by simp
next
  case (noted vtc reason)
  have keys: "map fst (ac_communities b) = map fst (ac_communities a)"
    by (simp add: noted note_credential_refused_def)
  show ?thesis
    by (rule disjoinedI, rule lawful_mapped_step [OF keys _ _ u], unfold noted, rule note_buckets)
      (auto intro!: lawful_quiet simp: membership_key_def split: option.split)
next
  case (archived vtc persona)
  then have "b = membership_mut vtc persona (\<lambda>c. c\<lparr>cr_archived := True\<rparr>) a"
    by (auto simp: archive_membership_def result_simps)
  then show ?thesis by (simp add: lawful_mut_step [OF u quiet_ops(3)])
next
  case (deleted vtc persona c)
  then show ?thesis using deleted_lawful [OF u] deleted_unique [OF u] by blast
next
  case (released ctxt)
  have keys: "map fst (ac_communities b) = map fst (ac_communities a)"
    by (simp add: released release_context_def comp_def case_prod_unfold)
  show ?thesis
    by (rule disjoinedI, rule lawful_mapped_step [OF keys _ _ u], unfold released, rule release_buckets) (rule release_lawful)
next
  case (swept now timeout_for)
  have keys: "map fst (ac_communities b) = map fst (ac_communities a)"
    by (simp add: swept expire_stale_pending_with_def comp_def case_prod_unfold)
  show ?thesis
    by (rule disjoinedI, rule lawful_mapped_step [OF keys _ _ u], unfold swept, rule sweep_buckets) (rule expire_lawful)
qed (simp_all add: store_acknowledgement_def lawful_mut_step [OF u] leave_lawful withdraw_lawful quiet_ops)

section \<open>Members hold their credential\<close>

text \<open>Each record that is active, the looked up and the shadowed ones, and the operations on one record or on all of them.\<close>

definition members_proven :: "credential_sdk \<Rightarrow> account \<Rightarrow> bool" where
  "members_proven cs a \<longleftrightarrow>
     (\<forall>v. \<forall>c \<in> set (memberships_for a v). is_active (cr_status c) \<longrightarrow> proven_membership cs v c)"

definition backed :: "credential_sdk \<Rightarrow> vtc_did \<Rightarrow> community_record \<Rightarrow> community_record \<Rightarrow> bool" where
  "backed cs vtc c d \<longleftrightarrow>
     (is_active (cr_status d) \<longrightarrow> proven_membership cs vtc d \<or>
        (is_active (cr_status c) \<and> map_of (cr_credentials d) MembershipKind = map_of (cr_credentials c) MembershipKind))"

lemma lawful_backed: "lawful cs v c d \<Longrightarrow> backed cs v c d"
  by (simp add: lawful_def backed_def)

lemma backed_refl [simp]: "backed cs v c c"
  by (simp add: backed_def)

lemma adopt_backed: "backed cs v c (snd (adopt_and_apply body now c))"
  by (auto simp: backed_def adopt_and_apply_def status_effect_def record_credential_delivery_def record_ops case_prod_unfold Let_def
      split: option.split)

lemma proven_backed:
  "backed cs v c d \<Longrightarrow> is_active (cr_status c) \<longrightarrow> proven_membership cs v c \<Longrightarrow> is_active (cr_status d) \<longrightarrow> proven_membership cs v d"
  by (auto simp: backed_def proven_membership_def)

lemma proven_buckets:
  assumes "members_proven cs a"
    "\<And>v d. d \<in> set (memberships_for b v) \<Longrightarrow> is_active (cr_status d) \<Longrightarrow> \<exists>c \<in> set (memberships_for a v). backed cs v c d"
  shows "members_proven cs b"
  unfolding members_proven_def
proof (intro allI ballI impI)
  fix v d assume d: "d \<in> set (memberships_for b v)" "is_active (cr_status d)"
  from assms(2) [OF d] obtain c where c: "c \<in> set (memberships_for a v)" "backed cs v c d" by blast
  then have "is_active (cr_status c) \<longrightarrow> proven_membership cs v c" using assms(1) by (simp add: members_proven_def)
  from proven_backed [OF c(2) this] d(2) show "proven_membership cs v d" by blast
qed

lemma proven_on_membership:
  assumes "members_proven cs a" "\<And>c. List.find p (memberships_for a vtc) = Some c \<Longrightarrow> backed cs vtc c (f c)"
  shows "members_proven cs (on_membership vtc p f a)"
proof (rule proven_buckets [OF assms(1)])
  fix v d assume d: "d \<in> set (memberships_for (on_membership vtc p f a) v)"
  show "\<exists>c \<in> set (memberships_for a v). backed cs v c d"
  proof (cases "v = vtc")
    case True
    show ?thesis
    proof (cases "List.find p (memberships_for a vtc)")
      case None
      with d True show ?thesis by (auto simp: on_membership_for intro: bexI [of _ d])
    next
      case (Some c)
      from update_first_split [OF Some, of f] obtain us vs where l: "memberships_for a vtc = us @ c # vs"
        "update_first p f (memberships_for a vtc) = us @ f c # vs" by blast
      with d True have "d \<in> set us \<or> d = f c \<or> d \<in> set vs" by (simp add: on_membership_for) blast
      then consider "d = f c" | "d \<in> set (memberships_for a v)" using l(1) True by auto
      then show ?thesis
      proof cases
        case 1
        then show ?thesis using assms(2) [OF Some] l(1) True by auto
      next
        case 2
        then show ?thesis using backed_refl by blast
      qed
    qed
  qed (use d in \<open>auto simp: on_membership_for intro: bexI [of _ d]\<close>)
qed

lemma proven_membership_mut:
  "members_proven cs a \<Longrightarrow> (\<And>c. membership a vtc persona = Some c \<Longrightarrow> backed cs vtc c (f c)) \<Longrightarrow>
     members_proven cs (membership_mut vtc persona f a)"
  unfolding membership_mut_def by (rule proven_on_membership) (simp_all add: membership_def)

lemma proven_settle:
  "members_proven cs a \<Longrightarrow> (\<And>c. List.find p (memberships_for a vtc) = Some c \<Longrightarrow> backed cs vtc c (snd (effect c))) \<Longrightarrow>
     members_proven cs (snd (settle vtc p effect a))"
  by (auto simp: settle_def intro!: proven_on_membership split: option.split)

lemma proven_mapped:
  "members_proven cs a \<Longrightarrow> (\<And>v. memberships_for b v = map (g v) (memberships_for a v)) \<Longrightarrow> (\<And>v c. lawful cs v c (g v c)) \<Longrightarrow>
     members_proven cs b"
  by (rule proven_buckets) (auto intro!: bexI lawful_backed)

lemma deleted_subset:
  assumes "delete_membership vtc persona a = Inr (c, b)"
  shows "set (memberships_for b v) \<subseteq> set (memberships_for a v)"
proof -
  from assms obtain bucket where bucket: "map_of (ac_communities a) vtc = Some bucket"
    and b: "b = (let rest = remove_first (\<lambda>c. cr_persona_ref c = persona) bucket in
        if rest = [] then a\<lparr>ac_communities := AList.delete vtc (ac_communities a)\<rparr> else on_community vtc (\<lambda>_. rest) a)"
    by (auto simp: delete_membership_def result_simps Let_def)
  have "set (remove_first p cs) \<subseteq> set cs" for p and cs :: "community_record list" by (induction cs) auto
  then show ?thesis
    using bucket by (auto simp: b Let_def memberships_for_on_community) (auto simp: memberships_for_def delete_conv' split: if_splits option.splits)
qed

lemma members_proven_step:
  assumes step: "account_step js cs rsdk ds a b" and inv: "members_proven cs a"
  shows "members_proven cs b"
  using step
proof cases
  case (joins vtc persona name sub request now transport)
  then show ?thesis using inv
    by (auto simp: members_proven_def joins_bucket new_pending_def)
next
  case (receipt m sender now)
  then show ?thesis using inv
    by (auto simp: handle_join_submit_receipt_def intro!: proven_on_membership lawful_backed receipt_lawful dest: holdsD split: option.split)
next
  case (status m sender now)
  have "members_proven cs (snd (settle sender p (adopt_and_apply body now) a))" for p body
    using inv by (rule proven_settle) (rule adopt_backed)
  then show ?thesis using inv by (simp add: status handle_join_status_response_def split: option.split)
next
  case (verdict m sender now)
  have "members_proven cs (snd (settle sender (holds_request r) (verdict_effect_on body now) a))" for r body
    using inv by (rule proven_settle) (auto intro!: lawful_backed verdict_lawful dest: holdsD)
  then show ?thesis using inv by (simp add: verdict handle_join_verdict_def split: option.split)
next
  case (error m sender now)
  have "members_proven cs (snd (settle sender (holds_request r) (error_effect js code detail now) a))" for r code detail
    using inv by (rule proven_settle) (auto intro!: lawful_backed error_lawful dest: holdsD)
  then show ?thesis using inv by (simp add: error handle_join_trust_task_error_def split: option.split)
next
  case (removal m sender seen ours ty seen' t now body seen'')
  have "members_proven cs (snd (settle sender p (removal_effect js body persona) a))" for p persona
    using inv by (rule proven_settle) (intro lawful_backed removal_lawful)
  then show ?thesis using inv by (simp add: removal(1) handle_member_removal_notice_def split: option.split)
next
  case (profile m sender)
  show ?thesis
    by (rule proven_mapped [OF inv], unfold profile, rule profile_by_did) (simp add: take_default_lawful)
next
  case (issued credential sender now v later)
  note v = verify_issued_credentialD [OF issued(2)]
  have "members_proven cs (membership_mut sender persona (\<lambda>c. snd (issue_effect kind v later c)) a)"
    if "credential_issue_admissible cs a v sender = Inr (persona, kind)" for persona kind
    using inv by (rule proven_membership_mut)
      (use that v in \<open>intro lawful_backed issue_lawful; auto simp: credential_issue_admissible_def result_simps\<close>)
  then show ?thesis using inv by (auto simp: issued(1) handle_credential_issue_def split: sum.split option.split)
next
  case (renewed doc sender ours now r later summary)
  note r = verify_renewal_responseD [OF renewed(1)]
  from renewed(2) obtain persona c where c: "membership a sender persona = Some c" "can_renew c"
      "b = membership_mut sender persona (renew_record r later) a"
    by (auto simp: apply_renewal_def result_simps)
  have "members_proven cs (membership_mut sender persona (renew_record r later) a)"
    using inv by (rule proven_membership_mut) (use c r in \<open>intro lawful_backed renew_lawful; auto\<close>)
  with c(3) show ?thesis by simp
next
  case (noted vtc reason)
  show ?thesis
    by (rule proven_mapped [OF inv], unfold noted, rule note_buckets)
      (auto intro!: lawful_quiet simp: membership_key_def split: option.split)
next
  case (archived vtc persona)
  then have "b = membership_mut vtc persona (\<lambda>c. c\<lparr>cr_archived := True\<rparr>) a"
    by (auto simp: archive_membership_def result_simps)
  then show ?thesis using inv by (simp add: proven_membership_mut lawful_backed quiet_ops(3))
next
  case (deleted vtc persona c)
  from inv show ?thesis by (rule proven_buckets) (use deleted_subset [OF deleted] backed_refl in blast)
next
  case (swept now timeout_for)
  show ?thesis by (rule proven_mapped [OF inv], unfold swept, rule sweep_buckets) (rule expire_lawful)
next
  case (released ctxt)
  show ?thesis by (rule proven_mapped [OF inv], unfold released, rule release_buckets) (rule release_lawful)
qed (use inv in \<open>simp_all add: store_acknowledgement_def proven_membership_mut lawful_backed leave_lawful withdraw_lawful quiet_ops\<close>)

interpretation members: preserved "account_step js cs rsdk ds" "members_proven cs" for js cs rsdk ds
  by unfold_locales (rule members_proven_step)

end
