(* ===== verification/SortedMaps.thy ===== *)
theory SortedMaps
  imports Prelude "HOL-Library.Char_ord" "HOL-Library.List_Lexorder"
begin

text \<open>
  A \<open>BTreeMap\<close> as the list of its entries in key order, and a \<open>BTreeSet\<close> likewise: strings compare byte by byte. The
  map is read by \<open>map_of\<close>; \<open>put\<close> is \<open>insert\<close>, \<open>drop_key\<close> is \<open>remove\<close>, \<open>sorted_once\<close> collects a set (or sorts and
  dedups a vector).
\<close>

definition sorted_once :: "'a::linorder list \<Rightarrow> 'a list" where
  "sorted_once ss = remdups_adj (sort ss)"

fun put :: "'k::linorder \<Rightarrow> 'v \<Rightarrow> ('k \<times> 'v) list \<Rightarrow> ('k \<times> 'v) list" where
  "put k v [] = [(k, v)]"
| "put k v (e # m) =
     (if fst e < k then e # put k v m else (k, v) # (if fst e = k then m else e # m))"

definition drop_key :: "'k \<Rightarrow> ('k \<times> 'v) list \<Rightarrow> ('k \<times> 'v) list" where
  "drop_key k m = filter (\<lambda>e. fst e \<noteq> k) m"

definition in_order :: "('k::linorder \<times> 'v) list \<Rightarrow> bool" where
  "in_order m \<longleftrightarrow> sorted_wrt (<) (map fst m)"

definition put_all :: "('k::linorder \<times> 'v) list \<Rightarrow> ('k \<times> 'v) list \<Rightarrow> ('k \<times> 'v) list" where
  "put_all es m = fold (\<lambda>(k, v). put k v) es m"

definition put_option :: "'k::linorder \<Rightarrow> 'v option \<Rightarrow> ('k \<times> 'v) list \<Rightarrow> ('k \<times> 'v) list" where
  "put_option k v m = (case v of None \<Rightarrow> drop_key k m | Some x \<Rightarrow> put k x m)"

lemma set_sorted_once [simp]: "set (sorted_once ss) = set ss"
  by (simp add: sorted_once_def)

lemma sorted_once_strict: "sorted_wrt (<) (sorted_once ss)"
proof -
  have "sorted_wrt (<) (remdups_adj xs)" if "sorted xs" for xs :: "'a list"
    using that
  proof (induction xs rule: remdups_adj.induct)
    case (3 x y xs)
    then show ?case by (auto simp: less_le)
  qed auto
  then show ?thesis by (simp add: sorted_once_def)
qed

lemma distinct_sorted_once [simp]: "distinct (sorted_once ss)"
  using sorted_once_strict strict_sorted_iff by blast

lemma in_order_simps [simp]:
  "in_order []" "in_order (e # m) \<longleftrightarrow> (\<forall>k \<in> fst ` set m. fst e < k) \<and> in_order m"
  by (auto simp: in_order_def)

lemma in_order_distinct: "in_order m \<Longrightarrow> distinct (map fst m)"
  unfolding in_order_def using strict_sorted_iff by blast

lemma keys_put [simp]: "fst ` set (put k v m) = insert k (fst ` set m)"
  by (induction m) auto

lemma in_order_put: "in_order m \<Longrightarrow> in_order (put k v m)"
  by (induction m) (auto simp: not_less less_le)

lemma map_of_put [simp]: "map_of (put k v m) = (map_of m)(k \<mapsto> v)"
  by (induction m) auto

lemma map_of_drop_key [simp]: "map_of (drop_key k m) = (map_of m)(k := None)"
  by (induction m) (auto simp: drop_key_def)

lemma in_order_drop_key: "in_order m \<Longrightarrow> in_order (drop_key k m)"
  by (induction m) (auto simp: drop_key_def)

lemma map_of_put_option [simp]: "map_of (put_option k v m) = (map_of m)(k := v)"
  by (simp add: put_option_def split: option.split)

lemma in_order_put_option: "in_order m \<Longrightarrow> in_order (put_option k v m)"
  by (simp add: put_option_def in_order_put in_order_drop_key split: option.split)

lemma in_order_put_all: "in_order m \<Longrightarrow> in_order (put_all es m)"
  unfolding put_all_def by (induction es arbitrary: m) (auto simp: in_order_put)

lemma map_of_put_all: "map_of (put_all es m) = map_of m ++ map_of (rev es)"
  unfolding put_all_def
  by (induction es arbitrary: m) (auto simp: map_add_def fun_eq_iff split: option.splits)

text \<open>A map in key order is determined by its lookups.\<close>

lemma in_order_map_of:
  assumes "in_order m" "in_order m'" "map_of m = map_of m'"
  shows "m = m'"
proof -
  have "set m = set m'"
    using assms by (metis in_order_distinct map_of_eq_Some_iff subset_antisym subrelI)
  with assms(1,2) show ?thesis
  proof (induction m arbitrary: m')
    case (Cons e m)
    from Cons.prems obtain e' n where m': "m' = e' # n" by (cases m') auto
    have "e = e'"
    proof (rule ccontr)
      assume "e \<noteq> e'"
      with Cons.prems m' have "e \<in> set n" "e' \<in> set m" by auto
      with Cons.prems m' have "fst e' < fst e" "fst e < fst e'" by auto
      then show False by simp
    qed
    moreover from this Cons.prems m' have "set m = set n" by (auto simp: insert_ident)
    ultimately show ?case using Cons m' by auto
  qed simp
qed

lemma map_of_map_keys: "map_of (map (\<lambda>k. (k, f k)) ks) k = (if k \<in> set ks then Some (f k) else None)"
  by (induction ks) auto

lemma map_of_in_order_mem: "in_order m \<Longrightarrow> map_of m k = Some v \<longleftrightarrow> (k, v) \<in> set m"
  by (simp add: in_order_distinct)

end
