(* ===== verification/Merge.thy ===== *)
theory Merge
  imports Wire SortedMaps
begin

text \<open>
  The three-way merge of one record's JSON (\<open>openvtc-core/src/vta_sync/merge.rs\<close>), and what it keeps of the two sides'
  edits. \<open>serde_json\<close> keeps an object's members in key order: the values here are the \<open>json_ordered\<close> ones.
\<close>

section \<open>Ordered values\<close>

fun json_ordered :: "json \<Rightarrow> bool" where
  "json_ordered (JObject ms) \<longleftrightarrow> in_order ms \<and> list_all (\<lambda>e. json_ordered (snd e)) ms"
| "json_ordered (JArray vs) \<longleftrightarrow> list_all json_ordered vs"
| "json_ordered _ \<longleftrightarrow> True"

abbreviation ordered :: "json option \<Rightarrow> bool" where
  "ordered v \<equiv> (\<forall>x. v = Some x \<longrightarrow> json_ordered x)"

definition value_size :: "json option \<Rightarrow> nat" where
  "value_size v = (case v of None \<Rightarrow> 0 | Some x \<Rightarrow> Suc (size x))"

lemma value_size_member: "value_size (map_of ms k) < value_size (Some (JObject ms))"
proof (cases "map_of ms k")
  case (Some v)
  then have "(k, v) \<in> set ms" by (rule map_of_SomeD)
  from size_list_estimation' [OF this, of "Suc (size v)" "size_prod (\<lambda>_. 0) size"]
  show ?thesis using Some by (simp add: value_size_def)
qed (simp add: value_size_def)

section \<open>The merge\<close>

text \<open>
  \<open>None\<close> is a record, or a member, that is not there. The conflicts are the paths pushed on the code's vector, in its
  order. The members of a base that is not an object are none.
\<close>

fun members :: "json option \<Rightarrow> (string \<times> json) list" where
  "members (Some (JObject ms)) = ms"
| "members _ = []"

fun both_objects :: "json option \<Rightarrow> json option \<Rightarrow> ((string \<times> json) list \<times> (string \<times> json) list) option" where
  "both_objects (Some (JObject l)) (Some (JObject r)) = Some (l, r)"
| "both_objects _ _ = None"

definition member_keys :: "(string \<times> json) list \<Rightarrow> (string \<times> json) list \<Rightarrow> string list" where
  "member_keys l r = sorted_once (map fst l @ map fst r)"

function merge3 :: "json option \<Rightarrow> json option \<Rightarrow> json option \<Rightarrow> string \<Rightarrow> json option \<times> string list" where
  "merge3 base here there path =
     (if here = there then (here, [])
      else if base = here then (there, [])
      else if base = there then (here, [])
      else case both_objects here there of
             Some (l, r) \<Rightarrow>
               let merged = map (\<lambda>k. (k, merge3 (map_of (members base) k) (map_of l k) (map_of r k) (path @ ''/'' @ k)))
                              (member_keys l r)
               in (Some (JObject (concat (map (\<lambda>(k, v, _). case v of None \<Rightarrow> [] | Some x \<Rightarrow> [(k, x)]) merged))),
                   concat (map (\<lambda>(_, _, cs). cs) merged))
           | None \<Rightarrow> (there, [if path = [] then ''/'' else path]))"
  by pat_completeness auto

lemma both_objects_Some [simp]:
  "both_objects a b = Some (l, r) \<longleftrightarrow> a = Some (JObject l) \<and> b = Some (JObject r)"
  by (induction a b rule: both_objects.induct) auto

termination merge3
  by (relation "measure (\<lambda>(_, here, _, _). value_size here)") (auto simp: value_size_member)

declare merge3.simps [simp del]


lemma merge3_same [simp]: "merge3 base v v path = (v, [])"
  by (simp add: merge3.simps)

lemma merge3_here_unchanged [simp]: "merge3 v v there path = (there, [])"
  by (simp add: merge3.simps)

lemma merge3_there_unchanged [simp]: "merge3 v here v path = (here, [])"
  by (simp add: merge3.simps)

lemma merge3_clash:
  "here \<noteq> there \<Longrightarrow> base \<noteq> here \<Longrightarrow> base \<noteq> there \<Longrightarrow> both_objects here there = None \<Longrightarrow>
     merge3 base here there path = (there, [if path = [] then ''/'' else path])"
  by (simp add: merge3.simps)

definition merged_member ::
  "json option \<Rightarrow> (string \<times> json) list \<Rightarrow> (string \<times> json) list \<Rightarrow> string \<Rightarrow> string \<Rightarrow> json option \<times> string list" where
  "merged_member base l r path k = merge3 (map_of (members base) k) (map_of l k) (map_of r k) (path @ ''/'' @ k)"

definition merged_object :: "json option \<Rightarrow> (string \<times> json) list \<Rightarrow> (string \<times> json) list \<Rightarrow> string \<Rightarrow> (string \<times> json) list" where
  "merged_object base l r path =
     concat (map (\<lambda>k. case fst (merged_member base l r path k) of None \<Rightarrow> [] | Some x \<Rightarrow> [(k, x)]) (member_keys l r))"

lemma merge3_objects:
  assumes "l \<noteq> r" "base \<noteq> Some (JObject l)" "base \<noteq> Some (JObject r)"
  shows "merge3 base (Some (JObject l)) (Some (JObject r)) path =
    (Some (JObject (merged_object base l r path)),
     concat (map (\<lambda>k. snd (merged_member base l r path k)) (member_keys l r)))"
  using assms
  by (subst merge3.simps)
    (simp add: Let_def merged_object_def merged_member_def comp_def case_prod_unfold cong: if_cong option.case_cong)

lemma map_of_pick:
  "distinct ks \<Longrightarrow>
     map_of (concat (map (\<lambda>k. case f k of None \<Rightarrow> [] | Some x \<Rightarrow> [(k, x)]) ks)) k = (if k \<in> set ks then f k else None)"
  by (induction ks) (auto split: option.split)

lemma keys_pick: "fst ` set (concat (map (\<lambda>k. case f k of None \<Rightarrow> [] | Some x \<Rightarrow> [(k, x)]) ks)) \<subseteq> set ks"
  by (induction ks) (auto split: option.splits)

lemma in_order_pick:
  "sorted_wrt (<) ks \<Longrightarrow> in_order (concat (map (\<lambda>k. case f k of None \<Rightarrow> [] | Some x \<Rightarrow> [(k, x)]) ks))"
proof (induction ks)
  case (Cons k ks)
  moreover have "\<forall>k' \<in> fst ` set (concat (map (\<lambda>k. case f k of None \<Rightarrow> [] | Some x \<Rightarrow> [(k, x)]) ks)). k < k'"
    using keys_pick [of f ks] Cons.prems by auto
  ultimately show ?case by (auto split: option.split)
qed simp

lemma set_member_keys [simp]: "set (member_keys l r) = fst ` set l \<union> fst ` set r"
  by (simp add: member_keys_def)

lemma member_keys_strict: "sorted_wrt (<) (member_keys l r)" "distinct (member_keys l r)"
  by (simp_all add: member_keys_def sorted_once_strict)

lemma member_keys_sym: "member_keys l r = member_keys r l"
  using member_keys_strict [of l r] member_keys_strict [of r l]
  by (intro sorted_distinct_set_unique) (auto simp: strict_sorted_iff)

lemma merged_member_absent: "k \<notin> set (member_keys l r) \<Longrightarrow> merged_member base l r path k = (None, [])"
  by (simp add: merged_member_def map_of_eq_None_iff [THEN iffD2])

lemma map_of_merged: "map_of (merged_object base l r path) k = fst (merged_member base l r path k)"
  unfolding merged_object_def map_of_pick [OF member_keys_strict(2)] using merged_member_absent by simp

lemma in_order_merged: "in_order (merged_object base l r path)"
  unfolding merged_object_def by (rule in_order_pick) (rule member_keys_strict)

section \<open>Values at a path\<close>

fun at :: "json option \<Rightarrow> string list \<Rightarrow> json option" where
  "at v [] = v"
| "at v (k # q) = at (jmember k v) q"

fun is_object :: "json option \<Rightarrow> bool" where
  "is_object (Some (JObject _)) = True"
| "is_object _ = False"

definition shown_path :: "string \<Rightarrow> string list \<Rightarrow> string" where
  "shown_path path q = path @ concat (map (\<lambda>k. ''/'' @ k) q)"

definition reported :: "string \<Rightarrow> string list \<Rightarrow> string" where
  "reported path q = (if shown_path path q = [] then ''/'' else shown_path path q)"

lemma reported_simps [simp]:
  "reported path [] = (if path = [] then ''/'' else path)"
  "reported path (k # q) = reported (path @ ''/'' @ k) q"
  by (simp_all add: reported_def shown_path_def)

lemma members_jmember: "map_of (members v) k = jmember k v"
  by (cases v rule: members.cases) (auto simp: jmember_def)

lemma is_object_iff: "is_object v \<longleftrightarrow> (\<exists>ms. v = Some (JObject ms))"
  by (cases v rule: is_object.cases) auto

text \<open>Between objects the merge is one of their members, whatever the base is.\<close>

lemma merge3_member:
  assumes "is_object here" "is_object there"
  shows "jmember k (fst (merge3 base here there path)) =
      fst (merge3 (jmember k base) (jmember k here) (jmember k there) (path @ ''/'' @ k))"
    "set (snd (merge3 (jmember k base) (jmember k here) (jmember k there) (path @ ''/'' @ k)))
      \<subseteq> set (snd (merge3 base here there path))"
proof -
  obtain l r where lr: "here = Some (JObject l)" "there = Some (JObject r)"
    using assms by (auto simp: is_object_iff)
  have "jmember k (fst (merge3 base here there path)) =
      fst (merge3 (jmember k base) (jmember k here) (jmember k there) (path @ ''/'' @ k)) \<and>
    set (snd (merge3 (jmember k base) (jmember k here) (jmember k there) (path @ ''/'' @ k)))
      \<subseteq> set (snd (merge3 base here there path))"
  proof (cases "here = there \<or> base = here \<or> base = there")
    case False
    have member: "merge3 (jmember k base) (jmember k here) (jmember k there) (path @ ''/'' @ k) = merged_member base l r path k"
      by (simp add: merged_member_def members_jmember lr) (simp add: jmember_def)
    have "set (snd (merged_member base l r path k)) \<subseteq> (\<Union>k' \<in> set (member_keys l r). set (snd (merged_member base l r path k')))"
      by (cases "k \<in> set (member_keys l r)") (auto simp: merged_member_absent)
    with False lr show ?thesis
      unfolding member by (simp add: merge3_objects jmember_def map_of_merged)
  qed auto
  then show "jmember k (fst (merge3 base here there path)) =
      fst (merge3 (jmember k base) (jmember k here) (jmember k there) (path @ ''/'' @ k))"
    "set (snd (merge3 (jmember k base) (jmember k here) (jmember k there) (path @ ''/'' @ k)))
      \<subseteq> set (snd (merge3 base here there path))" by simp_all
qed

lemma merge3_objects_object:
  assumes "is_object here" "is_object there"
  shows "is_object (fst (merge3 base here there path))"
proof -
  obtain l r where "here = Some (JObject l)" "there = Some (JObject r)"
    using assms by (auto simp: is_object_iff)
  then show ?thesis
    by (cases "here = there \<or> base = here \<or> base = there") (auto simp: merge3_objects)
qed

lemma merge3_cases:
  obtains "here = there" | "here \<noteq> there" "base = here" | "here \<noteq> there" "base = there"
  | "is_object here" "is_object there"
  | "here \<noteq> there" "base \<noteq> here" "base \<noteq> there" "merge3 base here there path = (there, [reported path []])"
proof (cases "both_objects here there")
  case None
  then show ?thesis using that merge3_clash by fastforce
next
  case (Some p)
  then show ?thesis using that by (cases p) auto
qed

section \<open>The merge, path by path\<close>

text \<open>Where a merge finds a conflict: both sides changed the value, differently, and not inside two objects.\<close>

fun clash :: "json option \<Rightarrow> json option \<Rightarrow> json option \<Rightarrow> string list \<Rightarrow> bool" where
  "clash base here there [] \<longleftrightarrow>
     here \<noteq> there \<and> base \<noteq> here \<and> base \<noteq> there \<and> \<not> (is_object here \<and> is_object there)"
| "clash base here there (k # q) \<longleftrightarrow>
     is_object here \<and> is_object there \<and> clash (jmember k base) (jmember k here) (jmember k there) q"

definition clash_above :: "json option \<Rightarrow> json option \<Rightarrow> json option \<Rightarrow> string list \<Rightarrow> bool" where
  "clash_above base here there q \<longleftrightarrow> (\<exists>q1 q2. q = q1 @ q2 \<and> clash base here there q1)"

lemma clash_above_Nil [simp]: "clash_above base here there [] \<longleftrightarrow> clash base here there []"
  by (simp add: clash_above_def)

lemma clash_above_Cons [simp]:
  "clash_above base here there (k # q) \<longleftrightarrow> clash base here there [] \<or>
     is_object here \<and> is_object there \<and> clash_above (jmember k base) (jmember k here) (jmember k there) q"
proof -
  have "(\<exists>q1 q2. k # q = q1 @ q2 \<and> P q1) \<longleftrightarrow> P [] \<or> (\<exists>q1 q2. q = q1 @ q2 \<and> P (k # q1))" for P :: "string list \<Rightarrow> bool"
    by (simp add: Cons_eq_append_conv ex_disj_distrib conj_disj_distribR) blast
  from this [of "clash base here there"] show ?thesis unfolding clash_above_def by (auto simp del: clash.simps(1))
qed

lemma no_clash:
  "\<not> clash v v there q" "\<not> clash base v v q" "\<not> clash v here v q"
proof -
  show "\<not> clash v v there q" by (induction q arbitrary: v there) auto
  show "\<not> clash base v v q" by (induction q arbitrary: v base) auto
  show "\<not> clash v here v q" by (induction q arbitrary: v here) auto
qed

lemma no_clash_above:
  "\<not> clash_above v v there q" "\<not> clash_above base v v q" "\<not> clash_above v here v q"
  by (auto simp: clash_above_def no_clash)

lemma merge3_root:
  obtains "here = there" | "here \<noteq> there" "base = here" | "here \<noteq> there" "base = there"
  | "is_object here" "is_object there"
  | "clash base here there []" "fst (merge3 base here there path) = there"
proof (cases rule: merge3_cases [where here = here and there = there and base = base and path = path])
  case 5
  then show ?thesis using that by (cases "is_object here \<and> is_object there") auto
qed (use that in blast)+

lemma merge3_at:
  "\<not> (is_object (at here q) \<and> is_object (at there q)) \<Longrightarrow>
     at (fst (merge3 base here there path)) q =
       (if at there q = at base q \<and> \<not> clash_above base here there q then at here q else at there q)"
proof (induction q arbitrary: base here there path)
  case Nil
  show ?case
    by (cases rule: merge3_root [where here = here and there = there and base = base and path = path]) (use Nil in auto)
next
  case (Cons k q)
  show ?case
  proof (cases rule: merge3_root [where here = here and there = there and base = base and path = path])
    case 4
    then have "\<not> clash base here there []" by simp
    with 4 Cons show ?thesis by (simp add: merge3_member(1))
  next
    case 5
    then have "clash_above base here there (k # q)" by simp
    with 5(2) show ?thesis by (simp del: clash_above_Cons)
  qed (use no_clash_above in \<open>auto simp del: clash_above_Cons\<close>)
qed

lemma merge3_structure:
  "is_object (at here q) \<Longrightarrow> is_object (at there q) \<Longrightarrow> is_object (at (fst (merge3 base here there path)) q)"
proof (induction q arbitrary: base here there path)
  case Nil
  then show ?case by (simp add: merge3_objects_object)
next
  case (Cons k q)
  show ?case
    by (cases rule: merge3_root [where here = here and there = there and base = base and path = path])
      (use Cons in \<open>simp_all add: merge3_member(1)\<close>)
qed

lemma merge3_conflicts:
  "set (snd (merge3 base here there path)) = {reported path q |q. clash base here there q}"
proof (induction base here there path rule: merge3.induct)
  case (1 base here there path)
  show ?case
  proof (cases "here = there \<or> base = here \<or> base = there")
    case True
    then show ?thesis by (auto simp: no_clash)
  next
    case False
    show ?thesis
    proof (cases "both_objects here there")
      case None
      then have "\<not> (is_object here \<and> is_object there)" by (auto simp: is_object_iff)
      then have "clash base here there q \<longleftrightarrow> q = []" for q using False by (cases q) auto
      with None False show ?thesis by (simp add: merge3_clash)
    next
      case (Some p)
      then obtain l r where lr: "here = Some (JObject l)" "there = Some (JObject r)" "p = (l, r)"
        by (cases p) auto
      have parts: "set (snd (merged_member base l r path k)) =
          {reported path (k # q) |q. clash base here there (k # q)}" for k
      proof (cases "k \<in> set (member_keys l r)")
        case True
        with 1 [OF _ _ _ Some lr(3) [symmetric]] False
        have "set (snd (merge3 (map_of (members base) k) (map_of l k) (map_of r k) (path @ ''/'' @ k))) =
           {reported (path @ ''/'' @ k) q |q. clash (map_of (members base) k) (map_of l k) (map_of r k) q}" by blast
        then show ?thesis by (simp add: merged_member_def lr members_jmember) (simp add: jmember_def)
      next
        case False
        then have "jmember k here = None" "jmember k there = None" by (auto simp: lr jmember_def map_of_eq_None_iff)
        with False show ?thesis by (simp add: merged_member_absent no_clash)
      qed
      have only: "k \<in> set (member_keys l r)" if "clash base here there (k # q)" for k q
      proof (rule ccontr)
        assume "k \<notin> set (member_keys l r)"
        then have "jmember k here = None" "jmember k there = None" by (auto simp: lr jmember_def map_of_eq_None_iff)
        with that show False by (simp add: no_clash)
      qed
      have none: "\<not> clash base here there []" by (simp add: lr)
      have split: "clash base here there q \<longleftrightarrow> (\<exists>k q'. q = k # q' \<and> clash base here there (k # q'))" for q
        using none by (cases q) (simp_all del: clash.simps)
      have all: "set (snd (merge3 base here there path)) = (\<Union>k \<in> set (member_keys l r). set (snd (merged_member base l r path k)))"
        using False lr by (simp add: merge3_objects)
      show ?thesis
      proof (intro set_eqI iffI)
        fix x assume "x \<in> set (snd (merge3 base here there path))"
        then show "x \<in> {reported path q |q. clash base here there q}" unfolding all parts by blast
      next
        fix x assume "x \<in> {reported path q |q. clash base here there q}"
        then obtain q where q: "x = reported path q" "clash base here there q" by blast
        from q(2) obtain k q' where "q = k # q'" "clash base here there (k # q')" using split by blast
        with q(1) only show "x \<in> set (snd (merge3 base here there path))" unfolding all parts by blast
      qed
    qed
  qed
qed

section \<open>Ordered results, and two sides in either order\<close>

lemma in_order_list_all: "in_order ms \<Longrightarrow> list_all (\<lambda>e. p (snd e)) ms \<longleftrightarrow> (\<forall>k v. map_of ms k = Some v \<longrightarrow> p v)"
  by (auto simp: list_all_iff map_of_in_order_mem)

lemma json_ordered_object:
  "json_ordered (JObject ms) \<longleftrightarrow> in_order ms \<and> (\<forall>k v. map_of ms k = Some v \<longrightarrow> json_ordered v)"
  using in_order_list_all by auto

declare json_ordered.simps(1) [simp del]

lemma merge3_ordered: "ordered here \<Longrightarrow> ordered there \<Longrightarrow> ordered (fst (merge3 base here there path))"
proof (induction base here there path rule: merge3.induct)
  case (1 base here there path)
  show ?case
  proof (cases "here = there \<or> base = here \<or> base = there")
    case False
    show ?thesis
    proof (cases "both_objects here there")
      case None
      with False 1 show ?thesis by (simp add: merge3_clash)
    next
      case (Some p)
      then obtain l r where lr: "here = Some (JObject l)" "there = Some (JObject r)" "p = (l, r)"
        by (cases p) auto
      have "ordered (fst (merged_member base l r path k))" for k
      proof (cases "k \<in> set (member_keys l r)")
        case True
        have "ordered (map_of l k)" "ordered (map_of r k)"
          using 1(2,3) lr(1,2) by (simp_all add: json_ordered_object)
        with 1(1) [OF _ _ _ Some lr(3) [symmetric]] False True show ?thesis
          unfolding merged_member_def by (metis lr(3))
      qed (simp add: merged_member_absent)
      then show ?thesis using False lr
        by (simp add: merge3_objects json_ordered_object in_order_merged map_of_merged)
    qed
  qed (use 1 in auto)
qed

lemma merge3_quiet_sym:
  "snd (merge3 base here there path) = [] \<Longrightarrow> merge3 base there here path = merge3 base here there path"
proof (induction base here there path rule: merge3.induct)
  case (1 base here there path)
  show ?case
  proof (cases "here = there \<or> base = here \<or> base = there")
    case False
    show ?thesis
    proof (cases "both_objects here there")
      case None
      with False 1(2) show ?thesis by (simp add: merge3_clash split: if_splits)
    next
      case (Some p)
      then obtain l r where lr: "here = Some (JObject l)" "there = Some (JObject r)" "p = (l, r)"
        by (cases p) auto
      have "merged_member base r l path k = merged_member base l r path k" if "k \<in> set (member_keys l r)" for k
        using 1 that False Some lr by (simp add: merged_member_def merge3_objects)
      then have "merged_object base r l path = merged_object base l r path"
        "map (\<lambda>k. snd (merged_member base r l path k)) (member_keys r l) = map (\<lambda>k. snd (merged_member base l r path k)) (member_keys l r)"
        unfolding merged_object_def member_keys_sym [of r l]
        by (auto simp: map_eq_conv intro!: arg_cong [of _ _ concat])
      with False lr show ?thesis by (auto simp: merge3_objects)
    qed
  qed auto
qed

end
