(* ===== verification/SyncRecords.thy ===== *)
theory SyncRecords
  imports Merge Messaging Book
begin

text \<open>
  The account as records of the VTA's application-state store, and back (\<open>openvtc-core/src/vta_sync/records.rs\<close>):
  \<open>project\<close> turns the synced parts of the configuration into one JSON value per record key, \<open>apply_record\<close> writes one
  value, or its deletion, back. The encodings of single items (\<open>serde\<close>) and SHA-256 are the fields of \<open>sync_codec\<close>;
  that of a credential store, whose decoding is written out in \<open>vrc.rs\<close>, is modelled.
\<close>

section \<open>Data\<close>

record contact =
  co_did :: string
  co_alias :: "string option"

record cached_agent_name =
  cn_name :: "string option"
  cn_checked_at :: instant

datatype key_source = Derived string | Imported string | VtaManaged string

record key_info =
  ki_path :: key_source
  ki_create_time :: instant
  ki_purpose :: key_types

record witnessed =
  wi_session_id :: string
  wi_credential_id :: string
  wi_witness :: string
  wi_vwc_digest :: string
  wi_evidence :: json

record witness_record =
  wn_remote_p_did :: string
  wn_relationship_did :: string
  wn_witnessed_at :: instant
  wn_witnessed :: witnessed

text \<open>\<open>SyncParts\<close>: the live account, what is synced of the protected tier, and the key references.\<close>

record sync_parts =
  sp_account :: account
  sp_relationships :: relationships
  sp_contacts :: "(string \<times> contact) list"
  sp_aliases :: "(string \<times> contact) list"
  sp_agent_names :: "(string \<times> cached_agent_name) list"
  sp_tsp :: "(string \<times> string) list"
  sp_vrcs_issued :: vrcs
  sp_vrcs_received :: vrcs
  sp_vetting :: vetting_book
  sp_witnessings :: "witness_record list"
  sp_key_info :: "(string \<times> key_info) list"

text \<open>
  \<open>serde_json::to_value\<close> and \<open>from_value\<close> of the item types, the hex of SHA-256, a UUID's text and JSON, the text
  of a value, and \<open>VetterPolicy::default\<close>, which names documentation types of the SDK.
\<close>

record sync_codec =
  sy_hex_sha256 :: "string \<Rightarrow> string"
  sy_uuid :: "persona_id \<Rightarrow> string"
  sy_uuid_json :: "persona_id \<Rightarrow> json option"
  sy_text :: "json \<Rightarrow> string"
  sy_policy :: vetter_policy
  enc_persona :: "persona_record \<Rightarrow> json option"
  dec_persona :: "json \<Rightarrow> string + persona_record"
  enc_member :: "community_record \<Rightarrow> json option"
  dec_member :: "json \<Rightarrow> string + community_record"
  enc_relation :: "peer_relationship \<Rightarrow> json option"
  dec_relation :: "json \<Rightarrow> string + peer_relationship"
  enc_contact :: "contact \<Rightarrow> json option"
  dec_contact :: "json \<Rightarrow> string + contact"
  enc_name :: "cached_agent_name \<Rightarrow> json option"
  dec_name :: "json \<Rightarrow> string + cached_agent_name"
  enc_vrc :: "dtg_credential \<Rightarrow> json"
  dec_vrc :: "json \<Rightarrow> string + dtg_credential"
  enc_key :: "key_info \<Rightarrow> json option"
  dec_key :: "json \<Rightarrow> string + key_info"
  enc_book :: "vetting_book \<Rightarrow> json option"
  dec_book :: "json \<Rightarrow> string + vetting_book"
  enc_witness :: "witness_record \<Rightarrow> json option"
  dec_witness :: "json \<Rightarrow> string + witness_record"

section \<open>Kinds and keys\<close>

datatype record_kind =
    SyncPersona | SyncMembership | SyncRelationship | SyncContact | SyncAgentName | SyncTsp
  | SyncVrcIssued | SyncVrcReceived | SyncKey | SyncVetting | SyncWitnessing

definition all_kinds :: "record_kind list" where
  "all_kinds = [SyncPersona, SyncMembership, SyncRelationship, SyncContact, SyncAgentName, SyncTsp,
     SyncVrcIssued, SyncVrcReceived, SyncKey, SyncVetting, SyncWitnessing]"

fun kind_prefix :: "record_kind \<Rightarrow> string" where
  "kind_prefix SyncPersona = ''v1/persona/''"
| "kind_prefix SyncMembership = ''v1/membership/''"
| "kind_prefix SyncRelationship = ''v1/relationship/''"
| "kind_prefix SyncContact = ''v1/contact/''"
| "kind_prefix SyncAgentName = ''v1/agent-name/''"
| "kind_prefix SyncTsp = ''v1/tsp/''"
| "kind_prefix SyncVrcIssued = ''v1/vrc-issued/''"
| "kind_prefix SyncVrcReceived = ''v1/vrc-received/''"
| "kind_prefix SyncKey = ''v1/key/''"
| "kind_prefix SyncVetting = ''v1/vetting''"
| "kind_prefix SyncWitnessing = ''v1/witnessing/''"

definition of_key :: "string \<Rightarrow> record_kind option" where
  "of_key key = List.find (\<lambda>kd. starts_with (kind_prefix kd) key) all_kinds"

fun kind_applies_live :: "record_kind \<Rightarrow> bool" where
  "kind_applies_live SyncMembership = True"
| "kind_applies_live SyncContact = True"
| "kind_applies_live SyncAgentName = True"
| "kind_applies_live SyncVrcIssued = True"
| "kind_applies_live SyncVrcReceived = True"
| "kind_applies_live SyncWitnessing = True"
| "kind_applies_live _ = False"

fun kind_noun :: "record_kind \<Rightarrow> string" where
  "kind_noun SyncPersona = ''persona''"
| "kind_noun SyncMembership = ''community membership''"
| "kind_noun SyncRelationship = ''relationship''"
| "kind_noun SyncContact = ''contact''"
| "kind_noun SyncAgentName = ''agent name''"
| "kind_noun SyncTsp = ''TSP relationship''"
| "kind_noun SyncVrcIssued = ''relationship credential''"
| "kind_noun SyncVrcReceived = ''relationship credential''"
| "kind_noun SyncKey = ''key reference''"
| "kind_noun SyncVetting = ''vetting state''"
| "kind_noun SyncWitnessing = ''witnessing''"

text \<open>The first 16 bytes of the hash, in hex.\<close>

definition key_segment :: "sync_codec \<Rightarrow> string \<Rightarrow> string" where
  "key_segment cd i = take 32 (sy_hex_sha256 cd i)"

definition persona_sync_key :: "sync_codec \<Rightarrow> persona_record \<Rightarrow> string" where
  "persona_sync_key cd p = kind_prefix SyncPersona @ sy_uuid cd (pr_persona_id p)"

definition member_sync_key :: "sync_codec \<Rightarrow> community_record \<Rightarrow> string" where
  "member_sync_key cd m = kind_prefix SyncMembership @ key_segment cd (cr_vtc_did m) @ ''/'' @ sy_uuid cd (cr_persona_ref m)"

definition simple_key :: "sync_codec \<Rightarrow> record_kind \<Rightarrow> string \<Rightarrow> string" where
  "simple_key cd kd i = kind_prefix kd @ key_segment cd i"

definition witnessing_key :: "sync_codec \<Rightarrow> witness_record \<Rightarrow> string" where
  "witnessing_key cd r = simple_key cd SyncWitnessing (wi_session_id (wn_witnessed r))"

definition vrc_sync_key :: "sync_codec \<Rightarrow> record_kind \<Rightarrow> string \<Rightarrow> string \<Rightarrow> string" where
  "vrc_sync_key cd kd remote i = kind_prefix kd @ key_segment cd remote @ ''/'' @ key_segment cd i"

section \<open>Projection\<close>

fun is_vta_managed :: "key_info \<Rightarrow> bool" where
  "is_vta_managed k = (case ki_path k of VtaManaged _ \<Rightarrow> True | _ \<Rightarrow> False)"

text \<open>The entries one item contributes, if it serialises.\<close>

definition entry_of :: "string \<Rightarrow> json option \<Rightarrow> (string \<times> json) list" where
  "entry_of key v = (case v of None \<Rightarrow> [] | Some x \<Rightarrow> [(key, x)])"

fun strip_application :: "json \<Rightarrow> json" where
  "strip_application (JObject ms) = JObject (drop_key ''hidden_state'' (drop_key ''hidden_app'' ms))"
| "strip_application v = v"

definition strip_applications :: "(string \<times> json) list \<Rightarrow> (string \<times> json) list" where
  "strip_applications ms =
     (case map_of ms ''applications'' of
        Some (JArray vs) \<Rightarrow> put ''applications'' (JArray (map strip_application vs)) ms
      | _ \<Rightarrow> ms)"

definition vetting_json :: "sync_codec \<Rightarrow> vetting_book \<Rightarrow> json option" where
  "vetting_json cd b =
     (case enc_book cd b of
        Some (JObject ms) \<Rightarrow>
          (let ms = strip_applications (drop_key ''pcs_inbox'' (drop_key ''hidden_vetter'' ms))
           in if ms = [] then None else Some (JObject ms))
      | v \<Rightarrow> v)"

definition persona_entries :: "sync_codec \<Rightarrow> account \<Rightarrow> (string \<times> json) list" where
  "persona_entries cd a = concat (map (\<lambda>(_, p). entry_of (persona_sync_key cd p) (enc_persona cd p)) (ac_personas a))"

definition member_entries :: "sync_codec \<Rightarrow> account \<Rightarrow> (string \<times> json) list" where
  "member_entries cd a = concat (map (\<lambda>m. entry_of (member_sync_key cd m) (enc_member cd m)) (memberships a))"

definition relation_record :: "sync_codec \<Rightarrow> string \<Rightarrow> peer_relationship \<Rightarrow> json option" where
  "relation_record cd did r =
     map_option (\<lambda>v. JObject [(''pDid'', JString did), (''relationship'', v)]) (enc_relation cd r)"

definition relation_entries :: "sync_codec \<Rightarrow> relationships \<Rightarrow> (string \<times> json) list" where
  "relation_entries cd rs =
     concat (map (\<lambda>(did, r). entry_of (simple_key cd SyncRelationship did) (relation_record cd did r)) (rs_map rs))"

definition contact_entries :: "sync_codec \<Rightarrow> (string \<times> contact) list \<Rightarrow> (string \<times> json) list" where
  "contact_entries cd cs = concat (map (\<lambda>(_, c). entry_of (simple_key cd SyncContact (co_did c)) (enc_contact cd c)) cs)"

definition name_record :: "sync_codec \<Rightarrow> string \<Rightarrow> cached_agent_name \<Rightarrow> json option" where
  "name_record cd did e =
     (if cn_name e = None then None
      else map_option (\<lambda>v. JObject [(''did'', JString did), (''entry'', v)]) (enc_name cd e))"

definition name_entries :: "sync_codec \<Rightarrow> (string \<times> cached_agent_name) list \<Rightarrow> (string \<times> json) list" where
  "name_entries cd ns = concat (map (\<lambda>(did, e). entry_of (simple_key cd SyncAgentName did) (name_record cd did e)) ns)"

definition tsp_entries :: "sync_codec \<Rightarrow> (string \<times> string) list \<Rightarrow> (string \<times> json) list" where
  "tsp_entries cd ts =
     map (\<lambda>(k, v). (simple_key cd SyncTsp k, JObject [(''key'', JString k), (''value'', JString v)])) ts"

definition vrc_value :: "sync_codec \<Rightarrow> string \<Rightarrow> string \<Rightarrow> dtg_credential \<Rightarrow> json" where
  "vrc_value cd remote i vrc =
     JObject [(''credential'', enc_vrc cd vrc), (''id'', JString i), (''remote'', JString remote)]"

definition vrc_entries :: "sync_codec \<Rightarrow> record_kind \<Rightarrow> vrcs \<Rightarrow> (string \<times> json) list" where
  "vrc_entries cd kd vs =
     concat (map (\<lambda>(remote, by_id). map (\<lambda>(i, vrc). (vrc_sync_key cd kd remote i, vrc_value cd remote i vrc)) by_id) (vr_vrcs vs))"

definition key_record :: "sync_codec \<Rightarrow> string \<Rightarrow> key_info \<Rightarrow> json option" where
  "key_record cd name i =
     (if is_vta_managed i
      then map_option (\<lambda>v. JObject [(''info'', v), (''name'', JString name)]) (enc_key cd i) else None)"

definition key_entries :: "sync_codec \<Rightarrow> (string \<times> key_info) list \<Rightarrow> (string \<times> json) list" where
  "key_entries cd ks = concat (map (\<lambda>(name, i). entry_of (simple_key cd SyncKey name) (key_record cd name i)) ks)"

definition witnessing_record :: "sync_codec \<Rightarrow> witness_record \<Rightarrow> (string \<times> json) option" where
  "witnessing_record cd r = map_option (\<lambda>v. (witnessing_key cd r, v)) (enc_witness cd r)"

definition witness_entries :: "sync_codec \<Rightarrow> witness_record list \<Rightarrow> (string \<times> json) list" where
  "witness_entries cd ws = concat (map (\<lambda>r. case witnessing_record cd r of None \<Rightarrow> [] | Some e \<Rightarrow> [e]) ws)"

fun kind_entries :: "sync_codec \<Rightarrow> sync_parts \<Rightarrow> record_kind \<Rightarrow> (string \<times> json) list" where
  "kind_entries cd p SyncPersona = persona_entries cd (sp_account p)"
| "kind_entries cd p SyncMembership = member_entries cd (sp_account p)"
| "kind_entries cd p SyncRelationship = relation_entries cd (sp_relationships p)"
| "kind_entries cd p SyncContact = contact_entries cd (sp_contacts p)"
| "kind_entries cd p SyncAgentName = name_entries cd (sp_agent_names p)"
| "kind_entries cd p SyncTsp = tsp_entries cd (sp_tsp p)"
| "kind_entries cd p SyncVrcIssued = vrc_entries cd SyncVrcIssued (sp_vrcs_issued p)"
| "kind_entries cd p SyncVrcReceived = vrc_entries cd SyncVrcReceived (sp_vrcs_received p)"
| "kind_entries cd p SyncKey = key_entries cd (sp_key_info p)"
| "kind_entries cd p SyncVetting = entry_of (kind_prefix SyncVetting) (vetting_json cd (sp_vetting p))"
| "kind_entries cd p SyncWitnessing = witness_entries cd (sp_witnessings p)"

definition project :: "sync_codec \<Rightarrow> sync_parts \<Rightarrow> (string \<times> json) list" where
  "project cd p = put_all (concat (map (kind_entries cd p) all_kinds)) []"


section \<open>A store of credentials as JSON\<close>

text \<open>\<open>vrc.rs\<close>: a stored credential that does not decode is left out and counted.\<close>

definition enc_vrcs :: "sync_codec \<Rightarrow> vrcs \<Rightarrow> json" where
  "enc_vrcs cd vs =
     JObject ((if vr_retired vs = 0 then [] else [(''retired'', JNumber (decimal (vr_retired vs)))])
       @ [(''vrcs'', JObject (put_all (map (\<lambda>(remote, by_id).
             (remote, JObject (put_all (map (\<lambda>(i, vrc). (i, enc_vrc cd vrc)) by_id) []))) (vr_vrcs vs)) []))])"

fun jobject :: "json \<Rightarrow> (string \<times> json) list option" where
  "jobject (JObject ms) = Some ms"
| "jobject _ = None"

definition raw_stores :: "json option \<Rightarrow> string + (string \<times> (string \<times> json) list) list" where
  "raw_stores v =
     (case v of
        None \<Rightarrow> Inr []
      | Some x \<Rightarrow>
          rbind (ok_or ''vrcs is not a map'' (jobject x)) (\<lambda>ms.
          collect_results (\<lambda>(remote, y). rbind (ok_or ''vrcs holds no map'' (jobject y)) (\<lambda>by_id. Inr (remote, by_id))) ms))"

fun raw_retired :: "json option \<Rightarrow> string + nat" where
  "raw_retired None = Inr 0"
| "raw_retired (Some (JNumber n)) = ok_or ''retired is not a count'' (parse_digits n)"
| "raw_retired (Some _) = Inl ''retired is not a count''"

definition readable_vrcs :: "sync_codec \<Rightarrow> (string \<times> json) list \<Rightarrow> (string \<times> dtg_credential) list" where
  "readable_vrcs cd by_id = concat (map (\<lambda>(i, v). case dec_vrc cd v of Inl _ \<Rightarrow> [] | Inr vrc \<Rightarrow> [(i, vrc)]) by_id)"

definition dec_vrcs :: "sync_codec \<Rightarrow> json \<Rightarrow> string + vrcs" where
  "dec_vrcs cd v =
     rbind (ok_or ''not a map'' (jobject v)) (\<lambda>ms.
     rbind (raw_stores (map_of ms ''vrcs'')) (\<lambda>stores.
     rbind (raw_retired (map_of ms ''retired'')) (\<lambda>n.
       Inr \<lparr>vr_vrcs = filter (\<lambda>(_, by_id). by_id \<noteq> []) (map (\<lambda>(remote, by_id). (remote, readable_vrcs cd by_id)) stores),
             vr_retired = n + length (filter (\<lambda>(_, x). case dec_vrc cd x of Inl _ \<Rightarrow> True | Inr _ \<Rightarrow> False) (concat (map snd stores)))\<rparr>)))"

section \<open>Applying one record\<close>

definition str_field :: "json \<Rightarrow> string \<Rightarrow> string + string" where
  "str_field v f = ok_or (''missing `'' @ f @ ''`'') (Option.bind (jget f v) jstr)"

definition member_or_null :: "json \<Rightarrow> string \<Rightarrow> json" where
  "member_or_null v f = (case jget f v of None \<Rightarrow> JNull | Some x \<Rightarrow> x)"

text \<open>\<open>value.map(decode).transpose()?\<close>.\<close>

definition decoded :: "(json \<Rightarrow> string + 'a) \<Rightarrow> json option \<Rightarrow> string + 'a option" where
  "decoded dec v = (case v of None \<Rightarrow> Inr None | Some x \<Rightarrow> rbind (dec x) (\<lambda>y. Inr (Some y)))"

definition apply_vrc :: "sync_codec \<Rightarrow> vrcs \<Rightarrow> record_kind \<Rightarrow> string \<Rightarrow> json option \<Rightarrow> string + vrcs" where
  "apply_vrc cd vs kd key v =
     (let whole = members (Some (enc_vrcs cd vs)) in
      rbind (case map_of whole ''vrcs'' of
               None \<Rightarrow> Inr []
             | Some x \<Rightarrow> ok_or ''unexpected credential store shape'' (jobject x)) (\<lambda>stores.
      let kept = map (\<lambda>(remote, x). (remote, case jobject x of
                        None \<Rightarrow> x | Some by_id \<Rightarrow> JObject (filter (\<lambda>(i, _). vrc_sync_key cd kd remote i \<noteq> key) by_id))) stores
      in rbind (case v of
                  None \<Rightarrow> Inr kept
                | Some x \<Rightarrow>
                    rbind (str_field x ''remote'') (\<lambda>remote.
                    rbind (str_field x ''id'') (\<lambda>i.
                    rbind (ensure (vrc_sync_key cd kd remote i = key) ''credential does not match its key'') (\<lambda>_.
                    rbind (ok_or ''unexpected credential store shape''
                             (case map_of kept remote of None \<Rightarrow> Some [] | Some y \<Rightarrow> jobject y)) (\<lambda>by_id.
                      Inr (put remote (JObject (put i (member_or_null x ''credential'') by_id)) kept)))))) (\<lambda>stores.
           dec_vrcs cd (JObject (put ''vrcs'' (JObject (filter (\<lambda>(_, x). jobject x \<noteq> Some []) stores)) whole)))))"

definition insert_witness :: "witness_record \<Rightarrow> witness_record list \<Rightarrow> witness_record list" where
  "insert_witness r ws =
     takeWhile (\<lambda>w. wn_witnessed_at w \<le> wn_witnessed_at r) ws @ r # dropWhile (\<lambda>w. wn_witnessed_at w \<le> wn_witnessed_at r) ws"

text \<open>\<open>VettingBook::default\<close>.\<close>

definition empty_book :: "vetter_policy \<Rightarrow> vetting_book" where
  "empty_book policy =
     \<lparr>vb_applications = [], vb_tickets = [], vb_desk = [], vb_issued = [], vb_vetted = [], vb_throttle = \<lparr>gt_wrong = []\<rparr>,
      vb_criteria = [], vb_policy = policy, vb_vetter_grants = [], vb_grant_warnings = [], vb_communities = [],
      vb_vetter_profiles = [], vb_hidden_vetter = [], vb_hidden_published = [], vb_retired = [],
      vb_vetter_refresh_due = False, vb_vetter_refresh_failures = 0, vb_queries = [], vb_draws_in_flight = [],
      vb_pcs_inbox = [], vb_pcs_due = False, vb_pcs_retry_at = None, vb_pcs_failures = 0, vb_mode_checks = [],
      vb_mode_switches = [], vb_extra = []\<rparr>"

definition keep_engine :: "vetting_book \<Rightarrow> application \<Rightarrow> application" where
  "keep_engine here a =
     (let mine = List.find (\<lambda>h. ap_id h = ap_id a) (vb_applications here)
      in a\<lparr>ap_hidden_app := Option.bind mine ap_hidden_app,
           ap_local_engine_dropped := (case mine of None \<Rightarrow> False | Some h \<Rightarrow> ap_local_engine_dropped h)\<rparr>)"

definition keep_local :: "vetting_book \<Rightarrow> vetting_book \<Rightarrow> vetting_book" where
  "keep_local here b =
     b\<lparr>vb_hidden_vetter := vb_hidden_vetter here, vb_pcs_inbox := vb_pcs_inbox here, vb_pcs_due := vb_pcs_due here,
       vb_applications := map (keep_engine here) (vb_applications b)\<rparr>"

definition push_member :: "community_record \<Rightarrow> (vtc_did \<times> community_record list) list \<Rightarrow> (vtc_did \<times> community_record list) list" where
  "push_member m cs =
     AList.update (cr_vtc_did m) ((case map_of cs (cr_vtc_did m) of None \<Rightarrow> [] | Some l \<Rightarrow> l) @ [m]) cs"

definition put_contact :: "sync_codec \<Rightarrow> string \<Rightarrow> contact option \<Rightarrow> (string \<times> contact) list \<Rightarrow> (string \<times> contact) list" where
  "put_contact cd key c cs =
     (let kept = filter (\<lambda>(did, _). simple_key cd SyncContact did \<noteq> key) cs
      in case c of None \<Rightarrow> kept | Some c \<Rightarrow> AList.update (co_did c) c kept)"

definition aliases_of :: "(string \<times> contact) list \<Rightarrow> (string \<times> contact) list" where
  "aliases_of cs =
     fold (\<lambda>(_, c). case co_alias c of None \<Rightarrow> (\<lambda>m. m) | Some a \<Rightarrow> AList.update a c) cs []"

fun apply_kind :: "sync_codec \<Rightarrow> record_kind \<Rightarrow> sync_parts \<Rightarrow> string \<Rightarrow> json option \<Rightarrow> string + sync_parts" where
  "apply_kind cd SyncPersona p key (Some v) =
     rbind (dec_persona cd v) (\<lambda>r.
     rbind (ensure (persona_sync_key cd r = key) ''persona id does not match its key'') (\<lambda>_.
       Inr (p\<lparr>sp_account := (sp_account p)\<lparr>ac_personas := AList.update (pr_persona_id r) r (ac_personas (sp_account p))\<rparr>\<rparr>)))"
| "apply_kind cd SyncPersona p key None =
     Inr (p\<lparr>sp_account := (sp_account p)\<lparr>ac_personas :=
             filter (\<lambda>(_, r). persona_sync_key cd r \<noteq> key) (ac_personas (sp_account p))\<rparr>\<rparr>)"
| "apply_kind cd SyncMembership p key v =
     rbind (decoded (dec_member cd) v) (\<lambda>incoming.
     rbind (case incoming of None \<Rightarrow> Inr ()
            | Some m \<Rightarrow> ensure (member_sync_key cd m = key) ''membership does not match its key'') (\<lambda>_.
       let kept = map (\<lambda>(vtc, l). (vtc, filter (\<lambda>m. member_sync_key cd m \<noteq> key) l)) (ac_communities (sp_account p));
           pushed = (case incoming of None \<Rightarrow> kept | Some m \<Rightarrow> push_member m kept)
       in Inr (p\<lparr>sp_account := (sp_account p)\<lparr>ac_communities := filter (\<lambda>(_, l). l \<noteq> []) pushed\<rparr>\<rparr>)))"
| "apply_kind cd SyncRelationship p key (Some v) =
     rbind (str_field v ''pDid'') (\<lambda>did.
     rbind (ensure (simple_key cd SyncRelationship did = key) ''relationship does not match its key'') (\<lambda>_.
     rbind (dec_relation cd (member_or_null v ''relationship'')) (\<lambda>r.
       Inr (p\<lparr>sp_relationships := (sp_relationships p)\<lparr>rs_map := AList.update did r (rs_map (sp_relationships p))\<rparr>\<rparr>))))"
| "apply_kind cd SyncRelationship p key None =
     Inr (p\<lparr>sp_relationships := (sp_relationships p)\<lparr>rs_map :=
             filter (\<lambda>(did, _). simple_key cd SyncRelationship did \<noteq> key) (rs_map (sp_relationships p))\<rparr>\<rparr>)"
| "apply_kind cd SyncContact p key v =
     rbind (decoded (dec_contact cd) v) (\<lambda>incoming.
     rbind (case incoming of None \<Rightarrow> Inr ()
            | Some c \<Rightarrow> ensure (simple_key cd SyncContact (co_did c) = key) ''contact does not match its key'') (\<lambda>_.
       let cs = put_contact cd key incoming (sp_contacts p)
       in Inr (p\<lparr>sp_contacts := cs, sp_aliases := aliases_of cs\<rparr>)))"
| "apply_kind cd SyncAgentName p key (Some v) =
     rbind (str_field v ''did'') (\<lambda>did.
     rbind (ensure (simple_key cd SyncAgentName did = key) ''agent name does not match its key'') (\<lambda>_.
     rbind (dec_name cd (member_or_null v ''entry'')) (\<lambda>e.
       Inr (p\<lparr>sp_agent_names := AList.update did e (sp_agent_names p)\<rparr>))))"
| "apply_kind cd SyncAgentName p key None =
     Inr (p\<lparr>sp_agent_names := filter (\<lambda>(did, e). cn_name e = None \<or> simple_key cd SyncAgentName did \<noteq> key) (sp_agent_names p)\<rparr>)"
| "apply_kind cd SyncTsp p key (Some v) =
     rbind (str_field v ''key'') (\<lambda>k.
     rbind (ensure (simple_key cd SyncTsp k = key) ''TSP row does not match its key'') (\<lambda>_.
     rbind (str_field v ''value'') (\<lambda>row.
       Inr (p\<lparr>sp_tsp := put k row (sp_tsp p)\<rparr>))))"
| "apply_kind cd SyncTsp p key None =
     Inr (p\<lparr>sp_tsp := filter (\<lambda>(k, _). simple_key cd SyncTsp k \<noteq> key) (sp_tsp p)\<rparr>)"
| "apply_kind cd SyncVrcIssued p key v =
     rbind (apply_vrc cd (sp_vrcs_issued p) SyncVrcIssued key v) (\<lambda>vs. Inr (p\<lparr>sp_vrcs_issued := vs\<rparr>))"
| "apply_kind cd SyncVrcReceived p key v =
     rbind (apply_vrc cd (sp_vrcs_received p) SyncVrcReceived key v) (\<lambda>vs. Inr (p\<lparr>sp_vrcs_received := vs\<rparr>))"
| "apply_kind cd SyncKey p key (Some v) =
     rbind (str_field v ''name'') (\<lambda>name.
     rbind (ensure (simple_key cd SyncKey name = key) ''key reference does not match its key'') (\<lambda>_.
     rbind (dec_key cd (member_or_null v ''info'')) (\<lambda>i.
     rbind (ensure (is_vta_managed i) ''a synced key must be VTA-managed'') (\<lambda>_.
       Inr (p\<lparr>sp_key_info := AList.update name i (sp_key_info p)\<rparr>)))))"
| "apply_kind cd SyncKey p key None =
     Inr (p\<lparr>sp_key_info := filter (\<lambda>(name, i). \<not> is_vta_managed i \<or> simple_key cd SyncKey name \<noteq> key) (sp_key_info p)\<rparr>)"
| "apply_kind cd SyncVetting p key v =
     rbind (case v of None \<Rightarrow> Inr (empty_book (sy_policy cd)) | Some x \<Rightarrow> dec_book cd x) (\<lambda>b.
       Inr (p\<lparr>sp_vetting := keep_local (sp_vetting p) b\<rparr>))"
| "apply_kind cd SyncWitnessing p key v =
     rbind (decoded (dec_witness cd) v) (\<lambda>incoming.
     rbind (case incoming of None \<Rightarrow> Inr ()
            | Some r \<Rightarrow> ensure (witnessing_key cd r = key) ''witnessing does not match its key'') (\<lambda>_.
       let kept = filter (\<lambda>r. witnessing_key cd r \<noteq> key) (sp_witnessings p)
       in Inr (p\<lparr>sp_witnessings := (case incoming of None \<Rightarrow> kept | Some r \<Rightarrow> insert_witness r kept)\<rparr>)))"

definition apply_record :: "sync_codec \<Rightarrow> sync_parts \<Rightarrow> string \<Rightarrow> json option \<Rightarrow> string + sync_parts" where
  "apply_record cd p key v =
     (case of_key key of None \<Rightarrow> Inl ''unknown record kind'' | Some kd \<Rightarrow> apply_kind cd kd p key v)"

end
