(* ===== verification/MembershipFlow.thy ===== *)
theory MembershipFlow
  imports MembershipStep SyncRecords
begin

text \<open>
  What the life of memberships guarantees: the machine each follows, that only a community's proven credential makes a
  member on this device, and so across synchronised ones, that a sender reaches its own memberships only, how a lost
  receipt is repaired, when a credential is asked for again, and what a renewal does.
\<close>

section \<open>An example community\<close>

definition example_credentials_sdk :: credential_sdk where
  "example_credentials_sdk = \<lparr>
     ck_parse = (\<lambda>v. case (issuer_of v, jmember_str ''id'' (jget ''credentialSubject'' v)) of
         (Some i, Some s) \<Rightarrow> Inr \<lparr>dd_type = (if jget ''authority'' v = None then MembershipCredential else AuthorityCredential),
           dd_scope = PublicScope, dd_issuer = i, dd_subject = s,
           dd_authority = Some \<lparr>au_scope = i, au_parent = None, au_actions = [''read'']\<rparr>, dd_statement = None\<rparr>
       | _ \<Rightarrow> Inl ''malformed''),
     ck_role_of_action = Some, ck_vetted_v1 = [], ck_vetted_value = (\<lambda>_. None), ck_rfc3339 = (\<lambda>_. None),
     ck_assertion_error = (\<lambda>v i. if issuer_of v = Some i then None else Some ''not theirs''),
     ck_authentication_error = (\<lambda>_ _. None), ck_status = (\<lambda>_ _ _. Credentials.StatusActive)\<rparr>"

definition example_credential :: json where
  "example_credential = JObject [(''issuer'', JString ''did:c''),
     (''credentialSubject'', JObject [(''id'', JString ''did:me'')])]"

definition example_join_sdk :: join_sdk where
  "example_join_sdk = \<lparr>jk_uuid = (\<lambda>s. Some (of_nat (length s))), jk_receipt = (\<lambda>_. Some 77),
     jk_status = (\<lambda>_. Some \<lparr>jb_request_id = 77, jb_status = ''approved'', jb_code = None, jb_reason = None,
        jb_decided_at = None, jb_credentials_delivered = Some False, jb_credential_resend = Some ResendQueued,
        jb_retry_after = None\<rparr>),
     jk_verdict = (\<lambda>_. None), jk_removal = (\<lambda>_. None), jk_problem = (\<lambda>_. ([], [])), jk_rfc3339 = (\<lambda>_. None),
     jk_challenge_expired = ''e1'', jk_challenge_already_used = ''e2'', jk_challenge_not_issued = ''e3'',
     jk_challenge_mismatch = ''e4'', jk_not_accepting = ''e5'', jk_criterion_unknown = ''e6''\<rparr>"

definition example_message :: didcomm_message where
  "example_message = build_didcomm_message ''id'' 0 ''t'' JNull ''did:c'' ''did:me'' (Some ''123'')"

definition example_fresh :: account where
  "example_fresh = example_account\<lparr>ac_communities := []\<rparr>"

definition example_joined :: account where
  "example_joined = add_membership ((new_pending ''did:c'' None ''top/c'' 1 10 0)\<lparr>cr_submit_transport := None\<rparr>) example_fresh"

definition example_admitted :: account where
  "example_admitted = snd (handle_credential_issue example_credentials_sdk example_credential ''did:c'' 3 example_joined)"

lemmas example_flow_defs = example_credentials_sdk_def example_credential_def example_join_sdk_def example_message_def
  example_fresh_def example_joined_def example_admitted_def

lemma unique_fresh: "unique_memberships example_fresh"
  by (simp add: unique_memberships_def filed_def memberships_for_def example_fresh_def)

lemma example_join_step: "account_step js cs rsdk ds example_fresh example_joined"
  unfolding example_joined_def by (rule joins) code_simp

lemma unique_joined: "unique_memberships example_joined"
  unfolding example_joined_def by (rule joins_unique [OF unique_fresh]) (simp add: new_pending_def membership_def memberships_for_def example_fresh_def)

lemma example_issue_step: "account_step js example_credentials_sdk rsdk ds example_joined example_admitted"
proof -
  have "verify_issued_credential example_credentials_sdk example_credential ''did:c'' 2 = Inr example_credential"
    by code_simp
  from issued [OF this] show ?thesis by (simp add: example_admitted_def)
qed

section \<open>The machine of memberships\<close>

text \<open>(C14) 
  In an account with one membership per community and persona, every operation of this device moves each as its machine
  allows: a record appears only as a pending join and disappears only once it has ended; a pending join may become
  anything but removed, an active membership only removed or left, an ended one stays as it ended (or is left); nothing
  becomes active without a membership credential the community issued and proved. And each pair keeps one membership,
  unless the operation is a join beside one that ended, which is recorded behind it and shadowed by it. (A sync writes
  what the VTA holds, and is no operation of this machine.)
\<close>

theorem membership_machine:
  assumes "account_step js cs rsdk ds a b" "unique_memberships a"
  shows "(unique_memberships b \<or> shadowed_join a b) \<and>
    (\<forall>v q. case (membership a v q, membership b v q) of
        (None, None) \<Rightarrow> True
      | (None, Some d) \<Rightarrow> pending_id (cr_status d) \<noteq> None
      | (Some c, None) \<Rightarrow> is_inactive (cr_status c)
      | (Some c, Some d) \<Rightarrow> membership_key d = membership_key c \<and> allowed (cr_status c) (cr_status d) \<and>
          (is_active (cr_status d) \<and> \<not> is_active (cr_status c) \<longrightarrow> proven_membership cs v d))"
proof -
  from step_good [OF assms] have u: "unique_memberships b \<or> shadowed_join a b" and l: "lawful_account cs a b" by simp_all
  have "case (membership a v q, membership b v q) of
        (None, None) \<Rightarrow> True
      | (None, Some d) \<Rightarrow> pending_id (cr_status d) \<noteq> None
      | (Some c, None) \<Rightarrow> is_inactive (cr_status c)
      | (Some c, Some d) \<Rightarrow> membership_key d = membership_key c \<and> allowed (cr_status c) (cr_status d) \<and>
          (is_active (cr_status d) \<and> \<not> is_active (cr_status c) \<longrightarrow> proven_membership cs v d)" for v q
    using spec2 [OF l [unfolded lawful_account_def], of v q]
    by (cases "membership a v q"; cases "membership b v q") (auto simp: lawful_def)
  with u show ?thesis by blast
qed

theorem membership_machine_witness:
  "(unique_memberships example_admitted \<or> shadowed_join example_joined example_admitted) \<and>
   map_option cr_status (membership example_joined ''did:c'' 1) = Some (PendingJoin 10) \<and>
   map_option cr_status (membership example_admitted ''did:c'' 1) = Some Active"
proof -
  have "unique_memberships example_admitted \<or> shadowed_join example_joined example_admitted"
    using membership_machine [OF example_issue_step unique_joined] by blast
  moreover have "map_option cr_status (membership example_joined ''did:c'' 1) = Some (PendingJoin 10)" by code_simp
  moreover have "map_option cr_status (membership example_admitted ''did:c'' 1) = Some Active" by code_simp
  ultimately show ?thesis by blast
qed

section \<open>Members hold their credential\<close>

text \<open>
  A change of the account: an operation of this device, or a record a sync writes. \<open>brought\<close> says of a membership record,
  with the community it is filed under, that a sync may bring it.
\<close>

inductive account_change ::
  "join_sdk \<Rightarrow> credential_sdk \<Rightarrow> renew_sdk \<Rightarrow> document_sdk \<Rightarrow> sync_codec \<Rightarrow> (vtc_did \<Rightarrow> community_record \<Rightarrow> bool)
     \<Rightarrow> account \<Rightarrow> account \<Rightarrow> bool"
  for js cs rsdk ds cd brought where
  here: "account_step js cs rsdk ds a b \<Longrightarrow> account_change js cs rsdk ds cd brought a b"
| synced: "apply_record cd p key v = Inr p' \<Longrightarrow>
    (\<And>w c. c \<in> set (memberships_for (sp_account p') w) \<Longrightarrow> c \<notin> set (memberships_for (sp_account p) w) \<Longrightarrow> brought w c) \<Longrightarrow>
    account_change js cs rsdk ds cd brought (sp_account p) (sp_account p')"

lemma members_proven_change:
  assumes "account_change js cs rsdk ds cd brought a b" "members_proven cs a"
    and "\<And>w c. brought w c \<Longrightarrow> is_active (cr_status c) \<Longrightarrow> proven_membership cs w c"
  shows "members_proven cs b"
  using assms(1)
proof cases
  case here
  from this assms(2) show ?thesis by (rule members_proven_step)
next
  case (synced p key v p')
  then show ?thesis using assms(2,3) unfolding members_proven_def by blast
qed

text \<open>(C3) 
  Every membership record that is active holds a membership credential issued by the community it is filed under, with a
  proof by the key that community asserts with. This holds of every record, the shadowed ones too, of an account that
  began without memberships, after any operations of this device and any records written by syncs, provided that each
  active record a sync brings holds such a credential already. (An account rebuilt from the VTA does not begin
  without memberships: it is made from credentials checked then.)
\<close>

theorem members_hold_credential:
  assumes "(account_change js cs rsdk ds cd brought)\<^sup>*\<^sup>* a b" "ac_communities a = []"
    and "\<And>w d. brought w d \<Longrightarrow> cr_status d = Active \<Longrightarrow> proven_membership cs w d"
    and "c \<in> set (memberships_for b v)" "cr_status c = Active"
  shows "\<exists>credential. map_of (cr_credentials c) MembershipKind = Some credential \<and>
    kind_of_credential cs credential = Some MembershipKind \<and> issuer_of credential = Some v \<and>
    ck_assertion_error cs credential v = None"
proof -
  have brought: "proven_membership cs w d" if "brought w d" "is_active (cr_status d)" for w d
    using assms(3) [OF that(1)] that(2) by (cases "cr_status d") auto
  have "members_proven cs a" using assms(2) by (simp add: members_proven_def memberships_for_def)
  from assms(1) this have "members_proven cs b"
    by (induction rule: rtranclp_induct) (auto intro: members_proven_change brought)
  with assms(4,5) show ?thesis by (simp add: members_proven_def proven_membership_def)
qed

theorem members_hold_credential_witness:
  "\<exists>c credential. c \<in> set (memberships_for example_admitted ''did:c'') \<and>
     map_of (cr_credentials c) MembershipKind = Some credential \<and> issuer_of credential = Some ''did:c''"
proof -
  have "map_option cr_status (membership example_admitted ''did:c'' 1) = Some Active" by code_simp
  then obtain c where c: "membership example_admitted ''did:c'' 1 = Some c" "cr_status c = Active" by auto
  from c(1) have mem: "c \<in> set (memberships_for example_admitted ''did:c'')" by (auto simp: membership_def dest: find_SomeD)
  have "(account_change js example_credentials_sdk rsdk ds cd (\<lambda>_ _. False))\<^sup>*\<^sup>* example_fresh example_admitted" for js rsdk ds cd
    using here [OF example_join_step] here [OF example_issue_step] by (meson r_into_rtranclp rtranclp.rtrancl_into_rtrancl)
  from members_hold_credential [OF this _ _ mem c(2)] mem show ?thesis by (auto simp: example_fresh_def)
qed

section \<open>Who can change what\<close>

lemma settle_other: "v \<noteq> vtc \<Longrightarrow> memberships_for (snd (settle vtc p effect a)) v = memberships_for a v"
  by (simp add: settle_def on_membership_for split: option.split)

lemma mut_other: "v \<noteq> vtc \<Longrightarrow> memberships_for (membership_mut vtc q f a) v = memberships_for a v"
  by (simp add: membership_mut_def on_membership_for)

lemma settle_none: "List.find p (memberships_for a vtc) = None \<Longrightarrow> settle vtc p effect a = (status_none, a)"
  by (simp add: settle_def)

text \<open>(C19) 
  A message reaches only the sender's own memberships: whatever any handler makes of it, the records held for
  every other community are untouched. And a receipt, a verdict or an error that does not quote a join pending at its
  sender changes nothing at all.
\<close>

theorem replies_bound_to_sender:
  assumes "filed a" "v \<noteq> sender"
    and unasked: "\<And>t r. dm_thid m = Some t \<Longrightarrow> jk_uuid js t = Some r \<Longrightarrow> membership_by_pending_request a sender' r = None"
  shows "memberships_for (snd (handle_join_submit_receipt js m sender now a)) v = memberships_for a v \<and>
    memberships_for (snd (handle_join_status_response js m sender now a)) v = memberships_for a v \<and>
    memberships_for (snd (handle_join_verdict js m sender now a)) v = memberships_for a v \<and>
    memberships_for (snd (handle_join_trust_task_error js m sender now a)) v = memberships_for a v \<and>
    memberships_for (snd (handle_member_removal_notice js body sender a)) v = memberships_for a v \<and>
    memberships_for (snd (handle_community_profile_show_response m sender a)) v = memberships_for a v \<and>
    memberships_for (snd (handle_credential_issue cs credential sender now a)) v = memberships_for a v \<and>
    (\<forall>s b. apply_renewal r sender now a = Inr (s, b) \<longrightarrow> memberships_for b v = memberships_for a v) \<and>
    handle_join_submit_receipt js m sender' now a = (False, a) \<and>
    handle_join_verdict js m sender' now a = (status_none, a) \<and>
    handle_join_trust_task_error js m sender' now a = (status_none, a)"
proof (intro conjI allI impI)
  show "memberships_for (snd (handle_join_submit_receipt js m sender now a)) v = memberships_for a v"
    using assms(2) by (simp add: handle_join_submit_receipt_def on_membership_for split: option.split)
  show "memberships_for (snd (handle_join_status_response js m sender now a)) v = memberships_for a v"
    using assms(2) by (simp add: handle_join_status_response_def settle_other split: option.split)
  show "memberships_for (snd (handle_join_verdict js m sender now a)) v = memberships_for a v"
    using assms(2) by (simp add: handle_join_verdict_def settle_other split: option.split)
  show "memberships_for (snd (handle_join_trust_task_error js m sender now a)) v = memberships_for a v"
    using assms(2) by (simp add: handle_join_trust_task_error_def settle_other split: option.split)
  show "memberships_for (snd (handle_member_removal_notice js body sender a)) v = memberships_for a v"
    using assms(2) by (simp add: handle_member_removal_notice_def settle_other split: option.split)
  show "memberships_for (snd (handle_community_profile_show_response m sender a)) v = memberships_for a v"
    using assms(2) by (simp add: profile_buckets [OF assms(1)])
  show "memberships_for (snd (handle_credential_issue cs credential sender now a)) v = memberships_for a v"
    using assms(2) by (auto simp: handle_credential_issue_def mut_other split: sum.split option.split)
  show "memberships_for b v = memberships_for a v" if "apply_renewal r sender now a = Inr (s, b)" for s b
    using that assms(2) by (auto simp: apply_renewal_def result_simps mut_other)
  show "handle_join_submit_receipt js m sender' now a = (False, a)"
    using unasked by (auto simp: handle_join_submit_receipt_def split: option.split bind_split)
  show "handle_join_verdict js m sender' now a = (status_none, a)"
    using unasked by (auto simp: handle_join_verdict_def membership_by_pending_request_def settle_none
        split: option.split bind_split)
  show "handle_join_trust_task_error js m sender' now a = (status_none, a)"
    using unasked by (auto simp: handle_join_trust_task_error_def membership_by_pending_request_def settle_none
        split: option.split bind_split)
qed

theorem replies_bound_to_sender_witness:
  "memberships_for (snd (handle_join_status_response example_join_sdk example_message ''did:c'' 9 example_account)) ''did:d''
     = [example_member] \<and>
   handle_join_verdict example_join_sdk example_message ''did:c'' 9 example_account = (status_none, example_account)"
proof -
  have "filed example_account" by (simp add: filed_def example_account_defs)
  moreover have "membership_by_pending_request example_account ''did:c'' 3 = None" by code_simp
  then have "membership_by_pending_request example_account ''did:c'' r = None"
    if "dm_thid example_message = Some t" "jk_uuid example_join_sdk t = Some r" for t r
    using that by (auto simp: example_message_def build_didcomm_message_def example_join_sdk_def)
  moreover have "memberships_for example_account ''did:d'' = [example_member]" by code_simp
  ultimately show ?thesis
    using replies_bound_to_sender [of example_account "''did:d''" "''did:c''" example_message example_join_sdk "''did:c''" 9]
    by simp
qed

section \<open>Repairing a lost receipt\<close>

lemma adopt_adopts:
  assumes "pending_id (cr_status c) \<noteq> None" "jb_status body \<notin> {''rejected'', ''withdrawn''}"
  shows "cr_status (snd (adopt_and_apply body now c)) = PendingJoin (jb_request_id body) \<and>
    cr_request_id_confirmed (snd (adopt_and_apply body now c)) \<and>
    membership_key (snd (adopt_and_apply body now c)) = membership_key c"
proof -
  from assms(1) obtain r where s: "cr_status c = PendingJoin r" by (cases "cr_status c") auto
  with assms(2) show ?thesis
    by (auto simp: adopt_and_apply_def status_effect_def record_credential_delivery_def record_ops case_prod_unfold Let_def
        split: option.split)
qed

text \<open>
  A lost receipt is repaired by a poll: when a community answers a poll that quoted no id, the one join that
  waits for its id (told apart by recipient when several do) takes the id of the answer, the next poll quotes it, and
  a later reply that quotes it finds this very record.
\<close>

theorem poll_repairs_id:
  assumes u: "unique_memberships a" and body: "jk_status js (trust_task_reply_payload (dm_body m)) = Some body"
    and open_answer: "jb_status body \<notin> {''rejected'', ''withdrawn''}"
    and new: "membership_by_pending_request a sender (jb_request_id body) = None"
    and p: "awaiting_persona a sender (case dm_to m of None \<Rightarrow> [] | Some tos \<Rightarrow> tos) = Some p"
    and c: "membership a sender p = Some c"
  shows "\<exists>d. membership (snd (handle_join_status_response js m sender now a)) sender p = Some d \<and>
    cr_status d = PendingJoin (jb_request_id body) \<and>
    map_option pp_request_id (poll_of later d) = Some (Some (jb_request_id body)) \<and>
    membership_by_pending_request (snd (handle_join_status_response js m sender now a)) sender (jb_request_id body) = Some d"
proof -
  let ?b = "snd (handle_join_status_response js m sender now a)" and ?d = "snd (adopt_and_apply body now c)"
  from awaiting_pending [OF u p c] adopt_adopts [OF _ open_answer, of c now] have d: "cr_status ?d = PendingJoin (jb_request_id body)"
    "cr_request_id_confirmed ?d" "cr_persona_ref ?d = cr_persona_ref c"
    by (auto simp: membership_key_def)
  from c have find: "List.find (\<lambda>c. cr_persona_ref c = p) (memberships_for a sender) = Some c" by (simp add: membership_def)
  have "memberships_for ?b sender =
      update_first (\<lambda>c. cr_persona_ref c = p) (\<lambda>c. snd (adopt_and_apply body now c)) (memberships_for a sender)"
    using body new p find by (simp add: handle_join_status_response_def settle_def on_membership_for)
  with update_first_split [OF find, of "\<lambda>c. snd (adopt_and_apply body now c)"] obtain us vs where
    l: "memberships_for a sender = us @ c # vs" "memberships_for ?b sender = us @ ?d # vs" and cp: "cr_persona_ref c = p"
    by metis
  from new have "List.find (holds_request (jb_request_id body)) us = None"
    unfolding membership_by_pending_request_def l(1) by (auto simp: find_append find_None_iff split: option.splits)
  then have held: "membership_by_pending_request ?b sender (jb_request_id body) = Some ?d"
    unfolding membership_by_pending_request_def l(2) by (simp add: find_append holds_request_def d(1))
  have "distinct (map cr_persona_ref (us @ c # vs))" using u l(1) by (metis unique_memberships_def)
  then have "List.find (\<lambda>d. cr_persona_ref d = p) us = None" unfolding cp [symmetric] by (rule find_before)
  then have "membership ?b sender p = Some ?d"
    unfolding membership_def l(2) using d(3) cp by (simp add: find_append)
  with held d show ?thesis by (simp add: poll_of_def)
qed

theorem poll_repairs_id_witness:
  "membership_by_pending_request (snd (handle_join_status_response example_join_sdk example_message ''did:c'' 9 example_joined))
     ''did:c'' 77 \<noteq> None"
proof -
  have "awaiting_persona example_joined ''did:c'' [''did:me''] = Some 1" "membership_by_pending_request example_joined ''did:c'' 77 = None"
    "membership example_joined ''did:c'' 1 = Some ((new_pending ''did:c'' None ''top/c'' 1 10 0)\<lparr>cr_submit_transport := None\<rparr>)"
    by code_simp+
  moreover obtain body where "jk_status example_join_sdk (trust_task_reply_payload (dm_body example_message)) = Some body"
      "jb_request_id body = 77" "jb_status body = ''approved''"
    by (simp add: example_join_sdk_def)
  moreover have "dm_to example_message = Some [''did:me'']" by (simp add: example_message_def build_didcomm_message_def)
  ultimately show ?thesis
    using poll_repairs_id [of example_joined example_join_sdk example_message body "''did:c''" 1 _ 9, OF unique_joined]
    by auto
qed

section \<open>Asking again for a credential\<close>

lemma delivery_after:
  assumes "jb_credentials_delivered body = Some delivered" "jb_status body = ''approved''"
  shows "cr_credential_delivery (snd (adopt_and_apply body now c))
    = Some \<lparr>cd_delivered = delivered, cd_last_answer = resend_answer_of body now (cr_credential_delivery c)\<rparr>"
  using assms by (auto simp: adopt_and_apply_def status_effect_def record_credential_delivery_def record_ops case_prod_unfold
      Let_def split: option.split)

text \<open>
  A member that was approved asks the community to send its credential again only when the community's last
  answer lets it: ten minutes after it queued one, not before the moment it named when it limited the rate (never,
  when it named none), and not at all once nothing is owed or the credential was delivered.
\<close>

theorem resend_paced:
  assumes "jb_credentials_delivered body = Some delivered" "jb_status body = ''approved''"
    and wants: "wants_credential_resend later (snd (adopt_and_apply body now c))"
  shows "\<not> delivered \<and> pending_id (cr_status c) \<noteq> None \<and> map_of (cr_credentials c) MembershipKind = None \<and>
    (case jb_credential_resend body of
       Some ResendQueued \<Rightarrow> now + minutes 10 \<le> later
     | Some ResendRateLimited \<Rightarrow> (case jb_retry_after body of None \<Rightarrow> False | Some t \<Rightarrow> t \<le> later)
     | Some ResendNotNeeded \<Rightarrow> False
     | None \<Rightarrow> True)"
proof (intro conjI)
  note d = delivery_after [OF assms(1,2), of now c]
  let ?d = "snd (adopt_and_apply body now c)"
  show "\<not> delivered" using wants d by (simp add: wants_credential_resend_def Let_def)
  have "cr_credentials ?d = cr_credentials c" "pending_id (cr_status ?d) \<noteq> None \<longrightarrow> pending_id (cr_status c) \<noteq> None"
    using assms(1,2) by (auto simp: adopt_and_apply_def status_effect_def record_credential_delivery_def record_ops
        case_prod_unfold Let_def split: option.split)
  then show "pending_id (cr_status c) \<noteq> None" "map_of (cr_credentials c) MembershipKind = None"
    using wants by (auto simp: wants_credential_resend_def approved_awaiting_credential_def Let_def)
  show "case jb_credential_resend body of
       Some ResendQueued \<Rightarrow> now + minutes 10 \<le> later
     | Some ResendRateLimited \<Rightarrow> (case jb_retry_after body of None \<Rightarrow> False | Some t \<Rightarrow> t \<le> later)
     | Some ResendNotNeeded \<Rightarrow> False
     | None \<Rightarrow> True"
    using wants d
    by (auto simp: wants_credential_resend_def resend_answer_of_def Let_def credential_resend_grace_secs_def
        split: option.splits credential_resend.split)
qed

theorem resend_paced_witness:
  "\<exists>body c. jb_credential_resend body = Some ResendQueued \<and> wants_credential_resend (minutes 10 + 9) (snd (adopt_and_apply body 9 c))
     \<and> 9 + minutes 10 \<le> minutes 10 + 9"
proof -
  let ?body = "\<lparr>jb_request_id = 77, jb_status = ''approved'', jb_code = None, jb_reason = None, jb_decided_at = None,
    jb_credentials_delivered = Some False, jb_credential_resend = Some ResendQueued, jb_retry_after = None\<rparr>"
  let ?c = "example_pending\<lparr>cr_approved_at := Some 1\<rparr>"
  have wants: "wants_credential_resend (minutes 10 + 9) (snd (adopt_and_apply ?body 9 ?c))" by code_simp
  then show ?thesis using resend_paced [OF _ _ wants, of False] by (intro exI [of _ ?body] exI [of _ ?c]) simp
qed

section \<open>What a renewal does\<close>

lemma renewed_record:
  assumes "can_renew c"
  shows "cr_status (renew_record r now c) = Active" "membership_key (renew_record r now c) = membership_key c"
    "map_of (cr_credentials (renew_record r now c)) MembershipKind = Some (vn_vmc r)"
    "map_of (cr_credentials (renew_record r now c)) RoleKind = Some (vn_role_vac r)"
proof -
  let ?d = "store_credential RoleKind (vn_role_vac r) (store_credential MembershipKind (vn_vmc r) c)"
  have d: "cr_status ?d = cr_status c" "membership_key ?d = membership_key c"
    "map_of (cr_credentials ?d) MembershipKind = Some (vn_vmc r)" "map_of (cr_credentials ?d) RoleKind = Some (vn_role_vac r)"
    by (simp_all add: store_credential_fields)
  have r: "renew_record r now c = (case pending_id (cr_status c) of None \<Rightarrow> ?d | Some _ \<Rightarrow> activate now ?d)"
    by (simp add: renew_record_def Let_def d(1))
  show "membership_key (renew_record r now c) = membership_key c"
    "map_of (cr_credentials (renew_record r now c)) MembershipKind = Some (vn_vmc r)"
    "map_of (cr_credentials (renew_record r now c)) RoleKind = Some (vn_role_vac r)"
    using d by (simp_all add: r activate_fields split: option.split)
  show "cr_status (renew_record r now c) = Active"
    using assms d(1) by (cases "cr_status c") (auto simp: r activate_fields can_renew_def approved_awaiting_credential_def)
qed

text \<open>
  A renewal that verified and applied concerns one membership: the sender's, under the persona whose DID the new
  membership credential names as its subject, which was active or approved and still without its credential. It is
  active afterwards and holds the new membership and role credentials, both issued by the sender, and every other
  membership is what it was.
\<close>

theorem renewal_effect:
  assumes verified: "verify_renewal_response rsdk cs ds doc sender ours now = Inr r"
    and applied: "apply_renewal r sender later a = Inr (summary, b)"
  shows "\<exists>c d. membership a sender (rs_persona summary) = Some c \<and>
    (cr_status c = Active \<or> pending_id (cr_status c) \<noteq> None \<and> cr_approved_at c \<noteq> None) \<and>
    membership b sender (rs_persona summary) = Some d \<and> cr_status d = Active \<and>
    map_of (cr_credentials d) MembershipKind = Some (vn_vmc r) \<and> map_of (cr_credentials d) RoleKind = Some (vn_role_vac r) \<and>
    persona_id_for_did a (vn_did r) = Some (rs_persona summary) \<and>
    (\<exists>g. parse_conformant cs (vn_vmc r) = Inr g \<and> dd_issuer g = sender \<and> dd_subject g = vn_did r) \<and>
    kind_of_credential cs (vn_role_vac r) = Some RoleKind \<and>
    (\<forall>v q. (v, q) \<noteq> (sender, rs_persona summary) \<longrightarrow> membership b v q = membership a v q)"
proof -
  from applied obtain c where persona: "persona_id_for_did a (vn_did r) = Some (rs_persona summary)"
    and c: "membership a sender (rs_persona summary) = Some c" "can_renew c"
    and b: "b = membership_mut sender (rs_persona summary) (renew_record r later) a"
    by (auto simp: apply_renewal_def result_simps)
  have keep: "cr_persona_ref (renew_record r later e) = cr_persona_ref e" for e
    using effect_keys(6) [of r later e] by (simp add: membership_key_def)
  note look = membership_mut_other [of "renew_record r later", OF keep]
  from c(2) have was: "cr_status c = Active \<or> pending_id (cr_status c) \<noteq> None \<and> cr_approved_at c \<noteq> None"
    by (cases "cr_status c") (auto simp: can_renew_def approved_awaiting_credential_def)
  show ?thesis
    by (intro exI [of _ c] exI [of _ "renew_record r later c"] conjI allI impI c(1) was persona)
      (use renewed_record [OF c(2)] verify_renewal_responseD [OF verified] c(1) in \<open>auto simp: b look\<close>)
qed

definition example_renew_sdk :: renew_sdk where
  "example_renew_sdk = \<lparr>rk_uuid = (\<lambda>_. None),
     rk_response = (\<lambda>_. Some \<lparr>rn_did = ''did:me'',
        rn_vmc = [(''issuer'', JString ''did:c''), (''credentialSubject'', JObject [(''id'', JString ''did:me'')])],
        rn_role_vac = [(''issuer'', JString ''did:c''), (''credentialSubject'', JObject [(''id'', JString ''did:me'')]),
          (''authority'', JNull)],
        rn_personhood = True, rn_personhood_changed = False\<rparr>),
     rk_response_type = ''renewed'', rk_not_member = ''notMember''\<rparr>"

definition example_renewal_doc :: json where
  "example_renewal_doc = JObject [(''id'', JString ''d2''), (''type'', JString ''renewed''), (''issuer'', JString ''did:c''),
     (''recipient'', JString ''did:me''), (''issuedAt'', JString ''noon''), (''proof'', JString ''p''), (''payload'', JNull)]"

theorem renewal_effect_witness:
  "\<exists>r summary b. verify_renewal_response example_renew_sdk example_credentials_sdk example_sdk example_renewal_doc ''did:c''
       [''did:me''] 5 = Inr r \<and>
     apply_renewal r ''did:c'' 6 example_admitted = Inr (summary, b) \<and>
     map_option (\<lambda>d. map_of (cr_credentials d) RoleKind) (membership b ''did:c'' (rs_persona summary)) = Some (Some (vn_role_vac r))"
proof -
  let ?v = "verify_renewal_response example_renew_sdk example_credentials_sdk example_sdk example_renewal_doc ''did:c'' [''did:me''] 5"
  have v: "isl ?v = False" by code_simp
  then obtain r where r: "?v = Inr r" by (cases ?v) auto
  have "isl (apply_renewal (projr ?v) ''did:c'' 6 example_admitted) = False" by code_simp
  then obtain summary b where b: "apply_renewal r ''did:c'' 6 example_admitted = Inr (summary, b)"
    unfolding r by (cases "apply_renewal r ''did:c'' 6 example_admitted") auto
  from renewal_effect [OF r b] r b show ?thesis by auto
qed

end
