(* ===== verification/MessageGate.thy ===== *)
theory MessageGate
  imports Messaging
begin

text \<open>
  The gates of an inbound message: the age check in its 64-bit arithmetic, and the set of ids seen, shown to be the
  window of the last \<open>cap\<close> ids that passed.
\<close>

section \<open>Age\<close>

lemma sat_add_less: "sat_add a b < c \<longleftrightarrow> unat a + unat b < unat c"
proof -
  have top: "unat (- 1 :: 64 word) = 2 ^ 64 - 1" by (simp add: unsigned_minus_1_eq_mask mask_eq_exp_minus_1)
  have "unat c < 2 ^ 64" using unsigned_less [of c, where ?'a = nat] by simp
  moreover have "unat (a + b) = unat a + unat b" if "unat a + unat b < 2 ^ 64"
    using that by (simp add: unat_add_lem [THEN iffD1])
  ultimately show ?thesis by (auto simp: sat_add_def word_less_nat_alt top)
qed

lemma sat_sub_less: "c < sat_sub a b \<longleftrightarrow> unat c + unat b < unat a"
  by (auto simp: sat_sub_def word_less_nat_alt word_le_nat_alt unat_sub_if')

text \<open>
  The age check decides exactly what it means to, whatever 64-bit stamps a sender writes: a message is taken
  when it was created at most 48 hours before now and at most five minutes after, and has not expired; the saturating
  arithmetic never admits or refuses one that exact arithmetic would not.
\<close>

theorem age_check_exact:
  "check_message_age now m = Inr () \<longleftrightarrow>
     (case dm_created m of None \<Rightarrow> True
      | Some c \<Rightarrow> unat c \<le> unat now + 300 \<and> unat now \<le> unat c + 172800) \<and>
     (case dm_expires m of None \<Rightarrow> True | Some e \<Rightarrow> unat now \<le> unat e)"
proof -
  have widths: "unat max_future_skew_secs = 300" "unat max_message_age_secs = 172800"
    by (simp_all add: max_future_skew_secs_def max_message_age_secs_def)
  note bounds = sat_add_less [of now max_future_skew_secs, unfolded widths] sat_sub_less [of max_message_age_secs now, unfolded widths]
  show ?thesis
    by (cases "dm_created m"; cases "dm_expires m")
      (simp_all add: check_message_age_def bounds ensure_def not_less not_le word_le_nat_alt split: if_split)
qed

section \<open>The window of seen ids\<close>

fun observe_all :: "string list \<Rightarrow> seen_messages \<Rightarrow> bool list \<times> seen_messages" where
  "observe_all [] s = ([], s)"
| "observe_all (i # is) s = (let (repeated, t) = observe i s; (rs, u) = observe_all is t in (repeated # rs, u))"

text \<open>The reference: what passed, newest last, and its last \<open>cap\<close>.\<close>

definition last_n :: "nat \<Rightarrow> 'a list \<Rightarrow> 'a list" where
  "last_n n xs = drop (length xs - n) xs"

fun passed :: "nat \<Rightarrow> string list \<Rightarrow> string list \<Rightarrow> string list" where
  "passed cap acc [] = acc"
| "passed cap acc (i # is) = passed cap (if i \<in> set (last_n cap acc) then acc else acc @ [i]) is"

fun verdicts :: "nat \<Rightarrow> string list \<Rightarrow> string list \<Rightarrow> bool list" where
  "verdicts cap acc [] = []"
| "verdicts cap acc (i # is) =
     (i \<in> set (last_n cap acc)) # verdicts cap (if i \<in> set (last_n cap acc) then acc else acc @ [i]) is"

definition window :: "nat \<Rightarrow> string list \<Rightarrow> seen_messages" where
  "window cap acc = \<lparr>sm_cap = cap, sm_order = last_n cap acc, sm_set = set (last_n cap acc)\<rparr>"

lemma last_n_snoc: "0 < n \<Longrightarrow> last_n n (xs @ [x]) =
    (if length xs < n then xs @ [x] else tl (last_n n xs) @ [x])"
  by (auto simp: last_n_def Suc_diff_le drop_Suc tl_drop)

lemma length_last_n [simp]: "length (last_n n xs) = min n (length xs)"
  by (simp add: last_n_def)

lemma observe_window:
  assumes "0 < cap" "distinct (last_n cap acc)"
  shows "observe i (window cap acc) =
    (i \<in> set (last_n cap acc), window cap (if i \<in> set (last_n cap acc) then acc else acc @ [i]))"
    and "distinct (last_n cap (if i \<in> set (last_n cap acc) then acc else acc @ [i]))"
proof -
  have both: "observe i (window cap acc) =
      (i \<in> set (last_n cap acc), window cap (if i \<in> set (last_n cap acc) then acc else acc @ [i])) \<and>
    distinct (last_n cap (if i \<in> set (last_n cap acc) then acc else acc @ [i]))"
  proof (cases "i \<in> set (last_n cap acc)")
    case True
    with assms show ?thesis by (simp add: observe_def window_def)
  next
    case new: False
    show ?thesis
    proof (cases "length acc < cap")
      case True
      then have "last_n cap acc = acc" by (simp add: last_n_def)
      with new True assms show ?thesis
        by (simp add: observe_def window_def evict_oldest_def last_n_snoc)
    next
      case False
      with assms(1) obtain e rest where w: "last_n cap acc = e # rest"
        by (cases "last_n cap acc") (auto simp: last_n_def)
      have "length (last_n cap acc) = cap" using False by simp
      with new False assms w show ?thesis
        by (auto simp: observe_def window_def evict_oldest_def last_n_snoc)
    qed
  qed
  then show "observe i (window cap acc) =
    (i \<in> set (last_n cap acc), window cap (if i \<in> set (last_n cap acc) then acc else acc @ [i]))"
    "distinct (last_n cap (if i \<in> set (last_n cap acc) then acc else acc @ [i]))" by simp_all
qed

lemma observe_all_window:
  "0 < cap \<Longrightarrow> distinct (last_n cap acc) \<Longrightarrow>
     observe_all is (window cap acc) = (verdicts cap acc is, window cap (passed cap acc is)) \<and>
     distinct (last_n cap (passed cap acc is))"
proof (induction "is" arbitrary: acc)
  case (Cons i "is")
  show ?case
    using Cons.IH [OF Cons.prems(1) observe_window(2) [OF Cons.prems], of i] observe_window(1) [OF Cons.prems, of i]
    by (simp add: Let_def)
qed simp

text \<open>An id that passed stays in the window until \<open>cap\<close> others have passed after it.\<close>

lemma passed_extends: "\<exists>later. passed cap acc is = acc @ later \<and> length later \<le> length is"
proof (induction "is" arbitrary: acc)
  case (Cons i "is")
  let ?acc = "if i \<in> set (last_n cap acc) then acc else acc @ [i]"
  obtain later where "passed cap ?acc is = ?acc @ later" "length later \<le> length is"
    using Cons.IH [of ?acc] by blast
  then show ?case
    by (cases "i \<in> set (last_n cap acc)") auto
qed simp

lemma passed_append: "passed cap acc (us @ vs) = passed cap (passed cap acc us) vs"
  by (induction us arbitrary: acc) auto

lemma stays_in_window:
  assumes "length vs < cap"
  shows "i \<in> set (last_n cap (passed cap (acc @ [i]) vs))"
proof -
  obtain later where later: "passed cap (acc @ [i]) vs = (acc @ [i]) @ later" "length later \<le> length vs"
    using passed_extends by blast
  have "last_n cap (acc @ i # later) = drop (length acc + 1 + length later - cap) (acc @ [i] @ later)"
    by (simp add: last_n_def)
  moreover have "length acc + 1 + length later - cap \<le> length acc" using later(2) assms by simp
  ultimately show ?thesis by (simp add: later(1))
qed

lemma window_empty: "window cap [] = seen_with_capacity cap"
  by (simp add: window_def seen_with_capacity_def last_n_def)

text \<open>(C32) 
  The replay set is the window of the last \<open>cap\<close> ids that passed: over any sequence of messages it answers
  exactly whether an id is among them, never holds more than \<open>cap\<close> ids nor one twice, and an id that passed is
  recognised again for as long as fewer than \<open>cap\<close> messages arrived since.
\<close>

theorem replay_window:
  assumes "0 < cap"
  shows "observe_all ids (seen_with_capacity cap) = (verdicts cap [] ids, window cap (passed cap [] ids)) \<and>
    length (last_n cap (passed cap [] ids)) \<le> cap \<and> distinct (last_n cap (passed cap [] ids)) \<and>
    (length vs < cap \<and> ids = us @ i # vs \<and> i \<notin> set (last_n cap (passed cap [] us)) \<longrightarrow>
       fst (observe i (snd (observe_all ids (seen_with_capacity cap)))))"
proof -
  have "distinct (last_n cap ([] :: string list))" by (simp add: last_n_def)
  from observe_all_window [OF assms this] have run:
    "observe_all ids (seen_with_capacity cap) = (verdicts cap [] ids, window cap (passed cap [] ids))"
    "distinct (last_n cap (passed cap [] ids))"
    by (simp_all add: window_empty)
  have "fst (observe i (snd (observe_all ids (seen_with_capacity cap))))"
    if "length vs < cap" "ids = us @ i # vs" "i \<notin> set (last_n cap (passed cap [] us))"
    using stays_in_window [OF that(1), of i "passed cap [] us"] that(2,3)
    by (simp add: run(1) [unfolded that(2)] passed_append observe_def window_def)
  with run show ?thesis by (simp del: observe_all.simps)
qed

theorem replay_window_witness:
  "fst (observe_all [''a'', ''b'', ''a'', ''c'', ''a''] (seen_with_capacity 2)) = [False, False, True, False, False] \<and>
   fst (observe ''b'' (snd (observe_all [''a'', ''b'', ''a''] (seen_with_capacity 2))))"
proof
  show "fst (observe_all [''a'', ''b'', ''a'', ''c'', ''a''] (seen_with_capacity 2)) = [False, False, True, False, False]"
    using replay_window [of 2 "[''a'', ''b'', ''a'', ''c'', ''a'']"] by (simp add: last_n_def)
  show "fst (observe ''b'' (snd (observe_all [''a'', ''b'', ''a''] (seen_with_capacity 2))))"
    using replay_window [of 2 "[''a'', ''b'', ''a'']" "[''a'']" "[''a'']" "''b''"]
    by (auto simp: last_n_def simp del: observe_all.simps)
qed

end
