(* ===== verification/AccountLoad.thy ===== *)
theory AccountLoad
  imports Account
begin

text \<open>
  Loading a membership (\<open>CommunityRecordShadow\<close>): older forms are folded in, credentials that no longer conform are
  set aside with a notice, and a second load changes nothing.
\<close>

section \<open>Loading a configuration\<close>

lemma known_credentials_saved:
  "distinct (map fst es) \<Longrightarrow> known_credentials (map (\<lambda>(k, vc). (config_key k, vc)) es) = map_of es"
proof -
  have key: "from_config_key (config_key k) = Some k" for k
    by (cases k) (simp_all add: from_config_key_def credential_kinds_def)
  have "distinct (map fst es) \<Longrightarrow> foldl (\<lambda>m (key, vc). case from_config_key key of None \<Rightarrow> m | Some k \<Rightarrow> m(k \<mapsto> vc)) m
      (map (\<lambda>(k, vc). (config_key k, vc)) es) = m ++ map_of es" for m
  proof (induction es arbitrary: m)
    case (Cons e es)
    obtain k vc where e: "e = (k, vc)" by (cases e)
    with Cons.prems have "k \<notin> dom (map_of es)" by (auto simp: dom_map_of_conv_image_fst)
    with Cons e show ?case by (simp add: key map_add_upd_left fun_upd_def [symmetric] map_add_upd map_add_comm)
  qed simp
  from this [of Map.empty] show "distinct (map fst es) \<Longrightarrow>
      known_credentials (map (\<lambda>(k, vc). (config_key k, vc)) es) = map_of es"
    by (simp add: known_credentials_def)
qed

lemma kind_entries_sorted:
  "set (kind_entries m) = {(k, vc). m k = Some vc}" "distinct (map fst (kind_entries m))" "map_of (kind_entries m) = m"
proof -
  have "x \<in> set (kind_entries m) \<longleftrightarrow> m (fst x) = Some (snd x)" for x
    by (cases x; cases "fst x") (auto simp: kind_entries_def credential_kinds_def List.map_filter_simps split: option.split)
  then show "set (kind_entries m) = {(k, vc). m k = Some vc}" by auto
  show "distinct (map fst (kind_entries m))"
    by (simp add: kind_entries_def credential_kinds_def List.map_filter_simps split: option.split)
  show "map_of (kind_entries m) = m"
  proof
    fix k
    show "map_of (kind_entries m) k = m k"
      by (cases k) (simp_all add: kind_entries_def credential_kinds_def List.map_filter_simps split: option.split)
  qed
qed

lemma retire_entries_kept:
  "fst (retire_entries nc now es into) = filter (\<lambda>(_, vc). nc vc = None) es"
  by (induction nc now es into rule: retire_entries.induct) (auto split: option.splits prod.splits)

lemma retire_entries_notices:
  "set into \<subseteq> set (snd (retire_entries nc now es into))"
  "(k, vc) \<in> set es \<Longrightarrow> nc vc \<noteq> None \<Longrightarrow> \<exists>r \<in> set (snd (retire_entries nc now es into)).
     rc_kind r = config_key k \<and> rc_credential_id r = jmember_str ''id'' (Some vc)"
proof (induction nc now es into rule: retire_entries.induct)
  case (2 nc now k' vc' es into)
  have recorded: "set into \<subseteq> set (record_retired kind v reason now into)"
    "\<exists>r \<in> set (record_retired kind v reason now into). rc_kind r = kind \<and> rc_credential_id r = jmember_str ''id'' (Some v)"
    for kind v reason
    by (auto simp: record_retired_def Let_def list_ex_iff)
  {
    case 1
    show ?case using "2.IH"(1,3) recorded(1) by (auto split: option.split prod.split) blast+
  next
    case 2
    show ?case
    proof (cases "nc vc'")
      case None
      with 2 "2.IH"(2) show ?thesis by (auto split: prod.splits)
    next
      case (Some reason)
      show ?thesis
      proof (cases "(k, vc) = (k', vc')")
        case True
        with Some recorded(2) [of "config_key k'" vc' reason] "2.IH"(3) [OF Some] show ?thesis by auto
      next
        case False
        with 2 Some "2.IH"(4) [OF Some] show ?thesis by auto
      qed
    qed
  }
qed simp_all

text \<open>A loaded record as the next load reads it: credentials under their configuration keys, no flat fields.\<close>

definition saved_record :: "community_record \<Rightarrow> community_record_shadow" where
  "saved_record c = \<lparr>sh_record = c, sh_credentials = map (\<lambda>(k, vc). (config_key k, vc)) (cr_credentials c),
     sh_membership_credential = None, sh_role_credential = None\<rparr>"

lemma kind_entries_filter:
  "kind_entries (map_of (filter (\<lambda>(_, vc). q vc) (kind_entries m))) = filter (\<lambda>(_, vc). q vc) (kind_entries m)"
  by (cases "m MembershipKind"; cases "m RoleKind"; cases "m CommunityVettingKind")
    (simp_all add: kind_entries_def credential_kinds_def List.map_filter_simps)

lemma retire_kept_again:
  "\<forall>(_, vc) \<in> set es. nc vc = None \<Longrightarrow> retire_entries nc now es into = (es, into)"
  by (induction es) auto

definition loaded_kinds :: "community_record_shadow \<Rightarrow> (credential_kind \<rightharpoonup> json)" where
  "loaded_kinds sh = or_insert RoleKind (sh_role_credential sh)
     (or_insert MembershipKind (sh_membership_credential sh) (known_credentials (sh_credentials sh)))"

lemma record_from_shadow_fields:
  "cr_credentials (record_from_shadow nc now sh) = filter (\<lambda>(_, vc). nc vc = None) (kind_entries (loaded_kinds sh))"
  "cr_member_vmc (record_from_shadow nc now sh) =
     (case cr_member_vmc (sh_record sh) of None \<Rightarrow> None | Some vc \<Rightarrow> if nc vc = None then Some vc else None)"
  using retire_entries_kept [of nc now "kind_entries (loaded_kinds sh)" "cr_retired_credentials (sh_record sh)"]
  unfolding record_from_shadow_def loaded_kinds_def [symmetric] Let_def
  by (auto simp: retire_member_vmc_def split: prod.split option.split)

lemma record_from_shadow_retired:
  "cr_retired_credentials (record_from_shadow nc now sh) = snd (retire_member_vmc nc now (cr_member_vmc (sh_record sh))
     (snd (retire_entries nc now (kind_entries (loaded_kinds sh)) (cr_retired_credentials (sh_record sh)))))"
  unfolding record_from_shadow_def loaded_kinds_def [symmetric] Let_def by (simp split: prod.split)

text \<open>
  Loading settles at once: what a load produced, saved and loaded again, is the same record, at any later time
  and whatever the first one had to fold in or set aside.
\<close>

theorem load_is_stable:
  "record_from_shadow nc later (saved_record (record_from_shadow nc now sh)) = record_from_shadow nc now sh"
proof -
  let ?c = "record_from_shadow nc now sh"
  have d: "distinct (map fst (cr_credentials ?c))"
    by (simp add: record_from_shadow_fields distinct_map_filter kind_entries_sorted(2))
  have kinds: "loaded_kinds (saved_record ?c) = map_of (cr_credentials ?c)"
    by (simp add: loaded_kinds_def saved_record_def or_insert_def known_credentials_saved [OF d])
  have entries: "kind_entries (loaded_kinds (saved_record ?c)) = cr_credentials ?c"
    unfolding kinds by (simp add: record_from_shadow_fields kind_entries_filter)
  have same: "retire_entries nc later (cr_credentials ?c) into = (cr_credentials ?c, into)" for into
    by (rule retire_kept_again) (auto simp: record_from_shadow_fields)
  have vmc: "retire_member_vmc nc later (cr_member_vmc ?c) into = (cr_member_vmc ?c, into)" for into
    by (auto simp: retire_member_vmc_def record_from_shadow_fields split: option.split)
  show ?thesis
    unfolding record_from_shadow_def [of nc later] loaded_kinds_def [symmetric] entries Let_def
    by (simp add: same vmc saved_record_def)
qed

text \<open>
  No credential leaves a membership in silence: after a load every stored credential of a known kind is either
  held, or does not conform and is noticed under its kind and id; the same for the member's own acknowledgement.
\<close>

theorem load_keeps_or_notices:
  assumes "loaded_kinds sh k = Some vc"
  shows "(nc vc = None \<and> map_of (cr_credentials (record_from_shadow nc now sh)) k = Some vc) \<or>
    (nc vc \<noteq> None \<and> map_of (cr_credentials (record_from_shadow nc now sh)) k = None \<and>
     (\<exists>r \<in> set (cr_retired_credentials (record_from_shadow nc now sh)).
        rc_kind r = config_key k \<and> rc_credential_id r = jmember_str ''id'' (Some vc)))"
proof -
  let ?es = "kind_entries (loaded_kinds sh)"
  have mem: "(k, vc) \<in> set ?es" using assms by (simp add: kind_entries_sorted)
  have lookup: "map_of (filter (\<lambda>(_, v). nc v = None) ?es) k = (if nc vc = None then Some vc else None)"
  proof (cases "nc vc = None")
    case True
    with mem show ?thesis by (auto intro!: map_of_is_SomeI simp: distinct_map_filter kind_entries_sorted(2))
  next
    case False
    have "map_of (filter (\<lambda>(_, v). nc v = None) ?es) k = None"
      unfolding map_of_eq_None_iff using assms False by (auto simp: kind_entries_sorted)
    then show ?thesis using False by simp
  qed
  show ?thesis
  proof (cases "nc vc = None")
    case True
    with lookup show ?thesis by (simp add: record_from_shadow_fields)
  next
    case False
    from retire_entries_notices(2) [of k vc ?es nc, OF mem False] obtain r where
      r: "r \<in> set (snd (retire_entries nc now ?es (cr_retired_credentials (sh_record sh))))"
      "rc_kind r = config_key k" "rc_credential_id r = jmember_str ''id'' (Some vc)" by blast
    then have "r \<in> set (cr_retired_credentials (record_from_shadow nc now sh))"
      by (auto simp: record_from_shadow_retired retire_member_vmc_def record_retired_def Let_def split: option.split)
    with r False lookup show ?thesis by (auto simp: record_from_shadow_fields)
  qed
qed

theorem load_keeps_or_notices_witness:
  "map_of (cr_credentials (record_from_shadow (\<lambda>_. Some ''old'') 5 \<lparr>sh_record = example_member, sh_credentials = [],
     sh_membership_credential = Some JNull, sh_role_credential = None\<rparr>)) MembershipKind = None"
proof -
  have "loaded_kinds \<lparr>sh_record = example_member, sh_credentials = [],
     sh_membership_credential = Some JNull, sh_role_credential = None\<rparr> MembershipKind = Some JNull"
    by (simp add: loaded_kinds_def or_insert_def known_credentials_def)
  from load_keeps_or_notices [OF this, of "\<lambda>_. Some ''old''" 5] show ?thesis by simp
qed

end
