(* ===== verification/KeyedQueue.thy ===== *)
theory KeyedQueue
  imports Prelude
begin

text \<open>
  The contract of a queue that holds messages under a key (a sender) and hands them back: what is waiting under a key
  is a list, a message taken in goes to its end, a message handed back was its head, and nothing else moves. A client
  may rely on the order of each key. A queue with a part that is served first promises besides that what is in that
  part comes back next, in its order, whatever is taken in meanwhile.
\<close>

section \<open>Runs of a queue\<close>

text \<open>
  A push may refuse (\<open>None\<close>) and a pop may find nothing; both answer what went in or came out, with its key.
  \<open>queue_run\<close> runs a list of them and collects what was accepted and what was handed back, in order.
\<close>

datatype ('a, 'b) queue_op = Push 'a | Pop 'b

fun queue_run ::
  "('a \<Rightarrow> 's \<Rightarrow> ('k \<times> 'm) option \<times> 's) \<Rightarrow> ('b \<Rightarrow> 's \<Rightarrow> ('k \<times> 'm) option \<times> 's) \<Rightarrow> ('a, 'b) queue_op list \<Rightarrow> 's
     \<Rightarrow> ('k \<times> 'm) list \<times> ('k \<times> 'm) list \<times> 's" where
  "queue_run push pop [] s = ([], [], s)"
| "queue_run push pop (Push a # ops) s =
     (case push a s of (r, s1) \<Rightarrow>
      case queue_run push pop ops s1 of (ins, outs, s2) \<Rightarrow> ((case r of None \<Rightarrow> ins | Some x \<Rightarrow> x # ins), outs, s2))"
| "queue_run push pop (Pop b # ops) s =
     (case pop b s of (r, s1) \<Rightarrow>
      case queue_run push pop ops s1 of (ins, outs, s2) \<Rightarrow> (ins, (case r of None \<Rightarrow> outs | Some x \<Rightarrow> x # outs), s2))"

text \<open>The messages of one key.\<close>

definition under :: "'k \<Rightarrow> ('k \<times> 'm) list \<Rightarrow> 'm list" where
  "under k xs = map snd (filter (\<lambda>(j, _). j = k) xs)"

lemma under_simps [simp]:
  "under k [] = []" "under k ((j, m) # xs) = (if j = k then m # under k xs else under k xs)"
  "under k (xs @ ys) = under k xs @ under k ys"
  by (simp_all add: under_def)

section \<open>The contract\<close>

locale keyed_queue =
  fixes inv :: "'s \<Rightarrow> bool"
    and waiting :: "'s \<Rightarrow> 'k \<Rightarrow> 'm list"
    and push :: "'a \<Rightarrow> 's \<Rightarrow> ('k \<times> 'm) option \<times> 's"
    and pop :: "'b \<Rightarrow> 's \<Rightarrow> ('k \<times> 'm) option \<times> 's"
  assumes inv_push: "inv s \<Longrightarrow> inv (snd (push a s))"
    and inv_pop: "inv s \<Longrightarrow> inv (snd (pop b s))"
    and push_waiting: "inv s \<Longrightarrow> waiting (snd (push a s)) k = waiting s k @ under k (case fst (push a s) of None \<Rightarrow> [] | Some x \<Rightarrow> [x])"
    and pop_waiting: "inv s \<Longrightarrow> waiting s k = under k (case fst (pop b s) of None \<Rightarrow> [] | Some x \<Rightarrow> [x]) @ waiting (snd (pop b s)) k"
begin

lemma run_fifo:
  assumes "inv s" "queue_run push pop ops s = (ins, outs, t)"
  shows "inv t \<and> waiting s k @ under k ins = under k outs @ waiting t k"
  using assms
proof (induction ops arbitrary: s ins outs)
  case (Cons op ops)
  show ?case
  proof (cases op)
    case (Push a)
    obtain r s1 where p: "push a s = (r, s1)" by fastforce
    obtain ins1 outs1 where q: "queue_run push pop ops s1 = (ins1, outs1, t)" "outs = outs1"
        "ins = (case r of None \<Rightarrow> ins1 | Some x \<Rightarrow> x # ins1)"
      using Cons.prems(2) p Push by (auto split: prod.splits)
    have "inv s1" using inv_push [OF Cons.prems(1), of a] p by simp
    from Cons.IH [OF this q(1)] show ?thesis
      using push_waiting [OF Cons.prems(1), of a k] p q by (auto split: option.splits)
  next
    case (Pop b)
    obtain r s1 where p: "pop b s = (r, s1)" by fastforce
    obtain ins1 outs1 where q: "queue_run push pop ops s1 = (ins1, outs1, t)" "ins = ins1"
        "outs = (case r of None \<Rightarrow> outs1 | Some x \<Rightarrow> x # outs1)"
      using Cons.prems(2) p Pop by (auto split: prod.splits)
    have "inv s1" using inv_pop [OF Cons.prems(1), of b] p by simp
    from Cons.IH [OF this q(1)] show ?thesis
      using pop_waiting [OF Cons.prems(1), of k b] p q by (auto split: option.splits)
  qed
qed simp

end

text \<open>A queue with a part served first: a push leaves it a prefix of what it becomes.\<close>

locale priority_queue = keyed_queue +
  fixes front :: "'s \<Rightarrow> ('k \<times> 'm) list"
  assumes push_front: "inv s \<Longrightarrow> \<exists>more. front (snd (push a s)) = front s @ more"
    and pop_front: "inv s \<Longrightarrow> front s = x # xs \<Longrightarrow> fst (pop b s) = Some x \<and> (\<exists>more. front (snd (pop b s)) = xs @ more)"
begin

lemma run_front:
  assumes "inv s" "queue_run push pop ops s = (ins, outs, t)" "n \<le> length (front s)" "n \<le> length outs"
  shows "take n outs = take n (front s)"
  using assms
proof (induction ops arbitrary: s ins outs n)
  case (Cons op ops)
  show ?case
  proof (cases op)
    case (Push a)
    obtain r s1 where p: "push a s = (r, s1)" by fastforce
    obtain ins1 where q: "queue_run push pop ops s1 = (ins1, outs, t)"
      using Cons.prems(2) p Push by (auto split: prod.splits)
    have i: "inv s1" using inv_push [OF Cons.prems(1), of a] p by simp
    obtain more where m: "front s1 = front s @ more" using push_front [OF Cons.prems(1), of a] p by auto
    from Cons.IH [OF i q, of n] Cons.prems(3,4) m show ?thesis by simp
  next
    case (Pop b)
    obtain r s1 where p: "pop b s = (r, s1)" by fastforce
    obtain ins1 outs1 where q: "queue_run push pop ops s1 = (ins1, outs1, t)"
        "outs = (case r of None \<Rightarrow> outs1 | Some x \<Rightarrow> x # outs1)"
      using Cons.prems(2) p Pop by (auto split: prod.splits)
    have i: "inv s1" using inv_pop [OF Cons.prems(1), of b] p by simp
    show ?thesis
    proof (cases n)
      case (Suc m)
      then obtain x xs where x: "front s = x # xs" using Cons.prems(3) by (cases "front s") auto
      obtain more where m: "front s1 = xs @ more" and r: "r = Some x"
        using pop_front [OF Cons.prems(1) x, of b] p by auto
      from Cons.IH [OF i q(1), of m] Cons.prems(3,4) q(2) r m x Suc show ?thesis by simp
    qed simp
  qed
qed simp

end

end
