(* ===== verification/RelationFlow.thy ===== *)
theory RelationFlow
  imports Messaging
begin

text \<open>
  The relationship handshake and the exchange of relationship credentials, as the event loop runs them: the inbound
  messages (\<open>process_inbound\<close> of \<open>message_dispatch.rs\<close>), and what the user's own actions leave once their send has
  ended (\<open>RelationshipOutcome::apply\<close>, \<open>InboxOutcome::apply\<close>, \<open>accept_vrc\<close>).

  \<open>peer_state\<close> is the part of the configuration they share; contacts, key metadata, witnessings, logs and the
  transport are left out. A handler answers an error or whether it changed anything, with the state: an error always
  comes before the first change. What the bodies parse to and the proofs they carry verify to are the fields of
  \<open>relation_sdk\<close>; a network-bound check runs before the message is handled, so its result is an argument.
\<close>

section \<open>Messages and state\<close>

datatype message_type =
    MsgRelationshipRequest | MsgRelationshipRequestRejected | MsgRelationshipRequestAccepted
  | MsgRelationshipRequestFinalize | MsgTrustPing | MsgTrustPong | MsgVRCRequest | MsgVRCRequestRejected | MsgVRCIssued

fun message_type_url :: "message_type \<Rightarrow> string" where
  "message_type_url MsgRelationshipRequest = ''https://linuxfoundation.org/openvtc/1.0/relationship-request''"
| "message_type_url MsgRelationshipRequestRejected = ''https://linuxfoundation.org/openvtc/1.0/relationship-request-reject''"
| "message_type_url MsgRelationshipRequestAccepted = ''https://linuxfoundation.org/openvtc/1.0/relationship-request-accept''"
| "message_type_url MsgRelationshipRequestFinalize = ''https://linuxfoundation.org/openvtc/1.0/relationship-request-finalize''"
| "message_type_url MsgTrustPing = ''https://didcomm.org/trust-ping/2.0/ping''"
| "message_type_url MsgTrustPong = ''https://didcomm.org/trust-ping/2.0/ping-response''"
| "message_type_url MsgVRCRequest = ''https://firstperson.network/vrc/1.0/request''"
| "message_type_url MsgVRCRequestRejected = ''https://firstperson.network/vrc/1.0/rejected''"
| "message_type_url MsgVRCIssued = ''https://firstperson.network/vrc/1.0/issued''"

definition message_type_of :: "string \<Rightarrow> message_type option" where
  "message_type_of url = List.find (\<lambda>t. message_type_url t = url)
     [MsgRelationshipRequest, MsgRelationshipRequestRejected, MsgRelationshipRequestAccepted,
      MsgRelationshipRequestFinalize, MsgTrustPing, MsgTrustPong, MsgVRCRequest, MsgVRCRequestRejected, MsgVRCIssued]"

record peer_state =
  ps_relationships :: relationships
  ps_tasks :: tasks
  ps_issued :: vrcs
  ps_received :: vrcs

definition max_relationships :: nat where "max_relationships = 5000"

record relation_sdk =
  rw_request :: "json \<Rightarrow> relationship_request_body option"
  rw_request_json :: "relationship_request_body \<Rightarrow> json"
  rw_accept :: "json \<Rightarrow> relationship_accept_body option"
  rw_accept_json :: "relationship_accept_body \<Rightarrow> json"
  rw_reject :: "json \<Rightarrow> relationship_reject_body option"
  rw_vrc_request :: "json \<Rightarrow> vrc_request option"
  rw_vrc_reject :: "json \<Rightarrow> string option option"
  rw_vrc :: "json \<Rightarrow> dtg_credential option"
  rw_src :: "string \<Rightarrow> string option"
  rw_strip_src :: "string \<Rightarrow> string"
  rw_verify :: "json \<Rightarrow> string \<Rightarrow> string option"
  rw_vrc_error :: "dtg_credential \<Rightarrow> string option"

text \<open>\<open>validate_did(did).is_ok()\<close>.\<close>

definition did_valid :: "relation_sdk \<Rightarrow> string \<Rightarrow> bool" where
  "did_valid w did \<longleftrightarrow> validate_did (rw_src w) (rw_strip_src w) did = Some True"

definition first_recipient :: "didcomm_message \<Rightarrow> string" where
  "first_recipient m = (case dm_to m of Some (d # _) \<Rightarrow> d | _ \<Rightarrow> [])"

type_synonym handled = "string + bool \<times> peer_state"

section \<open>Inbound: the answers to our own requests\<close>

definition inbound_reject :: "relation_sdk \<Rightarrow> didcomm_message \<Rightarrow> string \<Rightarrow> peer_state \<Rightarrow> handled" where
  "inbound_reject w m sender ps =
     rbind (require_thid m) (\<lambda>task_id.
     rbind (ok_or ''malformed body'' (rw_reject w (dm_body m))) (\<lambda>_.
       if awaiting (ps_relationships ps) task_id RequestSent sender = None then Inr (False, ps)
       else case remove_by_task_id task_id (ps_relationships ps) (ps_issued ps) (ps_received ps) of
              (_, rs, issued, received) \<Rightarrow>
                Inr (True, ps\<lparr>ps_relationships := rs, ps_issued := issued, ps_received := received,
                              ps_tasks := snd (tasks_remove task_id (ps_tasks ps))\<rparr>)))"

definition inbound_accept ::
  "relation_sdk \<Rightarrow> did_binding_error + unit \<Rightarrow> didcomm_message \<Rightarrow> string \<Rightarrow> peer_state \<Rightarrow> handled" where
  "inbound_accept w checked m sender ps =
     rbind (require_thid m) (\<lambda>task_id.
     rbind (ok_or ''malformed body'' (rw_accept w (dm_body m))) (\<lambda>body.
       if \<not> did_valid w (rla_did body) then Inr (False, ps)
       else case awaiting (ps_relationships ps) task_id RequestSent sender of
              None \<Rightarrow> Inr (False, ps)
            | Some key \<Rightarrow>
                (case checked of
                   Inl _ \<Rightarrow> Inr (True, ps)
                 | Inr _ \<Rightarrow>
                     Inr (True, ps\<lparr>ps_relationships := rel_modify key
                            (\<lambda>r. r\<lparr>rl_state := Established, rl_remote_did := rla_did body\<rparr>) (ps_relationships ps),
                          ps_tasks := snd (tasks_remove task_id (ps_tasks ps))\<rparr>))))"

text \<open>What an accepted request is answered with.\<close>

definition create_finalize_message :: "string \<Rightarrow> 64 word \<Rightarrow> string \<Rightarrow> string \<Rightarrow> string \<Rightarrow> didcomm_message" where
  "create_finalize_message fresh now sender recipient thid =
     build_didcomm_message fresh now (message_type_url MsgRelationshipRequestFinalize) (JObject []) sender recipient (Some thid)"

definition inbound_finalize :: "didcomm_message \<Rightarrow> string \<Rightarrow> peer_state \<Rightarrow> handled" where
  "inbound_finalize m sender ps =
     rbind (require_thid m) (\<lambda>task_id.
       case awaiting (ps_relationships ps) task_id RequestAccepted sender of
         None \<Rightarrow> Inr (False, ps)
       | Some key \<Rightarrow>
           Inr (True, ps\<lparr>ps_relationships := rel_modify key (\<lambda>r. r\<lparr>rl_state := Established\<rparr>) (ps_relationships ps),
                         ps_tasks := snd (tasks_remove task_id (ps_tasks ps))\<rparr>))"

definition inbound_pong :: "didcomm_message \<Rightarrow> peer_state \<Rightarrow> handled" where
  "inbound_pong m ps =
     Inr (True, case dm_thid m of None \<Rightarrow> ps | Some task_id \<Rightarrow> ps\<lparr>ps_tasks := snd (tasks_remove task_id (ps_tasks ps))\<rparr>)"

definition inbound_vrc_reject :: "relation_sdk \<Rightarrow> didcomm_message \<Rightarrow> string \<Rightarrow> peer_state \<Rightarrow> handled" where
  "inbound_vrc_reject w m sender ps =
     rbind (require_thid m) (\<lambda>task_id.
     rbind (ok_or ''malformed body'' (rw_vrc_reject w (dm_body m))) (\<lambda>_.
       if \<not> is_our_vrc_request_to (ps_tasks ps) (ps_relationships ps) task_id sender then Inr (False, ps)
       else Inr (True, ps\<lparr>ps_tasks := snd (tasks_remove task_id (ps_tasks ps))\<rparr>)))"

section \<open>Inbound: what waits in the inbox for the user\<close>

definition relationship_request_admissible :: "string \<Rightarrow> string \<Rightarrow> peer_state \<Rightarrow> string + unit" where
  "relationship_request_admissible task_id sender ps =
     rbind (ensure (check_task_capacity (ps_tasks ps) task_id) ''no room for another task'') (\<lambda>_.
     rbind (ensure (length (rs_map (ps_relationships ps)) < max_relationships) ''relationship limit reached'') (\<lambda>_.
     rbind (ensure (rel_get (ps_relationships ps) sender = None \<and> find_by_remote_did (ps_relationships ps) sender = None)
             ''a relationship with this party already exists'') (\<lambda>_.
       ensure (\<not> list_ex (\<lambda>t. case tk_type t of RelationshipRequestInbound from _ _ \<Rightarrow> from = sender | _ \<Rightarrow> False)
                 (map snd (ps_tasks ps)))
         ''a request from this party is already waiting'')))"

definition queue_task :: "string \<Rightarrow> task_type \<Rightarrow> persona_id option \<Rightarrow> instant \<Rightarrow> peer_state \<Rightarrow> peer_state" where
  "queue_task task_id ty persona now ps = ps\<lparr>ps_tasks := new_task_for task_id ty persona now (ps_tasks ps)\<rparr>"

definition inbound_request ::
  "relation_sdk \<Rightarrow> did_binding_error + unit \<Rightarrow> didcomm_message \<Rightarrow> string \<Rightarrow> persona_id option \<Rightarrow> instant \<Rightarrow> peer_state \<Rightarrow> handled"
  where
  "inbound_request w checked m sender persona now ps =
     rbind (ok_or ''malformed body'' (rw_request w (dm_body m))) (\<lambda>body.
       if \<not> did_valid w (rlb_did body) then Inr (False, ps)
       else case relationship_request_admissible (dm_id m) sender ps of
              Inl _ \<Rightarrow> Inr (False, ps)
            | Inr _ \<Rightarrow>
                (case checked of
                   Inl _ \<Rightarrow> Inr (False, ps)
                 | Inr _ \<Rightarrow>
                     Inr (True, queue_task (dm_id m) (RelationshipRequestInbound sender (first_recipient m) body) persona now ps)))"

definition inbound_vrc_request ::
  "relation_sdk \<Rightarrow> didcomm_message \<Rightarrow> string \<Rightarrow> persona_id option \<Rightarrow> instant \<Rightarrow> peer_state \<Rightarrow> handled" where
  "inbound_vrc_request w m sender persona now ps =
     rbind (ok_or ''malformed body'' (rw_vrc_request w (dm_body m))) (\<lambda>body.
     rbind (ok_or ''VRC request but no relationship found'' (find_by_remote_did (ps_relationships ps) sender)) (\<lambda>r.
       if rl_state r \<noteq> Established then Inr (False, ps)
       else if \<not> check_task_capacity (ps_tasks ps) (dm_id m) then Inr (False, ps)
       else Inr (True, queue_task (dm_id m) (VRCRequestInbound body (rl_remote_p_did r)) persona now ps)))"

definition inbound_vrc_issued ::
  "relation_sdk \<Rightarrow> string + unit \<Rightarrow> didcomm_message \<Rightarrow> string \<Rightarrow> persona_id option \<Rightarrow> instant \<Rightarrow> peer_state \<Rightarrow> handled" where
  "inbound_vrc_issued w checked m sender persona now ps =
     rbind (ok_or ''malformed body'' (rw_vrc w (dm_body m))) (\<lambda>vrc.
       case vet_vrc_issued (ps_relationships ps) (ps_tasks ps) vrc sender (dm_thid m) of
         Inl _ \<Rightarrow> Inr (False, ps)
       | Inr pending \<Rightarrow>
           (case checked of
              Inl _ \<Rightarrow> Inr (False, ps)
            | Inr _ \<Rightarrow>
                let task_id = (case pending of Some i \<Rightarrow> i | None \<Rightarrow> dm_id m);
                    ps1 = (case pending of
                             Some i \<Rightarrow> ps\<lparr>ps_tasks := snd (tasks_remove i (ps_tasks ps))\<rparr>
                           | None \<Rightarrow> ps)
                in if \<not> check_task_capacity (ps_tasks ps1) task_id then Inr (False, ps1)
                   else Inr (True, queue_task task_id (VRCIssued vrc) persona now ps1)))"

definition inbound_ping :: "didcomm_message \<Rightarrow> string \<Rightarrow> persona_id option \<Rightarrow> instant \<Rightarrow> peer_state \<Rightarrow> handled" where
  "inbound_ping m sender persona now ps =
     (if \<not> check_task_capacity (ps_tasks ps) (dm_id m) then Inr (False, ps)
      else case find_by_remote_did (ps_relationships ps) sender of
             None \<Rightarrow> Inr (True, ps)
           | Some r \<Rightarrow>
               Inr (True, queue_task (dm_id m) (TrustPing sender (first_recipient m) (rl_remote_p_did r)) persona now ps))"

section \<open>The checks run before\<close>

text \<open>
  \<open>verification_job\<close> asks for a check only when the local tests pass, against the state as the message arrived; a
  message without one is handled with "not checked".
\<close>

definition request_check ::
  "relation_sdk \<Rightarrow> didcomm_message \<Rightarrow> string \<Rightarrow> string \<Rightarrow> peer_state \<Rightarrow> did_binding_error + unit" where
  "request_check w m sender recipient ps =
     (case rw_request w (dm_body m) of
        None \<Rightarrow> Inl BindingNotChecked
      | Some body \<Rightarrow>
          if did_valid w (rlb_did body) \<and> relationship_request_admissible (dm_id m) sender ps = Inr () then
            verify_did_binding (rw_verify w) (rlb_did body) (rlb_did_proof body) sender (rlb_persona_proof body)
              recipient (dm_id m) RoleRequest
          else Inl BindingNotChecked)"

definition accept_check ::
  "relation_sdk \<Rightarrow> didcomm_message \<Rightarrow> string \<Rightarrow> string \<Rightarrow> peer_state \<Rightarrow> did_binding_error + unit" where
  "accept_check w m sender recipient ps =
     (case (rw_accept w (dm_body m), dm_thid m) of
        (Some body, Some thid) \<Rightarrow>
          if did_valid w (rla_did body) \<and> awaiting (ps_relationships ps) thid RequestSent sender \<noteq> None then
            verify_did_binding (rw_verify w) (rla_did body) (rla_did_proof body) sender (rla_persona_proof body)
              recipient thid RoleAccept
          else Inl BindingNotChecked
      | _ \<Rightarrow> Inl BindingNotChecked)"

definition vrc_check :: "relation_sdk \<Rightarrow> didcomm_message \<Rightarrow> string \<Rightarrow> peer_state \<Rightarrow> string + unit" where
  "vrc_check w m sender ps =
     (case rw_vrc w (dm_body m) of
        None \<Rightarrow> Inl ''its proof was not checked''
      | Some vrc \<Rightarrow>
          (case vet_vrc_issued (ps_relationships ps) (ps_tasks ps) vrc sender (dm_thid m) of
             Inl _ \<Rightarrow> Inl ''its proof was not checked''
           | Inr _ \<Rightarrow> (case rw_vrc_error w vrc of None \<Rightarrow> Inr () | Some e \<Rightarrow> Inl e)))"

text \<open>One message, by its type; \<open>arrived\<close> is the state its check was decided against.\<close>

definition inbound ::
  "relation_sdk \<Rightarrow> peer_state \<Rightarrow> didcomm_message \<Rightarrow> string \<Rightarrow> string \<Rightarrow> persona_id option \<Rightarrow> instant \<Rightarrow> peer_state \<Rightarrow> handled"
  where
  "inbound w arrived m sender recipient persona now ps =
     (case message_type_of (dm_type m) of
        None \<Rightarrow> Inr (False, ps)
      | Some MsgRelationshipRequestRejected \<Rightarrow> inbound_reject w m sender ps
      | Some MsgRelationshipRequestAccepted \<Rightarrow> inbound_accept w (accept_check w m sender recipient arrived) m sender ps
      | Some MsgRelationshipRequestFinalize \<Rightarrow> inbound_finalize m sender ps
      | Some MsgTrustPong \<Rightarrow> inbound_pong m ps
      | Some MsgVRCRequestRejected \<Rightarrow> inbound_vrc_reject w m sender ps
      | Some MsgRelationshipRequest \<Rightarrow>
          inbound_request w (request_check w m sender recipient arrived) m sender persona now ps
      | Some MsgVRCRequest \<Rightarrow> inbound_vrc_request w m sender persona now ps
      | Some MsgVRCIssued \<Rightarrow> inbound_vrc_issued w (vrc_check w m sender arrived) m sender persona now ps
      | Some MsgTrustPing \<Rightarrow> inbound_ping m sender persona now ps)"

section \<open>The user's actions\<close>

text \<open>
  \<open>prepare_submit\<close> records the request before it is sent, keyed by the respondent's persona; \<open>create_applied\<close> is what
  the end of the send leaves.
\<close>

definition prepare_submit ::
  "string \<Rightarrow> string \<Rightarrow> string \<Rightarrow> persona_id option \<Rightarrow> instant \<Rightarrow> peer_state \<Rightarrow> string + peer_state" where
  "prepare_submit respondent persona_did msg_id persona now ps =
     rbind (ensure (strip_prefix ''did:'' respondent \<noteq> None) ''Invalid DID: must start with did:'') (\<lambda>_.
     rbind (ensure (case rel_get (ps_relationships ps) respondent of None \<Rightarrow> True | Some r \<Rightarrow> rl_state r \<noteq> Established)
             ''An established relationship already exists with this DID'') (\<lambda>_.
       Inr (ps\<lparr>ps_relationships := rel_insert respondent
              \<lparr>rl_task_id = msg_id, rl_our_did = persona_did, rl_remote_did = respondent, rl_remote_p_did = respondent,
               rl_created = now, rl_state = RequestSent, rl_our_persona = persona, rl_needs_reestablishment = False\<rparr>
              (ps_relationships ps)\<rparr>)))"

definition create_request_message ::
  "relation_sdk \<Rightarrow> 64 word \<Rightarrow> string \<Rightarrow> string \<Rightarrow> string \<Rightarrow> string option \<Rightarrow> string \<Rightarrow> string option \<Rightarrow> json \<times> json option
     \<Rightarrow> didcomm_message" where
  "create_request_message w now msg_id sender recipient reason our_did name proofs =
     (build_didcomm_message msg_id now (message_type_url MsgRelationshipRequest)
        (rw_request_json w \<lparr>rlb_reason = reason, rlb_did = our_did, rlb_name = name, rlb_did_proof = Some (fst proofs),
            rlb_persona_proof = snd proofs\<rparr>) sender recipient None)\<lparr>dm_id := msg_id\<rparr>"

definition create_applied ::
  "bool \<Rightarrow> string \<Rightarrow> string \<Rightarrow> string \<Rightarrow> persona_id option \<Rightarrow> instant \<Rightarrow> peer_state \<Rightarrow> peer_state" where
  "create_applied sent_ok respondent our_did msg_id persona now ps =
     (if sent_ok then
        (case rel_get (ps_relationships ps) respondent of
           None \<Rightarrow> ps
         | Some r \<Rightarrow>
             if rl_state r = RequestSent then
               queue_task msg_id (RelationshipRequestOutbound respondent) persona now
                 (ps\<lparr>ps_relationships :=
                    rel_modify respondent (\<lambda>r. r\<lparr>rl_our_did := our_did, rl_task_id := msg_id\<rparr>) (ps_relationships ps)\<rparr>)
             else ps\<lparr>ps_relationships := rel_modify respondent (\<lambda>r. r\<lparr>rl_our_did := our_did\<rparr>) (ps_relationships ps)\<rparr>)
      else
        (case rel_get (ps_relationships ps) respondent of
           None \<Rightarrow> ps
         | Some r \<Rightarrow>
             if rl_state r = RequestSent then
               ps\<lparr>ps_relationships := (ps_relationships ps)\<lparr>rs_map := AList.delete respondent (rs_map (ps_relationships ps))\<rparr>\<rparr>
             else ps))"

text \<open>The inbound request an acceptance or a refusal answers: its sender and the DID it will use.\<close>

definition request_in_task :: "string \<Rightarrow> peer_state \<Rightarrow> (string \<times> string) option" where
  "request_in_task task_id ps =
     (case get_by_id (ps_tasks ps) task_id of
        None \<Rightarrow> None
      | Some t \<Rightarrow> (case tk_type t of RelationshipRequestInbound from _ request \<Rightarrow> Some (from, rlb_did request) | _ \<Rightarrow> None))"

definition build_accept_message ::
  "relation_sdk \<Rightarrow> string \<Rightarrow> 64 word \<Rightarrow> string \<Rightarrow> string \<Rightarrow> string \<Rightarrow> string \<Rightarrow> json \<times> json option \<Rightarrow> didcomm_message" where
  "build_accept_message w fresh now sender recipient r_did thid proofs =
     build_didcomm_message fresh now (message_type_url MsgRelationshipRequestAccepted)
       (rw_accept_json w \<lparr>rla_did = r_did, rla_did_proof = Some (fst proofs), rla_persona_proof = snd proofs\<rparr>)
       sender recipient (Some thid)"

definition accept_applied ::
  "bool \<Rightarrow> string \<Rightarrow> string \<Rightarrow> string \<Rightarrow> string \<Rightarrow> persona_id option \<Rightarrow> instant \<Rightarrow> peer_state \<Rightarrow> peer_state" where
  "accept_applied sent_ok task_id from their_did our_did persona now ps =
     (if \<not> sent_ok then ps
      else ps\<lparr>ps_relationships := rel_insert from
                \<lparr>rl_task_id = task_id, rl_our_did = our_did, rl_remote_did = their_did, rl_remote_p_did = from,
                 rl_created = now, rl_state = RequestAccepted, rl_our_persona = persona, rl_needs_reestablishment = False\<rparr>
                (ps_relationships ps),
              ps_tasks := snd (tasks_remove task_id (ps_tasks ps))\<rparr>)"

text \<open>The end of sending a refusal, of a relationship or of a credential request.\<close>

definition refusal_applied :: "bool \<Rightarrow> string \<Rightarrow> peer_state \<Rightarrow> peer_state" where
  "refusal_applied sent_ok task_id ps =
     (if sent_ok then ps\<lparr>ps_tasks := snd (tasks_remove task_id (ps_tasks ps))\<rparr> else ps)"

definition vrc_sent_applied :: "bool \<Rightarrow> string \<Rightarrow> string \<Rightarrow> dtg_credential \<Rightarrow> peer_state \<Rightarrow> peer_state" where
  "vrc_sent_applied sent_ok task_id their_p_did vrc ps =
     (if \<not> sent_ok then ps
      else case vrcs_insert their_p_did vrc (ps_issued ps) of
             Inl _ \<Rightarrow> ps
           | Inr issued \<Rightarrow> ps\<lparr>ps_issued := issued, ps_tasks := snd (tasks_remove task_id (ps_tasks ps))\<rparr>)"

definition ping_applied ::
  "bool \<Rightarrow> string \<Rightarrow> string \<Rightarrow> string \<Rightarrow> string \<Rightarrow> persona_id option \<Rightarrow> instant \<Rightarrow> peer_state \<Rightarrow> peer_state" where
  "ping_applied sent_ok our_did remote_did remote_p_did msg_id persona now ps =
     (if sent_ok then queue_task msg_id (TrustPing our_did remote_did remote_p_did) persona now ps else ps)"

definition request_vrc_applied :: "bool \<Rightarrow> string \<Rightarrow> string \<Rightarrow> persona_id option \<Rightarrow> instant \<Rightarrow> peer_state \<Rightarrow> peer_state" where
  "request_vrc_applied sent_ok remote_p_did msg_id persona now ps =
     (if sent_ok then queue_task msg_id (VRCRequestOutbound remote_p_did) persona now ps else ps)"

definition remove_applied :: "string \<Rightarrow> peer_state \<Rightarrow> peer_state" where
  "remove_applied remote_p_did ps =
     (case rel_remove remote_p_did (ps_relationships ps) (ps_issued ps) (ps_received ps) of
        (_, rs, issued, received) \<Rightarrow> ps\<lparr>ps_relationships := rs, ps_issued := issued, ps_received := received\<rparr>)"

definition accept_vrc :: "string \<Rightarrow> peer_state \<Rightarrow> string + peer_state" where
  "accept_vrc task_id ps =
     rbind (ok_or ''task not found'' (get_by_id (ps_tasks ps) task_id)) (\<lambda>t.
     rbind (case tk_type t of VRCIssued vrc \<Rightarrow> Inr vrc | _ \<Rightarrow> Inl ''task is not a VRC issued task'') (\<lambda>vrc.
     rbind (vrcs_insert (dc_issuer vrc) vrc (ps_received ps)) (\<lambda>received.
       Inr (ps\<lparr>ps_received := received, ps_tasks := snd (tasks_remove task_id (ps_tasks ps))\<rparr>))))"

definition dismiss_task :: "string \<Rightarrow> peer_state \<Rightarrow> peer_state" where
  "dismiss_task task_id ps = ps\<lparr>ps_tasks := snd (tasks_remove task_id (ps_tasks ps))\<rparr>"

definition clear_all_tasks :: "peer_state \<Rightarrow> peer_state" where
  "clear_all_tasks ps = ps\<lparr>ps_tasks := snd (tasks_clear (ps_tasks ps))\<rparr>"

end
