(* ===== verification/VerifyQueue.thy ===== *)
theory VerifyQueue
  imports KeyedQueue RelationFlow Renewal
begin

text \<open>
  The queue of inbound messages that wait on an off-loop check (\<open>verify_queue.rs\<close>), and the checks themselves
  (\<open>VerifyJob\<close> and \<open>PreVerified\<close> of \<open>message_dispatch.rs\<close>).

  Two lanes, a count per sender over both, one check running. A check runs as a task of its own: how it ends is an
  argument (\<open>check_end\<close>), what it answers when it completes is \<open>run_check\<close>. The moment \<open>enqueue\<close> reads the clock is
  an argument. Interprets \<open>priority_queue\<close>.
\<close>

section \<open>Checks\<close>

datatype verify_job =
    CheckCredential json string
  | CheckOperational json string "string list" string
  | CheckDidBinding string "json option" string "json option" string string binding_role
  | CheckVrc dtg_credential
  | CheckRenewal json string "string list"
  | Barrier

datatype pre_verified =
    PreCredential "issued_credential_error + json"
  | PreOperational "operational_error + verified_operational"
  | PreDidBinding "did_binding_error + unit"
  | PreVrc "string + unit"
  | PreRenewal "renewal_error + verified_renewal"
  | PreBarrier

record checks_sdk =
  xk_credential :: credential_sdk
  xk_document :: document_sdk
  xk_renew :: renew_sdk
  xk_relation :: relation_sdk

text \<open>\<open>VerifyJob::run\<close>: the replay set is the loop's, so an operational document is checked against an empty one.\<close>

fun run_check :: "checks_sdk \<Rightarrow> instant \<Rightarrow> verify_job \<Rightarrow> pre_verified" where
  "run_check x now (CheckCredential doc sender) = PreCredential (verify_issued_delivery (xk_credential x) doc sender now)"
| "run_check x now (CheckOperational doc sender ours typ) =
     PreOperational (verify_operational_with (xk_document x) doc sender ours typ no_documents now)"
| "run_check x now (CheckDidBinding did did_proof persona persona_proof peer thid role) =
     PreDidBinding (verify_did_binding (rw_verify (xk_relation x)) did did_proof persona persona_proof peer thid role)"
| "run_check x now (CheckVrc vrc) =
     PreVrc (case rw_vrc_error (xk_relation x) vrc of None \<Rightarrow> Inr () | Some e \<Rightarrow> Inl e)"
| "run_check x now (CheckRenewal doc sender ours) =
     PreRenewal (verify_renewal_response (xk_renew x) (xk_credential x) (xk_document x) doc sender ours now)"
| "run_check x now Barrier = PreBarrier"

text \<open>A check that did not finish is a refusal of its own kind.\<close>

fun unfinished :: "verify_job \<Rightarrow> pre_verified" where
  "unfinished (CheckCredential _ _) = PreCredential (Inl CredentialCheckUnfinished)"
| "unfinished (CheckOperational _ _ _ _) = PreOperational (Inl CheckUnfinished)"
| "unfinished (CheckDidBinding _ _ _ _ _ _ _) = PreDidBinding (Inl BindingCheckUnfinished)"
| "unfinished (CheckVrc _) = PreVrc (Inl ''its proof's check did not finish (timed out or failed)'')"
| "unfinished (CheckRenewal _ _ _) = PreRenewal (Inl RenewalCheckUnfinished)"
| "unfinished Barrier = PreBarrier"

fun is_relationship_request :: "verify_job \<Rightarrow> bool" where
  "is_relationship_request (CheckDidBinding _ _ _ _ _ _ role) = (role = RoleRequest)"
| "is_relationship_request _ = False"

fun verifying_community :: "verify_job \<Rightarrow> string option" where
  "verifying_community (CheckCredential _ sender) = Some sender"
| "verifying_community _ = None"

section \<open>The queue\<close>

record deferred =
  df_message :: didcomm_message
  df_job :: verify_job

datatype lane = PriorityLane | OtherLane

datatype refused = LaneFull | SenderFull | RateLimited | Unauthenticated

definition max_priority_queued :: nat where "max_priority_queued = 256"
definition max_other_queued :: nat where "max_other_queued = 64"
definition max_per_sender :: nat where "max_per_sender = 32"
definition max_request_checks_per_minute :: nat where "max_request_checks_per_minute = 20"

record queued =
  qd_deferred :: deferred
  qd_transport :: messaging_transport
  qd_sender :: string

text \<open>The check running is the message it was queued as: its job is what the task runs, and what a panic answers.\<close>

record verifier =
  vq_priority :: "queued list"
  vq_other :: "queued list"
  vq_senders :: "(string \<times> nat \<times> lane) list"
  vq_running :: "queued option"
  vq_request_checks :: "instant list"

definition new_verifier :: verifier where
  "new_verifier = \<lparr>vq_priority = [], vq_other = [], vq_senders = [], vq_running = None, vq_request_checks = []\<rparr>"

definition sender_slot :: "string \<Rightarrow> lane \<Rightarrow> verifier \<Rightarrow> nat \<times> lane" where
  "sender_slot sender lane v = (case map_of (vq_senders v) sender of None \<Rightarrow> (0, lane) | Some slot \<Rightarrow> slot)"

definition lane_queue :: "lane \<Rightarrow> verifier \<Rightarrow> queued list" where
  "lane_queue l v = (case l of PriorityLane \<Rightarrow> vq_priority v | OtherLane \<Rightarrow> vq_other v)"

definition lane_cap :: "lane \<Rightarrow> nat" where
  "lane_cap l = (case l of PriorityLane \<Rightarrow> max_priority_queued | OtherLane \<Rightarrow> max_other_queued)"

definition is_full_for :: "string \<Rightarrow> lane \<Rightarrow> verifier \<Rightarrow> bool" where
  "is_full_for sender lane v =
     (case sender_slot sender lane v of (n, l) \<Rightarrow> max_per_sender \<le> n \<or> lane_cap l \<le> length (lane_queue l v))"

definition is_waiting_on :: "string \<Rightarrow> verifier \<Rightarrow> bool" where
  "is_waiting_on sender v \<longleftrightarrow> map_of (vq_senders v) sender \<noteq> None"

text \<open>One check at a time, the priority lane first.\<close>

definition start_next :: "verifier \<Rightarrow> verifier" where
  "start_next v =
     (if vq_running v \<noteq> None then v
      else case vq_priority v of
             q # rest \<Rightarrow> v\<lparr>vq_priority := rest, vq_running := Some q\<rparr>
           | [] \<Rightarrow> (case vq_other v of
                      q # rest \<Rightarrow> v\<lparr>vq_other := rest, vq_running := Some q\<rparr>
                    | [] \<Rightarrow> v))"

text \<open>
  The rate of relationship requests: what is a minute old is dropped from the front (\<open>duration_since\<close> is zero for a
  moment that has not come), and stays dropped when the request is then refused.
\<close>

definition recent_checks :: "instant \<Rightarrow> instant list \<Rightarrow> instant list" where
  "recent_checks now ts = dropWhile (\<lambda>t. seconds 60 \<le> max 0 (now - t)) ts"

definition admit_request :: "verify_job \<Rightarrow> instant \<Rightarrow> verifier \<Rightarrow> bool \<times> verifier" where
  "admit_request job now v =
     (if is_relationship_request job then
        let recent = recent_checks now (vq_request_checks v)
        in if max_request_checks_per_minute \<le> length recent then (False, v\<lparr>vq_request_checks := recent\<rparr>)
           else (True, v\<lparr>vq_request_checks := recent @ [now]\<rparr>)
      else (True, v))"

definition push_queued :: "lane \<Rightarrow> queued \<Rightarrow> verifier \<Rightarrow> verifier" where
  "push_queued l q v =
     (case l of PriorityLane \<Rightarrow> v\<lparr>vq_priority := vq_priority v @ [q]\<rparr> | OtherLane \<Rightarrow> v\<lparr>vq_other := vq_other v @ [q]\<rparr>)"

definition enqueue ::
  "deferred \<Rightarrow> messaging_transport \<Rightarrow> string \<Rightarrow> lane \<Rightarrow> instant \<Rightarrow> verifier \<Rightarrow> (refused + lane) \<times> verifier" where
  "enqueue d transport sender lane now v =
     (case sender_slot sender lane v of (n, l) \<Rightarrow>
        if max_per_sender \<le> n then (Inl SenderFull, v)
        else if lane_cap l \<le> length (lane_queue l v) then (Inl LaneFull, v)
        else case admit_request (df_job d) now v of
               (False, w) \<Rightarrow> (Inl RateLimited, w)
             | (True, w) \<Rightarrow>
                 let q = \<lparr>qd_deferred = d, qd_transport = transport, qd_sender = sender\<rparr>;
                     u = push_queued l q w
                 in (Inr l, start_next (u\<lparr>vq_senders := AList.update sender (n + 1, l) (vq_senders u)\<rparr>)))"

text \<open>How a check's task ends, and what that answers.\<close>

datatype check_end = Completed pre_verified | TimedOut | Panicked

fun check_result :: "verify_job \<Rightarrow> check_end \<Rightarrow> pre_verified" where
  "check_result job (Completed pre) = pre"
| "check_result job TimedOut = unfinished job"
| "check_result job Panicked = unfinished job"

record finished_check =
  fi_sender :: string
  fi_message :: didcomm_message
  fi_transport :: messaging_transport
  fi_pre :: pre_verified

definition release_sender :: "string \<Rightarrow> verifier \<Rightarrow> verifier" where
  "release_sender sender v =
     (case map_of (vq_senders v) sender of
        None \<Rightarrow> v
      | Some (n, l) \<Rightarrow>
          if n - 1 = 0 then v\<lparr>vq_senders := AList.delete sender (vq_senders v)\<rparr>
          else v\<lparr>vq_senders := AList.update sender (n - 1, l) (vq_senders v)\<rparr>)"

text \<open>\<open>finished\<close>, once the task has ended: \<open>None\<close> while nothing is running, when it stays pending.\<close>

definition finish_check :: "check_end \<Rightarrow> verifier \<Rightarrow> (finished_check \<times> verifier) option" where
  "finish_check e v =
     (case vq_running v of
        None \<Rightarrow> None
      | Some r \<Rightarrow>
          Some (\<lparr>fi_sender = qd_sender r, fi_message = df_message (qd_deferred r), fi_transport = qd_transport r,
                 fi_pre = check_result (df_job (qd_deferred r)) e\<rparr>,
                start_next (release_sender (qd_sender r) (v\<lparr>vq_running := None\<rparr>))))"

section \<open>What the queue keeps true\<close>

definition held :: "verifier \<Rightarrow> queued list" where
  "held v = (case vq_running v of None \<Rightarrow> [] | Some r \<Rightarrow> [r]) @ vq_priority v @ vq_other v"

definition held_by :: "string \<Rightarrow> queued list \<Rightarrow> queued list" where
  "held_by s qs = filter (\<lambda>q. qd_sender q = s) qs"

text \<open>
  A sender with an entry has that many messages held, at least one and at most its share, and none of them waits in the
  lane the entry does not name; a sender without one has none.
\<close>

definition slot_ok :: "(nat \<times> lane) option \<Rightarrow> queued list \<Rightarrow> queued list \<Rightarrow> queued list \<Rightarrow> string \<Rightarrow> bool" where
  "slot_ok slot qs pr ot s =
     (case slot of
        None \<Rightarrow> held_by s qs = []
      | Some (n, l) \<Rightarrow> n = length (held_by s qs) \<and> 0 < n \<and> n \<le> max_per_sender \<and>
          held_by s (case l of PriorityLane \<Rightarrow> ot | OtherLane \<Rightarrow> pr) = [])"

definition verifier_ok :: "verifier \<Rightarrow> bool" where
  "verifier_ok v \<longleftrightarrow>
     length (vq_priority v) \<le> max_priority_queued \<and> length (vq_other v) \<le> max_other_queued \<and>
     length (vq_request_checks v) \<le> max_request_checks_per_minute \<and>
     (vq_running v = None \<longrightarrow> vq_priority v = [] \<and> vq_other v = []) \<and>
     (\<forall>s. slot_ok (map_of (vq_senders v) s) (held v) (vq_priority v) (vq_other v) s) \<and>
     distinct (map fst (vq_senders v))"

lemma held_by_simps [simp]:
  "held_by s [] = []" "held_by s (q # qs) = (if qd_sender q = s then q # held_by s qs else held_by s qs)"
  "held_by s (xs @ ys) = held_by s xs @ held_by s ys"
  by (simp_all add: held_by_def)

lemma held_by_tl: "held_by s qs = [] \<Longrightarrow> held_by s (tl qs) = []"
  by (cases qs) (simp_all split: if_splits)

lemma slot_ok_tl: "slot_ok x qs pr ot s \<Longrightarrow> slot_ok x qs (tl pr) ot s" "slot_ok x qs pr ot s \<Longrightarrow> slot_ok x qs pr (tl ot) s"
  by (auto simp: slot_ok_def held_by_tl split: option.splits lane.splits)

lemma start_next_frame [simp]:
  "held (start_next v) = held v" "vq_senders (start_next v) = vq_senders v"
  "vq_request_checks (start_next v) = vq_request_checks v"
  by (auto simp: start_next_def held_def split: list.splits option.splits)

lemma start_next_lanes:
  "vq_priority (start_next v) \<in> {vq_priority v, tl (vq_priority v)}" "vq_other (start_next v) \<in> {vq_other v, tl (vq_other v)}"
  "vq_running (start_next v) = None \<Longrightarrow> vq_priority (start_next v) = [] \<and> vq_other (start_next v) = []"
  by (cases "vq_running v"; auto simp: start_next_def split: list.splits)+

lemma start_next_slot:
  assumes "slot_ok x qs (vq_priority v) (vq_other v) s"
  shows "slot_ok x qs (vq_priority (start_next v)) (vq_other (start_next v)) s"
  using start_next_lanes(1,2) [of v] assms by (auto simp: slot_ok_tl)

text \<open>Taking the next message up leaves everything true but that a check is running if one can.\<close>

lemma start_next_ok:
  assumes "length (vq_priority v) \<le> max_priority_queued" "length (vq_other v) \<le> max_other_queued"
    "length (vq_request_checks v) \<le> max_request_checks_per_minute" "distinct (map fst (vq_senders v))"
    "\<And>s. slot_ok (map_of (vq_senders v) s) (held v) (vq_priority v) (vq_other v) s"
  shows "verifier_ok (start_next v)"
proof -
  have "length (vq_priority (start_next v)) \<le> max_priority_queued" "length (vq_other (start_next v)) \<le> max_other_queued"
    using assms(1,2) start_next_lanes(1,2) [of v] by auto
  with assms start_next_lanes(3) [of v] show ?thesis
    by (simp add: verifier_ok_def start_next_slot)
qed

lemma verifier_okD:
  assumes "verifier_ok v"
  shows "length (vq_priority v) \<le> max_priority_queued" "length (vq_other v) \<le> max_other_queued"
    "length (vq_request_checks v) \<le> max_request_checks_per_minute" "distinct (map fst (vq_senders v))"
    "slot_ok (map_of (vq_senders v) s) (held v) (vq_priority v) (vq_other v) s"
    "vq_running v = None \<Longrightarrow> held v = [] \<and> vq_priority v = [] \<and> vq_other v = []"
  using assms by (auto simp: verifier_ok_def held_def)

lemma new_verifier_ok: "verifier_ok new_verifier"
  by (simp add: verifier_ok_def new_verifier_def slot_ok_def held_def)

lemma recent_checks_length: "length (recent_checks now ts) \<le> length ts"
  by (simp add: recent_checks_def length_dropWhile_le)

lemma admit_request_frame:
  assumes "admit_request job now v = (b, w)"
  shows "vq_priority w = vq_priority v" "vq_other w = vq_other v" "vq_running w = vq_running v" "vq_senders w = vq_senders v"
    "held w = held v"
    "length (vq_request_checks v) \<le> max_request_checks_per_minute \<Longrightarrow> length (vq_request_checks w) \<le> max_request_checks_per_minute"
  using assms recent_checks_length [of now "vq_request_checks v"]
  by (auto simp: admit_request_def Let_def held_def split: if_splits)

lemma admit_request_ok: "admit_request job now v = (b, w) \<Longrightarrow> verifier_ok v \<Longrightarrow> verifier_ok w"
  by (simp add: verifier_ok_def admit_request_frame)

lemma push_queued_frame [simp]:
  "vq_running (push_queued l q v) = vq_running v" "vq_senders (push_queued l q v) = vq_senders v"
  "vq_request_checks (push_queued l q v) = vq_request_checks v"
  by (simp_all add: push_queued_def split: lane.splits)

text \<open>The cases of \<open>enqueue\<close>: refused, with at most the minute's record pruned, or queued at the end of its lane.\<close>

lemma enqueue_cases:
  assumes "enqueue d t s l now v = (r, v')"
  obtains (refused) e b where "r = Inl e" "v' = v \<or> admit_request (df_job d) now v = (b, v')"
  | (queued) n m u where "r = Inr m" "sender_slot s l v = (n, m)" "n < max_per_sender" "length (lane_queue m v) < lane_cap m"
      "admit_request (df_job d) now v = (True, u)"
      "v' = start_next ((push_queued m \<lparr>qd_deferred = d, qd_transport = t, qd_sender = s\<rparr> u)
              \<lparr>vq_senders := AList.update s (n + 1, m) (vq_senders u)\<rparr>)"
  using assms
  by (auto simp: enqueue_def Let_def not_le split: prod.splits if_splits bool.splits)

text \<open>What a push adds to the messages held, counted per sender.\<close>

lemma held_push:
  assumes "\<And>s'. slot_ok (map_of (vq_senders v) s') (held v) (vq_priority v) (vq_other v) s'"
    and "sender_slot s l v = (n, m)" "qd_sender q = s"
  shows "held_by s' (held (push_queued m q v)) = held_by s' (held v) @ (if s' = s then [q] else [])"
    and "n = length (held_by s (held v))"
    and "held_by s (case m of PriorityLane \<Rightarrow> vq_other v | OtherLane \<Rightarrow> vq_priority v) = [] \<or> n = 0"
proof -
  have ok: "slot_ok (map_of (vq_senders v) s) (held v) (vq_priority v) (vq_other v) s" by (rule assms(1))
  show n: "n = length (held_by s (held v))"
    and "held_by s (case m of PriorityLane \<Rightarrow> vq_other v | OtherLane \<Rightarrow> vq_priority v) = [] \<or> n = 0"
    using ok assms(2) by (auto simp: slot_ok_def sender_slot_def split: option.splits)
  moreover have "held_by s (vq_other v) = []" if "m = PriorityLane"
    using ok assms(2) that by (auto simp: slot_ok_def sender_slot_def held_def split: option.splits lane.splits)
  ultimately show "held_by s' (held (push_queued m q v)) = held_by s' (held v) @ (if s' = s then [q] else [])"
    using assms(3) by (cases m) (auto simp: push_queued_def held_def)
qed

text \<open>What is held does not depend on the entries or on the minute's record.\<close>

lemma held_cong [simp]:
  "held (v\<lparr>vq_senders := x\<rparr>) = held v" "held (v\<lparr>vq_request_checks := y\<rparr>) = held v"
  "vq_priority (push_queued l q v) = vq_priority v @ (if l = PriorityLane then [q] else [])"
  "vq_other (push_queued l q v) = vq_other v @ (if l = OtherLane then [q] else [])"
  by (auto simp: held_def push_queued_def split: lane.splits)

lemma other_lane_empty:
  "held_by s (held v) = [] \<Longrightarrow> held_by s (case l of PriorityLane \<Rightarrow> vq_other v | OtherLane \<Rightarrow> vq_priority v) = []"
  by (auto simp: held_def split: lane.splits)

lemma push_slot:
  assumes ok: "\<And>s'. slot_ok (map_of (vq_senders v) s') (held v) (vq_priority v) (vq_other v) s'"
    and slot: "sender_slot s l v = (n, m)" "qd_sender q = s" "n < max_per_sender"
  shows "slot_ok (map_of (AList.update s (n + 1, m) (vq_senders v)) s') (held (push_queued m q v))
    (vq_priority (push_queued m q v)) (vq_other (push_queued m q v)) s'"
proof (cases "s' = s")
  case True
  have "held_by s (case m of PriorityLane \<Rightarrow> vq_other v | OtherLane \<Rightarrow> vq_priority v) = []"
    using held_push(2,3) [OF ok slot(1,2)] other_lane_empty [of s v m] by auto
  with True slot(2,3) held_push(1,2) [OF ok slot(1,2)] show ?thesis
    by (cases m) (simp_all add: slot_ok_def update_conv')
next
  case False
  with ok [of s'] slot(2) held_push(1) [OF ok slot(1,2), of s'] show ?thesis
    by (auto simp: slot_ok_def update_conv' split: option.splits lane.splits)
qed

lemma enqueue_ok:
  assumes ok: "verifier_ok v" and run: "enqueue d t s l now v = (r, v')"
  shows "verifier_ok v'"
  using run
proof (cases rule: enqueue_cases)
  case (refused e b)
  with ok show ?thesis by (auto intro: admit_request_ok)
next
  case (queued n m u)
  note frame = admit_request_frame [OF queued(5)]
  have u: "verifier_ok u" using admit_request_ok [OF queued(5) ok] .
  have slot: "sender_slot s l u = (n, m)" using queued(2) frame(4) by (simp add: sender_slot_def)
  have len: "length (lane_queue m u) < lane_cap m" using queued(4) frame(1,2) by (simp add: lane_queue_def split: lane.splits)
  show ?thesis unfolding queued(6)
  proof (rule start_next_ok, goal_cases)
    case 1 then show ?case using verifier_okD(1) [OF u] len by (cases m) (simp_all add: lane_queue_def lane_cap_def)
  next
    case 2 then show ?case using verifier_okD(2) [OF u] len by (cases m) (simp_all add: lane_queue_def lane_cap_def)
  next
    case 3 then show ?case using verifier_okD(3) [OF u] by simp
  next
    case 4 then show ?case using verifier_okD(4) [OF u] by (simp add: distinct_update)
  next
    case (5 s') show ?case
      using push_slot [OF verifier_okD(5) [OF u] slot _ queued(3), of "\<lparr>qd_deferred = d, qd_transport = t, qd_sender = s\<rparr>" s']
      by simp
  qed
qed

text \<open>What an accepted message adds, and where.\<close>

lemma enqueue_held:
  assumes ok: "verifier_ok v" and run: "enqueue d t s l now v = (r, v')"
  shows "held_by s' (held v') = held_by s' (held v) @
    (if s' = s \<and> (\<exists>m. r = Inr m) then [\<lparr>qd_deferred = d, qd_transport = t, qd_sender = s\<rparr>] else [])"
  using run
proof (cases rule: enqueue_cases)
  case (refused e b)
  then have "held v' = held v" using admit_request_frame(5) by blast
  with refused show ?thesis by simp
next
  case (queued n m u)
  note frame = admit_request_frame [OF queued(5)]
  have u: "verifier_ok u" using admit_request_ok [OF queued(5) ok] .
  have slot: "sender_slot s l u = (n, m)" using queued(2) frame(4) by (simp add: sender_slot_def)
  from held_push(1) [OF verifier_okD(5) [OF u] slot, of "\<lparr>qd_deferred = d, qd_transport = t, qd_sender = s\<rparr>" s'] show ?thesis
    using queued(1) frame(5) unfolding queued(6) by auto
qed

lemma release_sender_frame [simp]:
  "vq_priority (release_sender s v) = vq_priority v" "vq_other (release_sender s v) = vq_other v"
  "vq_running (release_sender s v) = vq_running v" "vq_request_checks (release_sender s v) = vq_request_checks v"
  "held (release_sender s v) = held v"
  by (auto simp: release_sender_def held_def split: option.splits)

lemma finish_check_facts:
  assumes ok: "verifier_ok v" and run: "finish_check e v = Some (f, v')"
  obtains r rest where "vq_running v = Some r" "held v = r # rest" "held v' = rest" "verifier_ok v'"
    "f = \<lparr>fi_sender = qd_sender r, fi_message = df_message (qd_deferred r), fi_transport = qd_transport r,
          fi_pre = check_result (df_job (qd_deferred r)) e\<rparr>"
    "v' = start_next (release_sender (qd_sender r) (v\<lparr>vq_running := None\<rparr>))"
proof -
  from run obtain r where r: "vq_running v = Some r"
    and f: "f = \<lparr>fi_sender = qd_sender r, fi_message = df_message (qd_deferred r), fi_transport = qd_transport r,
          fi_pre = check_result (df_job (qd_deferred r)) e\<rparr>"
    and v': "v' = start_next (release_sender (qd_sender r) (v\<lparr>vq_running := None\<rparr>))"
    by (auto simp: finish_check_def split: option.splits)
  define rest where "rest = vq_priority v @ vq_other v"
  have h: "held v = r # rest" using r by (simp add: held_def rest_def)
  have h': "held (release_sender (qd_sender r) (v\<lparr>vq_running := None\<rparr>)) = rest" by (simp add: held_def rest_def)
  have slots: "slot_ok (map_of (vq_senders (release_sender (qd_sender r) (v\<lparr>vq_running := None\<rparr>))) s) rest (vq_priority v) (vq_other v) s" for s
    using verifier_okD(5) [OF ok, of s] h verifier_okD(5) [OF ok, of "qd_sender r"]
    by (auto simp: slot_ok_def release_sender_def update_conv' delete_conv' split: option.splits if_splits lane.splits)
  have d: "distinct (map fst (vq_senders (release_sender (qd_sender r) (v\<lparr>vq_running := None\<rparr>))))"
    using verifier_okD(4) [OF ok] by (auto simp: release_sender_def distinct_update distinct_delete split: option.splits)
  have "verifier_ok v'" unfolding v'
    by (rule start_next_ok) (use verifier_okD(1,2,3) [OF ok] d slots h' in simp_all)
  with r h h' f v' that show thesis by simp
qed

section \<open>The queue keeps its contract\<close>

text \<open>
  \<open>push_verifier\<close> and \<open>pop_verifier\<close> answer the message that went in or came back, under its sender; the part served
  first is the running check and the priority lane.
\<close>

type_synonym arrival_args = "deferred \<times> messaging_transport \<times> string \<times> lane \<times> instant"

definition carried :: "queued \<Rightarrow> didcomm_message \<times> messaging_transport" where
  "carried q = (df_message (qd_deferred q), qd_transport q)"

definition push_verifier :: "arrival_args \<Rightarrow> verifier \<Rightarrow> (string \<times> didcomm_message \<times> messaging_transport) option \<times> verifier" where
  "push_verifier a v =
     (case a of (d, t, s, l, now) \<Rightarrow>
        case enqueue d t s l now v of
          (Inl _, v') \<Rightarrow> (None, v')
        | (Inr _, v') \<Rightarrow> (Some (s, df_message d, t), v'))"

definition pop_verifier :: "check_end \<Rightarrow> verifier \<Rightarrow> (string \<times> didcomm_message \<times> messaging_transport) option \<times> verifier" where
  "pop_verifier e v =
     (case finish_check e v of
        None \<Rightarrow> (None, v)
      | Some (f, v') \<Rightarrow> (Some (fi_sender f, fi_message f, fi_transport f), v'))"

definition waiting_for :: "verifier \<Rightarrow> string \<Rightarrow> (didcomm_message \<times> messaging_transport) list" where
  "waiting_for v s = map carried (held_by s (held v))"

definition served_first :: "verifier \<Rightarrow> (string \<times> didcomm_message \<times> messaging_transport) list" where
  "served_first v =
     map (\<lambda>q. (qd_sender q, carried q)) ((case vq_running v of None \<Rightarrow> [] | Some r \<Rightarrow> [r]) @ vq_priority v)"

lemma pop_verifier_cases:
  assumes "verifier_ok v"
  obtains (idle) "pop_verifier e v = (None, v)" "vq_running v = None" "held v = []"
  | (served) r rest v' where "pop_verifier e v = (Some (qd_sender r, carried r), v')" "held v = r # rest" "held v' = rest"
      "verifier_ok v'" "vq_running v = Some r" "v' = start_next (release_sender (qd_sender r) (v\<lparr>vq_running := None\<rparr>))"
proof (cases "finish_check e v")
  case None
  then have "vq_running v = None" by (simp add: finish_check_def split: option.splits)
  with None verifier_okD(6) [OF assms] show thesis by (intro idle) (simp_all add: pop_verifier_def)
next
  case (Some p)
  obtain f v' where p: "p = (f, v')" by fastforce
  show thesis
  proof (rule finish_check_facts [OF assms Some [unfolded p]])
    fix r rest
    assume "vq_running v = Some r" "held v = r # rest" "held v' = rest" "verifier_ok v'"
      "f = \<lparr>fi_sender = qd_sender r, fi_message = df_message (qd_deferred r), fi_transport = qd_transport r,
          fi_pre = check_result (df_job (qd_deferred r)) e\<rparr>"
      "v' = start_next (release_sender (qd_sender r) (v\<lparr>vq_running := None\<rparr>))"
    then show thesis by (intro served [of r v' rest]) (simp_all add: pop_verifier_def carried_def Some p)
  qed
qed

lemma push_verifier_cases:
  assumes "verifier_ok v"
  obtains (refused) d t s l now v' e where "a = (d, t, s, l, now)" "push_verifier a v = (None, v')" "verifier_ok v'"
      "enqueue d t s l now v = (Inl e, v')" "held v' = held v"
  | (queued) d t s l now v' m where "a = (d, t, s, l, now)" "push_verifier a v = (Some (s, df_message d, t), v')"
      "verifier_ok v'" "enqueue d t s l now v = (Inr m, v')"
proof -
  obtain d t s l now where a: "a = (d, t, s, l, now)" by (cases a)
  obtain r v' where run: "enqueue d t s l now v = (r, v')" by fastforce
  have ok: "verifier_ok v'" by (rule enqueue_ok [OF assms run])
  show thesis
  proof (cases r)
    case (Inl e)
    have "held v' = held v"
      using run by (cases rule: enqueue_cases) (use Inl admit_request_frame(5) in auto)
    with a run ok Inl show thesis by (intro refused [of d t s l now v' e]) (simp_all add: push_verifier_def)
  next
    case (Inr m)
    with a run ok show thesis by (intro queued [of d t s l now v' m]) (simp_all add: push_verifier_def)
  qed
qed

text \<open>A push leaves what is served first in place; only its own message may come after it.\<close>

lemma served_first_push:
  assumes ok: "verifier_ok v" and run: "enqueue d t s l now v = (r, v')"
  shows "\<exists>more. served_first v' = served_first v @ more"
  using run
proof (cases rule: enqueue_cases)
  case (refused e b)
  then have "vq_running v' = vq_running v \<and> vq_priority v' = vq_priority v" using admit_request_frame(1,3) by blast
  then show ?thesis by (simp add: served_first_def)
next
  case (queued n m u)
  note frame = admit_request_frame [OF queued(5)]
  show ?thesis
  proof (cases "vq_running v")
    case None
    with verifier_okD(6) [OF ok] have "served_first v = []" by (simp add: served_first_def)
    then show ?thesis by simp
  next
    case (Some r)
    then show ?thesis using frame(1,3) unfolding queued(6)
      by (simp add: start_next_def served_first_def)
  qed
qed

lemma served_first_pop:
  assumes "vq_running v = Some r"
  shows "\<exists>more. served_first (start_next (release_sender (qd_sender r) (v\<lparr>vq_running := None\<rparr>)))
    = tl (served_first v) @ more"
  using assms by (auto simp: start_next_def served_first_def split: list.splits)

interpretation vq: priority_queue verifier_ok waiting_for push_verifier pop_verifier served_first
proof (unfold_locales, goal_cases)
  case (1 v a) show ?case by (cases rule: push_verifier_cases [OF 1, of a]) simp_all
next
  case (2 v e) then show ?case by (cases rule: pop_verifier_cases [OF 2, of e]) simp_all
next
  case (3 v a k) then show ?case
  proof (cases rule: push_verifier_cases [of v a])
    case (queued d t s l now v' m)
    with enqueue_held [OF 3 queued(4), of k] show ?thesis by (simp add: waiting_for_def carried_def)
  qed (simp_all add: waiting_for_def)
next
  case (4 v k e) then show ?case
    by (cases rule: pop_verifier_cases [of v e]) (simp_all add: waiting_for_def)
next
  case (5 v a) then show ?case
  proof (cases rule: push_verifier_cases [of v a])
    case refused
    with served_first_push [OF 5 refused(4)] show ?thesis by simp
  next
    case queued
    with served_first_push [OF 5 queued(4)] show ?thesis by simp
  qed
next
  case (6 v x xs e)
  from 6(1) show ?case
  proof (cases rule: pop_verifier_cases [of v e])
    case idle
    with 6(2) verifier_okD(6) [OF 6(1)] show ?thesis by (simp add: served_first_def)
  next
    case (served r rest v')
    with 6(2) have "x = (qd_sender r, carried r)" "xs = tl (served_first v)" by (simp_all add: served_first_def)
    with served served_first_pop [OF served(5)] show ?thesis by simp
  qed
qed

end
