(* ===== verification/QueueOrder.thy ===== *)
theory QueueOrder
  imports VerifyQueue
begin

text \<open>
  What the queue of checks guarantees: its bounds, the order of each sender's messages, the priority lane, the rate of
  relationship requests, and that one sender's messages cost another nothing.
\<close>

definition run_verifier ::
  "(arrival_args, check_end) queue_op list \<Rightarrow> verifier
     \<Rightarrow> (string \<times> didcomm_message \<times> messaging_transport) list \<times> (string \<times> didcomm_message \<times> messaging_transport) list \<times> verifier"
  where
  "run_verifier ops v = queue_run push_verifier pop_verifier ops v"

section \<open>Bounds and order\<close>

text \<open>(C30) 
  Whatever arrives and however checks end, the lanes, the shares and the minute's record stay within their bounds, and
  each sender's messages come back in the order they were queued: what came back, followed by what still waits, is what
  was queued.
\<close>

theorem checks_come_back_in_order:
  assumes "run_verifier ops new_verifier = (ins, outs, v)"
  shows "under s ins = under s outs @ waiting_for v s \<and> length (waiting_for v s) \<le> max_per_sender \<and>
    length (vq_priority v) \<le> max_priority_queued \<and> length (vq_other v) \<le> max_other_queued \<and>
    length (vq_request_checks v) \<le> max_request_checks_per_minute"
proof -
  have "waiting_for new_verifier s = []" by (simp add: waiting_for_def held_def new_verifier_def)
  with vq.run_fifo [OF new_verifier_ok assms [unfolded run_verifier_def], of s]
  have ok: "verifier_ok v" and fifo: "under s ins = under s outs @ waiting_for v s" by simp_all
  have "length (waiting_for v s) \<le> max_per_sender"
    using verifier_okD(5) [OF ok, of s] by (auto simp: slot_ok_def waiting_for_def split: option.splits)
  with fifo verifier_okD(1,2,3) [OF ok] show ?thesis by simp
qed

section \<open>The priority lane\<close>

text \<open>
  What waits in the priority lane comes back next, in its order, whatever is queued meanwhile by anyone: the next
  messages handed back are the one being checked and then the lane's.
\<close>

theorem priority_lane_first:
  assumes "verifier_ok v" "run_verifier ops v = (ins, outs, w)" "length outs \<le> length (served_first v)"
  shows "outs = take (length outs) (served_first v)"
  using vq.run_front [OF assms(1) assms(2) [unfolded run_verifier_def] assms(3)] by simp

section \<open>Draining\<close>

text \<open>
  The queue never stalls: with nothing more arriving, as many checks as messages held, however each ends, bring every
  one of them back, the priority lane before the other, and leave the queue empty.
\<close>

theorem checks_drain:
  assumes "verifier_ok v" "length es = length (held v)"
  shows "\<exists>w. run_verifier (map Pop es) v = ([], map (\<lambda>q. (qd_sender q, carried q)) (held v), w) \<and>
    held w = [] \<and> (\<forall>s. \<not> is_waiting_on s w)"
  using assms
proof (induction es arbitrary: v)
  case Nil
  then have "map_of (vq_senders v) s = None" for s
    using verifier_okD(5) [OF Nil.prems(1), of s] by (auto simp: slot_ok_def split: option.splits)
  with Nil show ?case by (simp add: run_verifier_def is_waiting_on_def)
next
  case (Cons e es)
  from Cons.prems(1) show ?case
  proof (cases rule: pop_verifier_cases [of v e])
    case (served r rest v')
    with Cons.prems(2) Cons.IH [of v'] show ?thesis by (auto simp: run_verifier_def)
  next
    case idle
    with Cons.prems(2) show ?thesis by simp
  qed
qed

section \<open>The rate of relationship requests\<close>

text \<open>The moments at which relationship requests were queued.\<close>

fun request_log :: "(arrival_args, check_end) queue_op list \<Rightarrow> verifier \<Rightarrow> instant list" where
  "request_log [] v = []"
| "request_log (Push (d, t, s, l, now) # ops) v =
     (case enqueue d t s l now v of
        (Inl _, v') \<Rightarrow> request_log ops v'
      | (Inr _, v') \<Rightarrow> (if is_relationship_request (df_job d) then [now] else []) @ request_log ops v')"
| "request_log (Pop e # ops) v = request_log ops (snd (pop_verifier e v))"

fun push_times :: "(arrival_args, check_end) queue_op list \<Rightarrow> instant list" where
  "push_times [] = []"
| "push_times (Push (d, t, s, l, now) # ops) = now # push_times ops"
| "push_times (Pop e # ops) = push_times ops"

definition minute_bounded :: "instant list \<Rightarrow> bool" where
  "minute_bounded ts \<longleftrightarrow>
     (\<forall>t. length (filter (\<lambda>x. t \<le> x \<and> x < t + seconds 60) ts) \<le> max_request_checks_per_minute)"

definition rate_kept :: "instant list \<Rightarrow> instant \<Rightarrow> verifier \<Rightarrow> bool" where
  "rate_kept log until v \<longleftrightarrow> minute_bounded log \<and>
     (\<exists>gone. log = gone @ vq_request_checks v \<and> (\<forall>g \<in> set gone. g + seconds 60 \<le> until))"

lemma rate_kept_later: "rate_kept log until v \<Longrightarrow> until \<le> now \<Longrightarrow> rate_kept log now v"
  by (force simp: rate_kept_def)

lemma rate_kept_checks: "vq_request_checks v = vq_request_checks w \<Longrightarrow> rate_kept log until v = rate_kept log until w"
  by (simp add: rate_kept_def)

lemma recent_checks_split:
  obtains old where "ts = old @ recent_checks now ts" "\<forall>g \<in> set old. g + seconds 60 \<le> now"
proof
  let ?p = "\<lambda>t. seconds 60 \<le> max 0 (now - t)"
  show "ts = takeWhile ?p ts @ recent_checks now ts" by (simp add: recent_checks_def)
  show "\<forall>g \<in> set (takeWhile ?p ts). g + seconds 60 \<le> now" by (auto dest!: set_takeWhileD)
qed

lemma minute_bounded_snoc:
  assumes "minute_bounded (gone @ recent)" "\<forall>g \<in> set gone. g + seconds 60 \<le> now" "length recent < max_request_checks_per_minute"
  shows "minute_bounded (gone @ recent @ [now])"
  unfolding minute_bounded_def
proof
  fix t
  let ?w = "\<lambda>x. t \<le> x \<and> x < t + seconds 60"
  show "length (filter ?w (gone @ recent @ [now])) \<le> max_request_checks_per_minute"
  proof (cases "?w now")
    case True
    with assms(2) have "filter ?w gone = []" by (auto simp: filter_empty_conv)
    with True have "length (filter ?w (gone @ recent @ [now])) = Suc (length (filter ?w recent))" by simp
    also have "\<dots> \<le> Suc (length recent)" by simp
    finally show ?thesis using assms(3) by linarith
  next
    case False
    with assms(1) show ?thesis by (auto simp: minute_bounded_def)
  qed
qed

lemma admit_request_rate:
  assumes "admit_request job now v = (b, u)" "rate_kept log until v" "until \<le> now"
  shows "rate_kept (if b \<and> is_relationship_request job then log @ [now] else log) now u"
proof (cases "is_relationship_request job")
  case False
  with assms rate_kept_later show ?thesis by (auto simp: admit_request_def)
next
  case True
  obtain gone where gone: "log = gone @ vq_request_checks v" "\<forall>g \<in> set gone. g + seconds 60 \<le> until" "minute_bounded log"
    using assms(2) by (auto simp: rate_kept_def)
  obtain old where old: "vq_request_checks v = old @ recent_checks now (vq_request_checks v)" "\<forall>g \<in> set old. g + seconds 60 \<le> now"
    by (rule recent_checks_split)
  have log: "log = (gone @ old) @ recent_checks now (vq_request_checks v)" using gone(1) old(1) by simp
  have aged: "\<forall>g \<in> set (gone @ old). g + seconds 60 \<le> now" using gone(2) old(2) assms(3) by auto
  show ?thesis
  proof (cases "max_request_checks_per_minute \<le> length (recent_checks now (vq_request_checks v))")
    case True
    with \<open>is_relationship_request job\<close> assms(1) log aged gone(3) show ?thesis
      by (auto simp: admit_request_def Let_def rate_kept_def)
  next
    case False
    with minute_bounded_snoc [of "gone @ old" "recent_checks now (vq_request_checks v)" now] gone(3) log aged
    have "minute_bounded (log @ [now])" by simp
    with False \<open>is_relationship_request job\<close> assms(1) log aged show ?thesis
      by (auto simp: admit_request_def Let_def rate_kept_def)
  qed
qed

lemma request_log_rate:
  assumes "rate_kept log until v" "sorted (until # push_times ops)" "verifier_ok v"
  shows "minute_bounded (log @ request_log ops v)"
  using assms
proof (induction ops v arbitrary: log until rule: request_log.induct)
  case (2 d t s l now ops v)
  obtain r v' where run: "enqueue d t s l now v = (r, v')" by fastforce
  have later: "until \<le> now" "sorted (now # push_times ops)" using "2.prems"(2) by auto
  have ok: "verifier_ok v'" by (rule enqueue_ok [OF "2.prems"(3) run])
  from run show ?case
  proof (cases rule: enqueue_cases)
    case (refused e b)
    then have "rate_kept log now v'"
      using admit_request_rate [OF _ "2.prems"(1) later(1)] rate_kept_later [OF "2.prems"(1) later(1)] run
      by (fastforce simp: enqueue_def Let_def split: prod.splits if_splits bool.splits)
    with "2.IH"(1) [OF run [symmetric]] refused(1) later(2) ok run show ?thesis by auto
  next
    case (queued n m u)
    have "rate_kept (if is_relationship_request (df_job d) then log @ [now] else log) now u"
      using admit_request_rate [OF queued(5) "2.prems"(1) later(1)] by simp
    then have "rate_kept (if is_relationship_request (df_job d) then log @ [now] else log) now v'"
      unfolding queued(6) by (simp add: rate_kept_def)
    with "2.IH"(2) [OF run [symmetric] queued(1) _ later(2) ok]
    have "minute_bounded ((if is_relationship_request (df_job d) then log @ [now] else log) @ request_log ops v')" .
    with run queued(1) show ?thesis by (cases "is_relationship_request (df_job d)") simp_all
  qed
next
  case (3 e ops v)
  have "vq_request_checks (snd (pop_verifier e v)) = vq_request_checks v"
    by (auto simp: pop_verifier_def finish_check_def split: option.splits)
  with "3.prems"(1) have "rate_kept log until (snd (pop_verifier e v))" using rate_kept_checks by blast
  from "3.IH" [OF this] "3.prems"(2,3) vq.inv_pop show ?case by simp
qed (simp_all add: rate_kept_def)

text \<open>
  Checking a relationship request resolves DIDs its sender chose: however many arrive, from however many senders, no
  minute sees more than the limit queued, as long as the clock does not run back.
\<close>

theorem request_checks_rated:
  assumes "sorted (push_times ops)"
  shows "length (filter (\<lambda>x. t \<le> x \<and> x < t + seconds 60) (request_log ops new_verifier)) \<le> max_request_checks_per_minute"
proof -
  define until where "until = (case push_times ops of [] \<Rightarrow> 0 | x # _ \<Rightarrow> x)"
  have "sorted (until # push_times ops)" using assms by (auto simp: until_def split: list.splits)
  moreover have "rate_kept [] until new_verifier" by (simp add: rate_kept_def new_verifier_def minute_bounded_def)
  ultimately have "minute_bounded (request_log ops new_verifier)"
    using request_log_rate [OF _ _ new_verifier_ok] by fastforce
  then show ?thesis by (simp add: minute_bounded_def)
qed

section \<open>Senders do not pay for each other\<close>

text \<open>
  The queue is open for a community when neither its share nor the priority lane is full; senders are outside when none
  holds a place in the priority lane.
\<close>

definition open_for :: "string \<Rightarrow> verifier \<Rightarrow> bool" where
  "open_for c v \<longleftrightarrow> snd (sender_slot c PriorityLane v) = PriorityLane \<and> \<not> is_full_for c PriorityLane v"

definition outside :: "string set \<Rightarrow> verifier \<Rightarrow> bool" where
  "outside S v \<longleftrightarrow> (\<forall>s \<in> S. snd (sender_slot s OtherLane v) = OtherLane)"

fun from_outside :: "string set \<Rightarrow> (arrival_args, check_end) queue_op \<Rightarrow> bool" where
  "from_outside S (Push (d, t, s, l, now)) \<longleftrightarrow> s \<in> S \<and> l = OtherLane"
| "from_outside S (Pop e) \<longleftrightarrow> True"

lemma open_for_iff:
  "open_for c v \<longleftrightarrow> length (vq_priority v) < max_priority_queued \<and>
     (case map_of (vq_senders v) c of None \<Rightarrow> True | Some (n, l) \<Rightarrow> l = PriorityLane \<and> n < max_per_sender)"
  by (auto simp: open_for_def is_full_for_def sender_slot_def lane_queue_def lane_cap_def max_per_sender_def not_le
      split: option.splits)

lemma start_next_length: "length (vq_priority (start_next v)) \<le> length (vq_priority v)"
  using start_next_lanes(1) [of v] by auto

lemma outside_push:
  assumes ok: "verifier_ok v" and out: "outside S v" "s \<in> S" "c \<notin> S" "open_for c v"
    and run: "enqueue d t s OtherLane now v = (r, v')"
  shows "outside S v' \<and> open_for c v'"
  using run
proof (cases rule: enqueue_cases)
  case (refused e b)
  then have "vq_priority v' = vq_priority v \<and> vq_senders v' = vq_senders v" using admit_request_frame(1,4) by blast
  with out show ?thesis by (simp add: outside_def sender_slot_def open_for_iff)
next
  case (queued n m u)
  note frame = admit_request_frame [OF queued(5)]
  have m: "m = OtherLane" using out(1,2) queued(2) by (auto simp: outside_def)
  have senders: "vq_senders v' = AList.update s (n + 1, OtherLane) (vq_senders v)" using queued(6) frame(4) m by simp
  have "length (vq_priority v') \<le> length (vq_priority v)"
    unfolding queued(6) m by (rule order_trans [OF start_next_length]) (simp add: frame(1))
  with out senders show ?thesis by (auto simp: outside_def sender_slot_def open_for_iff update_conv')
qed

lemma outside_pop:
  assumes ok: "verifier_ok v" and out: "outside S v" "open_for c v"
  shows "outside S (snd (pop_verifier e v)) \<and> open_for c (snd (pop_verifier e v))"
  using ok
proof (cases rule: pop_verifier_cases [of v e])
  case idle
  with out show ?thesis by simp
next
  case (served r rest v')
  have len: "length (vq_priority v') \<le> length (vq_priority v)"
    unfolding served(6) by (rule order_trans [OF start_next_length]) simp
  have slot: "map_of (vq_senders v') s = None \<or>
      (\<exists>n k l. map_of (vq_senders v) s = Some (n, l) \<and> map_of (vq_senders v') s = Some (k, l) \<and> k \<le> n)" for s
    unfolding served(6)
    by (cases "map_of (vq_senders v) s") (auto simp: release_sender_def update_conv' delete_conv' split: option.splits)
  have "snd (sender_slot s OtherLane v') = OtherLane" if "s \<in> S" for s
    using out(1) that slot [of s] by (auto simp: outside_def sender_slot_def split: option.splits)
  moreover have "open_for c v'" using out(2) slot [of c] len by (auto simp: open_for_iff)
  ultimately show ?thesis using served(1) by (simp add: outside_def)
qed

text \<open>
  Messages of senders outside the priority lane close it to no community: whatever they send, and however their checks
  end, a community whose queue was open finds it open.
\<close>

theorem strangers_close_no_lane:
  assumes "verifier_ok v" "outside S v" "c \<notin> S" "open_for c v"
    and "list_all (from_outside S) ops" "run_verifier ops v = (ins, outs, w)"
  shows "open_for c w"
  using assms
proof (induction ops arbitrary: v ins outs)
  case (Cons op ops)
  show ?case
  proof (cases op)
    case (Push a)
    obtain d t s l now where a: "a = (d, t, s, l, now)" by (cases a)
    with Cons.prems(5) Push have s: "s \<in> S" "l = OtherLane" by simp_all
    obtain r v' where run: "enqueue d t s OtherLane now v = (r, v')" by fastforce
    have v': "snd (push_verifier a v) = v'" using run a s(2) by (simp add: push_verifier_def split: sum.splits)
    obtain ins' outs' where "run_verifier ops v' = (ins', outs', w)"
      using Cons.prems(6) Push v' by (auto simp: run_verifier_def split: prod.splits)
    from Cons.IH [OF enqueue_ok [OF Cons.prems(1) run] _ Cons.prems(3) _ _ this] Cons.prems(5)
      outside_push [OF Cons.prems(1,2) s(1) Cons.prems(3,4) run] show ?thesis by simp
  next
    case (Pop e)
    obtain ins' outs' where "run_verifier ops (snd (pop_verifier e v)) = (ins', outs', w)"
      using Cons.prems(6) Pop by (auto simp: run_verifier_def split: prod.splits)
    from Cons.IH [OF vq.inv_pop [OF Cons.prems(1)] _ Cons.prems(3) _ _ this] Cons.prems(5)
      outside_pop [OF Cons.prems(1,2,4)] show ?thesis by simp
  qed
qed (simp add: run_verifier_def)

section \<open>Examples\<close>

definition example_arrival :: "string \<Rightarrow> string \<Rightarrow> lane \<Rightarrow> arrival_args" where
  "example_arrival i s l =
     (\<lparr>df_message = \<lparr>dm_id = i, dm_type = ''t'', dm_from = Some s, dm_to = None, dm_thid = None, dm_body = JNull,
         dm_created = None, dm_expires = None\<rparr>, df_job = Barrier\<rparr>, DidComm, s, l, 0)"

definition example_ops :: "(arrival_args, check_end) queue_op list" where
  "example_ops = [Push (example_arrival ''m1'' ''mallory'' OtherLane), Push (example_arrival ''m2'' ''mallory'' OtherLane),
     Push (example_arrival ''c1'' ''did:c'' PriorityLane), Push (example_arrival ''c2'' ''did:c'' PriorityLane),
     Pop TimedOut, Pop Panicked]"

lemma example_run_verifier:
  "map (\<lambda>(s, m, t). (s, dm_id m)) (fst (snd (run_verifier example_ops new_verifier))) = [(''mallory'', ''m1''), (''did:c'', ''c1'')]"
  "map (dm_id \<circ> fst) (waiting_for (snd (snd (run_verifier example_ops new_verifier))) ''did:c'') = [''c2'']"
  by code_simp+

theorem checks_come_back_in_order_witness:
  "under ''did:c'' (fst (run_verifier example_ops new_verifier))
     = under ''did:c'' (fst (snd (run_verifier example_ops new_verifier)))
       @ waiting_for (snd (snd (run_verifier example_ops new_verifier))) ''did:c'' \<and>
   map (dm_id \<circ> fst) (waiting_for (snd (snd (run_verifier example_ops new_verifier))) ''did:c'') = [''c2'']"
  using checks_come_back_in_order [of example_ops "fst (run_verifier example_ops new_verifier)" _ _ "''did:c''"]
    example_run_verifier(2) by simp

text \<open>The queue once two messages of a stranger and two of a community wait.\<close>

definition example_queue :: verifier where
  "example_queue = snd (snd (run_verifier (take 4 example_ops) new_verifier))"

lemma example_queue_ok: "verifier_ok example_queue"
  using vq.run_fifo [OF new_verifier_ok, of "take 4 example_ops"]
  by (cases "run_verifier (take 4 example_ops) new_verifier") (auto simp: example_queue_def run_verifier_def)

lemma example_queue_held: "map (dm_id \<circ> df_message \<circ> qd_deferred) (held example_queue) = [''m1'', ''c1'', ''c2'', ''m2'']"
  by code_simp

theorem priority_lane_first_witness:
  "fst (snd (run_verifier [Push (example_arrival ''m3'' ''mallory'' OtherLane), Pop TimedOut, Pop TimedOut] example_queue))
     = take 2 (served_first example_queue) \<and>
   map (\<lambda>(s, m, t). dm_id m) (take 2 (served_first example_queue)) = [''m1'', ''c1'']"
proof -
  let ?ops = "[Push (example_arrival ''m3'' ''mallory'' OtherLane), Pop TimedOut, Pop TimedOut]"
  have "length (fst (snd (run_verifier ?ops example_queue))) = 2" "length (served_first example_queue) = 3"
    "map (\<lambda>(s, m, t). dm_id m) (take 2 (served_first example_queue)) = [''m1'', ''c1'']"
    by code_simp+
  with priority_lane_first [OF example_queue_ok, of ?ops] show ?thesis
    by (cases "run_verifier ?ops example_queue") auto
qed

theorem checks_drain_witness:
  "fst (snd (run_verifier (map Pop [TimedOut, Panicked, TimedOut, TimedOut]) example_queue))
     = map (\<lambda>q. (qd_sender q, carried q)) (held example_queue)"
proof -
  have "length (held example_queue) = 4" using arg_cong [OF example_queue_held, of length] by simp
  with checks_drain [OF example_queue_ok, of "[TimedOut, Panicked, TimedOut, TimedOut]"] show ?thesis by auto
qed

theorem request_checks_rated_witness:
  "length (filter (\<lambda>x. 0 \<le> x \<and> x < 0 + seconds 60) (request_log example_ops new_verifier)) \<le> max_request_checks_per_minute"
  by (rule request_checks_rated) code_simp

theorem strangers_close_no_lane_witness:
  "open_for ''did:c'' (snd (snd (run_verifier (take 2 example_ops) new_verifier)))"
proof -
  have "outside {''mallory''} new_verifier" "open_for ''did:c'' new_verifier"
    by (simp_all add: outside_def sender_slot_def open_for_iff new_verifier_def max_priority_queued_def)
  moreover have "list_all (from_outside {''mallory''}) (take 2 example_ops)" by (simp add: example_ops_def example_arrival_def)
  ultimately show ?thesis
    using strangers_close_no_lane [OF new_verifier_ok, of "{''mallory''}" "''did:c''" "take 2 example_ops"]
    by (cases "run_verifier (take 2 example_ops) new_verifier") auto
qed

end
