(* ===== verification/InboundQueue.thy ===== *)
theory InboundQueue
  imports QueueOrder AccountView
begin

text \<open>
  How an inbound message reaches its handler (the gates at the head of \<open>process_inbound\<close> and \<open>verification_job\<close> of
  \<open>message_dispatch.rs\<close>; the inbound arm of the event loop, \<open>lane_for\<close>, \<open>queue_for_check\<close> and \<open>restore_kept\<close> of
  \<open>state_handler/mod.rs\<close>).

  The arms behind the gates are one parameter, \<open>handle\<close>: what they make of the configuration, given the result of the
  check. The relationship arms are those of \<open>RelationFlow\<close>, the communities' those of \<open>Messaging\<close>. What a type URI of
  the generated specifications is, how large a value is on the wire, and when two DIDs name the same party are the
  fields of \<open>dispatch_sdk\<close>. The display of a membership as verifying, logs and the save schedule are left out.
\<close>

section \<open>What is checked\<close>

record dispatch_sdk =
  dk_checks :: checks_sdk
  dk_credential_issue :: string
  dk_community_answers :: "string list"
  dk_community_replies :: "string list"
  dk_envelope :: string
  dk_same_reference :: "string \<Rightarrow> string \<Rightarrow> bool"
  dk_body_size :: "json \<Rightarrow> nat"
  dk_message_size :: "didcomm_message \<Rightarrow> nat option"

text \<open>
  The part of the configuration the gates read: the account, the peers, the renewals and election requests still waited
  for, the communities of the vetting book's open queries and of its applications, the resolved personas' DIDs and the
  active one's.
\<close>

type_synonym awaiting_answers = "(string \<times> string \<times> instant) list"

record dispatch_config =
  cf_account :: account
  cf_peers :: peer_state
  cf_renewals :: renewals
  cf_awaiting :: awaiting_answers
  cf_queried :: "string list"
  cf_applied :: "string list"
  cf_identities :: "string list"
  cf_active :: string

text \<open>Election requests to a community this persona holds no membership with (\<open>elections.rs\<close>).\<close>

definition awaiting_ttl :: duration where "awaiting_ttl = seconds 120"
definition max_awaiting :: nat where "max_awaiting = 64"

definition thread_key :: "string \<Rightarrow> string" where
  "thread_key thid = (case strip_prefix ''urn:uuid:'' thid of Some r \<Rightarrow> r | None \<Rightarrow> thid)"

definition still_awaited :: "instant \<Rightarrow> instant \<Rightarrow> bool" where
  "still_awaited now at \<longleftrightarrow> max 0 (now - at) < awaiting_ttl"

definition expect_answer :: "string \<Rightarrow> string \<Rightarrow> instant \<Rightarrow> awaiting_answers \<Rightarrow> awaiting_answers" where
  "expect_answer community thid now aw =
     (let live = filter (\<lambda>(_, _, at). still_awaited now at) aw
      in if length live < max_awaiting then AList.update (thread_key thid) (community, now) live else live)"

definition is_awaited :: "dispatch_sdk \<Rightarrow> string \<Rightarrow> string \<Rightarrow> instant \<Rightarrow> awaiting_answers \<Rightarrow> bool" where
  "is_awaited sdk community thid now aw \<longleftrightarrow>
     (case map_of aw (thread_key thid) of
        None \<Rightarrow> False
      | Some (c, at) \<Rightarrow> still_awaited now at \<and> dk_same_reference sdk c community)"

definition answer_taken :: "string \<Rightarrow> awaiting_answers \<Rightarrow> awaiting_answers" where
  "answer_taken thid aw = AList.delete (thread_key thid) aw"

definition awaited_election_answer :: "dispatch_sdk \<Rightarrow> didcomm_message \<Rightarrow> string \<Rightarrow> instant \<Rightarrow> awaiting_answers \<Rightarrow> bool" where
  "awaited_election_answer sdk m sender now aw =
     (case (case dm_thid m of Some t \<Rightarrow> Some t | None \<Rightarrow> jmember_str ''threadId'' (Some (dm_body m))) of
        None \<Rightarrow> False
      | Some t \<Rightarrow> is_awaited sdk sender t now aw)"

text \<open>The families of answers, by their type.\<close>

definition is_capability_reply_type :: "string \<Rightarrow> bool" where
  "is_capability_reply_type typ \<longleftrightarrow>
     starts_with ''https://trusttasks.org/spec/governance/capability/'' typ \<or> is_trust_task_error_type typ"

definition is_git_ns_reply_type :: "string \<Rightarrow> bool" where
  "is_git_ns_reply_type typ \<longleftrightarrow> starts_with ''https://trusttasks.org/spec/git-ns/'' typ \<or> is_trust_task_error_type typ"

definition is_rooms_reply_type :: "string \<Rightarrow> bool" where
  "is_rooms_reply_type typ \<longleftrightarrow> starts_with ''https://trusttasks.org/spec/vtc/rooms/'' typ \<or> is_trust_task_error_type typ"

definition is_elections_reply_type :: "string \<Rightarrow> bool" where
  "is_elections_reply_type typ \<longleftrightarrow>
     starts_with ''https://trusttasks.org/spec/vtc/elections/'' typ \<or> is_trust_task_error_type typ"

text \<open>
  \<open>verification_job\<close>: the check a message needs, if it passes the local tests first. \<open>dk_community_answers\<close> are the
  answers to vetting questions, \<open>dk_community_replies\<close> the submit response, removal notice, VMC request, receipt, status
  and profile.
\<close>

definition operational_check :: "dispatch_config \<Rightarrow> didcomm_message \<Rightarrow> string \<Rightarrow> verify_job" where
  "operational_check c m sender =
     CheckOperational (dm_body m) sender (map (pr_did \<circ> snd) (ac_personas (cf_account c))) (dm_type m)"

definition credential_job :: "dispatch_config \<Rightarrow> didcomm_message \<Rightarrow> string \<Rightarrow> verify_job option" where
  "credential_job c m sender =
     (case credential_in_issue m of
        None \<Rightarrow> None
      | Some credential \<Rightarrow>
          if memberships_for (cf_account c) sender \<noteq> [] \<and>
             (case jpointer [''credentialSubject'', ''id''] credential of
                Some (JString subject) \<Rightarrow> persona_id_for_did (cf_account c) subject \<noteq> None
              | _ \<Rightarrow> False) \<and>
             issuer_of credential = Some sender
          then Some (CheckCredential (dm_body m) sender) else None)"

definition relation_job :: "relation_sdk \<Rightarrow> peer_state \<Rightarrow> didcomm_message \<Rightarrow> string \<Rightarrow> string \<Rightarrow> verify_job option" where
  "relation_job w ps m sender recipient =
     (case message_type_of (dm_type m) of
        Some MsgRelationshipRequest \<Rightarrow>
          (case rw_request w (dm_body m) of
             None \<Rightarrow> None
           | Some body \<Rightarrow>
               if did_valid w (rlb_did body) \<and> relationship_request_admissible (dm_id m) sender ps = Inr () then
                 Some (CheckDidBinding (rlb_did body) (rlb_did_proof body) sender (rlb_persona_proof body) recipient (dm_id m)
                         RoleRequest)
               else None)
      | Some MsgRelationshipRequestAccepted \<Rightarrow>
          (case rw_accept w (dm_body m) of
             None \<Rightarrow> None
           | Some body \<Rightarrow>
               if \<not> did_valid w (rla_did body) then None
               else (case dm_thid m of
                       None \<Rightarrow> None
                     | Some thid \<Rightarrow>
                         if awaiting (ps_relationships ps) thid RequestSent sender \<noteq> None then
                           Some (CheckDidBinding (rla_did body) (rla_did_proof body) sender (rla_persona_proof body)
                                   recipient thid RoleAccept)
                         else None))
      | Some MsgVRCIssued \<Rightarrow>
          (case rw_vrc w (dm_body m) of
             None \<Rightarrow> None
           | Some vrc \<Rightarrow>
               (case vet_vrc_issued (ps_relationships ps) (ps_tasks ps) vrc sender (dm_thid m) of
                  Inl _ \<Rightarrow> None
                | Inr _ \<Rightarrow> Some (CheckVrc vrc)))
      | _ \<Rightarrow> None)"

definition verification_job ::
  "dispatch_sdk \<Rightarrow> instant \<Rightarrow> dispatch_config \<Rightarrow> didcomm_message \<Rightarrow> string \<Rightarrow> string \<Rightarrow> verify_job option" where
  "verification_job sdk now c m sender recipient =
     (let typ = dm_type m;
          member = memberships_for (cf_account c) sender \<noteq> [];
          operational = Some (operational_check c m sender)
      in if typ = dk_credential_issue sdk then credential_job c m sender
         else if typ \<in> set (dk_community_answers sdk) then
           (if sender \<in> set (cf_queried c) \<or> sender \<in> set (cf_applied c) \<or> member then operational else None)
         else if typ = rk_response_type (xk_renew (dk_checks sdk)) then
           (if member \<and> (case dm_thid m of None \<Rightarrow> False
                           | Some thid \<Rightarrow> is_pending (xk_renew (dk_checks sdk)) sender thid now (cf_renewals c)) then
              Some (CheckRenewal (dm_body m) sender (map (pr_did \<circ> snd) (ac_personas (cf_account c))))
            else None)
         else if \<not> member \<and> is_elections_reply_type typ then
           (if awaited_election_answer sdk m sender now (cf_awaiting c) then operational else None)
         else if is_capability_reply_type typ \<or> is_git_ns_reply_type typ \<or> is_rooms_reply_type typ \<or>
                 is_elections_reply_type typ \<or> typ \<in> set (dk_community_replies sdk) then
           (if member then operational else None)
         else relation_job (xk_relation (dk_checks sdk)) (cf_peers c) m sender recipient)"

section \<open>The gates\<close>

definition max_message_body_size :: nat where "max_message_body_size = 1048576"

definition trust_pong_type :: string where "trust_pong_type = message_type_url MsgTrustPong"

definition open_didcomm_envelope :: "dispatch_sdk \<Rightarrow> didcomm_message \<Rightarrow> didcomm_message option" where
  "open_didcomm_envelope sdk m =
     (if dm_type m \<noteq> dk_envelope sdk then None
      else case jmember_str ''type'' (Some (dm_body m)) of
             None \<Rightarrow> None
           | Some typ \<Rightarrow>
               Some (m\<lparr>dm_type := typ,
                       dm_thid := (case dm_thid m of Some t \<Rightarrow> Some t | None \<Rightarrow> jmember_str ''threadId'' (Some (dm_body m)))\<rparr>))"

definition recipient_of :: "dispatch_config \<Rightarrow> didcomm_message \<Rightarrow> string" where
  "recipient_of c m =
     (case Option.bind (dm_to m) (List.find (\<lambda>t. t \<in> set (cf_identities c))) of Some t \<Rightarrow> t | None \<Rightarrow> cf_active c)"

text \<open>
  Where a message is in its handling: just arrived, with what says whether a sender has messages ahead of this one;
  kept from before a restart; or back from its check.
\<close>

datatype arrival = NewArrival "string \<Rightarrow> bool" | RestoredArrival | ReturningArrival pre_verified

datatype triaged =
    Dropped
  | PongCleanup "string option"
  | SetAside deferred
  | Dispatch "pre_verified option" didcomm_message string string

text \<open>A message no gate lets through: without a sender, too large, or an envelope around nothing.\<close>

definition unreadable :: "dispatch_sdk \<Rightarrow> didcomm_message \<Rightarrow> bool" where
  "unreadable sdk m \<longleftrightarrow> dm_from m = None \<or> max_message_body_size < dk_body_size sdk (dm_body m) \<or>
     (open_didcomm_envelope sdk m = None \<and> dm_type m = dk_envelope sdk)"

text \<open>The gates behind age and replay, for a message as it arrived.\<close>

definition triage_sender :: "dispatch_sdk \<Rightarrow> instant \<Rightarrow> dispatch_config \<Rightarrow> arrival \<Rightarrow> didcomm_message \<Rightarrow> triaged" where
  "triage_sender sdk now c arrival m =
     (case dm_from m of
        None \<Rightarrow> if dm_type m = trust_pong_type then PongCleanup (dm_thid m) else Dropped
      | Some sender \<Rightarrow>
          let recipient = recipient_of c m; opened = open_didcomm_envelope sdk m
          in if max_message_body_size < dk_body_size sdk (dm_body m) then Dropped
             else if opened = None \<and> dm_type m = dk_envelope sdk then Dropped
             else
               let msg = (case opened of Some o' \<Rightarrow> o' | None \<Rightarrow> m);
                   job = verification_job sdk now c msg sender recipient
               in case arrival of
                    NewArrival waiting \<Rightarrow>
                      (case job of
                         Some j \<Rightarrow> SetAside \<lparr>df_message = m, df_job = j\<rparr>
                       | None \<Rightarrow> if waiting sender then SetAside \<lparr>df_message = m, df_job = Barrier\<rparr>
                                 else Dispatch None msg sender recipient)
                  | RestoredArrival \<Rightarrow>
                      SetAside \<lparr>df_message = m, df_job = (case job of Some j \<Rightarrow> j | None \<Rightarrow> Barrier)\<rparr>
                  | ReturningArrival pre \<Rightarrow>
                      (case (pre, job) of
                         (PreBarrier, Some j) \<Rightarrow> SetAside \<lparr>df_message = m, df_job = j\<rparr>
                       | _ \<Rightarrow> Dispatch (Some pre) msg sender recipient))"

definition triage ::
  "dispatch_sdk \<Rightarrow> instant \<Rightarrow> 64 word \<Rightarrow> dispatch_config \<Rightarrow> arrival \<Rightarrow> didcomm_message \<Rightarrow> seen_messages
     \<Rightarrow> triaged \<times> seen_messages" where
  "triage sdk now secs c arrival m seen =
     (case arrival of
        NewArrival _ \<Rightarrow>
          if check_message_age secs m \<noteq> Inr () then (Dropped, seen)
          else (case observe (dm_id m) seen of
                  (True, seen') \<Rightarrow> (Dropped, seen')
                | (False, seen') \<Rightarrow> (triage_sender sdk now c arrival m, seen'))
      | RestoredArrival \<Rightarrow> (triage_sender sdk now c arrival m, snd (observe (dm_id m) seen))
      | ReturningArrival _ \<Rightarrow> (triage_sender sdk now c arrival m, seen))"

section \<open>The event loop\<close>

text \<open>Kept in the protected configuration until it is applied: the mediator has already deleted it.\<close>

record deferred_inbound =
  km_sender :: string
  km_message :: didcomm_message
  km_transport :: messaging_transport

record inbound_loop =
  il_config :: dispatch_config
  il_seen :: seen_messages
  il_verifier :: verifier
  il_kept :: "deferred_inbound list"
  il_backlog :: "deferred_inbound list"

definition max_kept_deferred_bytes :: nat where "max_kept_deferred_bytes = 32 * 1024"
definition max_kept_deferred :: nat where "max_kept_deferred = 128"

definition lane_for :: "account \<Rightarrow> string option \<Rightarrow> string option \<Rightarrow> (lane \<times> string) option" where
  "lane_for a claimed authenticated =
     (case authenticated of
        None \<Rightarrow> None
      | Some s \<Rightarrow>
          Some (if claimed = Some s \<and> memberships_for a s \<noteq> [] then PriorityLane else OtherLane, s))"

definition same_kept :: "string \<Rightarrow> string \<Rightarrow> deferred_inbound \<Rightarrow> bool" where
  "same_kept sender i k \<longleftrightarrow> km_sender k = sender \<and> dm_id (km_message k) = i"

definition keep_message :: "deferred_inbound \<Rightarrow> deferred_inbound list \<Rightarrow> deferred_inbound list" where
  "keep_message k ks =
     (if list_ex (same_kept (km_sender k) (dm_id (km_message k))) ks then ks
      else if length ks < max_kept_deferred then ks @ [k] else ks)"

definition queue_for_check ::
  "dispatch_sdk \<Rightarrow> instant \<Rightarrow> deferred \<Rightarrow> messaging_transport \<Rightarrow> string option \<Rightarrow> inbound_loop \<Rightarrow> (refused + unit) \<times> inbound_loop"
  where
  "queue_for_check sdk now d transport authenticated st =
     (case lane_for (cf_account (il_config st)) (dm_from (df_message d)) authenticated of
        None \<Rightarrow> (Inl Unauthenticated, st)
      | Some (lane, sender) \<Rightarrow>
          let keep = lane = PriorityLane \<and>
                (case dk_message_size sdk (df_message d) of None \<Rightarrow> False | Some n \<Rightarrow> n \<le> max_kept_deferred_bytes)
          in case enqueue d transport sender lane now (il_verifier st) of
               (Inl e, v) \<Rightarrow> (Inl e, st\<lparr>il_verifier := v\<rparr>)
             | (Inr _, v) \<Rightarrow>
                 (Inr (), st\<lparr>il_verifier := v,
                             il_kept := (if keep then
                                           keep_message \<lparr>km_sender = sender, km_message = df_message d, km_transport = transport\<rparr>
                                             (il_kept st)
                                         else il_kept st)\<rparr>))"

text \<open>
  What a handler makes of the configuration: the result of the check, the message opened, its sender and recipient. A
  pong without a sender only removes the task its thread names.
\<close>

type_synonym handler =
  "pre_verified option \<Rightarrow> didcomm_message \<Rightarrow> string \<Rightarrow> string \<Rightarrow> instant \<Rightarrow> dispatch_config \<Rightarrow> dispatch_config"

definition process_inbound ::
  "dispatch_sdk \<Rightarrow> handler \<Rightarrow> instant \<Rightarrow> 64 word \<Rightarrow> arrival \<Rightarrow> didcomm_message \<Rightarrow> inbound_loop \<Rightarrow> deferred option \<times> inbound_loop"
  where
  "process_inbound sdk handle now secs arrival m st =
     (case triage sdk now secs (il_config st) arrival m (il_seen st) of
        (Dropped, seen) \<Rightarrow> (None, st\<lparr>il_seen := seen\<rparr>)
      | (PongCleanup thid, seen) \<Rightarrow>
          (None, st\<lparr>il_seen := seen,
                    il_config := (case thid of
                       None \<Rightarrow> il_config st
                     | Some t \<Rightarrow> (il_config st)\<lparr>cf_peers := (cf_peers (il_config st))
                                    \<lparr>ps_tasks := snd (tasks_remove t (ps_tasks (cf_peers (il_config st))))\<rparr>\<rparr>)\<rparr>)
      | (SetAside d, seen) \<Rightarrow> (Some d, st\<lparr>il_seen := seen\<rparr>)
      | (Dispatch pre msg sender recipient, seen) \<Rightarrow>
          (None, st\<lparr>il_seen := seen, il_config := handle pre msg sender recipient now (il_config st)\<rparr>))"

definition forget_kept :: "string option \<Rightarrow> string \<Rightarrow> inbound_loop \<Rightarrow> inbound_loop" where
  "forget_kept sender i st =
     st\<lparr>il_kept := filter (\<lambda>k. Some (km_sender k) \<noteq> sender \<or> dm_id (km_message k) \<noteq> i) (il_kept st)\<rparr>"

text \<open>
  \<open>restore_kept\<close> over the backlog, oldest first: it stops at the first message that does not fit, which stays; one that
  dispatch no longer sets aside is forgotten.
\<close>

fun restore_kept ::
  "dispatch_sdk \<Rightarrow> handler \<Rightarrow> instant \<Rightarrow> 64 word \<Rightarrow> deferred_inbound list \<Rightarrow> inbound_loop \<Rightarrow> inbound_loop" where
  "restore_kept sdk handle now secs [] st = st\<lparr>il_backlog := []\<rparr>"
| "restore_kept sdk handle now secs (k # ks) st =
     (if is_full_for (km_sender k) PriorityLane (il_verifier st) then st\<lparr>il_backlog := k # ks\<rparr>
      else case process_inbound sdk handle now secs RestoredArrival (km_message k) st of
             (set_aside, st1) \<Rightarrow>
               (case (case set_aside of
                        Some d \<Rightarrow> queue_for_check sdk now d (km_transport k) (Some (km_sender k)) st1
                      | None \<Rightarrow> (Inl Unauthenticated, st1)) of
                  (Inr _, st2) \<Rightarrow> restore_kept sdk handle now secs ks st2
                | (Inl Unauthenticated, st2) \<Rightarrow>
                    restore_kept sdk handle now secs ks (forget_kept (Some (km_sender k)) (dm_id (km_message k)) st2)
                | (Inl _, st2) \<Rightarrow> st2\<lparr>il_backlog := k # ks\<rparr>))"

definition restore_backlog :: "dispatch_sdk \<Rightarrow> handler \<Rightarrow> instant \<Rightarrow> 64 word \<Rightarrow> inbound_loop \<Rightarrow> inbound_loop" where
  "restore_backlog sdk handle now secs st = restore_kept sdk handle now secs (il_backlog st) st"

text \<open>The inbound arm of the loop, for a message as it arrived or back from its check.\<close>

definition receive ::
  "dispatch_sdk \<Rightarrow> handler \<Rightarrow> instant \<Rightarrow> 64 word \<Rightarrow> string option \<Rightarrow> messaging_transport \<Rightarrow> pre_verified option \<Rightarrow> didcomm_message
     \<Rightarrow> inbound_loop \<Rightarrow> inbound_loop" where
  "receive sdk handle now secs authenticated transport pre m st =
     (let arrival = (case pre of
                       Some p \<Rightarrow> ReturningArrival p
                     | None \<Rightarrow> NewArrival (\<lambda>claimed. authenticated = Some claimed \<and> is_waiting_on claimed (il_verifier st)))
      in case process_inbound sdk handle now secs arrival m st of
           (set_aside, st1) \<Rightarrow>
             let st2 = (if pre = None then st1 else forget_kept authenticated (dm_id m) st1);
                 st3 = (case set_aside of None \<Rightarrow> st2 | Some d \<Rightarrow> snd (queue_for_check sdk now d transport authenticated st2))
             in if pre \<noteq> None \<and> il_backlog st3 \<noteq> [] then restore_backlog sdk handle now secs st3 else st3)"

text \<open>A check that ends hands its message back under the sender it was queued for.\<close>

definition receive_checked ::
  "dispatch_sdk \<Rightarrow> handler \<Rightarrow> instant \<Rightarrow> 64 word \<Rightarrow> check_end \<Rightarrow> inbound_loop \<Rightarrow> inbound_loop option" where
  "receive_checked sdk handle now secs e st =
     (case finish_check e (il_verifier st) of
        None \<Rightarrow> None
      | Some (f, v) \<Rightarrow>
          Some (receive sdk handle now secs (Some (fi_sender f)) (fi_transport f) (Some (fi_pre f)) (fi_message f)
                  (st\<lparr>il_verifier := v\<rparr>)))"

text \<open>A start of the client: nothing is queued or seen, and what was kept is queued again as room allows.\<close>

definition start_loop ::
  "dispatch_sdk \<Rightarrow> handler \<Rightarrow> instant \<Rightarrow> 64 word \<Rightarrow> dispatch_config \<Rightarrow> deferred_inbound list \<Rightarrow> inbound_loop" where
  "start_loop sdk handle now secs c kept =
     restore_backlog sdk handle now secs
       \<lparr>il_config = c, il_seen = seen_new, il_verifier = new_verifier, il_kept = kept, il_backlog = kept\<rparr>"

end
