(* ===== verification/InboundFlow.thy ===== *)
theory InboundFlow
  imports InboundQueue
begin

text \<open>
  What the queue of inbound messages promises once it runs: no kept message is lost or left behind, a message that
  needs a check is handled only with its result, and one sender's messages are not overtaken.
\<close>

section \<open>Steps\<close>

text \<open>
  A message arrives, a check ends, the poll comes round, the user or a background task changes the configuration, or
  the client is restarted with what it had saved.
\<close>

inductive loop_step :: "dispatch_sdk \<Rightarrow> handler \<Rightarrow> inbound_loop \<Rightarrow> inbound_loop \<Rightarrow> bool" for sdk handle where
  arrives: "loop_step sdk handle st (receive sdk handle now secs authenticated transport None m st)"
| checked: "receive_checked sdk handle now secs e st = Some st' \<Longrightarrow> loop_step sdk handle st st'"
| tick: "loop_step sdk handle st (if il_backlog st = [] then st else restore_backlog sdk handle now secs st)"
| acts: "loop_step sdk handle st (st\<lparr>il_config := c\<rparr>)"
| restarts: "loop_step sdk handle st (start_loop sdk handle now secs c (il_kept st))"

section \<open>What the operations leave alone\<close>

lemma triage_set_aside:
  assumes "triage sdk now secs c arrival m seen = (SetAside d, seen')"
  shows "df_message d = m"
  using assms
  by (auto simp: triage_def triage_sender_def Let_def split: arrival.splits option.splits if_splits prod.splits bool.splits
      pre_verified.splits)

lemma process_inbound_frame:
  assumes "process_inbound sdk handle now secs arrival m st = (d, st1)"
  shows "il_kept st1 = il_kept st" "il_backlog st1 = il_backlog st" "il_verifier st1 = il_verifier st"
    "\<And>x. d = Some x \<Longrightarrow> df_message x = m"
proof -
  obtain t seen where t: "triage sdk now secs (il_config st) arrival m (il_seen st) = (t, seen)" by fastforce
  show "il_kept st1 = il_kept st" "il_backlog st1 = il_backlog st" "il_verifier st1 = il_verifier st"
    using assms t by (auto simp: process_inbound_def split: triaged.splits)
  show "df_message x = m" if "d = Some x" for x
    using assms t that triage_set_aside [of sdk now secs "il_config st" arrival m "il_seen st"]
    by (auto simp: process_inbound_def split: triaged.splits)
qed

text \<open>A kept message is set aside again unless no gate lets it through.\<close>

lemma triage_restored:
  "fst (triage sdk now secs c RestoredArrival m seen) \<in> range SetAside \<longleftrightarrow> \<not> unreadable sdk m"
  by (auto simp: triage_def triage_sender_def unreadable_def Let_def split: option.splits)

lemma process_restored:
  assumes "process_inbound sdk handle now secs RestoredArrival m st = (d, st1)"
  shows "d = None \<longleftrightarrow> unreadable sdk m"
  using assms triage_restored [of sdk now secs "il_config st" m "il_seen st"]
  by (auto simp: process_inbound_def split: prod.splits triaged.splits)

section \<open>Messages in hand\<close>

type_synonym message_key = "string \<times> string"

definition kept_key :: "deferred_inbound \<Rightarrow> message_key" where
  "kept_key k = (km_sender k, dm_id (km_message k))"

definition queued_key :: "queued \<Rightarrow> message_key" where
  "queued_key q = (qd_sender q, dm_id (df_message (qd_deferred q)))"

definition held_keys :: "verifier \<Rightarrow> message_key set" where
  "held_keys v = queued_key ` set (held v)"

lemma same_kept_key: "same_kept s i k \<longleftrightarrow> kept_key k = (s, i)"
  by (auto simp: same_kept_def kept_key_def)

lemma forget_kept_set: "set (il_kept (forget_kept (Some s) i st)) = {k \<in> set (il_kept st). kept_key k \<noteq> (s, i)}"
  by (auto simp: forget_kept_def kept_key_def)

lemma forget_kept_frame [simp]:
  "il_verifier (forget_kept s i st) = il_verifier st" "il_backlog (forget_kept s i st) = il_backlog st"
  "il_config (forget_kept s i st) = il_config st" "il_seen (forget_kept s i st) = il_seen st"
  by (simp_all add: forget_kept_def)

lemma held_keys_enqueue:
  assumes "verifier_ok v" "enqueue d t s l now v = (r, v')"
  shows "held_keys v' = held_keys v \<union> (if isl r then {} else {(s, dm_id (df_message d))})"
proof -
  have mem: "q \<in> set (held w) \<longleftrightarrow> q \<in> set (held_by (qd_sender q) (held w))" for q w by (simp add: held_by_def)
  have "set (held v') = set (held v) \<union>
      (if isl r then {} else {\<lparr>qd_deferred = d, qd_transport = t, qd_sender = s\<rparr>})"
  proof (rule set_eqI)
    fix q
    show "q \<in> set (held v') \<longleftrightarrow>
        q \<in> set (held v) \<union> (if isl r then {} else {\<lparr>qd_deferred = d, qd_transport = t, qd_sender = s\<rparr>})"
      unfolding mem [of q v'] enqueue_held [OF assms, of "qd_sender q"] using mem [of q v] by (cases r) auto
  qed
  then show ?thesis by (auto simp: held_keys_def queued_key_def)
qed

text \<open>
  The well-formedness of the loop: the queue is sound, few messages are kept, each once, and each is in hand: in the
  backlog, in the queue or being checked. \<open>backlog\<close> is the part of it still to be gone through.
\<close>

definition in_hand :: "deferred_inbound list \<Rightarrow> verifier \<Rightarrow> deferred_inbound list \<Rightarrow> bool" where
  "in_hand kept v backlog \<longleftrightarrow> (\<forall>k \<in> set kept. kept_key k \<in> kept_key ` set backlog \<union> held_keys v)"

definition loop_ok :: "deferred_inbound list \<Rightarrow> inbound_loop \<Rightarrow> bool" where
  "loop_ok backlog st \<longleftrightarrow> verifier_ok (il_verifier st) \<and> length (il_kept st) \<le> max_kept_deferred \<and>
     distinct (map kept_key (il_kept st)) \<and> in_hand (il_kept st) (il_verifier st) backlog"

lemma keep_message_ok:
  assumes "distinct (map kept_key ks)" "length ks \<le> max_kept_deferred"
  shows "distinct (map kept_key (keep_message k ks))" "length (keep_message k ks) \<le> max_kept_deferred"
    "set ks \<subseteq> set (keep_message k ks)" "set (keep_message k ks) \<subseteq> insert k (set ks)"
  using assms by (auto simp: keep_message_def list_ex_iff same_kept_key kept_key_def [of k, symmetric])

lemma queue_for_check_ok:
  assumes ok: "loop_ok backlog st" and run: "queue_for_check sdk now d t auth st = (r, st')"
  shows "loop_ok backlog st'" "set (il_kept st) \<subseteq> set (il_kept st')" "il_backlog st' = il_backlog st"
    "il_config st' = il_config st" "held_keys (il_verifier st) \<subseteq> held_keys (il_verifier st')"
    "r = Inr () \<Longrightarrow> \<exists>s. auth = Some s \<and> (s, dm_id (df_message d)) \<in> held_keys (il_verifier st')"
    "r = Inl Unauthenticated \<Longrightarrow> st' = st"
proof -
  have v: "verifier_ok (il_verifier st)" using ok by (simp add: loop_ok_def)
  have "loop_ok backlog st' \<and> set (il_kept st) \<subseteq> set (il_kept st') \<and> il_backlog st' = il_backlog st \<and>
    il_config st' = il_config st \<and> held_keys (il_verifier st) \<subseteq> held_keys (il_verifier st') \<and>
    (r = Inr () \<longrightarrow> (\<exists>s. auth = Some s \<and> (s, dm_id (df_message d)) \<in> held_keys (il_verifier st'))) \<and>
    (r = Inl Unauthenticated \<longrightarrow> st' = st)"
  proof (cases "lane_for (cf_account (il_config st)) (dm_from (df_message d)) auth")
    case None
    with run ok show ?thesis by (auto simp: queue_for_check_def)
  next
    case (Some p)
    obtain lane s where p: "p = (lane, s)" by fastforce
    have auth: "auth = Some s" using Some p by (auto simp: lane_for_def split: option.splits)
    obtain e v' where e: "enqueue d t s lane now (il_verifier st) = (e, v')" by fastforce
    have v': "verifier_ok v'" by (rule enqueue_ok [OF v e])
    note keys = held_keys_enqueue [OF v e]
    have un: "e \<noteq> Inl Unauthenticated"
      using e by (auto simp: enqueue_def Let_def split: prod.splits if_splits bool.splits)
    show ?thesis
    proof (cases e)
      case (Inl x)
      with run Some p e keys ok v' un show ?thesis
        by (auto simp: queue_for_check_def Let_def loop_ok_def in_hand_def)
    next
      case (Inr y)
      let ?k = "\<lparr>km_sender = s, km_message = df_message d, km_transport = t\<rparr>"
      have key: "kept_key ?k \<in> held_keys v'" using keys Inr by (simp add: kept_key_def)
      obtain b where st': "st' = st\<lparr>il_verifier := v', il_kept := (if b then keep_message ?k (il_kept st) else il_kept st)\<rparr>"
          and r: "r = Inr ()"
        using run Some p e Inr by (auto simp: queue_for_check_def Let_def)
      from ok have base: "distinct (map kept_key (il_kept st))" "length (il_kept st) \<le> max_kept_deferred"
        by (simp_all add: loop_ok_def)
      note km = keep_message_ok [OF base, of ?k]
      have "in_hand (il_kept st') v' backlog"
        using ok km(4) key keys by (auto simp: st' loop_ok_def in_hand_def)
      with km base v' r st' key keys auth show ?thesis by (auto simp: loop_ok_def kept_key_def)
    qed
  qed
  then show "loop_ok backlog st'" "set (il_kept st) \<subseteq> set (il_kept st')" "il_backlog st' = il_backlog st"
    "il_config st' = il_config st" "held_keys (il_verifier st) \<subseteq> held_keys (il_verifier st')"
    "r = Inr () \<Longrightarrow> \<exists>s. auth = Some s \<and> (s, dm_id (df_message d)) \<in> held_keys (il_verifier st')"
    "r = Inl Unauthenticated \<Longrightarrow> st' = st"
    by auto
qed

section \<open>Restoring and receiving\<close>

lemma process_inbound_ok:
  assumes "process_inbound sdk handle now secs arrival m st = (d, st1)"
  shows "loop_ok backlog st1 \<longleftrightarrow> loop_ok backlog st"
  using process_inbound_frame [OF assms] by (simp add: loop_ok_def)

lemma forget_kept_ok:
  assumes "loop_ok (k # ks) st"
  shows "loop_ok ks (forget_kept (Some (km_sender k)) (dm_id (km_message k)) st)"
proof -
  have "in_hand (il_kept (forget_kept (Some (km_sender k)) (dm_id (km_message k)) st)) (il_verifier st) ks"
    using assms unfolding in_hand_def forget_kept_set by (auto simp: loop_ok_def in_hand_def kept_key_def)
  moreover have "distinct (map kept_key (il_kept (forget_kept (Some (km_sender k)) (dm_id (km_message k)) st)))"
    using assms by (simp add: loop_ok_def forget_kept_def distinct_map_filter)
  moreover have "length (il_kept (forget_kept (Some (km_sender k)) (dm_id (km_message k)) st)) \<le> length (il_kept st)"
    by (simp add: forget_kept_def)
  ultimately show ?thesis using assms by (simp add: loop_ok_def)
qed

text \<open>
  Going through the backlog keeps the loop well formed, and forgets only messages that no gate lets through.
\<close>

lemma restore_kept_ok:
  assumes "loop_ok ks st"
  shows "loop_ok (il_backlog (restore_kept sdk handle now secs ks st)) (restore_kept sdk handle now secs ks st) \<and>
    (\<forall>k \<in> set (il_kept st). k \<in> set (il_kept (restore_kept sdk handle now secs ks st)) \<or>
       (\<exists>b \<in> set ks. kept_key b = kept_key k \<and> unreadable sdk (km_message b)))"
  using assms
proof (induction sdk handle now secs ks st rule: restore_kept.induct)
  case (1 sdk handle now secs st)
  then show ?case by (simp add: loop_ok_def)
next
  case (2 sdk handle now secs k ks st)
  show ?case
  proof (cases "is_full_for (km_sender k) PriorityLane (il_verifier st)")
    case True
    with "2.prems" show ?thesis by (simp add: loop_ok_def)
  next
    case False
    obtain d st1 where d: "process_inbound sdk handle now secs RestoredArrival (km_message k) st = (d, st1)" by fastforce
    note frame = process_inbound_frame [OF d]
    have ok1: "loop_ok (k # ks) st1" using process_inbound_ok [OF d] "2.prems" by simp
    obtain r st2 where r: "(case d of
        Some x \<Rightarrow> queue_for_check sdk now x (km_transport k) (Some (km_sender k)) st1
      | None \<Rightarrow> (Inl Unauthenticated, st1)) = (r, st2)" by fastforce
    have ok2: "loop_ok (k # ks) st2 \<and> set (il_kept st1) \<subseteq> set (il_kept st2) \<and>
        (r = Inr () \<longrightarrow> kept_key k \<in> held_keys (il_verifier st2))"
    proof (cases d)
      case None
      with r ok1 show ?thesis by auto
    next
      case (Some x)
      with r have q: "queue_for_check sdk now x (km_transport k) (Some (km_sender k)) st1 = (r, st2)" by simp
      from queue_for_check_ok [OF ok1 q] frame(4) [OF Some] show ?thesis by (auto simp: kept_key_def)
    qed
    consider (queued) "r = Inr ()" | (gone) "r = Inl Unauthenticated" | (full) e where "r = Inl e" "e \<noteq> Unauthenticated"
      by (cases r) auto
    then show ?thesis
    proof cases
      case queued
      have ok: "loop_ok ks st2" using ok2 queued by (auto simp: loop_ok_def in_hand_def)
      have run: "restore_kept sdk handle now secs (k # ks) st = restore_kept sdk handle now secs ks st2"
        using False d r queued by simp
      from "2.IH"(2) [OF False d [symmetric] r [symmetric] queued ok] show ?thesis
        unfolding run using ok2 frame(1) by (auto 0 4)
    next
      case full
      have "restore_kept sdk handle now secs (k # ks) st = st2\<lparr>il_backlog := k # ks\<rparr>"
        using False d r full by (cases e) simp_all
      with ok2 frame(1) show ?thesis by (auto simp: loop_ok_def)
    next
      case gone
      let ?st3 = "forget_kept (Some (km_sender k)) (dm_id (km_message k)) st2"
      have un: "unreadable sdk (km_message k)"
      proof (rule ccontr)
        assume "\<not> ?thesis"
        with process_restored [OF d] obtain x where x: "d = Some x" by auto
        with r gone have q: "queue_for_check sdk now x (km_transport k) (Some (km_sender k)) st1 = (Inl Unauthenticated, st2)"
          by simp
        then show False
          by (auto simp: queue_for_check_def lane_for_def enqueue_def Let_def split: prod.splits sum.splits if_splits bool.splits)
      qed
      have run: "restore_kept sdk handle now secs (k # ks) st = restore_kept sdk handle now secs ks ?st3"
        using False d r gone by simp
      have ok3: "loop_ok ks ?st3" using ok2 by (intro forget_kept_ok) simp
      have mem: "\<forall>l \<in> set (il_kept st). l \<in> set (il_kept ?st3) \<or> kept_key k = kept_key l"
        using ok2 frame(1) by (auto simp: forget_kept_set kept_key_def)
      from "2.IH"(1) [OF False d [symmetric] r [symmetric] gone refl ok3] show ?thesis
        unfolding run using mem un by (auto 0 4)
    qed
  qed
qed

text \<open>A message arriving adds what is in hand; nothing kept is forgotten.\<close>

lemma receive_new_ok:
  assumes "loop_ok (il_backlog st) st"
  shows "loop_ok (il_backlog (receive sdk handle now secs auth t None m st)) (receive sdk handle now secs auth t None m st)"
    "set (il_kept st) \<subseteq> set (il_kept (receive sdk handle now secs auth t None m st))"
proof -
  let ?arrival = "NewArrival (\<lambda>claimed. auth = Some claimed \<and> is_waiting_on claimed (il_verifier st))"
  obtain d st1 where d: "process_inbound sdk handle now secs ?arrival m st = (d, st1)" by fastforce
  note frame = process_inbound_frame [OF d]
  have ok1: "loop_ok (il_backlog st1) st1" using process_inbound_ok [OF d] frame(2) assms by simp
  have "loop_ok (il_backlog (receive sdk handle now secs auth t None m st)) (receive sdk handle now secs auth t None m st) \<and>
    set (il_kept st) \<subseteq> set (il_kept (receive sdk handle now secs auth t None m st))"
  proof (cases d)
    case None
    with d ok1 frame(1) show ?thesis by (simp add: receive_def)
  next
    case (Some x)
    obtain r st2 where q: "queue_for_check sdk now x t auth st1 = (r, st2)" by fastforce
    from queue_for_check_ok [OF ok1 q] frame(1) d Some q show ?thesis by (simp add: receive_def)
  qed
  then show "loop_ok (il_backlog (receive sdk handle now secs auth t None m st)) (receive sdk handle now secs auth t None m st)"
    "set (il_kept st) \<subseteq> set (il_kept (receive sdk handle now secs auth t None m st))"
    by simp_all
qed

lemma restore_backlog_ok:
  assumes "loop_ok (il_backlog st) st"
  shows "loop_ok (il_backlog (restore_backlog sdk handle now secs st)) (restore_backlog sdk handle now secs st) \<and>
    (\<forall>k \<in> set (il_kept st). k \<in> set (il_kept (restore_backlog sdk handle now secs st)) \<or>
       (\<exists>b \<in> set (il_backlog st). kept_key b = kept_key k \<and> unreadable sdk (km_message b)))"
  unfolding restore_backlog_def by (rule restore_kept_ok [OF assms])

text \<open>
  A message back from its check: its own kept copy goes, with what the backlog then turns out to hold that no gate lets
  through; nothing else does.
\<close>

lemma receive_checked_ok:
  assumes ok: "loop_ok (il_backlog st) st" and run: "receive_checked sdk handle now secs e st = Some st'"
  shows "loop_ok (il_backlog st') st' \<and>
    (\<forall>k \<in> set (il_kept st). k \<in> set (il_kept st') \<or>
       (\<exists>f v. finish_check e (il_verifier st) = Some (f, v) \<and> kept_key k = (fi_sender f, dm_id (fi_message f))) \<or>
       (\<exists>b \<in> set (il_backlog st). kept_key b = kept_key k \<and> unreadable sdk (km_message b)))"
proof -
  have v: "verifier_ok (il_verifier st)" using ok by (simp add: loop_ok_def)
  obtain f v' where f: "finish_check e (il_verifier st) = Some (f, v')"
    and st': "st' = receive sdk handle now secs (Some (fi_sender f)) (fi_transport f) (Some (fi_pre f)) (fi_message f)
        (st\<lparr>il_verifier := v'\<rparr>)"
    using run by (auto simp: receive_checked_def split: option.splits)
  let ?key = "(fi_sender f, dm_id (fi_message f))"
  have hand: "verifier_ok v' \<and> held_keys (il_verifier st) = insert ?key (held_keys v')"
    by (rule finish_check_facts [OF v f]) (auto simp: held_keys_def queued_key_def)
  obtain d st1 where d: "process_inbound sdk handle now secs (ReturningArrival (fi_pre f)) (fi_message f) (st\<lparr>il_verifier := v'\<rparr>)
      = (d, st1)" by fastforce
  note frame = process_inbound_frame [OF d]
  let ?st2 = "forget_kept (Some (fi_sender f)) (dm_id (fi_message f)) st1"
  have ok2: "loop_ok (il_backlog st) ?st2"
    using ok hand frame(1,3)
    by (auto simp: loop_ok_def in_hand_def forget_kept_set forget_kept_def distinct_map_filter kept_key_def
        intro: order_trans [OF length_filter_le])
  have kept2: "\<forall>k \<in> set (il_kept st). k \<in> set (il_kept ?st2) \<or> kept_key k = ?key"
    using frame(1) by (auto simp: forget_kept_set)
  define st3 where "st3 = (case d of None \<Rightarrow> ?st2 | Some x \<Rightarrow> snd (queue_for_check sdk now x (fi_transport f) (Some (fi_sender f)) ?st2))"
  have ok3: "loop_ok (il_backlog st) st3 \<and> il_backlog st3 = il_backlog st \<and> set (il_kept ?st2) \<subseteq> set (il_kept st3)"
  proof (cases d)
    case None
    with ok2 frame(2) show ?thesis by (simp add: st3_def)
  next
    case (Some x)
    obtain r st4 where q: "queue_for_check sdk now x (fi_transport f) (Some (fi_sender f)) ?st2 = (r, st4)" by fastforce
    from queue_for_check_ok [OF ok2 q] frame(2) Some q show ?thesis by (simp add: st3_def)
  qed
  have eq: "st' = (if il_backlog st3 \<noteq> [] then restore_backlog sdk handle now secs st3 else st3)"
    using st' d by (simp add: receive_def st3_def Let_def)
  have "loop_ok (il_backlog st') st' \<and> (\<forall>k \<in> set (il_kept st3). k \<in> set (il_kept st') \<or>
       (\<exists>b \<in> set (il_backlog st). kept_key b = kept_key k \<and> unreadable sdk (km_message b)))"
    using restore_backlog_ok [of st3 sdk handle now secs] ok3 by (auto simp: eq)
  with kept2 ok3 f show ?thesis by blast
qed

lemma start_loop_ok:
  assumes "length kept \<le> max_kept_deferred" "distinct (map kept_key kept)"
  shows "loop_ok (il_backlog (start_loop sdk handle now secs c kept)) (start_loop sdk handle now secs c kept) \<and>
    (\<forall>k \<in> set kept. k \<in> set (il_kept (start_loop sdk handle now secs c kept)) \<or> unreadable sdk (km_message k))"
proof -
  let ?st = "\<lparr>il_config = c, il_seen = seen_new, il_verifier = new_verifier, il_kept = kept, il_backlog = kept\<rparr>"
  have "loop_ok (il_backlog ?st) ?st" using assms new_verifier_ok by (simp add: loop_ok_def in_hand_def)
  from restore_backlog_ok [OF this, of sdk handle now secs] have
    "loop_ok (il_backlog (start_loop sdk handle now secs c kept)) (start_loop sdk handle now secs c kept)"
    and k: "\<forall>k \<in> set kept. k \<in> set (il_kept (start_loop sdk handle now secs c kept)) \<or>
       (\<exists>b \<in> set kept. kept_key b = kept_key k \<and> unreadable sdk (km_message b))"
    by (simp_all add: start_loop_def)
  moreover have "b = k" if "b \<in> set kept" "k \<in> set kept" "kept_key b = kept_key k" for b k
    using assms(2) that by (auto simp: distinct_map inj_on_def)
  ultimately show ?thesis by blast
qed

section \<open>Nothing kept is lost\<close>

definition kept_fate :: "dispatch_sdk \<Rightarrow> inbound_loop \<Rightarrow> inbound_loop \<Rightarrow> deferred_inbound \<Rightarrow> bool" where
  "kept_fate sdk st st' k \<longleftrightarrow> k \<in> set (il_kept st') \<or>
     (\<exists>e f v. finish_check e (il_verifier st) = Some (f, v) \<and> kept_key k = (fi_sender f, dm_id (fi_message f))) \<or>
     (\<exists>b \<in> set (il_backlog st) \<union> set (il_kept st). kept_key b = kept_key k \<and> unreadable sdk (km_message b))"

lemma loop_step_ok:
  assumes "loop_step sdk handle st st'" "loop_ok (il_backlog st) st"
  shows "loop_ok (il_backlog st') st' \<and> (\<forall>k \<in> set (il_kept st). kept_fate sdk st st' k)"
  using assms(1)
proof cases
  case (arrives now secs auth t m)
  with receive_new_ok [OF assms(2), of sdk handle now secs auth t m] show ?thesis by (auto simp: kept_fate_def)
next
  case (checked now secs e)
  with receive_checked_ok [OF assms(2), of sdk handle now secs e st'] show ?thesis unfolding kept_fate_def by blast
next
  case (tick now secs)
  with restore_backlog_ok [OF assms(2), of sdk handle now secs] assms(2) show ?thesis
    unfolding kept_fate_def by (auto split: if_splits)
next
  case (acts c)
  with assms(2) show ?thesis by (simp add: loop_ok_def kept_fate_def)
next
  case (restarts now secs c)
  from assms(2) have "length (il_kept st) \<le> max_kept_deferred" "distinct (map kept_key (il_kept st))"
    by (simp_all add: loop_ok_def)
  from start_loop_ok [OF this, of sdk handle now secs c] restarts show ?thesis unfolding kept_fate_def by blast
qed

interpretation kept: preserved "loop_step sdk handle" "\<lambda>st. loop_ok (il_backlog st) st"
  by unfold_locales (use loop_step_ok in blast)

text \<open>(C24) 
  Every message kept for a community is in hand at every moment of every run, restarts included: it waits in the
  backlog, in the queue or on its check, so it will be taken up again. At most the limit is kept, each message once,
  and the queue stays within its bounds.
\<close>

theorem kept_messages_in_hand:
  assumes "(loop_step sdk handle)\<^sup>*\<^sup>* (start_loop sdk handle now secs c []) st"
  shows "(\<forall>k \<in> set (il_kept st). kept_key k \<in> kept_key ` set (il_backlog st) \<union> held_keys (il_verifier st)) \<and>
    length (il_kept st) \<le> max_kept_deferred \<and> distinct (map kept_key (il_kept st)) \<and>
    length (vq_priority (il_verifier st)) \<le> max_priority_queued"
proof -
  have "loop_ok (il_backlog (start_loop sdk handle now secs c [])) (start_loop sdk handle now secs c [])"
    using start_loop_ok [of "[]" sdk handle now secs c] by simp
  with assms have "loop_ok (il_backlog st) st" by (rule kept.inv_steps)
  then show ?thesis using verifier_okD(1) [of "il_verifier st"] by (simp add: loop_ok_def in_hand_def)
qed

text \<open>
  A kept message is forgotten only once it came back from its check, to be applied or refused, or when no gate would let
  it through: not by another message, a full queue, a poll, the user or a restart.
\<close>

theorem kept_until_handled:
  assumes "(loop_step sdk handle)\<^sup>*\<^sup>* (start_loop sdk handle now secs c []) st" "loop_step sdk handle st st'"
    "k \<in> set (il_kept st)" "k \<notin> set (il_kept st')"
  shows "(\<exists>e f v. finish_check e (il_verifier st) = Some (f, v) \<and> fi_sender f = km_sender k \<and>
        dm_id (fi_message f) = dm_id (km_message k)) \<or>
    (\<exists>b \<in> set (il_backlog st) \<union> set (il_kept st). kept_key b = kept_key k \<and> unreadable sdk (km_message b))"
proof -
  have "loop_ok (il_backlog (start_loop sdk handle now secs c [])) (start_loop sdk handle now secs c [])"
    using start_loop_ok [of "[]" sdk handle now secs c] by simp
  with assms(1) have "loop_ok (il_backlog st) st" by (rule kept.inv_steps)
  from loop_step_ok [OF assms(2) this] assms(3) have "kept_fate sdk st st' k" by blast
  with assms(4) show ?thesis unfolding kept_fate_def kept_key_def prod.inject by metis
qed

section \<open>Checks before handling\<close>

text \<open>(C25) 
  A message is handed to its handler on arrival only if it needs no check and its sender has nothing waiting; back from
  the queue, with the result of the check it was queued for, and one that had only waited its turn only if it needs
  none now either. A message kept from before a restart is never handled directly.
\<close>

theorem dispatched_with_its_check:
  assumes "triage sdk now secs c arrival m seen = (Dispatch pre msg sender recipient, seen')"
  shows "dm_from m = Some sender \<and> \<not> unreadable sdk m \<and>
    (case arrival of
       NewArrival waiting \<Rightarrow> pre = None \<and> verification_job sdk now c msg sender recipient = None \<and> \<not> waiting sender \<and>
         check_message_age secs m = Inr () \<and> dm_id m \<notin> sm_set seen
     | RestoredArrival \<Rightarrow> False
     | ReturningArrival p \<Rightarrow> pre = Some p \<and> (verification_job sdk now c msg sender recipient = None \<or> p \<noteq> PreBarrier))"
  using assms
  by (auto simp: triage_def triage_sender_def unreadable_def Let_def observe_def
      split: arrival.splits option.splits if_splits prod.splits bool.splits pre_verified.splits)

text \<open>
  The checks of the relationship arms are the ones \<open>RelationFlow\<close> takes as given: running the job a message asks for
  answers what \<open>request_check\<close>, \<open>accept_check\<close> and \<open>vrc_check\<close> say of it, and a message without a job is one they call not
  checked. (The job is that of \<open>verification_job\<close> for a type no other family claims.)
\<close>

theorem relation_checks_agree:
  assumes "message_type_of (dm_type m) = Some typ" "w = xk_relation x"
  shows "case relation_job w ps m sender recipient of
      Some job \<Rightarrow>
        (case typ of
           MsgRelationshipRequest \<Rightarrow> run_check x now job = PreDidBinding (request_check w m sender recipient ps)
         | MsgRelationshipRequestAccepted \<Rightarrow> run_check x now job = PreDidBinding (accept_check w m sender recipient ps)
         | MsgVRCIssued \<Rightarrow> run_check x now job = PreVrc (vrc_check w m sender ps)
         | _ \<Rightarrow> False)
    | None \<Rightarrow>
        (typ = MsgRelationshipRequest \<longrightarrow> request_check w m sender recipient ps = Inl BindingNotChecked) \<and>
        (typ = MsgRelationshipRequestAccepted \<longrightarrow> accept_check w m sender recipient ps = Inl BindingNotChecked) \<and>
        (typ = MsgVRCIssued \<longrightarrow> vrc_check w m sender ps = Inl ''its proof was not checked'')"
  using assms
  by (cases "typ") (auto simp: relation_job_def request_check_def accept_check_def vrc_check_def split: option.splits sum.splits)

section \<open>Order\<close>

text \<open>
  A message of a sender that has messages waiting changes nothing on arrival: it goes to the end of that sender's queue,
  or is dropped, and no other sender's queue is touched.
\<close>

theorem nothing_overtakes:
  assumes ok: "verifier_ok (il_verifier st)" and waits: "dm_from m = Some s" "is_waiting_on s (il_verifier st)"
  shows "il_config (receive sdk handle now secs (Some s) t None m st) = il_config st \<and>
    waiting_for (il_verifier (receive sdk handle now secs (Some s) t None m st)) s
      \<in> {waiting_for (il_verifier st) s, waiting_for (il_verifier st) s @ [(m, t)]} \<and>
    (s' = s \<or> waiting_for (il_verifier (receive sdk handle now secs (Some s) t None m st)) s' = waiting_for (il_verifier st) s')"
proof -
  let ?waits = "\<lambda>claimed. Some s = Some claimed \<and> is_waiting_on claimed (il_verifier st)"
  obtain d st1 where d: "process_inbound sdk handle now secs (NewArrival ?waits) m st = (d, st1)" by fastforce
  note frame = process_inbound_frame [OF d]
  have c1: "il_config st1 = il_config st"
    using d waits by (auto simp: process_inbound_def triage_def triage_sender_def Let_def split: if_splits prod.splits bool.splits
        option.splits triaged.splits)
  show ?thesis
  proof (cases d)
    case None
    with d c1 frame(3) show ?thesis by (simp add: receive_def)
  next
    case (Some x)
    obtain r st2 where q: "queue_for_check sdk now x t (Some s) st1 = (r, st2)" by fastforce
    have x: "df_message x = m" by (rule frame(4) [OF Some])
    obtain lane where l: "lane_for (cf_account (il_config st1)) (dm_from m) (Some s) = Some (lane, s)" by (auto simp: lane_for_def)
    obtain e v' where e: "enqueue x t s lane now (il_verifier st1) = (e, v')" by fastforce
    have st2: "il_verifier st2 = v'" "il_config st2 = il_config st1"
      using q l e x by (auto simp: queue_for_check_def Let_def split: sum.splits)
    have "waiting_for v' k = waiting_for (il_verifier st) k @ (if k = s \<and> (\<exists>m. e = Inr m) then [(m, t)] else [])" for k
      using enqueue_held [OF _ e, of k] ok frame(3) x by (simp add: waiting_for_def carried_def)
    with st2 d Some q c1 show ?thesis by (auto simp: receive_def)
  qed
qed

end
