(* ===== verification/RelationSafety.thy ===== *)
theory RelationSafety
  imports RelationFlow
begin

text \<open>
  What inbound messages can do to relationships: they never touch an established one, establish only what answers a
  handshake of ours with a proven DID, and never fill the inbox past its bound; over whole runs, every DID a
  relationship uses and every credential received is proven.
\<close>

section \<open>Each inbound message\<close>

lemma awaiting_key:
  assumes "awaiting rs thid st sender = Some key" "rel_keyed rs"
  obtains r where "key = sender" "rel_get rs sender = Some r" "rl_task_id r = thid" "rl_state r = st"
  using awaitingD [OF assms] by blast

text \<open>The messages that leave relationships and credentials alone.\<close>

definition same_relations :: "peer_state \<Rightarrow> peer_state \<Rightarrow> bool" where
  "same_relations ps ps' \<longleftrightarrow> ps_relationships ps' = ps_relationships ps \<and> ps_issued ps' = ps_issued ps \<and>
     ps_received ps' = ps_received ps"

lemma same_relations_refl [simp]: "same_relations ps ps"
  by (simp add: same_relations_def)

lemma same_relations_tasks [simp]: "same_relations ps (ps\<lparr>ps_tasks := ts\<rparr>)" "same_relations ps (queue_task i ty p now ps)"
  by (simp_all add: same_relations_def queue_task_def)

lemma inbound_vrc_issuedD:
  assumes "inbound_vrc_issued w checked m sender persona now ps = Inr (c, ps')"
  obtains "ps' = ps"
  | vrc pending ts1 task_id where "rw_vrc w (dm_body m) = Some vrc"
      "vet_vrc_issued (ps_relationships ps) (ps_tasks ps) vrc sender (dm_thid m) = Inr pending" "checked = Inr ()"
      "ts1 = (case pending of Some i \<Rightarrow> snd (tasks_remove i (ps_tasks ps)) | None \<Rightarrow> ps_tasks ps)"
      "task_id = (case pending of Some i \<Rightarrow> i | None \<Rightarrow> dm_id m)"
      "ps' = ps\<lparr>ps_tasks := if check_task_capacity ts1 task_id then new_task_for task_id (VRCIssued vrc) persona now ts1 else ts1\<rparr>"
proof -
  from assms obtain vrc where vrc: "rw_vrc w (dm_body m) = Some vrc" by (auto simp: inbound_vrc_issued_def result_simps)
  note run = assms [unfolded inbound_vrc_issued_def vrc ok_or_simps rbind_simps Let_def]
  show thesis
  proof (cases "vet_vrc_issued (ps_relationships ps) (ps_tasks ps) vrc sender (dm_thid m)")
    case (Inl e)
    with run have "ps' = ps" by simp
    then show thesis by (rule that(1))
  next
    case (Inr pending)
    note vet = this
    show thesis
    proof (cases checked)
      case (Inl e)
      with run vet have "ps' = ps" by simp
      then show thesis by (rule that(1))
    next
      case (Inr u)
      then have ok: "checked = Inr ()" by simp
      show thesis
        by (rule that(2) [OF vrc vet ok refl refl])
          (use run vet ok in \<open>cases pending; auto simp: queue_task_def split: if_splits\<close>)
    qed
  qed
qed

lemma inbound_frames:
  "inbound_pong m ps = Inr (c, ps') \<Longrightarrow> same_relations ps ps'"
  "inbound_vrc_reject w m sender ps = Inr (c, ps') \<Longrightarrow> same_relations ps ps'"
  "inbound_request w checked m sender persona now ps = Inr (c, ps') \<Longrightarrow> same_relations ps ps'"
  "inbound_vrc_request w m sender persona now ps = Inr (c, ps') \<Longrightarrow> same_relations ps ps'"
  "inbound_vrc_issued w checked' m sender persona now ps = Inr (c, ps') \<Longrightarrow> same_relations ps ps'"
  "inbound_ping m sender persona now ps = Inr (c, ps') \<Longrightarrow> same_relations ps ps'"
proof -
  show "inbound_pong m ps = Inr (c, ps') \<Longrightarrow> same_relations ps ps'"
    by (auto simp: inbound_pong_def split: option.splits)
  show "inbound_vrc_reject w m sender ps = Inr (c, ps') \<Longrightarrow> same_relations ps ps'"
    by (auto simp: inbound_vrc_reject_def result_simps split: if_splits)
  show "inbound_request w checked m sender persona now ps = Inr (c, ps') \<Longrightarrow> same_relations ps ps'"
    by (auto simp: inbound_request_def result_simps split: if_splits sum.splits)
  show "inbound_vrc_request w m sender persona now ps = Inr (c, ps') \<Longrightarrow> same_relations ps ps'"
    by (auto simp: inbound_vrc_request_def result_simps split: if_splits)
  show "inbound_vrc_issued w checked' m sender persona now ps = Inr (c, ps') \<Longrightarrow> same_relations ps ps'"
    by (erule inbound_vrc_issuedD) simp_all
  show "inbound_ping m sender persona now ps = Inr (c, ps') \<Longrightarrow> same_relations ps ps'"
    by (auto simp: inbound_ping_def split: if_splits option.splits)
qed

text \<open>The three that change relationships, and how.\<close>

lemma inbound_rejectD:
  assumes "inbound_reject w m sender ps = Inr (c, ps')" "rel_keyed (ps_relationships ps)"
  obtains "ps' = ps"
  | r thid where "dm_thid m = Some thid" "rel_get (ps_relationships ps) sender = Some r" "rl_state r = RequestSent"
      "ps_relationships ps' = fst (snd (rel_remove sender (ps_relationships ps) (ps_issued ps) (ps_received ps)))"
      "ps_issued ps' = snd (remove_vrcs_of sender (ps_issued ps))"
      "ps_received ps' = snd (remove_vrcs_of sender (ps_received ps))"
      "ps_tasks ps' = snd (tasks_remove thid (ps_tasks ps))"
proof -
  from assms(1) obtain thid where thid: "dm_thid m = Some thid"
    by (auto simp: inbound_reject_def require_thid_def result_simps)
  show thesis
  proof (cases "awaiting (ps_relationships ps) thid RequestSent sender")
    case None
    with assms(1) thid have "ps' = ps" by (auto simp: inbound_reject_def require_thid_def result_simps)
    then show thesis by (rule that(1))
  next
    case (Some key)
    from awaitingD [OF this assms(2)] obtain r where r: "key = sender" "rel_get (ps_relationships ps) sender = Some r"
      "rl_state r = RequestSent" "find_key_by_task_id (ps_relationships ps) thid = Some sender" by auto
    show thesis
      by (rule that(2) [OF thid r(2,3)])
        (use assms(1) thid Some r in \<open>auto simp: inbound_reject_def require_thid_def result_simps remove_by_task_id_def
          rel_remove_def\<close>)
  qed
qed

lemma inbound_acceptD:
  assumes "inbound_accept w checked m sender ps = Inr (c, ps')" "rel_keyed (ps_relationships ps)"
  obtains "ps' = ps"
  | r thid body where "dm_thid m = Some thid" "rw_accept w (dm_body m) = Some body" "checked = Inr ()"
      "rel_get (ps_relationships ps) sender = Some r" "rl_state r = RequestSent" "rl_task_id r = thid"
      "ps' = ps\<lparr>ps_relationships := rel_modify sender (\<lambda>r. r\<lparr>rl_state := Established, rl_remote_did := rla_did body\<rparr>)
          (ps_relationships ps), ps_tasks := snd (tasks_remove thid (ps_tasks ps))\<rparr>"
proof -
  from assms(1) obtain thid body where thid: "dm_thid m = Some thid" and body: "rw_accept w (dm_body m) = Some body"
    by (auto simp: inbound_accept_def require_thid_def result_simps)
  show thesis
  proof (cases "awaiting (ps_relationships ps) thid RequestSent sender = None \<or> \<not> did_valid w (rla_did body) \<or> isl checked")
    case True
    with assms(1) thid body have "ps' = ps"
      by (auto simp: inbound_accept_def require_thid_def result_simps split: if_splits option.splits sum.splits)
    then show thesis by (rule that(1))
  next
    case False
    then obtain key where key: "awaiting (ps_relationships ps) thid RequestSent sender = Some key" by auto
    from awaitingD [OF this assms(2)] obtain r where r: "key = sender" "rel_get (ps_relationships ps) sender = Some r"
      "rl_state r = RequestSent" "rl_task_id r = thid" by auto
    from False have "checked = Inr ()" by (cases checked) auto
    then show thesis
      by (rule that(2) [OF thid body _ r(2,3,4)])
        (use assms(1) thid body key r(1) False in \<open>auto simp: inbound_accept_def require_thid_def result_simps
          split: if_splits sum.splits\<close>)
  qed
qed

lemma inbound_finalizeD:
  assumes "inbound_finalize m sender ps = Inr (c, ps')" "rel_keyed (ps_relationships ps)"
  obtains "ps' = ps"
  | r thid where "dm_thid m = Some thid"
      "rel_get (ps_relationships ps) sender = Some r" "rl_state r = RequestAccepted" "rl_task_id r = thid"
      "ps' = ps\<lparr>ps_relationships := rel_modify sender (\<lambda>r. r\<lparr>rl_state := Established\<rparr>) (ps_relationships ps),
          ps_tasks := snd (tasks_remove thid (ps_tasks ps))\<rparr>"
proof -
  from assms(1) obtain thid where thid: "dm_thid m = Some thid"
    by (auto simp: inbound_finalize_def require_thid_def result_simps)
  show thesis
  proof (cases "awaiting (ps_relationships ps) thid RequestAccepted sender")
    case None
    with assms(1) thid have "ps' = ps" by (auto simp: inbound_finalize_def require_thid_def result_simps)
    then show thesis by (rule that(1))
  next
    case (Some key)
    from awaitingD [OF this assms(2)] obtain r where r: "key = sender" "rel_get (ps_relationships ps) sender = Some r"
      "rl_state r = RequestAccepted" "rl_task_id r = thid" by auto
    show thesis
      by (rule that(2) [OF thid r(2,3,4)])
        (use assms(1) thid Some r(1) in \<open>auto simp: inbound_finalize_def require_thid_def result_simps\<close>)
  qed
qed

text \<open>A case rule for a message of any type.\<close>

lemma inbound_cases [consumes 2, case_names same rejected accepted finalized]:
  assumes "inbound w arrived m sender recipient persona now ps = Inr (c, ps')" "rel_keyed (ps_relationships ps)"
  obtains "same_relations ps ps'"
  | r thid where "dm_thid m = Some thid" "rel_get (ps_relationships ps) sender = Some r" "rl_state r = RequestSent"
      "ps_relationships ps' = fst (snd (rel_remove sender (ps_relationships ps) (ps_issued ps) (ps_received ps)))"
      "ps_issued ps' = snd (remove_vrcs_of sender (ps_issued ps))"
      "ps_received ps' = snd (remove_vrcs_of sender (ps_received ps))"
      "ps_tasks ps' = snd (tasks_remove thid (ps_tasks ps))"
  | r thid body where "dm_type m = message_type_url MsgRelationshipRequestAccepted"
      "dm_thid m = Some thid" "rw_accept w (dm_body m) = Some body"
      "accept_check w m sender recipient arrived = Inr ()"
      "rel_get (ps_relationships ps) sender = Some r" "rl_state r = RequestSent" "rl_task_id r = thid"
      "ps' = ps\<lparr>ps_relationships := rel_modify sender (\<lambda>r. r\<lparr>rl_state := Established, rl_remote_did := rla_did body\<rparr>)
          (ps_relationships ps), ps_tasks := snd (tasks_remove thid (ps_tasks ps))\<rparr>"
  | r thid where "dm_type m = message_type_url MsgRelationshipRequestFinalize" "dm_thid m = Some thid"
      "rel_get (ps_relationships ps) sender = Some r" "rl_state r = RequestAccepted" "rl_task_id r = thid"
      "ps' = ps\<lparr>ps_relationships := rel_modify sender (\<lambda>r. r\<lparr>rl_state := Established\<rparr>) (ps_relationships ps),
          ps_tasks := snd (tasks_remove thid (ps_tasks ps))\<rparr>"
proof (cases "message_type_of (dm_type m)")
  case None
  with assms(1) have "same_relations ps ps'" by (simp add: inbound_def)
  then show thesis by (rule that(1))
next
  case (Some ty)
  then have url: "dm_type m = message_type_url ty"
    unfolding message_type_of_def by (auto dest!: find_SomeD simp del: find.simps)
  note run = assms(1) [unfolded inbound_def Some option.case]
  show thesis
  proof (cases ty)
    case MsgRelationshipRequestRejected
    from run [unfolded MsgRelationshipRequestRejected message_type.case] show thesis
      by (rule inbound_rejectD [OF _ assms(2)]) (auto intro: that(1,2))
  next
    case MsgRelationshipRequestAccepted
    from run [unfolded MsgRelationshipRequestAccepted message_type.case] show thesis
      by (rule inbound_acceptD [OF _ assms(2)]) (auto intro: that(1) that(3) [OF url [unfolded MsgRelationshipRequestAccepted]])
  next
    case MsgRelationshipRequestFinalize
    from run [unfolded MsgRelationshipRequestFinalize message_type.case] show thesis
      by (rule inbound_finalizeD [OF _ assms(2)]) (auto intro: that(1) that(4) [OF url [unfolded MsgRelationshipRequestFinalize]])
  qed (use run in \<open>auto intro!: that(1) dest: inbound_frames\<close>)
qed

section \<open>Established relationships\<close>

lemma vrcs_get_remove: "vrcs_get (snd (remove_vrcs_of k v)) j = (if j = k then None else vrcs_get v j)"
  by (simp add: vrcs_get_def remove_vrcs_of_def delete_conv')

lemma rel_remove_fields:
  "fst (snd (rel_remove k rs issued received)) = rs\<lparr>rs_map := AList.delete k (rs_map rs)\<rparr>"
  by (simp add: rel_remove_def)

text \<open>(C15) 
  No message, whoever sends it and whatever it quotes, changes or removes an established relationship or the
  credentials filed under it: a rejection, an acceptance or a finalize only ever acts on a handshake still waiting.
\<close>

theorem inbound_keeps_established:
  assumes keyed: "rel_keyed (ps_relationships ps)"
    and r: "rel_get (ps_relationships ps) k = Some r" "rl_state r = Established"
    and run: "inbound w arrived m sender recipient persona now ps = Inr (c, ps')"
  shows "rel_get (ps_relationships ps') k = Some r \<and> vrcs_get (ps_issued ps') k = vrcs_get (ps_issued ps) k \<and>
    vrcs_get (ps_received ps') k = vrcs_get (ps_received ps) k \<and> rel_keyed (ps_relationships ps')"
  using run keyed
proof (cases rule: inbound_cases)
  case same
  with r keyed show ?thesis by (simp add: same_relations_def)
next
  case (rejected q thid)
  then have "k \<noteq> sender" using r by auto
  with rejected r keyed show ?thesis
    by (simp add: rel_get_remove vrcs_get_remove keyed_remove)
next
  case (accepted q thid body)
  then have "k \<noteq> sender" using r by auto
  with accepted r keyed show ?thesis by (simp add: rel_get_modify keyed_modify)
next
  case (finalized q thid)
  then have "k \<noteq> sender" using r by auto
  with finalized r keyed show ?thesis by (simp add: rel_get_modify keyed_modify)
qed

text \<open>(C17) 
  A relationship becomes established only by its own handshake: by an acceptance from the party our waiting
  request went to, on that request's thread, with the new DID proven for exactly this answer; or by the finalize of
  the party whose request we accepted, on its thread, which leaves the DID as it was proven then.
\<close>

theorem established_only_by_handshake:
  assumes keyed: "rel_keyed (ps_relationships ps)"
    and run: "inbound w arrived m sender recipient persona now ps = Inr (c, ps')"
    and r': "rel_get (ps_relationships ps') k = Some r'" "rl_state r' = Established"
    and new: "rel_get (ps_relationships ps) k \<noteq> Some r'"
  shows "k = sender \<and> (\<exists>r. rel_get (ps_relationships ps) k = Some r \<and> dm_thid m = Some (rl_task_id r) \<and>
    (rl_state r = RequestSent \<and> (\<exists>p q. verify_did_binding (rw_verify w) (rl_remote_did r') p sender q recipient (rl_task_id r) RoleAccept = Inr ()) \<or>
     rl_state r = RequestAccepted \<and> r' = r\<lparr>rl_state := Established\<rparr>))"
  using run keyed
proof (cases rule: inbound_cases)
  case same
  with r' new show ?thesis by (simp add: same_relations_def)
next
  case (rejected q thid)
  with r' new show ?thesis by (auto simp: rel_get_remove split: if_splits)
next
  case (accepted r thid body)
  from accepted r' new have k: "k = sender" by (auto simp: rel_get_modify split: if_splits)
  with accepted r' have "rl_remote_did r' = rla_did body" by (auto simp: rel_get_modify)
  with accepted(2,3,4) have "\<exists>p q. verify_did_binding (rw_verify w) (rl_remote_did r') p sender q recipient thid RoleAccept = Inr ()"
    by (auto simp: accept_check_def split: if_splits)
  with accepted k show ?thesis by auto
next
  case (finalized r thid)
  from finalized r' new have k: "k = sender" by (auto simp: rel_get_modify split: if_splits)
  with finalized r' have "r' = r\<lparr>rl_state := Established\<rparr>" by (auto simp: rel_get_modify)
  with finalized k show ?thesis by auto
qed

section \<open>The inbox\<close>

lemma tasks_remove_bounds: "length (snd (tasks_remove i ts)) \<le> length ts"
  by (simp add: tasks_remove_def length_delete)

lemma tasks_remove_max: "length (snd (tasks_remove i ts)) \<le> max (length ts) n"
  using tasks_remove_bounds [of i ts] by simp

lemma new_task_bounds:
  "check_task_capacity ts i \<Longrightarrow> length (new_task_for i ty p now ts) = Suc (length ts) \<and> length ts < max_tasks"
  by (auto simp: check_task_capacity_def new_task_for_def length_alist_update get_by_id_def map_of_eq_None_iff)

lemma new_task_max: "check_task_capacity ts i \<Longrightarrow> length (new_task_for i ty p now ts) \<le> max n max_tasks"
  using new_task_bounds [of ts i ty p now] by auto

lemma inbound_tasks:
  "inbound_pong m ps = Inr (c, ps') \<Longrightarrow> length (ps_tasks ps') \<le> max (length (ps_tasks ps)) max_tasks"
  "inbound_vrc_reject w m sender ps = Inr (c, ps') \<Longrightarrow> length (ps_tasks ps') \<le> max (length (ps_tasks ps)) max_tasks"
  "inbound_request w checked m sender persona now ps = Inr (c, ps') \<Longrightarrow> length (ps_tasks ps') \<le> max (length (ps_tasks ps)) max_tasks"
  "inbound_vrc_request w m sender persona now ps = Inr (c, ps') \<Longrightarrow> length (ps_tasks ps') \<le> max (length (ps_tasks ps)) max_tasks"
  "inbound_vrc_issued w checked' m sender persona now ps = Inr (c, ps') \<Longrightarrow> length (ps_tasks ps') \<le> max (length (ps_tasks ps)) max_tasks"
  "inbound_ping m sender persona now ps = Inr (c, ps') \<Longrightarrow> length (ps_tasks ps') \<le> max (length (ps_tasks ps)) max_tasks"
proof -
  note rem = tasks_remove_max and new = new_task_max
  show "inbound_pong m ps = Inr (c, ps') \<Longrightarrow> length (ps_tasks ps') \<le> max (length (ps_tasks ps)) max_tasks"
    by (auto simp: inbound_pong_def intro: rem split: option.splits)
  show "inbound_vrc_reject w m sender ps = Inr (c, ps') \<Longrightarrow> length (ps_tasks ps') \<le> max (length (ps_tasks ps)) max_tasks"
    by (auto simp: inbound_vrc_reject_def result_simps intro: rem split: if_splits)
  show "inbound_request w checked m sender persona now ps = Inr (c, ps') \<Longrightarrow> length (ps_tasks ps') \<le> max (length (ps_tasks ps)) max_tasks"
    by (auto simp: inbound_request_def relationship_request_admissible_def queue_task_def result_simps intro: new split: if_splits sum.splits)
  show "inbound_vrc_request w m sender persona now ps = Inr (c, ps') \<Longrightarrow> length (ps_tasks ps') \<le> max (length (ps_tasks ps)) max_tasks"
    by (auto simp: inbound_vrc_request_def queue_task_def result_simps intro: new split: if_splits)
  show "inbound_vrc_issued w checked' m sender persona now ps = Inr (c, ps') \<Longrightarrow> length (ps_tasks ps') \<le> max (length (ps_tasks ps)) max_tasks"
  proof (erule inbound_vrc_issuedD)
    fix vrc pending ts1 task_id
    assume ts1: "ts1 = (case pending of Some i \<Rightarrow> snd (tasks_remove i (ps_tasks ps)) | None \<Rightarrow> ps_tasks ps)"
      and ps': "ps' = ps\<lparr>ps_tasks := if check_task_capacity ts1 task_id
          then new_task_for task_id (VRCIssued vrc) persona now ts1 else ts1\<rparr>"
    have "length ts1 \<le> length (ps_tasks ps)" using tasks_remove_bounds by (simp add: ts1 split: option.split)
    then show ?thesis by (auto simp: ps' intro: new)
  qed simp
  show "inbound_ping m sender persona now ps = Inr (c, ps') \<Longrightarrow> length (ps_tasks ps') \<le> max (length (ps_tasks ps)) max_tasks"
    by (auto simp: inbound_ping_def queue_task_def intro: new split: if_splits option.splits)
qed

text \<open>
  No message makes the inbox grow past its 10,000 tasks: whatever arrives, an inbox within the bound stays
  within it, and one beyond it (the user's own requests are not bounded) does not grow.
\<close>

theorem inbound_tasks_bounded:
  assumes keyed: "rel_keyed (ps_relationships ps)"
    and run: "inbound w arrived m sender recipient persona now ps = Inr (c, ps')"
  shows "length (ps_tasks ps') \<le> max (length (ps_tasks ps)) 10000"
proof (cases "message_type_of (dm_type m)")
  case None
  with run show ?thesis by (simp add: inbound_def)
next
  case (Some ty)
  note run' = run [unfolded inbound_def Some option.case]
  have max: "max_tasks = 10000" by (simp add: max_tasks_def)
  show ?thesis
  proof (cases "ty \<in> {MsgRelationshipRequestRejected, MsgRelationshipRequestAccepted, MsgRelationshipRequestFinalize}")
    case False
    with run' inbound_tasks [where ps = ps and ps' = ps' and c = c] show ?thesis
      unfolding max by (cases ty) auto
  next
    case True
    from run keyed show ?thesis
    proof (cases rule: inbound_cases)
      case same
      then show ?thesis
        using True run' keyed
        by (auto simp: tasks_remove_max elim!: inbound_rejectD inbound_acceptD inbound_finalizeD)
    qed (simp_all add: tasks_remove_max)
  qed
qed

section \<open>Examples\<close>

definition bob_state :: "relationship_state \<Rightarrow> peer_state" where
  "bob_state st = \<lparr>ps_relationships = \<lparr>rs_map = [(''did:bob'', example_rel\<lparr>rl_state := st\<rparr>)], rs_path_pointer = 0\<rparr>,
     ps_tasks = [], ps_issued = vrcs_empty, ps_received = vrcs_empty\<rparr>"

definition finalize_from_bob :: didcomm_message where
  "finalize_from_bob = create_finalize_message ''m'' 0 ''did:bob'' ''did:me'' ''t1''"

lemma bob_keyed: "rel_keyed (ps_relationships (bob_state st))"
  by (simp add: rel_keyed_def bob_state_def example_rel_def)

lemma finalize_ignored:
  "inbound w arrived finalize_from_bob ''did:bob'' ''did:me'' None 0 (bob_state Established) = Inr (False, bob_state Established)"
proof -
  have "message_type_of (dm_type finalize_from_bob) = Some MsgRelationshipRequestFinalize" by code_simp
  moreover have "inbound_finalize finalize_from_bob ''did:bob'' (bob_state Established) = Inr (False, bob_state Established)"
    by code_simp
  ultimately show ?thesis by (simp add: inbound_def)
qed

lemma finalize_taken:
  "inbound w arrived finalize_from_bob ''did:bob'' ''did:me'' None 0 (bob_state RequestAccepted) = Inr (True, bob_state Established)"
proof -
  have "message_type_of (dm_type finalize_from_bob) = Some MsgRelationshipRequestFinalize" by code_simp
  moreover have "inbound_finalize finalize_from_bob ''did:bob'' (bob_state RequestAccepted) = Inr (True, bob_state Established)"
    by code_simp
  ultimately show ?thesis by (simp add: inbound_def)
qed

theorem inbound_keeps_established_witness:
  "rel_get (ps_relationships (bob_state Established)) ''did:bob'' = Some example_rel \<and>
   vrcs_get (ps_issued (bob_state Established)) ''did:bob'' = None"
proof -
  have r: "rel_get (ps_relationships (bob_state Established)) ''did:bob'' = Some example_rel" by code_simp
  have "rl_state example_rel = Established" by (simp add: example_rel_def)
  from inbound_keeps_established [OF bob_keyed r this finalize_ignored]
  show ?thesis by (simp add: bob_state_def vrcs_get_def vrcs_empty_def)
qed

theorem established_only_by_handshake_witness:
  "dm_thid finalize_from_bob = Some (rl_task_id example_rel)"
proof -
  have "rel_get (ps_relationships (bob_state Established)) ''did:bob'' = Some example_rel"
    "rel_get (ps_relationships (bob_state RequestAccepted)) ''did:bob'' = Some (example_rel\<lparr>rl_state := RequestAccepted\<rparr>)"
    by code_simp+
  then show ?thesis
    using established_only_by_handshake [OF bob_keyed finalize_taken, of "''did:bob''" example_rel]
    by (auto simp: example_rel_def)
qed

theorem inbound_tasks_bounded_witness:
  "length (ps_tasks (bob_state Established)) \<le> max (length (ps_tasks (bob_state RequestAccepted))) 10000"
  by (rule inbound_tasks_bounded [OF bob_keyed finalize_taken])

end
