(* ===== verification/RelationRun.thy ===== *)
theory RelationRun
  imports RelationSafety
begin

text \<open>
  Runs of one party's relationships: messages arriving in any order between the user's actions, with acceptances in
  flight. Shown over them: every DID a relationship is used with was proven by its key for the persona it belongs to,
  and every credential filed was proven by its issuer. Then two parties together: the handshake that succeeds, and the
  orders of events in which it does not.
\<close>

section \<open>Runs\<close>

record relation_run =
  rr_state :: peer_state
  rr_accepting :: "(string \<times> string \<times> string) list"

inductive relation_step :: "relation_sdk \<Rightarrow> relation_run \<Rightarrow> relation_run \<Rightarrow> bool" for w :: relation_sdk where
  received: "inbound w arrived m sender recipient persona now (rr_state s) = Inr (c, ps)
    \<Longrightarrow> relation_step w s (s\<lparr>rr_state := ps\<rparr>)"
| submitted: "prepare_submit respondent persona_did i persona now (rr_state s) = Inr ps
    \<Longrightarrow> relation_step w s (s\<lparr>rr_state := ps\<rparr>)"
| created: "relation_step w s (s\<lparr>rr_state := create_applied ok respondent our_did i persona now (rr_state s)\<rparr>)"
| accepting: "request_in_task i (rr_state s) = Some (from, their_did)
    \<Longrightarrow> relation_step w s (s\<lparr>rr_accepting := (i, from, their_did) # rr_accepting s\<rparr>)"
| accepted: "(i, from, their_did) \<in> set (rr_accepting s)
    \<Longrightarrow> relation_step w s (s\<lparr>rr_state := accept_applied ok i from their_did our_did persona now (rr_state s)\<rparr>)"
| refused: "relation_step w s (s\<lparr>rr_state := refusal_applied ok i (rr_state s)\<rparr>)"
| vrc_sent: "relation_step w s (s\<lparr>rr_state := vrc_sent_applied ok i p_did vrc (rr_state s)\<rparr>)"
| pinged: "relation_step w s (s\<lparr>rr_state := ping_applied ok our_did remote p_did i persona now (rr_state s)\<rparr>)"
| vrc_asked: "relation_step w s (s\<lparr>rr_state := request_vrc_applied ok p_did i persona now (rr_state s)\<rparr>)"
| removed: "relation_step w s (s\<lparr>rr_state := remove_applied p_did (rr_state s)\<rparr>)"
| vrc_taken: "accept_vrc i (rr_state s) = Inr ps \<Longrightarrow> relation_step w s (s\<lparr>rr_state := ps\<rparr>)"
| dismissed: "relation_step w s (s\<lparr>rr_state := dismiss_task i (rr_state s)\<rparr>)"
| cleared: "relation_step w s (s\<lparr>rr_state := clear_all_tasks (rr_state s)\<rparr>)"

inductive_cases relation_stepE: "relation_step w s t"

section \<open>What is proven\<close>

definition proven_did :: "relation_sdk \<Rightarrow> string \<Rightarrow> string \<Rightarrow> bool" where
  "proven_did w persona did \<longleftrightarrow>
     (\<exists>p q peer thid role. verify_did_binding (rw_verify w) did p persona q peer thid role = Inr ())"

lemma proven_didI: "verify_did_binding (rw_verify w) did p persona q peer thid role = Inr () \<Longrightarrow> proven_did w persona did"
  unfolding proven_did_def by blast

fun task_proven :: "relation_sdk \<Rightarrow> task_type \<Rightarrow> bool" where
  "task_proven w (RelationshipRequestInbound from _ request) = proven_did w from (rlb_did request)"
| "task_proven w (VRCIssued vrc) = (rw_vrc_error w vrc = None)"
| "task_proven w _ = True"

definition tasks_proven :: "relation_sdk \<Rightarrow> tasks \<Rightarrow> bool" where
  "tasks_proven w ts \<longleftrightarrow> (\<forall>i t. get_by_id ts i = Some t \<longrightarrow> task_proven w (tk_type t))"

definition rels_proven :: "relation_sdk \<Rightarrow> relationships \<Rightarrow> bool" where
  "rels_proven w rs \<longleftrightarrow> rel_keyed rs \<and>
     (\<forall>k r. rel_get rs k = Some r \<longrightarrow> rl_state r \<in> {RequestAccepted, Established} \<longrightarrow> proven_did w k (rl_remote_did r))"

definition received_proven :: "relation_sdk \<Rightarrow> vrcs \<Rightarrow> bool" where
  "received_proven w v \<longleftrightarrow>
     (\<forall>k held i vrc. vrcs_get v k = Some held \<longrightarrow> map_of held i = Some vrc \<longrightarrow> rw_vrc_error w vrc = None \<and> dc_issuer vrc = k)"

definition run_proven :: "relation_sdk \<Rightarrow> relation_run \<Rightarrow> bool" where
  "run_proven w s \<longleftrightarrow> rels_proven w (ps_relationships (rr_state s)) \<and> tasks_proven w (ps_tasks (rr_state s)) \<and>
     received_proven w (ps_received (rr_state s)) \<and> (\<forall>(_, from, their_did) \<in> set (rr_accepting s). proven_did w from their_did)"

lemma tasks_proven_remove: "tasks_proven w ts \<Longrightarrow> tasks_proven w (snd (tasks_remove i ts))"
  by (simp add: tasks_proven_def task_get_remove)

lemma tasks_proven_new: "tasks_proven w ts \<Longrightarrow> task_proven w ty \<Longrightarrow> tasks_proven w (new_task_for i ty p now ts)"
  by (simp add: tasks_proven_def task_get_new)

lemma tasks_proven_queue:
  "tasks_proven w (ps_tasks ps) \<Longrightarrow> task_proven w ty \<Longrightarrow> tasks_proven w (ps_tasks (queue_task i ty p now ps))"
  by (simp add: queue_task_def tasks_proven_new)

lemma rels_proven_insert:
  "rels_proven w rs \<Longrightarrow> rl_remote_p_did r = k \<Longrightarrow>
     rl_state r \<in> {RequestAccepted, Established} \<longrightarrow> proven_did w k (rl_remote_did r) \<Longrightarrow> rels_proven w (rel_insert k r rs)"
  by (auto simp: rels_proven_def rel_get_insert keyed_insert)

lemma rels_proven_modify:
  assumes "rels_proven w rs" "\<And>r. rl_remote_p_did (f r) = rl_remote_p_did r"
    "\<And>r. rel_get rs k = Some r \<Longrightarrow> rl_state (f r) \<in> {RequestAccepted, Established} \<Longrightarrow> proven_did w k (rl_remote_did (f r))"
  shows "rels_proven w (rel_modify k f rs)"
  using assms by (auto simp: rels_proven_def rel_get_modify keyed_modify)

lemma rels_proven_delete: "rels_proven w rs \<Longrightarrow> rels_proven w (rs\<lparr>rs_map := AList.delete k (rs_map rs)\<rparr>)"
  using keyed_remove [of rs k vrcs_empty vrcs_empty] rel_get_remove [of k rs vrcs_empty vrcs_empty]
  by (auto simp: rels_proven_def rel_remove_def)

lemma received_proven_remove: "received_proven w v \<Longrightarrow> received_proven w (snd (remove_vrcs_of k v))"
  by (auto simp: received_proven_def vrcs_get_remove)

lemma received_proven_insert:
  assumes "received_proven w v" "vrcs_insert (dc_issuer vrc) vrc v = Inr v'" "rw_vrc_error w vrc = None"
  shows "received_proven w v'"
proof -
  from assms(2) obtain h where v': "v' = v\<lparr>vr_vrcs := AList.update (dc_issuer vrc) (AList.update h vrc
      (case map_of (vr_vrcs v) (dc_issuer vrc) of None \<Rightarrow> [] | Some hm \<Rightarrow> hm)) (vr_vrcs v)\<rparr>"
    by (auto simp: vrcs_insert_def Let_def split: option.splits)
  have "rw_vrc_error w x = None \<and> dc_issuer x = k" if "vrcs_get v' k = Some held" "map_of held i = Some x" for k held i x
  proof (cases "k = dc_issuer vrc")
    case True
    with that have "map_of (AList.update h vrc (case map_of (vr_vrcs v) k of None \<Rightarrow> [] | Some hm \<Rightarrow> hm)) i = Some x"
      by (auto simp: v' vrcs_get_def update_conv')
    then have "x = vrc \<or> (\<exists>hm. vrcs_get v k = Some hm \<and> map_of hm i = Some x)"
      by (auto simp: update_conv' vrcs_get_def split: if_splits option.splits)
    then show ?thesis
    proof
      assume "\<exists>hm. vrcs_get v k = Some hm \<and> map_of hm i = Some x"
      then show ?thesis using assms(1) unfolding received_proven_def by blast
    qed (use assms(3) True in simp)
  next
    case False
    then have "vrcs_get v k = Some held" using that(1) by (simp add: v' vrcs_get_def update_conv')
    then show ?thesis using assms(1) that(2) unfolding received_proven_def by blast
  qed
  then show ?thesis unfolding received_proven_def by blast
qed

text \<open>What queues an inbound task proves it.\<close>

lemma inbound_request_proven:
  assumes "inbound_request w (request_check w m sender recipient arrived) m sender persona now ps = Inr (c, ps')"
    "tasks_proven w (ps_tasks ps)"
  shows "tasks_proven w (ps_tasks ps')"
proof (cases "ps' = ps")
  case False
  with assms(1) obtain body where body: "rw_request w (dm_body m) = Some body"
    "request_check w m sender recipient arrived = Inr ()"
    "ps' = queue_task (dm_id m) (RelationshipRequestInbound sender (first_recipient m) body) persona now ps"
    by (auto simp: inbound_request_def result_simps split: if_splits sum.splits)
  then have "proven_did w sender (rlb_did body)"
    by (auto simp: request_check_def intro: proven_didI split: if_splits)
  then show ?thesis unfolding body(3) by (intro tasks_proven_queue assms(2)) simp
qed (use assms(2) in simp)

lemma inbound_vrc_issued_proven:
  assumes "inbound_vrc_issued w (vrc_check w m sender arrived) m sender persona now ps = Inr (c, ps')"
    "tasks_proven w (ps_tasks ps)"
  shows "tasks_proven w (ps_tasks ps')"
  using assms(1)
proof (rule inbound_vrc_issuedD)
  fix vrc pending ts1 task_id
  assume vrc: "rw_vrc w (dm_body m) = Some vrc" and ok: "vrc_check w m sender arrived = Inr ()"
    and ts1: "ts1 = (case pending of Some i \<Rightarrow> snd (tasks_remove i (ps_tasks ps)) | None \<Rightarrow> ps_tasks ps)"
    and ps': "ps' = ps\<lparr>ps_tasks := if check_task_capacity ts1 task_id
        then new_task_for task_id (VRCIssued vrc) persona now ts1 else ts1\<rparr>"
  have "tasks_proven w ts1" using assms(2) by (simp add: ts1 tasks_proven_remove split: option.split)
  moreover have "rw_vrc_error w vrc = None" using vrc ok by (auto simp: vrc_check_def split: sum.splits option.splits)
  ultimately show ?thesis by (simp add: ps' tasks_proven_new)
qed (use assms(2) in simp)

lemma inbound_other_tasks:
  "inbound_pong m ps = Inr (c, ps') \<Longrightarrow> tasks_proven w (ps_tasks ps) \<Longrightarrow> tasks_proven w (ps_tasks ps')"
  "inbound_vrc_reject w m sender ps = Inr (c, ps') \<Longrightarrow> tasks_proven w (ps_tasks ps) \<Longrightarrow> tasks_proven w (ps_tasks ps')"
  "inbound_vrc_request w m sender persona now ps = Inr (c, ps') \<Longrightarrow> tasks_proven w (ps_tasks ps) \<Longrightarrow> tasks_proven w (ps_tasks ps')"
  "inbound_ping m sender persona now ps = Inr (c, ps') \<Longrightarrow> tasks_proven w (ps_tasks ps) \<Longrightarrow> tasks_proven w (ps_tasks ps')"
proof -
  note p = tasks_proven_remove tasks_proven_queue
  show "inbound_pong m ps = Inr (c, ps') \<Longrightarrow> tasks_proven w (ps_tasks ps) \<Longrightarrow> tasks_proven w (ps_tasks ps')"
    by (auto simp: inbound_pong_def p split: option.splits)
  show "inbound_vrc_reject w m sender ps = Inr (c, ps') \<Longrightarrow> tasks_proven w (ps_tasks ps) \<Longrightarrow> tasks_proven w (ps_tasks ps')"
    by (auto simp: inbound_vrc_reject_def result_simps p split: if_splits)
  show "inbound_vrc_request w m sender persona now ps = Inr (c, ps') \<Longrightarrow> tasks_proven w (ps_tasks ps) \<Longrightarrow> tasks_proven w (ps_tasks ps')"
    by (auto simp: inbound_vrc_request_def result_simps p split: if_splits)
  show "inbound_ping m sender persona now ps = Inr (c, ps') \<Longrightarrow> tasks_proven w (ps_tasks ps) \<Longrightarrow> tasks_proven w (ps_tasks ps')"
    by (auto simp: inbound_ping_def p split: if_splits option.splits)
qed

lemma inbound_same_tasks:
  assumes "inbound w arrived m sender recipient persona now ps = Inr (c, ps')" "same_relations ps ps'"
    "rel_keyed (ps_relationships ps)" "tasks_proven w (ps_tasks ps)"
  shows "tasks_proven w (ps_tasks ps')"
proof (cases "message_type_of (dm_type m)")
  case None
  with assms show ?thesis by (simp add: inbound_def)
next
  case (Some ty)
  note run = assms(1) [unfolded inbound_def Some option.case]
  show ?thesis
  proof (cases "ty \<in> {MsgRelationshipRequestRejected, MsgRelationshipRequestAccepted, MsgRelationshipRequestFinalize}")
    case True
    with run assms(3,4) show ?thesis
      by (auto simp: tasks_proven_remove elim!: inbound_rejectD inbound_acceptD inbound_finalizeD)
  next
    case False
    with run assms(4) inbound_other_tasks [where ps = ps and ps' = ps' and c = c and w = w]
      inbound_request_proven [where ps = ps and ps' = ps' and c = c] inbound_vrc_issued_proven [where ps = ps and ps' = ps' and c = c]
    show ?thesis by (cases ty) auto
  qed
qed

lemma inbound_proven:
  assumes run: "inbound w arrived m sender recipient persona now ps = Inr (c, ps')"
    and inv: "rels_proven w (ps_relationships ps)" "tasks_proven w (ps_tasks ps)" "received_proven w (ps_received ps)"
  shows "rels_proven w (ps_relationships ps') \<and> tasks_proven w (ps_tasks ps') \<and> received_proven w (ps_received ps')"
proof -
  from inv(1) have keyed: "rel_keyed (ps_relationships ps)" by (simp add: rels_proven_def)
  from run keyed show ?thesis
  proof (cases rule: inbound_cases)
    case same
    then show ?thesis using inbound_same_tasks [OF run same keyed inv(2)] inv by (simp add: same_relations_def)
  next
    case (rejected r thid)
    then show ?thesis using inv by (simp add: rel_remove_fields rels_proven_delete tasks_proven_remove received_proven_remove)
  next
    case (accepted r thid body)
    from accepted(2,3,4) have "proven_did w sender (rla_did body)"
      by (auto simp: accept_check_def intro: proven_didI split: if_splits)
    with accepted inv show ?thesis by (simp add: rels_proven_modify tasks_proven_remove)
  next
    case (finalized r thid)
    then have "proven_did w sender (rl_remote_did r)" using inv(1) by (simp add: rels_proven_def)
    with finalized(3) have "rels_proven w (rel_modify sender (\<lambda>r. r\<lparr>rl_state := Established\<rparr>) (ps_relationships ps))"
      by (intro rels_proven_modify inv(1)) simp_all
    with finalized inv show ?thesis by (simp add: tasks_proven_remove)
  qed
qed

lemma request_in_task_proven:
  "tasks_proven w (ps_tasks ps) \<Longrightarrow> request_in_task i ps = Some (from, their_did) \<Longrightarrow> proven_did w from their_did"
  by (fastforce simp: request_in_task_def tasks_proven_def split: option.splits task_type.splits)

lemma submitted_proven:
  "prepare_submit respondent persona_did i persona now ps = Inr ps' \<Longrightarrow> rels_proven w (ps_relationships ps) \<Longrightarrow>
     rels_proven w (ps_relationships ps') \<and> ps_tasks ps' = ps_tasks ps \<and> ps_received ps' = ps_received ps"
  by (auto simp: prepare_submit_def result_simps rels_proven_insert)

lemma created_proven:
  assumes rels: "rels_proven w (ps_relationships ps)" and tasks: "tasks_proven w (ps_tasks ps)"
  shows "rels_proven w (ps_relationships (create_applied ok respondent our_did i persona now ps)) \<and>
    tasks_proven w (ps_tasks (create_applied ok respondent our_did i persona now ps)) \<and>
    ps_received (create_applied ok respondent our_did i persona now ps) = ps_received ps"
proof (cases "rel_get (ps_relationships ps) respondent")
  case None
  with assms show ?thesis by (simp add: create_applied_def)
next
  case (Some r)
  have held: "rl_state q \<in> {RequestAccepted, Established} \<Longrightarrow> proven_did w respondent (rl_remote_did q)"
    if "rel_get (ps_relationships ps) respondent = Some q" for q
    using rels that unfolding rels_proven_def by blast
  have "rels_proven w (rel_modify respondent (\<lambda>r. r\<lparr>rl_our_did := our_did\<rparr>) (ps_relationships ps))"
    "rels_proven w (rel_modify respondent (\<lambda>r. r\<lparr>rl_our_did := our_did, rl_task_id := i\<rparr>) (ps_relationships ps))"
    using held by (intro rels_proven_modify rels; simp)+
  with Some rels_proven_delete [OF rels, of respondent] assms show ?thesis
    by (simp add: create_applied_def queue_task_def tasks_proven_new)
qed

lemma accept_vrcD:
  assumes "accept_vrc i ps = Inr ps'"
  obtains x vrc v where "get_by_id (ps_tasks ps) i = Some x" "tk_type x = VRCIssued vrc"
    "vrcs_insert (dc_issuer vrc) vrc (ps_received ps) = Inr v"
    "ps' = ps\<lparr>ps_received := v, ps_tasks := snd (tasks_remove i (ps_tasks ps))\<rparr>"
proof -
  from assms obtain x where x: "get_by_id (ps_tasks ps) i = Some x" by (auto simp: accept_vrc_def result_simps)
  show thesis
    by (cases "tk_type x") (use assms x that in \<open>auto simp: accept_vrc_def result_simps\<close>)
qed

lemma run_proven_step:
  assumes step: "relation_step w s t" and inv: "run_proven w s"
  shows "run_proven w t"
proof -
  from inv have rels: "rels_proven w (ps_relationships (rr_state s))" and tasks: "tasks_proven w (ps_tasks (rr_state s))"
    and rec: "received_proven w (ps_received (rr_state s))"
    and jobs: "\<And>i from their. (i, from, their) \<in> set (rr_accepting s) \<Longrightarrow> proven_did w from their"
    by (auto simp: run_proven_def)
  from step show ?thesis
  proof cases
    case (received arrived m sender recipient persona now c ps)
    with inbound_proven [OF received(2) rels tasks rec] inv show ?thesis by (simp add: run_proven_def)
  next
    case (submitted respondent persona_did i persona now ps)
    with submitted_proven [OF submitted(2) rels] inv show ?thesis by (simp add: run_proven_def)
  next
    case (created ok respondent our_did i persona now)
    with created_proven [OF rels tasks] inv show ?thesis by (simp add: run_proven_def)
  next
    case (accepting i asker their_did)
    with request_in_task_proven [OF tasks accepting(2)] inv show ?thesis by (simp add: run_proven_def)
  next
    case (accepted i asker their_did ok our_did persona now)
    with jobs [OF accepted(2)] inv rels tasks show ?thesis
      by (simp add: run_proven_def accept_applied_def rels_proven_insert tasks_proven_remove)
  next
    case (vrc_sent ok i p_did vrc)
    with inv tasks show ?thesis
      by (simp add: run_proven_def vrc_sent_applied_def tasks_proven_remove split: sum.split)
  next
    case (removed p_did)
    with inv rels rec show ?thesis
      by (simp add: run_proven_def remove_applied_def rel_remove_def rels_proven_delete received_proven_remove)
  next
    case (vrc_taken i ps)
    from vrc_taken(2) obtain x vrc v where x: "get_by_id (ps_tasks (rr_state s)) i = Some x" "tk_type x = VRCIssued vrc"
      and v: "vrcs_insert (dc_issuer vrc) vrc (ps_received (rr_state s)) = Inr v"
      and ps: "ps = (rr_state s)\<lparr>ps_received := v, ps_tasks := snd (tasks_remove i (ps_tasks (rr_state s)))\<rparr>"
      by (rule accept_vrcD)
    from x tasks have "rw_vrc_error w vrc = None" by (force simp: tasks_proven_def)
    from received_proven_insert [OF rec v this] inv tasks show ?thesis
      by (simp add: vrc_taken(1) ps run_proven_def tasks_proven_remove)
  next
    case cleared
    with inv show ?thesis by (simp add: run_proven_def clear_all_tasks_def tasks_clear_def tasks_proven_def get_by_id_def)
  qed (use inv tasks in \<open>auto simp: run_proven_def refusal_applied_def ping_applied_def request_vrc_applied_def dismiss_task_def
      tasks_proven_remove tasks_proven_queue queue_task_def tasks_proven_new\<close>)
qed

interpretation proofs: preserved "relation_step w" "run_proven w" for w
  by unfold_locales (rule run_proven_step)

definition no_peers :: relation_run where
  "no_peers = \<lparr>rr_state = \<lparr>ps_relationships = no_relationships, ps_tasks = [], ps_issued = vrcs_empty,
     ps_received = vrcs_empty\<rparr>, rr_accepting = []\<rparr>"

lemma no_peers_proven: "run_proven w no_peers"
  by (simp add: run_proven_def no_peers_def rels_proven_def rel_keyed_def no_relationships_def rel_get_def
      tasks_proven_def get_by_id_def received_proven_def vrcs_get_def vrcs_empty_def)

end
