(* ===== verification/PeerHandshake.thy ===== *)
theory PeerHandshake
  imports RelationRun
begin

text \<open>
  What the relationship flow guarantees over its runs, and two parties together: the handshake establishes the
  relationship on both sides under the DIDs each proved, also when the answer overtakes the end of the first send;
  and the orders of events in which it does not. \<open>handshake\<close> composes the two parties' operations as the messages
  between them do.
\<close>

section \<open>An example of the libraries\<close>

text \<open>A proof names its signer; no DID has a locator.\<close>

definition opt_member :: "string \<Rightarrow> json option \<Rightarrow> (string \<times> json) list" where
  "opt_member k v = (case v of None \<Rightarrow> [] | Some x \<Rightarrow> [(k, x)])"

definition example_relation_sdk :: relation_sdk where
  "example_relation_sdk = \<lparr>
     rw_request = (\<lambda>v. map_option (\<lambda>did. \<lparr>rlb_reason = jmember_str ''reason'' (Some v), rlb_did = did,
        rlb_name = jmember_str ''name'' (Some v), rlb_did_proof = jget ''didProof'' v,
        rlb_persona_proof = jget ''personaProof'' v\<rparr>) (jmember_str ''did'' (Some v))),
     rw_request_json = (\<lambda>b. JObject (opt_member ''reason'' (map_option JString (rlb_reason b)) @ [(''did'', JString (rlb_did b))] @
        opt_member ''name'' (map_option JString (rlb_name b)) @ opt_member ''didProof'' (rlb_did_proof b) @
        opt_member ''personaProof'' (rlb_persona_proof b))),
     rw_accept = (\<lambda>v. map_option (\<lambda>did. \<lparr>rla_did = did, rla_did_proof = jget ''didProof'' v,
        rla_persona_proof = jget ''personaProof'' v\<rparr>) (jmember_str ''did'' (Some v))),
     rw_accept_json = (\<lambda>b. JObject ((''did'', JString (rla_did b)) # opt_member ''didProof'' (rla_did_proof b) @
        opt_member ''personaProof'' (rla_persona_proof b))),
     rw_reject = (\<lambda>_. Some \<lparr>rlj_reason = None\<rparr>), rw_vrc_request = (\<lambda>_. Some \<lparr>vq_reason = None\<rparr>),
     rw_vrc_reject = (\<lambda>_. Some None),
     rw_vrc = (\<lambda>v. map_option (\<lambda>i. \<lparr>dc_issuer = i, dc_proof_value = Some ''z1'', dc_document = v\<rparr>) (jmember_str ''issuer'' (Some v))),
     rw_src = (\<lambda>_. None), rw_strip_src = (\<lambda>d. d),
     rw_verify = (\<lambda>doc signer. if jmember_str ''by'' (jget ''proof'' doc) = Some signer then None else Some ''not signed''),
     rw_vrc_error = (\<lambda>_. None)\<rparr>"

lemma example_did_valid: "did_valid example_relation_sdk did \<longleftrightarrow> plain_did_ok did"
  by (simp add: did_valid_def example_relation_sdk_def validate_did.simps)

definition example_proof :: "string \<Rightarrow> json" where
  "example_proof k = JObject [(''by'', JString k)]"

section \<open>Two parties\<close>

text \<open>
  \<open>Quiet\<close>: each message arrives once the other side is done; \<open>AnswerFirst\<close>: the answer arrives before the end of the
  request's own send is handled; \<open>FinalizeFirst\<close>: the finalize arrives before the end of the acceptance's send is.
\<close>

datatype handshake_order = Quiet | AnswerFirst | FinalizeFirst

record party =
  pt_persona :: string
  pt_did :: string
  pt_proofs :: "json \<times> json option"

definition handshake ::
  "handshake_order \<Rightarrow> relation_sdk \<Rightarrow> party \<Rightarrow> party \<Rightarrow> string \<Rightarrow> persona_id option \<Rightarrow> instant \<Rightarrow> peer_state \<Rightarrow> peer_state
     \<Rightarrow> string + peer_state \<times> peer_state" where
  "handshake order w p q msg_id persona now a0 b0 =
     (let request = create_request_message w 0 msg_id (pt_persona p) (pt_persona q) None (pt_did p) None (pt_proofs p);
          answer = build_accept_message w ''answer'' 0 (pt_persona q) (pt_persona p) (pt_did q) msg_id (pt_proofs q);
          final = create_finalize_message ''final'' 0 (pt_persona p) (pt_persona q) msg_id;
          sent = create_applied True (pt_persona q) (pt_did p) msg_id persona now
      in rbind (prepare_submit (pt_persona q) (pt_persona p) msg_id persona now a0) (\<lambda>a1.
         rbind (inbound w b0 request (pt_persona p) (pt_persona q) persona now b0) (\<lambda>(_, b1).
         rbind (ok_or ''no request in the inbox'' (request_in_task msg_id b1)) (\<lambda>(asker, their_did).
           let a2 = (if order = AnswerFirst then a1 else sent a1);
               accepted = accept_applied True msg_id asker their_did (pt_did q) persona now
           in rbind (inbound w a2 answer (pt_persona q) (pt_persona p) persona now a2) (\<lambda>(_, a3).
              let a4 = (if order = AnswerFirst then sent a3 else a3);
                  b2 = (if order = FinalizeFirst then b1 else accepted b1)
              in rbind (inbound w b2 final (pt_persona p) (pt_persona q) persona now b2) (\<lambda>(_, b3).
                   Inr (a4, if order = FinalizeFirst then accepted b3 else b3)))))))"

section \<open>One step at a time\<close>

text \<open>The dispatch, unfolded for the messages of the handshake.\<close>

lemma message_type_of_urls [simp]:
  "message_type_of (message_type_url MsgRelationshipRequest) = Some MsgRelationshipRequest"
  "message_type_of (message_type_url MsgRelationshipRequestAccepted) = Some MsgRelationshipRequestAccepted"
  "message_type_of (message_type_url MsgRelationshipRequestFinalize) = Some MsgRelationshipRequestFinalize"
  "message_type_of (message_type_url MsgTrustPong) = Some MsgTrustPong"
  by code_simp+

lemma find_updated:
  assumes "\<forall>(j, r) \<in> set es. rl_task_id r \<noteq> thid" "rl_task_id x = thid"
  shows "List.find (\<lambda>(_, r). rl_task_id r = thid) (AList.update k x es) = Some (k, x)"
  using assms by (induction es) auto

lemma find_modified:
  assumes "List.find (\<lambda>(_, r). rl_task_id r = thid) es = Some (k, x)" "distinct (map fst es)" "rl_task_id (f x) = thid"
  shows "List.find (\<lambda>(_, r). rl_task_id r = thid) (update_first (\<lambda>(j, _). j = k) (\<lambda>(j, r). (j, f r)) es) = Some (k, f x)"
  using assms
proof (induction es)
  case (Cons e es)
  obtain j r where e: "e = (j, r)" by (cases e)
  show ?case
  proof (cases "rl_task_id r = thid")
    case True
    with Cons.prems e show ?thesis by simp
  next
    case False
    with Cons.prems e have f: "List.find (\<lambda>(_, r). rl_task_id r = thid) es = Some (k, x)" by simp
    then have "k \<in> fst ` set es" by (force dest: find_SomeD)
    with Cons.prems(2) e have "j \<noteq> k" by auto
    with Cons f False e show ?thesis by simp
  qed
qed simp

definition fresh_thread :: "string \<Rightarrow> relationships \<Rightarrow> bool" where
  "fresh_thread thid rs \<longleftrightarrow> thid \<noteq> [] \<and> (\<forall>(j, r) \<in> set (rs_map rs). rl_task_id r \<noteq> thid)"

lemma awaiting_inserted:
  assumes "fresh_thread thid rs" "rl_task_id r = thid" "rl_state r = st" "rl_remote_p_did r = k"
  shows "awaiting (rel_insert k r rs) thid st k = Some k"
  using assms by (simp add: awaiting_def rel_insert_def fresh_thread_def find_updated)

lemma awaiting_other_state:
  assumes "fresh_thread thid rs" "rl_task_id r = thid" "rl_state r \<noteq> st"
  shows "awaiting (rel_insert k r rs) thid st s = None"
  using assms by (simp add: awaiting_def rel_insert_def fresh_thread_def find_updated)

lemma awaiting_fresh: "fresh_thread thid rs \<Longrightarrow> awaiting rs thid st s = None"
  by (auto simp: awaiting_def fresh_thread_def split: option.split dest: find_SomeD)

lemma awaiting_renamed:
  assumes "fresh_thread thid rs" "rel_keyed rs" "rl_remote_p_did r = k" "rl_state r = st" "rl_task_id r = thid"
  shows "awaiting (rel_modify k (\<lambda>r. r\<lparr>rl_our_did := d, rl_task_id := thid\<rparr>) (rel_insert k r rs)) thid st k = Some k"
proof -
  have "distinct (map fst (AList.update k r (rs_map rs)))" using assms(2) by (simp add: rel_keyed_def distinct_update)
  then have "List.find (\<lambda>(_, q). rl_task_id q = thid)
      (update_first (\<lambda>(j, _). j = k) (\<lambda>(j, r). (j, r\<lparr>rl_our_did := d, rl_task_id := thid\<rparr>)) (AList.update k r (rs_map rs)))
    = Some (k, r\<lparr>rl_our_did := d, rl_task_id := thid\<rparr>)"
    using assms by (intro find_modified find_updated) (auto simp: fresh_thread_def)
  with assms show ?thesis by (simp add: awaiting_def rel_insert_def rel_modify_def fresh_thread_def)
qed

section \<open>The handshake\<close>

text \<open>The wire types read back what they write, as serde's derived pairs do.\<close>

definition faithful_codec :: "relation_sdk \<Rightarrow> bool" where
  "faithful_codec w \<longleftrightarrow> (\<forall>b. rw_request w (rw_request_json w b) = Some b) \<and> (\<forall>b. rw_accept w (rw_accept_json w b) = Some b)"

text \<open>
  Two parties ready for a handshake on thread \<open>i\<close>: the DIDs they will use are proven for it, the thread is new to
  both, the asker has no established relationship with the other, and the other has room for the request.
\<close>

definition ready :: "relation_sdk \<Rightarrow> party \<Rightarrow> party \<Rightarrow> string \<Rightarrow> peer_state \<Rightarrow> peer_state \<Rightarrow> bool" where
  "ready w p q i a0 b0 \<longleftrightarrow>
     did_valid w (pt_did p) \<and> did_valid w (pt_did q) \<and> strip_prefix ''did:'' (pt_persona q) \<noteq> None \<and>
     verify_did_binding (rw_verify w) (pt_did p) (Some (fst (pt_proofs p))) (pt_persona p) (snd (pt_proofs p))
       (pt_persona q) i RoleRequest = Inr () \<and>
     verify_did_binding (rw_verify w) (pt_did q) (Some (fst (pt_proofs q))) (pt_persona q) (snd (pt_proofs q))
       (pt_persona p) i RoleAccept = Inr () \<and>
     fresh_thread i (ps_relationships a0) \<and> fresh_thread i (ps_relationships b0) \<and>
     rel_keyed (ps_relationships a0) \<and> rel_keyed (ps_relationships b0) \<and>
     (case rel_get (ps_relationships a0) (pt_persona q) of None \<Rightarrow> True | Some r \<Rightarrow> rl_state r \<noteq> Established) \<and>
     relationship_request_admissible i (pt_persona p) b0 = Inr ()"

lemma ready_facts:
  assumes "ready w p q i a0 b0"
  shows "did_valid w (pt_did p)" "did_valid w (pt_did q)"
    "verify_did_binding (rw_verify w) (pt_did p) (Some (fst (pt_proofs p))) (pt_persona p) (snd (pt_proofs p))
       (pt_persona q) i RoleRequest = Inr ()"
    "verify_did_binding (rw_verify w) (pt_did q) (Some (fst (pt_proofs q))) (pt_persona q) (snd (pt_proofs q))
       (pt_persona p) i RoleAccept = Inr ()"
    "fresh_thread i (ps_relationships a0)" "fresh_thread i (ps_relationships b0)"
    "rel_keyed (ps_relationships a0)" "rel_keyed (ps_relationships b0)"
    "relationship_request_admissible i (pt_persona p) b0 = Inr ()"
  using assms by (simp_all add: ready_def)

definition request_record :: "party \<Rightarrow> string \<Rightarrow> string \<Rightarrow> persona_id option \<Rightarrow> instant \<Rightarrow> peer_relationship" where
  "request_record p remote i persona now =
     \<lparr>rl_task_id = i, rl_our_did = pt_persona p, rl_remote_did = remote, rl_remote_p_did = remote,
      rl_created = now, rl_state = RequestSent, rl_our_persona = persona, rl_needs_reestablishment = False\<rparr>"

lemma submitted:
  assumes "ready w p q i a0 b0"
  shows "prepare_submit (pt_persona q) (pt_persona p) i persona now a0
    = Inr (a0\<lparr>ps_relationships := rel_insert (pt_persona q) (request_record p (pt_persona q) i persona now) (ps_relationships a0)\<rparr>)"
  using assms by (simp add: prepare_submit_def ready_def request_record_def ensure_def)

definition sent_body :: "party \<Rightarrow> relationship_request_body" where
  "sent_body p = \<lparr>rlb_reason = None, rlb_did = pt_did p, rlb_name = None, rlb_did_proof = Some (fst (pt_proofs p)),
     rlb_persona_proof = snd (pt_proofs p)\<rparr>"

lemma request_queued:
  assumes "ready w p q i a0 b0" "faithful_codec w"
  shows "inbound w b0 (create_request_message w 0 i (pt_persona p) (pt_persona q) None (pt_did p) None (pt_proofs p))
      (pt_persona p) (pt_persona q) persona now b0
    = Inr (True, queue_task i (RelationshipRequestInbound (pt_persona p) (pt_persona q) (sent_body p)) persona now b0)"
  using ready_facts [OF assms(1)] assms(2)
  by (simp add: inbound_def create_request_message_def build_didcomm_message_def inbound_request_def request_check_def
      faithful_codec_def sent_body_def first_recipient_def del: message_type_url.simps)

lemma request_waits:
  "request_in_task i (queue_task i (RelationshipRequestInbound asker recipient (sent_body p)) persona now b)
     = Some (asker, pt_did p)"
  by (simp add: request_in_task_def queue_task_def task_get_new sent_body_def)

lemma answer_establishes:
  assumes "ready w p q i a0 b0" "faithful_codec w"
    "awaiting (ps_relationships a) i RequestSent (pt_persona q) = Some (pt_persona q)"
  shows "inbound w a (build_accept_message w ''answer'' 0 (pt_persona q) (pt_persona p) (pt_did q) i (pt_proofs q))
      (pt_persona q) (pt_persona p) persona now a
    = Inr (True, a\<lparr>ps_relationships := rel_modify (pt_persona q)
          (\<lambda>r. r\<lparr>rl_state := Established, rl_remote_did := pt_did q\<rparr>) (ps_relationships a),
        ps_tasks := snd (tasks_remove i (ps_tasks a))\<rparr>)"
  using ready_facts [OF assms(1)] assms(2,3)
  by (simp add: inbound_def build_accept_message_def build_didcomm_message_def inbound_accept_def accept_check_def
      faithful_codec_def require_thid_def del: message_type_url.simps)

lemma final_message:
  "inbound w b (create_finalize_message ''final'' 0 sender recipient i) sender recipient' persona now b =
     (case awaiting (ps_relationships b) i RequestAccepted sender of
        None \<Rightarrow> Inr (False, b)
      | Some k \<Rightarrow> Inr (True, b\<lparr>ps_relationships := rel_modify k (\<lambda>r. r\<lparr>rl_state := Established\<rparr>) (ps_relationships b),
          ps_tasks := snd (tasks_remove i (ps_tasks b))\<rparr>))"
  by (simp add: inbound_def create_finalize_message_def build_didcomm_message_def inbound_finalize_def require_thid_def del: message_type_url.simps)

lemma awaiting_created:
  assumes "ready w p q i a0 b0"
  shows "awaiting (rel_insert (pt_persona q) (request_record p (pt_persona q) i persona now) (ps_relationships a0)) i
      RequestSent (pt_persona q) = Some (pt_persona q)"
    "awaiting (rel_modify (pt_persona q) (\<lambda>r. r\<lparr>rl_our_did := d, rl_task_id := i\<rparr>)
        (rel_insert (pt_persona q) (request_record p (pt_persona q) i persona now) (ps_relationships a0))) i
      RequestSent (pt_persona q) = Some (pt_persona q)"
  using ready_facts(5,7) [OF assms]
  by (simp_all add: awaiting_inserted awaiting_renamed request_record_def)

text \<open>What the asker is left with, whichever of the answer and the end of its own send comes first.\<close>

lemma asker_established:
  fixes persona :: "persona_id option" and now :: instant
  assumes r: "ready w p q i a0 b0" and codec: "faithful_codec w"
  defines "a1 \<equiv> a0\<lparr>ps_relationships := rel_insert (pt_persona q) (request_record p (pt_persona q) i persona now) (ps_relationships a0)\<rparr>"
    and "answer \<equiv> build_accept_message w ''answer'' 0 (pt_persona q) (pt_persona p) (pt_did q) i (pt_proofs q)"
    and "sent \<equiv> create_applied True (pt_persona q) (pt_did p) i persona now"
  obtains x y where
    "inbound w (sent a1) answer (pt_persona q) (pt_persona p) persona now (sent a1) = Inr (True, x)"
    "inbound w a1 answer (pt_persona q) (pt_persona p) persona now a1 = Inr (True, y)"
    "rel_get (ps_relationships x) (pt_persona q) = Some ((request_record p (pt_persona q) i persona now)
       \<lparr>rl_our_did := pt_did p, rl_state := Established, rl_remote_did := pt_did q\<rparr>)"
    "rel_get (ps_relationships (sent y)) (pt_persona q) = Some ((request_record p (pt_persona q) i persona now)
       \<lparr>rl_our_did := pt_did p, rl_state := Established, rl_remote_did := pt_did q\<rparr>)"
    "get_by_id (ps_tasks x) i = None" "get_by_id (ps_tasks (sent y)) i = None"
proof -
  let ?rec = "request_record p (pt_persona q) i persona now"
  have sent: "sent a1 = queue_task i (RelationshipRequestOutbound (pt_persona q)) persona now
      (a1\<lparr>ps_relationships := rel_modify (pt_persona q) (\<lambda>r. r\<lparr>rl_our_did := pt_did p, rl_task_id := i\<rparr>) (ps_relationships a1)\<rparr>)"
    by (simp add: sent_def create_applied_def a1_def rel_get_insert request_record_def)
  have one: "awaiting (ps_relationships (sent a1)) i RequestSent (pt_persona q) = Some (pt_persona q)"
    unfolding sent using awaiting_created(2) [OF r] by (simp add: queue_task_def a1_def)
  have two: "awaiting (ps_relationships a1) i RequestSent (pt_persona q) = Some (pt_persona q)"
    using awaiting_created(1) [OF r] by (simp add: a1_def)
  have held: "rel_get (ps_relationships a1) (pt_persona q) = Some ?rec" by (simp add: a1_def rel_get_insert)
  have waiting: "rl_state ?rec = RequestSent" "rl_task_id ?rec = i" by (simp_all add: request_record_def)
  have final: "?rec\<lparr>rl_our_did := d, rl_task_id := i, rl_state := Established, rl_remote_did := e\<rparr>
    = ?rec\<lparr>rl_our_did := d, rl_state := Established, rl_remote_did := e\<rparr>" for d e
    by (simp add: request_record_def)
  show thesis
  proof (rule that [OF answer_establishes [OF r codec one, folded answer_def] answer_establishes [OF r codec two, folded answer_def]])
    show "rel_get (ps_relationships ((sent a1)\<lparr>ps_relationships := rel_modify (pt_persona q)
          (\<lambda>r. r\<lparr>rl_state := Established, rl_remote_did := pt_did q\<rparr>) (ps_relationships (sent a1)),
        ps_tasks := snd (tasks_remove i (ps_tasks (sent a1)))\<rparr>)) (pt_persona q)
      = Some (?rec\<lparr>rl_our_did := pt_did p, rl_state := Established, rl_remote_did := pt_did q\<rparr>)"
      by (simp add: sent queue_task_def rel_get_modify held final)
  qed (simp_all add: sent_def create_applied_def rel_get_modify held task_get_remove)
qed

definition accepted_record :: "party \<Rightarrow> party \<Rightarrow> string \<Rightarrow> persona_id option \<Rightarrow> instant \<Rightarrow> peer_relationship" where
  "accepted_record p q i persona now =
     \<lparr>rl_task_id = i, rl_our_did = pt_did q, rl_remote_did = pt_did p, rl_remote_p_did = pt_persona p,
      rl_created = now, rl_state = RequestAccepted, rl_our_persona = persona, rl_needs_reestablishment = False\<rparr>"

lemma accepted_state:
  "accept_applied True i (pt_persona p) (pt_did p) (pt_did q) persona now b =
     b\<lparr>ps_relationships := rel_insert (pt_persona p) (accepted_record p q i persona now) (ps_relationships b),
       ps_tasks := snd (tasks_remove i (ps_tasks b))\<rparr>"
  by (simp add: accept_applied_def accepted_record_def)

text \<open>(C4) 
  The handshake of two parties ends with both established, each under the DID it proved and knowing the other's
  proven DID, with no task of it left: also when the answer overtakes the end of the request's own send. When the
  finalize overtakes the end of the acceptance's send, it is dropped: the asker is established, the other side waits
  in \<open>RequestAccepted\<close> for a finalize that was already sent, and has no task left to answer again.
\<close>

theorem handshake_outcome:
  assumes r: "ready w p q i a0 b0" and codec: "faithful_codec w"
  shows "\<exists>a b ra rb. handshake order w p q i persona now a0 b0 = Inr (a, b) \<and>
    rel_get (ps_relationships a) (pt_persona q) = Some ra \<and> rel_get (ps_relationships b) (pt_persona p) = Some rb \<and>
    rl_state ra = Established \<and> rl_our_did ra = pt_did p \<and> rl_remote_did ra = pt_did q \<and>
    rl_state rb = (if order = FinalizeFirst then RequestAccepted else Established) \<and>
    rl_our_did rb = pt_did q \<and> rl_remote_did rb = pt_did p \<and>
    get_by_id (ps_tasks a) i = None \<and> get_by_id (ps_tasks b) i = None"
proof -
  let ?b1 = "queue_task i (RelationshipRequestInbound (pt_persona p) (pt_persona q) (sent_body p)) persona now b0"
  let ?acc = "accept_applied True i (pt_persona p) (pt_did p) (pt_did q) persona now"
  let ?sent = "create_applied True (pt_persona q) (pt_did p) i persona now"
  let ?fin = "create_finalize_message ''final'' 0 (pt_persona p) (pt_persona q) i"
  obtain x y where asker:
    "inbound w (?sent (a0\<lparr>ps_relationships := rel_insert (pt_persona q) (request_record p (pt_persona q) i persona now) (ps_relationships a0)\<rparr>))
       (build_accept_message w ''answer'' 0 (pt_persona q) (pt_persona p) (pt_did q) i (pt_proofs q)) (pt_persona q) (pt_persona p) persona now
       (?sent (a0\<lparr>ps_relationships := rel_insert (pt_persona q) (request_record p (pt_persona q) i persona now) (ps_relationships a0)\<rparr>)) = Inr (True, x)"
    "inbound w (a0\<lparr>ps_relationships := rel_insert (pt_persona q) (request_record p (pt_persona q) i persona now) (ps_relationships a0)\<rparr>)
       (build_accept_message w ''answer'' 0 (pt_persona q) (pt_persona p) (pt_did q) i (pt_proofs q)) (pt_persona q) (pt_persona p) persona now
       (a0\<lparr>ps_relationships := rel_insert (pt_persona q) (request_record p (pt_persona q) i persona now) (ps_relationships a0)\<rparr>) = Inr (True, y)"
    and xy: "rel_get (ps_relationships x) (pt_persona q) = Some ((request_record p (pt_persona q) i persona now)
       \<lparr>rl_our_did := pt_did p, rl_state := Established, rl_remote_did := pt_did q\<rparr>)"
    "rel_get (ps_relationships (?sent y)) (pt_persona q) = Some ((request_record p (pt_persona q) i persona now)
       \<lparr>rl_our_did := pt_did p, rl_state := Established, rl_remote_did := pt_did q\<rparr>)"
    "get_by_id (ps_tasks x) i = None" "get_by_id (ps_tasks (?sent y)) i = None"
    by (rule asker_established [OF r codec])
  have early: "inbound w ?b1 ?fin (pt_persona p) (pt_persona q) persona now ?b1 = Inr (False, ?b1)"
    using ready_facts(6) [OF r] by (simp add: final_message queue_task_def awaiting_fresh)
  have "awaiting (ps_relationships (?acc ?b1)) i RequestAccepted (pt_persona p) = Some (pt_persona p)"
    using ready_facts(6) [OF r] by (simp add: accepted_state queue_task_def awaiting_inserted accepted_record_def)
  then have late: "inbound w (?acc ?b1) ?fin (pt_persona p) (pt_persona q) persona now (?acc ?b1) =
    Inr (True, (?acc ?b1)\<lparr>ps_relationships := rel_modify (pt_persona p) (\<lambda>r. r\<lparr>rl_state := Established\<rparr>) (ps_relationships (?acc ?b1)),
      ps_tasks := snd (tasks_remove i (ps_tasks (?acc ?b1)))\<rparr>)"
    by (simp add: final_message)
  note run = handshake_def Let_def submitted [OF r] request_queued [OF r codec] request_waits
  show ?thesis
  proof (cases order)
    case Quiet
    show ?thesis
      by (simp add: run Quiet asker(1) late del: split_paired_Ex)
        (simp add: xy accepted_state rel_get_modify rel_get_insert task_get_remove accepted_record_def request_record_def)
  next
    case AnswerFirst
    show ?thesis
      by (simp add: run AnswerFirst asker(2) late del: split_paired_Ex)
        (simp add: xy accepted_state rel_get_modify rel_get_insert task_get_remove accepted_record_def request_record_def)
  next
    case FinalizeFirst
    show ?thesis
      by (simp add: run FinalizeFirst asker(1) early del: split_paired_Ex)
        (simp add: xy accepted_state rel_get_modify rel_get_insert task_get_remove accepted_record_def request_record_def)
  qed
qed

definition example_asker :: party where
  "example_asker = \<lparr>pt_persona = ''did:web:alice'', pt_did = ''did:peer:2a'',
     pt_proofs = (example_proof ''did:peer:2a'', Some (example_proof ''did:web:alice''))\<rparr>"

definition example_answerer :: party where
  "example_answerer = \<lparr>pt_persona = ''did:web:bob'', pt_did = ''did:peer:2b'',
     pt_proofs = (example_proof ''did:peer:2b'', Some (example_proof ''did:web:bob''))\<rparr>"

definition nobody :: peer_state where
  "nobody = \<lparr>ps_relationships = no_relationships, ps_tasks = [], ps_issued = vrcs_empty, ps_received = vrcs_empty\<rparr>"

lemma example_codec: "faithful_codec example_relation_sdk"
proof -
  have "rw_request example_relation_sdk (rw_request_json example_relation_sdk b) = Some b" for b
    by (cases b; cases "rlb_reason b"; cases "rlb_name b"; cases "rlb_did_proof b"; cases "rlb_persona_proof b")
      (simp_all add: example_relation_sdk_def opt_member_def json_access)
  moreover have "rw_accept example_relation_sdk (rw_accept_json example_relation_sdk b) = Some b" for b
    by (cases b; cases "rla_did_proof b"; cases "rla_persona_proof b")
      (simp_all add: example_relation_sdk_def opt_member_def json_access)
  ultimately show ?thesis by (simp add: faithful_codec_def)
qed

lemma example_ready: "ready example_relation_sdk example_asker example_answerer ''t1'' nobody nobody"
proof -
  have "plain_did_ok ''did:peer:2a''" "plain_did_ok ''did:peer:2b''"
    "verify_did_binding (rw_verify example_relation_sdk) ''did:peer:2a'' (Some (example_proof ''did:peer:2a'')) ''did:web:alice''
       (Some (example_proof ''did:web:alice'')) ''did:web:bob'' ''t1'' RoleRequest = Inr ()"
    "verify_did_binding (rw_verify example_relation_sdk) ''did:peer:2b'' (Some (example_proof ''did:peer:2b'')) ''did:web:bob''
       (Some (example_proof ''did:web:bob'')) ''did:web:alice'' ''t1'' RoleAccept = Inr ()"
    "relationship_request_admissible ''t1'' ''did:web:alice'' nobody = Inr ()"
    by code_simp+
  then show ?thesis
    by (simp add: ready_def example_did_valid example_asker_def example_answerer_def nobody_def fresh_thread_def
        no_relationships_def rel_keyed_def rel_get_def)
qed

theorem handshake_outcome_witness:
  "\<exists>a b. handshake AnswerFirst example_relation_sdk example_asker example_answerer ''t1'' None 0 nobody nobody = Inr (a, b) \<and>
     map_option rl_state (rel_get (ps_relationships b) ''did:web:alice'') = Some Established"
  using handshake_outcome [OF example_ready example_codec, of AnswerFirst None 0] by (auto simp: example_asker_def)

section \<open>Over whole runs\<close>

text \<open>(C16) 
  However messages and actions are interleaved, from the start: an established relationship is used with a DID
  whose key signed a binding to the persona the relationship is filed under, and every credential filed as received
  was proven by the issuer it is filed under.
\<close>

theorem relationships_are_proven:
  assumes run: "(relation_step w)\<^sup>*\<^sup>* no_peers s"
    and r: "rel_get (ps_relationships (rr_state s)) k = Some r" "rl_state r = Established"
  shows "(\<exists>p q peer thid role. verify_did_binding (rw_verify w) (rl_remote_did r) p k q peer thid role = Inr ()) \<and>
    (\<forall>issuer held i vrc. vrcs_get (ps_received (rr_state s)) issuer = Some held \<longrightarrow> map_of held i = Some vrc \<longrightarrow>
       rw_vrc_error w vrc = None \<and> dc_issuer vrc = issuer)"
proof -
  from proofs.inv_steps [OF run no_peers_proven] have "run_proven w s" .
  with r show ?thesis
    by (auto simp: run_proven_def rels_proven_def proven_did_def received_proven_def)
qed

text \<open>The answerer's run in the handshake: the request arrives, is accepted, and the finalize arrives.\<close>

definition example_request :: didcomm_message where
  "example_request = create_request_message example_relation_sdk 0 ''t1'' ''did:web:alice'' ''did:web:bob'' None ''did:peer:2a'' None
     (pt_proofs example_asker)"

definition example_waiting :: peer_state where
  "example_waiting = queue_task ''t1'' (RelationshipRequestInbound ''did:web:alice'' ''did:web:bob'' (sent_body example_asker)) None 0 nobody"

definition example_accepted :: peer_state where
  "example_accepted = accept_applied True ''t1'' ''did:web:alice'' ''did:peer:2a'' ''did:peer:2b'' None 0 example_waiting"

definition example_established :: peer_state where
  "example_established = example_accepted\<lparr>ps_relationships := rel_modify ''did:web:alice'' (\<lambda>r. r\<lparr>rl_state := Established\<rparr>)
       (ps_relationships example_accepted), ps_tasks := snd (tasks_remove ''t1'' (ps_tasks example_accepted))\<rparr>"

lemma example_run:
  "(relation_step example_relation_sdk)\<^sup>*\<^sup>* no_peers
     \<lparr>rr_state = example_established, rr_accepting = [(''t1'', ''did:web:alice'', ''did:peer:2a'')]\<rparr>"
proof -
  let ?job = "(''t1'', ''did:web:alice'', ''did:peer:2a'')"
  have names: "pt_persona example_asker = ''did:web:alice''" "pt_did example_asker = ''did:peer:2a''"
    "pt_persona example_answerer = ''did:web:bob''" by (simp_all add: example_asker_def example_answerer_def)
  have start: "no_peers = \<lparr>rr_state = nobody, rr_accepting = []\<rparr>" by (simp add: no_peers_def nobody_def)
  have "relation_step example_relation_sdk \<lparr>rr_state = nobody, rr_accepting = []\<rparr> \<lparr>rr_state = example_waiting, rr_accepting = []\<rparr>"
    using request_queued [OF example_ready example_codec, of None 0]
      relation_step.received [of example_relation_sdk nobody example_request "''did:web:alice''" "''did:web:bob''" None 0
        "\<lparr>rr_state = nobody, rr_accepting = []\<rparr>" True example_waiting]
    by (simp add: names example_request_def example_waiting_def)
  moreover have "request_in_task ''t1'' example_waiting = Some (''did:web:alice'', ''did:peer:2a'')"
    using request_waits [of "''t1''" "''did:web:alice''" "''did:web:bob''" example_asker None 0 nobody]
    by (simp add: names example_waiting_def)
  then have "relation_step example_relation_sdk \<lparr>rr_state = example_waiting, rr_accepting = []\<rparr>
      \<lparr>rr_state = example_waiting, rr_accepting = [?job]\<rparr>"
    using relation_step.accepting [of "''t1''" "\<lparr>rr_state = example_waiting, rr_accepting = []\<rparr>"] by simp
  moreover have "relation_step example_relation_sdk \<lparr>rr_state = example_waiting, rr_accepting = [?job]\<rparr>
      \<lparr>rr_state = example_accepted, rr_accepting = [?job]\<rparr>"
    using relation_step.accepted [of "''t1''" "''did:web:alice''" "''did:peer:2a''" "\<lparr>rr_state = example_waiting, rr_accepting = [?job]\<rparr>"
        example_relation_sdk True "''did:peer:2b''" None 0] by (simp add: example_accepted_def)
  moreover have "awaiting (ps_relationships example_accepted) ''t1'' RequestAccepted ''did:web:alice'' = Some ''did:web:alice''"
    by code_simp
  then have "relation_step example_relation_sdk \<lparr>rr_state = example_accepted, rr_accepting = [?job]\<rparr>
      \<lparr>rr_state = example_established, rr_accepting = [?job]\<rparr>"
    using relation_step.received [of example_relation_sdk example_accepted
        "create_finalize_message ''final'' 0 ''did:web:alice'' ''did:web:bob'' ''t1''" "''did:web:alice''" "''did:web:bob''" None 0
        "\<lparr>rr_state = example_accepted, rr_accepting = [?job]\<rparr>" True example_established]
    by (simp add: final_message example_established_def)
  ultimately show ?thesis
    unfolding start by (meson converse_rtranclp_into_rtranclp rtranclp.rtrancl_refl)
qed

theorem relationships_are_proven_witness:
  "\<exists>p q peer thid role. verify_did_binding (rw_verify example_relation_sdk) ''did:peer:2a'' p ''did:web:alice'' q peer thid role = Inr ()"
proof -
  have "map_option rl_state (rel_get (ps_relationships example_established) ''did:web:alice'') = Some Established"
    "map_option rl_remote_did (rel_get (ps_relationships example_established) ''did:web:alice'') = Some ''did:peer:2a''"
    by code_simp+
  then obtain r where "rel_get (ps_relationships example_established) ''did:web:alice'' = Some r" "rl_state r = Established"
    "rl_remote_did r = ''did:peer:2a''" by auto
  with relationships_are_proven [OF example_run, of "''did:web:alice''" r] show ?thesis by simp
qed

section \<open>Where the handshake stops\<close>

text \<open>
  Only an established relationship stops a second request to the same party. The second request replaces the
  first one's record, the other party refuses it (the first one waits there), and the answer to the first is then
  ignored: what the other party accepted never becomes established.
\<close>

theorem second_request_loses_first:
  assumes r: "ready w p q i a0 b0" and codec: "faithful_codec w" and j: "j \<noteq> i"
    and fresh: "fresh_thread j (ps_relationships a0)"
    and again: "prepare_submit (pt_persona q) (pt_persona p) j persona later
        (create_applied True (pt_persona q) (pt_did p) i persona now
          (a0\<lparr>ps_relationships := rel_insert (pt_persona q) (request_record p (pt_persona q) i persona now) (ps_relationships a0)\<rparr>))
      = Inr a"
  shows "inbound w arrived (build_accept_message w ''answer'' 0 (pt_persona q) (pt_persona p) (pt_did q) i (pt_proofs q))
      (pt_persona q) (pt_persona p) persona later a = Inr (False, a) \<and>
    relationship_request_admissible j (pt_persona p)
      (queue_task i (RelationshipRequestInbound (pt_persona p) (pt_persona q) (sent_body p)) persona now b0) \<noteq> Inr ()"
proof
  let ?first = "rel_insert (pt_persona q) (request_record p (pt_persona q) i persona now) (ps_relationships a0)"
  let ?second = "request_record p (pt_persona q) j persona later"
  have "ps_relationships a = rel_insert (pt_persona q) ?second
      (rel_modify (pt_persona q) (\<lambda>r. r\<lparr>rl_our_did := pt_did p, rl_task_id := i\<rparr>) ?first)"
    using again by (auto simp: prepare_submit_def result_simps create_applied_def rel_get_insert request_record_def queue_task_def)
  also have "\<dots> = rel_insert (pt_persona q) ?second (ps_relationships a0)"
  proof -
    have "AList.update k y (update_first (\<lambda>(j, _). j = k) (\<lambda>(j, r). (j, f r)) (AList.update k x es)) = AList.update k y es"
      for k x y f and es :: "(string \<times> peer_relationship) list"
      by (induction es) auto
    then show ?thesis by (simp add: rel_insert_def rel_modify_def)
  qed
  finally have a: "ps_relationships a = rel_insert (pt_persona q) ?second (ps_relationships a0)" .
  have none: "\<forall>(k, x) \<in> set (AList.update (pt_persona q) ?second (rs_map (ps_relationships a0))). rl_task_id x \<noteq> i"
  proof
    fix e
    assume "e \<in> set (AList.update (pt_persona q) ?second (rs_map (ps_relationships a0)))"
    with set_alist_update have "e = (pt_persona q, ?second) \<or> e \<in> set (rs_map (ps_relationships a0))" by fastforce
    with j ready_facts(5) [OF r] show "case e of (k, x) \<Rightarrow> rl_task_id x \<noteq> i"
      by (auto simp: request_record_def fresh_thread_def)
  qed
  then have "awaiting (ps_relationships a) i RequestSent (pt_persona q) = None"
    by (auto simp: a awaiting_def rel_insert_def split: option.split dest: find_SomeD)
  then show "inbound w arrived (build_accept_message w ''answer'' 0 (pt_persona q) (pt_persona p) (pt_did q) i (pt_proofs q))
      (pt_persona q) (pt_persona p) persona later a = Inr (False, a)"
    using codec by (simp add: inbound_def build_accept_message_def build_didcomm_message_def inbound_accept_def
        faithful_codec_def require_thid_def del: message_type_url.simps)
  have "(i, x) \<in> set (AList.update i x ts)" for x and ts :: tasks
    by (induction ts) auto
  from imageI [OF this, of snd] have mem: "x \<in> set (map snd (AList.update i x ts))" for x and ts :: tasks
    by simp
  have "list_ex (\<lambda>t. case tk_type t of RelationshipRequestInbound from _ _ \<Rightarrow> from = pt_persona p | _ \<Rightarrow> False)
      (map snd (ps_tasks (queue_task i (RelationshipRequestInbound (pt_persona p) (pt_persona q) (sent_body p)) persona now b0)))"
    unfolding list_ex_iff queue_task_def new_task_for_def by (simp del: set_map) (rule bexI [OF _ mem], simp)
  then show "relationship_request_admissible j (pt_persona p)
      (queue_task i (RelationshipRequestInbound (pt_persona p) (pt_persona q) (sent_body p)) persona now b0) \<noteq> Inr ()"
    by (simp add: relationship_request_admissible_def result_simps del: list_ex_iff)
qed

text \<open>
  Two requests that cross are both refused: each side already holds its own request to the other as a
  relationship, so neither queues the other's, and no message is left that could establish either.
\<close>

theorem crossing_requests_refused:
  assumes "prepare_submit (pt_persona q) (pt_persona p) i persona now a0 = Inr a"
    and "prepare_submit (pt_persona p) (pt_persona q) j persona now b0 = Inr b"
    and codec: "faithful_codec w"
  shows "inbound w arrived (create_request_message w 0 j (pt_persona q) (pt_persona p) None (pt_did q) None (pt_proofs q))
      (pt_persona q) (pt_persona p) persona later a = Inr (False, a) \<and>
    inbound w arrived' (create_request_message w 0 i (pt_persona p) (pt_persona q) None (pt_did p) None (pt_proofs p))
      (pt_persona p) (pt_persona q) persona later b = Inr (False, b)"
proof -
  have held: "relationship_request_admissible k other ps' \<noteq> Inr ()"
    if "prepare_submit other ours i' persona now ps = Inr ps'" for other ours i' ps ps' k
    using that by (auto simp: prepare_submit_def relationship_request_admissible_def result_simps rel_get_insert)
  have refused: "inbound w arr (create_request_message w 0 k other ours None did None pf) other recipient persona later ps' = Inr (False, ps')"
    if "prepare_submit other ours i' persona now ps = Inr ps'" for other ours i' ps ps' k did pf arr recipient
    using held [OF that, of k] codec
    by (auto simp: inbound_def create_request_message_def build_didcomm_message_def inbound_request_def faithful_codec_def
        simp del: message_type_url.simps split: sum.split)
  from refused [OF assms(1)] refused [OF assms(2)] show ?thesis by blast
qed

definition example_second :: peer_state where
  "example_second = (case prepare_submit ''did:web:bob'' ''did:web:alice'' ''t2'' None 5
      (create_applied True ''did:web:bob'' ''did:peer:2a'' ''t1'' None 0
        (nobody\<lparr>ps_relationships := rel_insert ''did:web:bob'' (request_record example_asker ''did:web:bob'' ''t1'' None 0) no_relationships\<rparr>)) of
     Inr ps \<Rightarrow> ps | Inl _ \<Rightarrow> nobody)"

theorem second_request_loses_first_witness:
  "inbound example_relation_sdk nobody
     (build_accept_message example_relation_sdk ''answer'' 0 ''did:web:bob'' ''did:web:alice'' ''did:peer:2b'' ''t1'' (pt_proofs example_answerer))
     ''did:web:bob'' ''did:web:alice'' None 5 example_second = Inr (False, example_second)"
proof -
  have names: "pt_persona example_asker = ''did:web:alice''" "pt_did example_asker = ''did:peer:2a''"
    "pt_persona example_answerer = ''did:web:bob''" "pt_did example_answerer = ''did:peer:2b''"
    by (simp_all add: example_asker_def example_answerer_def)
  have fresh: "fresh_thread ''t2'' (ps_relationships nobody)"
    by (simp add: fresh_thread_def nobody_def no_relationships_def)
  have empty: "ps_relationships nobody = no_relationships" by (simp add: nobody_def)
  have again: "prepare_submit ''did:web:bob'' ''did:web:alice'' ''t2'' None 5
      (create_applied True ''did:web:bob'' ''did:peer:2a'' ''t1'' None 0
        (nobody\<lparr>ps_relationships := rel_insert ''did:web:bob'' (request_record example_asker ''did:web:bob'' ''t1'' None 0) no_relationships\<rparr>))
    = Inr example_second"
    by code_simp
  from second_request_loses_first [OF example_ready example_codec _ fresh, unfolded names empty, OF _ again]
  show ?thesis by simp
qed

definition asked_bob :: peer_state where
  "asked_bob = nobody\<lparr>ps_relationships := rel_insert ''did:web:bob''
     (request_record example_asker ''did:web:bob'' ''t1'' None 0) no_relationships\<rparr>"

definition asked_alice :: peer_state where
  "asked_alice = nobody\<lparr>ps_relationships := rel_insert ''did:web:alice''
     (request_record example_answerer ''did:web:alice'' ''t2'' None 0) no_relationships\<rparr>"

theorem crossing_requests_refused_witness:
  "inbound example_relation_sdk asked_alice
     (create_request_message example_relation_sdk 0 ''t1'' ''did:web:alice'' ''did:web:bob'' None ''did:peer:2a'' None (pt_proofs example_asker))
     ''did:web:alice'' ''did:web:bob'' None 3 asked_alice = Inr (False, asked_alice)"
proof -
  have names: "pt_persona example_asker = ''did:web:alice''" "pt_did example_asker = ''did:peer:2a''"
    "pt_persona example_answerer = ''did:web:bob''" "pt_did example_answerer = ''did:peer:2b''"
    by (simp_all add: example_asker_def example_answerer_def)
  have "prepare_submit ''did:web:bob'' ''did:web:alice'' ''t1'' None 0 nobody = Inr asked_bob"
    "prepare_submit ''did:web:alice'' ''did:web:bob'' ''t2'' None 0 nobody = Inr asked_alice" by code_simp+
  then show ?thesis
    using crossing_requests_refused [of example_answerer example_asker "''t1''" None 0 nobody asked_bob "''t2''" nobody asked_alice
        example_relation_sdk, OF _ _ example_codec]
    by (simp add: names)
qed

section \<open>Two gaps in the arms\<close>

text \<open>
  A pong removes whatever task its thread names, of any kind and from any sender: an inbound request waiting for
  the user goes as well as the ping it should answer.
\<close>

theorem pong_removes_any_task:
  assumes "dm_type m = message_type_url MsgTrustPong" "dm_thid m = Some i"
  shows "\<exists>ps'. inbound w arrived m sender recipient persona now ps = Inr (True, ps') \<and> get_by_id (ps_tasks ps') i = None \<and>
    (\<forall>j. j \<noteq> i \<longrightarrow> get_by_id (ps_tasks ps') j = get_by_id (ps_tasks ps) j)"
  using assms by (simp add: inbound_def inbound_pong_def task_get_remove del: message_type_url.simps)

theorem pong_removes_any_task_witness:
  "request_in_task ''t1'' example_waiting \<noteq> None \<and>
   (\<exists>ps'. inbound example_relation_sdk nobody (example_request\<lparr>dm_type := message_type_url MsgTrustPong, dm_thid := Some ''t1''\<rparr>) ''did:web:eve'' ''did:web:bob''
      None 0 example_waiting = Inr (True, ps') \<and> get_by_id (ps_tasks ps') ''t1'' = None)"
proof
  show "request_in_task ''t1'' example_waiting \<noteq> None" by code_simp
  show "\<exists>ps'. inbound example_relation_sdk nobody (example_request\<lparr>dm_type := message_type_url MsgTrustPong, dm_thid := Some ''t1''\<rparr>) ''did:web:eve'' ''did:web:bob''
      None 0 example_waiting = Inr (True, ps') \<and> get_by_id (ps_tasks ps') ''t1'' = None"
    using pong_removes_any_task [of "example_request\<lparr>dm_type := message_type_url MsgTrustPong, dm_thid := Some ''t1''\<rparr>" "''t1''"
        example_relation_sdk nobody "''did:web:eve''" "''did:web:bob''" None 0 example_waiting]
    by (simp del: message_type_url.simps) blast
qed

text \<open>
  A received credential is filed under its issuer, and the issuer is the relationship's own DID: for a
  relationship with one, what is filed under the other's persona - where the program looks - stays as it was, and
  removing the relationship leaves the credential behind.
\<close>

theorem received_vrc_misfiled:
  assumes taken: "accept_vrc i ps = Inr ps'"
    and task: "get_by_id (ps_tasks ps) i = Some x" "tk_type x = VRCIssued vrc"
    and pairwise: "dc_issuer vrc \<noteq> p_did"
  shows "vrcs_get (ps_received ps') p_did = vrcs_get (ps_received ps) p_did \<and>
    vrcs_get (ps_received (remove_applied p_did ps')) (dc_issuer vrc) \<noteq> None"
proof -
  from taken obtain v where "vrcs_insert (dc_issuer vrc) vrc (ps_received ps) = Inr v"
    and ps': "ps' = ps\<lparr>ps_received := v, ps_tasks := snd (tasks_remove i (ps_tasks ps))\<rparr>"
    by (rule accept_vrcD) (use task in auto)
  then have v: "vrcs_get v p_did = vrcs_get (ps_received ps) p_did" "vrcs_get v (dc_issuer vrc) \<noteq> None"
    using pairwise by (auto simp: vrcs_insert_def Let_def vrcs_get_def update_conv' split: option.splits)
  with pairwise show ?thesis
    by (simp add: ps' remove_applied_def rel_remove_def vrcs_get_remove del: not_None_eq)
qed

definition example_vrc :: dtg_credential where
  "example_vrc = \<lparr>dc_issuer = ''did:peer:2a'', dc_proof_value = Some ''z1'', dc_document = JNull\<rparr>"

theorem received_vrc_misfiled_witness:
  "\<exists>ps'. accept_vrc ''t3'' (queue_task ''t3'' (VRCIssued example_vrc) None 0 example_established) = Inr ps' \<and>
     vrcs_get (ps_received ps') ''did:web:alice'' = None \<and>
     vrcs_get (ps_received (remove_applied ''did:web:alice'' ps')) ''did:peer:2a'' \<noteq> None"
proof -
  let ?ps = "queue_task ''t3'' (VRCIssued example_vrc) None 0 example_established"
  have "isl (accept_vrc ''t3'' ?ps) = False" by code_simp
  then obtain ps' where taken: "accept_vrc ''t3'' ?ps = Inr ps'" by (cases "accept_vrc ''t3'' ?ps") auto
  have "get_by_id (ps_tasks ?ps) ''t3'' = Some \<lparr>tk_id = ''t3'', tk_type = VRCIssued example_vrc, tk_created = 0, tk_our_persona = None\<rparr>"
    by (simp add: queue_task_def task_get_new)
  from received_vrc_misfiled [OF taken this, of example_vrc "''did:web:alice''"] taken show ?thesis
    by (simp add: example_vrc_def queue_task_def example_established_def example_accepted_def accept_applied_def
        example_waiting_def nobody_def vrcs_get_def vrcs_empty_def)
qed

end
