(* ===== verification/InboundExamples.thy ===== *)
theory InboundExamples
  imports InboundFlow MembershipFlow PeerHandshake
begin

text \<open>
  The inbound loop on a concrete member of one community: the properties of \<open>InboundFlow\<close> at concrete runs, and two
  places where the order of one sender's messages is not kept.
\<close>

section \<open>A member's loop\<close>

definition example_dispatch_sdk :: dispatch_sdk where
  "example_dispatch_sdk = \<lparr>dk_checks = \<lparr>xk_credential = example_credentials_sdk, xk_document = example_sdk,
       xk_renew = example_renew_sdk, xk_relation = example_relation_sdk\<rparr>,
     dk_credential_issue = ''issue'', dk_community_answers = [''answer''], dk_community_replies = [''status''],
     dk_envelope = ''envelope'', dk_same_reference = (=), dk_body_size = (\<lambda>_. 0), dk_message_size = (\<lambda>_. Some 100)\<rparr>"

definition example_config :: dispatch_config where
  "example_config = \<lparr>cf_account = example_joined, cf_peers = nobody, cf_renewals = [], cf_awaiting = [], cf_queried = [],
     cf_applied = [], cf_identities = [''did:me''], cf_active = ''did:me''\<rparr>"

text \<open>A handler that takes note of the sender of what it handles, as a vetting question of its own would.\<close>

definition example_handler :: handler where
  "example_handler pre m sender recipient now c = c\<lparr>cf_queried := sender # cf_queried c\<rparr>"

definition example_inbound :: "string \<Rightarrow> string \<Rightarrow> string \<Rightarrow> didcomm_message" where
  "example_inbound i ty sender = \<lparr>dm_id = i, dm_type = ty, dm_from = Some sender, dm_to = Some [''did:me''], dm_thid = None,
     dm_body = JNull, dm_created = None, dm_expires = None\<rparr>"

definition example_loop :: inbound_loop where
  "example_loop = start_loop example_dispatch_sdk example_handler 0 0 example_config []"

abbreviation example_receives :: "didcomm_message \<Rightarrow> string \<Rightarrow> inbound_loop \<Rightarrow> inbound_loop" where
  "example_receives m sender st \<equiv> receive example_dispatch_sdk example_handler 0 0 (Some sender) DidComm None m st"

lemma example_fields [simp]:
  "dm_id (example_inbound i ty s) = i" "dm_type (example_inbound i ty s) = ty" "dm_from (example_inbound i ty s) = Some s"
  "dk_envelope example_dispatch_sdk = ''envelope''" "dk_body_size example_dispatch_sdk v = 0"
  "dk_message_size example_dispatch_sdk m = Some 100" "cf_account example_config = example_joined"
  "cf_peers example_config = nobody"
  "recipient_of example_config (example_inbound i ty s) = ''did:me''" "check_message_age secs (example_inbound i ty s) = Inr ()"
  by (simp_all add: example_inbound_def example_dispatch_sdk_def example_config_def recipient_of_def check_message_age_def)

lemma example_member: "memberships_for example_joined ''did:c'' \<noteq> []"
  by code_simp

lemma example_types: "message_type_of ''ping'' = None" "\<not> is_elections_reply_type ''ping''" "\<not> is_capability_reply_type ''ping''"
  "\<not> is_git_ns_reply_type ''ping''" "\<not> is_rooms_reply_type ''ping''"
  by code_simp+

text \<open>A status reply of the community is checked as its operational document; a message of no known type needs no check.\<close>

lemma example_status_job:
  "verification_job example_dispatch_sdk now example_config (example_inbound i ''status'' ''did:c'') ''did:c'' r
     = Some (operational_check example_config (example_inbound i ''status'' ''did:c'') ''did:c'')"
  using example_member by (simp add: verification_job_def Let_def example_dispatch_sdk_def example_renew_sdk_def)

lemma example_ping_job:
  "verification_job example_dispatch_sdk now example_config (example_inbound i ''ping'' s) s r = None"
  using example_types by (simp add: verification_job_def relation_job_def Let_def example_dispatch_sdk_def example_renew_sdk_def)

lemma example_unopened [simp]: "ty \<noteq> ''envelope'' \<Longrightarrow> open_didcomm_envelope example_dispatch_sdk (example_inbound i ty s) = None"
  by (simp add: open_didcomm_envelope_def)

lemma example_unseen [simp]: "observe i seen_new = (False, seen_new\<lparr>sm_order := [i], sm_set := {i}\<rparr>)"
  by (simp add: observe_def seen_new_def seen_with_capacity_def evict_oldest_def)

lemma example_loop_state:
  "example_loop = \<lparr>il_config = example_config, il_seen = seen_new, il_verifier = new_verifier, il_kept = [], il_backlog = []\<rparr>"
  by (simp add: example_loop_def start_loop_def restore_backlog_def)

text \<open>The loop once a status reply of the community waits on its check.\<close>

definition example_status :: deferred where
  "example_status = \<lparr>df_message = example_inbound ''s1'' ''status'' ''did:c'',
     df_job = operational_check example_config (example_inbound ''s1'' ''status'' ''did:c'') ''did:c''\<rparr>"

definition example_busy :: inbound_loop where
  "example_busy = example_receives (example_inbound ''s1'' ''status'' ''did:c'') ''did:c'' example_loop"

lemma example_busy_state:
  "example_busy = \<lparr>il_config = example_config, il_seen = seen_new\<lparr>sm_order := [''s1''], sm_set := {''s1''}\<rparr>,
     il_verifier = \<lparr>vq_priority = [], vq_other = [], vq_senders = [(''did:c'', 1, PriorityLane)],
        vq_running = Some \<lparr>qd_deferred = example_status, qd_transport = DidComm, qd_sender = ''did:c''\<rparr>, vq_request_checks = []\<rparr>,
     il_kept = [\<lparr>km_sender = ''did:c'', km_message = example_inbound ''s1'' ''status'' ''did:c'', km_transport = DidComm\<rparr>],
     il_backlog = []\<rparr>"
  using example_member
  by (simp add: example_busy_def example_loop_state receive_def process_inbound_def triage_def triage_sender_def Let_def
      example_status_job queue_for_check_def lane_for_def enqueue_def sender_slot_def new_verifier_def lane_queue_def
      lane_cap_def max_per_sender_def max_priority_queued_def admit_request_def operational_check_def push_queued_def
      start_next_def keep_message_def max_kept_deferred_def max_kept_deferred_bytes_def example_status_def)

lemma example_busy_run: "(loop_step example_dispatch_sdk example_handler)\<^sup>*\<^sup>* example_loop example_busy"
  unfolding example_busy_def by (rule r_into_rtranclp, rule arrives)

theorem kept_messages_in_hand_witness:
  "kept_key (hd (il_kept example_busy)) \<in> kept_key ` set (il_backlog example_busy) \<union> held_keys (il_verifier example_busy) \<and>
   map kept_key (il_kept example_busy) = [(''did:c'', ''s1'')]"
  using kept_messages_in_hand [OF example_busy_run [unfolded example_loop_def]]
  by (simp add: example_busy_state kept_key_def del: Un_iff)

definition example_handled :: inbound_loop where
  "example_handled = the (receive_checked example_dispatch_sdk example_handler 0 0 TimedOut example_busy)"

lemma example_handled_state:
  "receive_checked example_dispatch_sdk example_handler 0 0 TimedOut example_busy = Some example_handled"
  "il_kept example_handled = []" "cf_queried (il_config example_handled) = [''did:c'']"
  by (simp_all add: example_handled_def receive_checked_def example_busy_state finish_check_def receive_def process_inbound_def
      triage_def triage_sender_def Let_def example_status_def operational_check_def forget_kept_def example_handler_def
      example_config_def)

theorem kept_until_handled_witness:
  "\<exists>e f v. finish_check e (il_verifier example_busy) = Some (f, v) \<and> fi_sender f = ''did:c'' \<and> dm_id (fi_message f) = ''s1''"
proof -
  let ?k = "\<lparr>km_sender = ''did:c'', km_message = example_inbound ''s1'' ''status'' ''did:c'', km_transport = DidComm\<rparr>"
  have step: "loop_step example_dispatch_sdk example_handler example_busy example_handled"
    by (rule checked) (rule example_handled_state(1))
  have "?k \<in> set (il_kept example_busy)" "?k \<notin> set (il_kept example_handled)"
    "\<forall>b \<in> set (il_backlog example_busy) \<union> set (il_kept example_busy). \<not> unreadable example_dispatch_sdk (km_message b)"
    by (simp_all add: example_busy_state example_handled_state(2) unreadable_def)
  with kept_until_handled [OF example_busy_run [unfolded example_loop_def] step, of ?k] show ?thesis by fastforce
qed

lemma example_ping_triage:
  "triage example_dispatch_sdk 0 0 example_config (NewArrival (\<lambda>_. False)) (example_inbound ''p1'' ''ping'' ''did:x'') seen_new
     = (Dispatch None (example_inbound ''p1'' ''ping'' ''did:x'') ''did:x'' ''did:me'', seen_new\<lparr>sm_order := [''p1''], sm_set := {''p1''}\<rparr>)"
  by (simp add: triage_def triage_sender_def Let_def example_ping_job)

theorem dispatched_with_its_check_witness:
  "verification_job example_dispatch_sdk 0 example_config (example_inbound ''p1'' ''ping'' ''did:x'') ''did:x'' ''did:me'' = None"
  using dispatched_with_its_check [OF example_ping_triage] by simp

theorem nothing_overtakes_witness:
  "il_config (example_receives (example_inbound ''s2'' ''ping'' ''did:c'') ''did:c'' example_busy) = il_config example_busy"
proof -
  have "loop_ok (il_backlog example_loop) example_loop"
    using start_loop_ok [of "[]" example_dispatch_sdk example_handler 0 0 example_config] by (simp add: example_loop_def)
  from kept.inv_steps [OF example_busy_run this] have "verifier_ok (il_verifier example_busy)" by (simp add: loop_ok_def)
  moreover have "is_waiting_on ''did:c'' (il_verifier example_busy)" by (simp add: example_busy_state is_waiting_on_def)
  ultimately show ?thesis using nothing_overtakes example_fields(3) by blast
qed

theorem relation_checks_agree_witness:
  "case relation_job example_relation_sdk nobody example_request ''did:web:alice'' ''did:web:bob'' of
     Some job \<Rightarrow> run_check (dk_checks example_dispatch_sdk) 0 job
         = PreDidBinding (request_check example_relation_sdk example_request ''did:web:alice'' ''did:web:bob'' nobody)
   | None \<Rightarrow> request_check example_relation_sdk example_request ''did:web:alice'' ''did:web:bob'' nobody = Inl BindingNotChecked"
proof -
  have t: "message_type_of (dm_type example_request) = Some MsgRelationshipRequest" by code_simp
  have x: "example_relation_sdk = xk_relation (dk_checks example_dispatch_sdk)" by (simp add: example_dispatch_sdk_def)
  from relation_checks_agree [OF t x, where ps = nobody and sender = "''did:web:alice''" and recipient = "''did:web:bob''" and now = 0] show ?thesis
    by (auto split: option.splits)
qed

section \<open>Where the order of one sender is not kept\<close>

text \<open>
  A message that only waited its turn and turns out, once its turn has come, to need a check of its own is queued again
  behind the sender's later messages: those are handled before it.
\<close>

theorem recheck_goes_last:
  assumes ok: "verifier_ok (il_verifier st)" and fin: "finish_check e (il_verifier st) = Some (f, v')" "fi_pre f = PreBarrier"
    and read: "dm_from (fi_message f) = Some (fi_sender f)" "\<not> unreadable sdk (fi_message f)"
    and job: "verification_job sdk now (il_config st)
        (case open_didcomm_envelope sdk (fi_message f) of Some x \<Rightarrow> x | None \<Rightarrow> fi_message f)
        (fi_sender f) (recipient_of (il_config st) (fi_message f)) = Some job" "\<not> is_relationship_request job"
    and room: "\<And>l. \<not> is_full_for (fi_sender f) l v'" and "il_backlog st = []"
  shows "\<exists>st'. receive_checked sdk handle now secs e st = Some st' \<and> il_config st' = il_config st \<and>
    waiting_for (il_verifier st) (fi_sender f) = (fi_message f, fi_transport f) # waiting_for v' (fi_sender f) \<and>
    waiting_for (il_verifier st') (fi_sender f) = waiting_for v' (fi_sender f) @ [(fi_message f, fi_transport f)]"
proof -
  let ?m = "fi_message f" and ?s = "fi_sender f" and ?st1 = "st\<lparr>il_verifier := v'\<rparr>"
  let ?d = "\<lparr>df_message = ?m, df_job = job\<rparr>"
  have v': "verifier_ok v'" and head: "waiting_for (il_verifier st) ?s = (?m, fi_transport f) # waiting_for v' ?s"
    by (rule finish_check_facts [OF ok fin(1)]; simp add: waiting_for_def carried_def)+
  have aside: "process_inbound sdk handle now secs (ReturningArrival (fi_pre f)) ?m ?st1 = (Some ?d, ?st1)"
    using read fin(2) job(1) by (auto simp: process_inbound_def triage_def triage_sender_def Let_def unreadable_def split: option.splits)
  obtain lane where lane: "lane_for (cf_account (il_config st)) (Some ?s) (Some ?s) = Some (lane, ?s)" by (simp add: lane_for_def)
  obtain r v2 where q: "enqueue ?d (fi_transport f) ?s lane now v' = (r, v2)" by fastforce
  have r: "\<exists>l. r = Inr l"
    using q room [of lane] job(2)
    by (auto simp: enqueue_def is_full_for_def admit_request_def Let_def not_le split: prod.splits if_splits)
  obtain st2 where st2: "snd (queue_for_check sdk now ?d (fi_transport f) (Some ?s) (forget_kept (Some ?s) (dm_id ?m) ?st1)) = st2"
      "il_verifier st2 = v2" "il_config st2 = il_config st" "il_backlog st2 = []"
    using q r lane read(1) \<open>il_backlog st = []\<close> by (auto simp: queue_for_check_def Let_def)
  have "receive_checked sdk handle now secs e st = Some st2"
    using fin(1) aside st2 by (simp add: receive_checked_def receive_def Let_def)
  moreover have "waiting_for v2 ?s = waiting_for v' ?s @ [(?m, fi_transport f)]"
    using enqueue_held [OF v' q, of ?s] r by (simp add: waiting_for_def carried_def)
  ultimately show ?thesis using st2 head by auto
qed

text \<open>
  A message kept from before a restart that does not fit yet holds nothing back: a later message of its sender that
  needs no check is handled at once, before it.
\<close>

theorem backlog_overtaken:
  assumes "b \<in> set (il_backlog st)" "km_sender b = s" "\<not> is_waiting_on s (il_verifier st)"
    and "dm_from m = Some s" "\<not> unreadable sdk m" "check_message_age secs m = Inr ()" "dm_id m \<notin> sm_set (il_seen st)"
    and "verification_job sdk now (il_config st) (case open_didcomm_envelope sdk m of Some x \<Rightarrow> x | None \<Rightarrow> m) s
        (recipient_of (il_config st) m) = None"
  shows "\<exists>msg recipient. il_config (receive sdk handle now secs (Some s) t None m st) = handle None msg s recipient now (il_config st) \<and>
    b \<in> set (il_backlog (receive sdk handle now secs (Some s) t None m st))"
  using assms
  by (auto simp: receive_def process_inbound_def triage_def triage_sender_def unreadable_def observe_def Let_def split: option.splits)

end
