(* ===== verification/Queries.thy ===== *)
theory Queries
  imports Book Messaging
begin

text \<open>
  Questions put to a community (\<open>openvtc-core/src/vetting/queries.rs\<close>), the record of the profile a vetter sent it
  (the book's part of \<open>registry.rs\<close>), and how a community's vetters vet, as far as its manifests said
  (\<open>mode.rs\<close>): a reading with its date, kept apart from the last failure to read.
\<close>

section \<open>Questions\<close>

definition query_timeout :: duration where "query_timeout = seconds 30"

text \<open>\<open>TOKENS_TICK_NOT_YET\<close>, \<open>TOKENS_ALREADY_SERVED\<close>, \<open>TOKENS_OVER_QUOTA\<close>: codes the generated task declares.\<close>

record refusal_codes =
  rf_tick_not_yet :: string
  rf_already_served :: string
  rf_over_quota :: string

definition refusal_is_news :: "refusal_codes \<Rightarrow> query_kind \<Rightarrow> string \<Rightarrow> bool" where
  "refusal_is_news codes k code \<longleftrightarrow>
     \<not> (k = PcsTokensQuery \<and> (code = rf_tick_not_yet codes \<or> code = rf_already_served codes))"

fun describe_query :: "query_kind \<Rightarrow> string" where
  "describe_query ManifestQuery = ''its vetting requirements''"
| "describe_query VetterListQuery = ''its vetter directory''"
| "describe_query VetterProfileQuery = ''your vetter profile''"
| "describe_query VetterResendQuery = ''your vetter credential''"
| "describe_query PcsRootQuery = ''your hidden-vetting credential''"
| "describe_query PcsTokensQuery = ''your attestation tokens''"
| "describe_query PcsEventModeQuery = ''your place at the event''"
| "describe_query PcsChallengeQuery = ''the challenge for your submission''"
| "describe_query PcsBindingQuery = ''the hidden-vetting key it holds for you''"
| "describe_query WalletSessionStartQuery = ''a session for your wallet''"
| "describe_query WalletSessionStatusQuery = ''your wallet session''"

definition ask :: "community_query \<Rightarrow> vetting_book \<Rightarrow> vetting_book" where
  "ask q b = b\<lparr>vb_queries := vb_queries b @ [q]\<rparr>"

definition asked :: "string \<Rightarrow> vetting_book \<Rightarrow> bool" where
  "asked community b \<longleftrightarrow> list_ex (\<lambda>q. cq_community q = community) (vb_queries b)"

definition waiting_on :: "string \<Rightarrow> query_kind \<Rightarrow> vetting_book \<Rightarrow> community_query option" where
  "waiting_on community k b = List.find (\<lambda>q. cq_community q = community \<and> cq_kind q = k) (vb_queries b)"

text \<open>The question a reply threaded on \<open>thread\<close> answers; a kind, when given, must match too.\<close>

definition answers_query :: "string \<Rightarrow> string \<Rightarrow> query_kind option \<Rightarrow> community_query \<Rightarrow> bool" where
  "answers_query community thread k q \<longleftrightarrow>
     cq_community q = community \<and> cq_document_id q = thread \<and> (case k of None \<Rightarrow> True | Some k \<Rightarrow> cq_kind q = k)"

definition take_query ::
  "string \<Rightarrow> string \<Rightarrow> query_kind option \<Rightarrow> vetting_book \<Rightarrow> vetting_book \<times> community_query option" where
  "take_query community thread k b =
     (case List.find (answers_query community thread k) (vb_queries b) of
        None \<Rightarrow> (b, None)
      | Some q \<Rightarrow> (b\<lparr>vb_queries := remove_first (answers_query community thread k) (vb_queries b)\<rparr>, Some q))"

definition about_manifest :: "string \<Rightarrow> community_query \<Rightarrow> bool" where
  "about_manifest community q \<longleftrightarrow> cq_community q = community \<and> cq_kind q = ManifestQuery"

definition take_manifest_queries ::
  "string \<Rightarrow> string option \<Rightarrow> vetting_book \<Rightarrow> vetting_book \<times> community_query list" where
  "take_manifest_queries community thread b =
     (let (b, threaded) = (case thread of
                             None \<Rightarrow> (b, None)
                           | Some t \<Rightarrow> take_query community t (Some ManifestQuery) b)
      in (b\<lparr>vb_queries := filter (\<lambda>q. \<not> about_manifest community q) (vb_queries b)\<rparr>,
          (case threaded of None \<Rightarrow> [] | Some q \<Rightarrow> [q]) @ filter (about_manifest community) (vb_queries b)))"

definition forget_query :: "string \<Rightarrow> vetting_book \<Rightarrow> vetting_book \<times> community_query option" where
  "forget_query document_id b =
     (case List.find (\<lambda>q. cq_document_id q = document_id) (vb_queries b) of
        None \<Rightarrow> (b, None)
      | Some q \<Rightarrow> (b\<lparr>vb_queries := remove_first (\<lambda>q. cq_document_id q = document_id) (vb_queries b)\<rparr>, Some q))"

definition expire_queries ::
  "instant \<Rightarrow> duration \<Rightarrow> vetting_book \<Rightarrow> vetting_book \<times> community_query list" where
  "expire_queries now after b =
     (b\<lparr>vb_queries := filter (\<lambda>q. \<not> after \<le> now - cq_sent_at q) (vb_queries b)\<rparr>,
      filter (\<lambda>q. after \<le> now - cq_sent_at q) (vb_queries b))"

section \<open>The profile a vetter sent\<close>

definition profile_of :: "string \<Rightarrow> persona_id \<Rightarrow> vetter_profile_record \<Rightarrow> bool" where
  "profile_of community persona r \<longleftrightarrow> pf_community r = community \<and> pf_persona r = persona"

definition vetter_profile :: "string \<Rightarrow> persona_id \<Rightarrow> vetting_book \<Rightarrow> vetter_profile_record option" where
  "vetter_profile community persona b = List.find (profile_of community persona) (vb_vetter_profiles b)"

definition record_profile_sent ::
  "string \<Rightarrow> persona_id \<Rightarrow> json \<Rightarrow> instant \<Rightarrow> vetting_book \<Rightarrow> vetting_book \<times> vetter_profile_record option" where
  "record_profile_sent community persona body now b =
     (let r = \<lparr>pf_community = community, pf_persona = persona, pf_profile = body, pf_state = ProfileSent now\<rparr>
      in case vetter_profile community persona b of
           Some existing \<Rightarrow>
             (b\<lparr>vb_vetter_profiles := update_first (profile_of community persona) (\<lambda>_. r) (vb_vetter_profiles b)\<rparr>,
              Some existing)
         | None \<Rightarrow> (b\<lparr>vb_vetter_profiles := vb_vetter_profiles b @ [r]\<rparr>, None))"

definition restore_profile ::
  "string \<Rightarrow> persona_id \<Rightarrow> vetter_profile_record option \<Rightarrow> vetting_book \<Rightarrow> vetting_book" where
  "restore_profile community persona previous b =
     b\<lparr>vb_vetter_profiles := filter (\<lambda>r. \<not> profile_of community persona r) (vb_vetter_profiles b) @
        (case previous of None \<Rightarrow> [] | Some r \<Rightarrow> [r])\<rparr>"

definition set_profile_state ::
  "string \<Rightarrow> persona_id \<Rightarrow> profile_state \<Rightarrow> vetting_book \<Rightarrow> vetting_book \<times> bool" where
  "set_profile_state community persona st b =
     (b\<lparr>vb_vetter_profiles := update_first (profile_of community persona) (\<lambda>r. r\<lparr>pf_state := st\<rparr>)
          (vb_vetter_profiles b)\<rparr>,
      vetter_profile community persona b \<noteq> None)"

definition on_profile_stored ::
  "string \<Rightarrow> persona_id \<Rightarrow> bool \<Rightarrow> instant \<Rightarrow> vetting_book \<Rightarrow> vetting_book \<times> bool" where
  "on_profile_stored community persona listed updated_at b =
     set_profile_state community persona (ProfileStored listed updated_at) b"

definition on_profile_refused ::
  "string \<Rightarrow> persona_id \<Rightarrow> string \<Rightarrow> instant \<Rightarrow> vetting_book \<Rightarrow> vetting_book \<times> bool" where
  "on_profile_refused community persona code now b =
     set_profile_state community persona (ProfileRefused code now) b"

text \<open>Where we stand as a vetter, lapsed grants included, ordered by community and persona.\<close>

record vetter_standing =
  st_community :: string
  st_persona :: persona_id
  st_valid_until :: "instant option"
  st_live :: bool
  st_expiring :: bool
  st_profile :: "profile_state option"

definition standing_of :: "instant \<Rightarrow> vetting_book \<Rightarrow> vetter_grant \<Rightarrow> vetter_standing" where
  "standing_of now b g =
     \<lparr>st_community = gr_community g, st_persona = gr_persona g, st_valid_until = gr_valid_until g,
      st_live = grant_is_live g now, st_expiring = grant_is_expiring g now,
      st_profile = map_option pf_state (vetter_profile (gr_community g) (gr_persona g) b)\<rparr>"

definition vetter_standing :: "instant \<Rightarrow> vetting_book \<Rightarrow> vetter_standing list" where
  "vetter_standing now b =
     sort_key (\<lambda>s. (st_community s, st_persona s)) (map (standing_of now b) (vb_vetter_grants b))"

section \<open>How a community vets\<close>

definition mode_ttl :: duration where "mode_ttl = minutes 10"
definition mode_reask_after :: duration where "mode_reask_after = minutes 2"
definition manifest_min_gap :: duration where "manifest_min_gap = seconds 30"
definition max_mode_switches :: nat where "max_mode_switches = 16"

fun mode_words :: "vetter_mode \<Rightarrow> string" where
  "mode_words NamedMode = ''named vetting''"
| "mode_words PcsZkpMode = ''PCS ZKP''"

record mode_reading =
  rd_read :: "mode_read option"
  rd_failed :: "(mode_failure \<times> instant) option"
  rd_inferred :: bool

definition reading_mode :: "mode_reading \<Rightarrow> vetter_mode option" where
  "reading_mode r = map_option mr_mode (rd_read r)"

definition is_stale :: "mode_reading \<Rightarrow> instant \<Rightarrow> bool" where
  "is_stale r now \<longleftrightarrow> (case rd_read r of None \<Rightarrow> True | Some m \<Rightarrow> mode_ttl < now - mr_read_at m)"

definition read_since :: "mode_reading \<Rightarrow> instant \<Rightarrow> vetter_mode option" where
  "read_since r since =
     (case rd_read r of
        None \<Rightarrow> None
      | Some m \<Rightarrow> if \<not> rd_inferred r \<and> since \<le> mr_read_at m then Some (mr_mode m) else None)"

definition failed_since :: "mode_reading \<Rightarrow> instant \<Rightarrow> mode_failure option" where
  "failed_since r since =
     (case rd_failed r of None \<Rightarrow> None | Some (f, at) \<Rightarrow> if since \<le> at then Some f else None)"

definition decimal_int :: "int \<Rightarrow> string" where
  "decimal_int n = (if n < 0 then CHR ''-'' # decimal (nat (- n)) else decimal (nat n))"

text \<open>Whole units of a duration, rounded towards zero as chrono's \<open>num_minutes\<close>, \<open>num_hours\<close>, \<open>num_days\<close>.\<close>

definition whole :: "duration \<Rightarrow> duration \<Rightarrow> int" where
  "whole part d = (if d < 0 then - ((- d) div part) else d div part)"

definition age_words :: "duration \<Rightarrow> string" where
  "age_words age =
     (if age < minutes 1 then ''just now''
      else if age < hours 1 then decimal_int (whole (minutes 1) age) @ '' min ago''
      else if age < days 2 then decimal_int (whole (hours 1) age) @ '' h ago''
      else decimal_int (whole (days 1) age) @ '' days ago'')"

definition last_known_words :: "mode_reading \<Rightarrow> instant \<Rightarrow> string" where
  "last_known_words r now =
     (case rd_read r of
        Some m \<Rightarrow> mode_words (mr_mode m) @ '', read '' @ age_words (now - mr_read_at m)
      | None \<Rightarrow> ''never read'')"

text \<open>The errors of \<open>hidden.rs\<close>, in the words they print.\<close>

fun hidden_error_words :: "hidden_error \<Rightarrow> string" where
  "hidden_error_words (UnsupportedExtension ns) =
     ''this community requires `'' @ ns @ ''`, which this version of OpenVTC does not implement '' @ em_dash @
     '' applying without it would send the community something it does not accept''"
| "hidden_error_words (Unreadable e) =
     ''this community's `'' @ hidden_vetting_ns @ ''` parameters could not be read: '' @ e"
| "hidden_error_words (UnsupportedSuite s) =
     ''this community uses the `'' @ s @ ''` proof suite, which this version does not implement''"
| "hidden_error_words NotEnrolled =
     ''you are not enrolled for this community's PCS ZKP vetting yet, so there is no credential to attest under''"
| "hidden_error_words NotReady =
     ''your VTA is still setting up PCS ZKP vetting for this application '' @ em_dash @
     '' nothing was sent; try again in a moment''"
| "hidden_error_words NoToken =
     ''you hold no vetting token for this community yet '' @ em_dash @ '' it issues them on a schedule''"

text \<open>
  What a manifest payload says about the mode: the first criterion that publishes hidden parameters wins; a criterion
  that cannot be read leaves the mode unknown unless another one settles it.
\<close>

fun scan_criteria ::
  "applicant_sdk \<Rightarrow> string option \<Rightarrow> json list \<Rightarrow> string + vetter_mode \<times> hidden_params option" where
  "scan_criteria sdk unreadable [] =
     (case unreadable of Some e \<Rightarrow> Inl e | None \<Rightarrow> Inr (NamedMode, None))"
| "scan_criteria sdk unreadable (c # cs) =
     (case read_mode (sdk_parse_params sdk) c of
        Inr (ModeHidden p) \<Rightarrow> Inr (PcsZkpMode, Some p)
      | Inr ModeNamed \<Rightarrow> scan_criteria sdk unreadable cs
      | Inl e \<Rightarrow>
          scan_criteria sdk (case unreadable of Some u \<Rightarrow> Some u | None \<Rightarrow> Some (hidden_error_words e)) cs)"

definition read_payload :: "applicant_sdk \<Rightarrow> json \<Rightarrow> string + vetter_mode \<times> hidden_params option" where
  "read_payload sdk raw =
     scan_criteria sdk None (case jmember_array ''criteria'' (Some raw) of None \<Rightarrow> [] | Some cs \<Rightarrow> cs)"

definition no_check :: mode_check where "no_check = \<lparr>mk_asked_at = None, mk_failed = None\<rparr>"

definition check_of :: "string \<Rightarrow> vetting_book \<Rightarrow> mode_check" where
  "check_of community b = (case map_of (vb_mode_checks b) community of None \<Rightarrow> no_check | Some c \<Rightarrow> c)"

definition set_check :: "string \<Rightarrow> (mode_check \<Rightarrow> mode_check) \<Rightarrow> vetting_book \<Rightarrow> vetting_book" where
  "set_check community f b =
     b\<lparr>vb_mode_checks := AList.update community (f (check_of community b)) (vb_mode_checks b)\<rparr>"

definition vetter_mode :: "applicant_sdk \<Rightarrow> string \<Rightarrow> vetting_book \<Rightarrow> mode_reading" where
  "vetter_mode sdk community b =
     (let known = community_record community b;
          recorded = Option.bind known km_vetter_mode;
          pcs = map_of (vb_hidden_published b) community \<noteq> None \<or>
                list_ex (\<lambda>k. kn_community k = community \<and> hidden_vetting sdk k) (vb_criteria b);
          read = (if recorded \<noteq> None then recorded
                  else map_option (\<lambda>c. \<lparr>mr_mode = (if pcs then PcsZkpMode else NamedMode),
                                        mr_read_at = km_fetched_at c\<rparr>) known)
      in \<lparr>rd_read = read, rd_failed = mk_failed (check_of community b),
          rd_inferred = (recorded = None \<and> read \<noteq> None)\<rparr>)"

definition pcs_zkp :: "applicant_sdk \<Rightarrow> string \<Rightarrow> vetting_book \<Rightarrow> bool" where
  "pcs_zkp sdk community b \<longleftrightarrow> reading_mode (vetter_mode sdk community b) = Some PcsZkpMode"

definition mode_asked :: "string \<Rightarrow> instant \<Rightarrow> vetting_book \<Rightarrow> vetting_book" where
  "mode_asked community now b = set_check community (\<lambda>c. c\<lparr>mk_asked_at := Some now\<rparr>) b"

fun is_unsent :: "mode_failure \<Rightarrow> bool" where
  "is_unsent (ModeUnsent _) = True"
| "is_unsent _ = False"

definition mode_failed :: "string \<Rightarrow> mode_failure \<Rightarrow> instant \<Rightarrow> vetting_book \<Rightarrow> vetting_book" where
  "mode_failed community failure now b =
     set_check community
       (\<lambda>c. \<lparr>mk_asked_at = (if is_unsent failure then None else mk_asked_at c), mk_failed = Some (failure, now)\<rparr>) b"

text \<open>\<open>learn_mode\<close>, in its steps: what is published, the engines held, the record, the switch.\<close>

definition keep_published ::
  "string \<Rightarrow> hidden_params option \<Rightarrow> vetting_book \<Rightarrow> vetting_book \<times> bool" where
  "keep_published community params b =
     (case params of
        Some p \<Rightarrow>
          if map_of (vb_hidden_published b) community \<noteq> Some p
          then (b\<lparr>vb_hidden_published := AList.update community p (vb_hidden_published b),
                  vb_vetter_refresh_due := True\<rparr>, True)
          else (b, False)
      | None \<Rightarrow>
          (b\<lparr>vb_hidden_published := AList.delete community (vb_hidden_published b)\<rparr>,
           map_of (vb_hidden_published b) community \<noteq> None))"

definition engine_reads :: "string \<Rightarrow> hidden_params \<Rightarrow> instant \<Rightarrow> hidden_vetter_state \<Rightarrow> hidden_vetter_state" where
  "engine_reads community live now h =
     (if hv_community h = community then (fst (take_reading live now h))\<lparr>hv_awaiting_read := False\<rparr> else h)"

definition engines_read ::
  "string \<Rightarrow> hidden_params option \<Rightarrow> instant \<Rightarrow> vetting_book \<Rightarrow> vetting_book \<times> bool" where
  "engines_read community params now b =
     (case params of
        None \<Rightarrow> (b, False)
      | Some live \<Rightarrow>
          let held = filter (\<lambda>h. hv_community h = community) (vb_hidden_vetter b)
          in (b\<lparr>vb_hidden_vetter := map (engine_reads community live now) (vb_hidden_vetter b),
                vb_vetter_refresh_due := (vb_vetter_refresh_due b \<or> list_ex hv_awaiting_read held)\<rparr>,
              held \<noteq> []))"

definition record_mode ::
  "string \<Rightarrow> vetter_mode \<Rightarrow> instant \<Rightarrow> vetting_book \<Rightarrow> vetting_book \<times> bool" where
  "record_mode community m now b =
     (case community_record community b of
        None \<Rightarrow> (b, False)
      | Some known \<Rightarrow>
          (b\<lparr>vb_communities := update_first (\<lambda>c. km_community c = community)
                (\<lambda>c. c\<lparr>km_vetter_mode := Some \<lparr>mr_mode = m, mr_read_at = now\<rparr>\<rparr>) (vb_communities b)\<rparr>,
           (case km_vetter_mode known of None \<Rightarrow> True | Some r \<Rightarrow> mr_mode r \<noteq> m)))"

definition note_switch ::
  "string \<Rightarrow> vetter_mode option \<Rightarrow> vetter_mode \<Rightarrow> instant \<Rightarrow> vetting_book \<Rightarrow> vetting_book" where
  "note_switch community before m now b =
     (case before of
        None \<Rightarrow> b
      | Some was \<Rightarrow>
          if was = m then b
          else let all = vb_mode_switches b @ [\<lparr>ms_community = community, ms_from = was, ms_to = m, ms_at = now\<rparr>]
               in b\<lparr>vb_mode_switches := drop (length all - max_mode_switches) all\<rparr>)"

definition learn_mode ::
  "applicant_sdk \<Rightarrow> string \<Rightarrow> json \<Rightarrow> vetter_mode option \<Rightarrow> instant \<Rightarrow> vetting_book \<Rightarrow> vetting_book \<times> bool" where
  "learn_mode sdk community raw before now b =
     (case read_payload sdk raw of
        Inl detail \<Rightarrow> (mode_failed community (ModeUnreadable detail) now b, False)
      | Inr (m, params) \<Rightarrow>
          let (b, c1) = keep_published community params b;
              (b, c2) = engines_read community params now b;
              (b, c3) = record_mode community m now b;
              b = set_check community (\<lambda>c. c\<lparr>mk_failed := None\<rparr>) b
          in (note_switch community before m now b, c1 \<or> c2 \<or> c3))"

definition reconnects :: "mode_check \<Rightarrow> bool" where
  "reconnects c \<longleftrightarrow> (case mk_failed c of Some (f, _) \<Rightarrow> is_unsent f | None \<Rightarrow> False)"

definition listener_connected :: "vetting_book \<Rightarrow> vetting_book" where
  "listener_connected b =
     (let any = list_ex (\<lambda>(_, c). reconnects c) (vb_mode_checks b);
          b' = b\<lparr>vb_mode_checks := map (\<lambda>(k, c). (k, if reconnects c then no_check else c)) (vb_mode_checks b)\<rparr>
      in if any \<or> vb_hidden_vetter b \<noteq> []
         then b'\<lparr>vb_vetter_refresh_failures := 0, vb_vetter_refresh_due := True\<rparr> else b')"

definition mode_refresh_due :: "applicant_sdk \<Rightarrow> string \<Rightarrow> instant \<Rightarrow> vetting_book \<Rightarrow> bool" where
  "mode_refresh_due sdk community now b \<longleftrightarrow>
     is_stale (vetter_mode sdk community b) now \<and> waiting_on community ManifestQuery b = None \<and>
     (case mk_asked_at (check_of community b) of None \<Rightarrow> True | Some at \<Rightarrow> mode_reask_after \<le> now - at)"

definition manifest_recently_asked :: "string \<Rightarrow> instant \<Rightarrow> vetting_book \<Rightarrow> bool" where
  "manifest_recently_asked community now b \<longleftrightarrow>
     (let recent = (\<lambda>at. now - at < manifest_min_gap)
      in waiting_on community ManifestQuery b \<noteq> None \<or>
         (case mk_asked_at (check_of community b) of None \<Rightarrow> False | Some at \<Rightarrow> recent at) \<or>
         (case Option.bind (community_record community b) km_vetter_mode of
            None \<Rightarrow> False | Some r \<Rightarrow> recent (mr_read_at r)))"

definition params_reread_owed :: "string \<Rightarrow> vetting_book \<Rightarrow> bool" where
  "params_reread_owed community b \<longleftrightarrow>
     waiting_on community ManifestQuery b = None \<and>
     list_ex (\<lambda>h. hv_community h = community \<and> reread_owed h \<and>
                  (case hv_over_quota h of
                     None \<Rightarrow> False
                   | Some q \<Rightarrow> (case mk_asked_at (check_of community b) of None \<Rightarrow> True | Some a \<Rightarrow> a \<le> oq_at q)))
       (vb_hidden_vetter b)"

text \<open>The month after a period, with its first day; the label is the community's to publish.\<close>

definition pad :: "nat \<Rightarrow> int \<Rightarrow> string" where
  "pad n i =
     (let ds = decimal (nat \<bar>i\<bar>); w = (if i < 0 then n - 1 else n); zs = replicate (w - length ds) CHR ''0'' @ ds
      in if i < 0 then CHR ''-'' # zs else zs)"

definition next_monthly_label :: "string \<Rightarrow> (string \<times> day_number) option" where
  "next_monthly_label period =
     Option.bind (split_once CHR ''-'' period) (\<lambda>(ys, ms).
     Option.bind (parse_i32 ys) (\<lambda>y.
     Option.bind (parse_unsigned (2 ^ 32) ms) (\<lambda>m.
     Option.bind (if - 262143 \<le> y \<and> y \<le> 262142 then first_of_month y (int m) else None) (\<lambda>_.
       let y' = (if m = 12 then y + 1 else y); m' = (if m = 12 then 1 else int m + 1)
       in if 262142 < y' then None
          else Some (pad 4 y' @ ''-'' @ pad 2 m', first_of_next_month y (int m))))))"

end
