(* ===== verification/VettingInbound.thy ===== *)
theory VettingInbound
  imports Queries VetterDesk Operational AccountView
begin

text \<open>
  Routing an inbound message to the applicant or the vetter side (\<open>openvtc-core/src/vetting/inbound.rs\<close>), with the
  reading of signed documents and deliveries it rests on (\<open>wire.rs\<close>, \<open>protocol.rs\<close>). \<open>handle\<close> answers \<open>None\<close> for
  a message that is not vetting's. Each arm takes the book and returns it with what came of the message; the arms carry
  the source's names with the suffix \<open>_arm\<close>.

  \<open>inbound_sdk\<close> holds what is called outside the repository: the type URIs of generated tasks, the readings of their
  payloads (an error with serde's words, or the value), proofs, the community's role credentials. Fresh document ids
  are arguments. Log entries and the texts of notices are left out.
\<close>

section \<open>What comes of a message\<close>

record eligibility_presentation =
  ep_credentials :: "json list"
  ep_nonce :: string
  ep_domain :: string

record vetting_reply =
  rp_persona :: persona_id
  rp_document :: json
  rp_eligibility :: "eligibility_presentation option"

datatype notice =
    RequestAcceptedNotice string string string
  | VetterAcceptedNotice string string bool
  | RequestRefusedNotice string string
  | VetterGrantedNotice string "instant option"
  | VetterRefusedNotice string string string
  | SessionOpenedNotice string string string string
  | CardReceivedNotice string string
  | StatementReceivedNotice string string string
  | DeclinedNotice string string
  | RequirementsUpdatedNotice string string
  | RequirementsUnsupportedNotice string string string
  | HiddenEventModeNotice string string bool nat nat
  | ChallengeIssuedNotice string instant
  | HiddenRefusedNotice string string string
  | WithdrawalRecordedNotice string
  | WithdrawalRefusedNotice string string
  | ProfilePublishedNotice string bool
  | ProfileRefusedNotice string string
  | GrantResentNotice string instant
  | ResendRefusedNotice string string
  | GrantRefusedNotice string string

datatype community_answer =
    ManifestAnswer string
  | VettersAnswer string string json
  | ProfileStoredAnswer string bool instant
  | ResentAnswer string instant
  | ChallengeAnswer string string
  | WalletStartedAnswer string string json
  | WalletStatusAnswer string string json
  | RefusedAnswer string string query_kind string "string option"
  | UnreadableAnswer string string query_kind string

record grant_check =
  gc_application_id :: string
  gc_request_document_id :: string
  gc_vetter :: string
  gc_issuer :: string
  gc_credential_status :: json

record handled =
  ho_changed :: bool
  ho_reply :: "vetting_reply option"
  ho_notice :: "notice option"
  ho_answer :: "community_answer option"
  ho_grant_check :: "grant_check option"

definition nothing :: handled where
  "nothing = \<lparr>ho_changed = False, ho_reply = None, ho_notice = None, ho_answer = None, ho_grant_check = None\<rparr>"

text \<open>The inbox task a notice raises, keyed so that a repeated message raises no second one.\<close>

datatype vetting_task =
    VettingRequestInbound string string string
  | VettingSessionInbound string string string
  | VettingCardReceived string string

fun notice_task :: "notice \<Rightarrow> (string \<times> vetting_task) option" where
  "notice_task (RequestAcceptedNotice request applicant community) =
     Some (''vetting-request-'' @ request, VettingRequestInbound request applicant community)"
| "notice_task (SessionOpenedNotice app sid vetter code) =
     Some (''vetting-session-'' @ sid, VettingSessionInbound app sid vetter)"
| "notice_task (CardReceivedNotice request applicant) =
     Some (''vetting-card-'' @ request, VettingCardReceived request applicant)"
| "notice_task _ = None"

section \<open>Outside the repository\<close>

record trust_task =
  tt_id :: string
  tt_type :: string
  tt_issuer :: "string option"
  tt_thread_id :: "string option"
  tt_payload :: json

record event_mode_response =
  em_event_id :: string
  em_state :: string
  em_tier :: string
  em_group_size :: nat
  em_group_floor :: nat
  em_label :: "string option"
  em_drip_per_tick :: "nat option"
  em_closes_after :: "day_number option"

record binding_response =
  bs_bound :: bool
  bs_id :: "string option"
  bs_reset :: "reset_state option"

record eligibility_expectations =
  ee_vetter :: string
  ee_community :: string
  ee_role :: string
  ee_challenge :: string
  ee_domain :: string
  ee_now :: instant

record verified_eligibility =
  ve_credential_id :: "string option"
  ve_valid_until :: instant
  ve_credential_status :: "json option"

datatype criterion_admission = AdmitsAutomatically | OtherAdmission string

record vetting_types =
  vt_request :: string
  vt_request_response :: string
  vt_session :: string
  vt_session_response :: string
  vt_decline :: string
  vt_revoke_response :: string
  vt_list_response :: string
  vt_profile_response :: string
  vt_resend_response :: string
  vt_manifest_response :: string
  vt_issue :: string
  vt_problem_report :: string
  vt_binding_show :: string
  vt_wallet_start :: string
  vt_wallet_status :: string

record inbound_sdk =
  vi_types :: vetting_types
  vi_applicant :: applicant_sdk
  vi_vetter :: vetter_sdk
  vi_documents :: document_sdk
  vi_codes :: refusal_codes
  vi_document :: "json \<Rightarrow> string + trust_task"
  vi_signer :: "json \<Rightarrow> string + string"
  vi_request :: "json \<Rightarrow> string + request_body"
  vi_request_response :: "json \<Rightarrow> string + request_response"
  vi_session :: "json \<Rightarrow> string + session_body"
  vi_decline :: "json \<Rightarrow> string + decline_body"
  vi_root :: "json \<Rightarrow> string + root_response"
  vi_tokens :: "json \<Rightarrow> string + tokens_response"
  vi_event_mode :: "json \<Rightarrow> string + event_mode_response"
  vi_challenge :: "json \<Rightarrow> string + string \<times> instant"
  vi_binding :: "json \<Rightarrow> string + binding_response"
  vi_wallet_started :: "json \<Rightarrow> string + json"
  vi_wallet_status :: "json \<Rightarrow> string + json"
  vi_vetters :: "json \<Rightarrow> string + json"
  vi_profile :: "json \<Rightarrow> string + bool \<times> instant"
  vi_resend :: "json \<Rightarrow> string + instant"
  vi_revoked :: "json \<Rightarrow> string + instant"
  vi_manifest :: "json \<Rightarrow> string + manifest \<times> (string \<times> criterion_admission \<times> bool option) list"
  vi_directory :: "json \<Rightarrow> string + json \<times> (nat \<times> nat) list"
  vi_asked :: "manifest \<Rightarrow> string list"
  vi_respond :: "trust_task \<Rightarrow> string \<Rightarrow> request_response \<Rightarrow> json option"
  vi_refuse :: "trust_task \<Rightarrow> string \<Rightarrow> string \<Rightarrow> json option"
  vi_code_of :: "request_error \<Rightarrow> string"
  vi_verify_eligibility :: "json \<Rightarrow> eligibility_expectations \<Rightarrow> string + verified_eligibility"
  vi_community_roles :: "json \<Rightarrow> (string \<times> string list) option"
  vi_role_matches :: "string \<Rightarrow> string \<Rightarrow> bool"
  vi_vetter_role :: string
  vi_vetted_predicate :: string
  vi_rfc3339 :: "string \<Rightarrow> instant option"
  vi_problem :: "json \<Rightarrow> string \<times> string"

text \<open>
  What handling is told about us. \<open>ix_issued\<close> is the result of the credential's check and \<open>ix_answer\<close> that of a
  community answer's, both run off the loop; no answer check means it is run here.
\<close>

record inbound_context =
  ix_account :: account
  ix_issued :: "(issued_credential_error + json) option"
  ix_answer :: "(operational_error + verified_operational) option"
  ix_recipient :: "(persona_id \<times> string) option"
  ix_now :: instant

section \<open>Types of message\<close>

definition root_type :: string where
  "root_type = ''https://trusttasks.org/spec/vtc/vetting/vetters/pcs-root/0.1''"
definition tokens_type :: string where
  "tokens_type = ''https://trusttasks.org/spec/vtc/vetting/vetters/pcs-tokens/0.1''"
definition event_mode_type :: string where
  "event_mode_type = ''https://trusttasks.org/spec/vtc/vetting/vetters/event-mode/0.1''"
definition challenge_type :: string where
  "challenge_type = ''https://trusttasks.org/spec/vtc/vetting/pcs-challenge/0.1''"
definition hidden_attestation_type :: string where
  "hidden_attestation_type = ''https://trusttasks.org/spec/vetting/attestation/0.1''"
definition event_approved :: string where "event_approved = ''approved''"

definition response_of :: "string \<Rightarrow> string" where "response_of uri = uri @ ''#response''"

definition is_response_to :: "string \<Rightarrow> string \<Rightarrow> bool" where
  "is_response_to uri typ \<longleftrightarrow> ends_with typ ''#response'' \<and> take (length typ - length ''#response'') typ = uri"

definition is_wallet_session_answer_type :: "vetting_types \<Rightarrow> string \<Rightarrow> bool" where
  "is_wallet_session_answer_type vt typ \<longleftrightarrow>
     list_ex (\<lambda>t. is_response_to t typ) [vt_wallet_start vt, vt_wallet_status vt]"

definition is_hidden_vetting_answer_type :: "vetting_types \<Rightarrow> string \<Rightarrow> bool" where
  "is_hidden_vetting_answer_type vt typ \<longleftrightarrow>
     list_ex (\<lambda>t. is_response_to t typ)
       [root_type, tokens_type, event_mode_type, challenge_type, vt_binding_show vt]"

definition from_manifest_response :: "vetting_types \<Rightarrow> string \<Rightarrow> join_protocol option" where
  "from_manifest_response vt typ = (if typ = vt_manifest_response vt then Some V0_4 else None)"

definition may_claim :: "vetting_types \<Rightarrow> string \<Rightarrow> bool" where
  "may_claim vt typ \<longleftrightarrow>
     starts_with ''https://trusttasks.org/spec/vetting/'' typ \<or> is_hidden_vetting_answer_type vt typ \<or>
     typ \<in> {vt_revoke_response vt, vt_list_response vt, vt_profile_response vt, vt_resend_response vt,
             vt_issue vt, vt_problem_report vt} \<or>
     from_manifest_response vt typ \<noteq> None \<or> is_wallet_session_answer_type vt typ \<or> is_trust_task_error_type typ"

definition is_community_answer_type :: "vetting_types \<Rightarrow> string \<Rightarrow> bool" where
  "is_community_answer_type vt typ \<longleftrightarrow>
     typ \<in> {vt_revoke_response vt, vt_list_response vt, vt_profile_response vt, vt_resend_response vt} \<or>
     from_manifest_response vt typ \<noteq> None"

section \<open>Reading documents\<close>

datatype wire_error =
    WireMalformed string
  | TypeMismatch
  | WireIssuerNotSender
  | WireProof string
  | WrongSigner

fun wire_error_words :: "wire_error \<Rightarrow> string" where
  "wire_error_words (WireMalformed e) = ''malformed vetting document: '' @ e"
| "wire_error_words TypeMismatch = ''document type does not match the message type''"
| "wire_error_words WireIssuerNotSender = ''document issuer is not the authenticated sender''"
| "wire_error_words (WireProof e) = ''document proof did not verify: '' @ e"
| "wire_error_words WrongSigner = ''document is not signed by its issuer''"

definition open_document ::
  "inbound_sdk \<Rightarrow> (json \<Rightarrow> string + 'p) \<Rightarrow> didcomm_message \<Rightarrow> string \<Rightarrow> wire_error + trust_task \<times> 'p" where
  "open_document sdk read m sender =
     rbind (map_err WireMalformed (vi_document sdk (dm_body m))) (\<lambda>doc.
     rbind (ensure (tt_type doc = dm_type m) TypeMismatch) (\<lambda>_.
     rbind (ensure (tt_issuer doc = Some sender) WireIssuerNotSender) (\<lambda>_.
     rbind (map_err WireProof (vi_signer sdk (dm_body m))) (\<lambda>signer.
     rbind (ensure (signer = sender) WrongSigner) (\<lambda>_.
     rbind (map_err WireMalformed (read (tt_payload doc))) (\<lambda>p. Inr (doc, p)))))))"

definition read_value :: "json \<Rightarrow> string + json" where "read_value v = Inr v"

text \<open>The statement in an issue payload, told by its predicate and by not being the community's own.\<close>

definition is_community_issued :: "json \<Rightarrow> bool" where
  "is_community_issued credential \<longleftrightarrow>
     (case jpointer [''credentialSubject'', ''object'', ''value''] credential of
        None \<Rightarrow> False
      | Some value \<Rightarrow>
          issuer_of credential \<noteq> None \<and> issuer_of credential = jmember_str ''community'' (Some value) \<and>
          list_all (\<lambda>k. jget k value = None) [''identityCommitment'', ''cardDigestMultibase'', ''declaredRelationship''])"

definition statement_in :: "inbound_sdk \<Rightarrow> json \<Rightarrow> json option" where
  "statement_in sdk payload =
     (case jpointer [''credential_response'', ''credential''] payload of
        None \<Rightarrow> None
      | Some c \<Rightarrow>
          if Option.bind (jpointer [''credentialSubject'', ''predicate''] c) jstr = Some (vi_vetted_predicate sdk) \<and>
             \<not> is_community_issued c
          then Some c else None)"

definition delivered_statement :: "inbound_sdk \<Rightarrow> json \<Rightarrow> json option" where
  "delivered_statement sdk body =
     (case Option.bind (jget ''payload'' body) (statement_in sdk) of
        Some c \<Rightarrow> Some c
      | None \<Rightarrow> statement_in sdk body)"

definition directory_member :: string where "directory_member = ''directoryDisclosure''"

fun without_member :: "string \<Rightarrow> json \<Rightarrow> json" where
  "without_member k (JObject ms) = JObject (filter (\<lambda>(i, _). i \<noteq> k) ms)"
| "without_member k v = v"

definition meta_of :: "string \<times> criterion_admission \<times> bool option \<Rightarrow> criterion_meta" where
  "meta_of = (\<lambda>(i, admission, invitation).
     \<lparr>cm_id = i, cm_admission = Some (case admission of AdmitsAutomatically \<Rightarrow> Automatic | OtherAdmission _ \<Rightarrow> Review),
      cm_invitation_required = invitation\<rparr>)"

definition read_manifest :: "inbound_sdk \<Rightarrow> json \<Rightarrow> string + manifest \<times> criterion_meta list" where
  "read_manifest sdk payload =
     rbind (vi_manifest sdk (without_member directory_member payload)) (\<lambda>(m, admissions).
       Inr (m, map meta_of admissions))"

text \<open>A directory statement: what it serialises to, and each field's default audience and ceiling, widest last.\<close>

definition read_directory :: "inbound_sdk \<Rightarrow> json \<Rightarrow> directory_statement option" where
  "read_directory sdk payload =
     map_option (\<lambda>v.
       case vi_directory sdk v of
         Inr (wire, fs) \<Rightarrow>
           if list_ex (\<lambda>(d, ceiling). ceiling < d) fs
           then Malformed ''a field's default audience is wider than its ceiling''
           else Stated wire
       | Inl e \<Rightarrow> Malformed e) (jget directory_member payload)"

definition learn_directory ::
  "inbound_sdk \<Rightarrow> string \<Rightarrow> json \<Rightarrow> vetting_book \<Rightarrow> vetting_book \<times> bool" where
  "learn_directory sdk community payload b =
     (let d = read_directory sdk payload
      in case community_record community b of
           Some known \<Rightarrow>
             if km_directory known \<noteq> d
             then (b\<lparr>vb_communities := update_first (\<lambda>c. km_community c = community)
                       (\<lambda>c. c\<lparr>km_directory := d\<rparr>) (vb_communities b)\<rparr>, True)
             else (b, False)
         | None \<Rightarrow> (b, False))"

section \<open>Answers of a community\<close>

definition community_thread :: "didcomm_message \<Rightarrow> string option" where
  "community_thread m =
     (case dm_thid m of Some t \<Rightarrow> Some t | None \<Rightarrow> jmember_str ''threadId'' (Some (dm_body m)))"

definition community_payload :: "(json \<Rightarrow> string + 'p) \<Rightarrow> didcomm_message \<Rightarrow> string + 'p" where
  "community_payload read m = read (case jget ''payload'' (dm_body m) of None \<Rightarrow> JNull | Some p \<Rightarrow> p)"

definition community_signed ::
  "inbound_sdk \<Rightarrow> inbound_context \<Rightarrow> seen_documents \<Rightarrow> didcomm_message \<Rightarrow> string \<Rightarrow> verified_operational option" where
  "community_signed sdk ctx seen m sender =
     (case ix_recipient ctx of
        None \<Rightarrow> None
      | Some (_, our_did) \<Rightarrow>
          (case (case ix_answer ctx of
                   Some (Inr v) \<Rightarrow> if vo_recipient v \<noteq> our_did then None else Some v
                 | Some (Inl _) \<Rightarrow> None
                 | None \<Rightarrow>
                     (case verify_operational_with (vi_documents sdk) (dm_body m) sender [our_did] (dm_type m) seen
                             (ix_now ctx) of
                        Inl _ \<Rightarrow> None | Inr v \<Rightarrow> Some v)) of
             None \<Rightarrow> None
           | Some v \<Rightarrow> (case vo_check v seen (ix_now ctx) of Inl _ \<Rightarrow> None | Inr _ \<Rightarrow> Some v)))"

definition answer_to ::
  "(json \<Rightarrow> string + 'p) \<Rightarrow> didcomm_message \<Rightarrow> string \<Rightarrow> query_kind \<Rightarrow> vetting_book \<Rightarrow>
   vetting_book \<times> (community_query \<times> (community_answer + 'p)) option" where
  "answer_to read m sender k b =
     (case community_thread m of
        None \<Rightarrow> (b, None)
      | Some thread \<Rightarrow>
          (case take_query sender thread (Some k) b of
             (b, None) \<Rightarrow> (b, None)
           | (b, Some q) \<Rightarrow>
               (b, Some (q, map_err (UnreadableAnswer (cq_document_id q) sender k) (community_payload read m)))))"

definition only_answer :: "community_answer \<Rightarrow> handled" where
  "only_answer a = nothing\<lparr>ho_answer := Some a\<rparr>"

definition changed_with :: "notice \<Rightarrow> handled" where
  "changed_with n = nothing\<lparr>ho_changed := True, ho_notice := Some n\<rparr>"

definition only_changed :: handled where "only_changed = nothing\<lparr>ho_changed := True\<rparr>"

fun issued_error_words :: "issued_credential_error \<Rightarrow> string" where
  "issued_error_words CredentialNotChecked = ''the credential was not checked''"
| "issued_error_words DeliveryIssuerNotSender =
     ''the delivery is not a Trust Task document naming the community that sent it''"
| "issued_error_words (DeliveryProof e) = ''the delivery's proof: '' @ e"
| "issued_error_words NoCredential = ''the delivery carries no credential''"
| "issued_error_words CredentialCheckUnfinished =
     ''its check did not finish (timed out or failed) '' @ em_dash @ '' ask the community to send it again''"
| "issued_error_words NoIssuer = ''the credential names no issuer''"
| "issued_error_words CredentialIssuerNotSender = ''the credential's issuer is not the community that sent it''"
| "issued_error_words (CredentialProof e) = ''the credential's proof: '' @ e"
| "issued_error_words (BadTimestamp k) = ''the credential's '' @ k @ '' is not a valid timestamp''"
| "issued_error_words NotYetValid = ''the credential is not valid yet''"
| "issued_error_words CredentialExpired = ''the credential has expired''"
| "issued_error_words CredentialRevoked = ''the community has revoked or suspended the credential''"
| "issued_error_words (StatusUnknown e) =
     ''the credential's revocation status could not be checked ('' @ e @ ''); try again once the community is '' @
     ''reachable, or ask it to re-issue the credential''"

section \<open>Between applicant and vetter\<close>

definition request_arm ::
  "inbound_sdk \<Rightarrow> string \<Rightarrow> string \<Rightarrow> inbound_context \<Rightarrow> didcomm_message \<Rightarrow> string \<Rightarrow> vetting_book \<Rightarrow>
   vetting_book \<times> handled" where
  "request_arm sdk request_id reply_id ctx m sender b =
     (case ix_recipient ctx of
        None \<Rightarrow> (b, nothing)
      | Some (persona, _) \<Rightarrow>
          (case open_document sdk (vi_request sdk) m sender of
             Inl _ \<Rightarrow> (b, nothing)
           | Inr (doc, body) \<Rightarrow>
               let community = rq_community body;
                   grant = live_grant community persona (ix_now ctx) b;
                   eligible = grant \<noteq> None \<and>
                     (case membership (ix_account ctx) community persona of
                        None \<Rightarrow> False | Some c \<Rightarrow> is_active (cr_status c));
                   incoming = \<lparr>in_document_id = tt_id doc, in_sender = sender, in_persona = persona,
                               in_body = body, in_eligible = eligible\<rparr>;
                   (b', intake) = take_request (vi_vetter sdk) request_id incoming (ix_now ctx) b;
                   throttled = vb_throttle b' \<noteq> vb_throttle b
               in case intake of
                    IntakeAccepted reply \<Rightarrow>
                      (b'\<lparr>vb_vetter_refresh_due := True\<rparr>,
                       nothing\<lparr>ho_changed := True,
                               ho_reply := map_option (\<lambda>d. \<lparr>rp_persona = persona, rp_document = d,
                                 rp_eligibility = map_option (\<lambda>g. \<lparr>ep_credentials = [gr_credential g],
                                   ep_nonce = tt_id doc, ep_domain = sender\<rparr>) grant\<rparr>) (vi_respond sdk doc reply_id reply),
                               ho_notice := Some (RequestAcceptedNotice (rr_request_id reply) sender community)\<rparr>)
                  | IntakeRefused code \<Rightarrow>
                      (b', nothing\<lparr>ho_changed := throttled,
                              ho_reply := map_option (\<lambda>d. \<lparr>rp_persona = persona, rp_document = d, rp_eligibility = None\<rparr>)
                                (vi_refuse sdk doc reply_id (vi_code_of sdk code)),
                              ho_notice := Some (RequestRefusedNotice sender (vi_code_of sdk code))\<rparr>)
                  | IntakeSilent \<Rightarrow> (b', nothing\<lparr>ho_changed := throttled\<rparr>)))"

text \<open>An acceptance's presentation, and the status entry of the grant in it when it verified.\<close>

definition presented_eligibility ::
  "inbound_sdk \<Rightarrow> inbound_context \<Rightarrow> string \<Rightarrow> string \<Rightarrow> application \<Rightarrow> trust_task \<Rightarrow>
   vetter_eligibility \<times> json option option" where
  "presented_eligibility sdk ctx sender thread a doc =
     (case jget ''eligibilityVp'' (tt_payload doc) of
        None \<Rightarrow> (NotShown, None)
      | Some vp \<Rightarrow>
          (case vi_verify_eligibility sdk vp
                  \<lparr>ee_vetter = sender, ee_community = ap_community a, ee_role = vetter_role (vi_applicant sdk) a,
                   ee_challenge = thread, ee_domain = ap_join_did a, ee_now = ix_now ctx\<rparr> of
             Inr v \<Rightarrow> (Shown (ve_credential_id v) (ve_valid_until v), Some (ve_credential_status v))
           | Inl e \<Rightarrow> (FailedToShow e, None)))"

fun is_shown :: "vetter_eligibility \<Rightarrow> bool" where
  "is_shown (Shown _ _) = True"
| "is_shown _ = False"

definition note_grant_status :: "string \<Rightarrow> string \<Rightarrow> grant_status \<Rightarrow> application \<Rightarrow> application" where
  "note_grant_status thread vetter status a =
     (case record_grant_status thread vetter status a of Inr a' \<Rightarrow> a' | Inl _ \<Rightarrow> a)"

definition start_grant_check ::
  "instant \<Rightarrow> string \<Rightarrow> string \<Rightarrow> json option option \<Rightarrow> application \<Rightarrow> application \<times> grant_check option" where
  "start_grant_check now thread vetter entry a =
     (case entry of
        Some (Some status) \<Rightarrow>
          (note_grant_status thread vetter (GrantChecking now) a,
           Some \<lparr>gc_application_id = ap_id a, gc_request_document_id = thread, gc_vetter = vetter,
                 gc_issuer = ap_community a, gc_credential_status = status\<rparr>)
      | Some None \<Rightarrow>
          (note_grant_status thread vetter
             (GrantUnknown ''the vetter's credential names no status list to check'' now) a, None)
      | None \<Rightarrow> (a, None))"

definition accepted_arm ::
  "inbound_sdk \<Rightarrow> inbound_context \<Rightarrow> didcomm_message \<Rightarrow> string \<Rightarrow> vetting_book \<Rightarrow> vetting_book \<times> handled" where
  "accepted_arm sdk ctx m sender b =
     (case open_document sdk (vi_request_response sdk) m sender of
        Inl _ \<Rightarrow> (b, nothing)
      | Inr (doc, body) \<Rightarrow>
          (case tt_thread_id doc of
             None \<Rightarrow> (b, nothing)
           | Some thread \<Rightarrow>
               (case List.find (sent thread) (vb_applications b) of
                  None \<Rightarrow> (b, nothing)
                | Some a \<Rightarrow>
                    let (eligibility, entry) = presented_eligibility sdk ctx sender thread a doc
                    in case on_accepted (vi_applicant sdk) thread sender body eligibility (ix_now ctx) a of
                         Inl _ \<Rightarrow> (b, nothing)
                       | Inr a' \<Rightarrow>
                           let (a'', check) = start_grant_check (ix_now ctx) thread sender entry a'
                           in (b\<lparr>vb_applications := update_first (sent thread) (\<lambda>_. a'') (vb_applications b)\<rparr>,
                               (changed_with (VetterAcceptedNotice (ap_id a) sender (is_shown eligibility)))
                                 \<lparr>ho_grant_check := check\<rparr>))))"

definition session_arm ::
  "inbound_sdk \<Rightarrow> inbound_context \<Rightarrow> didcomm_message \<Rightarrow> string \<Rightarrow> vetting_book \<Rightarrow> vetting_book \<times> handled" where
  "session_arm sdk ctx m sender b =
     (case ix_recipient ctx of
        None \<Rightarrow> (b, nothing)
      | Some (persona, _) \<Rightarrow>
          (case open_document sdk (vi_session sdk) m sender of
             Inl _ \<Rightarrow> (b, nothing)
           | Inr (doc, body) \<Rightarrow>
               (case application_for (sb_domain body) persona b of
                  None \<Rightarrow> (b, nothing)
                | Some a \<Rightarrow>
                    (case on_session (vi_applicant sdk) (tt_id doc) (dm_body m) sender body (ix_now ctx) a of
                       Inl _ \<Rightarrow> (b, nothing)
                     | Inr (a', s) \<Rightarrow>
                         (b\<lparr>vb_applications := update_first
                               (\<lambda>a. ap_community a = sb_domain body \<and> ap_persona a = persona) (\<lambda>_. a') (vb_applications b)\<rparr>,
                          changed_with (SessionOpenedNotice (ap_id a) (os_id s) sender (os_match_code s)))))))"

definition card_arm ::
  "inbound_sdk \<Rightarrow> inbound_context \<Rightarrow> didcomm_message \<Rightarrow> string \<Rightarrow> vetting_book \<Rightarrow> vetting_book \<times> handled" where
  "card_arm sdk ctx m sender b =
     (case ix_recipient ctx of
        None \<Rightarrow> (b, nothing)
      | Some (_, our_did) \<Rightarrow>
          (case open_document sdk read_value m sender of
             Inl _ \<Rightarrow> (b, nothing)
           | Inr (doc, payload) \<Rightarrow>
               (case tt_thread_id doc of
                  None \<Rightarrow> (b, nothing)
                | Some session_id \<Rightarrow>
                    (case jget ''card'' payload of
                       None \<Rightarrow> (b, nothing)
                     | Some the_card \<Rightarrow>
                         (case receive_card (vi_vetter sdk) our_did sender session_id the_card (ix_now ctx) b of
                            Inl _ \<Rightarrow> (b, nothing)
                          | Inr b' \<Rightarrow>
                              (b', changed_with (CardReceivedNotice
                                 (case List.find (awaits_card sender session_id) (vb_desk b) of
                                    None \<Rightarrow> [] | Some e \<Rightarrow> de_request_id e) sender)))))))"

text \<open>The first application that takes the decline; \<open>taken\<close> is that it does.\<close>

definition taken :: "'e + 'a \<Rightarrow> bool" where
  "taken r = (case r of Inl _ \<Rightarrow> False | Inr _ \<Rightarrow> True)"

definition declined_arm ::
  "inbound_sdk \<Rightarrow> inbound_context \<Rightarrow> didcomm_message \<Rightarrow> string \<Rightarrow> vetting_book \<Rightarrow> vetting_book \<times> handled" where
  "declined_arm sdk ctx m sender b =
     (case open_document sdk (vi_decline sdk) m sender of
        Inl _ \<Rightarrow> (b, nothing)
      | Inr (doc, body) \<Rightarrow>
          let decline = on_decline (vi_applicant sdk) sender body (ix_now ctx)
          in case List.find (\<lambda>a. taken (decline a)) (vb_applications b) of
               None \<Rightarrow> (b, nothing)
             | Some a \<Rightarrow>
                 (b\<lparr>vb_applications := update_first (\<lambda>a. taken (decline a)) (\<lambda>a. projr (decline a)) (vb_applications b)\<rparr>,
                  changed_with (DeclinedNotice (ap_id a) sender)))"

section \<open>Credentials\<close>

definition grant_refused_arm :: "inbound_context \<Rightarrow> string \<Rightarrow> string \<Rightarrow> handled" where
  "grant_refused_arm ctx sender reason =
     (case ix_recipient ctx of
        None \<Rightarrow> nothing
      | Some (persona, _) \<Rightarrow>
          if membership (ix_account ctx) sender persona = None then nothing
          else nothing\<lparr>ho_notice := Some (GrantRefusedNotice sender reason)\<rparr>)"

definition vetter_grant_arm ::
  "inbound_sdk \<Rightarrow> inbound_context \<Rightarrow> json \<Rightarrow> string \<Rightarrow> string \<Rightarrow> vetting_book \<Rightarrow> vetting_book \<times> handled" where
  "vetter_grant_arm sdk ctx credential community sender b =
     (case ix_recipient ctx of
        None \<Rightarrow> (b, nothing)
      | Some (persona, our_did) \<Rightarrow>
          if community \<noteq> sender \<or> issuer_of credential \<noteq> Some sender
          then (b, grant_refused_arm ctx sender ''it was not issued by the community that sent it'')
          else if Option.bind (jpointer [''credentialSubject'', ''id''] credential) jstr \<noteq> Some our_did
          then (b, grant_refused_arm ctx sender
                     ''it names a different identity from the persona it was sent to'')
          else if membership (ix_account ctx) community persona = None
          then (b, grant_refused_arm ctx sender ''this persona holds no membership there'')
          else
            let valid_until = Option.bind (jmember_str ''validUntil'' (Some credential)) (vi_rfc3339 sdk);
                (b', changed) = keep_vetter_grant
                   \<lparr>gr_community = community, gr_persona = persona,
                    gr_credential_id = jmember_str ''id'' (Some credential), gr_valid_until = valid_until,
                    gr_received_at = ix_now ctx, gr_credential = credential\<rparr> b
            in (if changed then b'\<lparr>vb_vetter_refresh_due := True\<rparr> else b',
                nothing\<lparr>ho_changed := changed,
                        ho_notice := (if changed then Some (VetterGrantedNotice community valid_until) else None)\<rparr>))"

definition names_vetter :: "inbound_sdk \<Rightarrow> json \<Rightarrow> string option" where
  "names_vetter sdk credential =
     (case vi_community_roles sdk credential of
        None \<Rightarrow> None
      | Some (community, rs) \<Rightarrow>
          if list_ex (\<lambda>r. vi_role_matches sdk r (vi_vetter_role sdk)) rs then Some community else None)"

definition grant_delivery_arm ::
  "inbound_sdk \<Rightarrow> inbound_context \<Rightarrow> didcomm_message \<Rightarrow> string \<Rightarrow> json \<Rightarrow> string \<Rightarrow> vetting_book \<Rightarrow>
   vetting_book \<times> handled" where
  "grant_delivery_arm sdk ctx m sender credential community b =
     (case open_document sdk read_value m sender of
        Inl e \<Rightarrow> (b, grant_refused_arm ctx sender (''its delivery did not verify ('' @ wire_error_words e @ '')''))
      | Inr _ \<Rightarrow>
          (case ix_issued ctx of
             Some (Inr verified) \<Rightarrow>
               if verified = credential then vetter_grant_arm sdk ctx verified community sender b
               else (b, grant_refused_arm ctx sender (issued_error_words CredentialNotChecked))
           | Some (Inl e) \<Rightarrow> (b, grant_refused_arm ctx sender (issued_error_words e))
           | None \<Rightarrow> (b, grant_refused_arm ctx sender (issued_error_words CredentialNotChecked))))"

definition asked_vetter :: "persona_id \<Rightarrow> string \<Rightarrow> application \<Rightarrow> bool" where
  "asked_vetter persona vetter a \<longleftrightarrow>
     ap_persona a = persona \<and> list_ex (\<lambda>r. or_vetter r = vetter) (ap_requests a)"

definition statement_delivery_arm ::
  "inbound_sdk \<Rightarrow> inbound_context \<Rightarrow> didcomm_message \<Rightarrow> string \<Rightarrow> vetting_book \<Rightarrow> vetting_book \<times> handled" where
  "statement_delivery_arm sdk ctx m sender b =
     (case ix_recipient ctx of
        None \<Rightarrow> (b, nothing)
      | Some (persona, _) \<Rightarrow>
          (case open_document sdk read_value m sender of
             Inl _ \<Rightarrow> (b, nothing)
           | Inr (doc, payload) \<Rightarrow>
               (case statement_in sdk payload of
                  None \<Rightarrow> (b, nothing)
                | Some credential \<Rightarrow>
                    let attest = on_statement (vi_applicant sdk) sender credential (ix_now ctx);
                        takes = (\<lambda>a. asked_vetter persona sender a \<and> taken (attest a))
                    in case List.find takes (vb_applications b) of
                         None \<Rightarrow> (b, nothing)
                       | Some a \<Rightarrow>
                           (b\<lparr>vb_applications := update_first takes (\<lambda>a. fst (projr (attest a))) (vb_applications b),
                              vb_retired := filter (\<lambda>note. \<not> (contains (ap_community a) note \<and> contains sender note))
                                (vb_retired b)\<rparr>,
                            changed_with (StatementReceivedNotice (ap_id a) (hs_id (snd (projr (attest a)))) sender)))))"

definition issue_arm ::
  "inbound_sdk \<Rightarrow> inbound_context \<Rightarrow> didcomm_message \<Rightarrow> string \<Rightarrow> vetting_book \<Rightarrow> vetting_book \<times> handled option" where
  "issue_arm sdk ctx m sender b =
     (case Option.bind (credential_in_issue m) (\<lambda>c. map_option (Pair c) (names_vetter sdk c)) of
        Some (credential, community) \<Rightarrow> apsnd Some (grant_delivery_arm sdk ctx m sender credential community b)
      | None \<Rightarrow>
          if delivered_statement sdk (dm_body m) = None then (b, None)
          else apsnd Some (statement_delivery_arm sdk ctx m sender b))"

text \<open>A hidden attestation is queued for the VTA as it came; which vetter sent it is not kept.\<close>

definition attestation_arm ::
  "inbound_context \<Rightarrow> didcomm_message \<Rightarrow> vetting_book \<Rightarrow> vetting_book \<times> handled" where
  "attestation_arm ctx m b =
     (case ix_recipient ctx of
        None \<Rightarrow> (b, nothing)
      | Some (persona, _) \<Rightarrow>
          let community = jmember_str ''community'' (jget ''meta'' (dm_body m))
          in case List.find (\<lambda>a. case community of None \<Rightarrow> True | Some c \<Rightarrow> c = ap_community a)
                    (filter (\<lambda>a. ap_persona a = persona \<and> ap_hidden a \<noteq> None) (vb_applications b)) of
               None \<Rightarrow> (b, nothing)
             | Some a \<Rightarrow> (queue_for_vta (AttestationFor (ap_id a) (dm_body m)) b, only_changed))"

section \<open>Hidden vetting\<close>

definition update_engine ::
  "string \<Rightarrow> persona_id \<Rightarrow> (hidden_vetter_state \<Rightarrow> hidden_vetter_state) \<Rightarrow> vetting_book \<Rightarrow> vetting_book" where
  "update_engine community persona f b =
     b\<lparr>vb_hidden_vetter := update_first (\<lambda>h. hv_community h = community \<and> hv_persona h = persona) f
         (vb_hidden_vetter b)\<rparr>"

definition forget_draw :: "string \<Rightarrow> vetting_book \<Rightarrow> vetting_book" where
  "forget_draw document_id b = b\<lparr>vb_draws_in_flight := AList.delete document_id (vb_draws_in_flight b)\<rparr>"

text \<open>
  Whose engine an answer is for: the persona that asked or, once the question is forgotten, an engine of this
  community that the VTA said is waiting for it.
\<close>

definition answered_persona ::
  "string \<Rightarrow> community_query option \<Rightarrow> (hidden_vetter_state \<Rightarrow> bool) \<Rightarrow> vetting_book \<Rightarrow> persona_id option" where
  "answered_persona community q waits b =
     (case q of
        Some q \<Rightarrow> Some (cq_persona q)
      | None \<Rightarrow>
          map_option hv_persona (List.find (\<lambda>h. hv_community h = community \<and> waits h) (vb_hidden_vetter b)))"

definition enrolled_arm ::
  "inbound_sdk \<Rightarrow> didcomm_message \<Rightarrow> string \<Rightarrow> vetting_book \<Rightarrow> vetting_book \<times> handled" where
  "enrolled_arm sdk m sender b =
     (case community_thread m of
        None \<Rightarrow> (b, nothing)
      | Some thread \<Rightarrow>
          let (b, q) = take_query sender thread (Some PcsRootQuery) b
          in case community_payload (vi_root sdk) m of
               Inl detail \<Rightarrow>
                 (b, only_changed\<lparr>ho_answer := Some (UnreadableAnswer thread sender PcsRootQuery detail)\<rparr>)
             | Inr body \<Rightarrow>
                 (case answered_persona sender q (\<lambda>h. rt_label body \<in> set (vw_pending_labels (hv_engine h))) b of
                    None \<Rightarrow> (b, nothing)
                  | Some persona \<Rightarrow>
                      if hidden_vetter_for sender persona b = None then (b, nothing)
                      else (queue_for_vta (Enrolled sender persona body) (update_engine sender persona answered b),
                            only_changed)))"

definition take_served :: "string \<Rightarrow> tick \<Rightarrow> instant \<Rightarrow> hidden_vetter_state \<Rightarrow> hidden_vetter_state" where
  "take_served label t now h =
     (record_served label t (answered h))\<lparr>hv_last_drawn_at := Some now, hv_retry_at := None, hv_last_refusal := None\<rparr>"

definition tokens_served_arm ::
  "inbound_sdk \<Rightarrow> inbound_context \<Rightarrow> didcomm_message \<Rightarrow> string \<Rightarrow> vetting_book \<Rightarrow> vetting_book \<times> handled" where
  "tokens_served_arm sdk ctx m sender b =
     (case community_thread m of
        None \<Rightarrow> (b, nothing)
      | Some thread \<Rightarrow>
          let (b, q) = take_query sender thread (Some PcsTokensQuery) b
          in case community_payload (vi_tokens sdk) m of
               Inl detail \<Rightarrow>
                 (case q of
                    None \<Rightarrow> (b, nothing)
                  | Some q \<Rightarrow> (b, only_answer (UnreadableAnswer (cq_document_id q) sender PcsTokensQuery detail)))
             | Inr body \<Rightarrow>
                 let b = forget_draw thread b
                 in (case answered_persona sender q
                             (\<lambda>h. (ts_label body, ts_tick body) \<in> set (vw_draws_in_flight (hv_engine h))) b of
                       None \<Rightarrow> (b, nothing)
                     | Some persona \<Rightarrow>
                         if hidden_vetter_for sender persona b = None then (b, nothing)
                         else (queue_for_vta (TokensServed sender persona body)
                                 (update_engine sender persona (take_served (ts_label body) (ts_tick body) (ix_now ctx)) b),
                               only_changed)))"

definition put_event :: "hidden_event_state \<Rightarrow> hidden_event_state list \<Rightarrow> hidden_event_state list" where
  "put_event row es =
     (if List.find (\<lambda>e. he_event_id e = he_event_id row) es = None then es @ [row]
      else update_first (\<lambda>e. he_event_id e = he_event_id row) (\<lambda>_. row) es)"

definition event_row :: "event_mode_response \<Rightarrow> instant \<Rightarrow> hidden_event_state" where
  "event_row body now =
     \<lparr>he_event_id = em_event_id body, he_tier = em_tier body, he_state = em_state body,
      he_group_size = em_group_size body, he_group_floor = em_group_floor body, he_label = em_label body,
      he_drip_per_tick = em_drip_per_tick body, he_closes_after = em_closes_after body, he_answered_at = now\<rparr>"

definition event_mode_arm ::
  "inbound_sdk \<Rightarrow> inbound_context \<Rightarrow> didcomm_message \<Rightarrow> string \<Rightarrow> vetting_book \<Rightarrow> vetting_book \<times> handled" where
  "event_mode_arm sdk ctx m sender b =
     (case answer_to (vi_event_mode sdk) m sender PcsEventModeQuery b of
        (b, None) \<Rightarrow> (b, nothing)
      | (b, Some (q, Inl unreadable_answer)) \<Rightarrow> (b, only_answer unreadable_answer)
      | (b, Some (q, Inr body)) \<Rightarrow>
          if hidden_vetter_for sender (cq_persona q) b = None then (b, nothing)
          else (update_engine sender (cq_persona q)
                  (\<lambda>h. h\<lparr>hv_events := put_event (event_row body (ix_now ctx)) (hv_events h)\<rparr>) b,
                changed_with (HiddenEventModeNotice sender (em_event_id body) (em_state body = event_approved)
                  (em_group_size body) (em_group_floor body))))"

definition challenge_arm ::
  "inbound_sdk \<Rightarrow> didcomm_message \<Rightarrow> string \<Rightarrow> vetting_book \<Rightarrow> vetting_book \<times> handled" where
  "challenge_arm sdk m sender b =
     (case answer_to (vi_challenge sdk) m sender PcsChallengeQuery b of
        (b, None) \<Rightarrow> (b, nothing)
      | (b, Some (q, Inl unreadable_answer)) \<Rightarrow> (b, only_answer unreadable_answer)
      | (b, Some (q, Inr (challenge, expires_at))) \<Rightarrow>
          (case application_for sender (cq_persona q) b of
             None \<Rightarrow> (b, nothing)
           | Some a \<Rightarrow>
               (b\<lparr>vb_applications := update_first
                     (\<lambda>a. ap_community a = sender \<and> ap_persona a = cq_persona q)
                     (\<lambda>a. a\<lparr>ap_hidden_challenge := Some challenge\<rparr>) (vb_applications b)\<rparr>,
                (changed_with (ChallengeIssuedNotice (ap_id a) expires_at))
                  \<lparr>ho_answer := Some (ChallengeAnswer (cq_document_id q) sender)\<rparr>)))"

definition binding_of :: "binding_response \<Rightarrow> binding" where
  "binding_of r = \<lparr>bi_id = (if bs_bound r then bs_id r else None), bi_reset = bs_reset r\<rparr>"

definition binding_arm ::
  "inbound_sdk \<Rightarrow> inbound_context \<Rightarrow> didcomm_message \<Rightarrow> string \<Rightarrow> vetting_book \<Rightarrow> vetting_book \<times> handled" where
  "binding_arm sdk ctx m sender b =
     (case answer_to (vi_binding sdk) m sender PcsBindingQuery b of
        (b, None) \<Rightarrow> (b, nothing)
      | (b, Some (q, Inl unreadable_answer)) \<Rightarrow> (b, only_answer unreadable_answer)
      | (b, Some (q, Inr body)) \<Rightarrow>
          (case hidden_vetter_for sender (cq_persona q) b of
             None \<Rightarrow> (b, nothing)
           | Some h \<Rightarrow>
               let shown = (\<lambda>h. on_binding_shown (binding_of body) (ix_now ctx) (answered h));
                   b = update_engine sender (cq_persona q) (\<lambda>h. fst (shown h)) b
               in (if snd (shown h) \<noteq> None then b\<lparr>vb_vetter_refresh_due := True\<rparr> else b, only_changed)))"

section \<open>Answers that are only handed on\<close>

definition handed_on_arm ::
  "query_kind \<Rightarrow> (community_query \<Rightarrow> 'p \<Rightarrow> community_answer) \<Rightarrow> (json \<Rightarrow> string + 'p) \<Rightarrow> didcomm_message \<Rightarrow> string \<Rightarrow>
   vetting_book \<Rightarrow> vetting_book \<times> handled" where
  "handed_on_arm k answer read m sender b =
     (case answer_to read m sender k b of
        (b, None) \<Rightarrow> (b, nothing)
      | (b, Some (q, Inl unreadable_answer)) \<Rightarrow> (b, only_answer unreadable_answer)
      | (b, Some (q, Inr v)) \<Rightarrow> (b, only_answer (answer q v)))"

definition wallet_started_arm ::
  "inbound_sdk \<Rightarrow> didcomm_message \<Rightarrow> string \<Rightarrow> vetting_book \<Rightarrow> vetting_book \<times> handled" where
  "wallet_started_arm sdk m sender b =
     handed_on_arm WalletSessionStartQuery (\<lambda>q v. WalletStartedAnswer (cq_document_id q) sender v)
       (vi_wallet_started sdk) m sender b"

definition wallet_status_arm ::
  "inbound_sdk \<Rightarrow> didcomm_message \<Rightarrow> string \<Rightarrow> vetting_book \<Rightarrow> vetting_book \<times> handled" where
  "wallet_status_arm sdk m sender b =
     handed_on_arm WalletSessionStatusQuery (\<lambda>q v. WalletStatusAnswer (cq_document_id q) sender v)
       (vi_wallet_status sdk) m sender b"

definition vetter_list_arm ::
  "inbound_sdk \<Rightarrow> didcomm_message \<Rightarrow> string \<Rightarrow> vetting_book \<Rightarrow> vetting_book \<times> handled" where
  "vetter_list_arm sdk m sender b =
     handed_on_arm VetterListQuery (\<lambda>q v. VettersAnswer (cq_document_id q) sender v) (vi_vetters sdk) m sender b"

definition profile_arm ::
  "inbound_sdk \<Rightarrow> didcomm_message \<Rightarrow> string \<Rightarrow> vetting_book \<Rightarrow> vetting_book \<times> handled" where
  "profile_arm sdk m sender b =
     (case answer_to (vi_profile sdk) m sender VetterProfileQuery b of
        (b, None) \<Rightarrow> (b, nothing)
      | (b, Some (q, Inl unreadable_answer)) \<Rightarrow> (b, only_answer unreadable_answer)
      | (b, Some (q, Inr (listed, updated_at))) \<Rightarrow>
          let (b, changed) = on_profile_stored sender (cq_persona q) listed updated_at b
          in (b, nothing\<lparr>ho_changed := changed, ho_notice := Some (ProfilePublishedNotice sender listed),
                         ho_answer := Some (ProfileStoredAnswer sender listed updated_at)\<rparr>))"

definition resent_arm ::
  "inbound_sdk \<Rightarrow> didcomm_message \<Rightarrow> string \<Rightarrow> vetting_book \<Rightarrow> vetting_book \<times> handled" where
  "resent_arm sdk m sender b =
     (case answer_to (vi_resend sdk) m sender VetterResendQuery b of
        (b, None) \<Rightarrow> (b, nothing)
      | (b, Some (q, Inl unreadable_answer)) \<Rightarrow> (b, only_answer unreadable_answer)
      | (b, Some (q, Inr valid_until)) \<Rightarrow>
          (b, nothing\<lparr>ho_notice := Some (GrantResentNotice sender valid_until),
                      ho_answer := Some (ResentAnswer sender valid_until)\<rparr>))"

definition withdrawal_arm ::
  "inbound_sdk \<Rightarrow> didcomm_message \<Rightarrow> string \<Rightarrow> vetting_book \<Rightarrow> vetting_book \<times> handled" where
  "withdrawal_arm sdk m sender b =
     (case community_payload (vi_revoked sdk) m of
        Inl _ \<Rightarrow> (b, nothing)
      | Inr recorded_at \<Rightarrow>
          (case community_thread m of
             None \<Rightarrow> (b, nothing)
           | Some thread \<Rightarrow>
               (case List.find (withdraws sender thread) (vb_issued b) of
                  None \<Rightarrow> (b, nothing)
                | Some s \<Rightarrow>
                    (on_withdrawal_recorded sender thread recorded_at b,
                     changed_with (WithdrawalRecordedNotice (is_id s))))))"

section \<open>A community's manifest\<close>

definition solicits :: "account \<Rightarrow> string \<Rightarrow> vetting_book \<Rightarrow> bool" where
  "solicits acc community b \<longleftrightarrow>
     list_ex (about_manifest community) (vb_queries b) \<or>
     list_ex (\<lambda>a. ap_community a = community) (vb_applications b) \<or> memberships_for acc community \<noteq> []"

definition adopt_one ::
  "applicant_sdk \<Rightarrow> string \<Rightarrow> manifest \<Rightarrow> json \<Rightarrow> application \<Rightarrow> application \<times> bool \<times> notice option" where
  "adopt_one sdk community mf raw a =
     (if ap_community a \<noteq> community then (a, False, None)
      else case adopt_manifest sdk (mf_criteria mf) raw a of
             Inr (a', ch) \<Rightarrow>
               (a', ch, if ch then Some (RequirementsUpdatedNotice (ap_id a) community) else None)
           | Inl (HiddenErr e) \<Rightarrow>
               (a, False, Some (RequirementsUnsupportedNotice (ap_id a) community (hidden_error_words e)))
           | Inl _ \<Rightarrow> (a, False, None))"

definition last_notice :: "notice option list \<Rightarrow> notice option" where
  "last_notice ns = (case rev (List.map_filter (\<lambda>n. n) ns) of [] \<Rightarrow> None | n # _ \<Rightarrow> Some n)"

definition adopt_all ::
  "applicant_sdk \<Rightarrow> string \<Rightarrow> manifest \<Rightarrow> json \<Rightarrow> vetting_book \<Rightarrow> vetting_book \<times> bool \<times> notice option" where
  "adopt_all sdk community mf raw b =
     (let rs = map (adopt_one sdk community mf raw) (vb_applications b)
      in (b\<lparr>vb_applications := map fst rs\<rparr>, list_ex (fst \<circ> snd) rs, last_notice (map (snd \<circ> snd) rs)))"

definition manifest_arm ::
  "inbound_sdk \<Rightarrow> inbound_context \<Rightarrow> didcomm_message \<Rightarrow> string \<Rightarrow> vetting_book \<Rightarrow> vetting_book \<times> handled" where
  "manifest_arm sdk ctx m sender b =
     (let thread = community_thread m in
      if \<not> solicits (ix_account ctx) sender b then (b, nothing)
      else case community_payload (read_manifest sdk) m of
             Inl detail \<Rightarrow>
               (let (b, qs) = take_manifest_queries sender thread (mode_failed sender (ModeUnreadable detail) (ix_now ctx) b)
                in (b, nothing\<lparr>ho_answer := (case qs of
                         [] \<Rightarrow> None
                       | q # _ \<Rightarrow> Some (UnreadableAnswer (cq_document_id q) sender ManifestQuery detail))\<rparr>))
           | Inr (mf, meta) \<Rightarrow>
               (let raw = (case jget ''payload'' (dm_body m) of None \<Rightarrow> JNull | Some p \<Rightarrow> p);
                    asdk = vi_applicant sdk;
                    before = reading_mode (vetter_mode asdk sender b);
                    (b, c1) = learn_manifest_in asdk sender mf (vi_asked sdk mf) (Some V0_4) meta (ix_now ctx) b;
                    (b, c2) = learn_mode asdk sender raw before (ix_now ctx) b;
                    (b, c3) = learn_directory sdk sender raw b;
                    (b, c4, n) = adopt_all asdk sender mf raw b;
                    (b, qs) = take_manifest_queries sender thread b
                in (b, nothing\<lparr>ho_changed := (c1 \<or> c2 \<or> c3 \<or> c4), ho_notice := n,
                               ho_answer := (if qs = [] then None else Some (ManifestAnswer sender))\<rparr>)))"

section \<open>Refusals\<close>

definition tick_not_yet_retry :: duration where "tick_not_yet_retry = minutes 5"

definition say_refused :: "community_query \<Rightarrow> string \<Rightarrow> string \<Rightarrow> notice" where
  "say_refused q sender code = HiddenRefusedNotice sender (describe_query (cq_kind q)) code"

definition keep_refusal :: "community_query \<Rightarrow> string \<Rightarrow> instant \<Rightarrow> hidden_vetter_state \<Rightarrow> hidden_vetter_state" where
  "keep_refusal q code now h =
     h\<lparr>hv_last_refusal := Some \<lparr>hr_what = describe_query (cq_kind q), hr_code = code, hr_at = now\<rparr>\<rparr>"

text \<open>An enrolment refused as already made: the answer under the label owed was lost.\<close>

definition note_lost :: "hidden_vetter_state \<Rightarrow> hidden_vetter_state" where
  "note_lost h =
     (let owed = enrolment_owed h
      in h\<lparr>hv_lost_reasked := (if owed \<noteq> hv_lost_enrolment h then False else hv_lost_reasked h),
           hv_lost_enrolment := owed\<rparr>)"

text \<open>The draw a refusal names no more than by its question.\<close>

definition refused_draw ::
  "community_query \<Rightarrow> string \<Rightarrow> vetting_book \<Rightarrow> vetting_book \<times> (string \<times> tick) option" where
  "refused_draw q sender b =
     (if cq_kind q \<noteq> PcsTokensQuery then (b, None)
      else
        let draw = map_of (vb_draws_in_flight b) (cq_document_id q); b = forget_draw (cq_document_id q) b
        in case draw of
             None \<Rightarrow> (b, None)
           | Some (label, t) \<Rightarrow>
               (if hidden_vetter_for sender (cq_persona q) b = None then b
                else queue_for_vta (DrawRefused sender (cq_persona q) label t) b, draw))"

definition hidden_refused ::
  "inbound_sdk \<Rightarrow> inbound_context \<Rightarrow> community_query \<Rightarrow> string \<Rightarrow> string \<Rightarrow> string option \<Rightarrow> vetting_book \<Rightarrow>
   vetting_book \<times> bool \<times> notice option" where
  "hidden_refused sdk ctx q sender code detail b =
     (let (b, draw) = refused_draw q sender b;
          now = ix_now ctx;
          change = update_engine sender (cq_persona q);
          codes = vi_codes sdk
      in if hidden_vetter_for sender (cq_persona q) b = None then (b, False, Some (say_refused q sender code))
         else
           let b = change answered b in
           if cq_kind q = PcsRootQuery \<and> ends_with code '':identifierRebound'' then
             ((change (\<lambda>h. keep_refusal q code now (on_rebound now h)) b)\<lparr>vb_vetter_refresh_due := True\<rparr>,
              True, Some (say_refused q sender code))
           else
             let b = (if cq_kind q = PcsRootQuery \<and> ends_with code '':alreadyEnrolled'' then change note_lost b else b)
             in if code = rf_tick_not_yet codes then
                  (change (\<lambda>h. h\<lparr>hv_retry_at := Some (now + tick_not_yet_retry)\<rparr>) b, True, None)
                else if code = rf_already_served codes then
                  (case draw of
                     None \<Rightarrow> (b, True, None)
                   | Some (label, t) \<Rightarrow> (change (record_served label t) b, True, None))
                else
                  (case (if cq_kind q = PcsTokensQuery \<and> code = rf_over_quota codes then draw else None) of
                     Some (label, _) \<Rightarrow>
                       ((change (\<lambda>h. keep_refusal q code now (refused_over_quota label detail now h)) b)
                          \<lparr>vb_vetter_refresh_due := True\<rparr>,
                        True, Some (say_refused q sender code))
                   | None \<Rightarrow> (change (keep_refusal q code now) b, True, Some (say_refused q sender code))))"

definition query_refused ::
  "inbound_sdk \<Rightarrow> inbound_context \<Rightarrow> community_query \<Rightarrow> string \<Rightarrow> string \<Rightarrow> string option \<Rightarrow> vetting_book \<Rightarrow>
   vetting_book \<times> bool \<times> notice option" where
  "query_refused sdk ctx q sender code detail b =
     (case cq_kind q of
        VetterProfileQuery \<Rightarrow>
          (let (b, changed) = on_profile_refused sender (cq_persona q) code (ix_now ctx) b
           in (b, changed, Some (ProfileRefusedNotice sender code)))
      | VetterResendQuery \<Rightarrow> (b, False, Some (ResendRefusedNotice sender code))
      | PcsRootQuery \<Rightarrow> hidden_refused sdk ctx q sender code detail b
      | PcsTokensQuery \<Rightarrow> hidden_refused sdk ctx q sender code detail b
      | PcsEventModeQuery \<Rightarrow> hidden_refused sdk ctx q sender code detail b
      | PcsChallengeQuery \<Rightarrow> hidden_refused sdk ctx q sender code detail b
      | PcsBindingQuery \<Rightarrow> hidden_refused sdk ctx q sender code detail b
      | ManifestQuery \<Rightarrow> (mode_failed sender (ModeRefused code) (ix_now ctx) b, False, None)
      | VetterListQuery \<Rightarrow> (b, False, None)
      | WalletSessionStartQuery \<Rightarrow> (b, False, None)
      | WalletSessionStatusQuery \<Rightarrow> (b, False, None))"

text \<open>A refusal of whatever was sent on a thread: a request to a vetter, a question, or a withdrawal.\<close>

definition refusal_of ::
  "inbound_sdk \<Rightarrow> inbound_context \<Rightarrow> string \<Rightarrow> string \<Rightarrow> string \<Rightarrow> string option \<Rightarrow> vetting_book \<Rightarrow>
   vetting_book \<times> handled option" where
  "refusal_of sdk ctx thread sender code detail b =
     (case List.find (sent thread) (vb_applications b) of
        Some a \<Rightarrow>
          (case on_refused thread sender code detail (ix_now ctx) a of
             Inr a' \<Rightarrow>
               (b\<lparr>vb_applications := update_first (sent thread) (\<lambda>_. a') (vb_applications b)\<rparr>,
                Some (changed_with (VetterRefusedNotice (ap_id a) sender code)))
           | Inl _ \<Rightarrow> (b, Some nothing))
      | None \<Rightarrow>
          (case take_query sender thread None b of
             (b, Some q) \<Rightarrow>
               let (b, changed, n) = query_refused sdk ctx q sender code detail b
               in (b, Some (nothing\<lparr>ho_changed := changed, ho_notice := n,
                     ho_answer := Some (RefusedAnswer (cq_document_id q) sender (cq_kind q) code detail)\<rparr>))
           | (b, None) \<Rightarrow>
               (case List.find (withdraws sender thread) (vb_issued b) of
                  None \<Rightarrow> (b, None)
                | Some s \<Rightarrow> (b, Some (nothing\<lparr>ho_notice := Some (WithdrawalRefusedNotice (is_id s) code)\<rparr>)))))"

definition refused_arm ::
  "inbound_sdk \<Rightarrow> inbound_context \<Rightarrow> didcomm_message \<Rightarrow> string \<Rightarrow> vetting_book \<Rightarrow> vetting_book \<times> handled option" where
  "refused_arm sdk ctx m sender b =
     (case community_thread m of
        None \<Rightarrow> (b, None)
      | Some thread \<Rightarrow>
          refusal_of sdk ctx thread sender (pointer_text [''payload'', ''code''] (dm_body m))
            (Option.bind (jpointer [''payload'', ''message''] (dm_body m)) jstr) b)"

definition problem_arm ::
  "inbound_sdk \<Rightarrow> inbound_context \<Rightarrow> didcomm_message \<Rightarrow> string \<Rightarrow> vetting_book \<Rightarrow> vetting_book \<times> handled option" where
  "problem_arm sdk ctx m sender b =
     (case dm_thid m of
        None \<Rightarrow> (b, None)
      | Some thread \<Rightarrow>
          let (code, comment) = vi_problem sdk (dm_body m)
          in refusal_of sdk ctx thread sender code (if comment = [] then None else Some comment) b)"

section \<open>The router\<close>

text \<open>
  The arms in the order of the match. The second component says whether a community's verified answer is recorded
  after the arm: the arms that return from \<open>handle\<close> at once do not reach that.
\<close>

definition route ::
  "inbound_sdk \<Rightarrow> string \<Rightarrow> string \<Rightarrow> inbound_context \<Rightarrow> didcomm_message \<Rightarrow> string \<Rightarrow> vetting_book \<Rightarrow>
   vetting_book \<times> handled option \<times> bool" where
  "route sdk request_id reply_id ctx m sender b =
     (let vt = vi_types sdk; typ = dm_type m;
          on = (\<lambda>(b, h). (b, Some h, True)); at_once = (\<lambda>(b, h). (b, h, False))
      in if typ = vt_request vt then on (request_arm sdk request_id reply_id ctx m sender b)
         else if typ = vt_request_response vt then on (accepted_arm sdk ctx m sender b)
         else if typ = vt_session vt then on (session_arm sdk ctx m sender b)
         else if typ = vt_session_response vt then on (card_arm sdk ctx m sender b)
         else if typ = vt_decline vt then on (declined_arm sdk ctx m sender b)
         else if typ = vt_revoke_response vt then on (withdrawal_arm sdk m sender b)
         else if typ = vt_list_response vt then on (vetter_list_arm sdk m sender b)
         else if typ = vt_profile_response vt then on (profile_arm sdk m sender b)
         else if typ = vt_resend_response vt then on (resent_arm sdk m sender b)
         else if from_manifest_response vt typ \<noteq> None then on (manifest_arm sdk ctx m sender b)
         else if typ = vt_issue vt then at_once (issue_arm sdk ctx m sender b)
         else if typ = hidden_attestation_type then at_once (apsnd Some (attestation_arm ctx m b))
         else if typ = response_of root_type then on (enrolled_arm sdk m sender b)
         else if typ = response_of tokens_type then on (tokens_served_arm sdk ctx m sender b)
         else if typ = response_of event_mode_type then on (event_mode_arm sdk ctx m sender b)
         else if typ = response_of challenge_type then on (challenge_arm sdk m sender b)
         else if typ = response_of (vt_binding_show vt) then on (binding_arm sdk ctx m sender b)
         else if typ = response_of (vt_wallet_start vt) then on (wallet_started_arm sdk m sender b)
         else if typ = response_of (vt_wallet_status vt) then on (wallet_status_arm sdk m sender b)
         else if is_trust_task_error_type typ then at_once (refused_arm sdk ctx m sender b)
         else if typ = vt_problem_report vt then at_once (problem_arm sdk ctx m sender b)
         else (b, None, False))"

definition acted :: "handled \<Rightarrow> bool" where
  "acted h \<longleftrightarrow> ho_changed h \<or> ho_answer h \<noteq> None \<or> ho_notice h \<noteq> None"

definition handle ::
  "inbound_sdk \<Rightarrow> string \<Rightarrow> string \<Rightarrow> inbound_context \<Rightarrow> didcomm_message \<Rightarrow> string \<Rightarrow>
   vetting_book \<times> seen_documents \<Rightarrow> (vetting_book \<times> seen_documents) \<times> handled option" where
  "handle sdk request_id reply_id ctx m sender s =
     (let (b, seen) = s;
          answer = is_community_answer_type (vi_types sdk) (dm_type m);
          pending = (if answer then community_signed sdk ctx seen m sender else None)
      in if answer \<and> pending = None then ((b, seen), Some nothing)
         else
           let (b', h, goes_on) = route sdk request_id reply_id ctx m sender b
           in case (pending, h) of
                (Some v, Some out) \<Rightarrow>
                  if goes_on \<and> acted out then ((b', snd (vo_commit v seen (ix_now ctx))), Some out)
                  else ((b', seen), Some out)
              | _ \<Rightarrow> ((b', seen), h))"

end
