(* ===== verification/VettingSafety.thy ===== *)
theory VettingSafety
  imports VettingInbound BookFlow DeskFlow HiddenPlan
begin

text \<open>
  What a vetting message can do. Every message moves the applications along the steps of \<open>ApplicantFlow\<close> and the
  desk along those of \<open>DeskFlow\<close>; a grant comes only from the community; an answer is taken for a question that was
  asked, and a community's answer once.
\<close>

section \<open>Messages are steps of the applications\<close>

definition app_run :: "applicant_sdk \<Rightarrow> application \<Rightarrow> application \<Rightarrow> bool" where
  "app_run sdk a a' \<longleftrightarrow> ap_id a' = ap_id a \<and> app_key a' = app_key a \<and> (app_step sdk)\<^sup>*\<^sup>* a a'"

definition apps_run :: "applicant_sdk \<Rightarrow> vetting_book \<Rightarrow> vetting_book \<Rightarrow> bool" where
  "apps_run sdk b b' \<longleftrightarrow> list_all2 (app_run sdk) (vb_applications b) (vb_applications b')"

lemma app_run_refl [simp]: "app_run sdk a a"
  by (simp add: app_run_def)

lemma apps_same: "vb_applications b' = vb_applications b \<Longrightarrow> apps_run sdk b b'"
  by (simp add: apps_run_def list.rel_refl)

lemma apps_run_same [simp]: "apps_run sdk b b"
  by (simp add: apps_same)

lemma apps_run_trans: "apps_run sdk b b1 \<Longrightarrow> apps_run sdk b1 b2 \<Longrightarrow> apps_run sdk b b2"
  unfolding apps_run_def
  by (erule (1) list_all2_trans [rotated]) (auto simp: app_run_def intro: rtranclp_trans)

lemma update_first_run:
  "(\<And>a. List.find p as = Some a \<Longrightarrow> app_run sdk a (f a)) \<Longrightarrow> list_all2 (app_run sdk) as (update_first p f as)"
  by (induction as) (auto intro: list.rel_refl)

lemma app_run_step: "app_step sdk a a' \<Longrightarrow> ap_id a' = ap_id a \<Longrightarrow> app_key a' = app_key a \<Longrightarrow> app_run sdk a a'"
  by (auto simp: app_run_def)

lemma accepted_run:
  assumes "on_accepted sdk thread vetter rsp el now a = Inr a'"
  shows "app_run sdk a a'"
  using app_step.accepted [OF assms] assms
  by (auto intro!: app_run_step simp: on_accepted_def result_simps app_key_def)

lemma noted_run: "app_run sdk a (note_grant_status thread vetter status a)"
proof (cases "record_grant_status thread vetter status a")
  case (Inr a')
  then show ?thesis
    using app_step.grant [OF Inr, of sdk]
    by (auto intro!: app_run_step simp: note_grant_status_def record_grant_status_def result_simps app_key_def)
qed (simp add: note_grant_status_def)

lemma app_run_trans: "app_run sdk a a1 \<Longrightarrow> app_run sdk a1 a2 \<Longrightarrow> app_run sdk a a2"
  by (auto simp: app_run_def intro: rtranclp_trans)

lemma start_check_run: "app_run sdk a (fst (start_grant_check now thread vetter entry a))"
  by (auto simp: start_grant_check_def noted_run split: option.split)

lemma session_run:
  assumes "on_session sdk sid doc vetter sb now a = Inr (a', s)"
  shows "app_run sdk a a'"
  using app_step.session [OF assms] assms
  by (auto intro!: app_run_step simp: on_session_def result_simps Let_def app_key_def)

lemma decline_run:
  assumes "on_decline sdk vetter db now a = Inr a'"
  shows "app_run sdk a a'"
  using app_step.decline [OF assms] assms
  by (auto intro!: app_run_step simp: on_decline_def result_simps app_key_def)

lemma refused_run:
  assumes "on_refused thread vetter code message now a = Inr a'"
  shows "app_run sdk a a'"
  using app_step.refused [OF assms, of sdk] assms
  by (auto intro!: app_run_step simp: on_refused_def result_simps app_key_def)

lemma statement_run:
  assumes "on_statement sdk vetter credential now a = Inr (a', held)"
  shows "app_run sdk a a'"
  using assms
proof (cases rule: on_statement_cases)
  case (taken v r i s c m)
  then show ?thesis
    using app_step.statement [OF assms] by (auto intro!: app_run_step simp: app_key_def)
qed simp

lemma challenge_run: "app_run sdk a (a\<lparr>ap_hidden_challenge := ch\<rparr>)"
proof -
  have "app_step sdk a (a\<lparr>ap_face := ap_face a, ap_context_id := ap_context_id a, ap_vetting_path := ap_vetting_path a,
      ap_hidden_app := ap_hidden_app a, ap_hidden_challenge := ch, ap_criterion_repicked := ap_criterion_repicked a\<rparr>)"
    by (rule app_step.chosen)
  then show ?thesis by (auto intro!: app_run_step simp: app_key_def)
qed

lemma adopt_manifest_run:
  assumes "adopt_manifest sdk criteria raw a = Inr (a', ch)"
  shows "app_run sdk a a'"
proof -
  obtain c :: manifest_criterion and r where "adopt_criterion sdk (mc_id c) r (Some (mc_digest c)) (raw_criterion raw (mc_id c)) a = Inr (a', ch)"
    using assms by (auto simp: adopt_manifest_def result_simps split: prod.splits)
  with app_step.adopt [OF this] show ?thesis
    by (auto intro!: app_run_step simp: adopted_key adopted_frame)
qed

lemma taken_iff: "taken r \<longleftrightarrow> (\<exists>x. r = Inr x)"
  by (cases r) (simp_all add: taken_def)

section \<open>The moves a message makes\<close>

text \<open>
  \<open>own_app\<close>: an application to the sender's community, or one that has asked the sender for vetting. \<open>granting\<close>: what
  makes a grant the sender's to give.
\<close>

definition own_app :: "string \<Rightarrow> application \<Rightarrow> bool" where
  "own_app sender a \<longleftrightarrow> ap_community a = sender \<or> list_ex (\<lambda>r. or_vetter r = sender) (ap_requests a)"

definition granting ::
  "inbound_sdk \<Rightarrow> inbound_context \<Rightarrow> didcomm_message \<Rightarrow> string \<Rightarrow> vetter_grant \<Rightarrow> bool" where
  "granting sdk ctx m sender g \<longleftrightarrow>
     dm_type m = vt_issue (vi_types sdk) \<and> taken (open_document sdk read_value m sender) \<and>
     credential_in_issue m = Some (gr_credential g) \<and> ix_issued ctx = Some (Inr (gr_credential g)) \<and>
     names_vetter sdk (gr_credential g) = Some sender \<and> issuer_of (gr_credential g) = Some sender \<and>
     gr_community g = sender \<and> membership (ix_account ctx) sender (gr_persona g) \<noteq> None \<and>
     (\<exists>our_did. ix_recipient ctx = Some (gr_persona g, our_did) \<and>
        jpointer [''credentialSubject'', ''id''] (gr_credential g) = Some (JString our_did))"

definition own_apps ::
  "inbound_sdk \<Rightarrow> string \<Rightarrow> application list \<Rightarrow> application list \<Rightarrow> bool" where
  "own_apps sdk sender = list_all2 (\<lambda>a a'. a' = a \<or> own_app sender a \<and> app_run (vi_applicant sdk) a a')"

definition own_engines :: "string \<Rightarrow> hidden_vetter_state list \<Rightarrow> hidden_vetter_state list \<Rightarrow> bool" where
  "own_engines sender =
     list_all2 (\<lambda>h h'. h' = h \<or> hv_community h = sender \<and> hv_community h' = sender \<and> hv_persona h' = hv_persona h)"

inductive vetting_move ::
  "inbound_sdk \<Rightarrow> inbound_context \<Rightarrow> didcomm_message \<Rightarrow> string \<Rightarrow> vetting_book \<Rightarrow> vetting_book \<Rightarrow> bool"
  for sdk ctx m sender where
  apps: "own_apps sdk sender (vb_applications b) as \<Longrightarrow> vetting_move sdk ctx m sender b (b\<lparr>vb_applications := as\<rparr>)"
| engines: "own_engines sender (vb_hidden_vetter b) hs \<Longrightarrow> vetting_move sdk ctx m sender b (b\<lparr>vb_hidden_vetter := hs\<rparr>)"
| queries: "filter (\<lambda>q. cq_community q \<noteq> sender) qs = filter (\<lambda>q. cq_community q \<noteq> sender) (vb_queries b) \<Longrightarrow>
    mset qs \<subseteq># mset (vb_queries b) \<Longrightarrow> vetting_move sdk ctx m sender b (b\<lparr>vb_queries := qs\<rparr>)"
| draw: "vetting_move sdk ctx m sender b (forget_draw t b)"
| queued: "vetting_move sdk ctx m sender b (queue_for_vta q b)"
| flag: "vetting_move sdk ctx m sender b (b\<lparr>vb_vetter_refresh_due := d\<rparr>)"
| grant: "granting sdk ctx m sender g \<Longrightarrow> vetting_move sdk ctx m sender b (fst (keep_vetter_grant g b))"
| learnt: "vetting_move sdk ctx m sender b (fst (learn_manifest_in (vi_applicant sdk) sender mf rq p meta now b))"
| published: "(\<And>c. c \<noteq> sender \<Longrightarrow> map_of hp c = map_of (vb_hidden_published b) c) \<Longrightarrow>
    vetting_move sdk ctx m sender b (b\<lparr>vb_hidden_published := hp\<rparr>)"
| checks: "vetting_move sdk ctx m sender b (set_check sender f b)"
| switches: "vetting_move sdk ctx m sender b (b\<lparr>vb_mode_switches := sw\<rparr>)"
| community: "(\<And>c. km_community (f c) = km_community c) \<Longrightarrow>
    vetting_move sdk ctx m sender b
      (b\<lparr>vb_communities := update_first (\<lambda>c. km_community c = sender) f (vb_communities b)\<rparr>)"
| profile: "vetting_move sdk ctx m sender b (fst (set_profile_state sender persona st b))"
| withdrawn: "vetting_move sdk ctx m sender b (on_withdrawal_recorded sender t at b)"
| retired: "vetting_move sdk ctx m sender b (b\<lparr>vb_retired := filter keep (vb_retired b)\<rparr>)"
| request: "in_sender inc = sender \<Longrightarrow> vetting_move sdk ctx m sender b (fst (take_request (vi_vetter sdk) i inc now b))"
| card: "receive_card (vi_vetter sdk) did sender sid c now b = Inr b' \<Longrightarrow> vetting_move sdk ctx m sender b b'"

abbreviation vetting_moves ::
  "inbound_sdk \<Rightarrow> inbound_context \<Rightarrow> didcomm_message \<Rightarrow> string \<Rightarrow> vetting_book \<Rightarrow> vetting_book \<Rightarrow> bool" where
  "vetting_moves sdk ctx m sender \<equiv> (vetting_move sdk ctx m sender)\<^sup>*\<^sup>*"

lemma one_move: "vetting_move sdk ctx m sender b b' \<Longrightarrow> vetting_moves sdk ctx m sender b b'"
  by (rule r_into_rtranclp)

lemmas move = vetting_move.intros [THEN one_move]

lemma moves_then: "vetting_moves sdk ctx m sender b b1 \<Longrightarrow> vetting_moves sdk ctx m sender b1 b2 \<Longrightarrow>
    vetting_moves sdk ctx m sender b b2"
  by (rule rtranclp_trans)

lemma own_apps_update:
  assumes "\<And>a. List.find p as = Some a \<Longrightarrow> own_app sender a \<and> app_run (vi_applicant sdk) a (f a)"
  shows "own_apps sdk sender as (update_first p f as)"
  unfolding own_apps_def using assms by (induction as) (auto intro: list.rel_refl)

lemma move_app:
  assumes "List.find p (vb_applications b) = Some a" "own_app sender a" "app_run (vi_applicant sdk) a (f a)"
  shows "vetting_moves sdk ctx m sender b (b\<lparr>vb_applications := update_first p f (vb_applications b)\<rparr>)"
  using assms by (intro move(1) own_apps_update) auto

lemma own_engines_update:
  assumes "\<And>h. List.find p hs = Some h \<Longrightarrow> hv_community h = sender"
    and "\<And>h. hv_community (f h) = hv_community h" "\<And>h. hv_persona (f h) = hv_persona h"
  shows "own_engines sender hs (update_first p f hs)"
  unfolding own_engines_def using assms by (induction hs) (auto intro: list.rel_refl)

lemma move_engine:
  assumes "\<And>h. hv_community (f h) = hv_community h" "\<And>h. hv_persona (f h) = hv_persona h"
  shows "vetting_moves sdk ctx m sender b (update_engine sender persona f b)"
  unfolding update_engine_def
  by (intro move(2) own_engines_update) (auto dest!: find_SomeD simp: assms)

lemma remove_first_kept: "(\<And>x. p x \<Longrightarrow> \<not> q x) \<Longrightarrow> filter q (remove_first p xs) = filter q xs"
  by (induction xs) auto

lemma remove_first_mset: "mset (remove_first p xs) \<subseteq># mset xs"
  by (induction xs) (auto simp: subset_mset.le_iff_add)

lemma move_take_query: "vetting_moves sdk ctx m sender b (fst (take_query sender t k b))"
  by (auto simp: take_query_def answers_query_def intro!: move(3) remove_first_kept remove_first_mset
      split: option.split)


section \<open>Every arm is such moves\<close>

lemma by_thread_vetter: "List.find (by_thread t v) rs = Some r \<Longrightarrow> list_ex (\<lambda>r. or_vetter r = v) rs"
  by (drule find_SomeD) (auto simp: list_ex_iff by_thread_def)

lemma by_request_id_vetter: "find_last (by_request_id i v) rs = Some r \<Longrightarrow> list_ex (\<lambda>r. or_vetter r = v) rs"
  by (drule find_last_SomeD) (auto simp: list_ex_iff by_request_id_def)

lemma accepted_own: "on_accepted sdk thread vetter rsp el now a = Inr a' \<Longrightarrow> own_app vetter a"
  by (auto simp: own_app_def on_accepted_def result_simps dest: by_thread_vetter)

lemma session_own: "on_session sdk sid doc vetter sb now a = Inr x \<Longrightarrow> own_app vetter a"
  by (cases x) (auto simp: own_app_def on_session_def result_simps Let_def dest: by_request_id_vetter)

lemma decline_own: "on_decline sdk vetter db now a = Inr a' \<Longrightarrow> own_app vetter a"
  by (auto simp: own_app_def on_decline_def result_simps dest: by_request_id_vetter)

lemma refused_own: "on_refused thread vetter code message now a = Inr a' \<Longrightarrow> own_app vetter a"
  by (auto simp: own_app_def on_refused_def result_simps dest: by_thread_vetter)

lemma flag_after:
  "vetting_moves sdk ctx m sender b b' \<Longrightarrow> vetting_moves sdk ctx m sender b (b'\<lparr>vb_vetter_refresh_due := d\<rparr>)"
  by (erule moves_then) (rule move(6))

lemma retired_after:
  "vetting_moves sdk ctx m sender b b' \<Longrightarrow>
     vetting_moves sdk ctx m sender b (b'\<lparr>vb_retired := filter keep (vb_retired b')\<rparr>)"
  by (erule moves_then) (rule move(15))

lemma request_moves: "vetting_moves sdk ctx m sender b (fst (request_arm sdk i j ctx m sender b))"
proof (cases "ix_recipient ctx")
  case (Some r)
  have "vetting_moves sdk ctx m sender b b'"
    if "take_request (vi_vetter sdk) i \<lparr>in_document_id = d, in_sender = sender, in_persona = p, in_body = x,
          in_eligible = el\<rparr> now b = (b', k)" for b' d p x el now k
    using move(16) [of "\<lparr>in_document_id = d, in_sender = sender, in_persona = p, in_body = x, in_eligible = el\<rparr>"
        sender sdk ctx m b i now] that by simp
  then show ?thesis
    using Some by (auto simp: request_arm_def Let_def intro: flag_after split: sum.split prod.split intake.split)
qed (simp add: request_arm_def)

lemma accepted_moves: "vetting_moves sdk ctx m sender b (fst (accepted_arm sdk ctx m sender b))"
proof -
  have "vetting_moves sdk ctx m sender b
      (b\<lparr>vb_applications := update_first (sent thread) (\<lambda>_. a'') (vb_applications b)\<rparr>)"
    if "List.find (sent thread) (vb_applications b) = Some a"
      "on_accepted (vi_applicant sdk) thread sender rsp el now a = Inr a'"
      "start_grant_check now' t' v' entry a' = (a'', check)" for thread a rsp el now a' now' t' v' entry a'' check
  proof (rule move_app [OF that(1)])
    show "own_app sender a" using that(2) by (rule accepted_own)
    have "app_run (vi_applicant sdk) a' a''"
      using start_check_run [of "vi_applicant sdk" a' now' t' v' entry] that(3) by simp
    then show "app_run (vi_applicant sdk) a a''" by (rule app_run_trans [OF accepted_run [OF that(2)]])
  qed
  then show ?thesis
    by (auto simp: accepted_arm_def Let_def split: sum.split prod.split option.split)
qed

lemma session_moves: "vetting_moves sdk ctx m sender b (fst (session_arm sdk ctx m sender b))"
  by (auto simp: session_arm_def application_for_def intro!: move_app intro: session_own session_run
      split: sum.split prod.split option.split)

lemma card_moves: "vetting_moves sdk ctx m sender b (fst (card_arm sdk ctx m sender b))"
  by (auto simp: card_arm_def intro: move(17) split: sum.split prod.split option.split)

lemma declined_moves: "vetting_moves sdk ctx m sender b (fst (declined_arm sdk ctx m sender b))"
proof -
  have "own_app sender a \<and> app_run (vi_applicant sdk) a (projr (on_decline (vi_applicant sdk) sender db now a))"
    if "List.find (\<lambda>a. taken (on_decline (vi_applicant sdk) sender db now a)) as = Some a" for as a db now
    using find_SomeD [OF that] by (auto simp: taken_iff dest: decline_own decline_run)
  then show ?thesis
    by (auto simp: declined_arm_def Let_def intro!: move_app split: sum.split prod.split option.split)
qed

lemma grant_moves:
  assumes "dm_type m = vt_issue (vi_types sdk)" "credential_in_issue m = Some credential"
    and "names_vetter sdk credential = Some community"
  shows "vetting_moves sdk ctx m sender b (fst (grant_delivery_arm sdk ctx m sender credential community b))"
proof -
  have "vetting_moves sdk ctx m sender b (fst (vetter_grant_arm sdk ctx credential community sender b))"
    if opened: "open_document sdk read_value m sender = Inr x" and checked: "ix_issued ctx = Some (Inr credential)" for x
  proof -
    have "granting sdk ctx m sender
        \<lparr>gr_community = community, gr_persona = p, gr_credential_id = ci, gr_valid_until = vu, gr_received_at = ra,
         gr_credential = credential\<rparr>"
      if "ix_recipient ctx = Some (p, our_did)" "community = sender" "issuer_of credential = Some sender"
        "Option.bind (jpointer [''credentialSubject'', ''id''] credential) jstr = Some our_did"
        "membership (ix_account ctx) community p \<noteq> None" for p our_did ci vu ra
    proof -
      note given = that
      obtain v where "jpointer [''credentialSubject'', ''id''] credential = Some v" "jstr v = Some our_did"
        using given(4) by (cases "jpointer [''credentialSubject'', ''id''] credential") auto
      then have "jpointer [''credentialSubject'', ''id''] credential = Some (JString our_did)" by (cases v) auto
      with given assms opened checked show ?thesis by (simp add: granting_def taken_def)
    qed
    then have "vetting_moves sdk ctx m sender b b'"
      if "ix_recipient ctx = Some (p, our_did)" "community = sender" "issuer_of credential = Some sender"
        "Option.bind (jpointer [''credentialSubject'', ''id''] credential) jstr = Some our_did"
        "membership (ix_account ctx) community p \<noteq> None"
        "keep_vetter_grant \<lparr>gr_community = community, gr_persona = p, gr_credential_id = ci, gr_valid_until = vu,
           gr_received_at = ra, gr_credential = credential\<rparr> b = (b', ch)" for p our_did ci vu ra b' ch
      using move(7) [of sdk ctx m sender "\<lparr>gr_community = community, gr_persona = p, gr_credential_id = ci,
          gr_valid_until = vu, gr_received_at = ra, gr_credential = credential\<rparr>" b] that by simp
    then show ?thesis
      by (auto simp: vetter_grant_arm_def Let_def intro: flag_after split: option.split prod.split)
  qed
  then show ?thesis
    by (auto simp: grant_delivery_arm_def split: sum.split option.split)
qed

lemma statement_moves: "vetting_moves sdk ctx m sender b (fst (statement_delivery_arm sdk ctx m sender b))"
proof -
  have "vetting_moves sdk ctx m sender b
      (b\<lparr>vb_applications := update_first (\<lambda>a. asked_vetter p sender a \<and>
              taken (on_statement (vi_applicant sdk) sender c now a))
            (\<lambda>a. fst (projr (on_statement (vi_applicant sdk) sender c now a))) (vb_applications b),
         vb_retired := filter keep (vb_retired b)\<rparr>)" for p c now keep
  proof -
    have "own_app sender a \<and>
        app_run (vi_applicant sdk) a (fst (projr (on_statement (vi_applicant sdk) sender c now a)))"
      if "List.find (\<lambda>a. asked_vetter p sender a \<and> taken (on_statement (vi_applicant sdk) sender c now a)) as = Some a"
      for as a
      using find_SomeD [OF that] by (auto simp: taken_iff asked_vetter_def own_app_def dest: statement_run)
    then have "vetting_moves sdk ctx m sender b
        (b\<lparr>vb_applications := update_first (\<lambda>a. asked_vetter p sender a \<and>
              taken (on_statement (vi_applicant sdk) sender c now a))
            (\<lambda>a. fst (projr (on_statement (vi_applicant sdk) sender c now a))) (vb_applications b)\<rparr>)"
      by (intro move(1) own_apps_update) blast
    from retired_after [OF this, of keep] show ?thesis by simp
  qed
  then show ?thesis
    by (auto simp: statement_delivery_arm_def Let_def split: option.split sum.split prod.split)
qed

lemma issue_moves:
  assumes "dm_type m = vt_issue (vi_types sdk)"
  shows "vetting_moves sdk ctx m sender b (fst (issue_arm sdk ctx m sender b))"
  using grant_moves [OF assms] statement_moves [of sdk ctx m sender b]
  by (auto simp: issue_arm_def split: option.split prod.split) (auto simp: bind_eq_Some_conv)

lemma attestation_moves: "vetting_moves sdk ctx m sender b (fst (attestation_arm ctx m b))"
  by (auto simp: attestation_arm_def Let_def intro: move(5) split: option.split)


lemma queued_after:
  "vetting_moves sdk ctx m sender b b' \<Longrightarrow> vetting_moves sdk ctx m sender b (queue_for_vta q b')"
  by (erule moves_then) (rule move(5))

lemma forgotten_after:
  "vetting_moves sdk ctx m sender b b' \<Longrightarrow> vetting_moves sdk ctx m sender b (forget_draw t b')"
  by (erule moves_then) (rule move(4))

lemma engine_after:
  assumes "vetting_moves sdk ctx m sender b b'"
    and "\<And>h. hv_community (f h) = hv_community h" "\<And>h. hv_persona (f h) = hv_persona h"
  shows "vetting_moves sdk ctx m sender b (update_engine sender persona f b')"
  using assms(1) by (rule moves_then) (rule move_engine [OF assms(2,3)])

lemmas moves_after = flag_after retired_after queued_after forgotten_after engine_after

lemma query_moves: "take_query sender t k b = (b', q) \<Longrightarrow> vetting_moves sdk ctx m sender b b'"
  using move_take_query [of sdk ctx m sender b t k] by simp

lemma answer_moves: "answer_to read m sender k b = (b', r) \<Longrightarrow> vetting_moves sdk ctx m' sender b b'"
  by (auto simp: answer_to_def intro: query_moves split: option.splits prod.splits)

lemma engine_keys [simp]:
  "hv_community (answered h) = hv_community h" "hv_persona (answered h) = hv_persona h"
  "hv_community (record_served l t h) = hv_community h" "hv_persona (record_served l t h) = hv_persona h"
  "hv_community (take_served l t now h) = hv_community h" "hv_persona (take_served l t now h) = hv_persona h"
  "hv_community (on_rebound now h) = hv_community h" "hv_persona (on_rebound now h) = hv_persona h"
  "hv_community (keep_refusal q code now h) = hv_community h" "hv_persona (keep_refusal q code now h) = hv_persona h"
  "hv_community (note_lost h) = hv_community h" "hv_persona (note_lost h) = hv_persona h"
  by (simp_all add: answered_def record_served_def take_served_def on_rebound_def keep_refusal_def note_lost_def Let_def
      split: option.split key_phase.split)

lemma engine_keys_more [simp]:
  "hv_community (refused_over_quota l d now h) = hv_community h"
  "hv_persona (refused_over_quota l d now h) = hv_persona h"
  "hv_community (fst (on_binding_shown bi now h)) = hv_community h"
  "hv_persona (fst (on_binding_shown bi now h)) = hv_persona h"
  by (auto simp: refused_over_quota_def on_binding_shown_def retry_enrolment_def Let_def split: option.split key_move.split)

lemma enrolled_moves: "vetting_moves sdk ctx m sender b (fst (enrolled_arm sdk m sender b))"
  by (auto simp: enrolled_arm_def Let_def intro!: moves_after intro: query_moves
      split: option.split prod.split sum.split)

lemma tokens_moves: "vetting_moves sdk ctx m sender b (fst (tokens_served_arm sdk ctx m sender b))"
  by (auto simp: tokens_served_arm_def Let_def intro!: moves_after intro: query_moves
      split: option.split prod.split sum.split)

lemma event_moves: "vetting_moves sdk ctx m sender b (fst (event_mode_arm sdk ctx m sender b))"
  by (auto simp: event_mode_arm_def intro!: moves_after intro: answer_moves
      split: option.split prod.split sum.split)

lemma binding_moves: "vetting_moves sdk ctx m sender b (fst (binding_arm sdk ctx m sender b))"
  by (auto simp: binding_arm_def Let_def intro!: moves_after intro: answer_moves
      split: option.split prod.split sum.split)

lemma challenge_moves: "vetting_moves sdk ctx m sender b (fst (challenge_arm sdk m sender b))"
proof -
  have "vetting_moves sdk ctx m sender b
      (b'\<lparr>vb_applications := update_first (\<lambda>a. ap_community a = sender \<and> ap_persona a = p)
          (\<lambda>a. a\<lparr>ap_hidden_challenge := ch\<rparr>) (vb_applications b')\<rparr>)"
    if "vetting_moves sdk ctx m sender b b'" for b' p ch
    using that
    by (rule moves_then) (intro move(1) own_apps_update, auto dest!: find_SomeD simp: own_app_def challenge_run)
  then show ?thesis
    by (auto simp: challenge_arm_def intro: answer_moves split: option.split prod.split sum.split)
qed

lemma handed_on_moves: "vetting_moves sdk ctx m sender b (fst (handed_on_arm k answer read m sender b))"
  by (auto simp: handed_on_arm_def intro: answer_moves split: option.split prod.split sum.split)

lemma profile_moves: "vetting_moves sdk ctx m sender b (fst (profile_arm sdk m sender b))"
  by (auto simp: profile_arm_def on_profile_stored_def intro: answer_moves
      split: option.split prod.split sum.split)
    (metis answer_moves fst_conv move(13) moves_then)

lemma resent_moves: "vetting_moves sdk ctx m sender b (fst (resent_arm sdk m sender b))"
  by (auto simp: resent_arm_def intro: answer_moves split: option.split prod.split sum.split)

lemma withdrawal_moves: "vetting_moves sdk ctx m sender b (fst (withdrawal_arm sdk m sender b))"
  by (auto simp: withdrawal_arm_def intro: move(14) split: option.split sum.split)


lemma mode_failed_moves: "vetting_moves sdk ctx m sender b (mode_failed sender f now b)"
  unfolding mode_failed_def by (rule move(10))

lemma manifest_queries_moves:
  "vetting_moves sdk ctx m sender b (fst (take_manifest_queries sender thread b))"
proof -
  have "vetting_moves sdk ctx m sender b
      (b'\<lparr>vb_queries := filter (\<lambda>q. \<not> about_manifest sender q) (vb_queries b')\<rparr>)"
    if "vetting_moves sdk ctx m sender b b'" for b'
    using that
    by (rule moves_then) (rule move(3); auto simp: about_manifest_def multiset_filter_subset intro: filter_cong)
  then show ?thesis
    by (auto simp: take_manifest_queries_def Let_def intro: query_moves split: option.split prod.split)
qed

lemma take_reading_keys [simp]:
  "hv_community (fst (take_reading live now h)) = hv_community h"
  "hv_persona (fst (take_reading live now h)) = hv_persona h"
  by (auto simp: take_reading_def adopt_published_def Let_def split: prod.split)

lemma keep_published_moves: "vetting_moves sdk ctx m sender b (fst (keep_published sender params b))"
proof -
  have "vetting_moves sdk ctx m sender b
      (b\<lparr>vb_hidden_published := AList.update sender p (vb_hidden_published b)\<rparr>)" for p
    by (rule move(9)) (simp add: update_conv')
  from flag_after [OF this] have
    "vetting_moves sdk ctx m sender b
      (b\<lparr>vb_hidden_published := AList.update sender p (vb_hidden_published b), vb_vetter_refresh_due := True\<rparr>)" for p
    by simp
  moreover have "vetting_moves sdk ctx m sender b
      (b\<lparr>vb_hidden_published := AList.delete sender (vb_hidden_published b)\<rparr>)"
    by (rule move(9)) (simp add: delete_conv')
  ultimately show ?thesis by (auto simp: keep_published_def split: option.split)
qed

lemma engines_read_moves: "vetting_moves sdk ctx m sender b (fst (engines_read sender params now b))"
proof (cases params)
  case (Some live)
  have "own_engines sender hs (map (engine_reads sender live now) hs)" for hs
    by (auto simp: own_engines_def engine_reads_def list_all2_map2 intro: list.rel_refl)
  from flag_after [OF move(2) [OF this]] show ?thesis
    by (simp add: engines_read_def Some Let_def)
qed (simp add: engines_read_def)

lemma record_mode_moves: "vetting_moves sdk ctx m sender b (fst (record_mode sender md now b))"
  by (auto simp: record_mode_def intro: move(12) split: option.split)

lemma note_switch_moves: "vetting_moves sdk ctx m sender b (note_switch sender before md now b)"
  by (auto simp: note_switch_def Let_def intro: move(11) split: option.split)

lemma moves_via:
  "vetting_moves sdk ctx m sender b b1 \<Longrightarrow> p = (b2, r) \<Longrightarrow> vetting_moves sdk ctx m sender b1 (fst p) \<Longrightarrow>
     vetting_moves sdk ctx m sender b b2"
  by (rule moves_then) simp_all

lemma learn_mode_moves: "vetting_moves sdk ctx m sender b (fst (learn_mode asdk sender raw before now b))"
proof (cases "read_payload asdk raw")
  case (Inl e)
  then show ?thesis by (simp add: learn_mode_def mode_failed_moves)
next
  case (Inr x)
  obtain md params where x: "x = (md, params)" by (cases x)
  obtain b1 c1 where b1: "keep_published sender params b = (b1, c1)" by fastforce
  obtain b2 c2 where b2: "engines_read sender params now b1 = (b2, c2)" by fastforce
  obtain b3 c3 where b3: "record_mode sender md now b2 = (b3, c3)" by fastforce
  have "vetting_moves sdk ctx m sender b b1" using keep_published_moves [of sdk ctx m sender b params] b1 by simp
  then have "vetting_moves sdk ctx m sender b b2" by (rule moves_via [OF _ b2 engines_read_moves])
  then have "vetting_moves sdk ctx m sender b b3" by (rule moves_via [OF _ b3 record_mode_moves])
  then have "vetting_moves sdk ctx m sender b (set_check sender (\<lambda>c. c\<lparr>mk_failed := None\<rparr>) b3)"
    by (rule moves_then) (rule move(10))
  then have "vetting_moves sdk ctx m sender b
      (note_switch sender before md now (set_check sender (\<lambda>c. c\<lparr>mk_failed := None\<rparr>) b3))"
    by (rule moves_then) (rule note_switch_moves)
  with Inr x b1 b2 b3 show ?thesis by (simp add: learn_mode_def)
qed

lemma learn_directory_moves: "vetting_moves sdk ctx m sender b (fst (learn_directory sdk' sender raw b))"
  by (auto simp: learn_directory_def Let_def intro: move(12) split: option.split)

lemma adopt_all_moves: "vetting_moves sdk ctx m sender b (fst (adopt_all (vi_applicant sdk) sender mf raw b))"
proof -
  have "fst (adopt_one (vi_applicant sdk) sender mf raw a) = a \<or>
      own_app sender a \<and> app_run (vi_applicant sdk) a (fst (adopt_one (vi_applicant sdk) sender mf raw a))" for a
    by (auto simp: adopt_one_def own_app_def dest: adopt_manifest_run split: sum.split applicant_error.split)
  then have "own_apps sdk sender as (map fst (map (adopt_one (vi_applicant sdk) sender mf raw) as))" for as
    unfolding own_apps_def by (induction as) auto
  from move(1) [OF this] show ?thesis by (simp add: adopt_all_def Let_def)
qed

lemma manifest_moves: "vetting_moves sdk ctx m sender b (fst (manifest_arm sdk ctx m sender b))"
proof (cases "solicits (ix_account ctx) sender b")
  case True
  show ?thesis
  proof (cases "community_payload (read_manifest sdk) m")
    case (Inl e)
    obtain b1 qs where q: "take_manifest_queries sender (community_thread m)
        (mode_failed sender (ModeUnreadable e) (ix_now ctx) b) = (b1, qs)" by fastforce
    from mode_failed_moves have "vetting_moves sdk ctx m sender b b1"
      by (rule moves_via [OF _ q manifest_queries_moves])
    with True Inl q show ?thesis by (simp add: manifest_arm_def Let_def)
  next
    case (Inr x)
    obtain mf meta where x: "x = (mf, meta)" by (cases x)
    let ?raw = "case jget ''payload'' (dm_body m) of None \<Rightarrow> JNull | Some p \<Rightarrow> p"
    let ?sdk = "vi_applicant sdk"
    let ?before = "reading_mode (vetter_mode ?sdk sender b)"
    obtain b1 c1 where b1: "learn_manifest_in ?sdk sender mf (vi_asked sdk mf) (Some V0_4) meta (ix_now ctx) b = (b1, c1)"
      by fastforce
    obtain b2 c2 where b2: "learn_mode ?sdk sender ?raw ?before (ix_now ctx) b1 = (b2, c2)" by fastforce
    obtain b3 c3 where b3: "learn_directory sdk sender ?raw b2 = (b3, c3)" by fastforce
    obtain b4 c4 n where b4: "adopt_all ?sdk sender mf ?raw b3 = (b4, c4, n)" by (metis prod.collapse)
    obtain b5 qs where b5: "take_manifest_queries sender (community_thread m) b4 = (b5, qs)" by fastforce
    have "vetting_moves sdk ctx m sender b b1"
      using move(8) [of sdk ctx m sender b mf "vi_asked sdk mf" "Some V0_4" meta "ix_now ctx"] b1 by simp
    then have "vetting_moves sdk ctx m sender b b2" by (rule moves_via [OF _ b2 learn_mode_moves])
    then have "vetting_moves sdk ctx m sender b b3" by (rule moves_via [OF _ b3 learn_directory_moves])
    then have "vetting_moves sdk ctx m sender b b4" by (rule moves_via [OF _ b4 adopt_all_moves])
    then have "vetting_moves sdk ctx m sender b b5" by (rule moves_via [OF _ b5 manifest_queries_moves])
    with True Inr x b1 b2 b3 b4 b5 show ?thesis by (simp add: manifest_arm_def Let_def)
  qed
qed (simp add: manifest_arm_def Let_def)

lemma refused_draw_moves:
  "vetting_moves sdk ctx m sender b b' \<Longrightarrow> vetting_moves sdk ctx m sender b (fst (refused_draw q sender b'))"
  by (auto simp: refused_draw_def Let_def intro!: moves_after split: option.split)

lemma hidden_refused_moves: "vetting_moves sdk ctx m sender b (fst (hidden_refused sdk ctx q sender code detail b))"
proof -
  obtain b1 draw where b1: "refused_draw q sender b = (b1, draw)" by fastforce
  have "vetting_moves sdk ctx m sender b b1" using refused_draw_moves [of sdk ctx m sender b b q] b1 by simp
  then show ?thesis
    by (auto simp: hidden_refused_def b1 Let_def intro!: moves_after split: option.split)
qed

lemma query_refused_moves: "vetting_moves sdk ctx m sender b (fst (query_refused sdk ctx q sender code detail b))"
  using move(13) [of sdk ctx m sender b]
  by (auto simp: query_refused_def on_profile_refused_def hidden_refused_moves mode_failed_moves
      split: query_kind.split prod.split) (metis fst_conv)

lemma refusal_moves: "vetting_moves sdk ctx m sender b (fst (refusal_of sdk ctx thread sender code detail b))"
proof (cases "List.find (sent thread) (vb_applications b)")
  case None
  obtain b1 q where q: "take_query sender thread None b = (b1, q)" by fastforce
  have b1: "vetting_moves sdk ctx m sender b b1" using q by (rule query_moves)
  show ?thesis
  proof (cases q)
    case (Some q')
    obtain b2 ch n where r: "query_refused sdk ctx q' sender code detail b1 = (b2, ch, n)" by (metis prod.collapse)
    from b1 have "vetting_moves sdk ctx m sender b b2" by (rule moves_via [OF _ r query_refused_moves])
    then show ?thesis by (simp add: refusal_of_def None q Some r)
  next
    case no: None
    with b1 show ?thesis by (simp add: refusal_of_def None q split: option.split)
  qed
next
  case (Some a)
  then show ?thesis
    by (auto simp: refusal_of_def intro!: move_app intro: refused_own refused_run split: sum.split)
qed

text \<open>Whatever a message is, what it does to the book is a run of moves.\<close>

lemma refused_moves:
  "vetting_moves sdk ctx m sender b (fst (refused_arm sdk ctx m sender b))"
  "vetting_moves sdk ctx m sender b (fst (problem_arm sdk ctx m sender b))"
  by (auto simp: refused_arm_def problem_arm_def refusal_moves split: option.split prod.split)

lemmas arm_moves = request_moves accepted_moves session_moves card_moves declined_moves withdrawal_moves
  profile_moves resent_moves manifest_moves issue_moves attestation_moves enrolled_moves tokens_moves event_moves
  challenge_moves binding_moves handed_on_moves refused_moves

lemma route_moves: "vetting_moves sdk ctx m sender b (fst (route sdk i j ctx m sender b))"
  by (simp add: route_def Let_def split_beta arm_moves wallet_started_arm_def wallet_status_arm_def vetter_list_arm_def)

lemma handle_moves:
  assumes "handle sdk i j ctx m sender (b, seen) = ((b', seen'), h)"
  shows "vetting_moves sdk ctx m sender b b'"
  using assms route_moves [of sdk ctx m sender b i j]
  by (auto simp: handle_def Let_def split: if_splits option.splits prod.splits)

section \<open>What a sender can touch\<close>

text \<open>
  A message changes what concerns its sender: the applications to it or that asked it for vetting, the engine, criteria,
  record, published parameters, grants, profiles and questions of that community, the statements it withdraws and the
  requests it made of us. \<open>others_kept\<close> says that the rest stays.
\<close>

definition others_kept :: "string \<Rightarrow> vetting_book \<Rightarrow> vetting_book \<Rightarrow> bool" where
  "others_kept sender b b' \<longleftrightarrow>
     list_all2 (\<lambda>a a'. a' = a \<or> own_app sender a) (vb_applications b) (vb_applications b') \<and>
     filter (\<lambda>h. hv_community h \<noteq> sender) (vb_hidden_vetter b') = filter (\<lambda>h. hv_community h \<noteq> sender) (vb_hidden_vetter b) \<and>
     filter (\<lambda>k. kn_community k \<noteq> sender) (vb_criteria b') = filter (\<lambda>k. kn_community k \<noteq> sender) (vb_criteria b) \<and>
     filter (\<lambda>c. km_community c \<noteq> sender) (vb_communities b') = filter (\<lambda>c. km_community c \<noteq> sender) (vb_communities b) \<and>
     filter (\<lambda>g. gr_community g \<noteq> sender) (vb_vetter_grants b') = filter (\<lambda>g. gr_community g \<noteq> sender) (vb_vetter_grants b) \<and>
     filter (\<lambda>r. pf_community r \<noteq> sender) (vb_vetter_profiles b') = filter (\<lambda>r. pf_community r \<noteq> sender) (vb_vetter_profiles b) \<and>
     filter (\<lambda>q. cq_community q \<noteq> sender) (vb_queries b') = filter (\<lambda>q. cq_community q \<noteq> sender) (vb_queries b) \<and>
     filter (\<lambda>s. is_community s \<noteq> sender) (vb_issued b') = filter (\<lambda>s. is_community s \<noteq> sender) (vb_issued b) \<and>
     filter (\<lambda>e. de_applicant e \<noteq> sender) (vb_desk b') = filter (\<lambda>e. de_applicant e \<noteq> sender) (vb_desk b) \<and>
     (\<forall>c. c \<noteq> sender \<longrightarrow> map_of (vb_hidden_published b') c = map_of (vb_hidden_published b) c \<and>
        check_of c b' = check_of c b)"

lemma others_refl [simp]: "others_kept sender b b"
  by (simp add: others_kept_def list_all2_same)

lemma others_trans: "others_kept sender b b1 \<Longrightarrow> others_kept sender b1 b2 \<Longrightarrow> others_kept sender b b2"
proof -
  assume a: "others_kept sender b b1" "others_kept sender b1 b2"
  let ?P = "\<lambda>a a'. a' = a \<or> own_app sender a"
  have "list_all2 ?P (vb_applications b) (vb_applications b1)" "list_all2 ?P (vb_applications b1) (vb_applications b2)"
    using a by (simp_all add: others_kept_def)
  then have "list_all2 ?P (vb_applications b) (vb_applications b2)"
    unfolding list_all2_conv_all_nth by metis
  with a show ?thesis by (simp add: others_kept_def)
qed

lemma filter_update_first_other:
  "(\<And>x. p x \<Longrightarrow> \<not> q x \<and> \<not> q (f x)) \<Longrightarrow> filter q (update_first p f xs) = filter q xs"
  by (induction xs) auto

lemma learn_community_others:
  "filter (\<lambda>c. km_community c \<noteq> sender) (fst (learn_community sender br rq rts p now cs))
     = filter (\<lambda>c. km_community c \<noteq> sender) cs"
  by (auto simp: learn_community_def Let_def intro!: filter_update_first_other split: option.split)

lemma fresh_others:
  "filter (\<lambda>k. kn_community k \<noteq> sender) (List.map_filter (criterion_known sdk sender now) ks) = []"
  by (auto simp: filter_empty_conv List.map_filter_def dest: criterion_known_community)

lemma own_engines_others:
  "own_engines sender hs hs' \<Longrightarrow> filter (\<lambda>h. hv_community h \<noteq> sender) hs' = filter (\<lambda>h. hv_community h \<noteq> sender) hs"
  unfolding own_engines_def by (induction rule: list_all2_induct) auto

lemma move_others:
  assumes "vetting_move sdk ctx m sender b b'"
  shows "others_kept sender b b'"
  using assms
proof (cases rule: vetting_move.cases)
  case (apps as)
  then show ?thesis by (auto simp: others_kept_def own_apps_def check_of_def elim!: list_all2_mono)
next
  case (engines hs)
  then show ?thesis by (simp add: others_kept_def list_all2_same own_engines_others check_of_def)
next
  case (grant g)
  then show ?thesis
    by (auto simp: keep_vetter_grant_def granting_def clear_retired_for_def same_grant_def others_kept_def
        list_all2_same Let_def check_of_def intro!: filter_update_first_other split: option.split)
next
  case (learnt mf rq p meta now)
  then show ?thesis
    using fresh_others [of sender "vi_applicant sdk" now "mf_criteria mf"]
      learn_community_others [of sender "case mf_branding mf of None \<Rightarrow> no_branding | Some br \<Rightarrow> br" rq
        "map (route_of meta) (mf_criteria mf)" p now "vb_communities b"]
    by (auto simp: learn_manifest_in_def Let_def others_kept_def list_all2_same check_of_def intro: filter_cong
        split: prod.split)
next
  case (request inc i now)
  obtain r where "take_request (vi_vetter sdk) i inc now b = (b', r)"
    using request(1) by (metis prod.collapse)
  then show ?thesis
    by (cases rule: take_request_cases) (auto simp: others_kept_def list_all2_same check_of_def new_entry_def request(2))
next
  case (card did sid c now)
  then show ?thesis
    by (auto simp: receive_card_def result_simps Let_def others_kept_def list_all2_same check_of_def awaits_card_def
        intro!: filter_update_first_other)
qed (auto simp: others_kept_def list_all2_same check_of_def forget_draw_def queue_for_vta_def set_check_def update_conv'
      set_profile_state_def profile_of_def on_withdrawal_recorded_def withdraws_def
      intro!: filter_update_first_other)

section \<open>Grants come from the community\<close>

lemma keep_grant_set: "set (vb_vetter_grants (fst (keep_vetter_grant g b))) \<subseteq> insert g (set (vb_vetter_grants b))"
  by (auto simp: keep_vetter_grant_def clear_retired_for_def Let_def dest!: set_update_first split: option.split)

lemma learn_manifest_grants: "vb_vetter_grants (fst (learn_manifest_in sdk c mf rq p meta now b)) = vb_vetter_grants b"
  by (simp add: learn_manifest_in_def Let_def split_beta)

lemma move_grants:
  assumes "vetting_move sdk ctx m sender b b'" "g \<in> set (vb_vetter_grants b')"
  shows "g \<in> set (vb_vetter_grants b) \<or> granting sdk ctx m sender g"
  using assms(1)
proof (cases rule: vetting_move.cases)
  case (grant h)
  with keep_grant_set [of h b] assms(2) show ?thesis by auto
next
  case (request inc i now)
  obtain r where "take_request (vi_vetter sdk) i inc now b = (b', r)"
    using request(1) by (metis prod.collapse)
  then show ?thesis
    using assms(2) by (cases rule: take_request_cases) (auto simp: new_entry_def)
qed (use assms(2) in \<open>auto simp: forget_draw_def queue_for_vta_def set_check_def set_profile_state_def
    on_withdrawal_recorded_def receive_card_def result_simps Let_def learn_manifest_grants\<close>)

lemma moves_grants:
  assumes "vetting_moves sdk ctx m sender b b'" "g \<in> set (vb_vetter_grants b')"
  shows "g \<in> set (vb_vetter_grants b) \<or> granting sdk ctx m sender g"
  using assms by (induction rule: rtranclp_induct) (auto dest: move_grants)

section \<open>A community's answer is acted on once\<close>

text \<open>
  The inbox: messages handled one after another, as the clock goes on, and the log of the signed answers acted on, each
  with the moment its id is forgotten. \<open>acts_on\<close> says that handling a message acts on the signed answer \<open>v\<close>.
\<close>

definition acts_on ::
  "inbound_sdk \<Rightarrow> string \<Rightarrow> string \<Rightarrow> inbound_context \<Rightarrow> didcomm_message \<Rightarrow> string \<Rightarrow> vetting_book \<times> seen_documents \<Rightarrow>
   verified_operational option" where
  "acts_on sdk i j ctx m sender s =
     (if \<not> is_community_answer_type (vi_types sdk) (dm_type m) then None
      else case community_signed sdk ctx (snd s) m sender of
             None \<Rightarrow> None
           | Some v \<Rightarrow>
               (case route sdk i j ctx m sender (fst s) of
                  (_, Some h, True) \<Rightarrow> if acted h then Some v else None
                | _ \<Rightarrow> None))"

record inbox =
  nb_book :: vetting_book
  nb_seen :: seen_documents
  nb_clock :: instant
  nb_acted :: "verified_operational list"

inductive inbox_step :: "inbound_sdk \<Rightarrow> inbox \<Rightarrow> inbox \<Rightarrow> bool" for sdk where
  message: "handle sdk i j ctx m sender (nb_book s, nb_seen s) = ((b, seen), h) \<Longrightarrow> nb_clock s \<le> ix_now ctx \<Longrightarrow>
    inbox_step sdk s \<lparr>nb_book = b, nb_seen = seen, nb_clock = ix_now ctx,
      nb_acted = (case acts_on sdk i j ctx m sender (nb_book s, nb_seen s) of None \<Rightarrow> [] | Some v \<Rightarrow> [v]) @ nb_acted s\<rparr>"
| changes: "inbox_step sdk s (s\<lparr>nb_book := b\<rparr>)"

definition fresh_inbox :: "vetting_book \<Rightarrow> instant \<Rightarrow> inbox" where
  "fresh_inbox b now = \<lparr>nb_book = b, nb_seen = no_documents, nb_clock = now, nb_acted = []\<rparr>"

definition keeps_acted :: "inbox \<Rightarrow> bool" where
  "keeps_acted s \<longleftrightarrow> keys_distinct (nb_seen s) \<and>
     (\<forall>v \<in> set (nb_acted s). nb_clock s < vo_forget_after v \<longrightarrow>
        (\<exists>u. until_of (nb_seen s) (vo_issuer v) (vo_id v) = Some u \<and> vo_forget_after v \<le> u))"

lemma handle_seen:
  assumes "handle sdk i j ctx m sender (b, seen) = ((b', seen'), h)"
  shows "seen' = (case acts_on sdk i j ctx m sender (b, seen) of
     None \<Rightarrow> seen | Some v \<Rightarrow> snd (vo_commit v seen (ix_now ctx)))"
  using assms by (auto simp: handle_def acts_on_def Let_def split: if_splits option.splits prod.splits bool.splits)

lemma acts_onD:
  assumes "acts_on sdk i j ctx m sender (b, seen) = Some v"
  shows "vo_check v seen (ix_now ctx) = Inr ()"
  using assms by (auto simp: acts_on_def community_signed_def split: if_splits option.splits prod.splits bool.splits sum.splits)

lemma live_live [simp]: "live_ids now (live_ids now ids) = live_ids now ids"
  by (simp add: live_ids_def)

lemma prune_entries:
  "sd_entries (seen_prune now seen)
     = filter (\<lambda>(_, ids). ids \<noteq> []) (map (\<lambda>(issuer, ids). (issuer, live_ids now ids)) (sd_entries seen))"
  by (simp add: seen_prune_def Let_def)

lemma live_issuers_pruned:
  "length (filter (\<lambda>(_, ids). live_ids now ids \<noteq> []) (sd_entries (seen_prune now seen)))
     = length (filter (\<lambda>(_, ids). live_ids now ids \<noteq> []) (sd_entries seen))"
  unfolding prune_entries by (induction "sd_entries seen" arbitrary: seen) (auto simp: filter_map comp_def case_prod_unfold)

lemma prune_map_of:
  assumes "keys_distinct seen"
  shows "map_of (sd_entries (seen_prune now seen)) k
    = (case map_of (sd_entries seen) k of
         None \<Rightarrow> None | Some ids \<Rightarrow> if live_ids now ids = [] then None else Some (live_ids now ids))"
  using assms unfolding prune_entries keys_distinct_def by (simp add: map_of_kept)

text \<open>What may be acted on can be recorded: room found by the check is still there when the set is pruned.\<close>

lemma check_then_record:
  assumes "keys_distinct seen" "within_bounds seen" "seen_check seen k i now = Inr ()"
  shows "fst (seen_record seen k i u now) = Inr ()"
proof -
  let ?live = "\<lambda>(_, ids). 0 < length (live_ids now ids)"
  have fresh: "\<not> seen_contains (seen_prune now seen) k i now"
    using assms by (auto simp: seen_contains_def prune_until seen_check_def split: if_splits option.splits)
  have few: "length (filter ?live (sd_entries seen)) < max_seen_issuers"
    if gone: "map_of (sd_entries (seen_prune now seen)) k = None"
  proof (cases "map_of (sd_entries seen) k")
    case None
    with assms(3) show ?thesis by (auto simp: seen_check_def split: if_splits)
  next
    case (Some ids)
    with gone have "live_ids now ids = []" by (simp add: prune_map_of [OF assms(1)] split: if_splits)
    with map_of_SomeD [OF Some] have "\<exists>e \<in> set (sd_entries seen). \<not> ?live e" by force
    then have "length (filter ?live (sd_entries seen)) < length (sd_entries seen)"
      by (auto intro: length_filter_less)
    with assms(2) show ?thesis by (simp add: within_bounds_def)
  qed
  have "seen_check (seen_prune now seen) k i now = Inr ()"
    using fresh few assms(3) prune_map_of [OF assms(1), of now k]
    by (auto simp: seen_check_def live_issuers_pruned split: if_splits option.splits)
  then show ?thesis by (simp add: seen_record_def Let_def)
qed

lemma keeps_acted_step:
  assumes "inbox_step sdk s t" "keeps_acted s \<and> within_bounds (nb_seen s)"
  shows "keeps_acted t \<and> within_bounds (nb_seen t)"
  using assms(1)
proof (cases rule: inbox_step.cases)
  case (message i j ctx m sender b seen h)
  let ?on = "acts_on sdk i j ctx m sender (nb_book s, nb_seen s)" and ?now = "ix_now ctx"
  note seen = handle_seen [OF message(2)]
  have old: "\<exists>u. until_of (nb_seen s) (vo_issuer w) (vo_id w) = Some u \<and> vo_forget_after w \<le> u"
    if "w \<in> set (nb_acted s)" "?now < vo_forget_after w" for w
    using that assms(2) message(3) by (fastforce simp: keeps_acted_def)
  show ?thesis
  proof (cases ?on)
    case None
    with seen assms(2) old message(1) show ?thesis by (auto simp: keeps_acted_def)
  next
    case (Some v)
    have "vo_check v (nb_seen s) ?now = Inr ()" using acts_onD Some by blast
    with check_then_record [of "nb_seen s" "vo_issuer v" "vo_id v" ?now "vo_forget_after v"] assms(2)
    have rec: "seen_record (nb_seen s) (vo_issuer v) (vo_id v) (vo_forget_after v) ?now = (Inr (), seen)"
      using seen Some by (auto simp: keeps_acted_def vo_check_def vo_commit_def prod_eq_iff)
    have kept: "\<exists>u. until_of seen (vo_issuer w) (vo_id w) = Some u \<and> vo_forget_after w \<le> u"
      if w: "w \<in> set (nb_acted s)" "?now < vo_forget_after w" for w
    proof -
      from old [OF w] obtain u where "until_of (nb_seen s) (vo_issuer w) (vo_id w) = Some u" "vo_forget_after w \<le> u"
        by blast
      with record_keeps [of "nb_seen s" "vo_issuer w" "vo_id w" u ?now "vo_issuer v" "vo_id v" "vo_forget_after v"]
        w assms(2) rec show ?thesis by (auto simp: keeps_acted_def)
    qed
    have "keys_distinct seen" "within_bounds seen"
      using record_keys [of "nb_seen s" "vo_issuer v" "vo_id v" "vo_forget_after v" ?now]
        record_bounds [of "nb_seen s" "vo_issuer v" "vo_id v" "vo_forget_after v" ?now] rec assms(2)
      by (auto simp: keeps_acted_def)
    with Some message(1) kept record_ok [OF rec] show ?thesis by (auto simp: keeps_acted_def)
  qed
qed (use assms(2) in \<open>auto simp: keeps_acted_def\<close>)

interpretation inbox: preserved "inbox_step sdk" "\<lambda>s. keeps_acted s \<and> within_bounds (nb_seen s)" for sdk
  by unfold_locales (rule keeps_acted_step)

lemma fresh_keeps: "keeps_acted (fresh_inbox b now) \<and> within_bounds (nb_seen (fresh_inbox b now))"
  by (simp add: keeps_acted_def fresh_inbox_def no_documents_def keys_distinct_def within_bounds_def max_seen_issuers_def)

lemma acts_on_checked:
  assumes "(inbox_step sdk)\<^sup>*\<^sup>* (fresh_inbox b now) s" "nb_clock s \<le> ix_now ctx"
    and "acts_on sdk i j ctx m sender (nb_book s, nb_seen s) = Some v"
    and "w \<in> set (nb_acted s)" "vo_issuer w = vo_issuer v" "vo_id w = vo_id v"
  shows "vo_forget_after w \<le> ix_now ctx"
proof (rule ccontr)
  assume "\<not> ?thesis"
  with inbox.inv_steps [OF assms(1) fresh_keeps] assms(2,4)
  obtain u where "until_of (nb_seen s) (vo_issuer w) (vo_id w) = Some u" "ix_now ctx < u"
    by (fastforce simp: keeps_acted_def)
  with acts_onD [OF assms(3)] assms(5,6) show False
    by (simp add: vo_check_def seen_check_def seen_contains_def)
qed

end
