(* ===== verification/VettingLaws.thy ===== *)
theory VettingLaws
  imports VettingSafety DeskStatement
begin

text \<open>
  What a vetting message can do, as properties: it stays with its sender, a grant comes only from the community, and a
  community's answer is acted on once. The examples are a vetter of two communities whose profile one of them stores.
\<close>

section \<open>An example\<close>

definition inbox_types :: vetting_types where
  "inbox_types = \<lparr>vt_request = ''request'', vt_request_response = ''request-r'', vt_session = ''session'',
     vt_session_response = ''session-r'', vt_decline = ''decline'', vt_revoke_response = ''revoke-r'',
     vt_list_response = ''list-r'', vt_profile_response = ''profile-r'', vt_resend_response = ''resend-r'',
     vt_manifest_response = ''manifest-r'', vt_issue = ''issue'', vt_problem_report = ''problem'',
     vt_binding_show = ''binding'', vt_wallet_start = ''wallet-start'', vt_wallet_status = ''wallet-status''\<rparr>"

definition no_reader :: "json \<Rightarrow> string + 'a" where "no_reader v = Inl ''unread''"

definition inbox_sdk :: inbound_sdk where
  "inbox_sdk = \<lparr>vi_types = inbox_types, vi_applicant = demo_sdk, vi_vetter = desk_sdk, vi_documents = example_sdk,
     vi_codes = \<lparr>rf_tick_not_yet = ''tickNotYet'', rf_already_served = ''served'', rf_over_quota = ''quota''\<rparr>,
     vi_document = (\<lambda>v. Inr \<lparr>tt_id = ''d1'', tt_type = ''issue'', tt_issuer = Some ''did:d'', tt_thread_id = None,
                                tt_payload = (case jget ''payload'' v of None \<Rightarrow> JNull | Some p \<Rightarrow> p)\<rparr>),
     vi_signer = (\<lambda>_. Inr ''did:d''), vi_request = no_reader, vi_request_response = no_reader,
     vi_session = no_reader, vi_decline = no_reader, vi_root = no_reader, vi_tokens = no_reader,
     vi_event_mode = no_reader, vi_challenge = no_reader, vi_binding = no_reader, vi_wallet_started = no_reader,
     vi_wallet_status = no_reader, vi_vetters = no_reader, vi_profile = (\<lambda>_. Inr (True, 3)), vi_resend = no_reader,
     vi_revoked = no_reader, vi_manifest = no_reader, vi_directory = no_reader, vi_asked = (\<lambda>_. []),
     vi_respond = (\<lambda>_ _ _. None), vi_refuse = (\<lambda>_ _ _. None), vi_code_of = (\<lambda>_. []),
     vi_verify_eligibility = (\<lambda>_ _. Inl []),
     vi_community_roles = (\<lambda>c. Some (''did:d'', [''vetter''])),
     vi_role_matches = (\<lambda>a b. a = b), vi_vetter_role = ''vetter'', vi_vetted_predicate = ''vetted'',
     vi_rfc3339 = (\<lambda>_. None), vi_problem = (\<lambda>_. ([], []))\<rparr>"

definition profile_at :: "string \<Rightarrow> vetter_profile_record" where
  "profile_at c = \<lparr>pf_community = c, pf_persona = 1, pf_profile = JNull, pf_state = ProfileSent 1\<rparr>"

definition profile_asked :: "string \<Rightarrow> string \<Rightarrow> community_query" where
  "profile_asked c i = \<lparr>cq_document_id = i, cq_community = c, cq_persona = 1, cq_kind = VetterProfileQuery, cq_sent_at = 1\<rparr>"

definition inbox_book :: vetting_book where
  "inbox_book = desk_book\<lparr>vb_vetter_profiles := [profile_at ''did:d'', profile_at ''did:e''],
     vb_queries := [profile_asked ''did:e'' ''q2'', profile_asked ''did:d'' ''q1'']\<rparr>"

definition inbox_message :: "string \<Rightarrow> didcomm_message" where
  "inbox_message t = \<lparr>dm_id = ''m1'', dm_type = t, dm_from = Some ''did:d'', dm_to = None, dm_thid = Some ''q1'',
     dm_body = JObject [(''id'', JString ''d1''), (''issuer'', JString ''did:d'')], dm_created = None, dm_expires = None\<rparr>"

definition inbox_answer :: verified_operational where
  "inbox_answer = \<lparr>vo_issuer = ''did:d'', vo_id = ''d1'', vo_recipient = ''did:me'', vo_forget_after = 50\<rparr>"

definition inbox_context :: "instant \<Rightarrow> inbound_context" where
  "inbox_context now = \<lparr>ix_account = example_account, ix_issued = None, ix_answer = Some (Inr inbox_answer),
     ix_recipient = Some (1, ''did:me''), ix_now = now\<rparr>"

definition stored_book :: vetting_book where
  "stored_book = inbox_book
     \<lparr>vb_vetter_profiles := [(profile_at ''did:d'')\<lparr>pf_state := ProfileStored True 3\<rparr>, profile_at ''did:e''],
      vb_queries := [profile_asked ''did:e'' ''q2'']\<rparr>"

lemma inbox_types_distinct:
  "is_community_answer_type inbox_types ''profile-r''" "from_manifest_response inbox_types ''profile-r'' = None"
  by (simp_all add: is_community_answer_type_def from_manifest_response_def inbox_types_def)

lemma example_route:
  "route inbox_sdk i j (inbox_context now) (inbox_message ''profile-r'') ''did:d'' inbox_book
     = (stored_book,
        Some (nothing\<lparr>ho_changed := True, ho_notice := Some (ProfilePublishedNotice ''did:d'' True),
              ho_answer := Some (ProfileStoredAnswer ''did:d'' True 3)\<rparr>), True)"
  by (simp add: route_def Let_def inbox_sdk_def inbox_types_def inbox_message_def inbox_book_def stored_book_def
      from_manifest_response_def profile_arm_def answer_to_def community_thread_def take_query_def answers_query_def profile_asked_def
      community_payload_def on_profile_stored_def set_profile_state_def vetter_profile_def profile_of_def profile_at_def)

lemma example_signed:
  "community_signed inbox_sdk (inbox_context now) seen (inbox_message t) ''did:d''
     = (case seen_check seen ''did:d'' ''d1'' now of Inl _ \<Rightarrow> None | Inr _ \<Rightarrow> Some inbox_answer)"
  by (auto simp: community_signed_def inbox_context_def vo_check_def inbox_answer_def split: sum.split)

lemma example_acts_on:
  "acts_on inbox_sdk i j (inbox_context now) (inbox_message ''profile-r'') ''did:d'' (inbox_book, seen)
     = (case seen_check seen ''did:d'' ''d1'' now of Inl _ \<Rightarrow> None | Inr _ \<Rightarrow> Some inbox_answer)"
proof -
  have "is_community_answer_type (vi_types inbox_sdk) (dm_type (inbox_message ''profile-r''))"
    using inbox_types_distinct by (simp add: inbox_sdk_def inbox_message_def)
  then show ?thesis
    by (simp add: acts_on_def example_signed example_route acted_def split: sum.split)
qed

lemma example_handled:
  "handle inbox_sdk i j (inbox_context 3) (inbox_message ''profile-r'') ''did:d'' (inbox_book, no_documents)
     = ((stored_book, \<lparr>sd_entries = [(''did:d'', [(''d1'', 50)])], sd_revision = 1\<rparr>),
        Some (nothing\<lparr>ho_changed := True, ho_notice := Some (ProfilePublishedNotice ''did:d'' True),
              ho_answer := Some (ProfileStoredAnswer ''did:d'' True 3)\<rparr>))"
proof -
  have "is_community_answer_type (vi_types inbox_sdk) (dm_type (inbox_message ''profile-r''))"
    using inbox_types_distinct by (simp add: inbox_sdk_def inbox_message_def)
  moreover have "community_signed inbox_sdk (inbox_context 3) no_documents (inbox_message ''profile-r'') ''did:d''
      = Some inbox_answer"
    unfolding example_signed by code_simp
  moreover have "snd (vo_commit inbox_answer no_documents 3) = \<lparr>sd_entries = [(''did:d'', [(''d1'', 50)])], sd_revision = 1\<rparr>"
    by code_simp
  moreover have "ix_now (inbox_context 3) = 3" by (simp add: inbox_context_def)
  ultimately show ?thesis
    by (simp add: handle_def example_route acted_def)
qed

definition answered_inbox :: inbox where
  "answered_inbox = \<lparr>nb_book = inbox_book, nb_seen = \<lparr>sd_entries = [(''did:d'', [(''d1'', 50)])], sd_revision = 1\<rparr>,
     nb_clock = 3, nb_acted = [inbox_answer]\<rparr>"

lemma example_inbox: "(inbox_step inbox_sdk)\<^sup>*\<^sup>* (fresh_inbox inbox_book 1) answered_inbox"
proof -
  let ?s = "fresh_inbox inbox_book 1"
  have "acts_on inbox_sdk [] [] (inbox_context 3) (inbox_message ''profile-r'') ''did:d'' (inbox_book, no_documents)
      = Some inbox_answer"
    unfolding example_acts_on by code_simp
  with inbox_step.message [of inbox_sdk "[]" "[]" "inbox_context 3" "inbox_message ''profile-r''" "''did:d''" ?s,
      unfolded fresh_inbox_def inbox.simps, OF example_handled]
  have "inbox_step inbox_sdk ?s (answered_inbox\<lparr>nb_book := stored_book\<rparr>)"
    by (simp add: fresh_inbox_def answered_inbox_def inbox_context_def)
  moreover have "inbox_step inbox_sdk (answered_inbox\<lparr>nb_book := stored_book\<rparr>) answered_inbox"
    using inbox_step.changes [of inbox_sdk "answered_inbox\<lparr>nb_book := stored_book\<rparr>" inbox_book]
    by (simp add: answered_inbox_def)
  ultimately show ?thesis by (rule converse_rtranclp_into_rtranclp [OF _ r_into_rtranclp])
qed

text \<open>A grant delivered by the community.\<close>

definition grant_credential :: json where
  "grant_credential = JObject [(''id'', JString ''g1''), (''issuer'', JString ''did:d''),
     (''credentialSubject'', JObject [(''id'', JString ''did:me'')])]"

definition grant_message :: didcomm_message where
  "grant_message = (inbox_message ''issue'')\<lparr>dm_body := JObject [(''issuer'', JString ''did:d''),
     (''payload'', JObject [(''credential_response'', JObject [(''credential'', grant_credential)])])]\<rparr>"

definition grant_context :: inbound_context where
  "grant_context = (inbox_context 3)\<lparr>ix_issued := Some (Inr grant_credential)\<rparr>"

definition example_grant :: vetter_grant where
  "example_grant = \<lparr>gr_community = ''did:d'', gr_persona = 1, gr_credential_id = Some ''g1'', gr_valid_until = None,
     gr_received_at = 3, gr_credential = grant_credential\<rparr>"

lemma grant_issued: "credential_in_issue grant_message = Some grant_credential" by code_simp

lemma grant_opened: "open_document inbox_sdk read_value grant_message ''did:d''
    = Inr (\<lparr>tt_id = ''d1'', tt_type = ''issue'', tt_issuer = Some ''did:d'', tt_thread_id = None,
             tt_payload = JObject [(''credential_response'', JObject [(''credential'', grant_credential)])]\<rparr>,
           JObject [(''credential_response'', JObject [(''credential'', grant_credential)])])"
  by (simp add: open_document_def inbox_sdk_def grant_message_def inbox_message_def result_simps read_value_def)

lemma grant_fields: "issuer_of grant_credential = Some ''did:d''"
  "jpointer [''credentialSubject'', ''id''] grant_credential = Some (JString ''did:me'')"
  "jmember_str ''id'' (Some grant_credential) = Some ''g1''" "jmember_str ''validUntil'' (Some grant_credential) = None"
  "names_vetter inbox_sdk grant_credential = Some ''did:d''" "membership example_account ''did:d'' 1 \<noteq> None"
  by code_simp+

lemma grant_kept: "keep_vetter_grant example_grant inbox_book = (inbox_book\<lparr>vb_vetter_grants := [example_grant]\<rparr>, True)"
  by (simp add: keep_vetter_grant_def inbox_book_def desk_book_def clear_retired_for_def Let_def)

lemma grant_handled:
  "\<exists>h. handle inbox_sdk i j grant_context grant_message ''did:d'' (inbox_book, no_documents)
     = ((inbox_book\<lparr>vb_vetter_grants := [example_grant], vb_vetter_refresh_due := True\<rparr>, no_documents), h)"
proof -
  have kind: "dm_type grant_message = ''issue''" by (simp add: grant_message_def inbox_message_def)
  have ctx: "ix_recipient grant_context = Some (1, ''did:me'')" "ix_issued grant_context = Some (Inr grant_credential)"
    "ix_now grant_context = 3" "ix_account grant_context = example_account"
    by (simp_all add: grant_context_def inbox_context_def)
  have kept: "keep_vetter_grant \<lparr>gr_community = ''did:d'', gr_persona = 1, gr_credential_id = Some ''g1'',
      gr_valid_until = None, gr_received_at = 3, gr_credential = grant_credential\<rparr> inbox_book
    = (inbox_book\<lparr>vb_vetter_grants := [example_grant]\<rparr>, True)"
    using grant_kept by (simp add: example_grant_def)
  have "\<exists>h. vetter_grant_arm inbox_sdk grant_context grant_credential ''did:d'' ''did:d'' inbox_book
      = (inbox_book\<lparr>vb_vetter_grants := [example_grant], vb_vetter_refresh_due := True\<rparr>, h)"
    using grant_fields kept by (auto simp: vetter_grant_arm_def ctx)
  then obtain h where "issue_arm inbox_sdk grant_context grant_message ''did:d'' inbox_book
      = (inbox_book\<lparr>vb_vetter_grants := [example_grant], vb_vetter_refresh_due := True\<rparr>, Some h)"
    by (auto simp: issue_arm_def grant_issued grant_fields(5) grant_delivery_arm_def grant_opened ctx)
  moreover have "vi_types inbox_sdk = inbox_types" by (simp add: inbox_sdk_def)
  ultimately show ?thesis
    by (simp add: handle_def route_def Let_def kind inbox_types_def is_community_answer_type_def from_manifest_response_def)
qed


section \<open>An answer settles a question\<close>

text \<open>\<open>settles\<close>: what is reported as an answer took a question of the sender out of those asked.\<close>

definition settled :: "string \<Rightarrow> vetting_book \<Rightarrow> vetting_book \<Rightarrow> bool" where
  "settled sender b b' \<longleftrightarrow> (\<exists>q. cq_community q = sender \<and> add_mset q (mset (vb_queries b')) \<subseteq># mset (vb_queries b))"

definition settles :: "string \<Rightarrow> vetting_book \<Rightarrow> vetting_book \<times> handled \<Rightarrow> bool" where
  "settles sender b = (\<lambda>(b', h). ho_answer h \<noteq> None \<longrightarrow> settled sender b b')"

lemma remove_first_mset_some:
  "List.find p xs = Some x \<Longrightarrow> add_mset x (mset (remove_first p xs)) = mset xs"
  by (induction xs) (auto split: if_splits)

lemma taken_settles:
  "take_query sender t k b = (b', Some q) \<Longrightarrow> settled sender b b' \<and> cq_community q = sender"
  by (auto simp: take_query_def settled_def answers_query_def remove_first_mset_some dest: find_SomeD
      split: option.splits intro!: exI [of _ q])

lemma answered_settles: "answer_to rd m sender k b = (b', Some x) \<Longrightarrow> settled sender b b'"
  by (auto simp: answer_to_def dest: taken_settles split: option.splits prod.splits)

lemma settled_queries: "settled sender b b' \<Longrightarrow> vb_queries b'' = vb_queries b' \<Longrightarrow> settled sender b b''"
  by (simp add: settled_def)

lemma no_answer [simp]: "ho_answer nothing = None" "ho_answer only_changed = None" "ho_answer (changed_with n) = None"
  by (simp_all add: nothing_def only_changed_def changed_with_def)

lemma nothing_fields [simp]: "ho_changed nothing = False" "ho_notice nothing = None"
  by (simp_all add: nothing_def)

text \<open>Arms that report no answer.\<close>

lemma answerless:
  "ho_answer (snd (request_arm sdk i j ctx m sender b)) = None" "ho_answer (snd (accepted_arm sdk ctx m sender b)) = None"
  "ho_answer (snd (session_arm sdk ctx m sender b)) = None" "ho_answer (snd (card_arm sdk ctx m sender b)) = None"
  "ho_answer (snd (declined_arm sdk ctx m sender b)) = None" "ho_answer (snd (withdrawal_arm sdk m sender b)) = None"
  "ho_answer (snd (attestation_arm ctx m b)) = None"
  by (simp_all add: request_arm_def accepted_arm_def session_arm_def card_arm_def declined_arm_def withdrawal_arm_def
      attestation_arm_def Let_def split_beta split: option.split sum.split intake.split)

lemma refusals_answerless: "ho_answer (grant_refused_arm ctx sender r) = None"
  by (simp add: grant_refused_arm_def split: option.split)

lemma grant_answerless:
  "ho_answer (snd (vetter_grant_arm sdk ctx c community sender b)) = None"
  "ho_answer (snd (grant_delivery_arm sdk ctx m sender c community b)) = None"
  "ho_answer (snd (statement_delivery_arm sdk ctx m sender b)) = None"
  by (simp_all add: grant_delivery_arm_def vetter_grant_arm_def statement_delivery_arm_def Let_def split_beta
      refusals_answerless split: option.split sum.split)

lemma issue_answerless: "snd (issue_arm sdk ctx m sender b) = Some h \<Longrightarrow> ho_answer h = None"
  by (auto simp: issue_arm_def grant_answerless split: option.splits if_splits)

text \<open>Arms that take the question they answer.\<close>

lemma handed_on_settles: "settles sender b (handed_on_arm k f rd m sender b)"
  by (auto simp: settles_def handed_on_arm_def dest: answered_settles split: option.split prod.split sum.split)

lemma profile_settles: "settles sender b (profile_arm sdk m sender b)"
  by (auto simp: settles_def profile_arm_def on_profile_stored_def set_profile_state_def
      dest!: answered_settles intro: settled_queries split: option.split prod.split sum.split)

lemma resent_settles: "settles sender b (resent_arm sdk m sender b)"
  by (auto simp: settles_def resent_arm_def dest: answered_settles split: option.split prod.split sum.split)

lemma challenge_settles: "settles sender b (challenge_arm sdk m sender b)"
  by (auto simp: settles_def challenge_arm_def
      dest!: answered_settles intro: settled_queries split: option.split prod.split sum.split)

lemma event_mode_settles: "settles sender b (event_mode_arm sdk ctx m sender b)"
  by (auto simp: settles_def event_mode_arm_def
      dest!: answered_settles intro: settled_queries split: option.split prod.split sum.split)

lemma binding_settles: "settles sender b (binding_arm sdk ctx m sender b)"
  by (auto simp: settles_def binding_arm_def Let_def
      dest!: answered_settles intro: settled_queries split: option.split prod.split sum.split)

lemma tokens_settles: "settles sender b (tokens_served_arm sdk ctx m sender b)"
  by (auto simp: settles_def tokens_served_arm_def Let_def dest: taken_settles
      split: option.split prod.split sum.split)

lemma refused_draw_queries [simp]: "vb_queries (fst (refused_draw q sender b)) = vb_queries b"
  by (simp add: refused_draw_def forget_draw_def queue_for_vta_def Let_def split: option.split prod.split)

lemma update_engine_queries [simp]: "vb_queries (update_engine c p f b) = vb_queries b"
  by (simp add: update_engine_def)

lemma hidden_refused_queries [simp]: "vb_queries (fst (hidden_refused sdk ctx q sender code d b)) = vb_queries b"
  by (simp add: hidden_refused_def Let_def split_beta split: option.split)

lemma query_refused_queries [simp]: "vb_queries (fst (query_refused sdk ctx q sender code d b)) = vb_queries b"
  by (simp add: query_refused_def on_profile_refused_def set_profile_state_def mode_failed_def set_check_def Let_def
      split_beta split: query_kind.split)

lemma refusal_settles:
  assumes "refusal_of sdk ctx t sender code d b = (b', Some h)"
  shows "settles sender b (b', h)"
proof (cases "take_query sender t None b")
  case (Pair b1 q)
  with assms show ?thesis
    by (cases q) (auto simp: refusal_of_def settles_def Let_def split_beta dest!: taken_settles intro: settled_queries
        split: option.splits sum.splits)
qed

lemma settled_by:
  assumes "mset (vb_queries b') + mset qs = mset (vb_queries b)" "\<forall>q \<in> set qs. cq_community q = sender" "qs \<noteq> []"
  shows "settled sender b b'"
proof -
  from assms(3) obtain q rest where "qs = q # rest" by (cases qs) auto
  with assms(1,2) show ?thesis
    by (auto simp: settled_def subseteq_mset_def intro!: exI [of _ q] exI [of _ "mset rest"] simp flip: assms(1))
qed

lemma partition_mset: "mset (filter (\<lambda>x. \<not> p x) xs) + mset (filter p xs) = mset xs"
  by (induction xs) auto

lemma take_query_parts:
  "take_query sender t k b = (b', q) \<Longrightarrow>
     mset (vb_queries b') + mset (case q of None \<Rightarrow> [] | Some q \<Rightarrow> [q]) = mset (vb_queries b) \<and>
     (\<forall>x. q = Some x \<longrightarrow> cq_community x = sender)"
  by (auto simp: take_query_def remove_first_mset_some answers_query_def dest: find_SomeD split: option.splits)

lemma take_manifest_parts:
  assumes "take_manifest_queries sender t b = (b', qs)"
  shows "mset (vb_queries b') + mset qs = mset (vb_queries b)" "\<forall>q \<in> set qs. cq_community q = sender"
proof -
  let ?th = "case t of None \<Rightarrow> (b, None) | Some t \<Rightarrow> take_query sender t (Some ManifestQuery) b"
  obtain b1 q where th: "?th = (b1, q)" by force
  have parts: "mset (vb_queries b1) + mset (case q of None \<Rightarrow> [] | Some q \<Rightarrow> [q]) = mset (vb_queries b)"
    "\<forall>x. q = Some x \<longrightarrow> cq_community x = sender"
    using th take_query_parts [of sender _ "Some ManifestQuery" b b1 q] by (auto split: option.splits)
  have "vb_queries b' = filter (\<lambda>q. \<not> about_manifest sender q) (vb_queries b1)"
    "qs = (case q of None \<Rightarrow> [] | Some q \<Rightarrow> [q]) @ filter (about_manifest sender) (vb_queries b1)"
    using assms th by (auto simp: take_manifest_queries_def Let_def)
  with parts show "mset (vb_queries b') + mset qs = mset (vb_queries b)" "\<forall>q \<in> set qs. cq_community q = sender"
    using partition_mset [of "about_manifest sender" "vb_queries b1"]
    by (auto simp: about_manifest_def ac_simps split: option.split)
qed

lemma set_check_queries [simp]: "vb_queries (set_check c f b) = vb_queries b"
  by (simp add: set_check_def)

lemma published_queries [simp]:
  "vb_queries (fst (keep_published c p b)) = vb_queries b" "vb_queries (fst (engines_read c p now b)) = vb_queries b"
  by (simp_all add: keep_published_def engines_read_def Let_def split_beta split: option.split prod.split)

lemma learn_queries [simp]:
  "vb_queries (fst (learn_manifest_in sdk c mf rq p meta now b)) = vb_queries b"
  "vb_queries (fst (learn_directory sdk2 c raw b)) = vb_queries b"
  "vb_queries (fst (learn_mode sdk c raw before now b)) = vb_queries b"
  "vb_queries (fst (adopt_all sdk c mf raw b)) = vb_queries b"
  "vb_queries (mode_failed c e now b) = vb_queries b"
  by (simp_all add: learn_manifest_in_def learn_directory_def learn_mode_def adopt_all_def mode_failed_def record_mode_def
      note_switch_def Let_def split_beta split: option.split sum.split)

lemma manifest_arm_settles: "settles sender b (manifest_arm sdk ctx m sender b)"
proof -
  have "settled sender b (fst (take_manifest_queries sender t b0))"
    if "vb_queries b0 = vb_queries b" "snd (take_manifest_queries sender t b0) \<noteq> []" for b0 t
    using take_manifest_parts [of sender t b0] that
    by (intro settled_by [of _ "snd (take_manifest_queries sender t b0)"]) (simp_all add: prod_eq_iff)
  then show ?thesis
    by (auto simp: settles_def manifest_arm_def Let_def split_beta split: sum.split list.split)
qed

section \<open>Properties\<close>


lemma route_settles:
  assumes "route sdk i j ctx m sender b = (b', Some h, on)" "ho_answer h \<noteq> None"
    and "dm_type m \<noteq> response_of root_type"
  shows "settled sender b b'"
proof -
  have arm: "settled sender b b'" if "settles sender b r" "r = (b', h)" for r
    using that assms(2) by (simp add: settles_def)
  have no: False if "ho_answer (snd r) = None" "r = (b', h)" for r :: "vetting_book \<times> handled"
    using that assms(2) by simp
  have refused: "settled sender b b'" if "refusal_of sdk ctx t sender c d b = (b', Some h)" for t c d
    using refusal_settles [OF that] assms(2) by (simp add: settles_def)
  have issue: False if "issue_arm sdk ctx m sender b = (b', Some h)"
    using issue_answerless [of sdk ctx m sender b h] that assms(2) by simp
  have att: False if "apsnd Some (attestation_arm ctx m b) = (b', Some h)"
    using that assms(2) answerless(7) [of ctx m b] by (cases "attestation_arm ctx m b") simp
  show ?thesis
    using assms(1,3) unfolding route_def Let_def
    by (auto split: if_splits prod.splits option.splits
        dest: arm [OF manifest_arm_settles] arm [OF profile_settles] arm [OF resent_settles] arm [OF challenge_settles]
          arm [OF event_mode_settles] arm [OF binding_settles] arm [OF tokens_settles]
          arm [OF handed_on_settles] no [OF answerless(1)] no [OF answerless(2)] no [OF answerless(3)]
          no [OF answerless(4)] no [OF answerless(5)] no [OF answerless(6)] refused
          issue att
        simp: vetter_list_arm_def wallet_started_arm_def wallet_status_arm_def refused_arm_def problem_arm_def)
qed

section \<open>Properties\<close>

text \<open>(CX) 
  A vetting message stays with its sender. Whatever its type, body and the state of the client, handling it leaves as
  they were: every application that is neither to the sender's community nor asked the sender for vetting, and every
  engine, criterion, record, published parameters, grant, profile, mode reading, question, issued statement and desk
  entry of anyone else.
\<close>

theorem messages_stay_with_sender:
  assumes "handle sdk i j ctx m sender (b, seen) = ((b', seen'), h)"
  shows "others_kept sender b b'"
  using handle_moves [OF assms] by (induction rule: rtranclp_induct) (auto intro: others_trans move_others)

theorem messages_stay_with_sender_witness:
  "others_kept ''did:d'' inbox_book stored_book \<and> \<not> others_kept ''did:e'' inbox_book stored_book"
proof -
  have "\<not> others_kept ''did:e'' inbox_book stored_book"
    by (simp add: others_kept_def inbox_book_def stored_book_def profile_asked_def profile_at_def)
  with messages_stay_with_sender [OF example_handled] show ?thesis by simp
qed

text \<open>(CX) 
  Standing as a vetter comes only from the community. A grant the client holds after a message that it did not hold
  before was delivered in a signed document of the sender's, is issued by that sender, which is the community the
  credential names us a vetter of, names the very persona it was sent to, and that persona holds a membership there.
\<close>

theorem grants_from_community:
  assumes "handle sdk i j ctx m sender (b, seen) = ((b', seen'), h)" "g \<in> set (vb_vetter_grants b')"
  shows "g \<in> set (vb_vetter_grants b) \<or> granting sdk ctx m sender g"
  using moves_grants [OF handle_moves [OF assms(1)] assms(2)] .

theorem grants_from_community_witness: "granting inbox_sdk grant_context grant_message ''did:d'' example_grant"
proof -
  obtain h where h: "handle inbox_sdk [] [] grant_context grant_message ''did:d'' (inbox_book, no_documents)
     = ((inbox_book\<lparr>vb_vetter_grants := [example_grant], vb_vetter_refresh_due := True\<rparr>, no_documents), h)"
    using grant_handled [of "[]" "[]"] by blast
  show ?thesis
    using grants_from_community [OF h, of example_grant] by (simp add: inbox_book_def desk_book_def)
qed

text \<open>(CX) 
  A community's signed answer is acted on once. In an inbox that started empty and handled any messages in any order,
  with the book changing in between, an answer with the issuer and the id of one already acted on is not acted on
  before the moment the first is too old to be taken: the set of ids always has room for what passed the check.
\<close>

theorem community_answers_once:
  assumes "(inbox_step sdk)\<^sup>*\<^sup>* (fresh_inbox b now) s" "nb_clock s \<le> ix_now ctx"
    and "acts_on sdk i j ctx m sender (nb_book s, nb_seen s) = Some v"
    and "w \<in> set (nb_acted s)" "vo_issuer w = vo_issuer v" "vo_id w = vo_id v"
  shows "vo_forget_after w \<le> ix_now ctx"
  by (rule acts_on_checked [OF assms])

theorem community_answers_once_witness:
  "acts_on inbox_sdk [] [] (inbox_context 49) (inbox_message ''profile-r'') ''did:d''
     (nb_book answered_inbox, nb_seen answered_inbox) = None \<and> vo_forget_after inbox_answer \<le> 50"
proof -
  have later: "acts_on inbox_sdk [] [] (inbox_context 50) (inbox_message ''profile-r'') ''did:d''
      (nb_book answered_inbox, nb_seen answered_inbox) = Some inbox_answer"
    by (simp add: answered_inbox_def example_acts_on seen_check_def seen_contains_def until_of_def live_ids_def
        max_seen_per_issuer_def)
  have "acts_on inbox_sdk [] [] (inbox_context 49) (inbox_message ''profile-r'') ''did:d''
      (nb_book answered_inbox, nb_seen answered_inbox) = None"
    by (simp add: answered_inbox_def example_acts_on seen_check_def seen_contains_def until_of_def)
  then show ?thesis
    using community_answers_once [OF example_inbox, of "inbox_context 50" "[]" "[]" "inbox_message ''profile-r''" "''did:d''"
        inbox_answer inbox_answer] later
    by (simp add: answered_inbox_def inbox_context_def)
qed

text \<open>(CX) 
  An answer is reported only for a question. When handling a message reports an answer, a question put to the
  sender was among those waiting and is no longer, so no answer is reported twice for one question; an answer about a
  hidden-vetting enrolment is the one exception.
\<close>

theorem answers_answer_questions:
  assumes "handle sdk i j ctx m sender (b, seen) = ((b', seen'), Some h)" "ho_answer h \<noteq> None"
    and "dm_type m \<noteq> response_of root_type"
  shows "settled sender b b'"
  using assms route_settles [of sdk i j ctx m sender b b' h]
  by (auto simp: handle_def Let_def split: if_splits option.splits prod.splits)

theorem answers_answer_questions_witness: "settled ''did:d'' inbox_book stored_book"
proof -
  have "response_of root_type = root_type @ ''#response''" by (simp add: response_of_def)
  then have "dm_type (inbox_message ''profile-r'') \<noteq> response_of root_type"
    by (simp add: inbox_message_def root_type_def)
  with answers_answer_questions [OF example_handled] show ?thesis by simp
qed

end
