(* ===== verification/Contexts.thy ===== *)
theory Contexts
  imports Book Messaging SortedMaps
begin

text \<open>
  Which VTA context a community lives in (\<open>openvtc-core/src/config/context_path.rs\<close>, \<open>community_context.rs\<close>): naming
  a sub-context \<open>top/slug\<close>, the contexts offered when joining, how far a membership is kept apart, and deleting the
  context of a membership that is over. The VTA, and reading an SCID out of a DID, are the SDK's.
\<close>

section \<open>Paths\<close>

definition max_slug_len :: nat where "max_slug_len = 32"
definition fallback_token_len :: nat where "fallback_token_len = 12"
definition max_context_depth :: nat where "max_context_depth = 8"
definition separator :: char where "separator = CHR ''/''"
definition max_identifier_len :: nat where "max_identifier_len = 64"

datatype context_error =
    EmptyIdentifier string
  | LongIdentifier string nat
  | InvalidCharacter string char nat
  | EmptyContextPath
  | SeparatorAtEdge
  | PathTooDeep nat
  | EmptyPathSegment
  | BadVtcDid string
  | NoUsableScid string
  | AlreadyInUse string
  | OutsideTop string
  | VtaFailed string

definition is_lower :: "char \<Rightarrow> bool" where
  "is_lower c \<longleftrightarrow> 97 \<le> (of_char c :: nat) \<and> (of_char c :: nat) \<le> 122"

definition is_upper :: "char \<Rightarrow> bool" where
  "is_upper c \<longleftrightarrow> 65 \<le> (of_char c :: nat) \<and> (of_char c :: nat) \<le> 90"

definition is_alphanumeric :: "char \<Rightarrow> bool" where
  "is_alphanumeric c \<longleftrightarrow> is_lower c \<or> is_upper c \<or> ascii_digit c"

definition to_lower :: "char \<Rightarrow> char" where
  "to_lower c = (if is_upper c then char_of ((of_char c :: nat) + 32) else c)"

definition identifier_char :: "char \<Rightarrow> bool" where
  "identifier_char c \<longleftrightarrow> is_alphanumeric c \<or> c = CHR ''.'' \<or> c = CHR ''_'' \<or> c = CHR ''-''"

definition validate_identifier :: "string \<Rightarrow> string \<Rightarrow> context_error + unit" where
  "validate_identifier label s =
     (if s = [] then Inl (EmptyIdentifier label)
      else if max_identifier_len < length s then Inl (LongIdentifier label (length s))
      else case List.find (\<lambda>(i, c). \<not> identifier_char c) (enumerate 0 s) of
             Some (i, c) \<Rightarrow> Inl (InvalidCharacter label c i)
           | None \<Rightarrow> Inr ())"

definition segment_label :: string where "segment_label = ''context path segment''"

fun validate_segments :: "string list \<Rightarrow> context_error + unit" where
  "validate_segments [] = Inr ()"
| "validate_segments (s # ss) =
     (if s = [] then Inl EmptyPathSegment
      else rbind (validate_identifier segment_label s) (\<lambda>_. validate_segments ss))"

definition validate_context_path :: "string \<Rightarrow> context_error + unit" where
  "validate_context_path v =
     (if v = [] then Inl EmptyContextPath
      else if hd v = separator \<or> last v = separator then Inl SeparatorAtEdge
      else let segments = split_on separator v in
        if max_context_depth < length segments then Inl (PathTooDeep (length segments))
        else validate_segments segments)"

definition child_path :: "string \<Rightarrow> string \<Rightarrow> context_error + string" where
  "child_path parent segment =
     rbind (validate_identifier segment_label segment) (\<lambda>_.
       let candidate = parent @ [separator] @ segment
       in rbind (validate_context_path candidate) (\<lambda>_. Inr candidate))"

text \<open>The loop of \<open>slugify\<close>: what is written, whether a dash is pending, what is left.\<close>

fun slug_loop :: "string \<Rightarrow> bool \<Rightarrow> string \<Rightarrow> string" where
  "slug_loop out dash [] = out"
| "slug_loop out dash (c # cs) =
     (let lc = to_lower c in
      if is_lower lc \<or> ascii_digit lc then
        let out = (if dash \<and> out \<noteq> [] then out @ ''-'' else out) @ [lc]
        in if max_slug_len \<le> length out then out else slug_loop out False cs
      else slug_loop out True cs)"

definition slugify :: "string \<Rightarrow> string" where
  "slugify name = slug_loop [] False name"

record scid_sdk =
  cs_is_scid :: "string \<Rightarrow> bool"
  cs_scid_of :: "string \<Rightarrow> string option"
  cs_webvh_scid :: "string \<Rightarrow> string + string"

definition fallback_token :: "scid_sdk \<Rightarrow> string \<Rightarrow> context_error + string" where
  "fallback_token sdk did =
     rbind (if cs_is_scid sdk did then ok_or (BadVtcDid did) (cs_scid_of sdk did)
            else map_err (\<lambda>e. BadVtcDid e) (cs_webvh_scid sdk did)) (\<lambda>scid.
       let token = take fallback_token_len (map to_lower (filter is_alphanumeric scid))
       in if token = [] then Inl (NoUsableScid did) else Inr token)"

text \<open>
  The loop of \<open>build_sub_context_id\<close> from the candidate \<open>segment\<close> on, \<open>n\<close> the suffix to try next, a \<open>u32\<close>: \<open>None\<close> where
  counting past its end would panic.
\<close>

function free_context ::
  "string \<Rightarrow> string \<Rightarrow> (string \<Rightarrow> bool) \<Rightarrow> string \<Rightarrow> nat \<Rightarrow> (context_error + string) option" where
  "free_context topc base taken segment n =
     (case child_path topc segment of
        Inl e \<Rightarrow> Some (Inl e)
      | Inr candidate \<Rightarrow>
          if \<not> taken candidate then Some (Inr candidate)
          else if u32_max \<le> n then None
          else free_context topc base taken (base @ ''-'' @ decimal n) (n + 1))"
  by pat_completeness auto

termination free_context
  by (relation "measure (\<lambda>(_, _, _, _, n). u32_max - n)") auto

declare free_context.simps [simp del]

definition slug_base :: "scid_sdk \<Rightarrow> string option \<Rightarrow> string \<Rightarrow> context_error + string" where
  "slug_base sdk name did =
     (case map_option slugify name of
        Some slug \<Rightarrow> if slug \<noteq> [] then Inr slug else fallback_token sdk did
      | None \<Rightarrow> fallback_token sdk did)"

definition build_sub_context_id ::
  "scid_sdk \<Rightarrow> string \<Rightarrow> string option \<Rightarrow> string \<Rightarrow> (string \<Rightarrow> bool) \<Rightarrow> (context_error + string) option" where
  "build_sub_context_id sdk topc name did taken =
     (case slug_base sdk name did of
        Inl e \<Rightarrow> Some (Inl e)
      | Inr base \<Rightarrow> free_context topc base taken base 2)"

definition parse_sub_context_id :: "string \<Rightarrow> (string \<times> string) option" where
  "parse_sub_context_id i =
     (if separator \<in> set i
      then Some (rev (tl (dropWhile (\<lambda>c. c \<noteq> separator) (rev i))), rev (takeWhile (\<lambda>c. c \<noteq> separator) (rev i)))
      else None)"

definition render_for_display :: "string \<Rightarrow> string" where
  "render_for_display i = (case parse_sub_context_id i of None \<Rightarrow> i | Some (_, slug) \<Rightarrow> slug)"

section \<open>The contexts of an account\<close>

definition persona_context :: "persona_record \<Rightarrow> string \<Rightarrow> string" where
  "persona_context p topc = (if pr_origin_context_id p = [] then topc else pr_origin_context_id p)"

definition is_sub_context :: "string \<Rightarrow> string \<Rightarrow> bool" where
  "is_sub_context i topc \<longleftrightarrow>
     (case strip_prefix topc i of None \<Rightarrow> False | Some rest \<Rightarrow> starts_with [separator] rest \<and> 1 < length rest)"

datatype context_kind = NewContext | ExistingContext | TopContextKind

record context_option =
  xo_context_id :: string
  xo_kind :: context_kind
  xo_communities :: "string list"
  xo_holds_persona_keys :: bool

definition in_context :: "account \<Rightarrow> string \<Rightarrow> string list" where
  "in_context a i = sorted_once (map cr_vtc_did (filter (\<lambda>m. cr_sub_context_id m = i) (memberships a)))"

definition context_options :: "account \<Rightarrow> persona_record option \<Rightarrow> string \<Rightarrow> context_option list" where
  "context_options a persona suggested_new =
     (let topc = ac_top_context_id a;
          everything =
            \<lparr>xo_context_id = suggested_new, xo_kind = NewContext, xo_communities = [], xo_holds_persona_keys = False\<rparr>
            # map (\<lambda>i. \<lparr>xo_context_id = i, xo_kind = ExistingContext, xo_communities = in_context a i,
                         xo_holds_persona_keys = False\<rparr>)
                (sorted_once (filter (\<lambda>i. is_sub_context i topc \<and> i \<noteq> suggested_new)
                   (map cr_sub_context_id (memberships a) @ map (pr_origin_context_id \<circ> snd) (ac_personas a))))
            @ [\<lparr>xo_context_id = topc, xo_kind = TopContextKind, xo_communities = in_context a topc,
                 xo_holds_persona_keys = (persona \<noteq> None)\<rparr>]
      in case persona of
           None \<Rightarrow> everything
         | Some p \<Rightarrow>
             let home = persona_context p topc in
             if is_sub_context home topc
             then [\<lparr>xo_context_id = home, xo_kind = ExistingContext, xo_communities = in_context a home,
                    xo_holds_persona_keys = True\<rparr>]
             else everything)"

definition context_in_use :: "account \<Rightarrow> string \<Rightarrow> bool" where
  "context_in_use a i \<longleftrightarrow>
     list_ex (\<lambda>m. cr_sub_context_id m = i) (memberships a) \<or>
     list_ex (\<lambda>p. pr_origin_context_id (snd p) = i) (ac_personas a)"

text \<open>\<open>trim\<close> of the slug typed is taken as done; its whitespace is Unicode's.\<close>

definition new_context_id :: "string \<Rightarrow> string \<Rightarrow> (string \<Rightarrow> bool) \<Rightarrow> context_error + string" where
  "new_context_id topc slug taken =
     rbind (child_path topc slug) (\<lambda>i. if taken i then Inl (AlreadyInUse i) else Inr i)"

datatype isolation_kind = Isolated | SharedWith nat | KeysElsewhere | InTop

definition isolation :: "account \<Rightarrow> community_record \<Rightarrow> isolation_kind" where
  "isolation a m =
     (let topc = ac_top_context_id a; ctx = cr_sub_context_id m in
      if ctx = [] \<or> \<not> is_sub_context ctx topc then InTop
      else if (case map_of (ac_personas a) (cr_persona_ref m) of
                 None \<Rightarrow> True | Some p \<Rightarrow> persona_context p topc \<noteq> ctx) then KeysElsewhere
      else case length (filter (\<lambda>m. cr_sub_context_id m = ctx) (memberships a)) - 1 of
             0 \<Rightarrow> Isolated | n \<Rightarrow> SharedWith n)"

definition context_claimed :: "account \<Rightarrow> application list \<Rightarrow> string \<Rightarrow> bool" where
  "context_claimed a apps i \<longleftrightarrow> context_in_use a i \<or> list_ex (\<lambda>ap. ap_context_id ap = Some i) apps"

definition suggested_context_id ::
  "scid_sdk \<Rightarrow> string \<Rightarrow> string \<Rightarrow> string \<Rightarrow> (string \<Rightarrow> bool) \<Rightarrow> (context_error + string) option" where
  "suggested_context_id sdk topc name fallback taken =
     build_sub_context_id sdk topc (Some (if slugify name = [] then fallback else name)) [] taken"

text \<open>\<open>suggested_context\<close> and \<open>application_context\<close> of the terminal client; \<open>agent_name\<close> is the cached name of a DID.\<close>

definition suggested_context ::
  "scid_sdk \<Rightarrow> (string \<Rightarrow> string option) \<Rightarrow> account \<Rightarrow> application list \<Rightarrow> string \<Rightarrow> string option" where
  "suggested_context sdk agent_name a apps vtc =
     (let topc = ac_top_context_id a; taken = context_claimed a apps in
      case build_sub_context_id sdk topc (agent_name vtc) vtc taken of
        None \<Rightarrow> None
      | Some (Inr i) \<Rightarrow> Some i
      | Some (Inl _) \<Rightarrow>
          (case build_sub_context_id sdk topc (Some ''community'') vtc taken of
             None \<Rightarrow> None
           | Some (Inr i) \<Rightarrow> Some i
           | Some (Inl _) \<Rightarrow> Some topc))"

section \<open>Contexts at the VTA\<close>

text \<open>The calls of the VTA client used, each on the VTA's state.\<close>

datatype vta_error = VtaNotFound | VtaConflict | VtaError string

record 'v context_vta =
  cv_get :: "'v \<Rightarrow> string \<Rightarrow> 'v \<times> (vta_error + unit)"
  cv_create :: "'v \<Rightarrow> string \<Rightarrow> string \<Rightarrow> string \<Rightarrow> 'v \<times> (vta_error + unit)"
  cv_list :: "'v \<Rightarrow> 'v \<times> (vta_error + string list)"
  cv_preview :: "'v \<Rightarrow> string \<Rightarrow> 'v \<times> (vta_error + json)"
  cv_delete :: "'v \<Rightarrow> string \<Rightarrow> 'v \<times> (vta_error + unit)"
  cv_delete_did :: "'v \<Rightarrow> string \<Rightarrow> 'v \<times> (vta_error + unit)"

lemma parse_shorter: "parse_sub_context_id i = Some (parent, slug) \<Longrightarrow> length parent < length i"
proof -
  assume a: "parse_sub_context_id i = Some (parent, slug)"
  let ?d = "dropWhile (\<lambda>c. c \<noteq> separator) (rev i)"
  from a have "separator \<in> set (rev i)" "parent = rev (tl ?d)"
    by (auto simp: parse_sub_context_id_def split: if_splits)
  moreover from this(1) have "?d \<noteq> []" by (auto simp: dropWhile_eq_Nil_conv)
  moreover have "length ?d \<le> length i" using length_dropWhile_le [of _ "rev i"] by simp
  ultimately show ?thesis by (cases ?d) auto
qed

text \<open>The paths from \<open>current\<close> up to the top context, that one excluded, the deepest first.\<close>

function path_chain :: "string \<Rightarrow> string \<Rightarrow> string list" where
  "path_chain topc current =
     (if current = topc then []
      else current # (case parse_sub_context_id current of
                        Some (parent, _) \<Rightarrow> path_chain topc parent | None \<Rightarrow> []))"
  by pat_completeness auto

termination path_chain
  by (relation "measure (\<lambda>(_, current). length current)") (auto dest: parse_shorter)

declare path_chain.simps [simp del]

fun ensure_paths ::
  "'v context_vta \<Rightarrow> string \<Rightarrow> string \<Rightarrow> 'v \<Rightarrow> bool \<Rightarrow> string list \<Rightarrow> 'v \<times> (context_error + bool)" where
  "ensure_paths vta context_id name v created [] = (v, Inr created)"
| "ensure_paths vta context_id name v created (path # rest) =
     (case cv_get vta v path of
        (v, Inr _) \<Rightarrow> ensure_paths vta context_id name v created rest
      | (v, Inl VtaNotFound) \<Rightarrow>
          (case parse_sub_context_id path of
             None \<Rightarrow> ensure_paths vta context_id name v created rest
           | Some (parent, slug) \<Rightarrow>
               (case cv_create vta v slug (if path = context_id then name else slug) parent of
                  (v, Inr _) \<Rightarrow> ensure_paths vta context_id name v True rest
                | (v, Inl VtaConflict) \<Rightarrow> ensure_paths vta context_id name v created rest
                | (v, Inl _) \<Rightarrow> (v, Inl (VtaFailed path))))
      | (v, Inl _) \<Rightarrow> (v, Inl (VtaFailed path)))"

definition ensure_context ::
  "'v context_vta \<Rightarrow> 'v \<Rightarrow> string \<Rightarrow> string \<Rightarrow> string \<Rightarrow> 'v \<times> (context_error + bool)" where
  "ensure_context vta v topc context_id name =
     (if context_id = topc then (v, Inr False)
      else case validate_context_path context_id of
             Inl e \<Rightarrow> (v, Inl e)
           | Inr _ \<Rightarrow>
               if \<not> is_sub_context context_id topc then (v, Inl (OutsideTop context_id))
               else ensure_paths vta context_id name v False (rev (path_chain topc context_id)))"

section \<open>Deleting a context\<close>

datatype context_use =
    MembershipUse string persona_id string
  | PersonaKeysUse persona_id string
  | VettingUse string persona_id

definition persona_name :: "persona_record \<Rightarrow> string" where
  "persona_name p = (case pr_label p of None \<Rightarrow> pr_did p | Some l \<Rightarrow> l)"

definition member_name :: "community_record \<Rightarrow> string" where
  "member_name m = (case cr_display_name m of None \<Rightarrow> cr_vtc_did m | Some n \<Rightarrow> n)"

definition context_uses :: "account \<Rightarrow> application list \<Rightarrow> string \<Rightarrow> context_use list" where
  "context_uses a apps i =
     map (\<lambda>m. MembershipUse (cr_vtc_did m) (cr_persona_ref m) (member_name m))
       (filter (\<lambda>m. cr_sub_context_id m = i) (memberships a))
     @ map (\<lambda>p. PersonaKeysUse (pr_persona_id p) (persona_name p))
         (sort_key pr_did (filter (\<lambda>p. pr_origin_context_id p = i) (map snd (ac_personas a))))
     @ map (\<lambda>ap. VettingUse (ap_community ap) (ap_persona ap)) (filter (\<lambda>ap. ap_context_id ap = Some i) apps)"

record persona_taken_along =
  pt_persona :: persona_id
  pt_did :: string
  pt_name :: string

record context_deletion =
  xd_context_id :: string
  xd_persona :: "persona_taken_along option"

datatype persona_use = PersonaMembership string | PersonaVetting string | PersonaActive

datatype deletion_refusal =
    InTopContext
  | StillLive
  | InUse "context_use list"
  | PersonaInUse string "persona_use list"

fun is_membership_use :: "string \<Rightarrow> persona_id \<Rightarrow> context_use \<Rightarrow> bool" where
  "is_membership_use vtc persona (MembershipUse v p _) \<longleftrightarrow> v = vtc \<and> p = persona"
| "is_membership_use vtc persona _ \<longleftrightarrow> False"

fun is_keys_use :: "persona_id \<Rightarrow> context_use \<Rightarrow> bool" where
  "is_keys_use own (PersonaKeysUse p _) \<longleftrightarrow> p = own"
| "is_keys_use own _ \<longleftrightarrow> False"

definition persona_uses ::
  "account \<Rightarrow> application list \<Rightarrow> persona_id option \<Rightarrow> community_record \<Rightarrow> persona_use list" where
  "persona_uses a apps active m =
     (let own = cr_persona_ref m in
      map (\<lambda>o'. PersonaMembership (member_name o'))
        (filter (\<lambda>o'. cr_persona_ref o' = own \<and> cr_vtc_did o' \<noteq> cr_vtc_did m) (memberships a))
      @ map (\<lambda>ap. PersonaVetting (ap_community ap)) (filter (\<lambda>ap. ap_persona ap = own) apps)
      @ (if active = Some own then [PersonaActive] else []))"

definition deletable_context ::
  "account \<Rightarrow> application list \<Rightarrow> persona_id option \<Rightarrow> community_record \<Rightarrow> deletion_refusal + context_deletion" where
  "deletable_context a apps active m =
     (let i = cr_sub_context_id m; own = cr_persona_ref m in
      if \<not> is_sub_context i (ac_top_context_id a) then Inl InTopContext
      else if \<not> is_inactive (cr_status m) then Inl StillLive
      else
        let uses = filter (\<lambda>u. \<not> is_membership_use (cr_vtc_did m) own u) (context_uses a apps i)
        in if list_ex (\<lambda>u. \<not> is_keys_use own u) uses then Inl (InUse uses)
           else case (if list_ex (is_keys_use own) uses then map_of (ac_personas a) own else None) of
                  None \<Rightarrow> Inr \<lparr>xd_context_id = i, xd_persona = None\<rparr>
                | Some p \<Rightarrow>
                    let others = persona_uses a apps active m
                    in if others \<noteq> [] then Inl (PersonaInUse (persona_name p) others)
                       else Inr \<lparr>xd_context_id = i,
                                 xd_persona = Some \<lparr>pt_persona = own, pt_did = pr_did p, pt_name = persona_name p\<rparr>\<rparr>)"

text \<open>\<open>below\<close> is the SDK's \<open>is_ancestor_or_self\<close>.\<close>

definition descendants_of :: "(string \<Rightarrow> string \<Rightarrow> bool) \<Rightarrow> string \<Rightarrow> string list \<Rightarrow> string list" where
  "descendants_of below i everything = sorted_once (filter (\<lambda>c. c \<noteq> i \<and> below i c) everything)"

definition delete_confirmation :: string where "delete_confirmation = ''DELETE''"

definition confirms_deletion :: "string \<Rightarrow> bool" where
  "confirms_deletion typed \<longleftrightarrow> typed = delete_confirmation"

definition require_sub_context :: "string \<Rightarrow> string \<Rightarrow> context_error + unit" where
  "require_sub_context topc i = ensure (is_sub_context i topc) (OutsideTop i)"

fun preview_all :: "'v context_vta \<Rightarrow> 'v \<Rightarrow> string list \<Rightarrow> 'v \<times> (context_error + json list)" where
  "preview_all vta v [] = (v, Inr [])"
| "preview_all vta v (i # js) =
     (case cv_preview vta v i of
        (v, Inl _) \<Rightarrow> (v, Inl (VtaFailed i))
      | (v, Inr p) \<Rightarrow>
          (case preview_all vta v js of
             (v, Inl e) \<Rightarrow> (v, Inl e)
           | (v, Inr ps) \<Rightarrow> (v, Inr (p # ps))))"

definition preview_context_deletion ::
  "'v context_vta \<Rightarrow> (string \<Rightarrow> string \<Rightarrow> bool) \<Rightarrow> 'v \<Rightarrow> string \<Rightarrow> string \<Rightarrow> 'v \<times> (context_error + json list)" where
  "preview_context_deletion vta below v topc i =
     (case require_sub_context topc i of
        Inl e \<Rightarrow> (v, Inl e)
      | Inr _ \<Rightarrow>
          (case cv_list vta v of
             (v, Inl _) \<Rightarrow> (v, Inl (VtaFailed ''list contexts''))
           | (v, Inr everything) \<Rightarrow> preview_all vta v (i # descendants_of below i everything)))"

definition delete_context :: "'v context_vta \<Rightarrow> 'v \<Rightarrow> string \<Rightarrow> string \<Rightarrow> 'v \<times> (context_error + unit)" where
  "delete_context vta v topc i =
     (case require_sub_context topc i of
        Inl e \<Rightarrow> (v, Inl e)
      | Inr _ \<Rightarrow> apsnd (map_err (\<lambda>_. VtaFailed i)) (cv_delete vta v i))"

record deletion_report =
  dr_persona_removed :: bool
  dr_result :: "context_error + unit"

definition delete_community_context ::
  "'v context_vta \<Rightarrow> 'v \<Rightarrow> string \<Rightarrow> context_deletion \<Rightarrow> 'v \<times> deletion_report" where
  "delete_community_context vta v topc d =
     (let finish = (\<lambda>removed v. apsnd (\<lambda>r. \<lparr>dr_persona_removed = removed, dr_result = r\<rparr>)
                      (delete_context vta v topc (xd_context_id d)))
      in case require_sub_context topc (xd_context_id d) of
           Inl e \<Rightarrow> (v, \<lparr>dr_persona_removed = False, dr_result = Inl e\<rparr>)
         | Inr _ \<Rightarrow>
             (case xd_persona d of
                None \<Rightarrow> finish False v
              | Some p \<Rightarrow>
                  (case cv_delete_did vta v (pt_did p) of
                     (v, Inr _) \<Rightarrow> finish True v
                   | (v, Inl VtaNotFound) \<Rightarrow> finish True v
                   | (v, Inl _) \<Rightarrow> (v, \<lparr>dr_persona_removed = False, dr_result = Inl (VtaFailed (pt_did p))\<rparr>))))"

end
