(* ===== verification/ContextNames.thy ===== *)
theory ContextNames
  imports Contexts Decimals
begin

text \<open>
  Names of contexts: what \<open>slugify\<close> writes, that a built sub-context is a valid path no one uses and reads back as the
  top context and its name, and that the search for a free name ends.
\<close>

declare decimal.simps [simp del]

section \<open>Slugs\<close>

definition slug_char :: "char \<Rightarrow> bool" where
  "slug_char c \<longleftrightarrow> is_lower c \<or> ascii_digit c \<or> c = CHR ''-''"

definition slug_ok :: "string \<Rightarrow> bool" where
  "slug_ok s \<longleftrightarrow> list_all slug_char s \<and> length s \<le> max_slug_len + 1 \<and>
     (s \<noteq> [] \<longrightarrow> hd s \<noteq> CHR ''-'' \<and> last s \<noteq> CHR ''-'')"

lemma no_dash: "is_lower c \<or> ascii_digit c \<Longrightarrow> c \<noteq> CHR ''-''"
  by (auto simp: is_lower_def ascii_digit_def)

lemma slug_loop_ok:
  assumes "slug_ok out" "length out < max_slug_len"
  shows "slug_ok (slug_loop out dash cs)"
  using assms
proof (induction out dash cs rule: slug_loop.induct)
  case (2 out dash c cs)
  let ?lc = "to_lower c"
  show ?case
  proof (cases "is_lower ?lc \<or> ascii_digit ?lc")
    case True
    let ?out = "(if dash \<and> out \<noteq> [] then out @ ''-'' else out) @ [?lc]"
    have ok: "slug_ok ?out"
      using 2(3,4) True no_dash [OF True] by (cases out) (auto simp: slug_ok_def slug_char_def)
    show ?thesis
    proof (cases "max_slug_len \<le> length ?out")
      case False
      with 2(1) [OF refl True refl] ok True show ?thesis by (simp add: Let_def)
    qed (use ok True in \<open>simp add: Let_def\<close>)
  next
    case False
    with 2(2) 2(3,4) show ?thesis by (simp add: Let_def)
  qed
qed simp

lemma slugify_ok: "slug_ok (slugify name)"
  unfolding slugify_def by (rule slug_loop_ok) (simp_all add: slug_ok_def max_slug_len_def)

text \<open>The cap is on what precedes a dash, so a slug can be one longer than it.\<close>

lemma slug_over_cap:
  "length (slugify (replicate 31 (CHR ''a'') @ '' b'')) = 33 \<and> max_slug_len = 32"
  by code_simp

lemma lower_slug: "is_alphanumeric c \<Longrightarrow> slug_char (to_lower c)"
  by (auto simp: is_alphanumeric_def slug_char_def to_lower_def is_lower_def is_upper_def ascii_digit_def)

section \<open>Segments\<close>

lemma slug_identifier: "slug_char c \<Longrightarrow> identifier_char c"
  by (auto simp: slug_char_def identifier_char_def is_alphanumeric_def)

lemma find_enumerate_None: "list_all (\<lambda>c. \<not> q c) s \<Longrightarrow> List.find (\<lambda>(i, c). q c) (enumerate n s) = None"
  by (induction s arbitrary: n) auto

lemma find_enumerate_Some: "List.find (\<lambda>(i, c). q c) (enumerate n s) = None \<Longrightarrow> list_all (\<lambda>c. \<not> q c) s"
  by (induction s arbitrary: n) (auto split: if_splits)

lemma validate_identifier_iff:
  "validate_identifier label s = Inr () \<longleftrightarrow> s \<noteq> [] \<and> length s \<le> max_identifier_len \<and> list_all identifier_char s"
  using find_enumerate_None [of "\<lambda>c. \<not> identifier_char c" s 0] find_enumerate_Some [of "\<lambda>c. \<not> identifier_char c" 0 s]
  by (auto simp: validate_identifier_def split: option.split)

abbreviation segment_ok :: "string \<Rightarrow> bool" where
  "segment_ok s \<equiv> validate_identifier segment_label s = Inr ()"

lemma segment_no_separator: "segment_ok s \<Longrightarrow> separator \<notin> set s"
  by (auto simp: validate_identifier_iff list_all_iff identifier_char_def is_alphanumeric_def is_lower_def is_upper_def
      ascii_digit_def separator_def)

lemma split_on_Cons [simp]: "split_on d s \<noteq> []"
  by (induction s) (auto split: list.split)

lemma split_on_append: "split_on d (a @ d # b) = split_on d a @ split_on d b"
  by (induction a) (auto split: list.split)

lemma split_on_none: "d \<notin> set b \<Longrightarrow> split_on d b = [b]"
  by (induction b) auto

lemma validate_segments_iff: "validate_segments ss = Inr () \<longleftrightarrow> (\<forall>s \<in> set ss. segment_ok s)"
proof (induction ss)
  case (Cons s ss)
  have "\<not> segment_ok []" by (simp add: validate_identifier_iff)
  with Cons show ?case by (auto simp: result_simps)
qed simp

text \<open>A path that can take one more segment: what \<open>child_path\<close> asks of its parent.\<close>

definition can_hold :: "string \<Rightarrow> bool" where
  "can_hold p \<longleftrightarrow> p \<noteq> [] \<and> hd p \<noteq> separator \<and> (\<forall>s \<in> set (split_on separator p). segment_ok s) \<and>
     length (split_on separator p) < max_context_depth"

lemma unit_result: "(r :: 'e + unit) = Inr () \<or> (\<exists>e. r = Inl e)"
  by (cases r) auto

lemma validate_child:
  assumes "segment_ok seg"
  shows "validate_context_path (p @ [separator] @ seg) = Inr () \<longleftrightarrow> can_hold p"
proof -
  have seg: "seg \<noteq> []" "last seg \<noteq> separator" "split_on separator seg = [seg]"
    using assms segment_no_separator [OF assms] last_in_set [of seg]
    by (auto simp: validate_identifier_iff split_on_none simp del: last_in_set)
  have segs: "split_on separator (p @ separator # seg) = split_on separator p @ [seg]"
    by (simp add: split_on_append seg(3))
  show ?thesis
  proof (cases "p = []")
    case False
    with seg segs assms show ?thesis
      by (auto simp: validate_context_path_def can_hold_def Let_def validate_segments_iff)
  qed (use seg in \<open>auto simp: validate_context_path_def can_hold_def\<close>)
qed

lemma child_path_ok: "segment_ok seg \<Longrightarrow> can_hold p \<Longrightarrow> child_path p seg = Inr (p @ [separator] @ seg)"
  using validate_child [of seg p] by (simp add: child_path_def result_simps Let_def)

lemma child_path_stuck: "segment_ok seg \<Longrightarrow> \<not> can_hold p \<Longrightarrow> \<exists>e. child_path p seg = Inl e"
  using validate_child [of seg p] unit_result [of "validate_context_path (p @ [separator] @ seg)"]
  by (auto simp: child_path_def result_simps Let_def)

lemma child_path_Inr: "child_path p seg = Inr c \<Longrightarrow> c = p @ [separator] @ seg \<and> segment_ok seg \<and> can_hold p"
  using validate_child [of seg p] by (auto simp: child_path_def result_simps Let_def)

section \<open>Reading a path back\<close>

lemma takeWhile_rev_stop: "d \<notin> set b \<Longrightarrow> takeWhile (\<lambda>c. c \<noteq> d) (rev b @ d # rest) = rev b"
  by (subst takeWhile_append2) auto

lemma dropWhile_rev_stop: "d \<notin> set b \<Longrightarrow> dropWhile (\<lambda>c. c \<noteq> d) (rev b @ d # rest) = d # rest"
  by (subst dropWhile_append2) auto

lemma parse_child: "separator \<notin> set seg \<Longrightarrow> parse_sub_context_id (p @ [separator] @ seg) = Some (p, seg)"
  by (simp add: parse_sub_context_id_def takeWhile_rev_stop dropWhile_rev_stop)

lemma child_is_sub: "seg \<noteq> [] \<Longrightarrow> is_sub_context (p @ [separator] @ seg) p"
proof -
  assume "seg \<noteq> []"
  then have "1 < length ([separator] @ seg)" by (cases seg) auto
  then show ?thesis
    by (auto simp: is_sub_context_def starts_with_def split: option.split)
qed

section \<open>The search for a free name\<close>

lemma suffixed_ok:
  assumes "list_all slug_char base" "base \<noteq> []" "length base \<le> max_slug_len + 1" "n \<le> u32_max"
  shows "segment_ok base" "segment_ok (base @ ''-'' @ decimal n)"
proof -
  have "length (decimal n) \<le> 10"
    using length_decimal [of n 9] assms(4) by (simp add: u32_max_def)
  moreover have digits: "ascii_digit c \<Longrightarrow> identifier_char c" "identifier_char (CHR ''-'')" for c
    by (auto simp: identifier_char_def is_alphanumeric_def)
  ultimately show "segment_ok base" "segment_ok (base @ ''-'' @ decimal n)"
    using decimal_digits [of n] digits assms
    by (auto simp: validate_identifier_iff max_identifier_len_def max_slug_len_def list_all_iff slug_identifier)
qed

text \<open>The \<open>k\<close>-th name tried: the name itself, then with the suffixes from 2 on.\<close>

definition nth_name :: "string \<Rightarrow> nat \<Rightarrow> string" where
  "nth_name base k = base @ (if k < 2 then [] else ''-'' @ decimal k)"

definition candidate :: "string \<Rightarrow> string \<Rightarrow> nat \<Rightarrow> string" where
  "candidate topc base k = topc @ [separator] @ nth_name base k"

lemma candidate_inj: "candidate topc base m = candidate topc base n \<Longrightarrow> 1 \<le> m \<Longrightarrow> 1 \<le> n \<Longrightarrow> m = n"
  by (auto simp: candidate_def nth_name_def dest: decimal_inj split: if_splits)

definition base_ok :: "string \<Rightarrow> bool" where
  "base_ok base \<longleftrightarrow> list_all slug_char base \<and> base \<noteq> [] \<and> length base \<le> max_slug_len + 1"

lemma nth_name_ok: "base_ok base \<Longrightarrow> k \<le> u32_max \<Longrightarrow> segment_ok (nth_name base k)"
  using suffixed_ok [of base k] by (simp add: base_ok_def nth_name_def)

lemma free_context_step:
  assumes "base_ok base" "can_hold topc" "1 \<le> k" "k < u32_max"
  shows "free_context topc base taken (nth_name base k) (k + 1)
    = (if \<not> taken (candidate topc base k) then Some (Inr (candidate topc base k))
       else if u32_max \<le> k + 1 then None
       else free_context topc base taken (nth_name base (k + 1)) (k + 2))"
  using child_path_ok [OF nth_name_ok [OF assms(1), of k] assms(2)] assms(3,4)
  by (subst free_context.simps) (auto simp: candidate_def nth_name_def)

lemma free_context_from:
  assumes "base_ok base" "can_hold topc" "1 \<le> k" "k \<le> j" "j < u32_max" "\<not> taken (candidate topc base j)"
  shows "\<exists>i. k \<le> i \<and> i \<le> j \<and> \<not> taken (candidate topc base i) \<and>
    (\<forall>h. k \<le> h \<and> h < i \<longrightarrow> taken (candidate topc base h)) \<and>
    free_context topc base taken (nth_name base k) (k + 1) = Some (Inr (candidate topc base i))"
  using assms(3-)
proof (induction "j - k" arbitrary: k)
  case 0
  then show ?case
    using free_context_step [OF assms(1,2), of k taken] by (auto intro!: exI [of _ k])
next
  case (Suc d)
  show ?case
  proof (cases "taken (candidate topc base k)")
    case True
    with Suc(3-) have kj: "k \<noteq> j" by auto
    then have "d = j - Suc k" "1 \<le> Suc k" "Suc k \<le> j" using Suc(2-4) by auto
    from Suc(1) [OF this assms(5)] Suc.prems(4) obtain i where i: "Suc k \<le> i" "i \<le> j" "\<not> taken (candidate topc base i)"
      "\<forall>h. Suc k \<le> h \<and> h < i \<longrightarrow> taken (candidate topc base h)"
      "free_context topc base taken (nth_name base (Suc k)) (Suc k + 1) = Some (Inr (candidate topc base i))"
      by auto
    from i(4) True have "\<forall>h. k \<le> h \<and> h < i \<longrightarrow> taken (candidate topc base h)"
      by (metis Suc_leI le_neq_implies_less)
    with i True Suc(3-) kj free_context_step [OF assms(1,2) Suc(3), of taken] show ?thesis
      by (intro exI [of _ i]) auto
  next
    case False
    with Suc(3-) free_context_step [OF assms(1,2) Suc(3), of taken] show ?thesis
      by (intro exI [of _ k]) auto
  qed
qed

lemma some_name_free:
  assumes "finite {c. taken c}"
  shows "\<exists>j. 1 \<le> j \<and> j \<le> card {c. taken c} + 1 \<and> \<not> taken (candidate topc base j)"
proof (rule ccontr)
  assume "\<not> ?thesis"
  then have all: "candidate topc base ` {1 .. card {c. taken c} + 1} \<subseteq> {c. taken c}" by auto
  have "inj_on (candidate topc base) {1 .. card {c. taken c} + 1}"
    by (auto intro!: inj_onI dest: candidate_inj)
  from card_image [OF this] card_mono [OF assms all] show False by simp
qed

lemma free_context_found:
  assumes "base_ok base" "can_hold topc" "finite {c. taken c}" "card {c. taken c} + 1 < u32_max"
  shows "\<exists>i \<le> card {c. taken c} + 1. 1 \<le> i \<and> \<not> taken (candidate topc base i) \<and>
    (\<forall>h. 1 \<le> h \<and> h < i \<longrightarrow> taken (candidate topc base h)) \<and>
    free_context topc base taken base 2 = Some (Inr (candidate topc base i))"
proof -
  obtain j where j: "1 \<le> j" "j \<le> card {c. taken c} + 1" "\<not> taken (candidate topc base j)"
    using some_name_free [OF assms(3)] by blast
  have "nth_name base 1 = base" by (simp add: nth_name_def)
  with free_context_from [OF assms(1,2), of 1 j taken] j assms(4) obtain i where "1 \<le> i" "i \<le> j"
    "\<not> taken (candidate topc base i)" "\<forall>h. 1 \<le> h \<and> h < i \<longrightarrow> taken (candidate topc base h)"
    "free_context topc base taken base 2 = Some (Inr (candidate topc base i))"
    by (auto simp: numeral_2_eq_2)
  with j(2) show ?thesis by (intro exI [of _ i]) auto
qed

lemma slug_base_ok: "slug_base sdk name did = Inr base \<Longrightarrow> base_ok base"
proof -
  assume a: "slug_base sdk name did = Inr base"
  have token: "base_ok t" if "fallback_token sdk did = Inr t" for t
  proof -
    have "list_all slug_char (take fallback_token_len (map to_lower (filter is_alphanumeric s)))" for s
      by (auto simp: list_all_iff lower_slug dest!: in_set_takeD)
    moreover have "length (take fallback_token_len u) \<le> max_slug_len + 1" for u :: string
      by (simp add: fallback_token_len_def max_slug_len_def)
    ultimately show ?thesis
      using that by (auto simp: fallback_token_def result_simps Let_def base_ok_def split: if_splits)
  qed
  have "base_ok (slugify n)" if "slugify n \<noteq> []" for n
    using slugify_ok [of n] that by (simp add: base_ok_def slug_ok_def)
  with a token show ?thesis by (auto simp: slug_base_def split: option.splits if_splits)
qed

lemma stuck_at_once: "base_ok base \<Longrightarrow> \<not> can_hold topc \<Longrightarrow> \<exists>e. free_context topc base taken base 2 = Some (Inl e)"
  using child_path_stuck [of base topc] nth_name_ok [of base 1]
  by (subst free_context.simps) (auto simp: nth_name_def u32_max_def)

end
