(* ===== verification/ContextLaws.thy ===== *)
theory ContextLaws
  imports ContextNames
begin

text \<open>
  Contexts, as properties: a name for a new one is found, valid and unused; the path to a context is made at the VTA
  from the top down and nothing else; deleting one takes nothing that is still used.
\<close>

section \<open>The path at the VTA\<close>

text \<open>A VTA that keeps its contexts as a tree: a context is made only under one that is there.\<close>

definition store_vta :: "string list context_vta" where
  "store_vta =
     \<lparr>cv_get = (\<lambda>v p. (v, if p \<in> set v then Inr () else Inl VtaNotFound)),
      cv_create = (\<lambda>v slug label parent.
        let p = parent @ [separator] @ slug
        in if p \<in> set v then (v, Inl VtaConflict)
           else if parent \<in> set v then (p # v, Inr ()) else (v, Inl (VtaError ''no such parent''))),
      cv_list = (\<lambda>v. (v, Inr v)),
      cv_preview = (\<lambda>v i. (v, if i \<in> set v then Inr (JString i) else Inl VtaNotFound)),
      cv_delete = (\<lambda>v i. (filter (\<lambda>p. p \<noteq> i \<and> \<not> starts_with (i @ [separator]) p) v, Inr ())),
      cv_delete_did = (\<lambda>v d. (v, Inr ()))\<rparr>"

definition no_gaps :: "string \<Rightarrow> bool" where
  "no_gaps p \<longleftrightarrow> [] \<notin> set (split_on separator p)"

lemma valid_no_gaps: "validate_context_path p = Inr () \<Longrightarrow> no_gaps p"
  by (auto simp: validate_context_path_def no_gaps_def Let_def validate_segments_iff validate_identifier_iff
      split: if_splits)

lemma no_gaps_parent: "no_gaps (p @ separator # seg) \<Longrightarrow> no_gaps p"
  by (simp add: no_gaps_def split_on_append)

lemma split_last:
  assumes "separator \<in> set i"
  obtains p seg where "i = p @ separator # seg" "separator \<notin> set seg"
  using split_list_last [OF assms] by blast

lemma sub_context_iff: "is_sub_context i topc \<longleftrightarrow> (\<exists>r. i = topc @ separator # r \<and> r \<noteq> [])"
proof -
  have "starts_with [separator] rest \<longleftrightarrow> (\<exists>r. rest = separator # r)" for rest
    by (cases rest) (auto simp: starts_with_def split: option.split)
  moreover have "strip_prefix topc (topc @ r) = Some r" for r by simp
  ultimately show ?thesis
    by (auto simp: is_sub_context_def simp del: strip_prefix_Some split: option.split) auto
qed

lemma sub_context_parent:
  assumes "is_sub_context i topc" "no_gaps i"
  obtains p seg where "parse_sub_context_id i = Some (p, seg)" "i = p @ separator # seg" "no_gaps p"
    "p = topc \<or> is_sub_context p topc"
proof -
  obtain r where r: "i = topc @ separator # r" "r \<noteq> []" using assms(1) by (auto simp: sub_context_iff)
  show thesis
  proof (cases "separator \<in> set r")
    case False
    with r parse_child [OF False, of topc] no_gaps_parent [of topc r] assms(2) that [of topc r] show ?thesis by simp
  next
    case True
    from split_last [OF True] obtain a seg where a: "r = a @ separator # seg" "separator \<notin> set seg" .
    let ?p = "topc @ separator # a"
    have i: "i = ?p @ separator # seg" using r a by simp
    have "no_gaps ?p" using assms(2) i no_gaps_parent [of ?p seg] by simp
    then have "a \<noteq> []" by (auto simp: no_gaps_def split_on_append)
    then have "is_sub_context ?p topc" by (auto simp: sub_context_iff)
    with i parse_child [OF a(2), of ?p] \<open>no_gaps ?p\<close> that [of ?p seg] show ?thesis by simp
  qed
qed

text \<open>Paths each of which follows its parent.\<close>

fun grows :: "string set \<Rightarrow> string list \<Rightarrow> bool" where
  "grows V [] \<longleftrightarrow> True"
| "grows V (i # is') \<longleftrightarrow>
     (\<exists>p seg. parse_sub_context_id i = Some (p, seg) \<and> i = p @ separator # seg \<and> p \<in> V) \<and> grows (insert i V) is'"

lemma grows_snoc:
  "grows V (is' @ [i]) \<longleftrightarrow> grows V is' \<and>
     (\<exists>p seg. parse_sub_context_id i = Some (p, seg) \<and> i = p @ separator # seg \<and> p \<in> V \<union> set is')"
  by (induction is' arbitrary: V) auto

lemma grows_mono: "grows V is' \<Longrightarrow> V \<subseteq> W \<Longrightarrow> grows W is'"
proof (induction is' arbitrary: V W)
  case (Cons i js)
  from Cons.prems have "insert i V \<subseteq> insert i W" by auto
  from Cons.IH [OF _ this] Cons.prems show ?case by auto
qed simp

lemma path_chain_grows:
  assumes "is_sub_context i topc \<or> i = topc" "no_gaps i"
  shows "grows {topc} (rev (path_chain topc i)) \<and> (i = topc \<or> i \<in> set (path_chain topc i))"
  using assms
proof (induction topc i rule: path_chain.induct)
  case (1 topc i)
  show ?case
  proof (cases "i = topc")
    case False
    with 1(2) have "is_sub_context i topc" by simp
    from sub_context_parent [OF this 1(3)] obtain p seg where
      p: "parse_sub_context_id i = Some (p, seg)" "i = p @ separator # seg" "no_gaps p" "p = topc \<or> is_sub_context p topc" .
    have "grows {topc} (rev (path_chain topc p)) \<and> (p = topc \<or> p \<in> set (path_chain topc p))"
      using 1(1) [OF False p(1) refl] p(3,4) by blast
    with False p(1,2) show ?thesis
      by (subst (1 2) path_chain.simps) (auto simp: grows_snoc)
  qed (simp add: path_chain.simps)
qed

lemma ensure_paths_store:
  assumes "grows (set v) is'"
  shows "\<exists>v' c. ensure_paths store_vta i name v created is' = (v', Inr c) \<and> set v' = set v \<union> set is' \<and>
    (c \<longleftrightarrow> created \<or> \<not> set is' \<subseteq> set v)"
  using assms
proof (induction is' arbitrary: v created)
  case (Cons j js)
  then obtain p seg where p: "parse_sub_context_id j = Some (p, seg)" "j = p @ separator # seg" "p \<in> set v"
    "grows (insert j (set v)) js" by auto
  show ?case
  proof (cases "j \<in> set v")
    case True
    with p(4) Cons.IH [of v created] show ?thesis by (auto simp: store_vta_def insert_absorb)
  next
    case False
    with p Cons.IH [of "j # v" True] show ?thesis by (auto simp: store_vta_def)
  qed
qed simp

lemma ensure_store:
  assumes "topc \<in> set v" "validate_context_path i = Inr ()" "is_sub_context i topc"
  shows "\<exists>v' c. ensure_context store_vta v topc i name = (v', Inr c) \<and> set v' = set v \<union> set (path_chain topc i) \<and>
    (c \<longleftrightarrow> \<not> set (path_chain topc i) \<subseteq> set v) \<and> i \<in> set v'"
proof -
  have ne: "i \<noteq> topc" using assms(3) by (auto simp: sub_context_iff)
  have g: "grows {topc} (rev (path_chain topc i))" "i \<in> set (path_chain topc i)"
    using path_chain_grows [of i topc] assms(3) valid_no_gaps [OF assms(2)] ne by auto
  from ensure_paths_store [OF grows_mono [OF g(1)], of v i name False] assms(1) ne assms(2,3) g(2)
  show ?thesis by (auto simp: ensure_context_def)
qed

section \<open>What a deletion takes\<close>

lemma deletableD:
  assumes "deletable_context a apps active m = Inr d"
  shows "xd_context_id d = cr_sub_context_id m" "is_sub_context (cr_sub_context_id m) (ac_top_context_id a)"
    "is_inactive (cr_status m)"
    "\<forall>u \<in> set (context_uses a apps (cr_sub_context_id m)).
       is_membership_use (cr_vtc_did m) (cr_persona_ref m) u \<or> is_keys_use (cr_persona_ref m) u"
    "xd_persona d = Some t \<Longrightarrow> pt_persona t = cr_persona_ref m \<and> persona_uses a apps active m = [] \<and>
       map_option pr_did (map_of (ac_personas a) (cr_persona_ref m)) = Some (pt_did t)"
    "xd_persona d = None \<Longrightarrow> map_of (ac_personas a) (cr_persona_ref m) = None \<or>
       (\<forall>u \<in> set (context_uses a apps (cr_sub_context_id m)). \<not> is_keys_use (cr_persona_ref m) u)"
proof -
  have not_both: "is_keys_use q u \<Longrightarrow> \<not> is_membership_use c q' u" for q c q' u by (cases u) auto
  show "xd_context_id d = cr_sub_context_id m" "is_sub_context (cr_sub_context_id m) (ac_top_context_id a)"
    "is_inactive (cr_status m)"
    "\<forall>u \<in> set (context_uses a apps (cr_sub_context_id m)).
       is_membership_use (cr_vtc_did m) (cr_persona_ref m) u \<or> is_keys_use (cr_persona_ref m) u"
    "xd_persona d = Some t \<Longrightarrow> pt_persona t = cr_persona_ref m \<and> persona_uses a apps active m = [] \<and>
       map_option pr_did (map_of (ac_personas a) (cr_persona_ref m)) = Some (pt_did t)"
    "xd_persona d = None \<Longrightarrow> map_of (ac_personas a) (cr_persona_ref m) = None \<or>
       (\<forall>u \<in> set (context_uses a apps (cr_sub_context_id m)). \<not> is_keys_use (cr_persona_ref m) u)"
    using assms not_both
    by (auto simp: deletable_context_def Let_def list_ex_iff split: if_splits option.splits)
qed

lemma context_use_cases:
  "m \<in> set (memberships a) \<Longrightarrow> MembershipUse (cr_vtc_did m) (cr_persona_ref m) (member_name m) \<in> set (context_uses a apps (cr_sub_context_id m))"
  "p \<in> snd ` set (ac_personas a) \<Longrightarrow> PersonaKeysUse (pr_persona_id p) (persona_name p) \<in> set (context_uses a apps (pr_origin_context_id p))"
  "ap \<in> set apps \<Longrightarrow> ap_context_id ap = Some i \<Longrightarrow> VettingUse (ap_community ap) (ap_persona ap) \<in> set (context_uses a apps i)"
  by (auto simp: context_uses_def)

lemma no_other_membership:
  assumes "\<forall>u \<in> set (context_uses a apps i). is_membership_use c q u \<or> is_keys_use q u"
  shows "\<forall>m' \<in> set (memberships a). cr_sub_context_id m' = i \<longrightarrow> cr_vtc_did m' = c \<and> cr_persona_ref m' = q"
    "\<forall>ap \<in> set apps. ap_context_id ap \<noteq> Some i"
    "\<forall>p \<in> snd ` set (ac_personas a). pr_origin_context_id p = i \<longrightarrow> pr_persona_id p = q"
proof -
  show "\<forall>m' \<in> set (memberships a). cr_sub_context_id m' = i \<longrightarrow> cr_vtc_did m' = c \<and> cr_persona_ref m' = q"
    using assms context_use_cases(1) [of _ a apps] by force
  show "\<forall>ap \<in> set apps. ap_context_id ap \<noteq> Some i"
    using assms context_use_cases(3) [of _ apps i a] by force
  show "\<forall>p \<in> snd ` set (ac_personas a). pr_origin_context_id p = i \<longrightarrow> pr_persona_id p = q"
    using assms context_use_cases(2) [of _ a apps] by force
qed

section \<open>Example\<close>

text \<open>A persona that left a community, and then joined it again in the same context.\<close>

definition twice_persona :: persona_record where
  "twice_persona = example_persona\<lparr>pr_origin_context_id := ''top/coop''\<rparr>"

definition left_member :: community_record where
  "left_member = (new_pending ''did:c'' None ''top/coop'' 1 10 0)\<lparr>cr_status := LeftByMember\<rparr>"

definition live_member :: community_record where
  "live_member = activate 5 (new_pending ''did:c'' None ''top/coop'' 1 11 3)"

definition twice_account :: "community_record list \<Rightarrow> account" where
  "twice_account ms = example_account\<lparr>ac_personas := [(1, twice_persona)], ac_communities := [(''did:c'', ms)]\<rparr>"

definition coop_deletion :: context_deletion where
  "coop_deletion = \<lparr>xd_context_id = ''top/coop'',
     xd_persona = Some \<lparr>pt_persona = 1, pt_did = ''did:me'', pt_name = ''did:me''\<rparr>\<rparr>"

lemma left_deletable: "deletable_context (twice_account [left_member]) [] None left_member = Inr coop_deletion"
  by code_simp

text \<open>
  Uses of the context are told apart by community and persona alone, so a later, live membership of the same community
  as the same persona is taken for the finished one: its context, its persona and the persona's DID may be deleted.
\<close>

theorem live_membership_deleted:
  "deletable_context (twice_account [left_member, live_member]) [] None left_member = Inr coop_deletion \<and>
   cr_status live_member = Active \<and> cr_sub_context_id live_member = ''top/coop'' \<and> cr_persona_ref live_member = 1"
  by code_simp

text \<open>
  Uses are looked for in the context itself, while the delete takes the contexts beneath it too: a live membership that
  was put one level further down loses its context with it. The client makes no such context itself, but a record
  written elsewhere can name one.
\<close>

definition inner_member :: community_record where
  "inner_member = activate 5 (new_pending ''did:d'' None ''top/coop/inner'' 2 11 3)"

theorem live_membership_beneath_deleted:
  "deletable_context (twice_account [left_member, inner_member]) [] None left_member = Inr coop_deletion \<and>
   cr_status inner_member = Active \<and> cr_sub_context_id inner_member = ''top/coop/inner'' \<and>
   fst (delete_community_context store_vta [''top/coop/inner'', ''top/coop'', ''top''] ''top'' coop_deletion) = [''top'']"
  by code_simp

text \<open>A context directly beneath the top one, or not beneath it: what the client's own names are.\<close>

definition one_level :: "string \<Rightarrow> string \<Rightarrow> bool" where
  "one_level topc i \<longleftrightarrow> (\<forall>seg. i = topc @ separator # seg \<longrightarrow> separator \<notin> set seg)"

lemma one_level_not_beneath:
  assumes "one_level topc c" "is_sub_context i topc"
  shows "\<not> is_sub_context c i"
proof
  assume "is_sub_context c i"
  then obtain r where "c = i @ separator # r" by (auto simp: sub_context_iff)
  moreover obtain r' where "i = topc @ separator # r'" using assms(2) by (auto simp: sub_context_iff)
  ultimately show False using assms(1) by (simp add: one_level_def)
qed

section \<open>Properties\<close>

text \<open>(C37) 
  A name for a new context is always found. Where finitely many names are taken (fewer than a \<open>u32\<close> counts), building
  a sub-context ends, without overflowing its counter; what it answers is a path the VTA accepts, one level below the
  top context, that reads back as it was built and that nothing uses; it refuses only where the community's DID gives
  no name or the top context can hold no child.
\<close>

theorem free_name_found:
  assumes "finite {c. taken c}" "card {c. taken c} + 1 < u32_max"
  shows "\<exists>r. build_sub_context_id sdk topc name did taken = Some r \<and>
    (\<forall>c. r = Inr c \<longrightarrow> \<not> taken c \<and> validate_context_path c = Inr () \<and> is_sub_context c topc \<and>
       (\<exists>seg. c = topc @ [separator] @ seg \<and> parse_sub_context_id c = Some (topc, seg))) \<and>
    (\<forall>e. r = Inl e \<longrightarrow> slug_base sdk name did = Inl e \<or> \<not> can_hold topc)"
proof (cases "slug_base sdk name did")
  case (Inr base)
  note base = slug_base_ok [OF Inr]
  show ?thesis
  proof (cases "can_hold topc")
    case True
    from free_context_found [OF base True assms] obtain i where i: "i \<le> card {c. taken c} + 1"
      "\<not> taken (candidate topc base i)" "free_context topc base taken base 2 = Some (Inr (candidate topc base i))"
      by auto
    have seg: "segment_ok (nth_name base i)" using nth_name_ok [OF base, of i] i(1) assms(2) by simp
    have ne: "nth_name base i \<noteq> []" using seg by (simp add: validate_identifier_iff)
    show ?thesis
      using i(2,3) Inr validate_child [OF seg] True child_is_sub [OF ne, of topc]
        parse_child [OF segment_no_separator [OF seg], of topc]
      by (auto simp: build_sub_context_id_def candidate_def)
  next
    case False
    with stuck_at_once [OF base False, of taken] Inr show ?thesis by (auto simp: build_sub_context_id_def)
  qed
qed (simp add: build_sub_context_id_def)

definition plain_scid :: scid_sdk where
  "plain_scid = \<lparr>cs_is_scid = (\<lambda>_. False), cs_scid_of = (\<lambda>_. None), cs_webvh_scid = (\<lambda>_. Inl ''no scid'')\<rparr>"

theorem free_name_found_witness:
  "build_sub_context_id plain_scid ''top'' (Some ''Acme Corp'') ''did:c'' (\<lambda>c. c = ''top/acme-corp'') = Some (Inr ''top/acme-corp-2'') \<and>
   parse_sub_context_id ''top/acme-corp-2'' = Some (''top'', ''acme-corp-2'')"
proof -
  have "slug_base plain_scid (Some ''Acme Corp'') ''did:c'' = Inr ''acme-corp''"
    "child_path ''top'' ''acme-corp'' = Inr ''top/acme-corp''" "child_path ''top'' ''acme-corp-2'' = Inr ''top/acme-corp-2''"
    "decimal 2 = ''2''"
    by code_simp+
  then have built: "build_sub_context_id plain_scid ''top'' (Some ''Acme Corp'') ''did:c'' (\<lambda>c. c = ''top/acme-corp'')
      = Some (Inr ''top/acme-corp-2'')"
    by (simp add: build_sub_context_id_def free_context.simps u32_max_def)
  obtain seg where "''top/acme-corp-2'' = ''top'' @ [separator] @ seg" "parse_sub_context_id ''top/acme-corp-2'' = Some (''top'', seg)"
    using free_name_found [of "\<lambda>c. c = ''top/acme-corp''" plain_scid "''top''" "Some ''Acme Corp''" "''did:c''"] built
    by (auto simp: u32_max_def)
  with built show ?thesis by (simp add: separator_def)
qed

text \<open>
  Making a context at the VTA makes its path and nothing else. On a VTA that keeps contexts as a tree and holds the top
  one, \<open>ensure_context\<close> of a valid path below the top succeeds; afterwards exactly the contexts on that path are there
  besides the ones before, and it says so exactly when one of them was missing. A parent is always made before its
  child, or the VTA would have refused.
\<close>

theorem ensure_makes_the_path:
  assumes "topc \<in> set v" "validate_context_path i = Inr ()" "is_sub_context i topc"
  shows "\<exists>v' c. ensure_context store_vta v topc i name = (v', Inr c) \<and> set v' = set v \<union> set (path_chain topc i) \<and>
    (c \<longleftrightarrow> \<not> set (path_chain topc i) \<subseteq> set v) \<and> i \<in> set v'"
  by (rule ensure_store [OF assms])

theorem ensure_makes_the_path_witness:
  "fst (ensure_context store_vta [''top''] ''top'' ''top/work/coop'' ''Coop'') = [''top/work/coop'', ''top/work'', ''top''] \<and>
   set (path_chain ''top'' ''top/work/coop'') = {''top/work/coop'', ''top/work''}"
proof -
  have "validate_context_path ''top/work/coop'' = Inr ()" "is_sub_context ''top/work/coop'' ''top''" by code_simp+
  from ensure_makes_the_path [OF _ this, of "[''top'']" "''Coop''"]
  obtain v' where "ensure_context store_vta [''top''] ''top'' ''top/work/coop'' ''Coop'' = (v', Inr True)
      \<or> ensure_context store_vta [''top''] ''top'' ''top/work/coop'' ''Coop'' = (v', Inr False)"
    by fastforce
  moreover have "fst (ensure_context store_vta [''top''] ''top'' ''top/work/coop'' ''Coop'') = [''top/work/coop'', ''top/work'', ''top'']"
    "path_chain ''top'' ''top/work/coop'' = [''top/work/coop'', ''top/work'']"
    by code_simp+
  ultimately show ?thesis by simp
qed

text \<open>(C38) 
  Deleting a finished membership's context takes nothing else that is used. Let the account hold one record of that
  community and persona, and let every context it has on record be directly beneath the top context, as those made here
  are. Then a context that may be deleted is a sub-context of the account's own, of a membership that is over. The delete
  takes the context and all beneath it: no other membership lives there, in it or beneath, no vetting application wears
  its face there, and no other persona has its keys there; and a persona deleted with it is used by no other membership,
  no application, and is not the active one.
\<close>

theorem deletion_takes_only_its_own:
  assumes "deletable_context a apps active m = Inr d"
    and "\<forall>m' \<in> set (memberships a). cr_vtc_did m' = cr_vtc_did m \<and> cr_persona_ref m' = cr_persona_ref m \<longrightarrow> m' = m"
    and "\<forall>i \<in> cr_sub_context_id ` set (memberships a) \<union> (pr_origin_context_id \<circ> snd) ` set (ac_personas a) \<union>
           {i. \<exists>ap \<in> set apps. ap_context_id ap = Some i}. one_level (ac_top_context_id a) i"
  shows "xd_context_id d = cr_sub_context_id m \<and> is_sub_context (xd_context_id d) (ac_top_context_id a) \<and>
    is_inactive (cr_status m) \<and>
    (\<forall>m' \<in> set (memberships a). m' \<noteq> m \<longrightarrow>
       cr_sub_context_id m' \<noteq> xd_context_id d \<and> \<not> is_sub_context (cr_sub_context_id m') (xd_context_id d)) \<and>
    (\<forall>ap \<in> set apps. \<forall>i. ap_context_id ap = Some i \<longrightarrow> i \<noteq> xd_context_id d \<and> \<not> is_sub_context i (xd_context_id d)) \<and>
    (\<forall>p \<in> snd ` set (ac_personas a).
       pr_origin_context_id p = xd_context_id d \<or> is_sub_context (pr_origin_context_id p) (xd_context_id d) \<longrightarrow>
       pr_persona_id p = cr_persona_ref m) \<and>
    (\<forall>t. xd_persona d = Some t \<longrightarrow> pt_persona t = cr_persona_ref m \<and> active \<noteq> Some (pt_persona t) \<and>
       (\<forall>m' \<in> set (memberships a). m' \<noteq> m \<longrightarrow> cr_persona_ref m' \<noteq> pt_persona t) \<and>
       (\<forall>ap \<in> set apps. ap_persona ap \<noteq> pt_persona t))"
proof -
  note d = deletableD [OF assms(1)]
  note others = no_other_membership [OF d(4)]
  have beneath: "\<not> is_sub_context i (xd_context_id d)"
    if "i \<in> cr_sub_context_id ` set (memberships a) \<union> (pr_origin_context_id \<circ> snd) ` set (ac_personas a) \<union>
           {i. \<exists>ap \<in> set apps. ap_context_id ap = Some i}" for i
    using one_level_not_beneath [OF bspec [OF assms(3) that] d(2)] by (simp add: d(1))
  have taken: "pt_persona t = cr_persona_ref m \<and> active \<noteq> Some (pt_persona t) \<and>
       (\<forall>m' \<in> set (memberships a). m' \<noteq> m \<longrightarrow> cr_persona_ref m' \<noteq> pt_persona t) \<and>
       (\<forall>ap \<in> set apps. ap_persona ap \<noteq> pt_persona t)" if "xd_persona d = Some t" for t
    using d(5) [OF that] assms(2) by (auto simp: persona_uses_def Let_def filter_empty_conv split: if_splits)
  have alone: "\<forall>m' \<in> set (memberships a). m' \<noteq> m \<longrightarrow> cr_sub_context_id m' \<noteq> xd_context_id d"
    using others(1) assms(2) d(1) by metis
  have "\<forall>m' \<in> set (memberships a). \<not> is_sub_context (cr_sub_context_id m') (xd_context_id d)"
    by (intro ballI beneath) simp
  with alone have "\<forall>m' \<in> set (memberships a). m' \<noteq> m \<longrightarrow>
      cr_sub_context_id m' \<noteq> xd_context_id d \<and> \<not> is_sub_context (cr_sub_context_id m') (xd_context_id d)"
    by blast
  moreover have "\<forall>ap \<in> set apps. \<forall>i. ap_context_id ap = Some i \<longrightarrow>
      i \<noteq> xd_context_id d \<and> \<not> is_sub_context i (xd_context_id d)"
    using others(2) beneath unfolding d(1) by blast
  moreover have "\<forall>p \<in> snd ` set (ac_personas a). \<not> is_sub_context (pr_origin_context_id p) (xd_context_id d)"
  proof
    fix p assume "p \<in> snd ` set (ac_personas a)"
    then have "pr_origin_context_id p \<in> (pr_origin_context_id \<circ> snd) ` set (ac_personas a)"
      by (auto simp: image_iff)
    then show "\<not> is_sub_context (pr_origin_context_id p) (xd_context_id d)" by (intro beneath) simp
  qed
  then have "\<forall>p \<in> snd ` set (ac_personas a).
      pr_origin_context_id p = xd_context_id d \<or> is_sub_context (pr_origin_context_id p) (xd_context_id d) \<longrightarrow>
      pr_persona_id p = cr_persona_ref m"
    using others(3) unfolding d(1) by blast
  ultimately show ?thesis using d(2,3) taken unfolding d(1) by blast
qed

theorem deletion_takes_only_its_own_witness:
  "is_inactive (cr_status left_member) \<and> pt_did (the (xd_persona coop_deletion)) = ''did:me''"
proof -
  have "memberships (twice_account [left_member]) = [left_member]"
    by (simp add: memberships_def twice_account_def)
  moreover have "ac_personas (twice_account [left_member]) = [(1, twice_persona)]"
    "ac_top_context_id (twice_account [left_member]) = ''top''" "cr_sub_context_id left_member = ''top/coop''"
    "pr_origin_context_id twice_persona = ''top/coop''"
    by code_simp+
  moreover have "one_level ''top'' ''top/coop''" by (simp add: one_level_def separator_def)
  ultimately show ?thesis
    using deletion_takes_only_its_own [OF left_deletable] by (simp add: coop_deletion_def)
qed

end
