(* ===== verification/SyncEngine.thy ===== *)
theory SyncEngine
  imports SyncRecords
begin

text \<open>
  Keeping the account at the VTA (\<open>openvtc-core/src/vta_sync/mod.rs\<close>, \<open>store.rs\<close>): pull every change since the
  watermark, merge each into the configuration against the last version agreed on, push what then differs, and fold the
  outcome back. The VTA's store is \<open>app_state_store\<close>, its calls made on the VTA's state.
\<close>

section \<open>Errors and the store\<close>

datatype sync_error =
    SyncUnsupported | SyncUnreachable string | SyncRefused string | SyncContract string | WatermarkTooOld

definition is_transient :: "sync_error \<Rightarrow> bool" where
  "is_transient e \<longleftrightarrow> (case e of SyncUnreachable _ \<Rightarrow> True | WatermarkTooOld \<Rightarrow> True | _ \<Rightarrow> False)"

text \<open>The SDK's \<open>VtaError\<close>, as far as it is told apart, with its text.\<close>

datatype vta_failure =
    VtaUnsupportedTask string | VtaNetwork string | VtaDidcomm string | VtaTsp string | VtaServer string
  | VtaUnavailable string | VtaAuth string | VtaForbidden string | VtaProtocol string | VtaConflicted string
  | VtaOther string

fun sync_error_of :: "vta_failure \<Rightarrow> sync_error" where
  "sync_error_of (VtaUnsupportedTask t) = SyncUnsupported"
| "sync_error_of (VtaNetwork t) = SyncUnreachable t"
| "sync_error_of (VtaDidcomm t) = SyncUnreachable t"
| "sync_error_of (VtaTsp t) = SyncUnreachable t"
| "sync_error_of (VtaServer t) = SyncUnreachable t"
| "sync_error_of (VtaUnavailable t) = SyncUnreachable t"
| "sync_error_of (VtaAuth t) = SyncRefused t"
| "sync_error_of (VtaForbidden t) = SyncRefused t"
| "sync_error_of (VtaProtocol t) = (if contains ''watermarkTooOld'' t then WatermarkTooOld else SyncContract t)"
| "sync_error_of (VtaConflicted t) = SyncContract t"
| "sync_error_of (VtaOther t) = SyncContract t"

text \<open>The SDK's app-state types: a record, a page of them, a write and its result.\<close>

record app_record =
  aq_key :: string
  aq_version :: nat
  aq_deleted :: bool
  aq_value :: "json option"

record list_page =
  lp_records :: "app_record list"
  lp_high_watermark :: "nat option"
  lp_next_cursor :: "string option"

record app_write =
  aw_key :: string
  aw_value :: "json option"
  aw_expected_version :: "nat option"

datatype write_outcome = WroteIt | WriteConflict | WriteTooLarge | WriteNotFound | WriteSkipped

record write_result =
  wt_key :: string
  wt_outcome :: write_outcome
  wt_version :: "nat option"
  wt_current_version :: "nat option"
  wt_current_deleted :: "bool option"
  wt_current_value :: "json option"
  wt_actual_bytes :: "nat option"
  wt_limit_bytes :: "nat option"

datatype delete_outcome = DeletedIt | DeleteConflict

record 's app_state_store =
  as_changes_since :: "'s \<Rightarrow> string \<Rightarrow> nat \<Rightarrow> string option \<Rightarrow> 's \<times> (sync_error + list_page)"
  as_snapshot :: "'s \<Rightarrow> string \<Rightarrow> string option \<Rightarrow> 's \<times> (sync_error + list_page)"
  as_put_many :: "'s \<Rightarrow> string \<Rightarrow> app_write list \<Rightarrow> 's \<times> (sync_error + write_result list)"
  as_delete :: "'s \<Rightarrow> string \<Rightarrow> string \<Rightarrow> nat \<Rightarrow> 's \<times> (sync_error + delete_outcome)"

text \<open>The calls of the SDK's client on one context, and the reading of its answers.\<close>

record 's vta_client =
  vl_changes_since :: "'s \<Rightarrow> string \<Rightarrow> string \<Rightarrow> nat \<Rightarrow> nat option \<Rightarrow> string option \<Rightarrow> 's \<times> (vta_failure + json)"
  vl_list :: "'s \<Rightarrow> string \<Rightarrow> string option \<Rightarrow> nat option \<Rightarrow> string option \<Rightarrow> 's \<times> (vta_failure + json)"
  vl_put_many :: "'s \<Rightarrow> string \<Rightarrow> string \<Rightarrow> app_write list \<Rightarrow> 's \<times> (vta_failure + json)"
  vl_delete :: "'s \<Rightarrow> string \<Rightarrow> string \<Rightarrow> string \<Rightarrow> nat option \<Rightarrow> 's \<times> (vta_failure + unit)"
  vl_page :: "json \<Rightarrow> string + list_page"
  vl_results :: "json \<Rightarrow> string + write_result list"

definition namespace :: string where "namespace = ''openvtc''"
definition page_size :: nat where "page_size = 100"
definition put_batch :: nat where "put_batch = 16"

definition parse_answer :: "(json \<Rightarrow> string + 'a) \<Rightarrow> vta_failure + json \<Rightarrow> sync_error + 'a" where
  "parse_answer read r = rbind (map_err sync_error_of r) (\<lambda>v. map_err SyncContract (read v))"

definition delete_answer :: "vta_failure + unit \<Rightarrow> sync_error + delete_outcome" where
  "delete_answer r =
     (case r of
        Inr _ \<Rightarrow> Inr DeletedIt
      | Inl (VtaConflicted _) \<Rightarrow> Inr DeleteConflict
      | Inl (VtaProtocol m) \<Rightarrow>
          if contains ''versionConflict'' m then Inr DeleteConflict else Inl (sync_error_of (VtaProtocol m))
      | Inl e \<Rightarrow> Inl (sync_error_of e))"

definition vta_store :: "'s vta_client \<Rightarrow> 's app_state_store" where
  "vta_store client =
     \<lparr>as_changes_since = (\<lambda>s context since cursor.
        apsnd (parse_answer (vl_page client)) (vl_changes_since client s context namespace since (Some page_size) cursor)),
      as_snapshot = (\<lambda>s context cursor.
        apsnd (parse_answer (vl_page client)) (vl_list client s context (Some namespace) (Some page_size) cursor)),
      as_put_many = (\<lambda>s context writes.
        apsnd (parse_answer (vl_results client)) (vl_put_many client s context namespace writes)),
      as_delete = (\<lambda>s context key expected.
        apsnd delete_answer (vl_delete client s context namespace key (Some expected)))\<rparr>"

section \<open>State and report\<close>

definition record_schema_version :: nat where "record_schema_version = 1"
definition max_pages :: nat where "max_pages = 500"
definition load_rounds :: nat where "load_rounds = 3"

record base_record =
  bs_version :: nat
  bs_value :: json

record remote_record =
  rr_key :: string
  rr_version :: nat
  rr_deleted :: bool
  rr_value :: "json option"

record sync_report =
  sr_pulled :: nat
  sr_pushed :: nat
  sr_removed :: nat
  sr_conflicts :: "string list"
  sr_deferred :: nat
  sr_rejected :: "string list"
  sr_unreadable :: "string list"
  sr_changed :: "record_kind list"
  sr_error :: "sync_error option"
  sr_bookkeeping :: bool
  sr_recovered_witnessings :: nat

definition no_report :: sync_report where
  "no_report =
     \<lparr>sr_pulled = 0, sr_pushed = 0, sr_removed = 0, sr_conflicts = [], sr_deferred = 0, sr_rejected = [],
      sr_unreadable = [], sr_changed = [], sr_error = None, sr_bookkeeping = False, sr_recovered_witnessings = 0\<rparr>"

definition touched :: "sync_report \<Rightarrow> bool" where
  "touched r \<longleftrightarrow>
     0 < sr_pulled r \<or> 0 < sr_pushed r \<or> 0 < sr_removed r \<or> 0 < sr_deferred r \<or> sr_bookkeeping r \<or>
     0 < sr_recovered_witnessings r"

record sync_state =
  ss_context_id :: string
  ss_watermark :: nat
  ss_base :: "(string \<times> base_record) list"
  ss_deferred :: "(string \<times> remote_record) list"
  ss_rejected :: "(string \<times> string) list"
  ss_load_report :: "sync_report option"

definition fresh_state :: sync_state where
  "fresh_state =
     \<lparr>ss_context_id = [], ss_watermark = 0, ss_base = [], ss_deferred = [], ss_rejected = [], ss_load_report = None\<rparr>"

definition state_is_empty :: "sync_state \<Rightarrow> bool" where
  "state_is_empty st \<longleftrightarrow>
     ss_context_id st = [] \<and> ss_watermark st = 0 \<and> ss_base st = [] \<and> ss_deferred st = [] \<and> ss_rejected st = []"

definition bind_context :: "string \<Rightarrow> sync_state \<Rightarrow> sync_state" where
  "bind_context context st =
     (if ss_context_id st \<noteq> context
      then fresh_state\<lparr>ss_context_id := context, ss_load_report := ss_load_report st\<rparr> else st)"

datatype apply_mode = ApplyLoad | ApplyLive

record outgoing =
  og_puts :: "(string \<times> json \<times> nat) list"
  og_deletes :: "(string \<times> nat) list"

definition outgoing_is_empty :: "outgoing \<Rightarrow> bool" where
  "outgoing_is_empty out \<longleftrightarrow> og_puts out = [] \<and> og_deletes out = []"

record exchange =
  ex_pulled :: "remote_record list"
  ex_watermark :: "nat option"
  ex_snapshot_keys :: "string list option"
  ex_puts :: "(string \<times> json \<times> write_result) list"
  ex_deletes :: "(string \<times> delete_outcome) list"
  ex_error :: "sync_error option"

definition no_exchange :: exchange where
  "no_exchange =
     \<lparr>ex_pulled = [], ex_watermark = None, ex_snapshot_keys = None, ex_puts = [], ex_deletes = [], ex_error = None\<rparr>"


section \<open>Envelopes\<close>

definition envelope :: "json \<Rightarrow> json" where
  "envelope data = JObject [(''data'', data), (''schemaVersion'', JNumber (decimal record_schema_version))]"

datatype opened = OpenedData json | Newer nat | MalformedRecord

fun json_u64 :: "json \<Rightarrow> nat option" where
  "json_u64 (JNumber n) = (case parse_digits n of Some k \<Rightarrow> if k < 2 ^ 64 then Some k else None | None \<Rightarrow> None)"
| "json_u64 _ = None"

definition open_record :: "json option \<Rightarrow> opened" where
  "open_record v =
     (case v of
        None \<Rightarrow> MalformedRecord
      | Some env \<Rightarrow>
          (let version = (case Option.bind (jget ''schemaVersion'' env) json_u64 of None \<Rightarrow> 0 | Some n \<Rightarrow> n)
           in if record_schema_version < version then Newer version
              else case jget ''data'' env of
                     Some d \<Rightarrow> if 1 \<le> version then OpenedData d else MalformedRecord
                   | None \<Rightarrow> MalformedRecord))"

definition value_digest :: "sync_codec \<Rightarrow> json \<Rightarrow> string" where
  "value_digest cd v = sy_hex_sha256 cd (sy_text cd v)"

section \<open>What goes out\<close>

definition put_for :: "sync_codec \<Rightarrow> sync_state \<Rightarrow> string \<times> json \<Rightarrow> (string \<times> json \<times> nat) list" where
  "put_for cd st e =
     (let (key, v) = e; base = map_of (ss_base st) key in
      if map_of (ss_deferred st) key \<noteq> None then []
      else if map_option bs_value base = Some v then []
      else if map_of (ss_rejected st) key = Some (value_digest cd v) then []
      else [(key, v, case base of None \<Rightarrow> 0 | Some b \<Rightarrow> bs_version b)])"

definition outgoing_of :: "sync_codec \<Rightarrow> sync_parts \<Rightarrow> sync_state \<Rightarrow> outgoing" where
  "outgoing_of cd p st =
     (let here = project cd p in
      \<lparr>og_puts = concat (map (put_for cd st) here),
       og_deletes = map (\<lambda>(key, b). (key, bs_version b))
         (filter (\<lambda>(key, _). map_of here key = None \<and> map_of (ss_deferred st) key = None) (ss_base st))\<rparr>)"

section \<open>The network half\<close>

definition remote_of :: "app_record \<Rightarrow> remote_record" where
  "remote_of r = \<lparr>rr_key = aq_key r, rr_version = aq_version r, rr_deleted = aq_deleted r, rr_value = aq_value r\<rparr>"

text \<open>
  The loop of \<open>pull\<close>: at most \<open>pages\<close> more pages. \<open>first\<close> is the first page's watermark, \<open>keys\<close> those of a snapshot
  so far.
\<close>

fun pull_loop ::
  "nat \<Rightarrow> 's app_state_store \<Rightarrow> string \<Rightarrow> nat \<Rightarrow> 's \<Rightarrow> bool \<Rightarrow> string option \<Rightarrow> nat option \<Rightarrow> string list \<Rightarrow> exchange
     \<Rightarrow> 's \<times> exchange" where
  "pull_loop 0 store context since s snapshot cursor first keys ex =
     (s, ex\<lparr>ex_error := Some (SyncContract (''the change feed did not end within '' @ decimal max_pages @ '' pages''))\<rparr>)"
| "pull_loop (Suc pages) store context since s snapshot cursor first keys ex =
     (case (if snapshot then as_snapshot store s context cursor else as_changes_since store s context since cursor) of
        (s, Inl e) \<Rightarrow>
          if e = WatermarkTooOld \<and> \<not> snapshot
          then pull_loop pages store context since s True None None keys (ex\<lparr>ex_pulled := []\<rparr>)
          else (s, ex\<lparr>ex_error := Some e\<rparr>)
      | (s, Inr page) \<Rightarrow>
          (let first = (case first of
                          Some w \<Rightarrow> Some w
                        | None \<Rightarrow> Some (case lp_high_watermark page of None \<Rightarrow> since | Some w \<Rightarrow> w));
               keys = (if snapshot then keys @ map aq_key (lp_records page) else keys);
               ex = ex\<lparr>ex_pulled := ex_pulled ex @ map remote_of (lp_records page)\<rparr>
           in case lp_next_cursor page of
                Some c \<Rightarrow> pull_loop pages store context since s snapshot (Some c) first keys ex
              | None \<Rightarrow>
                  (s, ex\<lparr>ex_watermark := first, ex_snapshot_keys := (if snapshot then Some (sorted_once keys) else ex_snapshot_keys ex)\<rparr>)))"

definition pull :: "'s app_state_store \<Rightarrow> string \<Rightarrow> nat \<Rightarrow> 's \<Rightarrow> exchange \<Rightarrow> 's \<times> exchange" where
  "pull store context since s ex = pull_loop max_pages store context since s False None None [] ex"

text \<open>\<open>slice::chunks\<close>, for a size above zero.\<close>

function chunks :: "nat \<Rightarrow> 'a list \<Rightarrow> 'a list list" where
  "chunks n xs = (if xs = [] \<or> n = 0 then [] else take n xs # chunks n (drop n xs))"
  by pat_completeness auto
termination by (relation "measure (\<lambda>(_, xs). length xs)") auto

declare chunks.simps [simp del]

definition write_of :: "string \<times> json \<times> nat \<Rightarrow> app_write" where
  "write_of e = (case e of (key, v, expected) \<Rightarrow>
     \<lparr>aw_key = key, aw_value = Some (envelope v), aw_expected_version = Some expected\<rparr>)"

definition put_results :: "(string \<times> json \<times> nat) list \<Rightarrow> write_result list \<Rightarrow> (string \<times> json \<times> write_result) list" where
  "put_results batch rs =
     concat (map (\<lambda>r. case List.find (\<lambda>(k, _, _). k = wt_key r) batch of
                        None \<Rightarrow> [] | Some (_, v, _) \<Rightarrow> [(wt_key r, v, r)]) rs)"

fun push_batches ::
  "'s app_state_store \<Rightarrow> string \<Rightarrow> 's \<Rightarrow> (string \<times> json \<times> nat) list list \<Rightarrow> exchange \<Rightarrow> 's \<times> exchange" where
  "push_batches store context s [] ex = (s, ex)"
| "push_batches store context s (batch # batches) ex =
     (case as_put_many store s context (map write_of batch) of
        (s, Inl e) \<Rightarrow> (s, ex\<lparr>ex_error := Some e\<rparr>)
      | (s, Inr rs) \<Rightarrow> push_batches store context s batches (ex\<lparr>ex_puts := ex_puts ex @ put_results batch rs\<rparr>))"

fun push_deletes :: "'s app_state_store \<Rightarrow> string \<Rightarrow> 's \<Rightarrow> (string \<times> nat) list \<Rightarrow> exchange \<Rightarrow> 's \<times> exchange" where
  "push_deletes store context s [] ex = (s, ex)"
| "push_deletes store context s ((key, expected) # ds) ex =
     (case as_delete store s context key expected of
        (s, Inl e) \<Rightarrow> (s, ex\<lparr>ex_error := Some e\<rparr>)
      | (s, Inr d) \<Rightarrow> push_deletes store context s ds (ex\<lparr>ex_deletes := ex_deletes ex @ [(key, d)]\<rparr>))"

definition do_exchange :: "'s app_state_store \<Rightarrow> string \<Rightarrow> nat \<Rightarrow> outgoing \<Rightarrow> 's \<Rightarrow> 's \<times> exchange" where
  "do_exchange store context since out s =
     (case pull store context since s no_exchange of
        (s, ex) \<Rightarrow>
          if ex_error ex \<noteq> None then (s, ex)
          else case push_batches store context s (chunks put_batch (og_puts out)) ex of
                 (s, ex) \<Rightarrow>
                   if ex_error ex \<noteq> None then (s, ex) else push_deletes store context s (og_deletes out) ex)"

definition put_new :: "'s app_state_store \<Rightarrow> string \<Rightarrow> string \<Rightarrow> json \<Rightarrow> 's \<Rightarrow> 's \<times> (sync_error + write_outcome)" where
  "put_new store context key v s =
     (case as_put_many store s context [write_of (key, v, 0)] of
        (s, Inl e) \<Rightarrow> (s, Inl e)
      | (s, Inr rs) \<Rightarrow>
          (s, ok_or (SyncContract (''no result for `'' @ key @ ''`''))
                (map_option wt_outcome (List.find (\<lambda>r. wt_key r = key) rs))))"

section \<open>Merging what was pulled\<close>

text \<open>\<open>applies_live\<close>: a membership waits for the next launch when its persona is not loaded.\<close>

definition applies_live :: "sync_codec \<Rightarrow> record_kind \<Rightarrow> json option \<Rightarrow> sync_parts \<Rightarrow> bool" where
  "applies_live cd kd data p \<longleftrightarrow>
     kind_applies_live kd \<and>
     (kd = SyncMembership \<longrightarrow>
        (case jmember ''persona_ref'' data of
           None \<Rightarrow> True
         | Some persona \<Rightarrow> list_ex (\<lambda>(i, _). sy_uuid_json cd i = Some persona) (ac_personas (sp_account p))))"

record merging =
  mg_parts :: sync_parts
  mg_state :: sync_state
  mg_report :: sync_report

definition hold_back :: "string \<Rightarrow> remote_record \<Rightarrow> merging \<Rightarrow> merging" where
  "hold_back key r m = m\<lparr>mg_state := (mg_state m)\<lparr>ss_deferred := put key r (ss_deferred (mg_state m))\<rparr>\<rparr>"

definition say_unreadable :: "string \<Rightarrow> merging \<Rightarrow> merging" where
  "say_unreadable what m = m\<lparr>mg_report := (mg_report m)\<lparr>sr_unreadable := sr_unreadable (mg_report m) @ [what]\<rparr>\<rparr>"

text \<open>The record is agreed on at its version: no longer deferred, its value the new base.\<close>

definition agree :: "string \<Rightarrow> nat \<Rightarrow> json option \<Rightarrow> merging \<Rightarrow> merging" where
  "agree key version data m =
     m\<lparr>mg_state := (mg_state m)\<lparr>
         ss_deferred := drop_key key (ss_deferred (mg_state m)),
         ss_base := put_option key (map_option (\<lambda>v. \<lparr>bs_version = version, bs_value = v\<rparr>) data) (ss_base (mg_state m))\<rparr>\<rparr>"

definition say_conflicts :: "record_kind \<Rightarrow> string list \<Rightarrow> merging \<Rightarrow> merging" where
  "say_conflicts kd cs m =
     (if cs = [] then m
      else m\<lparr>mg_report := (mg_report m)\<lparr>sr_conflicts := sr_conflicts (mg_report m) @
               [''a '' @ kind_noun kd @ '' ('' @ str_join '', '' cs @ '')'']\<rparr>\<rparr>)"

definition say_pulled :: "record_kind \<Rightarrow> merging \<Rightarrow> merging" where
  "say_pulled kd m =
     m\<lparr>mg_report := (mg_report m)\<lparr>sr_changed := List.insert kd (sr_changed (mg_report m)),
                                 sr_pulled := sr_pulled (mg_report m) + 1\<rparr>\<rparr>"

text \<open>The value of a change: what it holds, or why it cannot be read.\<close>

definition change_data :: "record_kind \<Rightarrow> remote_record \<Rightarrow> string + json option" where
  "change_data kd r =
     (if rr_deleted r then Inr None
      else case open_record (rr_value r) of
             OpenedData d \<Rightarrow> Inr (Some d)
           | Newer v \<Rightarrow> Inl (''a '' @ kind_noun kd @ '' written in format '' @ decimal v)
           | MalformedRecord \<Rightarrow> Inl (''a malformed '' @ kind_noun kd))"

definition merge_in :: "sync_codec \<Rightarrow> json option \<Rightarrow> record_kind \<Rightarrow> remote_record \<Rightarrow> json option \<Rightarrow> merging \<Rightarrow> merging" where
  "merge_in cd here kd r data m =
     (let key = rr_key r;
          (merged, conflicts) = merge3 (map_option bs_value (map_of (ss_base (mg_state m)) key)) here data []
      in if merged = here then agree key (rr_version r) data (say_conflicts kd conflicts m)
         else case apply_record cd (mg_parts m) key merged of
                Inl e \<Rightarrow> hold_back key r (say_unreadable (''a '' @ kind_noun kd @ '': '' @ e) m)
              | Inr p \<Rightarrow> agree key (rr_version r) data (say_conflicts kd conflicts (say_pulled kd (m\<lparr>mg_parts := p\<rparr>))))"

definition apply_change :: "sync_codec \<Rightarrow> (string \<times> json) list \<Rightarrow> apply_mode \<Rightarrow> remote_record \<Rightarrow> merging \<Rightarrow> merging" where
  "apply_change cd local mode r m =
     (let key = rr_key r in
      if (case map_of (ss_base (mg_state m)) key of None \<Rightarrow> False | Some b \<Rightarrow> rr_version r \<le> bs_version b) then m
      else case of_key key of
             None \<Rightarrow> m
           | Some kd \<Rightarrow>
               (case change_data kd r of
                  Inl what \<Rightarrow> hold_back key r (say_unreadable what m)
                | Inr data \<Rightarrow>
                    if mode = ApplyLive \<and> \<not> applies_live cd kd data (mg_parts m)
                    then (let m' = hold_back key r m
                          in if map_of (ss_deferred (mg_state m)) key = None
                             then m'\<lparr>mg_report := (mg_report m')\<lparr>sr_deferred := sr_deferred (mg_report m') + 1\<rparr>\<rparr> else m')
                    else merge_in cd (map_of local key) kd r data m))"

text \<open>The latest version of each key, in key order.\<close>

definition latest_changes :: "remote_record list \<Rightarrow> remote_record list" where
  "latest_changes rs = map snd (put_all (map (\<lambda>r. (rr_key r, r)) (sort_key rr_version rs)) [])"

definition apply_remote :: "sync_codec \<Rightarrow> remote_record list \<Rightarrow> apply_mode \<Rightarrow> merging \<Rightarrow> merging" where
  "apply_remote cd rs mode m =
     fold (apply_change cd (project cd (mg_parts m)) mode) (latest_changes rs) m"

section \<open>Folding an exchange back\<close>

definition note_bookkeeping :: "bool \<Rightarrow> merging \<Rightarrow> merging" where
  "note_bookkeeping b m = (if b then m\<lparr>mg_report := (mg_report m)\<lparr>sr_bookkeeping := True\<rparr>\<rparr> else m)"

text \<open>The base records a snapshot no longer lists are gone.\<close>

definition reaped :: "exchange \<Rightarrow> sync_state \<Rightarrow> remote_record list" where
  "reaped ex st =
     (case (ex_snapshot_keys ex, ex_watermark ex) of
        (Some keys, Some w) \<Rightarrow>
          map (\<lambda>(key, _). \<lparr>rr_key = key, rr_version = w, rr_deleted = True, rr_value = None\<rparr>)
            (filter (\<lambda>(key, _). key \<notin> set keys) (ss_base st))
      | _ \<Rightarrow> [])"

definition adopt_watermark :: "nat option \<Rightarrow> merging \<Rightarrow> merging" where
  "adopt_watermark w m =
     (case w of
        None \<Rightarrow> m
      | Some w \<Rightarrow>
          if w = ss_watermark (mg_state m) then m
          else note_bookkeeping True (m\<lparr>mg_state := (mg_state m)\<lparr>ss_watermark := w\<rparr>\<rparr>))"

text \<open>One outcome of a push; the second component is the change a lost race carries.\<close>

definition absorb_put ::
  "sync_codec \<Rightarrow> string \<times> json \<times> write_result \<Rightarrow> merging \<times> remote_record list \<Rightarrow> merging \<times> remote_record list" where
  "absorb_put cd e mr =
     (let (key, v, r) = e; (m, raced) = mr; st = mg_state m in
      case wt_outcome r of
        WroteIt \<Rightarrow>
          (let m = m\<lparr>mg_state := st\<lparr>ss_rejected := drop_key key (ss_rejected st)\<rparr>\<rparr> in
           (case wt_version r of
              None \<Rightarrow> m
            | Some version \<Rightarrow>
                m\<lparr>mg_state := (mg_state m)\<lparr>ss_base := put key \<lparr>bs_version = version, bs_value = v\<rparr> (ss_base (mg_state m))\<rparr>,
                  mg_report := (mg_report m)\<lparr>sr_pushed := sr_pushed (mg_report m) + 1\<rparr>\<rparr>, raced))
      | WriteConflict \<Rightarrow>
          (m, raced @ [\<lparr>rr_key = key, rr_version = (case wt_current_version r of None \<Rightarrow> 0 | Some n \<Rightarrow> n),
                        rr_deleted = (wt_current_deleted r = Some True), rr_value = wt_current_value r\<rparr>])
      | WriteTooLarge \<Rightarrow>
          (m\<lparr>mg_state := st\<lparr>ss_rejected := put key (value_digest cd v) (ss_rejected st)\<rparr>,
             mg_report := (mg_report m)\<lparr>sr_rejected := sr_rejected (mg_report m) @
               [''a '' @ (case of_key key of None \<Rightarrow> ''record'' | Some kd \<Rightarrow> kind_noun kd) @ '' is ''
                @ decimal (case wt_actual_bytes r of None \<Rightarrow> 0 | Some n \<Rightarrow> n) @ '' bytes, over this VTA'' @ [CHR 39] @ ''s ''
                @ decimal (case wt_limit_bytes r of None \<Rightarrow> 0 | Some n \<Rightarrow> n) @ ''-byte limit'']\<rparr>\<rparr>, raced)
      | _ \<Rightarrow> (m, raced))"

definition absorb_delete :: "string \<times> delete_outcome \<Rightarrow> merging \<times> bool \<Rightarrow> merging \<times> bool" where
  "absorb_delete e mb =
     (case (e, mb) of
        ((key, DeletedIt), (m, lost)) \<Rightarrow>
          (m\<lparr>mg_state := (mg_state m)\<lparr>ss_base := drop_key key (ss_base (mg_state m))\<rparr>,
             mg_report := (mg_report m)\<lparr>sr_removed := sr_removed (mg_report m) + 1\<rparr>\<rparr>, lost)
      | ((_, DeleteConflict), (m, _)) \<Rightarrow> (m, True))"

definition absorb :: "sync_codec \<Rightarrow> exchange \<Rightarrow> apply_mode \<Rightarrow> merging \<Rightarrow> merging \<times> bool" where
  "absorb cd ex mode m =
     (let pulled = ex_pulled ex @ reaped ex (mg_state m);
          m = note_bookkeeping (pulled \<noteq> [] \<or> ex_puts ex \<noteq> [] \<or> ex_deletes ex \<noteq> []) m;
          m = adopt_watermark (ex_watermark ex) (apply_remote cd pulled mode m);
          (m, raced) = fold (absorb_put cd) (ex_puts ex) (m, []);
          m = apply_remote cd raced mode m;
          (m, lost) = fold absorb_delete (ex_deletes ex) (m, raced \<noteq> []);
          m = (case ex_error ex of None \<Rightarrow> m | Some e \<Rightarrow> m\<lparr>mg_report := (mg_report m)\<lparr>sr_error := Some e\<rparr>\<rparr>)
      in (m, lost))"

section \<open>The sync at load\<close>

text \<open>\<open>Incomplete\<close> work is bounded by \<open>load_rounds\<close>.\<close>

fun load_loop :: "nat \<Rightarrow> sync_codec \<Rightarrow> 's app_state_store \<Rightarrow> string \<Rightarrow> 's \<Rightarrow> merging \<Rightarrow> 's \<times> merging" where
  "load_loop 0 cd store context s m = (s, m)"
| "load_loop (Suc rounds) cd store context s m =
     (case do_exchange store context (ss_watermark (mg_state m)) (outgoing_of cd (mg_parts m) (mg_state m)) s of
        (s, ex) \<Rightarrow>
          (case absorb cd ex ApplyLoad m of
             (m, lost) \<Rightarrow>
               if sr_error (mg_report m) \<noteq> None \<or> \<not> lost then (s, m) else load_loop rounds cd store context s m))"

definition sync_at_load ::
  "sync_codec \<Rightarrow> 's app_state_store \<Rightarrow> string \<Rightarrow> 's \<Rightarrow> sync_parts \<Rightarrow> sync_state \<Rightarrow> 's \<times> merging" where
  "sync_at_load cd store context s p st =
     (if context = [] then (s, \<lparr>mg_parts = p, mg_state = st, mg_report = no_report\<rparr>)
      else let st = bind_context context st;
               held = map snd (ss_deferred st);
               m = \<lparr>mg_parts = p, mg_state = st\<lparr>ss_deferred := []\<rparr>, mg_report = no_report\<rparr>;
               m = apply_remote cd held ApplyLoad (note_bookkeeping (held \<noteq> []) m)
           in load_loop load_rounds cd store context s m)"

end
