(* ===== verification/SyncRecordLaws.thy ===== *)
theory SyncRecordLaws
  imports SyncEngine Decimals
begin

text \<open>
  Projecting and applying belong together: writing a record changes what is projected under its key, and nothing else.
\<close>

declare decimal.simps [simp del]

section \<open>Lists of entries\<close>

lemma one_key_changes:
  assumes "filter (\<lambda>e. fst e \<noteq> k) es' = filter (\<lambda>e. fst e \<noteq> k) es"
    and "\<forall>e \<in> set es'. fst e = k \<longrightarrow> v = Some (snd e)"
    and "v \<noteq> None \<Longrightarrow> k \<in> fst ` set es'"
  shows "map_of (rev es') = (map_of (rev es))(k := v)"
proof (rule ext)
  fix j
  have others: "map_of (rev xs) j = map_of (rev (filter (\<lambda>e. fst e \<noteq> k) xs)) j" if "j \<noteq> k" for xs :: "('a \<times> 'b) list"
    using that by (induction xs) (auto simp: map_add_def split: option.split)
  show "map_of (rev es') j = ((map_of (rev es))(k := v)) j"
  proof (cases "j = k")
    case True
    show ?thesis
    proof (cases v)
      case None
      with assms(2) have "k \<notin> fst ` set (rev es')" by force
      with True None show ?thesis by (simp add: map_of_eq_None_iff)
    next
      case (Some x)
      with assms(3) have "k \<in> fst ` set (rev es')" by simp
      then obtain y where y: "map_of (rev es') k = Some y" by (metis map_of_eq_None_iff option.exhaust)
      then have "(k, y) \<in> set es'" using map_of_SomeD by fastforce
      with assms(2) Some y True show ?thesis by fastforce
    qed
  next
    case False
    with others [of es'] others [of es] assms(1) show ?thesis by simp
  qed
qed

lemma entry_of_simps [simp]: "entry_of key None = []" "entry_of key (Some v) = [(key, v)]"
  by (simp_all add: entry_of_def)

lemma filter_entry_of: "filter (\<lambda>e. fst e \<noteq> k) (entry_of key v) = (if key = k then [] else entry_of key v)"
  by (cases v) auto

lemma set_entry_of: "e \<in> set (entry_of key v) \<longleftrightarrow> fst e = key \<and> v = Some (snd e)"
  by (cases v; cases e) auto

lemma filter_entries:
  "filter (\<lambda>e. fst e \<noteq> k) (concat (map (\<lambda>x. entry_of (f x) (g x)) xs)) =
     concat (map (\<lambda>x. entry_of (f x) (g x)) (filter (\<lambda>x. f x \<noteq> k) xs))"
  by (induction xs) (auto simp: filter_entry_of)

text \<open>A store kept by key, one entry per item: dropping the items of a key, and putting one in its place.\<close>

lemma entries_dropped:
  "map_of (rev (concat (map (\<lambda>x. entry_of (f x) (g x)) (filter (\<lambda>x. f x \<noteq> k) xs)))) =
     (map_of (rev (concat (map (\<lambda>x. entry_of (f x) (g x)) xs))))(k := None)"
  by (rule one_key_changes) (auto simp: filter_entries set_entry_of)

lemma entries_replaced:
  assumes "filter (\<lambda>x. f x \<noteq> k) ys = filter (\<lambda>x. f x \<noteq> k) xs" "\<forall>x \<in> set ys. f x = k \<longrightarrow> g x = Some v" "\<exists>x \<in> set ys. f x = k"
  shows "map_of (rev (concat (map (\<lambda>x. entry_of (f x) (g x)) ys))) =
     (map_of (rev (concat (map (\<lambda>x. entry_of (f x) (g x)) xs))))(k \<mapsto> v)"
proof (rule one_key_changes)
  show "filter (\<lambda>e. fst e \<noteq> k) (concat (map (\<lambda>x. entry_of (f x) (g x)) ys)) =
      filter (\<lambda>e. fst e \<noteq> k) (concat (map (\<lambda>x. entry_of (f x) (g x)) xs))"
    by (simp only: filter_entries assms(1))
  show "\<forall>e \<in> set (concat (map (\<lambda>x. entry_of (f x) (g x)) ys)). fst e = k \<longrightarrow> Some v = Some (snd e)"
    using assms(2) by (auto simp: set_entry_of)
  obtain x where "x \<in> set ys" "f x = k" "g x = Some v" using assms(2,3) by auto
  then have "(k, v) \<in> set (concat (map (\<lambda>x. entry_of (f x) (g x)) ys))" by (auto simp: set_entry_of)
  then show "k \<in> fst ` set (concat (map (\<lambda>x. entry_of (f x) (g x)) ys))" by force
qed

lemma filter_update_same:
  "f i = k \<Longrightarrow> filter (\<lambda>e. f (fst e) \<noteq> k) (AList.update i x m) = filter (\<lambda>e. f (fst e) \<noteq> k) m"
  by (induction m) auto

lemma distinct_update_mem:
  "distinct (map fst m) \<Longrightarrow> e \<in> set (AList.update i x m) \<Longrightarrow> fst e = i \<Longrightarrow> snd e = x"
  by (metis AList.update_conv' distinct_update eq_fst_iff fun_upd_same map_of_is_SomeI option.inject prod.collapse)

lemma updated_mem: "(i, x) \<in> set (AList.update i x m)"
  by (induction m) auto

text \<open>The same for a map updated at one of its keys, where no two keys give one record key.\<close>

lemma map_entries_updated:
  assumes "distinct (map fst m)" "inj_on f (insert i (fst ` set m))" "f i = k" "g (i, x) = Some v"
  shows "map_of (rev (concat (map (\<lambda>e. entry_of (f (fst e)) (g e)) (AList.update i x m)))) =
     (map_of (rev (concat (map (\<lambda>e. entry_of (f (fst e)) (g e)) m))))(k \<mapsto> v)"
proof (rule entries_replaced)
  show "filter (\<lambda>e. f (fst e) \<noteq> k) (AList.update i x m) = filter (\<lambda>e. f (fst e) \<noteq> k) m"
    using assms(3) by (rule filter_update_same)
  show "\<forall>e \<in> set (AList.update i x m). f (fst e) = k \<longrightarrow> g e = Some v"
  proof (intro ballI impI)
    fix e assume e: "e \<in> set (AList.update i x m)" "f (fst e) = k"
    have "fst ` set (AList.update i x m) = insert i (fst ` set m)" by (simp add: dom_update)
    with e have "fst e \<in> insert i (fst ` set m)" by (metis image_eqI)
    with e(2) assms(2,3) have "fst e = i" by (auto simp: inj_on_def)
    with distinct_update_mem [OF assms(1) e(1)] assms(4) show "g e = Some v" by (cases e) auto
  qed
  show "\<exists>e \<in> set (AList.update i x m). f (fst e) = k" using updated_mem [of i x m] assms(3) by force
qed

section \<open>Record keys\<close>

lemma of_key_prefix [simp]: "of_key (kind_prefix kd @ s) = Some kd"
  by (cases kd) (simp_all add: of_key_def all_kinds_def starts_with_def)

declare kind_prefix.simps [simp del]

lemma of_key_keys [simp]:
  "of_key (simple_key cd kd i) = Some kd" "of_key (persona_sync_key cd r) = Some SyncPersona"
  "of_key (member_sync_key cd m) = Some SyncMembership" "of_key (witnessing_key cd w) = Some SyncWitnessing"
  "of_key (vrc_sync_key cd kd remote i) = Some kd" "of_key (kind_prefix kd) = Some kd"
  using of_key_prefix [of kd "[]"]
  by (simp_all add: simple_key_def persona_sync_key_def member_sync_key_def witnessing_key_def vrc_sync_key_def)

lemmas entries_defs = persona_entries_def member_entries_def relation_entries_def contact_entries_def name_entries_def
  tsp_entries_def vrc_entries_def key_entries_def witness_entries_def witnessing_record_def

lemma kind_entries_key: "e \<in> set (kind_entries cd p kd) \<Longrightarrow> of_key (fst e) = Some kd"
  by (cases kd) (auto simp: entries_defs set_entry_of split: option.splits)

lemma put_all_append: "put_all (xs @ ys) m = put_all ys (put_all xs m)"
  by (simp add: put_all_def)

lemma map_of_concat_kinds:
  assumes "distinct ks" "\<And>kd e. kd \<in> set ks \<Longrightarrow> e \<in> set (f kd) \<Longrightarrow> of_key (fst e) = Some kd"
  shows "map_of (rev (concat (map f ks))) k =
     (case of_key k of None \<Rightarrow> None | Some kd \<Rightarrow> if kd \<in> set ks then map_of (rev (f kd)) k else None)"
  using assms
proof (induction ks)
  case (Cons kd ks)
  have absent: "map_of (rev (f kd)) k = None" if "of_key k \<noteq> Some kd"
    using that Cons.prems(2) [of kd] by (force simp: map_of_eq_None_iff)
  from Cons.IH Cons.prems
  have "map_of (rev (concat (map f ks))) k =
     (case of_key k of None \<Rightarrow> None | Some kd \<Rightarrow> if kd \<in> set ks then map_of (rev (f kd)) k else None)" by auto
  with Cons.prems(1) absent show ?case by (auto simp: map_add_def split: option.splits)
qed (simp split: option.split)

lemma map_of_project:
  "map_of (project cd p) k = (case of_key k of None \<Rightarrow> None | Some kd \<Rightarrow> map_of (rev (kind_entries cd p kd)) k)"
proof -
  have "set all_kinds = UNIV" "distinct all_kinds"
    by (auto simp: all_kinds_def intro: record_kind.exhaust)
  then show ?thesis
    using map_of_concat_kinds [of all_kinds "kind_entries cd p" k] kind_entries_key
    by (simp add: project_def map_of_put_all split: option.split)
qed

lemma in_order_project: "in_order (project cd p)"
  by (simp add: project_def in_order_put_all)

lemma project_one_kind:
  assumes "of_key k = Some kd" "\<And>kd'. kd' \<noteq> kd \<Longrightarrow> kind_entries cd p' kd' = kind_entries cd p kd'"
    and "map_of (rev (kind_entries cd p' kd)) = (map_of (rev (kind_entries cd p kd)))(k := v)"
  shows "map_of (project cd p') = (map_of (project cd p))(k := v)"
proof (rule ext)
  fix j
  show "map_of (project cd p') j = ((map_of (project cd p))(k := v)) j"
    using assms(1,3) assms(2) [of "the (of_key j)"]
    by (cases "of_key j"; cases "of_key j = Some kd") (auto simp: map_of_project)
qed


section \<open>What is relied on\<close>

text \<open>
  \<open>U\<close> holds the identifiers in play. SHA-256 tells them apart and a UUID is told by its text; the stores are maps, a
  persona and a contact are kept under their own identifier, and a credential that is held reads back.
\<close>

definition codec_ok :: "sync_codec \<Rightarrow> string set \<Rightarrow> bool" where
  "codec_ok cd U \<longleftrightarrow> inj_on (key_segment cd) U \<and> (\<forall>i \<in> U. length (sy_hex_sha256 cd i) = 64) \<and> inj (sy_uuid cd)"

definition vrcs_ok :: "sync_codec \<Rightarrow> string set \<Rightarrow> vrcs \<Rightarrow> bool" where
  "vrcs_ok cd U vs \<longleftrightarrow>
     distinct (map fst (vr_vrcs vs)) \<and>
     (\<forall>(remote, by_id) \<in> set (vr_vrcs vs). distinct (map fst by_id) \<and>
        (\<forall>(i, c) \<in> set by_id. remote \<in> U \<and> i \<in> U \<and> dec_vrc cd (enc_vrc cd c) = Inr c))"

definition parts_ok :: "sync_codec \<Rightarrow> string set \<Rightarrow> sync_parts \<Rightarrow> bool" where
  "parts_ok cd U p \<longleftrightarrow>
     distinct (map fst (ac_personas (sp_account p))) \<and>
     (\<forall>(i, r) \<in> set (ac_personas (sp_account p)). pr_persona_id r = i) \<and>
     distinct (map fst (rs_map (sp_relationships p))) \<and> fst ` set (rs_map (sp_relationships p)) \<subseteq> U \<and>
     (\<forall>(i, c) \<in> set (sp_contacts p). co_did c = i) \<and>
     distinct (map fst (sp_agent_names p)) \<and> fst ` set (sp_agent_names p) \<subseteq> U \<and>
     in_order (sp_tsp p) \<and> fst ` set (sp_tsp p) \<subseteq> U \<and>
     vrcs_ok cd U (sp_vrcs_issued p) \<and> vrcs_ok cd U (sp_vrcs_received p) \<and>
     distinct (map fst (sp_key_info p)) \<and> fst ` set (sp_key_info p) \<subseteq> U"

text \<open>A value of a kind that decodes as what it encodes, under its key.\<close>

fun good_value :: "sync_codec \<Rightarrow> string set \<Rightarrow> record_kind \<Rightarrow> string \<Rightarrow> json \<Rightarrow> bool" where
  "good_value cd U SyncPersona k x \<longleftrightarrow>
     (\<exists>r. dec_persona cd x = Inr r \<and> enc_persona cd r = Some x \<and> persona_sync_key cd r = k)"
| "good_value cd U SyncMembership k x \<longleftrightarrow>
     (\<exists>m. dec_member cd x = Inr m \<and> enc_member cd m = Some x \<and> member_sync_key cd m = k)"
| "good_value cd U SyncRelationship k x \<longleftrightarrow>
     (\<exists>did y r. x = JObject [(''pDid'', JString did), (''relationship'', y)] \<and> did \<in> U \<and>
        simple_key cd SyncRelationship did = k \<and> dec_relation cd y = Inr r \<and> enc_relation cd r = Some y)"
| "good_value cd U SyncContact k x \<longleftrightarrow>
     (\<exists>c. dec_contact cd x = Inr c \<and> enc_contact cd c = Some x \<and> simple_key cd SyncContact (co_did c) = k)"
| "good_value cd U SyncAgentName k x \<longleftrightarrow>
     (\<exists>did y e. x = JObject [(''did'', JString did), (''entry'', y)] \<and> did \<in> U \<and>
        simple_key cd SyncAgentName did = k \<and> dec_name cd y = Inr e \<and> enc_name cd e = Some y \<and> cn_name e \<noteq> None)"
| "good_value cd U SyncTsp k x \<longleftrightarrow>
     (\<exists>i row. x = JObject [(''key'', JString i), (''value'', JString row)] \<and> i \<in> U \<and> simple_key cd SyncTsp i = k)"
| "good_value cd U SyncKey k x \<longleftrightarrow>
     (\<exists>name y i. x = JObject [(''info'', y), (''name'', JString name)] \<and> name \<in> U \<and>
        simple_key cd SyncKey name = k \<and> dec_key cd y = Inr i \<and> enc_key cd i = Some y \<and> is_vta_managed i)"
| "good_value cd U SyncVetting k x \<longleftrightarrow>
     k = kind_prefix SyncVetting \<and> (\<exists>b. dec_book cd x = Inr b \<and> (\<forall>here. vetting_json cd (keep_local here b) = Some x))"
| "good_value cd U SyncWitnessing k x \<longleftrightarrow>
     (\<exists>r. dec_witness cd x = Inr r \<and> enc_witness cd r = Some x \<and> witnessing_key cd r = k)"
| "good_value cd U kd k x \<longleftrightarrow>
     (\<exists>remote i c. x = vrc_value cd remote i c \<and> remote \<in> U \<and> i \<in> U \<and> vrc_sync_key cd kd remote i = k \<and>
        dec_vrc cd (enc_vrc cd c) = Inr c)"

definition good_change :: "sync_codec \<Rightarrow> string set \<Rightarrow> string \<Rightarrow> json option \<Rightarrow> bool" where
  "good_change cd U k v \<longleftrightarrow>
     (case of_key k of
        None \<Rightarrow> False
      | Some kd \<Rightarrow>
          (case v of
             Some x \<Rightarrow> good_value cd U kd k x
           | None \<Rightarrow> kd = SyncVetting \<longrightarrow>
               k = kind_prefix SyncVetting \<and> (\<forall>here. vetting_json cd (keep_local here (empty_book (sy_policy cd))) = None)))"

abbreviation writes :: "sync_codec \<Rightarrow> string set \<Rightarrow> sync_parts \<Rightarrow> string \<Rightarrow> json option \<Rightarrow> bool" where
  "writes cd U p k v \<equiv> \<exists>p'. apply_record cd p k v = Inr p' \<and> parts_ok cd U p' \<and>
     map_of (project cd p') = (map_of (project cd p))(k := v)"

lemma writesI:
  assumes "of_key k = Some kd" "apply_kind cd kd p k v = Inr p'" "parts_ok cd U p'"
    and "\<And>kd'. kd' \<noteq> kd \<Longrightarrow> kind_entries cd p' kd' = kind_entries cd p kd'"
    and "map_of (rev (kind_entries cd p' kd)) = (map_of (rev (kind_entries cd p kd)))(k := v)"
  shows "writes cd U p k v"
  using project_one_kind [OF assms(1,4,5)] assms(1-3) by (auto simp: apply_record_def)

section \<open>Stores kept by record key\<close>

lemma case_prod_entries: "(\<lambda>(i, x). entry_of (f i) (g i x)) = (\<lambda>e. entry_of (f (fst e)) (case e of (i, x) \<Rightarrow> g i x))"
  by auto

lemma distinct_filter_keys: "distinct (map fst m) \<Longrightarrow> distinct (map fst (filter q m))"
  by (simp add: distinct_map_filter)

lemma update_keys: "fst ` set (AList.update i x m) = insert i (fst ` set m)"
  by (simp add: dom_update)

lemma updated_cases: "e \<in> set (AList.update i x m) \<Longrightarrow> e = (i, x) \<or> e \<in> set m"
  by (induction m) (auto split: if_splits)

lemma persona_writes:
  assumes ok: "parts_ok cd U p" "codec_ok cd U" and k: "of_key k = Some SyncPersona" and g: "good_change cd U k v"
  shows "writes cd U p k v"
proof (cases v)
  case None
  show ?thesis
  proof (rule writesI [OF k])
    show "apply_kind cd SyncPersona p k v = Inr (p\<lparr>sp_account := (sp_account p)\<lparr>ac_personas :=
        filter (\<lambda>e. persona_sync_key cd (snd e) \<noteq> k) (ac_personas (sp_account p))\<rparr>\<rparr>)" (is "_ = Inr ?p")
      by (simp add: None case_prod_unfold)
    show "parts_ok cd U ?p" using ok(1) by (auto simp: parts_ok_def distinct_filter_keys)
    show "kind_entries cd ?p kd' = kind_entries cd p kd'" if "kd' \<noteq> SyncPersona" for kd'
      using that by (cases kd') (simp_all add: member_entries_def memberships_def)
    show "map_of (rev (kind_entries cd ?p SyncPersona)) = (map_of (rev (kind_entries cd p SyncPersona)))(k := v)"
      unfolding None by (simp add: persona_entries_def case_prod_unfold entries_dropped)
  qed
next
  case (Some x)
  with g k obtain r where r: "dec_persona cd x = Inr r" "enc_persona cd r = Some x" "persona_sync_key cd r = k"
    by (auto simp: good_change_def)
  let ?f = "\<lambda>i. kind_prefix SyncPersona @ sy_uuid cd i" and ?m = "ac_personas (sp_account p)"
  let ?m' = "AList.update (pr_persona_id r) r ?m"
  have own: "persona_entries cd a = concat (map (\<lambda>e. entry_of (?f (fst e)) (enc_persona cd (snd e))) (ac_personas a))"
    if "\<forall>(i, r) \<in> set (ac_personas a). pr_persona_id r = i" for a
    unfolding persona_entries_def persona_sync_key_def
    using that by (intro arg_cong [of _ _ concat] map_cong) auto
  have ids: "\<forall>(i, r) \<in> set ?m'. pr_persona_id r = i"
    using ok(1) by (auto simp: parts_ok_def dest!: updated_cases)
  show ?thesis
  proof (rule writesI [OF k])
    show "apply_kind cd SyncPersona p k v = Inr (p\<lparr>sp_account := (sp_account p)\<lparr>ac_personas := ?m'\<rparr>\<rparr>)" (is "_ = Inr ?p")
      using r by (simp add: Some)
    show "parts_ok cd U ?p" using ok(1) ids by (simp add: parts_ok_def distinct_update)
    show "kind_entries cd ?p kd' = kind_entries cd p kd'" if "kd' \<noteq> SyncPersona" for kd'
      using that by (cases kd') (simp_all add: member_entries_def memberships_def)
    have "inj_on ?f (insert (pr_persona_id r) (fst ` set ?m))"
      using ok(2) by (auto simp: codec_ok_def inj_on_def)
    from map_entries_updated [OF _ this, of k "\<lambda>e. enc_persona cd (snd e)" r x] ok(1) r
    show "map_of (rev (kind_entries cd ?p SyncPersona)) = (map_of (rev (kind_entries cd p SyncPersona)))(k := v)"
      using own [of "sp_account p"] own [of "sp_account ?p"] ids
      by (simp add: Some parts_ok_def persona_sync_key_def)
  qed
qed


text \<open>Stores kept by an identifier that is hashed into the record key.\<close>

definition hashed_entries :: "sync_codec \<Rightarrow> record_kind \<Rightarrow> (string \<Rightarrow> 'a \<Rightarrow> json option) \<Rightarrow> (string \<times> 'a) list \<Rightarrow> (string \<times> json) list" where
  "hashed_entries cd kd rec m = concat (map (\<lambda>(i, x). entry_of (simple_key cd kd i) (rec i x)) m)"

lemma hashed_entries_simps:
  "relation_entries cd rs = hashed_entries cd SyncRelationship (relation_record cd) (rs_map rs)"
  "name_entries cd ns = hashed_entries cd SyncAgentName (name_record cd) ns"
  "key_entries cd ks = hashed_entries cd SyncKey (key_record cd) ks"
  by (simp_all add: hashed_entries_def relation_entries_def name_entries_def key_entries_def)

lemma hashed_updated:
  assumes "distinct (map fst m)" "insert i (fst ` set m) \<subseteq> U" "codec_ok cd U" "simple_key cd kd i = k" "rec i x = Some v"
  shows "map_of (rev (hashed_entries cd kd rec (AList.update i x m))) = (map_of (rev (hashed_entries cd kd rec m)))(k \<mapsto> v)"
proof -
  have "inj_on (simple_key cd kd) (insert i (fst ` set m))"
    using assms(2,3) unfolding codec_ok_def simple_key_def inj_on_def by blast
  from map_entries_updated [OF assms(1) this assms(4), of "\<lambda>e. rec (fst e) (snd e)" x v] assms(5)
  show ?thesis by (simp add: hashed_entries_def case_prod_unfold)
qed

lemma hashed_dropped:
  assumes "\<And>i x. rec i x \<noteq> None \<Longrightarrow> q i x \<longleftrightarrow> simple_key cd kd i \<noteq> k"
  shows "map_of (rev (hashed_entries cd kd rec (filter (\<lambda>(i, x). q i x) m))) = (map_of (rev (hashed_entries cd kd rec m)))(k := None)"
proof -
  have "hashed_entries cd kd rec (filter (\<lambda>(i, x). q i x) m) = hashed_entries cd kd rec (filter (\<lambda>e. simple_key cd kd (fst e) \<noteq> k) m)"
  proof (induction m)
    case (Cons e m)
    then show ?case using assms [of "fst e" "snd e"] by (cases "rec (fst e) (snd e)") (auto simp: hashed_entries_def)
  qed simp
  with entries_dropped [of "\<lambda>e. simple_key cd kd (fst e)" "\<lambda>e. rec (fst e) (snd e)" k m] show ?thesis
    by (simp add: hashed_entries_def case_prod_unfold)
qed

lemma relation_writes:
  assumes ok: "parts_ok cd U p" "codec_ok cd U" and k: "of_key k = Some SyncRelationship" and g: "good_change cd U k v"
  shows "writes cd U p k v"
proof (cases v)
  case None
  show ?thesis
  proof (rule writesI [OF k])
    let ?m = "filter (\<lambda>(did, _). simple_key cd SyncRelationship did \<noteq> k) (rs_map (sp_relationships p))"
    show "apply_kind cd SyncRelationship p k v = Inr (p\<lparr>sp_relationships := (sp_relationships p)\<lparr>rs_map := ?m\<rparr>\<rparr>)" (is "_ = Inr ?p")
      by (simp add: None)
    show "parts_ok cd U ?p" using ok(1) by (auto simp: parts_ok_def distinct_filter_keys)
    show "kind_entries cd ?p kd' = kind_entries cd p kd'" if "kd' \<noteq> SyncRelationship" for kd'
      using that by (cases kd') simp_all
    show "map_of (rev (kind_entries cd ?p SyncRelationship)) = (map_of (rev (kind_entries cd p SyncRelationship)))(k := v)"
      unfolding None kind_entries.simps hashed_entries_simps by (simp add: hashed_dropped)
  qed
next
  case (Some x)
  with g k obtain did y r where r: "x = JObject [(''pDid'', JString did), (''relationship'', y)]" "did \<in> U"
    "simple_key cd SyncRelationship did = k" "dec_relation cd y = Inr r" "enc_relation cd r = Some y"
    by (auto simp: good_change_def)
  show ?thesis
  proof (rule writesI [OF k])
    let ?m = "AList.update did r (rs_map (sp_relationships p))"
    show "apply_kind cd SyncRelationship p k v = Inr (p\<lparr>sp_relationships := (sp_relationships p)\<lparr>rs_map := ?m\<rparr>\<rparr>)" (is "_ = Inr ?p")
      using r by (simp add: Some str_field_def member_or_null_def)
    show "parts_ok cd U ?p" using ok(1) r by (auto simp: parts_ok_def distinct_update update_keys)
    show "kind_entries cd ?p kd' = kind_entries cd p kd'" if "kd' \<noteq> SyncRelationship" for kd'
      using that by (cases kd') simp_all
    show "map_of (rev (kind_entries cd ?p SyncRelationship)) = (map_of (rev (kind_entries cd p SyncRelationship)))(k := v)"
      using ok r by (simp add: Some hashed_entries_simps parts_ok_def hashed_updated [where U = U] relation_record_def)
  qed
qed


lemma name_writes:
  assumes ok: "parts_ok cd U p" "codec_ok cd U" and k: "of_key k = Some SyncAgentName" and g: "good_change cd U k v"
  shows "writes cd U p k v"
proof (cases v)
  case None
  show ?thesis
  proof (rule writesI [OF k])
    let ?m = "filter (\<lambda>(did, e). cn_name e = None \<or> simple_key cd SyncAgentName did \<noteq> k) (sp_agent_names p)"
    show "apply_kind cd SyncAgentName p k v = Inr (p\<lparr>sp_agent_names := ?m\<rparr>)" (is "_ = Inr ?p")
      by (simp add: None)
    show "parts_ok cd U ?p" using ok(1) by (auto simp: parts_ok_def distinct_filter_keys)
    show "kind_entries cd ?p kd' = kind_entries cd p kd'" if "kd' \<noteq> SyncAgentName" for kd'
      using that by (cases kd') simp_all
    have "cn_name e = None \<or> simple_key cd SyncAgentName i \<noteq> k \<longleftrightarrow> simple_key cd SyncAgentName i \<noteq> k"
      if "name_record cd i e \<noteq> None" for i e
      using that by (auto simp: name_record_def split: if_splits)
    then have "map_of (rev (hashed_entries cd SyncAgentName (name_record cd) ?m)) = (map_of (rev (hashed_entries cd SyncAgentName (name_record cd) (sp_agent_names p))))(k := None)"
      by (rule hashed_dropped)
    then show "map_of (rev (kind_entries cd ?p SyncAgentName)) = (map_of (rev (kind_entries cd p SyncAgentName)))(k := v)"
      by (simp add: None hashed_entries_simps)
  qed
next
  case (Some x)
  with g k obtain did y e where r: "x = JObject [(''did'', JString did), (''entry'', y)]" "did \<in> U"
    "simple_key cd SyncAgentName did = k" "dec_name cd y = Inr e" "enc_name cd e = Some y" "cn_name e \<noteq> None"
    by (auto simp: good_change_def)
  show ?thesis
  proof (rule writesI [OF k])
    let ?m = "AList.update did e (sp_agent_names p)"
    show "apply_kind cd SyncAgentName p k v = Inr (p\<lparr>sp_agent_names := ?m\<rparr>)" (is "_ = Inr ?p")
      using r by (simp add: Some str_field_def member_or_null_def)
    show "parts_ok cd U ?p" using ok(1) r by (auto simp: parts_ok_def distinct_update update_keys)
    show "kind_entries cd ?p kd' = kind_entries cd p kd'" if "kd' \<noteq> SyncAgentName" for kd'
      using that by (cases kd') simp_all
    show "map_of (rev (kind_entries cd ?p SyncAgentName)) = (map_of (rev (kind_entries cd p SyncAgentName)))(k := v)"
      using ok r by (simp add: Some hashed_entries_simps parts_ok_def hashed_updated [where U = U] name_record_def)
  qed
qed

lemma key_writes:
  assumes ok: "parts_ok cd U p" "codec_ok cd U" and k: "of_key k = Some SyncKey" and g: "good_change cd U k v"
  shows "writes cd U p k v"
proof (cases v)
  case None
  show ?thesis
  proof (rule writesI [OF k])
    let ?m = "filter (\<lambda>(name, i). \<not> is_vta_managed i \<or> simple_key cd SyncKey name \<noteq> k) (sp_key_info p)"
    show "apply_kind cd SyncKey p k v = Inr (p\<lparr>sp_key_info := ?m\<rparr>)" (is "_ = Inr ?p")
      by (simp add: None)
    show "parts_ok cd U ?p" using ok(1) by (auto simp: parts_ok_def distinct_filter_keys)
    show "kind_entries cd ?p kd' = kind_entries cd p kd'" if "kd' \<noteq> SyncKey" for kd'
      using that by (cases kd') simp_all
    have "\<not> is_vta_managed i \<or> simple_key cd SyncKey name \<noteq> k \<longleftrightarrow> simple_key cd SyncKey name \<noteq> k"
      if "key_record cd name i \<noteq> None" for name i
      using that by (auto simp: key_record_def simp del: is_vta_managed.simps split: if_splits)
    then have "map_of (rev (hashed_entries cd SyncKey (key_record cd) ?m)) = (map_of (rev (hashed_entries cd SyncKey (key_record cd) (sp_key_info p))))(k := None)"
      by (rule hashed_dropped)
    then show "map_of (rev (kind_entries cd ?p SyncKey)) = (map_of (rev (kind_entries cd p SyncKey)))(k := v)"
      by (simp add: None hashed_entries_simps del: is_vta_managed.simps)
  qed
next
  case (Some x)
  with g k obtain name y i where r: "x = JObject [(''info'', y), (''name'', JString name)]" "name \<in> U"
    "simple_key cd SyncKey name = k" "dec_key cd y = Inr i" "enc_key cd i = Some y" "is_vta_managed i"
    by (auto simp: good_change_def simp del: is_vta_managed.simps)
  show ?thesis
  proof (rule writesI [OF k])
    let ?m = "AList.update name i (sp_key_info p)"
    show "apply_kind cd SyncKey p k v = Inr (p\<lparr>sp_key_info := ?m\<rparr>)" (is "_ = Inr ?p")
      using r by (simp add: Some str_field_def member_or_null_def del: is_vta_managed.simps)
    show "parts_ok cd U ?p" using ok(1) r by (auto simp: parts_ok_def distinct_update update_keys)
    show "kind_entries cd ?p kd' = kind_entries cd p kd'" if "kd' \<noteq> SyncKey" for kd'
      using that by (cases kd') simp_all
    show "map_of (rev (kind_entries cd ?p SyncKey)) = (map_of (rev (kind_entries cd p SyncKey)))(k := v)"
      using ok r by (simp add: Some hashed_entries_simps parts_ok_def hashed_updated [where U = U] key_record_def del: is_vta_managed.simps)
  qed
qed


lemma filter_put: "f i = k \<Longrightarrow> filter (\<lambda>e. f (fst e) \<noteq> k) (put i x m) = filter (\<lambda>e. f (fst e) \<noteq> k) m"
  by (induction m) auto

lemma tsp_entries_hashed:
  "tsp_entries cd m = concat (map (\<lambda>e. entry_of (simple_key cd SyncTsp (fst e))
     (Some (JObject [(''key'', JString (fst e)), (''value'', JString (snd e))]))) m)"
  by (induction m) (auto simp: tsp_entries_def)

lemma tsp_writes:
  assumes ok: "parts_ok cd U p" "codec_ok cd U" and k: "of_key k = Some SyncTsp" and g: "good_change cd U k v"
  shows "writes cd U p k v"
proof (cases v)
  case None
  show ?thesis
  proof (rule writesI [OF k])
    let ?m = "filter (\<lambda>e. simple_key cd SyncTsp (fst e) \<noteq> k) (sp_tsp p)"
    show "apply_kind cd SyncTsp p k v = Inr (p\<lparr>sp_tsp := ?m\<rparr>)" (is "_ = Inr ?p")
      by (simp add: None case_prod_unfold)
    have "in_order ?m" using ok(1) by (simp add: parts_ok_def in_order_def sorted_wrt_map sorted_wrt_filter)
    with ok(1) show "parts_ok cd U ?p" by (auto simp: parts_ok_def)
    show "kind_entries cd ?p kd' = kind_entries cd p kd'" if "kd' \<noteq> SyncTsp" for kd'
      using that by (cases kd') simp_all
    have "map_of (rev (tsp_entries cd ?m)) = (map_of (rev (tsp_entries cd (sp_tsp p))))(k := None)"
      unfolding tsp_entries_hashed by (rule entries_dropped)
    then show "map_of (rev (kind_entries cd ?p SyncTsp)) = (map_of (rev (kind_entries cd p SyncTsp)))(k := v)"
      by (simp add: None)
  qed
next
  case (Some x)
  with g k obtain i row where r: "x = JObject [(''key'', JString i), (''value'', JString row)]" "i \<in> U"
    "simple_key cd SyncTsp i = k"
    by (auto simp: good_change_def)
  have m: "in_order (sp_tsp p)" "insert i (fst ` set (sp_tsp p)) \<subseteq> U"
    using ok(1) r(2) by (simp_all add: parts_ok_def)
  have only: "e = (i, row)" if "e \<in> set (put i row (sp_tsp p))" "simple_key cd SyncTsp (fst e) = k" for e
  proof -
    have "fst e \<in> insert i (fst ` set (sp_tsp p))" using that(1) keys_put [of i row "sp_tsp p"] by (metis image_eqI)
    with that(2) r(3) m(2) ok(2) have "fst e = i" unfolding codec_ok_def simple_key_def inj_on_def by blast
    moreover have "map_of (put i row (sp_tsp p)) (fst e) = Some (snd e)"
      using that(1) map_of_in_order_mem [OF in_order_put [OF m(1)]] by (metis prod.collapse)
    ultimately show ?thesis by (simp add: prod_eq_iff)
  qed
  show ?thesis
  proof (rule writesI [OF k])
    show "apply_kind cd SyncTsp p k v = Inr (p\<lparr>sp_tsp := put i row (sp_tsp p)\<rparr>)" (is "_ = Inr ?p")
      using r by (simp add: Some str_field_def)
    show "parts_ok cd U ?p" using ok(1) r m by (auto simp: parts_ok_def in_order_put)
    show "kind_entries cd ?p kd' = kind_entries cd p kd'" if "kd' \<noteq> SyncTsp" for kd'
      using that by (cases kd') simp_all
    have "\<exists>e \<in> set (put i row (sp_tsp p)). simple_key cd SyncTsp (fst e) = k"
      using r(3) keys_put [of i row "sp_tsp p"] by (metis imageE insertI1)
    then have "map_of (rev (tsp_entries cd (put i row (sp_tsp p)))) = (map_of (rev (tsp_entries cd (sp_tsp p))))(k \<mapsto> x)"
      unfolding tsp_entries_hashed using only r(1)
      by (intro entries_replaced filter_put [where f = "simple_key cd SyncTsp", OF r(3)]) auto
    then show "map_of (rev (kind_entries cd ?p SyncTsp)) = (map_of (rev (kind_entries cd p SyncTsp)))(k := v)"
      by (simp add: Some)
  qed
qed

section \<open>Stores searched for the record key\<close>

lemma filter_memberships_update:
  "map_of cs i = Some l \<Longrightarrow> \<not> q m \<Longrightarrow>
     filter q (concat (map snd (AList.update i (l @ [m]) cs))) = filter q (concat (map snd cs))"
  by (induction cs) auto

lemma filter_memberships_pushed: "\<not> q m \<Longrightarrow> filter q (concat (map snd (push_member m cs))) = filter q (concat (map snd cs))"
proof (cases "map_of cs (cr_vtc_did m)")
  case None
  then have "AList.update (cr_vtc_did m) [m] cs = cs @ [(cr_vtc_did m, [m])]"
    by (induction cs) (auto split: if_splits)
  then show "\<not> q m \<Longrightarrow> ?thesis" using None by (simp add: push_member_def)
qed (simp add: push_member_def filter_memberships_update)

lemma set_memberships_pushed: "set (concat (map snd (push_member m cs))) \<subseteq> insert m (set (concat (map snd cs)))"
proof (cases "map_of cs (cr_vtc_did m)")
  case None
  then show ?thesis by (auto simp: push_member_def dest!: updated_cases)
next
  case (Some l)
  then have "(cr_vtc_did m, l) \<in> set cs" by (rule map_of_SomeD)
  with Some show ?thesis by (fastforce simp: push_member_def dest!: updated_cases)
qed

lemma pushed_mem: "m \<in> set (concat (map snd (push_member m cs)))"
  unfolding push_member_def using updated_mem [of "cr_vtc_did m" _ cs] by force

lemma concat_nonempty: "concat (map snd (filter (\<lambda>(_, l). l \<noteq> []) cs)) = concat (map snd cs)"
  by (induction cs) auto

lemma concat_retained: "concat (map snd (map (\<lambda>(i, l). (i, filter q l)) cs)) = filter q (concat (map snd cs))"
  by (induction cs) auto

lemma member_writes:
  assumes ok: "parts_ok cd U p" "codec_ok cd U" and k: "of_key k = Some SyncMembership" and g: "good_change cd U k v"
  shows "writes cd U p k v"
proof -
  define kept where "kept = map (\<lambda>(vtc, l). (vtc, filter (\<lambda>m. member_sync_key cd m \<noteq> k) l)) (ac_communities (sp_account p))"
  have kept: "concat (map snd kept) = filter (\<lambda>m. member_sync_key cd m \<noteq> k) (memberships (sp_account p))"
    unfolding kept_def memberships_def by (rule concat_retained)
  have result: "writes cd U p k v"
    if "apply_kind cd SyncMembership p k v = Inr (p\<lparr>sp_account := (sp_account p)\<lparr>ac_communities := filter (\<lambda>(_, l). l \<noteq> []) cs\<rparr>\<rparr>)"
      "map_of (rev (concat (map (\<lambda>m. entry_of (member_sync_key cd m) (enc_member cd m)) (concat (map snd cs))))) =
        (map_of (rev (member_entries cd (sp_account p))))(k := v)" for cs
  proof (rule writesI [OF k that(1)])
    let ?p = "p\<lparr>sp_account := (sp_account p)\<lparr>ac_communities := filter (\<lambda>(_, l). l \<noteq> []) cs\<rparr>\<rparr>"
    show "parts_ok cd U ?p" using ok(1) by (simp add: parts_ok_def)
    show "kind_entries cd ?p kd' = kind_entries cd p kd'" if "kd' \<noteq> SyncMembership" for kd'
      using that by (cases kd') (simp_all add: persona_entries_def)
    show "map_of (rev (kind_entries cd ?p SyncMembership)) = (map_of (rev (kind_entries cd p SyncMembership)))(k := v)"
      using that(2) by (simp add: member_entries_def memberships_def concat_nonempty)
  qed
  show ?thesis
  proof (cases v)
    case None
    show ?thesis
      by (rule result [of kept])
        (simp_all add: None decoded_def kept_def [symmetric] kept member_entries_def entries_dropped)
  next
    case (Some x)
    with g k obtain m where m: "dec_member cd x = Inr m" "enc_member cd m = Some x" "member_sync_key cd m = k"
      by (auto simp: good_change_def)
    show ?thesis
    proof (rule result [of "push_member m kept"])
      show "apply_kind cd SyncMembership p k v =
          Inr (p\<lparr>sp_account := (sp_account p)\<lparr>ac_communities := filter (\<lambda>(_, l). l \<noteq> []) (push_member m kept)\<rparr>\<rparr>)"
        using m by (simp add: Some decoded_def kept_def Let_def)
      have "m' = m" if "m' \<in> set (concat (map snd (push_member m kept)))" "member_sync_key cd m' = k" for m'
        using subsetD [OF set_memberships_pushed that(1)] that(2) unfolding kept by auto
      then show "map_of (rev (concat (map (\<lambda>m. entry_of (member_sync_key cd m) (enc_member cd m)) (concat (map snd (push_member m kept)))))) =
          (map_of (rev (member_entries cd (sp_account p))))(k := v)"
        unfolding member_entries_def Some
        using m pushed_mem [of m kept]
        by (intro entries_replaced) (auto simp: filter_memberships_pushed kept simp del: set_concat)
    qed
  qed
qed


lemma update_absent: "i \<notin> fst ` set m \<Longrightarrow> AList.update i x m = m @ [(i, x)]"
  by (induction m) auto

lemma contact_writes:
  assumes ok: "parts_ok cd U p" "codec_ok cd U" and k: "of_key k = Some SyncContact" and g: "good_change cd U k v"
  shows "writes cd U p k v"
proof -
  let ?f = "\<lambda>e. simple_key cd SyncContact (co_did (snd e))" and ?cs = "sp_contacts p"
  define kept where "kept = filter (\<lambda>e. ?f e \<noteq> k) ?cs"
  have own: "\<forall>(i, c) \<in> set ?cs. co_did c = i" using ok(1) by (simp add: parts_ok_def)
  have put_kept: "put_contact cd k c ?cs = (case c of None \<Rightarrow> kept | Some c \<Rightarrow> AList.update (co_did c) c kept)" for c
  proof -
    have "filter (\<lambda>(did, _). simple_key cd SyncContact did \<noteq> k) ?cs = kept"
      unfolding kept_def using own by (intro filter_cong) auto
    then show ?thesis by (simp add: put_contact_def)
  qed
  have entries: "contact_entries cd cs = concat (map (\<lambda>e. entry_of (?f e) (enc_contact cd (snd e))) cs)" for cs
    by (simp add: contact_entries_def case_prod_unfold)
  have result: "writes cd U p k v"
    if "apply_kind cd SyncContact p k v = Inr (p\<lparr>sp_contacts := cs, sp_aliases := aliases_of cs\<rparr>)"
      "\<forall>(i, c) \<in> set cs. co_did c = i"
      "map_of (rev (contact_entries cd cs)) = (map_of (rev (contact_entries cd ?cs)))(k := v)" for cs
  proof (rule writesI [OF k that(1)])
    let ?p = "p\<lparr>sp_contacts := cs, sp_aliases := aliases_of cs\<rparr>"
    show "parts_ok cd U ?p" using ok(1) that(2) by (simp add: parts_ok_def)
    show "kind_entries cd ?p kd' = kind_entries cd p kd'" if "kd' \<noteq> SyncContact" for kd'
      using that by (cases kd') simp_all
    show "map_of (rev (kind_entries cd ?p SyncContact)) = (map_of (rev (kind_entries cd p SyncContact)))(k := v)"
      using that(3) by simp
  qed
  show ?thesis
  proof (cases v)
    case None
    show ?thesis
    proof (rule result [of kept])
      show "apply_kind cd SyncContact p k v = Inr (p\<lparr>sp_contacts := kept, sp_aliases := aliases_of kept\<rparr>)"
        by (simp add: None decoded_def put_kept)
      show "\<forall>(i, c) \<in> set kept. co_did c = i" using own by (auto simp: kept_def)
      show "map_of (rev (contact_entries cd kept)) = (map_of (rev (contact_entries cd ?cs)))(k := v)"
        unfolding None entries kept_def by (rule entries_dropped)
    qed
  next
    case (Some x)
    with g k obtain c where c: "dec_contact cd x = Inr c" "enc_contact cd c = Some x" "simple_key cd SyncContact (co_did c) = k"
      by (auto simp: good_change_def)
    have new: "AList.update (co_did c) c kept = kept @ [(co_did c, c)]"
      using own c(3) by (intro update_absent) (auto simp: kept_def)
    show ?thesis
    proof (rule result [of "kept @ [(co_did c, c)]"])
      show "apply_kind cd SyncContact p k v = Inr (p\<lparr>sp_contacts := kept @ [(co_did c, c)], sp_aliases := aliases_of (kept @ [(co_did c, c)])\<rparr>)"
        using c by (simp add: Some decoded_def put_kept new Let_def)
      show "\<forall>(i, c) \<in> set (kept @ [(co_did c, c)]). co_did c = i" using own by (auto simp: kept_def)
      show "map_of (rev (contact_entries cd (kept @ [(co_did c, c)]))) = (map_of (rev (contact_entries cd ?cs)))(k := v)"
        unfolding Some entries using c by (intro entries_replaced) (auto simp: kept_def)
    qed
  qed
qed

lemma filter_insert_witness: "\<not> q r \<Longrightarrow> filter q (insert_witness r ws) = filter q ws"
  unfolding insert_witness_def by (metis filter.simps(2) filter_append takeWhile_dropWhile_id)

lemma set_insert_witness: "set (insert_witness r ws) = insert r (set ws)"
  unfolding insert_witness_def by (metis Un_insert_right list.simps(15) set_append takeWhile_dropWhile_id)

lemma witness_entries_eq: "witness_entries cd ws = concat (map (\<lambda>r. entry_of (witnessing_key cd r) (enc_witness cd r)) ws)"
  by (induction ws) (auto simp: witness_entries_def witnessing_record_def entry_of_def split: option.split)

lemma witness_writes:
  assumes ok: "parts_ok cd U p" "codec_ok cd U" and k: "of_key k = Some SyncWitnessing" and g: "good_change cd U k v"
  shows "writes cd U p k v"
proof -
  define kept where "kept = filter (\<lambda>r. witnessing_key cd r \<noteq> k) (sp_witnessings p)"
  have result: "writes cd U p k v"
    if "apply_kind cd SyncWitnessing p k v = Inr (p\<lparr>sp_witnessings := ws\<rparr>)"
      "map_of (rev (witness_entries cd ws)) = (map_of (rev (witness_entries cd (sp_witnessings p))))(k := v)" for ws
  proof (rule writesI [OF k that(1)])
    let ?p = "p\<lparr>sp_witnessings := ws\<rparr>"
    show "parts_ok cd U ?p" using ok(1) by (simp add: parts_ok_def)
    show "kind_entries cd ?p kd' = kind_entries cd p kd'" if "kd' \<noteq> SyncWitnessing" for kd'
      using that by (cases kd') simp_all
    show "map_of (rev (kind_entries cd ?p SyncWitnessing)) = (map_of (rev (kind_entries cd p SyncWitnessing)))(k := v)"
      using that(2) by simp
  qed
  show ?thesis
  proof (cases v)
    case None
    show ?thesis
    proof (rule result [of kept])
      show "apply_kind cd SyncWitnessing p k v = Inr (p\<lparr>sp_witnessings := kept\<rparr>)"
        by (simp add: None decoded_def kept_def)
      show "map_of (rev (witness_entries cd kept)) = (map_of (rev (witness_entries cd (sp_witnessings p))))(k := v)"
        unfolding None witness_entries_eq kept_def by (rule entries_dropped)
    qed
  next
    case (Some x)
    with g k obtain r where r: "dec_witness cd x = Inr r" "enc_witness cd r = Some x" "witnessing_key cd r = k"
      by (auto simp: good_change_def)
    show ?thesis
    proof (rule result [of "insert_witness r kept"])
      show "apply_kind cd SyncWitnessing p k v = Inr (p\<lparr>sp_witnessings := insert_witness r kept\<rparr>)"
        using r by (simp add: Some decoded_def kept_def)
      show "map_of (rev (witness_entries cd (insert_witness r kept))) = (map_of (rev (witness_entries cd (sp_witnessings p))))(k := v)"
        unfolding Some witness_entries_eq using r
        by (intro entries_replaced) (auto simp: filter_insert_witness set_insert_witness kept_def)
    qed
  qed
qed

lemma vetting_writes:
  assumes ok: "parts_ok cd U p" and k: "of_key k = Some SyncVetting" and g: "good_change cd U k v"
  shows "writes cd U p k v"
proof -
  from g k obtain b where b: "k = kind_prefix SyncVetting" "\<forall>here. vetting_json cd (keep_local here b) = v"
    "(case v of None \<Rightarrow> Inr (empty_book (sy_policy cd)) | Some x \<Rightarrow> dec_book cd x) = Inr b"
    by (cases v) (auto simp: good_change_def)
  show ?thesis
  proof (rule writesI [OF k])
    show "apply_kind cd SyncVetting p k v = Inr (p\<lparr>sp_vetting := keep_local (sp_vetting p) b\<rparr>)" (is "_ = Inr ?p")
      using b(3) by simp
    show "parts_ok cd U ?p" using ok by (simp add: parts_ok_def)
    show "kind_entries cd ?p kd' = kind_entries cd p kd'" if "kd' \<noteq> SyncVetting" for kd'
      using that by (cases kd') simp_all
    show "map_of (rev (kind_entries cd ?p SyncVetting)) = (map_of (rev (kind_entries cd p SyncVetting)))(k := v)"
      using b by (cases v; cases "vetting_json cd (sp_vetting p)") (auto simp: fun_eq_iff)
  qed
qed


section \<open>Stores of credentials\<close>

definition held :: "(string \<times> (string \<times> 'a) list) list \<Rightarrow> (string \<times> string \<times> 'a) set" where
  "held stores = {(remote, i, c). \<exists>by_id. (remote, by_id) \<in> set stores \<and> (i, c) \<in> set by_id}"

lemma vrc_key_inj:
  assumes "codec_ok cd U" "remote \<in> U" "i \<in> U" "remote' \<in> U" "i' \<in> U"
    and "vrc_sync_key cd kd remote i = vrc_sync_key cd kd remote' i'"
  shows "remote = remote' \<and> i = i'"
proof -
  have "length (key_segment cd remote) = 32" "length (key_segment cd remote') = 32"
    using assms(1,2,4) by (simp_all add: codec_ok_def key_segment_def)
  with assms(6) have "key_segment cd remote = key_segment cd remote'" "key_segment cd i = key_segment cd i'"
    by (simp_all add: vrc_sync_key_def)
  with assms(1-5) show ?thesis by (auto simp: codec_ok_def inj_on_def)
qed

lemma held_unique:
  "vrcs_ok cd U vs \<Longrightarrow> (remote, i, c) \<in> held (vr_vrcs vs) \<Longrightarrow> (remote, i, c') \<in> held (vr_vrcs vs) \<Longrightarrow> c = c'"
proof -
  assume a: "vrcs_ok cd U vs" "(remote, i, c) \<in> held (vr_vrcs vs)" "(remote, i, c') \<in> held (vr_vrcs vs)"
  then obtain b b' where b: "(remote, b) \<in> set (vr_vrcs vs)" "(i, c) \<in> set b" "(remote, b') \<in> set (vr_vrcs vs)" "(i, c') \<in> set b'"
    by (auto simp: held_def)
  with a(1) have "b = b'" unfolding vrcs_ok_def using eq_key_imp_eq_value by fastforce
  moreover have "distinct (map fst b)" using a(1) b(1) by (auto simp: vrcs_ok_def)
  ultimately show "c = c'" using b eq_key_imp_eq_value by fastforce
qed

lemma held_ok:
  "vrcs_ok cd U vs \<Longrightarrow> (remote, i, c) \<in> held (vr_vrcs vs) \<Longrightarrow> remote \<in> U \<and> i \<in> U \<and> dec_vrc cd (enc_vrc cd c) = Inr c"
  by (fastforce simp: vrcs_ok_def held_def)

lemma set_vrc_entries:
  "e \<in> set (vrc_entries cd kd vs) \<longleftrightarrow>
     (\<exists>remote i c. (remote, i, c) \<in> held (vr_vrcs vs) \<and> e = (vrc_sync_key cd kd remote i, vrc_value cd remote i c))"
  by (fastforce simp: vrc_entries_def held_def)

lemma vrc_lookup:
  assumes "vrcs_ok cd U vs" "codec_ok cd U"
  shows "map_of (rev (vrc_entries cd kd vs)) k = Some v \<longleftrightarrow>
    (\<exists>remote i c. (remote, i, c) \<in> held (vr_vrcs vs) \<and> k = vrc_sync_key cd kd remote i \<and> v = vrc_value cd remote i c)"
    (is "?l \<longleftrightarrow> ?r")
proof
  assume ?l
  then have "(k, v) \<in> set (vrc_entries cd kd vs)" using map_of_SomeD by fastforce
  then show ?r by (auto simp: set_vrc_entries)
next
  assume ?r
  then obtain remote i c where c: "(remote, i, c) \<in> held (vr_vrcs vs)" "k = vrc_sync_key cd kd remote i" "v = vrc_value cd remote i c"
    by blast
  then have "(k, v) \<in> set (rev (vrc_entries cd kd vs))" by (auto simp: set_vrc_entries)
  then obtain v' where v': "map_of (rev (vrc_entries cd kd vs)) k = Some v'"
    by (metis weak_map_of_SomeI)
  then have "(k, v') \<in> set (vrc_entries cd kd vs)" using map_of_SomeD by fastforce
  then obtain remote' i' c' where c': "(remote', i', c') \<in> held (vr_vrcs vs)" "k = vrc_sync_key cd kd remote' i'"
    "v' = vrc_value cd remote' i' c'"
    by (auto simp: set_vrc_entries)
  from held_ok [OF assms(1) c(1)] held_ok [OF assms(1) c'(1)] c(2) c'(2) vrc_key_inj [OF assms(2)]
  have "remote = remote'" "i = i'" by metis+
  with held_unique [OF assms(1)] c c' v' show ?l by auto
qed

lemma set_put_all: "distinct (map fst es) \<Longrightarrow> set (put_all es []) = set es"
proof -
  assume d: "distinct (map fst es)"
  have "map_of (put_all es []) = map_of es"
    using d by (simp add: map_of_put_all map_of_inject_set rev_map [symmetric])
  moreover have "in_order (put_all es [])" by (simp add: in_order_put_all)
  ultimately show ?thesis using d in_order_distinct by (metis map_of_eq_Some_iff subset_antisym subrelI)
qed

lemma put_all_map: "put_all (map (\<lambda>(k, v). (k, f v)) es) (map (\<lambda>(k, v). (k, f v)) m) = map (\<lambda>(k, v). (k, f v)) (put_all es m)"
proof (induction es arbitrary: m)
  case (Cons e es)
  have "put k (f v) (map (\<lambda>(k, v). (k, f v)) m) = map (\<lambda>(k, v). (k, f v)) (put k v m)" for k v
    by (induction m) auto
  with Cons [of "put (fst e) (snd e) m"] show ?case by (cases e) (simp add: put_all_def)
qed (simp add: put_all_def)


text \<open>A store as JSON, and read back.\<close>

definition vrc_stores :: "sync_codec \<Rightarrow> vrcs \<Rightarrow> (string \<times> (string \<times> json) list) list" where
  "vrc_stores cd vs =
     put_all (map (\<lambda>(remote, by_id). (remote, put_all (map (\<lambda>(i, c). (i, enc_vrc cd c)) by_id) [])) (vr_vrcs vs)) []"

lemma enc_vrcs_members:
  "map_of (members (Some (enc_vrcs cd vs))) ''vrcs'' = Some (JObject (map (\<lambda>(remote, m). (remote, JObject m)) (vrc_stores cd vs)))"
  "raw_retired (map_of (members (Some (enc_vrcs cd vs))) ''retired'') = Inr (vr_retired vs)"
proof -
  have "map (\<lambda>(remote, m). (remote, JObject m)) (vrc_stores cd vs) =
      put_all (map (\<lambda>(remote, by_id). (remote, JObject (put_all (map (\<lambda>(i, c). (i, enc_vrc cd c)) by_id) []))) (vr_vrcs vs)) []"
    using put_all_map [of JObject "map (\<lambda>(remote, by_id). (remote, put_all (map (\<lambda>(i, c). (i, enc_vrc cd c)) by_id) [])) (vr_vrcs vs)" "[]"]
    by (simp add: vrc_stores_def comp_def case_prod_unfold)
  then show "map_of (members (Some (enc_vrcs cd vs))) ''vrcs'' = Some (JObject (map (\<lambda>(remote, m). (remote, JObject m)) (vrc_stores cd vs)))"
    "raw_retired (map_of (members (Some (enc_vrcs cd vs))) ''retired'') = Inr (vr_retired vs)"
    by (simp_all add: enc_vrcs_def)
qed

definition store_keys_ok :: "(string \<times> (string \<times> json) list) list \<Rightarrow> bool" where
  "store_keys_ok stores \<longleftrightarrow> in_order stores \<and> (\<forall>(remote, m) \<in> set stores. in_order m)"

lemma vrc_stores_ok: "store_keys_ok (vrc_stores cd vs)"
proof -
  have kept: "\<forall>(remote, m) \<in> set (put_all es st). in_order m"
    if "\<forall>(remote, m) \<in> set es. in_order m" "\<forall>(remote, m) \<in> set st. in_order m"
    for es st :: "(string \<times> (string \<times> json) list) list"
    using that
  proof (induction es arbitrary: st)
    case (Cons e es)
    have "set (put (fst e) (snd e) st) \<subseteq> insert e (set st)" by (induction st) auto
    with Cons.prems have "\<forall>(remote, m) \<in> set (put (fst e) (snd e) st). in_order m" by fastforce
    with Cons show ?case by (cases e) (simp add: put_all_def)
  qed (simp add: put_all_def)
  have "\<forall>(remote, m) \<in> set (map (\<lambda>(remote, by_id). (remote, put_all (map (\<lambda>(i, c). (i, enc_vrc cd c)) by_id) [])) (vr_vrcs vs)). in_order m"
    by (auto simp: in_order_put_all)
  from kept [OF this, of "[]"] show ?thesis unfolding store_keys_ok_def vrc_stores_def by (simp add: in_order_put_all)
qed

lemma held_vrc_stores:
  assumes "vrcs_ok cd U vs"
  shows "held (vrc_stores cd vs) = {(remote, i, enc_vrc cd c) | remote i c. (remote, i, c) \<in> held (vr_vrcs vs)}"
proof -
  let ?enc = "\<lambda>by_id. put_all (map (\<lambda>(i, c). (i, enc_vrc cd c)) by_id) []"
  have "set (vrc_stores cd vs) = (\<lambda>(remote, by_id). (remote, ?enc by_id)) ` set (vr_vrcs vs)"
    unfolding vrc_stores_def using assms by (subst set_put_all) (simp_all add: vrcs_ok_def comp_def case_prod_unfold)
  moreover have "set (?enc by_id) = (\<lambda>(i, c). (i, enc_vrc cd c)) ` set by_id" if "(remote, by_id) \<in> set (vr_vrcs vs)" for remote by_id
    using assms that by (subst set_put_all) (auto simp: vrcs_ok_def comp_def case_prod_unfold)
  ultimately show ?thesis unfolding held_def by fastforce
qed

lemma collect_objects:
  "collect_results (\<lambda>(remote, y). rbind (ok_or e (jobject y)) (\<lambda>by_id. Inr (remote, by_id))) (map (\<lambda>(remote, m). (remote, JObject m)) stores)
     = Inr stores"
  by (induction stores) auto

lemma dec_vrcs_stores:
  assumes "map_of ms ''vrcs'' = Some (JObject (map (\<lambda>(remote, m). (remote, JObject m)) stores))" "raw_retired (map_of ms ''retired'') = Inr n"
  shows "\<exists>retired. dec_vrcs cd (JObject ms) =
     Inr \<lparr>vr_vrcs = filter (\<lambda>(_, by_id). by_id \<noteq> []) (map (\<lambda>(remote, by_id). (remote, readable_vrcs cd by_id)) stores), vr_retired = retired\<rparr>"
  using assms by (simp add: dec_vrcs_def raw_stores_def collect_objects)

lemma readable_mem: "(i, c) \<in> set (readable_vrcs cd m) \<longleftrightarrow> (\<exists>x. (i, x) \<in> set m \<and> dec_vrc cd x = Inr c)"
  by (force simp: readable_vrcs_def split: sum.splits)

lemma held_readable:
  "held (filter (\<lambda>(_, by_id). by_id \<noteq> []) (map (\<lambda>(remote, by_id). (remote, readable_vrcs cd by_id)) stores)) =
     {(remote, i, c) | remote i c. \<exists>x. (remote, i, x) \<in> held stores \<and> dec_vrc cd x = Inr c}"
proof -
  have "(remote, i, c) \<in> held (filter (\<lambda>(_, by_id). by_id \<noteq> []) (map (\<lambda>(remote, by_id). (remote, readable_vrcs cd by_id)) stores))
      \<longleftrightarrow> (\<exists>m. (remote, m) \<in> set stores \<and> (i, c) \<in> set (readable_vrcs cd m))" for remote i c
    unfolding held_def by force
  then show ?thesis by (auto simp: readable_mem held_def) blast+
qed

lemma readable_keys: "fst ` set (readable_vrcs cd m) \<subseteq> fst ` set m" "distinct (map fst m) \<Longrightarrow> distinct (map fst (readable_vrcs cd m))"
proof -
  show sub: "fst ` set (readable_vrcs cd m) \<subseteq> fst ` set m" for m using readable_mem [of _ _ cd m] by force
  show "distinct (map fst m) \<Longrightarrow> distinct (map fst (readable_vrcs cd m))"
  proof (induction m)
    case (Cons e m)
    have "readable_vrcs cd (e # m) = (case dec_vrc cd (snd e) of Inl _ \<Rightarrow> [] | Inr c \<Rightarrow> [(fst e, c)]) @ readable_vrcs cd m"
      by (simp add: readable_vrcs_def case_prod_unfold)
    with sub [of m] Cons show ?case by (auto split: sum.splits)
  qed (simp add: readable_vrcs_def)
qed


abbreviation as_objects :: "(string \<times> (string \<times> json) list) list \<Rightarrow> (string \<times> json) list" where
  "as_objects stores \<equiv> map (\<lambda>(remote, m). (remote, JObject m)) stores"

lemma vrcs_okI:
  assumes "store_keys_ok stores"
    and "vr_vrcs vs = filter (\<lambda>(_, by_id). by_id \<noteq> []) (map (\<lambda>(remote, by_id). (remote, readable_vrcs cd by_id)) stores)"
    and "\<And>remote i c. (remote, i, c) \<in> held (vr_vrcs vs) \<Longrightarrow> remote \<in> U \<and> i \<in> U \<and> dec_vrc cd (enc_vrc cd c) = Inr c"
  shows "vrcs_ok cd U vs"
proof -
  have "map fst (map (\<lambda>(remote, by_id). (remote, readable_vrcs cd by_id)) stores) = map fst stores" by auto
  moreover have "distinct (map fst stores)" using assms(1) by (simp add: store_keys_ok_def in_order_distinct)
  ultimately have "distinct (map fst (vr_vrcs vs))" unfolding assms(2) by (metis distinct_filter_keys)
  moreover have "distinct (map fst by_id)" if "(remote, by_id) \<in> set (vr_vrcs vs)" for remote by_id
  proof -
    from that obtain m where m: "(remote, m) \<in> set stores" "by_id = readable_vrcs cd m" unfolding assms(2) by auto
    with assms(1) have "distinct (map fst m)" by (auto simp: store_keys_ok_def intro: in_order_distinct)
    with m(2) show ?thesis by (simp add: readable_keys(2))
  qed
  moreover have "(remote, i, c) \<in> held (vr_vrcs vs)" if "(remote, by_id) \<in> set (vr_vrcs vs)" "(i, c) \<in> set by_id" for remote by_id i c
    using that by (auto simp: held_def)
  ultimately show ?thesis using assms(3) unfolding vrcs_ok_def by blast
qed

text \<open>Reading back a store that was changed.\<close>

lemma store_decoded:
  assumes "store_keys_ok stores"
    and "\<And>remote i x. (remote, i, x) \<in> held stores \<Longrightarrow>
           \<exists>c. x = enc_vrc cd c \<and> remote \<in> U \<and> i \<in> U \<and> dec_vrc cd (enc_vrc cd c) = Inr c"
  shows "\<exists>vs'. dec_vrcs cd (JObject (put ''vrcs'' (JObject (filter (\<lambda>(_, x). jobject x \<noteq> Some []) (as_objects stores)))
        (members (Some (enc_vrcs cd vs))))) = Inr vs' \<and> vrcs_ok cd U vs' \<and>
      held (vr_vrcs vs') = {(remote, i, c). (remote, i, enc_vrc cd c) \<in> held stores \<and> dec_vrc cd (enc_vrc cd c) = Inr c}"
proof -
  let ?st = "filter (\<lambda>(_, m). m \<noteq> []) stores"
  let ?ms = "put ''vrcs'' (JObject (as_objects ?st)) (members (Some (enc_vrcs cd vs)))"
  have objects: "filter (\<lambda>(_, x). jobject x \<noteq> Some []) (as_objects stores) = as_objects ?st"
    by (induction stores) auto
  have st: "store_keys_ok ?st" "held ?st = held stores"
    using assms(1) by (auto simp: store_keys_ok_def in_order_def sorted_wrt_map sorted_wrt_filter held_def)
  have "map_of ?ms ''vrcs'' = Some (JObject (as_objects ?st))" "raw_retired (map_of ?ms ''retired'') = Inr (vr_retired vs)"
    using enc_vrcs_members(2) [of cd vs] by simp_all
  from dec_vrcs_stores [OF this, of cd] obtain retired where d: "dec_vrcs cd (JObject ?ms) =
      Inr \<lparr>vr_vrcs = filter (\<lambda>(_, by_id). by_id \<noteq> []) (map (\<lambda>(remote, by_id). (remote, readable_vrcs cd by_id)) ?st), vr_retired = retired\<rparr>"
    (is "_ = Inr ?vs")
    by blast
  have h: "held (vr_vrcs ?vs) = {(remote, i, c) | remote i c. \<exists>x. (remote, i, x) \<in> held stores \<and> dec_vrc cd x = Inr c}"
    using held_readable [of cd ?st] st(2) by simp
  have eq: "held (vr_vrcs ?vs) = {(remote, i, c). (remote, i, enc_vrc cd c) \<in> held stores \<and> dec_vrc cd (enc_vrc cd c) = Inr c}"
    unfolding h using assms(2) by fastforce
  have "vrcs_ok cd U ?vs"
    by (rule vrcs_okI [OF st(1)]) (use eq assms(2) in \<open>auto\<close>)
  with d eq objects show ?thesis by auto
qed

lemma vrc_kept:
  "map (\<lambda>(remote, x). (remote, case jobject x of None \<Rightarrow> x | Some by_id \<Rightarrow> JObject (filter (q remote) by_id))) (as_objects stores)
     = as_objects (map (\<lambda>(remote, m). (remote, filter (q remote) m)) stores)"
  by (induction stores) auto

lemma map_of_as_objects: "map_of (as_objects stores) remote = map_option JObject (map_of stores remote)"
  by (induction stores) auto

lemma put_as_objects: "put remote (JObject m) (as_objects stores) = as_objects (put remote m stores)"
  by (induction stores) auto

lemma held_at:
  assumes "in_order stores"
  shows "(remote, j, x) \<in> held stores \<longleftrightarrow> (j, x) \<in> set (case map_of stores remote of None \<Rightarrow> [] | Some m \<Rightarrow> m)"
proof (cases "map_of stores remote")
  case None
  then have "remote \<notin> fst ` set stores" by (simp add: map_of_eq_None_iff)
  with None show ?thesis by (force simp: held_def)
next
  case (Some b)
  then have "(remote, b') \<in> set stores \<longleftrightarrow> b' = b" for b'
    using map_of_in_order_mem [OF assms, of remote b'] by auto
  with Some show ?thesis by (simp add: held_def)
qed

lemma held_put:
  assumes "store_keys_ok stores" "\<And>x. (remote, i, x) \<notin> held stores"
  shows "held (put remote (put i y (case map_of stores remote of None \<Rightarrow> [] | Some m \<Rightarrow> m)) stores) = insert (remote, i, y) (held stores)"
    "store_keys_ok (put remote (put i y (case map_of stores remote of None \<Rightarrow> [] | Some m \<Rightarrow> m)) stores)"
proof -
  let ?m = "case map_of stores remote of None \<Rightarrow> [] | Some m \<Rightarrow> m"
  have st: "in_order stores" using assms(1) by (simp add: store_keys_ok_def)
  have m: "in_order ?m" "i \<notin> fst ` set ?m"
  proof -
    have "in_order ?m \<and> i \<notin> fst ` set ?m"
    proof (cases "map_of stores remote")
      case (Some b)
      then have "(remote, b) \<in> set stores" by (rule map_of_SomeD)
      with assms Some show ?thesis by (fastforce simp: store_keys_ok_def held_def)
    qed simp
    then show "in_order ?m" "i \<notin> fst ` set ?m" by simp_all
  qed
  have putm: "set (put i y ?m) = insert (i, y) (set ?m)"
  proof -
    have "set (put i y m) = insert (i, y) (set m)" if "i \<notin> fst ` set m" for m :: "(string \<times> json) list"
      using that by (induction m) auto
    with m(2) show ?thesis by blast
  qed
  show "store_keys_ok (put remote (put i y ?m) stores)"
    using assms(1) in_order_put [OF m(1), of i y] map_of_in_order_mem [OF in_order_put [OF st]]
    unfolding store_keys_ok_def by (auto simp: in_order_put simp flip: map_of_in_order_mem split: if_splits)
  show "held (put remote (put i y ?m) stores) = insert (remote, i, y) (held stores)"
  proof (rule set_eqI)
    fix e :: "string \<times> string \<times> json"
    obtain r j x where e: "e = (r, j, x)" by (cases e)
    show "e \<in> held (put remote (put i y ?m) stores) \<longleftrightarrow> e \<in> insert (remote, i, y) (held stores)"
      unfolding e insert_iff held_at [OF in_order_put [OF st]] held_at [OF st]
      using putm by (cases "r = remote") simp_all
  qed
qed

lemma apply_vrc_held:
  assumes vs: "vrcs_ok cd U vs" and cd: "codec_ok cd U"
    and v: "\<And>x. v = Some x \<Longrightarrow> \<exists>remote i c. x = vrc_value cd remote i c \<and> remote \<in> U \<and> i \<in> U \<and>
      vrc_sync_key cd kd remote i = k \<and> dec_vrc cd (enc_vrc cd c) = Inr c"
  shows "\<exists>vs'. apply_vrc cd vs kd k v = Inr vs' \<and> vrcs_ok cd U vs' \<and>
    map_of (rev (vrc_entries cd kd vs')) = (map_of (rev (vrc_entries cd kd vs)))(k := v)"
proof -
  let ?q = "\<lambda>remote (i, _). vrc_sync_key cd kd remote i \<noteq> k"
  define kept where "kept = map (\<lambda>(remote, m). (remote, filter (?q remote) m)) (vrc_stores cd vs)"
  have hk: "held kept = {(remote, i, enc_vrc cd c) | remote i c. (remote, i, c) \<in> held (vr_vrcs vs) \<and> vrc_sync_key cd kd remote i \<noteq> k}"
  proof -
    have "held kept = {(remote, i, x). (remote, i, x) \<in> held (vrc_stores cd vs) \<and> vrc_sync_key cd kd remote i \<noteq> k}"
      unfolding kept_def held_def by force
    then show ?thesis unfolding held_vrc_stores [OF vs] by auto
  qed
  have sk: "store_keys_ok kept"
  proof -
    have "map fst kept = map fst (vrc_stores cd vs)" by (auto simp: kept_def)
    then have "in_order kept" using vrc_stores_ok [of cd vs] by (simp add: store_keys_ok_def in_order_def)
    moreover have "in_order m" if "(remote, m) \<in> set kept" for remote m
      using that vrc_stores_ok [of cd vs]
      by (fastforce simp: kept_def store_keys_ok_def in_order_def sorted_wrt_map sorted_wrt_filter)
    ultimately show ?thesis by (auto simp: store_keys_ok_def)
  qed
  have old: "remote \<in> U \<and> i \<in> U \<and> dec_vrc cd (enc_vrc cd c) = Inr c" if "(remote, i, c) \<in> held (vr_vrcs vs)" for remote i c
    by (rule held_ok [OF vs that])
  have inj: "c = c'" if "enc_vrc cd c = enc_vrc cd c'" "dec_vrc cd (enc_vrc cd c) = Inr c" "dec_vrc cd (enc_vrc cd c') = Inr c'" for c c'
    using that by (metis sum.inject(2))
  have entries: "map_of (rev (vrc_entries cd kd vs')) j = ((map_of (rev (vrc_entries cd kd vs)))(k := v)) j"
    if "vrcs_ok cd U vs'" "\<And>remote i c. (remote, i, c) \<in> held (vr_vrcs vs') \<longleftrightarrow>
        (remote, i, c) \<in> held (vr_vrcs vs) \<and> vrc_sync_key cd kd remote i \<noteq> k \<or>
        vrc_sync_key cd kd remote i = k \<and> v = Some (vrc_value cd remote i c) \<and> dec_vrc cd (enc_vrc cd c) = Inr c" for vs' j
  proof -
    have "map_of (rev (vrc_entries cd kd vs')) j = Some y \<longleftrightarrow> ((map_of (rev (vrc_entries cd kd vs)))(k := v)) j = Some y" for y
    proof (cases "j = k")
      case True
      have "v = Some y \<Longrightarrow> \<exists>remote i c. y = vrc_value cd remote i c \<and> vrc_sync_key cd kd remote i = k \<and> dec_vrc cd (enc_vrc cd c) = Inr c"
        using v by blast
      with True that(2) show ?thesis unfolding vrc_lookup [OF that(1) cd] by auto
    next
      case False
      then have "((map_of (rev (vrc_entries cd kd vs)))(k := v)) j = map_of (rev (vrc_entries cd kd vs)) j" by simp
      then show ?thesis using False that(2) by (simp only: vrc_lookup [OF that(1) cd] vrc_lookup [OF vs cd]) blast
    qed
    then show ?thesis by (metis not_Some_eq)
  qed
  have kept_json: "map (\<lambda>(remote, x). (remote, case jobject x of
        None \<Rightarrow> x | Some by_id \<Rightarrow> JObject (filter (\<lambda>(i, _). vrc_sync_key cd kd remote i \<noteq> k) by_id))) (as_objects (vrc_stores cd vs))
      = as_objects kept"
    unfolding kept_def by (rule vrc_kept)
  have "\<exists>stores. apply_vrc cd vs kd k v = dec_vrcs cd (JObject (put ''vrcs'' (JObject (filter (\<lambda>(_, x). jobject x \<noteq> Some []) (as_objects stores)))
        (members (Some (enc_vrcs cd vs))))) \<and> store_keys_ok stores \<and>
      (\<forall>remote i x. (remote, i, x) \<in> held stores \<longleftrightarrow> (remote, i, x) \<in> held kept \<or>
         (\<exists>c. v = Some (vrc_value cd remote i c) \<and> x = enc_vrc cd c))"
  proof (cases v)
    case None
    with sk show ?thesis
      by (intro exI [of _ kept]) (simp add: apply_vrc_def enc_vrcs_members(1) kept_json Let_def del: map_map)
  next
    case (Some x)
    from v [OF Some] obtain remote i c where c: "x = vrc_value cd remote i c" "remote \<in> U" "i \<in> U" "vrc_sync_key cd kd remote i = k"
      "dec_vrc cd (enc_vrc cd c) = Inr c" by blast
    have absent: "(remote, i, y) \<notin> held kept" for y using hk c(4) by auto
    let ?new = "put remote (put i (enc_vrc cd c) (case map_of kept remote of None \<Rightarrow> [] | Some m \<Rightarrow> m)) kept"
    have "apply_vrc cd vs kd k v = dec_vrcs cd (JObject (put ''vrcs'' (JObject (filter (\<lambda>(_, x). jobject x \<noteq> Some []) (as_objects ?new)))
        (members (Some (enc_vrcs cd vs)))))"
      using c by (cases "map_of kept remote")
        (simp_all add: apply_vrc_def enc_vrcs_members(1) kept_json Let_def Some vrc_value_def str_field_def
           member_or_null_def map_of_as_objects put_as_objects [symmetric] del: map_map)
    moreover have "v = Some (vrc_value cd r j c') \<longleftrightarrow> r = remote \<and> j = i \<and> enc_vrc cd c' = enc_vrc cd c" for r j c'
      using c(1) Some by (auto simp: vrc_value_def)
    ultimately show ?thesis using held_put [OF sk absent, of "enc_vrc cd c"]
      by (intro exI [of _ ?new]) auto
  qed
  then obtain stores where st: "apply_vrc cd vs kd k v = dec_vrcs cd (JObject (put ''vrcs'' (JObject (filter (\<lambda>(_, x). jobject x \<noteq> Some []) (as_objects stores)))
        (members (Some (enc_vrcs cd vs)))))" "store_keys_ok stores"
    "\<And>remote i x. (remote, i, x) \<in> held stores \<longleftrightarrow> (remote, i, x) \<in> held kept \<or> (\<exists>c. v = Some (vrc_value cd remote i c) \<and> x = enc_vrc cd c)"
    by blast
  have fine: "\<exists>c. x = enc_vrc cd c \<and> remote \<in> U \<and> i \<in> U \<and> dec_vrc cd (enc_vrc cd c) = Inr c"
    if "(remote, i, x) \<in> held stores" for remote i x
  proof -
    from that consider "(remote, i, x) \<in> held kept" | c where "v = Some (vrc_value cd remote i c)" "x = enc_vrc cd c"
      using st(3) by blast
    then show ?thesis
    proof cases
      case 1
      with hk old show ?thesis by auto
    next
      case 2
      with v [OF 2(1)] show ?thesis by (auto simp: vrc_value_def)
    qed
  qed
  from store_decoded [OF st(2) fine, of vs] obtain vs' where vs': "apply_vrc cd vs kd k v = Inr vs'" "vrcs_ok cd U vs'"
    "held (vr_vrcs vs') = {(remote, i, c). (remote, i, enc_vrc cd c) \<in> held stores \<and> dec_vrc cd (enc_vrc cd c) = Inr c}"
    using st(1) by auto
  have "(remote, i, c) \<in> held (vr_vrcs vs') \<longleftrightarrow>
      (remote, i, c) \<in> held (vr_vrcs vs) \<and> vrc_sync_key cd kd remote i \<noteq> k \<or>
      vrc_sync_key cd kd remote i = k \<and> v = Some (vrc_value cd remote i c) \<and> dec_vrc cd (enc_vrc cd c) = Inr c" for remote i c
  proof -
    have "(remote, i, enc_vrc cd c) \<in> held kept \<and> dec_vrc cd (enc_vrc cd c) = Inr c \<longleftrightarrow>
        (remote, i, c) \<in> held (vr_vrcs vs) \<and> vrc_sync_key cd kd remote i \<noteq> k"
    proof -
      have "(remote, i, enc_vrc cd c) \<in> held kept \<longleftrightarrow>
          (\<exists>c'. enc_vrc cd c = enc_vrc cd c' \<and> (remote, i, c') \<in> held (vr_vrcs vs) \<and> vrc_sync_key cd kd remote i \<noteq> k)"
        unfolding hk by auto
      then show ?thesis using old inj by blast
    qed
    moreover have "(\<exists>c'. v = Some (vrc_value cd remote i c') \<and> enc_vrc cd c = enc_vrc cd c') \<and> dec_vrc cd (enc_vrc cd c) = Inr c \<longleftrightarrow>
        vrc_sync_key cd kd remote i = k \<and> v = Some (vrc_value cd remote i c) \<and> dec_vrc cd (enc_vrc cd c) = Inr c"
    proof -
      have "enc_vrc cd c = enc_vrc cd c' \<Longrightarrow> vrc_value cd remote i c' = vrc_value cd remote i c" for c'
        by (simp add: vrc_value_def)
      moreover have "vrc_sync_key cd kd remote i = k" if "v = Some (vrc_value cd remote i c)"
        using v [OF that] by (auto simp: vrc_value_def)
      ultimately show ?thesis by metis
    qed
    ultimately show ?thesis unfolding vs'(3) st(3) by blast
  qed
  from entries [OF vs'(2) this] vs'(1,2) show ?thesis by blast
qed


lemma vrc_writes:
  assumes ok: "parts_ok cd U p" "codec_ok cd U" and k: "of_key k = Some kd" "kd = SyncVrcIssued \<or> kd = SyncVrcReceived"
    and g: "good_change cd U k v"
  shows "writes cd U p k v"
proof -
  have v: "\<exists>remote i c. x = vrc_value cd remote i c \<and> remote \<in> U \<and> i \<in> U \<and>
      vrc_sync_key cd kd remote i = k \<and> dec_vrc cd (enc_vrc cd c) = Inr c" if "v = Some x" for x
    using g k that by (auto simp: good_change_def)
  show ?thesis
  proof (cases "kd = SyncVrcIssued")
    case True
    have "vrcs_ok cd U (sp_vrcs_issued p)" using ok(1) by (simp add: parts_ok_def)
    from apply_vrc_held [OF this ok(2) v] obtain vs' where vs': "apply_vrc cd (sp_vrcs_issued p) kd k v = Inr vs'" "vrcs_ok cd U vs'"
      "map_of (rev (vrc_entries cd kd vs')) = (map_of (rev (vrc_entries cd kd (sp_vrcs_issued p))))(k := v)"
      by blast
    show ?thesis
    proof (rule writesI [OF k(1)])
      show "apply_kind cd kd p k v = Inr (p\<lparr>sp_vrcs_issued := vs'\<rparr>)" (is "_ = Inr ?p") using vs'(1) True by simp
      show "parts_ok cd U ?p" using ok(1) vs'(2) by (simp add: parts_ok_def)
      show "kind_entries cd ?p kd' = kind_entries cd p kd'" if "kd' \<noteq> kd" for kd'
        using that True by (cases kd') simp_all
      show "map_of (rev (kind_entries cd ?p kd)) = (map_of (rev (kind_entries cd p kd)))(k := v)" using vs'(3) True by simp
    qed
  next
    case False
    with k(2) have kd: "kd = SyncVrcReceived" by simp
    have "vrcs_ok cd U (sp_vrcs_received p)" using ok(1) by (simp add: parts_ok_def)
    from apply_vrc_held [OF this ok(2) v] obtain vs' where vs': "apply_vrc cd (sp_vrcs_received p) kd k v = Inr vs'" "vrcs_ok cd U vs'"
      "map_of (rev (vrc_entries cd kd vs')) = (map_of (rev (vrc_entries cd kd (sp_vrcs_received p))))(k := v)"
      by blast
    show ?thesis
    proof (rule writesI [OF k(1)])
      show "apply_kind cd kd p k v = Inr (p\<lparr>sp_vrcs_received := vs'\<rparr>)" (is "_ = Inr ?p") using vs'(1) kd by simp
      show "parts_ok cd U ?p" using ok(1) vs'(2) by (simp add: parts_ok_def)
      show "kind_entries cd ?p kd' = kind_entries cd p kd'" if "kd' \<noteq> kd" for kd'
        using that kd by (cases kd') simp_all
      show "map_of (rev (kind_entries cd ?p kd)) = (map_of (rev (kind_entries cd p kd)))(k := v)" using vs'(3) kd by simp
    qed
  qed
qed

section \<open>A store of records\<close>

text \<open>
  What the engine relies on: writing a good value under a key succeeds and changes the projection there only. A fold
  of such writes is then the update of the projected map.
\<close>

locale record_store =
  fixes proj :: "'p \<Rightarrow> string \<Rightarrow> json option"
    and set_record :: "'p \<Rightarrow> string \<Rightarrow> json option \<Rightarrow> string + 'p"
    and ok :: "'p \<Rightarrow> bool"
    and good :: "string \<Rightarrow> json option \<Rightarrow> bool"
  assumes writes_one: "ok p \<Longrightarrow> good k v \<Longrightarrow> \<exists>p'. set_record p k v = Inr p' \<and> ok p' \<and> proj p' = (proj p)(k := v)"
begin

lemma written:
  "ok p \<Longrightarrow> good k v \<Longrightarrow> set_record p k v = Inr p' \<Longrightarrow> ok p' \<and> proj p' = (proj p)(k := v)"
  using writes_one by fastforce

lemma never_refused: "ok p \<Longrightarrow> good k v \<Longrightarrow> set_record p k v \<noteq> Inl e"
  using writes_one by fastforce

text \<open>Writing what is projected already changes nothing that is projected.\<close>

lemma rewritten: "ok p \<Longrightarrow> good k (proj p k) \<Longrightarrow> set_record p k (proj p k) = Inr p' \<Longrightarrow> proj p' = proj p"
  using written [of p k "proj p k" p'] by simp

end

lemma record_writes:
  assumes "parts_ok cd U p" "codec_ok cd U" "good_change cd U k v"
  shows "writes cd U p k v"
proof -
  from assms(3) obtain kd where kd: "of_key k = Some kd" by (auto simp: good_change_def split: option.splits)
  show ?thesis
  proof (cases kd)
    case SyncPersona
    show ?thesis by (rule persona_writes [OF assms(1,2) kd [unfolded SyncPersona] assms(3)])
  next
    case SyncMembership
    show ?thesis by (rule member_writes [OF assms(1,2) kd [unfolded SyncMembership] assms(3)])
  next
    case SyncRelationship
    show ?thesis by (rule relation_writes [OF assms(1,2) kd [unfolded SyncRelationship] assms(3)])
  next
    case SyncContact
    show ?thesis by (rule contact_writes [OF assms(1,2) kd [unfolded SyncContact] assms(3)])
  next
    case SyncAgentName
    show ?thesis by (rule name_writes [OF assms(1,2) kd [unfolded SyncAgentName] assms(3)])
  next
    case SyncTsp
    show ?thesis by (rule tsp_writes [OF assms(1,2) kd [unfolded SyncTsp] assms(3)])
  next
    case SyncKey
    show ?thesis by (rule key_writes [OF assms(1,2) kd [unfolded SyncKey] assms(3)])
  next
    case SyncWitnessing
    show ?thesis by (rule witness_writes [OF assms(1,2) kd [unfolded SyncWitnessing] assms(3)])
  next
    case SyncVetting
    show ?thesis by (rule vetting_writes [OF assms(1) kd [unfolded SyncVetting] assms(3)])
  next
    case SyncVrcIssued
    show ?thesis by (rule vrc_writes [OF assms(1,2) kd _ assms(3)]) (simp add: SyncVrcIssued)
  next
    case SyncVrcReceived
    show ?thesis by (rule vrc_writes [OF assms(1,2) kd _ assms(3)]) (simp add: SyncVrcReceived)
  qed
qed

interpretation records: record_store "\<lambda>p. map_of (project cd p)" "apply_record cd"
  "\<lambda>p. codec_ok cd U \<and> parts_ok cd U p" "good_change cd U"
  for cd U
  by unfold_locales (use record_writes in blast)

end
