(* ===== verification/SyncStore.thy ===== *)
theory SyncStore
  imports SyncRecordLaws
begin

text \<open>
  What the application-state store promises, and a store that keeps it: \<open>MemStore\<close> of \<open>vta_sync/tests.rs\<close>, which has the
  VTA's version, precondition and tombstone semantics. Then what a pull and a push come to on such a store.
\<close>

section \<open>The records of a VTA\<close>

type_synonym vta_entry = "nat \<times> bool \<times> json option"

record vta_records =
  va_counter :: nat
  va_records :: "(string \<times> vta_entry) list"
  va_reaped :: nat

abbreviation entry_at :: "vta_records \<Rightarrow> string \<Rightarrow> vta_entry option" where
  "entry_at v k \<equiv> map_of (va_records v) k"

fun app_record_of :: "string \<times> vta_entry \<Rightarrow> app_record" where
  "app_record_of (k, n, d, x) = \<lparr>aq_key = k, aq_version = n, aq_deleted = d, aq_value = (if d then None else x)\<rparr>"

definition changes_after :: "nat \<Rightarrow> vta_records \<Rightarrow> app_record list" where
  "changes_after since v = sort_key aq_version (map app_record_of (filter (\<lambda>(_, n, _). since < n) (va_records v)))"

definition live_records :: "vta_records \<Rightarrow> app_record list" where
  "live_records v = map app_record_of (filter (\<lambda>(_, _, d, _). \<not> d) (va_records v))"

definition live_version :: "vta_records \<Rightarrow> string \<Rightarrow> nat" where
  "live_version v k = (case entry_at v k of Some (n, False, _) \<Rightarrow> n | _ \<Rightarrow> 0)"

definition wrote :: "string \<Rightarrow> nat \<Rightarrow> write_result" where
  "wrote k n = \<lparr>wt_key = k, wt_outcome = WroteIt, wt_version = Some n, wt_current_version = None,
     wt_current_deleted = None, wt_current_value = None, wt_actual_bytes = None, wt_limit_bytes = None\<rparr>"

definition clashed :: "string \<Rightarrow> vta_entry \<Rightarrow> write_result" where
  "clashed k e = (case e of (n, d, x) \<Rightarrow>
     \<lparr>wt_key = k, wt_outcome = WriteConflict, wt_version = None, wt_current_version = Some n,
      wt_current_deleted = Some d, wt_current_value = x, wt_actual_bytes = None, wt_limit_bytes = None\<rparr>)"

definition write_one :: "app_write \<Rightarrow> vta_records \<Rightarrow> vta_records \<times> write_result" where
  "write_one w v =
     (let k = aw_key w in
      if (case aw_expected_version w of None \<Rightarrow> False | Some n \<Rightarrow> n \<noteq> live_version v k)
      then (v, clashed k (case entry_at v k of None \<Rightarrow> (0, True, None) | Some e \<Rightarrow> e))
      else (v\<lparr>va_counter := va_counter v + 1, va_records := put k (va_counter v + 1, False, aw_value w) (va_records v)\<rparr>,
            wrote k (va_counter v + 1)))"

fun write_all :: "app_write list \<Rightarrow> vta_records \<Rightarrow> vta_records \<times> write_result list" where
  "write_all [] v = (v, [])"
| "write_all (w # ws) v =
     (case write_one w v of (v, r) \<Rightarrow> (case write_all ws v of (v, rs) \<Rightarrow> (v, r # rs)))"

definition delete_one :: "string \<Rightarrow> nat \<Rightarrow> vta_records \<Rightarrow> vta_records \<times> delete_outcome" where
  "delete_one k expected v =
     (case entry_at v k of
        Some (n, False, _) \<Rightarrow>
          if n \<noteq> expected then (v, DeleteConflict)
          else (v\<lparr>va_counter := va_counter v + 1, va_records := put k (va_counter v + 1, True, None) (va_records v)\<rparr>, DeletedIt)
      | _ \<Rightarrow> (v, DeletedIt))"

section \<open>Stores that keep versions\<close>

text \<open>Pages that follow each other by cursor, from \<open>cursor\<close> to the end.\<close>

fun feeds :: "'s app_state_store \<Rightarrow> string \<Rightarrow> nat \<Rightarrow> 's \<Rightarrow> string option \<Rightarrow> list_page list \<Rightarrow> bool" where
  "feeds store context since s cursor [] = False"
| "feeds store context since s cursor (page # pages) =
     (as_changes_since store s context since cursor = (s, Inr page) \<and>
      (case lp_next_cursor page of
         None \<Rightarrow> pages = []
       | Some c \<Rightarrow> feeds store context since s (Some c) pages))"

text \<open>
  \<open>view\<close> shows the records a store holds of one context. A store of up to \<open>limit\<close> records lists every change after a
  watermark it still covers, on few enough pages; writes and deletes go by the version expected.
\<close>

definition keeps_versions :: "nat \<Rightarrow> 's app_state_store \<Rightarrow> string \<Rightarrow> ('s \<Rightarrow> vta_records) \<Rightarrow> bool" where
  "keeps_versions limit store context view \<longleftrightarrow>
     (\<forall>s since. va_reaped (view s) \<le> since \<longrightarrow> length (va_records (view s)) \<le> limit \<longrightarrow>
        (\<exists>pages. feeds store context since s None pages \<and> length pages \<le> max_pages \<and>
           concat (map lp_records pages) = changes_after since (view s) \<and>
           lp_high_watermark (hd pages) = Some (va_counter (view s)))) \<and>
     (\<forall>s ws. \<exists>s'. as_put_many store s context ws = (s', Inr (snd (write_all ws (view s)))) \<and>
        view s' = fst (write_all ws (view s))) \<and>
     (\<forall>s k n. \<exists>s'. as_delete store s context k n = (s', Inr (snd (delete_one k n (view s)))) \<and>
        view s' = fst (delete_one k n (view s)))"

text \<open>\<open>MemStore\<close>, with pages of \<open>per\<close> records; its cursor is the position of the next record.\<close>

definition mem_page :: "nat \<Rightarrow> app_record list \<Rightarrow> string option \<Rightarrow> nat \<Rightarrow> list_page" where
  "mem_page per rs cursor counter =
     (let start = (case Option.bind cursor parse_digits of None \<Rightarrow> 0 | Some n \<Rightarrow> n); rest = drop start rs
      in \<lparr>lp_records = take per rest, lp_high_watermark = Some counter,
          lp_next_cursor = (if per < length rest then Some (decimal (start + per)) else None)\<rparr>)"

definition mem_store :: "nat \<Rightarrow> vta_records app_state_store" where
  "mem_store per =
     \<lparr>as_changes_since = (\<lambda>v _ since cursor.
        (v, if since < va_reaped v then Inl WatermarkTooOld
            else Inr (mem_page per (changes_after since v) cursor (va_counter v)))),
      as_snapshot = (\<lambda>v _ cursor. (v, Inr (mem_page per (live_records v) cursor (va_counter v)))),
      as_put_many = (\<lambda>v _ ws. apsnd Inr (write_all ws v)),
      as_delete = (\<lambda>v _ k n. apsnd Inr (delete_one k n v))\<rparr>"

lemma mem_feeds:
  assumes "va_reaped v \<le> since" "0 < per" "start \<le> length (changes_after since v)"
    "cursor = (if start = 0 then None else Some (decimal start)) \<or> cursor = Some (decimal start)"
  shows "\<exists>pages. feeds (mem_store per) context since v cursor pages \<and>
    concat (map lp_records pages) = drop start (changes_after since v) \<and>
    lp_high_watermark (hd pages) = Some (va_counter v) \<and>
    length pages \<le> (length (changes_after since v) - start) div per + 1"
  using assms(3,4)
proof (induction "length (changes_after since v) - start" arbitrary: start cursor rule: less_induct)
  case less
  let ?rs = "changes_after since v"
  have at: "(case Option.bind cursor parse_digits of None \<Rightarrow> 0 | Some n \<Rightarrow> n) = start"
    using less.prems(2) by (auto split: if_splits)
  let ?page = "mem_page per ?rs cursor (va_counter v)"
  have answer: "as_changes_since (mem_store per) v context since cursor = (v, Inr ?page)"
    using assms(1) by (simp add: mem_store_def)
  show ?case
  proof (cases "per < length ?rs - start")
    case True
    then have "length ?rs - (start + per) < length ?rs - start" "start + per \<le> length ?rs"
      using assms(2) by simp_all
    from less.hyps [OF this, of "Some (decimal (start + per))"] obtain pages where p:
      "feeds (mem_store per) context since v (Some (decimal (start + per))) pages"
      "concat (map lp_records pages) = drop (start + per) ?rs"
      "length pages \<le> (length ?rs - (start + per)) div per + 1" by auto
    have "lp_records ?page @ drop (start + per) ?rs = drop start ?rs"
      using at by (simp add: mem_page_def Let_def add.commute flip: drop_drop)
    moreover have "(length ?rs - (start + per)) div per + 1 \<le> (length ?rs - start) div per"
      using True assms(2) by (metis diff_diff_left le_div_geq less_or_eq_imp_le order_refl Suc_eq_plus1)
    ultimately show ?thesis
      using p answer True at by (intro exI [of _ "?page # pages"]) (auto simp: mem_page_def Let_def)
  next
    case False
    then show ?thesis
      using answer at less.prems(1) by (intro exI [of _ "[?page]"]) (auto simp: mem_page_def Let_def)
  qed
qed

lemma mem_keeps_versions:
  assumes "0 < per"
  shows "keeps_versions (499 * per) (mem_store per) context (\<lambda>v. v)"
proof -
  have "\<exists>pages. feeds (mem_store per) context since v None pages \<and> length pages \<le> max_pages \<and>
      concat (map lp_records pages) = changes_after since v \<and> lp_high_watermark (hd pages) = Some (va_counter v)"
    if "va_reaped v \<le> since" "length (va_records v) \<le> 499 * per" for since v
  proof -
    have "length (changes_after since v) \<le> 499 * per"
    proof -
      have "length (changes_after since v) \<le> length (va_records v)" by (simp add: changes_after_def)
      with that(2) show ?thesis by (rule order_trans [rotated])
    qed
    then have "length (changes_after since v) div per \<le> 499 * per div per" by (rule div_le_mono)
    then have "length (changes_after since v) div per + 1 \<le> max_pages"
      using assms by (simp add: max_pages_def)
    with mem_feeds [OF that(1) assms, of 0 None] show ?thesis by fastforce
  qed
  then show ?thesis by (auto simp: keeps_versions_def mem_store_def apsnd_def map_prod_def case_prod_unfold)
qed


section \<open>Pulling from such a store\<close>

lemma pull_loop_feeds:
  "feeds store context since s cursor pages \<Longrightarrow> length pages \<le> n \<Longrightarrow>
     pull_loop n store context since s False cursor first keys ex =
       (s, ex\<lparr>ex_pulled := ex_pulled ex @ map remote_of (concat (map lp_records pages)),
              ex_watermark := Some (case first of Some w \<Rightarrow> w
                | None \<Rightarrow> (case lp_high_watermark (hd pages) of None \<Rightarrow> since | Some w \<Rightarrow> w))\<rparr>)"
proof (induction pages arbitrary: n cursor first keys ex)
  case (Cons page pages)
  then obtain n' where n: "n = Suc n'" "length pages \<le> n'" by (cases n) auto
  show ?case
  proof (cases "lp_next_cursor page")
    case None
    with Cons.prems n(1) show ?thesis by (auto split: option.split)
  next
    case (Some c)
    with Cons.prems have more: "as_changes_since store s context since cursor = (s, Inr page)"
      "feeds store context since s (Some c) pages" by auto
    from Cons.IH [OF more(2) n(2)] more(1) Some n(1) show ?thesis by (auto split: option.split)
  qed
qed simp

lemma pull_changes:
  assumes "keeps_versions limit store context view" "va_reaped (view s) \<le> since" "length (va_records (view s)) \<le> limit"
  shows "pull store context since s no_exchange =
    (s, no_exchange\<lparr>ex_pulled := map remote_of (changes_after since (view s)), ex_watermark := Some (va_counter (view s))\<rparr>)"
proof -
  from assms obtain pages where p: "feeds store context since s None pages" "length pages \<le> max_pages"
    "concat (map lp_records pages) = changes_after since (view s)" "lp_high_watermark (hd pages) = Some (va_counter (view s))"
    unfolding keeps_versions_def by blast
  show ?thesis
    using pull_loop_feeds [OF p(1,2), of None "[]" no_exchange] p(3,4) by (simp add: pull_def no_exchange_def)
qed

section \<open>Pushing to such a store\<close>

lemma concat_chunks: "0 < n \<Longrightarrow> concat (chunks n xs) = xs"
  by (induction n xs rule: chunks.induct) (subst chunks.simps, auto)

lemma write_one_key: "wt_key (snd (write_one w v)) = aw_key w"
  by (simp add: write_one_def Let_def clashed_def wrote_def split: prod.split)

lemma write_all_keys: "map wt_key (snd (write_all ws v)) = map aw_key ws"
proof (induction ws arbitrary: v)
  case (Cons w ws)
  with write_one_key [of w v] show ?case by (simp add: case_prod_unfold)
qed simp

lemma write_all_append:
  "write_all (ws @ ws') v =
     (let (v1, rs) = write_all ws v; (v2, rs') = write_all ws' v1 in (v2, rs @ rs'))"
  by (induction ws arbitrary: v) (simp_all add: Let_def split: prod.split)

definition outcomes :: "(string \<times> json \<times> nat) list \<Rightarrow> write_result list \<Rightarrow> (string \<times> json \<times> write_result) list" where
  "outcomes es rs = map (\<lambda>((k, x, _), r). (k, x, r)) (zip es rs)"

lemma outcomes_simps [simp]:
  "outcomes [] rs = []" "outcomes ((k, x, n) # es) (r # rs) = (k, x, r) # outcomes es rs"
  by (simp_all add: outcomes_def)

lemma outcomes_append: "length es = length rs \<Longrightarrow> outcomes (es @ es') (rs @ rs') = outcomes es rs @ outcomes es' rs'"
  by (simp add: outcomes_def)

lemma find_by_key: "distinct (map fst xs) \<Longrightarrow> e \<in> set xs \<Longrightarrow> List.find (\<lambda>(k, _, _). k = fst e) xs = Some e"
proof (induction xs)
  case (Cons a xs)
  show ?case
  proof (cases "e = a")
    case False
    with Cons have "fst a \<noteq> fst e" "e \<in> set xs" by auto
    with Cons show ?thesis by (auto simp: case_prod_unfold)
  qed (simp add: case_prod_unfold)
qed simp

lemma put_results_outcomes:
  assumes "distinct (map fst batch)" "map wt_key rs = map fst batch"
  shows "put_results batch rs = outcomes batch rs"
proof -
  have "put_results batch rs' = outcomes es rs'"
    if "map wt_key rs' = map fst es" "set es \<subseteq> set batch" for es rs'
    using that
  proof (induction es arbitrary: rs')
    case (Cons e es)
    obtain k x n where e: "e = (k, x, n)" by (cases e)
    from Cons.prems(1) obtain r rs1 where rs: "rs' = r # rs1" "wt_key r = k" "map wt_key rs1 = map fst es" using e by auto
    have "List.find (\<lambda>(k', _, _). k' = k) batch = Some e"
    proof -
      from Cons.prems(2) e have "(k, x, n) \<in> set batch" by simp
      from find_by_key [OF assms(1) this] show ?thesis by (simp add: e)
    qed
    moreover have "put_results batch rs1 = outcomes es rs1" using Cons rs(3) by simp
    ultimately show ?case using rs(1,2) e by (simp add: put_results_def)
  qed (simp add: put_results_def)
  from this [OF assms(2)] show ?thesis by simp
qed

lemma push_batches_outcomes:
  assumes "keeps_versions limit store context view" "distinct (map fst (concat bs))"
  shows "\<exists>s'. push_batches store context s bs ex =
      (s', ex\<lparr>ex_puts := ex_puts ex @ outcomes (concat bs) (snd (write_all (map write_of (concat bs)) (view s)))\<rparr>) \<and>
    view s' = fst (write_all (map write_of (concat bs)) (view s))"
  using assms(2)
proof (induction bs arbitrary: s ex)
  case (Cons batch bs)
  let ?rs = "snd (write_all (map write_of batch) (view s))"
  from assms(1) obtain s1 where s1: "as_put_many store s context (map write_of batch) = (s1, Inr ?rs)"
    "view s1 = fst (write_all (map write_of batch) (view s))"
    unfolding keeps_versions_def by blast
  have keys: "map wt_key ?rs = map fst batch"
    by (simp add: write_all_keys write_of_def case_prod_unfold)
  from Cons.prems have d: "distinct (map fst batch)" "distinct (map fst (concat bs))" by simp_all
  from Cons.IH [OF d(2), of s1 "ex\<lparr>ex_puts := ex_puts ex @ outcomes batch ?rs\<rparr>"] obtain s' where s':
    "push_batches store context s1 bs (ex\<lparr>ex_puts := ex_puts ex @ outcomes batch ?rs\<rparr>) =
      (s', ex\<lparr>ex_puts := (ex_puts ex @ outcomes batch ?rs) @ outcomes (concat bs) (snd (write_all (map write_of (concat bs)) (view s1)))\<rparr>)"
    "view s' = fst (write_all (map write_of (concat bs)) (view s1))" by auto
  have "length batch = length ?rs" using keys by (metis length_map)
  with s' s1 show ?case
    by (simp add: put_results_outcomes [OF d(1) keys] write_all_append Let_def case_prod_unfold outcomes_append)
qed simp


section \<open>What a push does to each record\<close>

lemma length_put: "length (put k x m) \<le> Suc (length m)"
  by (induction m) auto

abbreviation nothing_there :: vta_entry where
  "nothing_there \<equiv> (0, True, None)"

text \<open>What one write of a push comes to, \<open>v\<close> the records before it and \<open>v'\<close> those after the push.\<close>

definition write_effect :: "vta_records \<Rightarrow> vta_records \<Rightarrow> (string \<times> json \<times> write_result) list \<Rightarrow> string \<times> json \<times> nat \<Rightarrow> bool" where
  "write_effect v v' os e \<longleftrightarrow> (case e of (k, x, n) \<Rightarrow>
     if n = live_version v k
     then \<exists>ver. va_counter v < ver \<and> ver \<le> va_counter v' \<and> entry_at v' k = Some (ver, False, Some (envelope x)) \<and>
            (k, x, wrote k ver) \<in> set os
     else entry_at v' k = entry_at v k \<and>
            (k, x, clashed k (case entry_at v k of None \<Rightarrow> nothing_there | Some e \<Rightarrow> e)) \<in> set os)"

lemma write_effect_mono:
  "write_effect v v' os e \<Longrightarrow> entry_at v0 (fst e) = entry_at v (fst e) \<Longrightarrow> va_counter v0 \<le> va_counter v \<Longrightarrow> set os \<subseteq> set os' \<Longrightarrow>
     write_effect v0 v' os' e"
  unfolding write_effect_def live_version_def by (cases e) (auto split: if_splits)

lemma write_all_effect:
  "distinct (map fst es) \<Longrightarrow> write_all (map write_of es) v = (v', rs) \<Longrightarrow>
     (\<forall>k. k \<notin> fst ` set es \<longrightarrow> entry_at v' k = entry_at v k) \<and>
     (\<forall>e \<in> set es. write_effect v v' (outcomes es rs) e) \<and>
     va_counter v \<le> va_counter v' \<and> va_reaped v' = va_reaped v \<and> (in_order (va_records v) \<longrightarrow> in_order (va_records v')) \<and>
     length (va_records v') \<le> length (va_records v) + length es \<and> map fst (outcomes es rs) = map fst es"
proof (induction es arbitrary: v rs)
  case (Cons e es)
  obtain k x n where e: "e = (k, x, n)" by (cases e)
  obtain v1 r where one: "write_one (write_of e) v = (v1, r)" by fastforce
  obtain rs1 where rest: "write_all (map write_of es) v1 = (v', rs1)" "rs = r # rs1"
    using Cons.prems(2) one by (auto split: prod.splits)
  note IH = Cons.IH [OF _ rest(1)]
  have d: "distinct (map fst es)" "k \<notin> fst ` set es" using Cons.prems(1) e by simp_all
  let ?e = "case entry_at v k of None \<Rightarrow> nothing_there | Some e \<Rightarrow> e"
  have cases: "(if n = live_version v k
      then v1 = v\<lparr>va_counter := va_counter v + 1, va_records := put k (va_counter v + 1, False, Some (envelope x)) (va_records v)\<rparr> \<and>
           r = wrote k (va_counter v + 1)
      else v1 = v \<and> r = clashed k ?e)"
    using one e by (auto simp: write_one_def write_of_def Let_def)
  have v1: "\<forall>j. j \<noteq> k \<longrightarrow> entry_at v1 j = entry_at v j" "va_counter v \<le> va_counter v1" "va_reaped v1 = va_reaped v"
    "in_order (va_records v) \<longrightarrow> in_order (va_records v1)" "length (va_records v1) \<le> Suc (length (va_records v))"
    using cases by (auto simp: in_order_put length_put split: if_splits)
  have first: "write_effect v v' (outcomes (e # es) rs) e"
  proof (cases "n = live_version v k")
    case True
    with cases IH [OF d(1)] d(2) rest(2) e show ?thesis
      by (auto simp: write_effect_def)
  next
    case False
    with cases IH [OF d(1)] d(2) rest(2) e show ?thesis by (auto simp: write_effect_def)
  qed
  from IH [OF d(1)] have ih: "\<forall>k. k \<notin> fst ` set es \<longrightarrow> entry_at v' k = entry_at v1 k"
    "\<forall>e \<in> set es. write_effect v1 v' (outcomes es rs1) e" "va_counter v1 \<le> va_counter v'" "va_reaped v' = va_reaped v1"
    "in_order (va_records v1) \<longrightarrow> in_order (va_records v')" "length (va_records v') \<le> length (va_records v1) + length es"
    "map fst (outcomes es rs1) = map fst es"
    by blast+
  have outs: "outcomes (e # es) rs = (k, x, r) # outcomes es rs1" using rest(2) e by simp
  have later: "write_effect v v' (outcomes (e # es) rs) f" if f: "f \<in> set es" for f
  proof (rule write_effect_mono [of v1])
    show "write_effect v1 v' (outcomes es rs1) f" using ih(2) f by blast
    have "fst f \<noteq> k" using d(2) f by auto
    then show "entry_at v (fst f) = entry_at v1 (fst f)" using v1(1) by simp
    show "va_counter v \<le> va_counter v1" by (rule v1(2))
    show "set (outcomes es rs1) \<subseteq> set (outcomes (e # es) rs)" by (auto simp: outs)
  qed
  show ?case
  proof (intro conjI)
    show "\<forall>j. j \<notin> fst ` set (e # es) \<longrightarrow> entry_at v' j = entry_at v j" using ih(1) v1(1) e by simp
    show "\<forall>f \<in> set (e # es). write_effect v v' (outcomes (e # es) rs) f" using first later by simp
    show "va_counter v \<le> va_counter v'" using v1(2) ih(3) by simp
    show "va_reaped v' = va_reaped v" using v1(3) ih(4) by simp
    show "in_order (va_records v) \<longrightarrow> in_order (va_records v')" using v1(4) ih(5) by simp
    show "length (va_records v') \<le> length (va_records v) + length (e # es)" using v1(5) ih(6) by simp
    show "map fst (outcomes (e # es) rs) = map fst (e # es)" using outs ih(7) e by simp
  qed
qed simp

definition delete_effect :: "vta_records \<Rightarrow> vta_records \<Rightarrow> (string \<times> delete_outcome) list \<Rightarrow> string \<times> nat \<Rightarrow> bool" where
  "delete_effect v v' ds e \<longleftrightarrow> (case e of (k, n) \<Rightarrow>
     if live_version v k = 0 then entry_at v' k = entry_at v k \<and> (k, DeletedIt) \<in> set ds
     else if live_version v k = n
     then \<exists>ver. va_counter v < ver \<and> ver \<le> va_counter v' \<and> entry_at v' k = Some (ver, True, None) \<and> (k, DeletedIt) \<in> set ds
     else entry_at v' k = entry_at v k \<and> (k, DeleteConflict) \<in> set ds)"

lemma delete_effect_mono:
  "delete_effect v v' ds e \<Longrightarrow> entry_at v0 (fst e) = entry_at v (fst e) \<Longrightarrow> va_counter v0 \<le> va_counter v \<Longrightarrow> set ds \<subseteq> set ds' \<Longrightarrow>
     delete_effect v0 v' ds' e"
  unfolding delete_effect_def live_version_def by (cases e) (auto split: if_splits)

text \<open>A version is never zero.\<close>

definition versions_ok :: "vta_records \<Rightarrow> bool" where
  "versions_ok v \<longleftrightarrow> in_order (va_records v) \<and>
     (\<forall>k n d x. entry_at v k = Some (n, d, x) \<longrightarrow> 0 < n \<and> n \<le> va_counter v)"

lemma versions_ok_put:
  "versions_ok v \<Longrightarrow> versions_ok (v\<lparr>va_counter := va_counter v + 1, va_records := put k (va_counter v + 1, d, x) (va_records v)\<rparr>)"
  by (auto simp: versions_ok_def in_order_put le_Suc_eq split: if_splits)

lemma write_all_ok: "versions_ok v \<Longrightarrow> versions_ok (fst (write_all ws v))"
proof (induction ws arbitrary: v)
  case (Cons w ws)
  have "versions_ok (fst (write_one w v))"
    using Cons.prems versions_ok_put [OF Cons.prems] by (auto simp: write_one_def Let_def)
  from Cons.IH [OF this] show ?case by (simp add: case_prod_unfold)
qed simp

lemma push_deletes_effect:
  assumes "keeps_versions limit store context view" "distinct (map fst ds)" "versions_ok (view s)"
  shows "\<exists>s' os. push_deletes store context s ds ex = (s', ex\<lparr>ex_deletes := ex_deletes ex @ os\<rparr>) \<and>
    map fst os = map fst ds \<and> (\<forall>k. k \<notin> fst ` set ds \<longrightarrow> entry_at (view s') k = entry_at (view s) k) \<and>
    (\<forall>e \<in> set ds. delete_effect (view s) (view s') os e) \<and> versions_ok (view s') \<and>
    va_counter (view s) \<le> va_counter (view s') \<and> va_reaped (view s') = va_reaped (view s) \<and>
    length (va_records (view s')) \<le> length (va_records (view s)) + length ds"
  using assms(2,3)
proof (induction ds arbitrary: s ex)
  case (Cons e ds)
  obtain k n where e: "e = (k, n)" by (cases e)
  from assms(1) obtain s1 where s1: "as_delete store s context k n = (s1, Inr (snd (delete_one k n (view s))))"
    "view s1 = fst (delete_one k n (view s))"
    unfolding keeps_versions_def by blast
  define d where "d = snd (delete_one k n (view s))"
  have keys: "distinct (map fst ds)" "k \<notin> fst ` set ds" using Cons.prems(1) e by simp_all
  have pos: "\<And>m x y. entry_at (view s) k = Some (m, x, y) \<Longrightarrow> 0 < m" using Cons.prems(2) by (auto simp: versions_ok_def)
  have one: "if live_version (view s) k = 0 then view s1 = view s \<and> d = DeletedIt
      else if live_version (view s) k = n
      then view s1 = (view s)\<lparr>va_counter := va_counter (view s) + 1, va_records := put k (va_counter (view s) + 1, True, None) (va_records (view s))\<rparr> \<and> d = DeletedIt
      else view s1 = view s \<and> d = DeleteConflict"
    using s1(2) pos by (auto simp: d_def delete_one_def live_version_def split: option.splits prod.splits bool.splits)
  have v1: "\<forall>j. j \<noteq> k \<longrightarrow> entry_at (view s1) j = entry_at (view s) j" "va_counter (view s) \<le> va_counter (view s1)"
    "va_reaped (view s1) = va_reaped (view s)" "versions_ok (view s1)" "length (va_records (view s1)) \<le> Suc (length (va_records (view s)))"
    using one Cons.prems(2) versions_ok_put [OF Cons.prems(2)] by (auto simp: length_put split: if_splits)
  from Cons.IH [OF keys(1) v1(4), of "ex\<lparr>ex_deletes := ex_deletes ex @ [(k, d)]\<rparr>"] obtain s' os where IH:
    "push_deletes store context s1 ds (ex\<lparr>ex_deletes := ex_deletes ex @ [(k, d)]\<rparr>) = (s', ex\<lparr>ex_deletes := ex_deletes ex @ (k, d) # os\<rparr>)"
    "map fst os = map fst ds" "\<forall>j. j \<notin> fst ` set ds \<longrightarrow> entry_at (view s') j = entry_at (view s1) j"
    "\<forall>e \<in> set ds. delete_effect (view s1) (view s') os e" "versions_ok (view s')"
    "va_counter (view s1) \<le> va_counter (view s')" "va_reaped (view s') = va_reaped (view s1)"
    "length (va_records (view s')) \<le> length (va_records (view s1)) + length ds"
    by auto
  have run: "push_deletes store context s (e # ds) ex = (s', ex\<lparr>ex_deletes := ex_deletes ex @ (k, d) # os\<rparr>)"
    using e s1(1) IH(1) by (simp add: d_def)
  have first: "delete_effect (view s) (view s') ((k, d) # os) e"
  proof -
    have same: "entry_at (view s') k = entry_at (view s1) k" using IH(3) keys(2) by simp
    consider (gone) "live_version (view s) k = 0" | (matched) "live_version (view s) k \<noteq> 0" "live_version (view s) k = n"
      | (moved) "live_version (view s) k \<noteq> 0" "live_version (view s) k \<noteq> n" by blast
    then show ?thesis
    proof cases
      case matched
      with one have "view s1 = (view s)\<lparr>va_counter := va_counter (view s) + 1,
          va_records := put k (va_counter (view s) + 1, True, None) (va_records (view s))\<rparr>" "d = DeletedIt" by simp_all
      with same matched IH(6) show ?thesis by (simp add: delete_effect_def e)
    qed (use one same in \<open>simp_all add: delete_effect_def e\<close>)
  qed
  have later: "delete_effect (view s) (view s') ((k, d) # os) f" if f: "f \<in> set ds" for f
  proof (rule delete_effect_mono [of "view s1"])
    show "delete_effect (view s1) (view s') os f" using IH(4) f by blast
    have "fst f \<noteq> k" using keys(2) f by auto
    then show "entry_at (view s) (fst f) = entry_at (view s1) (fst f)" using v1(1) by simp
    show "va_counter (view s) \<le> va_counter (view s1)" by (rule v1(2))
    show "set os \<subseteq> set ((k, d) # os)" by auto
  qed
  show ?case
  proof (intro exI conjI)
    show "push_deletes store context s (e # ds) ex = (s', ex\<lparr>ex_deletes := ex_deletes ex @ (k, d) # os\<rparr>)" by (rule run)
    show "map fst ((k, d) # os) = map fst (e # ds)" using IH(2) e by simp
    show "\<forall>j. j \<notin> fst ` set (e # ds) \<longrightarrow> entry_at (view s') j = entry_at (view s) j" using IH(3) v1(1) e by simp
    show "\<forall>f \<in> set (e # ds). delete_effect (view s) (view s') ((k, d) # os) f" using first later by simp
    show "versions_ok (view s')" by (rule IH(5))
    show "va_counter (view s) \<le> va_counter (view s')" using v1(2) IH(6) by simp
    show "va_reaped (view s') = va_reaped (view s)" using v1(3) IH(7) by simp
    show "length (va_records (view s')) \<le> length (va_records (view s)) + length (e # ds)" using v1(5) IH(8) by simp
  qed
qed auto

end
