(* ===== verification/SyncSteps.thy ===== *)
theory SyncSteps
  imports SyncStore
begin

text \<open>
  One round of a sync, record by record: what merging the changes pulled does to the base and to the projection, and
  what the outcomes of a push do. \<open>G\<close> is a family of values, per record key, that decode as they encode and are closed
  under merging.
\<close>

section \<open>A device\<close>

abbreviation base_at :: "merging \<Rightarrow> string \<Rightarrow> base_record option" where
  "base_at m k \<equiv> map_of (ss_base (mg_state m)) k"

abbreviation here_at :: "sync_codec \<Rightarrow> merging \<Rightarrow> string \<Rightarrow> json option" where
  "here_at cd m k \<equiv> map_of (project cd (mg_parts m)) k"

definition closed_values :: "sync_codec \<Rightarrow> string set \<Rightarrow> (string \<Rightarrow> json option \<Rightarrow> bool) \<Rightarrow> bool" where
  "closed_values cd U G \<longleftrightarrow>
     (\<forall>k v. G k v \<longrightarrow> good_change cd U k v) \<and>
     (\<forall>k b h r. G k b \<longrightarrow> G k h \<longrightarrow> G k r \<longrightarrow> G k (fst (merge3 b h r [])))"

definition all_in :: "(string \<Rightarrow> json option \<Rightarrow> bool) \<Rightarrow> (string \<Rightarrow> json option) \<Rightarrow> bool" where
  "all_in G f \<longleftrightarrow> (\<forall>k x. f k = Some x \<longrightarrow> G k (Some x) \<and> G k None)"

lemma all_in_at: "all_in G f \<Longrightarrow> G k None \<Longrightarrow> G k (f k)"
  by (cases "f k") (auto simp: all_in_def)

lemma all_in_upd: "all_in G f \<Longrightarrow> G k v \<Longrightarrow> G k None \<Longrightarrow> all_in G (f(k := v))"
  by (auto simp: all_in_def)

definition device_ok :: "sync_codec \<Rightarrow> string set \<Rightarrow> (string \<Rightarrow> json option \<Rightarrow> bool) \<Rightarrow> merging \<Rightarrow> bool" where
  "device_ok cd U G m \<longleftrightarrow>
     parts_ok cd U (mg_parts m) \<and> in_order (ss_base (mg_state m)) \<and> ss_deferred (mg_state m) = [] \<and>
     ss_rejected (mg_state m) = [] \<and>
     all_in G (\<lambda>k. map_option bs_value (base_at m k)) \<and> all_in G (here_at cd m)"

text \<open>What a step leaves alone.\<close>

definition same_frame :: "merging \<Rightarrow> merging \<Rightarrow> bool" where
  "same_frame m m' \<longleftrightarrow>
     ss_context_id (mg_state m') = ss_context_id (mg_state m) \<and> ss_watermark (mg_state m') = ss_watermark (mg_state m) \<and>
     sr_error (mg_report m') = sr_error (mg_report m)"

lemma same_frame_refl [simp]: "same_frame m m"
  by (simp add: same_frame_def)

lemma same_frame_trans: "same_frame m1 m2 \<Longrightarrow> same_frame m2 m3 \<Longrightarrow> same_frame m1 m3"
  by (simp add: same_frame_def)

section \<open>One change pulled\<close>

definition stale :: "base_record option \<Rightarrow> nat \<Rightarrow> bool" where
  "stale b n \<longleftrightarrow> (case b of None \<Rightarrow> False | Some b \<Rightarrow> n \<le> bs_version b)"

definition next_base :: "base_record option \<Rightarrow> nat \<Rightarrow> json option \<Rightarrow> base_record option" where
  "next_base b n data = (if stale b n then b else map_option (\<lambda>x. \<lparr>bs_version = n, bs_value = x\<rparr>) data)"

definition next_here :: "base_record option \<Rightarrow> json option \<Rightarrow> nat \<Rightarrow> json option \<Rightarrow> json option" where
  "next_here b h n data = (if stale b n then h else fst (merge3 (map_option bs_value b) h data []))"

definition data_of :: "remote_record \<Rightarrow> json option" where
  "data_of r = (if rr_deleted r then None else case open_record (rr_value r) of OpenedData d \<Rightarrow> Some d | _ \<Rightarrow> None)"

definition readable :: "(string \<Rightarrow> json option \<Rightarrow> bool) \<Rightarrow> remote_record \<Rightarrow> bool" where
  "readable G r \<longleftrightarrow>
     (rr_deleted r \<or> (\<exists>d. open_record (rr_value r) = OpenedData d)) \<and> G (rr_key r) (data_of r) \<and> G (rr_key r) None"

lemma readable_data: "readable G r \<Longrightarrow> change_data kd r = Inr (data_of r)"
  by (auto simp: readable_def change_data_def data_of_def)

lemma report_frames [simp]:
  "mg_parts (say_conflicts kd cs m) = mg_parts m" "mg_state (say_conflicts kd cs m) = mg_state m"
  "sr_error (mg_report (say_conflicts kd cs m)) = sr_error (mg_report m)"
  "mg_parts (say_pulled kd m) = mg_parts m" "mg_state (say_pulled kd m) = mg_state m"
  "sr_error (mg_report (say_pulled kd m)) = sr_error (mg_report m)"
  "mg_parts (agree k n d m) = mg_parts m" "mg_report (agree k n d m) = mg_report m"
  "mg_parts (note_bookkeeping b m) = mg_parts m" "mg_state (note_bookkeeping b m) = mg_state m"
  "sr_error (mg_report (note_bookkeeping b m)) = sr_error (mg_report m)"
  by (simp_all add: say_conflicts_def say_pulled_def agree_def note_bookkeeping_def)

lemma agree_state:
  "ss_base (mg_state (agree k n d m)) = put_option k (map_option (\<lambda>v. \<lparr>bs_version = n, bs_value = v\<rparr>) d) (ss_base (mg_state m))"
  "ss_deferred (mg_state (agree k n d m)) = drop_key k (ss_deferred (mg_state m))"
  "ss_rejected (mg_state (agree k n d m)) = ss_rejected (mg_state m)"
  "ss_watermark (mg_state (agree k n d m)) = ss_watermark (mg_state m)"
  "ss_context_id (mg_state (agree k n d m)) = ss_context_id (mg_state m)"
  by (simp_all add: agree_def)

lemma apply_change_effect:
  assumes cd: "codec_ok cd U" and G: "closed_values cd U G" and m: "device_ok cd U G m" and r: "readable G r"
    and local: "map_of local (rr_key r) = here_at cd m (rr_key r)"
  defines "m' \<equiv> apply_change cd local ApplyLoad r m" and "k \<equiv> rr_key r"
  shows "device_ok cd U G m'" "same_frame m m'"
    "base_at m' = (base_at m)(k := next_base (base_at m k) (rr_version r) (data_of r))"
    "here_at cd m' = (here_at cd m)(k := next_here (base_at m k) (here_at cd m k) (rr_version r) (data_of r))"
proof -
  have Gk: "G k (data_of r)" "G k None" using r by (simp_all add: readable_def k_def)
  then have "good_change cd U k (data_of r)" using G by (simp add: closed_values_def)
  then obtain kd where kd: "of_key k = Some kd" by (auto simp: good_change_def split: option.splits)
  have old: "G k (map_option bs_value (base_at m k))" "G k (here_at cd m k)"
    using m Gk(2) all_in_at [of G "\<lambda>k. map_option bs_value (base_at m k)" k] all_in_at [of G "here_at cd m" k]
    by (simp_all add: device_ok_def)
  obtain merged cs where merged: "merge3 (map_option bs_value (base_at m k)) (here_at cd m k) (data_of r) [] = (merged, cs)"
    by fastforce
  then have Gm: "G k merged" using G old Gk(1) unfolding closed_values_def by (metis fst_conv)
  have "device_ok cd U G m' \<and> same_frame m m' \<and>
    base_at m' = (base_at m)(k := next_base (base_at m k) (rr_version r) (data_of r)) \<and>
    here_at cd m' = (here_at cd m)(k := next_here (base_at m k) (here_at cd m k) (rr_version r) (data_of r))"
  proof (cases "stale (base_at m k) (rr_version r)")
    case True
    then have "m' = m" by (simp add: m'_def apply_change_def stale_def k_def Let_def)
    with True m show ?thesis by (simp add: next_base_def next_here_def fun_upd_idem)
  next
    case False
    have step: "m' = merge_in cd (here_at cd m k) kd r (data_of r) m"
      using False kd local by (simp add: m'_def apply_change_def stale_def k_def Let_def readable_data [OF r])
    have base: "all_in G ((\<lambda>k. map_option bs_value (base_at m k))(k := data_of r))"
      using m Gk by (simp add: device_ok_def all_in_upd)
    have base': "(\<lambda>j. map_option bs_value (((base_at m)(k := map_option (\<lambda>x. \<lparr>bs_version = rr_version r, bs_value = x\<rparr>) (data_of r))) j)) =
        (\<lambda>k. map_option bs_value (base_at m k))(k := data_of r)"
      by (auto simp: option.map_comp comp_def option.map_ident)
    show ?thesis
    proof (cases "merged = here_at cd m k")
      case True
      then have "m' = agree k (rr_version r) (data_of r) (say_conflicts kd cs m)"
        using merged by (simp add: step merge_in_def k_def)
      with m base base' True merged False show ?thesis
        by (auto simp: device_ok_def same_frame_def agree_state in_order_put_option drop_key_def next_base_def next_here_def)
    next
      case changed: False
      from records.writes_one [of cd U "mg_parts m" k merged] cd m Gm G obtain p where p: "apply_record cd (mg_parts m) k merged = Inr p"
        "parts_ok cd U p" "map_of (project cd p) = (map_of (project cd (mg_parts m)))(k := merged)"
        by (auto simp: device_ok_def closed_values_def)
      then have "m' = agree k (rr_version r) (data_of r) (say_conflicts kd cs (say_pulled kd (m\<lparr>mg_parts := p\<rparr>)))"
        using merged changed by (simp add: step merge_in_def k_def)
      moreover have "all_in G (\<lambda>j. if j = k then merged else here_at cd m j)"
        using m all_in_upd [of G "here_at cd m" k merged] Gm Gk(2) by (simp add: device_ok_def fun_upd_def)
      ultimately show ?thesis using m base base' p(2,3) merged False
        by (auto simp: device_ok_def same_frame_def agree_state in_order_put_option drop_key_def next_base_def next_here_def)
    qed
  qed
  note all = this
  show "device_ok cd U G m'" by (rule all [THEN conjunct1])
  show "same_frame m m'" by (rule all [THEN conjunct2, THEN conjunct1])
  show "base_at m' = (base_at m)(k := next_base (base_at m k) (rr_version r) (data_of r))"
    by (rule all [THEN conjunct2, THEN conjunct2, THEN conjunct1])
  show "here_at cd m' = (here_at cd m)(k := next_here (base_at m k) (here_at cd m k) (rr_version r) (data_of r))"
    by (rule all [THEN conjunct2, THEN conjunct2, THEN conjunct2])
qed


section \<open>Every change pulled\<close>

lemma changes_effect:
  assumes cd: "codec_ok cd U" and G: "closed_values cd U G"
    and "device_ok cd U G m" "\<forall>r \<in> set rs. readable G r" "distinct (map rr_key rs)"
    and "\<forall>r \<in> set rs. map_of local (rr_key r) = here_at cd m (rr_key r)"
  shows "device_ok cd U G (fold (apply_change cd local ApplyLoad) rs m) \<and> same_frame m (fold (apply_change cd local ApplyLoad) rs m) \<and>
    (\<forall>r \<in> set rs.
       base_at (fold (apply_change cd local ApplyLoad) rs m) (rr_key r) = next_base (base_at m (rr_key r)) (rr_version r) (data_of r) \<and>
       here_at cd (fold (apply_change cd local ApplyLoad) rs m) (rr_key r) =
         next_here (base_at m (rr_key r)) (here_at cd m (rr_key r)) (rr_version r) (data_of r)) \<and>
    (\<forall>k. k \<notin> rr_key ` set rs \<longrightarrow> base_at (fold (apply_change cd local ApplyLoad) rs m) k = base_at m k \<and>
       here_at cd (fold (apply_change cd local ApplyLoad) rs m) k = here_at cd m k)"
  using assms(3-6)
proof (induction rs arbitrary: m)
  case (Cons r rs)
  let ?m = "apply_change cd local ApplyLoad r m"
  have r: "readable G r" "map_of local (rr_key r) = here_at cd m (rr_key r)" using Cons.prems by simp_all
  note one = apply_change_effect [OF cd G Cons.prems(1) r]
  have new: "rr_key r \<notin> rr_key ` set rs" using Cons.prems(3) by simp
  have others: "rr_key r' \<noteq> rr_key r" if "r' \<in> set rs" for r' using new that by (metis image_eqI)
  have "\<forall>r' \<in> set rs. map_of local (rr_key r') = here_at cd ?m (rr_key r')"
    using Cons.prems(4) others unfolding one(4) by simp
  from Cons.IH [OF one(1) _ _ this] Cons.prems(2,3)
  have ih: "device_ok cd U G (fold (apply_change cd local ApplyLoad) rs ?m)" "same_frame ?m (fold (apply_change cd local ApplyLoad) rs ?m)"
    "\<forall>r' \<in> set rs.
       base_at (fold (apply_change cd local ApplyLoad) rs ?m) (rr_key r') = next_base (base_at ?m (rr_key r')) (rr_version r') (data_of r') \<and>
       here_at cd (fold (apply_change cd local ApplyLoad) rs ?m) (rr_key r') =
         next_here (base_at ?m (rr_key r')) (here_at cd ?m (rr_key r')) (rr_version r') (data_of r')"
    "\<forall>k. k \<notin> rr_key ` set rs \<longrightarrow> base_at (fold (apply_change cd local ApplyLoad) rs ?m) k = base_at ?m k \<and>
       here_at cd (fold (apply_change cd local ApplyLoad) rs ?m) k = here_at cd ?m k"
    by simp_all
  show ?case
    using ih(1) same_frame_trans [OF one(2) ih(2)] ih(3,4) new others unfolding one(3,4) by simp
qed simp

lemma set_latest_changes:
  assumes "distinct (map rr_key rs)"
  shows "set (latest_changes rs) = set rs" "distinct (map rr_key (latest_changes rs))"
proof -
  let ?es = "map (\<lambda>r. (rr_key r, r)) (sort_key rr_version rs)"
  have "distinct (map rr_key (sort_key rr_version rs))"
    using assms by (metis distinct_map distinct_sort set_sort)
  then have es: "distinct (map fst ?es)" by (simp add: comp_def)
  have "set (latest_changes rs) = snd ` set ?es" by (simp add: latest_changes_def set_put_all [OF es])
  then show "set (latest_changes rs) = set rs" by (force simp: image_iff)
  have "map rr_key (latest_changes rs) = map fst (put_all ?es [])"
    using set_put_all [OF es] by (auto simp: latest_changes_def)
  moreover have "in_order (put_all ?es [])" by (simp add: in_order_put_all)
  ultimately show "distinct (map rr_key (latest_changes rs))" by (simp add: in_order_distinct)
qed

lemma apply_remote_effect:
  assumes "codec_ok cd U" "closed_values cd U G" "device_ok cd U G m" "\<forall>r \<in> set rs. readable G r" "distinct (map rr_key rs)"
  defines "m' \<equiv> apply_remote cd rs ApplyLoad m"
  shows "device_ok cd U G m'" "same_frame m m'"
    "\<And>r. r \<in> set rs \<Longrightarrow> base_at m' (rr_key r) = next_base (base_at m (rr_key r)) (rr_version r) (data_of r)"
    "\<And>r. r \<in> set rs \<Longrightarrow> here_at cd m' (rr_key r) = next_here (base_at m (rr_key r)) (here_at cd m (rr_key r)) (rr_version r) (data_of r)"
    "\<And>k. k \<notin> rr_key ` set rs \<Longrightarrow> base_at m' k = base_at m k \<and> here_at cd m' k = here_at cd m k"
  using changes_effect [OF assms(1-3), of "latest_changes rs" "project cd (mg_parts m)"] set_latest_changes [OF assms(5)] assms(4)
  unfolding m'_def apply_remote_def by simp_all

end
