(* ===== verification/SyncRound.thy ===== *)
theory SyncRound
  imports SyncSteps
begin

text \<open>
  One round of the exchange at load, on a store that keeps versions: what goes out, what its outcomes do to the base, and
  the round as a whole. After it the base is what the VTA holds live, the projection is the merge, and what was accepted
  is at the VTA.
\<close>

section \<open>What goes out\<close>

lemma apart: "A \<subseteq> {x} \<Longrightarrow> x \<notin> B \<Longrightarrow> A \<inter> B = {}"
  by blast

lemma distinct_concat_map:
  "distinct (map fst es) \<Longrightarrow> (\<And>e. f e = [] \<or> map g (f e) = [fst e]) \<Longrightarrow> distinct (map g (concat (map f es)))"
proof (induction es)
  case (Cons e es)
  have later: "g ` set (concat (map f es)) \<subseteq> fst ` set es"
  proof
    fix k assume "k \<in> g ` set (concat (map f es))"
    then obtain e' x where "e' \<in> set es" "x \<in> set (f e')" "k = g x" by auto
    moreover from this Cons.prems(2) [of e'] have "g x = fst e'" by (metis empty_iff empty_set image_eqI list.set_map set_ConsD)
    ultimately show "k \<in> fst ` set es" by simp
  qed
  have "set (map g (f e)) \<subseteq> {fst e}" using Cons.prems(2) [of e]
    by (metis empty_set empty_subsetI list.simps(8) list.simps(15) order_refl)
  moreover have "fst e \<notin> fst ` set es" using Cons.prems(1) by simp
  with later have "fst e \<notin> g ` set (concat (map f es))" by (rule contra_subsetD)
  ultimately have "set (map g (f e)) \<inter> set (map g (concat (map f es))) = {}" unfolding set_map by (rule apart)
  moreover have "distinct (map g (f e))" using Cons.prems(2) [of e] by auto
  moreover have "distinct (map g (concat (map f es)))" using Cons by simp
  ultimately have "distinct (map g (f e) @ map g (concat (map f es)))" unfolding distinct_append by blast
  then show ?case by simp
qed simp

lemma outgoing_puts:
  assumes "ss_deferred st = []" "ss_rejected st = []"
  shows "(k, x, n) \<in> set (og_puts (outgoing_of cd p st)) \<longleftrightarrow>
      map_of (project cd p) k = Some x \<and> map_option bs_value (map_of (ss_base st) k) \<noteq> Some x \<and>
      n = (case map_of (ss_base st) k of None \<Rightarrow> 0 | Some b \<Rightarrow> bs_version b)"
    "distinct (map fst (og_puts (outgoing_of cd p st)))"
    "length (og_puts (outgoing_of cd p st)) \<le> length (project cd p)"
proof -
  have one: "put_for cd st e = [] \<or> map fst (put_for cd st e) = [fst e]" for e
    by (simp add: put_for_def Let_def split: prod.split)
  have "length (concat (map (put_for cd st) es)) \<le> length es" for es
  proof (induction es)
    case (Cons e es)
    have "length (put_for cd st e) \<le> 1" using one [of e] by (metis length_0_conv length_Cons length_map linear list.size(3) One_nat_def zero_le)
    with Cons show ?case by simp
  qed simp
  then show "length (og_puts (outgoing_of cd p st)) \<le> length (project cd p)" by (simp add: outgoing_of_def Let_def)
  show "distinct (map fst (og_puts (outgoing_of cd p st)))"
    using distinct_concat_map [OF in_order_distinct [OF in_order_project] one] by (simp add: outgoing_of_def Let_def)
  have "map_of (project cd p) k = Some x \<longleftrightarrow> (k, x) \<in> set (project cd p)"
    by (rule map_of_in_order_mem [OF in_order_project])
  then show "(k, x, n) \<in> set (og_puts (outgoing_of cd p st)) \<longleftrightarrow>
      map_of (project cd p) k = Some x \<and> map_option bs_value (map_of (ss_base st) k) \<noteq> Some x \<and>
      n = (case map_of (ss_base st) k of None \<Rightarrow> 0 | Some b \<Rightarrow> bs_version b)"
    using assms by (auto simp: outgoing_of_def put_for_def Let_def split: if_splits)
qed

lemma outgoing_deletes:
  assumes "ss_deferred st = []" "in_order (ss_base st)"
  shows "(k, n) \<in> set (og_deletes (outgoing_of cd p st)) \<longleftrightarrow>
      (\<exists>b. map_of (ss_base st) k = Some b \<and> n = bs_version b \<and> map_of (project cd p) k = None)"
    "distinct (map fst (og_deletes (outgoing_of cd p st)))"
    "length (og_deletes (outgoing_of cd p st)) \<le> length (ss_base st)"
proof -
  show "length (og_deletes (outgoing_of cd p st)) \<le> length (ss_base st)" by (simp add: outgoing_of_def Let_def)
  have "map fst (og_deletes (outgoing_of cd p st)) =
      map fst (filter (\<lambda>(k, _). map_of (project cd p) k = None \<and> map_of (ss_deferred st) k = None) (ss_base st))"
    by (simp add: outgoing_of_def Let_def case_prod_unfold comp_def)
  then show "distinct (map fst (og_deletes (outgoing_of cd p st)))"
    using in_order_distinct [OF assms(2)] by (simp add: distinct_filter_keys)
  show "(k, n) \<in> set (og_deletes (outgoing_of cd p st)) \<longleftrightarrow>
      (\<exists>b. map_of (ss_base st) k = Some b \<and> n = bs_version b \<and> map_of (project cd p) k = None)"
    using assms(1) map_of_in_order_mem [OF assms(2)] by (force simp: outgoing_of_def Let_def)
qed

lemma open_envelope: "open_record (Some (envelope x)) = OpenedData x"
  by (simp add: open_record_def envelope_def record_schema_version_def Let_def)

section \<open>What the outcomes of a push do\<close>

definition settled :: "string \<times> json \<times> write_result \<Rightarrow> bool" where
  "settled e \<longleftrightarrow> (case e of (k, x, r) \<Rightarrow> (\<exists>ver. r = wrote k ver) \<or> (\<exists>f. r = clashed k f))"

definition written_base :: "string \<times> json \<times> write_result \<Rightarrow> (string \<times> base_record) list" where
  "written_base e = (case e of (k, x, r) \<Rightarrow>
     (case wt_version r of None \<Rightarrow> [] | Some ver \<Rightarrow> [(k, \<lparr>bs_version = ver, bs_value = x\<rparr>)]))"

definition raced_by :: "string \<times> json \<times> write_result \<Rightarrow> remote_record list" where
  "raced_by e = (case e of (k, x, r) \<Rightarrow>
     if wt_outcome r = WriteConflict
     then [\<lparr>rr_key = k, rr_version = (case wt_current_version r of None \<Rightarrow> 0 | Some n \<Rightarrow> n),
            rr_deleted = (wt_current_deleted r = Some True), rr_value = wt_current_value r\<rparr>]
     else [])"

lemma outcome_simps [simp]:
  "wt_outcome (wrote k n) = WroteIt" "wt_version (wrote k n) = Some n"
  "wt_outcome (clashed k f) = WriteConflict" "wt_version (clashed k f) = None"
  "wt_current_version (clashed k f) = Some (fst f)" "wt_current_deleted (clashed k f) = Some (fst (snd f))"
  "wt_current_value (clashed k f) = snd (snd f)"
  by (simp_all add: wrote_def clashed_def split: prod.split)

definition family :: "(string \<Rightarrow> json option \<Rightarrow> bool) \<Rightarrow> string \<Rightarrow> json option \<Rightarrow> bool" where
  "family G k v \<longleftrightarrow> G k v \<and> G k None"

lemma absorb_puts_effect:
  assumes "\<forall>e \<in> set os. settled e \<and> family G (fst e) (Some (fst (snd e)))" "device_ok cd U G m"
  shows "\<exists>m'. fold (absorb_put cd) os (m, raced) = (m', raced @ concat (map raced_by os)) \<and>
    device_ok cd U G m' \<and> same_frame m m' \<and> mg_parts m' = mg_parts m \<and>
    base_at m' = base_at m ++ map_of (rev (concat (map written_base os)))"
  using assms
proof (induction os arbitrary: m raced)
  case (Cons e os)
  obtain k x r where e: "e = (k, x, r)" by (cases e)
  from Cons.prems(1) have G: "G k (Some x)" "G k None" and "settled e" by (simp_all add: e family_def)
  then consider (stored) ver where "r = wrote k ver" | (lost) f where "r = clashed k f" by (auto simp: settled_def e)
  then obtain m1 where m1: "absorb_put cd e (m, raced) = (m1, raced @ raced_by e)" "device_ok cd U G m1" "same_frame m m1"
    "mg_parts m1 = mg_parts m" "base_at m1 = base_at m ++ map_of (rev (written_base e))"
  proof cases
    case stored
    let ?m = "snd (fst (absorb_put cd e (m, raced)), fst (absorb_put cd e (m, raced)))"
    have "(\<lambda>j. map_option bs_value (((base_at m)(k \<mapsto> \<lparr>bs_version = ver, bs_value = x\<rparr>)) j)) =
        (\<lambda>j. map_option bs_value (base_at m j))(k := Some x)" by auto
    then have "all_in G (\<lambda>j. map_option bs_value (((base_at m)(k \<mapsto> \<lparr>bs_version = ver, bs_value = x\<rparr>)) j))"
      using Cons.prems(2) G all_in_upd [of G "\<lambda>j. map_option bs_value (base_at m j)" k "Some x"] by (simp add: device_ok_def)
    with stored e that [of ?m] Cons.prems(2) show ?thesis
      by (simp add: absorb_put_def Let_def raced_by_def written_base_def device_ok_def same_frame_def in_order_put drop_key_def
          fun_eq_iff)
  next
    case lost
    with e that [of m] Cons.prems(2) show ?thesis
      by (simp add: absorb_put_def Let_def raced_by_def written_base_def)
  qed
  from Cons.IH [OF _ m1(2), of "raced @ raced_by e"] Cons.prems(1) obtain m' where m':
    "fold (absorb_put cd) os (m1, raced @ raced_by e) = (m', (raced @ raced_by e) @ concat (map raced_by os))"
    "device_ok cd U G m'" "same_frame m1 m'" "mg_parts m' = mg_parts m1"
    "base_at m' = base_at m1 ++ map_of (rev (concat (map written_base os)))" by auto
  show ?case
    using m' m1 same_frame_trans [OF m1(3) m'(3)] by (intro exI [of _ m']) (simp add: map_add_assoc)
qed simp

lemma absorb_deletes_effect:
  assumes "device_ok cd U G m"
  shows "\<exists>m'. fold absorb_delete ds (m, lost) = (m', lost \<or> (\<exists>k. (k, DeleteConflict) \<in> set ds)) \<and>
    device_ok cd U G m' \<and> same_frame m m' \<and> mg_parts m' = mg_parts m \<and>
    base_at m' = (\<lambda>k. if (k, DeletedIt) \<in> set ds then None else base_at m k)"
  using assms
proof (induction ds arbitrary: m lost)
  case (Cons e ds)
  obtain k d where e: "e = (k, d)" by (cases e)
  obtain m1 where m1: "absorb_delete e (m, lost) = (m1, lost \<or> d = DeleteConflict)" "device_ok cd U G m1" "same_frame m m1"
    "mg_parts m1 = mg_parts m" "base_at m1 = (if d = DeletedIt then (base_at m)(k := None) else base_at m)"
  proof (cases d)
    case DeletedIt
    let ?m = "fst (absorb_delete e (m, lost))"
    have "all_in G (\<lambda>j. map_option bs_value (((base_at m)(k := None)) j))"
      using Cons.prems by (auto simp: device_ok_def all_in_def)
    with DeletedIt e that [of ?m] Cons.prems show ?thesis
      by (simp add: absorb_delete_def device_ok_def same_frame_def in_order_drop_key fun_upd_def)
  next
    case DeleteConflict
    with e that [of m] Cons.prems show ?thesis by (simp add: absorb_delete_def)
  qed
  from Cons.IH [OF m1(2), of "lost \<or> d = DeleteConflict"] obtain m' where m':
    "fold absorb_delete ds (m1, lost \<or> d = DeleteConflict) = (m', (lost \<or> d = DeleteConflict) \<or> (\<exists>k. (k, DeleteConflict) \<in> set ds))"
    "device_ok cd U G m'" "same_frame m1 m'" "mg_parts m' = mg_parts m1"
    "base_at m' = (\<lambda>k. if (k, DeletedIt) \<in> set ds then None else base_at m1 k)" by auto
  show ?case
    using m' m1 same_frame_trans [OF m1(3) m'(3)] e by (intro exI [of _ m']) (auto simp: fun_eq_iff)
qed simp


section \<open>The records a device meets\<close>

definition remote_at :: "string \<Rightarrow> vta_entry \<Rightarrow> remote_record" where
  "remote_at k e = remote_of (app_record_of (k, e))"

definition live_data :: "vta_records \<Rightarrow> string \<Rightarrow> json option" where
  "live_data v k = (case entry_at v k of None \<Rightarrow> None | Some e \<Rightarrow> data_of (remote_at k e))"

definition server_base :: "vta_records \<Rightarrow> string \<Rightarrow> base_record option" where
  "server_base v k =
     (case entry_at v k of None \<Rightarrow> None
      | Some e \<Rightarrow> map_option (\<lambda>x. \<lparr>bs_version = fst e, bs_value = x\<rparr>) (data_of (remote_at k e)))"

definition server_ok :: "(string \<Rightarrow> json option \<Rightarrow> bool) \<Rightarrow> vta_records \<Rightarrow> bool" where
  "server_ok G v \<longleftrightarrow> versions_ok v \<and> (\<forall>k e. entry_at v k = Some e \<longrightarrow> readable G (remote_at k e))"

text \<open>A base kept against these records: what they hold live, or older than a change still to pull.\<close>

definition keeps_up :: "vta_records \<Rightarrow> merging \<Rightarrow> bool" where
  "keeps_up v m \<longleftrightarrow>
     va_reaped v \<le> ss_watermark (mg_state m) \<and> ss_watermark (mg_state m) \<le> va_counter v \<and>
     (\<forall>k. base_at m k = server_base v k \<or>
       (\<exists>n d x. entry_at v k = Some (n, d, x) \<and> ss_watermark (mg_state m) < n \<and>
          (\<forall>b. base_at m k = Some b \<longrightarrow> 0 < bs_version b \<and> bs_version b < n)))"

definition advances :: "vta_records \<Rightarrow> vta_records \<Rightarrow> bool" where
  "advances v v' \<longleftrightarrow>
     va_counter v \<le> va_counter v' \<and> va_reaped v' = va_reaped v \<and>
     (\<forall>k. entry_at v' k = entry_at v k \<or> (\<exists>n d x. entry_at v' k = Some (n, d, x) \<and> va_counter v < n))"

lemma remote_at_simps [simp]:
  "rr_key (remote_at k e) = k" "rr_version (remote_at k (n, d, x)) = n" "rr_deleted (remote_at k (n, d, x)) = d"
  "rr_value (remote_at k (n, d, x)) = (if d then None else x)"
  by (cases e, simp_all add: remote_at_def remote_of_def)

lemma live_server_base: "map_option bs_value (server_base v k) = live_data v k"
  by (auto simp: server_base_def live_data_def option.map_comp comp_def option.map_ident split: option.split)

lemma server_base_version: "versions_ok v \<Longrightarrow> server_base v k = Some b \<Longrightarrow> 0 < bs_version b \<and> bs_version b \<le> va_counter v"
  by (force simp: server_base_def versions_ok_def split: option.splits)

lemma distinct_map_sorted: "distinct (map f xs) \<Longrightarrow> distinct (map f (sort_key g xs))"
  by (simp add: distinct_map)

lemma changes_after_set:
  assumes "versions_ok v"
  shows "r \<in> set (map remote_of (changes_after since v)) \<longleftrightarrow>
      (\<exists>n d x. entry_at v (rr_key r) = Some (n, d, x) \<and> since < n \<and> r = remote_at (rr_key r) (n, d, x))"
    "distinct (map rr_key (map remote_of (changes_after since v)))"
proof -
  have mem: "entry_at v k = Some e \<longleftrightarrow> (k, e) \<in> set (va_records v)" for k e
    using assms by (simp add: versions_ok_def map_of_in_order_mem)
  have "r \<in> set (map remote_of (changes_after since v)) \<longleftrightarrow>
      (\<exists>k n d x. (k, n, d, x) \<in> set (va_records v) \<and> since < n \<and> r = remote_at k (n, d, x))"
  proof -
    have "set (map remote_of (changes_after since v)) = (\<lambda>(k, e). remote_at k e) ` {e \<in> set (va_records v). since < fst (snd e)}"
      by (simp add: changes_after_def image_image remote_at_def case_prod_unfold)
    then show ?thesis by (auto simp: image_iff)
  qed
  then show "r \<in> set (map remote_of (changes_after since v)) \<longleftrightarrow>
      (\<exists>n d x. entry_at v (rr_key r) = Some (n, d, x) \<and> since < n \<and> r = remote_at (rr_key r) (n, d, x))"
    unfolding mem by (metis remote_at_simps(1))
  let ?es = "map app_record_of (filter (\<lambda>(_, n, _). since < n) (va_records v))"
  have "aq_key \<circ> app_record_of = (fst :: string \<times> vta_entry \<Rightarrow> string)" by (auto simp: fun_eq_iff)
  then have "map aq_key ?es = map fst (filter (\<lambda>(_, n, _). since < n) (va_records v))" by simp
  moreover have "distinct (map fst (va_records v))" using assms by (simp add: versions_ok_def in_order_distinct)
  ultimately have "distinct (map aq_key ?es)" by (simp only: distinct_filter_keys)
  then have "distinct (map aq_key (changes_after since v))"
    unfolding changes_after_def by (rule distinct_map_sorted)
  moreover have "rr_key \<circ> remote_of = aq_key" by (auto simp: remote_of_def)
  ultimately show "distinct (map rr_key (map remote_of (changes_after since v)))" by simp
qed

lemma expected_version:
  assumes "keeps_up v m" "server_ok G v"
  shows "(case base_at m k of None \<Rightarrow> 0 | Some b \<Rightarrow> bs_version b) = live_version v k \<longleftrightarrow> base_at m k = server_base v k"
proof (cases "entry_at v k")
  case None
  with assms(1) have "base_at m k = server_base v k" unfolding keeps_up_def by force
  with None show ?thesis by (simp add: server_base_def live_version_def)
next
  case (Some e)
  obtain n d x where e: "e = (n, d, x)" by (cases e)
  with Some assms(2) have n: "0 < n" and r: "readable G (remote_at k (n, d, x))" unfolding server_ok_def versions_ok_def by blast+
  from assms(1) consider "base_at m k = server_base v k" | "\<And>b. base_at m k = Some b \<Longrightarrow> 0 < bs_version b \<and> bs_version b < n"
    using Some e unfolding keeps_up_def by fastforce
  then show ?thesis
  proof cases
    case 1
    then show ?thesis using Some e n r by (auto simp: server_base_def live_version_def readable_def data_of_def split: bool.splits)
  next
    case 2
    then show ?thesis using Some e n r
      by (cases "base_at m k"; cases d) (fastforce simp: server_base_def live_version_def readable_def data_of_def)+
  qed
qed

lemma keeps_up_advances:
  assumes "keeps_up v m" "advances v v'" "versions_ok v"
  shows "keeps_up v' m"
proof -
  have "base_at m k = server_base v' k \<or>
      (\<exists>n d x. entry_at v' k = Some (n, d, x) \<and> ss_watermark (mg_state m) < n \<and>
         (\<forall>b. base_at m k = Some b \<longrightarrow> 0 < bs_version b \<and> bs_version b < n))" for k
  proof (cases "entry_at v' k = entry_at v k")
    case True
    then have "server_base v' k = server_base v k" by (simp add: server_base_def)
    with True assms(1) show ?thesis by (simp add: keeps_up_def)
  next
    case False
    with assms(2) obtain n d x where n: "entry_at v' k = Some (n, d, x)" "va_counter v < n" unfolding advances_def by blast
    have "0 < bs_version b \<and> bs_version b \<le> va_counter v" if b: "base_at m k = Some b" for b
    proof (cases "base_at m k = server_base v k")
      case True
      with b server_base_version [OF assms(3)] show ?thesis by simp
    next
      case False
      with assms(1) b obtain n' d' x' where "entry_at v k = Some (n', d', x')" "0 < bs_version b" "bs_version b < n'"
        unfolding keeps_up_def by blast
      moreover from this assms(3) have "n' \<le> va_counter v" unfolding versions_ok_def by blast
      ultimately show ?thesis by simp
    qed
    moreover have "ss_watermark (mg_state m) \<le> va_counter v" using assms(1) by (simp add: keeps_up_def)
    ultimately show ?thesis using n by fastforce
  qed
  then show ?thesis using assms(1,2) by (auto simp: keeps_up_def advances_def)
qed

section \<open>What a pull does\<close>

lemma pulled_effect:
  assumes "codec_ok cd U" "closed_values cd U G" "device_ok cd U G m" "server_ok G v" "keeps_up v m"
  defines "m' \<equiv> apply_remote cd (map remote_of (changes_after (ss_watermark (mg_state m)) v)) ApplyLoad m"
  shows "device_ok cd U G m'" "same_frame m m'" "base_at m' k = server_base v k"
    "here_at cd m' k = fst (merge3 (map_option bs_value (base_at m k)) (here_at cd m k) (live_data v k) [])"
proof -
  let ?rs = "map remote_of (changes_after (ss_watermark (mg_state m)) v)"
  have vok: "versions_ok v" using assms(4) by (simp add: server_ok_def)
  note pulled = changes_after_set [OF vok, where since = "ss_watermark (mg_state m)"]
  have readable: "\<forall>r \<in> set ?rs. readable G r" using assms(4) pulled(1) unfolding server_ok_def by metis
  note effect = apply_remote_effect [OF assms(1-3) readable pulled(2), folded m'_def]
  show "device_ok cd U G m'" "same_frame m m'" by (rule effect)+
  have keep: "base_at m k = server_base v k \<or>
      (\<exists>n d x. entry_at v k = Some (n, d, x) \<and> ss_watermark (mg_state m) < n \<and>
          (\<forall>b. base_at m k = Some b \<longrightarrow> 0 < bs_version b \<and> bs_version b < n))"
    using assms(5) by (simp add: keeps_up_def)
  have "base_at m' k = server_base v k \<and>
    here_at cd m' k = fst (merge3 (map_option bs_value (base_at m k)) (here_at cd m k) (live_data v k) [])"
  proof (cases "\<exists>n d x. entry_at v k = Some (n, d, x) \<and> ss_watermark (mg_state m) < n")
    case True
    then obtain n d x where e: "entry_at v k = Some (n, d, x)" "ss_watermark (mg_state m) < n" by blast
    let ?r = "remote_at k (n, d, x)"
    have mem: "?r \<in> set ?rs" using e pulled(1) [of ?r] by simp
    have here: "base_at m' k = next_base (base_at m k) n (data_of ?r)"
      "here_at cd m' k = next_here (base_at m k) (here_at cd m k) n (data_of ?r)"
      using effect(3) [OF mem] effect(4) [OF mem] by simp_all
    have live: "live_data v k = data_of ?r" "server_base v k = map_option (\<lambda>x. \<lparr>bs_version = n, bs_value = x\<rparr>) (data_of ?r)"
      using e by (simp_all add: live_data_def server_base_def)
    show ?thesis
    proof (cases "stale (base_at m k) n")
      case stale: True
      then have same: "base_at m k = server_base v k" using keep e by (auto simp: stale_def split: option.splits)
      then have "map_option bs_value (base_at m k) = live_data v k" using live_server_base by metis
      with stale same here show ?thesis by (simp add: next_base_def next_here_def)
    next
      case False
      with here live show ?thesis by (simp add: next_base_def next_here_def)
    qed
  next
    case False
    have "k \<notin> rr_key ` set ?rs"
    proof
      assume "k \<in> rr_key ` set ?rs"
      then obtain r where "r \<in> set ?rs" "k = rr_key r" by blast
      with pulled(1) [of r] False show False by blast
    qed
    from effect(5) [OF this] have here: "base_at m' k = base_at m k" "here_at cd m' k = here_at cd m k" by simp_all
    moreover have same: "base_at m k = server_base v k" using False keep by blast
    moreover have "map_option bs_value (base_at m k) = live_data v k" unfolding same by (rule live_server_base)
    ultimately show ?thesis by simp
  qed
  then show "base_at m' k = server_base v k"
    "here_at cd m' k = fst (merge3 (map_option bs_value (base_at m k)) (here_at cd m k) (live_data v k) [])" by simp_all
qed

text \<open>A change that is already the base, or a deletion of what is not in it, changes nothing.\<close>

lemma raced_effect:
  assumes "codec_ok cd U" "closed_values cd U G" "device_ok cd U G m" "\<forall>r \<in> set rs. readable G r" "distinct (map rr_key rs)"
    and known: "\<And>r. r \<in> set rs \<Longrightarrow> (case base_at m (rr_key r) of None \<Rightarrow> data_of r = None | Some b \<Rightarrow> rr_version r \<le> bs_version b)"
  defines "m' \<equiv> apply_remote cd rs ApplyLoad m"
  shows "device_ok cd U G m'" "same_frame m m'" "base_at m' k = base_at m k" "here_at cd m' k = here_at cd m k"
proof -
  note effect = apply_remote_effect [OF assms(1-5), folded m'_def]
  show "device_ok cd U G m'" "same_frame m m'" by (rule effect)+
  have "base_at m' k = base_at m k \<and> here_at cd m' k = here_at cd m k"
  proof (cases "k \<in> rr_key ` set rs")
    case True
    then obtain r where r: "r \<in> set rs" "k = rr_key r" by blast
    from known [OF r(1)] effect(3) [OF r(1)] effect(4) [OF r(1)] r(2) show ?thesis
      by (auto simp: next_base_def next_here_def stale_def split: option.splits)
  qed (use effect(5) in blast)
  then show "base_at m' k = base_at m k" "here_at cd m' k = here_at cd m k" by simp_all
qed


section \<open>The network half\<close>

definition sync_round :: "sync_codec \<Rightarrow> 's app_state_store \<Rightarrow> string \<Rightarrow> 's \<Rightarrow> merging \<Rightarrow> 's \<times> merging \<times> bool" where
  "sync_round cd store context s m =
     (case do_exchange store context (ss_watermark (mg_state m)) (outgoing_of cd (mg_parts m) (mg_state m)) s of
        (s, ex) \<Rightarrow> (case absorb cd ex ApplyLoad m of (m, lost) \<Rightarrow> (s, m, lost)))"

text \<open>What a push leaves: each write and each delete has its effect, nothing else changes.\<close>

definition pushed_out ::
  "vta_records \<Rightarrow> vta_records \<Rightarrow> outgoing \<Rightarrow> (string \<times> json \<times> write_result) list \<Rightarrow> (string \<times> delete_outcome) list \<Rightarrow> bool" where
  "pushed_out v v' out os ds \<longleftrightarrow>
     (\<forall>e \<in> set (og_puts out). write_effect v v' os e) \<and> (\<forall>e \<in> set (og_deletes out). delete_effect v v' ds e) \<and>
     (\<forall>k. k \<notin> fst ` set (og_puts out) \<longrightarrow> k \<notin> fst ` set (og_deletes out) \<longrightarrow> entry_at v' k = entry_at v k) \<and>
     map fst os = map fst (og_puts out) \<and> map fst ds = map fst (og_deletes out) \<and>
     versions_ok v' \<and> va_counter v \<le> va_counter v' \<and> va_reaped v' = va_reaped v \<and>
     length (va_records v') \<le> length (va_records v) + length (og_puts out) + length (og_deletes out)"

lemma write_effect_later:
  "write_effect v v1 os e \<Longrightarrow> entry_at v2 (fst e) = entry_at v1 (fst e) \<Longrightarrow> va_counter v1 \<le> va_counter v2 \<Longrightarrow> write_effect v v2 os e"
  unfolding write_effect_def by (cases e) (fastforce split: if_splits)

lemma delete_effect_earlier:
  "delete_effect v1 v2 ds e \<Longrightarrow> entry_at v1 (fst e) = entry_at v (fst e) \<Longrightarrow> va_counter v \<le> va_counter v1 \<Longrightarrow> delete_effect v v2 ds e"
  unfolding delete_effect_def live_version_def by (cases e) (fastforce split: if_splits)

lemma no_exchange_error [simp]: "ex_error no_exchange = None"
  by (simp add: no_exchange_def)

lemma exchange_effect:
  assumes store: "keeps_versions limit store context view"
    and room: "va_reaped (view s) \<le> since" "length (va_records (view s)) \<le> limit"
    and v: "versions_ok (view s)"
    and out: "distinct (map fst (og_puts out))" "distinct (map fst (og_deletes out))"
      "fst ` set (og_puts out) \<inter> fst ` set (og_deletes out) = {}"
  shows "\<exists>s' os ds. do_exchange store context since out s =
      (s', no_exchange\<lparr>ex_pulled := map remote_of (changes_after since (view s)), ex_watermark := Some (va_counter (view s)),
        ex_puts := os, ex_deletes := ds\<rparr>) \<and> pushed_out (view s) (view s') out os ds"
proof -
  let ?ex = "no_exchange\<lparr>ex_pulled := map remote_of (changes_after since (view s)), ex_watermark := Some (va_counter (view s))\<rparr>"
  note pull = pull_changes [OF store room]
  obtain v1 rs where wa: "write_all (map write_of (og_puts out)) (view s) = (v1, rs)" by fastforce
  have chunks: "concat (chunks put_batch (og_puts out)) = og_puts out" by (simp add: concat_chunks put_batch_def)
  from push_batches_outcomes [OF store, of "chunks put_batch (og_puts out)" s ?ex] out(1) obtain s1 where s1:
    "push_batches store context s (chunks put_batch (og_puts out)) ?ex = (s1, ?ex\<lparr>ex_puts := outcomes (og_puts out) rs\<rparr>)"
    "view s1 = v1"
    unfolding chunks wa by (auto simp: no_exchange_def)
  note w = write_all_effect [OF out(1) wa]
  have v1: "versions_ok (view s1)" using write_all_ok [OF v, of "map write_of (og_puts out)"] wa s1(2) by simp
  from push_deletes_effect [OF store out(2) v1, of "?ex\<lparr>ex_puts := outcomes (og_puts out) rs\<rparr>"] obtain s2 ds where s2:
    "push_deletes store context s1 (og_deletes out) (?ex\<lparr>ex_puts := outcomes (og_puts out) rs\<rparr>) =
      (s2, ?ex\<lparr>ex_puts := outcomes (og_puts out) rs, ex_deletes := ds\<rparr>)"
    "map fst ds = map fst (og_deletes out)" "\<forall>k. k \<notin> fst ` set (og_deletes out) \<longrightarrow> entry_at (view s2) k = entry_at (view s1) k"
    "\<forall>e \<in> set (og_deletes out). delete_effect (view s1) (view s2) ds e" "versions_ok (view s2)"
    "va_counter (view s1) \<le> va_counter (view s2)" "va_reaped (view s2) = va_reaped (view s1)"
    "length (va_records (view s2)) \<le> length (va_records (view s1)) + length (og_deletes out)"
    by (auto simp: no_exchange_def)
  have run: "do_exchange store context since out s = (s2, ?ex\<lparr>ex_puts := outcomes (og_puts out) rs, ex_deletes := ds\<rparr>)"
    using s1(1) s2(1) unfolding do_exchange_def pull by simp
  have puts: "write_effect (view s) (view s2) (outcomes (og_puts out) rs) e" if e: "e \<in> set (og_puts out)" for e
  proof (rule write_effect_later)
    show "write_effect (view s) v1 (outcomes (og_puts out) rs) e" using w e by blast
    have "fst e \<notin> fst ` set (og_deletes out)" using out(3) e by blast
    then show "entry_at (view s2) (fst e) = entry_at v1 (fst e)" using s2(3) s1(2) by simp
    show "va_counter v1 \<le> va_counter (view s2)" using s2(6) s1(2) by simp
  qed
  have deletes: "delete_effect (view s) (view s2) ds e" if e: "e \<in> set (og_deletes out)" for e
  proof (rule delete_effect_earlier)
    show "delete_effect (view s1) (view s2) ds e" using s2(4) e by blast
    have "fst e \<notin> fst ` set (og_puts out)" using out(3) e by blast
    then show "entry_at (view s1) (fst e) = entry_at (view s) (fst e)" using w s1(2) by blast
    show "va_counter (view s) \<le> va_counter (view s1)" using w s1(2) by simp
  qed
  have "pushed_out (view s) (view s2) out (outcomes (og_puts out) rs) ds"
    unfolding pushed_out_def
  proof (intro conjI)
    show "\<forall>e \<in> set (og_puts out). write_effect (view s) (view s2) (outcomes (og_puts out) rs) e" using puts by blast
    show "\<forall>e \<in> set (og_deletes out). delete_effect (view s) (view s2) ds e" using deletes by blast
    show "\<forall>k. k \<notin> fst ` set (og_puts out) \<longrightarrow> k \<notin> fst ` set (og_deletes out) \<longrightarrow> entry_at (view s2) k = entry_at (view s) k"
      using w s1(2) s2(3) by metis
    show "map fst (outcomes (og_puts out) rs) = map fst (og_puts out)" using w by blast
    show "va_counter (view s) \<le> va_counter (view s2)" using w s1(2) s2(6) by simp
    show "va_reaped (view s2) = va_reaped (view s)" using w s1(2) s2(7) by simp
    show "length (va_records (view s2)) \<le> length (va_records (view s)) + length (og_puts out) + length (og_deletes out)"
      using w s1(2) s2(8) by simp
  qed (use s2 in simp_all)
  with run show ?thesis by blast
qed

section \<open>One round\<close>

definition merged_at :: "sync_codec \<Rightarrow> vta_records \<Rightarrow> merging \<Rightarrow> string \<Rightarrow> json option" where
  "merged_at cd v m k = fst (merge3 (map_option bs_value (base_at m k)) (here_at cd m k) (live_data v k) [])"

text \<open>Where each record of the VTA stands after the round.\<close>

lemma round_fates:
  assumes dev: "device_ok cd U G m" and sv: "server_ok G v" and kept: "keeps_up v m"
    and po: "pushed_out v v' (outgoing_of cd (mg_parts m) (mg_state m)) os ds"
  obtains (quiet) "map_option bs_value (base_at m k) = here_at cd m k" "entry_at v' k = entry_at v k"
      "k \<notin> fst ` set os" "k \<notin> fst ` set ds"
  | (stored) x n where "here_at cd m k = Some x" "base_at m k = server_base v k" "entry_at v' k = Some (n, False, Some (envelope x))"
      "va_counter v < n" "(k, x, wrote k n) \<in> set os" "k \<notin> fst ` set ds"
  | (refused) x where "here_at cd m k = Some x" "base_at m k \<noteq> server_base v k" "entry_at v' k = entry_at v k"
      "(k, x, clashed k (case entry_at v k of None \<Rightarrow> nothing_there | Some e \<Rightarrow> e)) \<in> set os" "k \<notin> fst ` set ds"
  | (deleted) "here_at cd m k = None" "base_at m k \<noteq> None" "(k, DeletedIt) \<in> set ds" "k \<notin> fst ` set os" "server_base v' k = None"
      "merged_at cd v m k = None"
      "entry_at v' k = entry_at v k \<or> (\<exists>n. entry_at v' k = Some (n, True, None) \<and> va_counter v < n)"
  | (moved) "here_at cd m k = None" "base_at m k \<noteq> server_base v k" "(k, DeleteConflict) \<in> set ds" "k \<notin> fst ` set os"
      "entry_at v' k = entry_at v k"
proof -
  let ?out = "outgoing_of cd (mg_parts m) (mg_state m)"
  have st: "ss_deferred (mg_state m) = []" "ss_rejected (mg_state m) = []" "in_order (ss_base (mg_state m))"
    using dev by (simp_all add: device_ok_def)
  note puts = outgoing_puts [OF st(1,2), where cd = cd and p = "mg_parts m"]
  note deletes = outgoing_deletes [OF st(1,3), where cd = cd and p = "mg_parts m"]
  have os: "fst ` set os = fst ` set (og_puts ?out)" "fst ` set ds = fst ` set (og_deletes ?out)"
    using po unfolding pushed_out_def by (metis set_map)+
  consider (same) "map_option bs_value (base_at m k) = here_at cd m k"
    | (put) x where "here_at cd m k = Some x" "map_option bs_value (base_at m k) \<noteq> Some x"
    | (del) b where "here_at cd m k = None" "base_at m k = Some b"
    by (cases "here_at cd m k"; cases "base_at m k") auto
  then show ?thesis
  proof cases
    case same
    have "k \<notin> fst ` set (og_puts ?out)"
    proof
      assume "k \<in> fst ` set (og_puts ?out)"
      then obtain x n where "(k, x, n) \<in> set (og_puts ?out)" by auto
      with same puts(1) [of k x n] show False by metis
    qed
    moreover have "k \<notin> fst ` set (og_deletes ?out)"
    proof
      assume "k \<in> fst ` set (og_deletes ?out)"
      then obtain n where "(k, n) \<in> set (og_deletes ?out)" by auto
      with same deletes(1) [of k n] show False by auto
    qed
    moreover from calculation po have "entry_at v' k = entry_at v k" unfolding pushed_out_def by blast
    ultimately show ?thesis using that(1) same unfolding os by blast
  next
    case (put x)
    let ?n = "case base_at m k of None \<Rightarrow> 0 | Some b \<Rightarrow> bs_version b"
    have mem: "(k, x, ?n) \<in> set (og_puts ?out)" using put puts(1) by blast
    then have "write_effect v v' os (k, x, ?n)" using po unfolding pushed_out_def by blast
    moreover have "k \<notin> fst ` set ds"
    proof
      assume "k \<in> fst ` set ds"
      then obtain n where "(k, n) \<in> set (og_deletes ?out)" unfolding os by auto
      with put deletes(1) [of k n] show False by simp
    qed
    ultimately show ?thesis
      using that(2) [of x] that(3) [of x] put(1) expected_version [OF kept sv, of k]
      by (cases "?n = live_version v k") (auto simp: write_effect_def)
  next
    case (del b)
    then have mem: "(k, bs_version b) \<in> set (og_deletes ?out)" using deletes(1) by blast
    then have e: "delete_effect v v' ds (k, bs_version b)" using po unfolding pushed_out_def by blast
    have notput: "k \<notin> fst ` set os"
    proof
      assume "k \<in> fst ` set os"
      then obtain x n where "(k, x, n) \<in> set (og_puts ?out)" unfolding os by auto
      with del puts(1) [of k x n] show False by simp
    qed
    have ver: "bs_version b = live_version v k \<longleftrightarrow> base_at m k = server_base v k"
      using expected_version [OF kept sv, of k] del(2) by simp
    consider "live_version v k = 0" | "live_version v k \<noteq> 0" "live_version v k = bs_version b"
      | "live_version v k \<noteq> 0" "live_version v k \<noteq> bs_version b" by blast
    then show ?thesis
    proof cases
      case 1
      have "server_base v k = None"
      proof (cases "entry_at v k")
        case (Some f)
        obtain n d x where "f = (n, d, x)" by (cases f)
        moreover from this Some sv have "0 < n" unfolding server_ok_def versions_ok_def by blast
        ultimately show ?thesis using 1 Some by (cases d) (simp_all add: live_version_def server_base_def data_of_def)
      qed (simp add: server_base_def)
      moreover have "entry_at v' k = entry_at v k" "(k, DeletedIt) \<in> set ds" using 1 e by (simp_all add: delete_effect_def)
      ultimately show ?thesis
        using that(4) del notput live_server_base [of v k] by (simp add: server_base_def merged_at_def)
    next
      case 2
      with e obtain n where "va_counter v < n" "entry_at v' k = Some (n, True, None)" "(k, DeletedIt) \<in> set ds"
        by (auto simp: delete_effect_def)
      moreover have "base_at m k = server_base v k" using 2 ver by simp
      then have "map_option bs_value (base_at m k) = live_data v k" by (simp add: live_server_base)
      ultimately show ?thesis using that(4) del notput by (simp add: server_base_def data_of_def merged_at_def)
    next
      case 3
      with e ver show ?thesis using that(5) del notput by (auto simp: delete_effect_def)
    qed
  qed
qed


lemma written_lookup:
  assumes "distinct (map fst os)"
  shows "map_of (rev (concat (map written_base os))) k = Some b \<longleftrightarrow> (\<exists>x r. (k, x, r) \<in> set os \<and> (k, b) \<in> set (written_base (k, x, r)))"
proof -
  have one: "written_base e = [] \<or> map fst (written_base e) = [fst e]" for e
    by (simp add: written_base_def split: prod.split option.split)
  have "distinct (map fst (concat (map written_base os)))" by (rule distinct_concat_map [OF assms one])
  then have "distinct (map fst (rev (concat (map written_base os))))" by (metis distinct_rev rev_map)
  then have "map_of (rev (concat (map written_base os))) k = Some b \<longleftrightarrow> (\<exists>e \<in> set os. (k, b) \<in> set (written_base e))"
    by (subst map_of_eq_Some_iff) simp_all
  moreover have "(k, b) \<in> set (written_base (k', x, r)) \<Longrightarrow> k' = k" for k' x r
    using one [of "(k', x, r)"] by (cases "written_base (k', x, r)") auto
  ultimately show ?thesis by (metis prod_cases3)
qed

lemma adopt_simps [simp]:
  "mg_parts (adopt_watermark (Some w) m) = mg_parts m" "ss_base (mg_state (adopt_watermark (Some w) m)) = ss_base (mg_state m)"
  "ss_deferred (mg_state (adopt_watermark (Some w) m)) = ss_deferred (mg_state m)"
  "ss_rejected (mg_state (adopt_watermark (Some w) m)) = ss_rejected (mg_state m)"
  "ss_context_id (mg_state (adopt_watermark (Some w) m)) = ss_context_id (mg_state m)"
  "ss_watermark (mg_state (adopt_watermark (Some w) m)) = w"
  "sr_error (mg_report (adopt_watermark (Some w) m)) = sr_error (mg_report m)"
  by (simp_all add: adopt_watermark_def)

lemma device_ok_cong:
  "mg_parts m' = mg_parts m \<Longrightarrow> ss_base (mg_state m') = ss_base (mg_state m) \<Longrightarrow> ss_deferred (mg_state m') = ss_deferred (mg_state m) \<Longrightarrow>
     ss_rejected (mg_state m') = ss_rejected (mg_state m) \<Longrightarrow> device_ok cd U G m' = device_ok cd U G m"
  by (simp add: device_ok_def)

definition round_ok ::
  "sync_codec \<Rightarrow> string set \<Rightarrow> (string \<Rightarrow> json option \<Rightarrow> bool) \<Rightarrow> vta_records \<Rightarrow> merging \<Rightarrow> vta_records \<Rightarrow> merging \<Rightarrow> bool \<Rightarrow> bool" where
  "round_ok cd U G v m v' m' lost \<longleftrightarrow>
     device_ok cd U G m' \<and> ss_context_id (mg_state m') = ss_context_id (mg_state m) \<and>
     ss_watermark (mg_state m') = va_counter v \<and> sr_error (mg_report m') = sr_error (mg_report m) \<and>
     (\<forall>k. base_at m' k = server_base v' k) \<and> (\<forall>k. here_at cd m' k = merged_at cd v m k) \<and>
     (\<not> lost \<longrightarrow> (\<forall>k. live_data v' k = merged_at cd v m k)) \<and>
     ((\<forall>k. base_at m k = server_base v k) \<longrightarrow> \<not> lost)"

text \<open>The folding half, on what the exchange brought back.\<close>

lemma absorb_effect:
  assumes cd: "codec_ok cd U" and G: "closed_values cd U G"
    and dev: "device_ok cd U G m" and sv: "server_ok G v" and kept: "keeps_up v m"
    and po: "pushed_out v v' (outgoing_of cd (mg_parts m) (mg_state m)) os ds"
  defines "ex \<equiv> no_exchange\<lparr>ex_pulled := map remote_of (changes_after (ss_watermark (mg_state m)) v),
      ex_watermark := Some (va_counter v), ex_puts := os, ex_deletes := ds\<rparr>"
  shows "\<exists>m' lost. absorb cd ex ApplyLoad m = (m', lost) \<and> round_ok cd U G v m v' m' lost"
proof -
  have st: "ss_deferred (mg_state m) = []" "ss_rejected (mg_state m) = []" "in_order (ss_base (mg_state m))"
    using dev by (simp_all add: device_ok_def)
  have keys: "distinct (map fst os)" "distinct (map fst ds)"
    using po outgoing_puts(2) [OF st(1,2)] outgoing_deletes(2) [OF st(1,3)] unfolding pushed_out_def by metis+
  have Gput: "family G k (Some x)" if "here_at cd m k = Some x" for k x
    using dev that by (auto simp: device_ok_def all_in_def family_def)
  note fates = round_fates [OF dev sv kept po]
  have put_in: "(\<exists>n. r = wrote k n \<and> base_at m k = server_base v k) \<or>
      base_at m k \<noteq> server_base v k \<and> r = clashed k (case entry_at v k of None \<Rightarrow> nothing_there | Some e \<Rightarrow> e)" "here_at cd m k = Some x" if "(k, x, r) \<in> set os" for k x r
  proof -
    have "k \<in> fst ` set os" using that by force
    with eq_key_imp_eq_value [OF keys(1) that] show "(\<exists>n. r = wrote k n \<and> base_at m k = server_base v k) \<or>
        base_at m k \<noteq> server_base v k \<and> r = clashed k (case entry_at v k of None \<Rightarrow> nothing_there | Some e \<Rightarrow> e)" "here_at cd m k = Some x"
      by (cases rule: fates [of k]; blast)+
  qed
  define b where "b = (ex_pulled ex \<noteq> [] \<or> ex_puts ex \<noteq> [] \<or> ex_deletes ex \<noteq> [])"
  define m0 where "m0 = note_bookkeeping b m"
  define m1 where "m1 = apply_remote cd (ex_pulled ex) ApplyLoad m0"
  define m2 where "m2 = adopt_watermark (Some (va_counter v)) m1"
  have dev0: "device_ok cd U G m0" "keeps_up v m0" using dev kept by (simp_all add: m0_def device_ok_def keeps_up_def)
  have "ex_pulled ex = map remote_of (changes_after (ss_watermark (mg_state m0)) v)" by (simp add: ex_def m0_def no_exchange_def)
  note pulled = pulled_effect [OF cd G dev0(1) sv dev0(2), folded this, folded m1_def]
  have dev2: "device_ok cd U G m2" using pulled(1) device_ok_cong [of m2 m1] by (simp add: m2_def)
  have "\<forall>e \<in> set os. settled e \<and> family G (fst e) (Some (fst (snd e)))"
  proof
    fix e assume e: "e \<in> set os"
    obtain k x r where "e = (k, x, r)" by (cases e)
    with e put_in [of k x r] Gput [of k x] show "settled e \<and> family G (fst e) (Some (fst (snd e)))"
      by (simp add: settled_def del: split_paired_Ex) blast
  qed
  from absorb_puts_effect [OF this dev2, of "[]"] obtain m3 where m3:
    "fold (absorb_put cd) os (m2, []) = (m3, concat (map raced_by os))" "device_ok cd U G m3" "same_frame m2 m3"
    "mg_parts m3 = mg_parts m2" "base_at m3 = base_at m2 ++ map_of (rev (concat (map written_base os)))" by auto
  let ?raced = "concat (map raced_by os)"
  have base2: "base_at m2 k = server_base v k" for k using pulled(3) by (simp add: m2_def)
  have raced: "k \<in> fst ` set os \<and> readable G r \<and> base_at m3 k = server_base v k \<and>
      (case server_base v k of None \<Rightarrow> data_of r = None | Some b \<Rightarrow> rr_version r \<le> bs_version b)"
    if r: "r \<in> set ?raced" "rr_key r = k" for r k
  proof -
    from r obtain x w where w: "(k, x, w) \<in> set os" "wt_outcome w = WriteConflict" "r \<in> set (raced_by (k, x, w))"
      by (auto simp: raced_by_def split: if_splits)
    let ?e = "case entry_at v k of None \<Rightarrow> nothing_there | Some e \<Rightarrow> e"
    from put_in(1) [OF w(1)] w(2) have we: "w = clashed k ?e" by auto
    obtain n d y where e: "?e = (n, d, y)" by (cases ?e)
    then have r': "r = \<lparr>rr_key = k, rr_version = n, rr_deleted = d, rr_value = y\<rparr>" using w(3) by (auto simp: raced_by_def we)
    then have same: "data_of r = data_of (remote_at k (n, d, y))" "readable G r = readable G (remote_at k (n, d, y))"
      by (auto simp: data_of_def readable_def)
    have "map_of (rev (concat (map written_base os))) k = None"
    proof (rule ccontr)
      assume "map_of (rev (concat (map written_base os))) k \<noteq> None"
      then obtain b x' w' where w': "(k, x', w') \<in> set os" "(k, b) \<in> set (written_base (k, x', w'))"
        using written_lookup [OF keys(1)] by blast
      from eq_key_imp_eq_value [OF keys(1) w(1) w'(1)] we have "w' = clashed k ?e" by simp
      with w'(2) show False by (simp add: written_base_def)
    qed
    then have "base_at m3 k = server_base v k" using m3(5) base2 by (simp add: map_add_def)
    moreover have "G k None" using Gput put_in(2) [OF w(1)] by (auto simp: family_def)
    moreover have "k \<in> fst ` set os" using w(1) by force
    moreover have "readable G r \<and> (case server_base v k of None \<Rightarrow> data_of r = None | Some b \<Rightarrow> rr_version r \<le> bs_version b)"
    proof (cases "entry_at v k")
      case None
      with e r' \<open>G k None\<close> show ?thesis by (simp add: server_base_def readable_def data_of_def)
    next
      case (Some f)
      with e have "entry_at v k = Some (n, d, y)" by simp
      moreover from this sv have "readable G (remote_at k (n, d, y))" unfolding server_ok_def by blast
      ultimately show ?thesis using same r' by (simp add: server_base_def split: option.split)
    qed
    ultimately show ?thesis by simp
  qed
  define m4 where "m4 = apply_remote cd ?raced ApplyLoad m3"
  have once: "distinct (map rr_key ?raced)" by (rule distinct_concat_map [OF keys(1)]) (simp add: raced_by_def split: prod.split)
  have clear: "\<forall>r \<in> set ?raced. readable G r" using raced by blast
  have "(case base_at m3 (rr_key r) of None \<Rightarrow> data_of r = None | Some b \<Rightarrow> rr_version r \<le> bs_version b)" if "r \<in> set ?raced" for r
    using raced [OF that refl] by presburger
  note known = raced_effect [OF cd G m3(2) clear once this, folded m4_def]
  from absorb_deletes_effect [OF known(1), of ds "?raced \<noteq> []"] obtain m5 where m5:
    "fold absorb_delete ds (m4, ?raced \<noteq> []) = (m5, ?raced \<noteq> [] \<or> (\<exists>k. (k, DeleteConflict) \<in> set ds))" "device_ok cd U G m5"
    "same_frame m4 m5" "mg_parts m5 = mg_parts m4" "base_at m5 = (\<lambda>k. if (k, DeletedIt) \<in> set ds then None else base_at m4 k)" by auto
  define lost where "lost \<longleftrightarrow> ?raced \<noteq> [] \<or> (\<exists>k. (k, DeleteConflict) \<in> set ds)"
  have reaped: "reaped ex st = []" for st by (simp add: reaped_def ex_def no_exchange_def)
  have parts: "ex_watermark ex = Some (va_counter v)" "ex_puts ex = os" "ex_deletes ex = ds" "ex_error ex = None"
    by (simp_all add: ex_def no_exchange_def)
  have run: "absorb cd ex ApplyLoad m = (m5, lost)"
    unfolding absorb_def Let_def reaped append_Nil2
    unfolding b_def [symmetric] unfolding m0_def [symmetric] unfolding m1_def [symmetric] parts
    unfolding m2_def [symmetric] m3(1) unfolding prod.case m4_def [symmetric] unfolding m5(1) lost_def by simp
  have frame: "ss_context_id (mg_state m5) = ss_context_id (mg_state m)" "ss_watermark (mg_state m5) = va_counter v"
    "sr_error (mg_report m5) = sr_error (mg_report m)"
    using m5(3) known(2) m3(3) pulled(2) by (simp_all add: same_frame_def m2_def m0_def)
  have here: "here_at cd m5 k = merged_at cd v m k" for k
    using known(4) pulled(4) [of k] m5(4) m3(4) by (simp add: m2_def m0_def merged_at_def)
  have base5: "base_at m5 k = (if (k, DeletedIt) \<in> set ds then None
      else case map_of (rev (concat (map written_base os))) k of None \<Rightarrow> server_base v k | Some b \<Rightarrow> Some b)" for k
    using m5(5) known(3) m3(5) base2 by (simp add: map_add_def)
  have unwritten: "map_of (rev (concat (map written_base os))) k = None" if "k \<notin> fst ` set os" for k
    using written_lookup [OF keys(1), of k] that by (cases "map_of (rev (concat (map written_base os))) k") force+
  have base: "base_at m5 k = server_base v' k" for k
  proof (cases rule: round_fates [OF dev sv kept po, where k = k])
    case quiet: 1
    have "(k, DeletedIt) \<notin> set ds" using quiet(4) by force
    with quiet unwritten show ?thesis by (simp add: base5 server_base_def)
  next
    case stored: (2 x n)
    have "(k, DeletedIt) \<notin> set ds" using stored(6) by force
    moreover have "map_of (rev (concat (map written_base os))) k = Some \<lparr>bs_version = n, bs_value = x\<rparr>"
      unfolding written_lookup [OF keys(1)] using stored(5) by (force simp: written_base_def)
    ultimately show ?thesis using stored(3) by (simp add: base5 server_base_def data_of_def open_envelope)
  next
    case refused: (3 x)
    have "(k, DeletedIt) \<notin> set ds" using refused(5) by force
    moreover have "map_of (rev (concat (map written_base os))) k = None"
    proof (rule ccontr)
      assume "map_of (rev (concat (map written_base os))) k \<noteq> None"
      then obtain b x' w' where w': "(k, x', w') \<in> set os" "(k, b) \<in> set (written_base (k, x', w'))"
        using written_lookup [OF keys(1)] by blast
      from eq_key_imp_eq_value [OF keys(1) refused(4) w'(1)] w'(2) show False by (auto simp: written_base_def)
    qed
    ultimately show ?thesis using refused(3) by (simp add: base5 server_base_def)
  next
    case deleted: 4
    then show ?thesis by (simp add: base5)
  next
    case moved: 5
    have "(k, DeletedIt) \<notin> set ds" using eq_key_imp_eq_value [OF keys(2) moved(3)] by blast
    with moved unwritten show ?thesis by (simp add: base5 server_base_def)
  qed
  have found: "live_data v' k = merged_at cd v m k" if "\<not> lost" for k
  proof (cases rule: round_fates [OF dev sv kept po, where k = k])
    case quiet: 1
    then show ?thesis by (simp add: merged_at_def live_data_def)
  next
    case stored: (2 x n)
    then have "map_option bs_value (base_at m k) = live_data v k" by (simp add: live_server_base)
    with stored(1,3) show ?thesis by (simp add: merged_at_def live_data_def data_of_def open_envelope)
  next
    case refused: (3 x)
    then have "?raced \<noteq> []" by (force simp: raced_by_def)
    with that show ?thesis by (simp add: lost_def)
  next
    case deleted: 4
    then show ?thesis using live_server_base [of v' k] by simp
  next
    case moved: 5
    with that show ?thesis by (auto simp: lost_def)
  qed
  have quiet: "\<not> lost" if all: "\<forall>k. base_at m k = server_base v k"
  proof
    assume lost
    then consider k x r where "(k, x, r) \<in> set os" "wt_outcome r = WriteConflict" | k where "(k, DeleteConflict) \<in> set ds"
      by (auto simp: lost_def raced_by_def split: if_splits)
    then show False
    proof cases
      case (1 k x r)
      with put_in(1) [OF 1(1)] all show False by auto
    next
      case (2 k)
      then have "k \<in> fst ` set ds" by force
      with all 2 eq_key_imp_eq_value [OF keys(2)] show False by (cases rule: round_fates [OF dev sv kept po, where k = k]) blast+
    qed
  qed
  have "round_ok cd U G v m v' m5 lost"
    unfolding round_ok_def using m5(2) frame base here found quiet by blast
  with run show ?thesis by blast
qed

end
