(* ===== verification/LiveSync.thy ===== *)
theory LiveSync
  imports SyncRound
begin

text \<open>
  Saving and syncing in a running session (\<open>state_handler/save_coalesce.rs\<close>, \<open>state_handler/vta_sync_driver.rs\<close>, and the
  arms of the event loop in \<open>state_handler/mod.rs\<close> that drive them). Changes mark the configuration dirty; a save of a
  snapshot runs on a thread of its own, one at a time. A cycle of the sync is asked for after a save and on a timer; its
  network half runs as a task, its outcome is folded back when it arrives. Texts shown are left out.
\<close>

section \<open>Coalesced saves\<close>

definition debounce :: duration where "debounce = 750000000"

record save_scheduler =
  sv_profile :: string
  sv_dirty :: bool
  sv_in_flight :: bool
  sv_deadline :: "instant option"

datatype skip_reason = NotDirty | SaveInFlight

record 'c pending_save =
  pn_snapshot :: 'c
  pn_profile :: string

definition new_scheduler :: "string \<Rightarrow> save_scheduler" where
  "new_scheduler profile = \<lparr>sv_profile = profile, sv_dirty = False, sv_in_flight = False, sv_deadline = None\<rparr>"

definition arm :: "instant \<Rightarrow> save_scheduler \<Rightarrow> save_scheduler" where
  "arm now s = (if sv_deadline s = None then s\<lparr>sv_deadline := Some (now + debounce)\<rparr> else s)"

definition mark_dirty_at :: "instant \<Rightarrow> save_scheduler \<Rightarrow> save_scheduler" where
  "mark_dirty_at now s = arm now (s\<lparr>sv_dirty := True\<rparr>)"

text \<open>\<open>wait_deadline\<close>: the deadline has passed; without one it never has.\<close>

definition deadline_passed :: "instant \<Rightarrow> save_scheduler \<Rightarrow> bool" where
  "deadline_passed now s \<longleftrightarrow> (case sv_deadline s of None \<Rightarrow> False | Some d \<Rightarrow> d \<le> now)"

text \<open>\<open>snapshot\<close> is what \<open>snapshot_fn\<close> answers.\<close>

definition take_for_save ::
  "instant \<Rightarrow> string + 'c \<Rightarrow> save_scheduler \<Rightarrow> save_scheduler \<times> (skip_reason + (string + 'c pending_save))" where
  "take_for_save now snapshot s =
     (if sv_in_flight s then (s\<lparr>sv_deadline := None\<rparr>, Inl SaveInFlight)
      else if \<not> sv_dirty s then (s\<lparr>sv_deadline := None\<rparr>, Inl NotDirty)
      else case snapshot of
             Inr c \<Rightarrow> (s\<lparr>sv_dirty := False, sv_deadline := None, sv_in_flight := True\<rparr>,
                       Inr (Inr \<lparr>pn_snapshot = c, pn_profile = sv_profile s\<rparr>))
           | Inl e \<Rightarrow> (s\<lparr>sv_deadline := Some (now + debounce)\<rparr>, Inr (Inl e)))"

definition finish_save :: "instant \<Rightarrow> bool \<Rightarrow> save_scheduler \<Rightarrow> save_scheduler" where
  "finish_save now succeeded s =
     (let s = s\<lparr>sv_in_flight := False\<rparr>;
          s = (if succeeded then s else s\<lparr>sv_dirty := True\<rparr>)
      in if sv_dirty s then arm now s else s)"

text \<open>\<open>flush\<close>: the snapshot is taken and written at once; \<open>written\<close> is the outcome.\<close>

definition flush_save :: "string + 'c \<Rightarrow> string + unit \<Rightarrow> save_scheduler \<Rightarrow> save_scheduler \<times> (string + unit)" where
  "flush_save snapshot written s =
     (case snapshot of
        Inl e \<Rightarrow> (s, Inl e)
      | Inr _ \<Rightarrow> (case written of Inl e \<Rightarrow> (s, Inl e) | Inr _ \<Rightarrow> (s\<lparr>sv_dirty := False, sv_deadline := None\<rparr>, Inr ())))"

definition snapshot_now :: "string + 'c \<Rightarrow> save_scheduler \<Rightarrow> string + 'c pending_save" where
  "snapshot_now snapshot s = rbind snapshot (\<lambda>c. Inr \<lparr>pn_snapshot = c, pn_profile = sv_profile s\<rparr>)"

definition needs_flush :: "save_scheduler \<Rightarrow> bool" where
  "needs_flush s \<longleftrightarrow> sv_dirty s \<or> sv_in_flight s"

definition clear_after_external_save :: "save_scheduler \<Rightarrow> save_scheduler" where
  "clear_after_external_save s = s\<lparr>sv_dirty := False, sv_deadline := None\<rparr>"

section \<open>When a cycle starts\<close>

definition min_gap :: duration where "min_gap = seconds 5"
definition pull_every :: duration where "pull_every = seconds 60"
definition backoff_start :: duration where "backoff_start = seconds 30"
definition backoff_max :: duration where "backoff_max = seconds 600"

record sync_driver =
  sd_in_flight :: bool
  sd_disabled :: bool
  sd_wanted :: bool
  sd_not_before :: instant
  sd_next_pull :: instant
  sd_failures :: nat

definition new_driver :: "instant \<Rightarrow> sync_driver" where
  "new_driver now =
     \<lparr>sd_in_flight = False, sd_disabled = False, sd_wanted = False, sd_not_before = now,
      sd_next_pull = now + pull_every, sd_failures = 0\<rparr>"

definition request_cycle :: "sync_driver \<Rightarrow> sync_driver" where
  "request_cycle d = d\<lparr>sd_wanted := True\<rparr>"

definition should_start :: "instant \<Rightarrow> sync_driver \<Rightarrow> sync_driver \<times> bool" where
  "should_start now d =
     (if sd_disabled d \<or> sd_in_flight d \<or> now < sd_not_before d then (d, False)
      else let d = (if sd_next_pull d \<le> now then d\<lparr>sd_wanted := True\<rparr> else d)
           in if \<not> sd_wanted d then (d, False)
              else (d\<lparr>sd_in_flight := True, sd_wanted := False, sd_next_pull := now + pull_every\<rparr>, True))"

definition backoff :: "nat \<Rightarrow> duration" where
  "backoff failures = min (backoff_start * 2 ^ min (failures - 1) 8) backoff_max"

definition cycle_finished :: "instant \<Rightarrow> sync_error option \<Rightarrow> sync_driver \<Rightarrow> sync_driver \<times> bool" where
  "cycle_finished now error d =
     (let d = d\<lparr>sd_in_flight := False\<rparr> in
      case error of
        None \<Rightarrow> (d\<lparr>sd_failures := 0, sd_not_before := now + min_gap\<rparr>, False)
      | Some e \<Rightarrow>
          if is_transient e
          then (let n = sd_failures d + 1
                in (d\<lparr>sd_failures := n, sd_not_before := now + backoff n, sd_wanted := True\<rparr>, n = 1))
          else case e of
                 SyncContract _ \<Rightarrow>
                   (let n = sd_failures d + 1
                    in (d\<lparr>sd_failures := n, sd_not_before := now + backoff_max\<rparr>, n = 1))
               | _ \<Rightarrow> (d\<lparr>sd_disabled := True\<rparr>, True))"

section \<open>The event loop\<close>

text \<open>
  The configuration as far as it is synced, the two schedulers, and what is under way outside the loop: a snapshot being
  written, its result, a request for an exchange and its answer. \<open>lv_disk\<close> is what the files hold.
\<close>

record live_loop =
  lv_parts :: sync_parts
  lv_sync :: sync_state
  lv_save :: save_scheduler
  lv_driver :: sync_driver
  lv_disk :: "sync_parts \<times> sync_state"
  lv_writing :: "(sync_parts \<times> sync_state) option"
  lv_written :: "bool option"
  lv_request :: "(string \<times> nat \<times> outgoing) option"
  lv_answer :: "exchange option"

definition home_context :: "live_loop \<Rightarrow> string" where
  "home_context l = ac_top_context_id (sp_account (lv_parts l))"

text \<open>\<open>save.wait_deadline()\<close>; the snapshot may fail.\<close>

definition deadline_arm :: "instant \<Rightarrow> string option \<Rightarrow> live_loop \<Rightarrow> live_loop" where
  "deadline_arm now failed l =
     (case take_for_save now (case failed of None \<Rightarrow> Inr (lv_parts l, lv_sync l) | Some e \<Rightarrow> Inl e) (lv_save l) of
        (s, Inr (Inr pending)) \<Rightarrow> l\<lparr>lv_save := s, lv_writing := Some (pn_snapshot pending)\<rparr>
      | (s, _) \<Rightarrow> l\<lparr>lv_save := s\<rparr>)"

text \<open>\<open>save_done_rx\<close>.\<close>

definition save_done_arm :: "instant \<Rightarrow> bool \<Rightarrow> live_loop \<Rightarrow> live_loop" where
  "save_done_arm now ok l =
     l\<lparr>lv_written := None, lv_driver := (if ok then request_cycle (lv_driver l) else lv_driver l),
       lv_save := finish_save now ok (lv_save l)\<rparr>"

text \<open>\<open>vta_sync_tick\<close>; \<open>online\<close> is whether the session has its VTA client.\<close>

definition tick_arm :: "sync_codec \<Rightarrow> bool \<Rightarrow> instant \<Rightarrow> live_loop \<Rightarrow> live_loop" where
  "tick_arm cd online now l =
     (if \<not> online \<or> home_context l = [] then l
      else case should_start now (lv_driver l) of
             (d, False) \<Rightarrow> l\<lparr>lv_driver := d\<rparr>
           | (d, True) \<Rightarrow>
               (let st = bind_context (home_context l) (lv_sync l)
                in l\<lparr>lv_driver := d, lv_sync := st,
                     lv_request := Some (home_context l, ss_watermark st, outgoing_of cd (lv_parts l) st)\<rparr>))"

text \<open>\<open>vta_sync_rx\<close>; the report is what the lines shown are made of.\<close>

definition answer_arm :: "sync_codec \<Rightarrow> instant \<Rightarrow> exchange \<Rightarrow> live_loop \<Rightarrow> live_loop \<times> sync_report" where
  "answer_arm cd now ex l =
     (let (m, lost) = absorb cd ex ApplyLive \<lparr>mg_parts = lv_parts l, mg_state = lv_sync l, mg_report = no_report\<rparr>;
          d = fst (cycle_finished now (sr_error (mg_report m)) (lv_driver l));
          d = (if lost then request_cycle d else d);
          s = (if touched (mg_report m) then mark_dirty_at now (lv_save l) else lv_save l)
      in (l\<lparr>lv_parts := mg_parts m, lv_sync := mg_state m, lv_driver := d, lv_save := s, lv_answer := None\<rparr>, mg_report m))"

text \<open>A change made by a user's action or an inbound message: it marks the configuration dirty.\<close>

definition changed_arm :: "instant \<Rightarrow> sync_parts \<Rightarrow> live_loop \<Rightarrow> live_loop" where
  "changed_arm now p l = l\<lparr>lv_parts := p, lv_save := mark_dirty_at now (lv_save l)\<rparr>"

text \<open>A change of protection or an export: the configuration is written on the loop's own thread.\<close>

definition external_save :: "live_loop \<Rightarrow> live_loop" where
  "external_save l = l\<lparr>lv_disk := (lv_parts l, lv_sync l), lv_save := clear_after_external_save (lv_save l)\<rparr>"

text \<open>Leaving the loop: the save under way is awaited, then what is left is written.\<close>

definition await_save :: "instant \<Rightarrow> live_loop \<Rightarrow> live_loop" where
  "await_save now l =
     (case lv_written l of None \<Rightarrow> l | Some ok \<Rightarrow> l\<lparr>lv_written := None, lv_save := finish_save now ok (lv_save l)\<rparr>)"

definition last_save :: "live_loop \<Rightarrow> live_loop" where
  "last_save l = (if needs_flush (lv_save l) then l\<lparr>lv_disk := (lv_parts l, lv_sync l)\<rparr> else l)"

text \<open>The thread that writes: it succeeds, or fails with anything in the files.\<close>

definition thread_writes :: "(sync_parts \<times> sync_state) option \<Rightarrow> live_loop \<Rightarrow> live_loop" where
  "thread_writes spoilt l =
     (case (lv_writing l, spoilt) of
        (None, _) \<Rightarrow> l
      | (Some c, None) \<Rightarrow> l\<lparr>lv_disk := c, lv_writing := None, lv_written := Some True\<rparr>
      | (Some c, Some d) \<Rightarrow> l\<lparr>lv_disk := d, lv_writing := None, lv_written := Some False\<rparr>)"

text \<open>What happens in the loop, in any order; an external save is not held up by a save under way.\<close>

datatype live_event = ChangeMade | SaveDue | ThreadWrote | SaveReported | SyncTicked | ExchangeDone | ExchangeReported | SavedOutside

inductive live_step :: "sync_codec \<Rightarrow> live_event \<Rightarrow> live_loop \<Rightarrow> live_loop \<Rightarrow> bool" for cd where
  step_changed: "live_step cd ChangeMade l (changed_arm now p l)"
| step_deadline: "deadline_passed now (lv_save l) \<Longrightarrow> live_step cd SaveDue l (deadline_arm now failed l)"
| step_written: "live_step cd ThreadWrote l (thread_writes spoilt l)"
| step_saved: "lv_written l = Some ok \<Longrightarrow> live_step cd SaveReported l (save_done_arm now ok l)"
| step_tick: "live_step cd SyncTicked l (tick_arm cd online now l)"
| step_exchanged: "lv_request l = Some r \<Longrightarrow> live_step cd ExchangeDone l (l\<lparr>lv_request := None, lv_answer := Some ex\<rparr>)"
| step_answered: "lv_answer l = Some ex \<Longrightarrow> live_step cd ExchangeReported l (fst (answer_arm cd now ex l))"
| step_external: "live_step cd SavedOutside l (external_save l)"

inductive_cases live_stepE: "live_step cd ev l l'"

text \<open>
  Whether the writing thread may still put an older snapshot over an external save: one was made while a save was under
  way, and no snapshot has been taken since.
\<close>

definition overtaken_by :: "live_event \<Rightarrow> live_loop \<Rightarrow> live_loop \<Rightarrow> bool \<Rightarrow> bool" where
  "overtaken_by ev l l' before \<longleftrightarrow>
     (if ev = SavedOutside \<and> sv_in_flight (lv_save l) then True
      else if ev = SaveDue \<and> \<not> sv_in_flight (lv_save l) \<and> sv_in_flight (lv_save l') then False
      else before)"

inductive watched_step :: "sync_codec \<Rightarrow> bool \<times> live_loop \<Rightarrow> bool \<times> live_loop \<Rightarrow> bool" for cd where
  "live_step cd ev l l' \<Longrightarrow> watched_step cd (overtaken, l) (overtaken_by ev l l' overtaken, l')"

inductive_cases watched_stepE: "watched_step cd (b, l) bl"

definition session_start :: "string \<Rightarrow> instant \<Rightarrow> sync_parts \<Rightarrow> sync_state \<Rightarrow> live_loop" where
  "session_start profile now p st =
     \<lparr>lv_parts = p, lv_sync = st, lv_save = new_scheduler profile, lv_driver = new_driver now, lv_disk = (p, st),
      lv_writing = None, lv_written = None, lv_request = None, lv_answer = None\<rparr>"

end
