(* ===== verification/SyncLaws.thy ===== *)
theory SyncLaws
  imports SyncRound
begin

text \<open>
  The sync at load as a whole: within its rounds it ends without an error, the configuration and the VTA hold the same
  records, and each is the three-way merge of what stood before. Two devices that sync in turn come to agree.
\<close>

section \<open>A round, and the loop of rounds\<close>







section \<open>A load\<close>

definition device_of :: "sync_parts \<Rightarrow> sync_state \<Rightarrow> merging" where
  "device_of p st = \<lparr>mg_parts = p, mg_state = st, mg_report = no_report\<rparr>"








section \<open>What is sent\<close>

lemma sent_entry:
  assumes "(k, x, n) \<in> set (og_puts (outgoing_of cd p st))"
  shows "\<exists>kd. of_key k = Some kd \<and> (k, x) \<in> set (kind_entries cd p kd)"
proof -
  have "(k, x) \<in> set (project cd p)"
    using assms by (auto simp: outgoing_of_def put_for_def Let_def split: if_splits)
  then have "map_of (project cd p) k = Some x" using map_of_in_order_mem [OF in_order_project] by blast
  then obtain kd where "of_key k = Some kd" "map_of (rev (kind_entries cd p kd)) k = Some x"
    by (auto simp: map_of_project split: option.splits)
  then show ?thesis using map_of_SomeD by fastforce
qed

definition engine_free :: "json \<Rightarrow> bool" where
  "engine_free x \<longleftrightarrow> jget ''hidden_vetter'' x = None \<and> jget ''pcs_inbox'' x = None \<and>
     (\<forall>vs a. jget ''applications'' x = Some (JArray vs) \<longrightarrow> a \<in> set vs \<longrightarrow>
        jget ''hidden_app'' a = None \<and> jget ''hidden_state'' a = None)"

lemma stripped_application: "jget ''hidden_app'' (strip_application a) = None" "jget ''hidden_state'' (strip_application a) = None"
  by (cases a; simp)+

lemma stripped_book:
  assumes "vetting_json cd b = Some x"
  shows "engine_free x"
proof (cases "enc_book cd b")
  case (Some y)
  show ?thesis
  proof (cases "\<exists>ms. y = JObject ms")
    case True
    then obtain ms where ms: "y = JObject ms" by blast
    let ?ms = "drop_key ''pcs_inbox'' (drop_key ''hidden_vetter'' ms)"
    have x: "x = JObject (strip_applications ?ms)" using assms Some ms by (simp add: vetting_json_def Let_def split: if_splits)
    have absent: "map_of ?ms ''hidden_vetter'' = None" "map_of ?ms ''pcs_inbox'' = None" by simp_all
    show ?thesis
    proof (cases "\<exists>vs. map_of ?ms ''applications'' = Some (JArray vs)")
      case True
      then obtain vs where "map_of ?ms ''applications'' = Some (JArray vs)" by blast
      then have "strip_applications ?ms = put ''applications'' (JArray (map strip_application vs)) ?ms"
        by (simp add: strip_applications_def)
      with absent show ?thesis unfolding x engine_free_def by (auto simp: stripped_application)
    next
      case False
      then have "strip_applications ?ms = ?ms" by (auto simp: strip_applications_def split: option.split json.split)
      with absent False show ?thesis unfolding x engine_free_def by auto
    qed
  next
    case False
    then have "x = y" using assms Some by (cases y) (auto simp: vetting_json_def)
    with False show ?thesis by (cases y) (auto simp: engine_free_def)
  qed
qed (use assms in \<open>simp add: vetting_json_def\<close>)

section \<open>The properties\<close>



text \<open>(C5) 
  Writing one record to the configuration succeeds for a value that decodes as it encodes, keeps the configuration
  well formed, and changes what is projected at that key only.
\<close>

theorem record_written:
  assumes "codec_ok cd U" "parts_ok cd U p" "good_change cd U k v"
  shows "\<exists>p'. apply_record cd p k v = Inr p' \<and> parts_ok cd U p' \<and> map_of (project cd p') = (map_of (project cd p))(k := v)"
  using records.writes_one [of cd U p k v] assms by blast

text \<open>(C6) 
  A merge is the three-way merge path by path. Where the two sides do not both hold an object, the result is this
  device's value exactly where the VTA's is the base's and no conflict is at or above the path, and the VTA's value
  everywhere else; where both hold objects, so does the result. The conflicts reported are exactly the paths where both
  sides changed the value, to different values that are not both objects, below objects on both sides.
\<close>

theorem edits_kept:
  shows "(\<not> (is_object (at here q) \<and> is_object (at there q)) \<longrightarrow>
       at (fst (merge3 base here there path)) q =
         (if at there q = at base q \<and> \<not> clash_above base here there q then at here q else at there q)) \<and>
    (is_object (at here q) \<and> is_object (at there q) \<longrightarrow> is_object (at (fst (merge3 base here there path)) q)) \<and>
    set (snd (merge3 base here there path)) = {reported path q |q. clash base here there q}"
  using merge3_at merge3_structure merge3_conflicts by blast
text \<open>(C7) 
  What goes out holds no key material: a key reference names a key the VTA manages, and the vetting book goes out
  without the vetter engine's state, the sealed replies and the applications' engines.
\<close>

theorem no_secret_leaves:
  assumes "(k, x, n) \<in> set (og_puts (outgoing_of cd p st))"
  shows "(of_key k = Some SyncKey \<longrightarrow>
      (\<exists>name i. (name, i) \<in> set (sp_key_info p) \<and> is_vta_managed i \<and> key_record cd name i = Some x)) \<and>
    (of_key k = Some SyncVetting \<longrightarrow> engine_free x)"
proof -
  obtain kd where kd: "of_key k = Some kd" "(k, x) \<in> set (kind_entries cd p kd)" using sent_entry [OF assms] by blast
  have "\<exists>name i. (name, i) \<in> set (sp_key_info p) \<and> is_vta_managed i \<and> key_record cd name i = Some x" if "kd = SyncKey"
  proof -
    from kd(2) that obtain name i where "(name, i) \<in> set (sp_key_info p)" "key_record cd name i = Some x"
      by (auto simp: key_entries_def set_entry_of)
    moreover from this(2) have "is_vta_managed i" by (simp add: key_record_def split: if_splits)
    ultimately show ?thesis by blast
  qed
  moreover have "engine_free x" if "kd = SyncVetting" using kd(2) that stripped_book by (auto simp: set_entry_of)
  ultimately show ?thesis using kd(1) by simp
qed

text \<open>Why a change cannot be taken into the configuration: its envelope, or its value, cannot be read.\<close>

definition why_unread :: "sync_codec \<Rightarrow> (string \<times> json) list \<Rightarrow> apply_mode \<Rightarrow> record_kind \<Rightarrow> remote_record \<Rightarrow> merging \<Rightarrow> string option" where
  "why_unread cd local mode kd r m =
     (case change_data kd r of
        Inl what \<Rightarrow> Some what
      | Inr data \<Rightarrow>
          (let here = map_of local (rr_key r);
               merged = fst (merge3 (map_option bs_value (map_of (ss_base (mg_state m)) (rr_key r))) here data [])
           in if mode = ApplyLive \<and> \<not> applies_live cd kd data (mg_parts m) \<or> merged = here then None
              else case apply_record cd (mg_parts m) (rr_key r) merged of
                     Inl e \<Rightarrow> Some (''a '' @ kind_noun kd @ '': '' @ e)
                   | Inr _ \<Rightarrow> None))"

lemma apply_unread:
  assumes "of_key (rr_key r) = Some kd" "why_unread cd local mode kd r m = Some what"
    and "\<not> stale (map_of (ss_base (mg_state m)) (rr_key r)) (rr_version r)"
  shows "apply_change cd local mode r m = hold_back (rr_key r) r (say_unreadable what m)"
  using assms
  by (auto simp: apply_change_def why_unread_def stale_def merge_in_def Let_def split: option.splits sum.splits if_splits prod.splits)

lemma held_not_sent:
  assumes "map_of (ss_deferred st) k = Some r"
  shows "k \<notin> fst ` set (og_puts (outgoing_of cd p st))" "k \<notin> fst ` set (og_deletes (outgoing_of cd p st))"
  using assms by (auto simp: outgoing_of_def put_for_def Let_def split: if_splits)

abbreviation held_at :: "merging \<Rightarrow> string \<Rightarrow> remote_record option" where
  "held_at m k \<equiv> map_of (ss_deferred (mg_state m)) k"

lemma held_frames [simp]:
  "ss_base (mg_state (hold_back k r m)) = ss_base (mg_state m)" "ss_rejected (mg_state (hold_back k r m)) = ss_rejected (mg_state m)"
  "mg_state (say_unreadable w m) = mg_state m"
  by (simp_all add: hold_back_def say_unreadable_def)

lemma merge_in_other:
  "rr_key r \<noteq> k \<Longrightarrow> base_at (merge_in cd here kd r data m) k = base_at m k"
  "ss_rejected (mg_state (merge_in cd here kd r data m)) = ss_rejected (mg_state m)"
  by (simp_all add: merge_in_def Let_def agree_state split: prod.split sum.split)

lemma apply_change_cases:
  "apply_change cd local mode r m = m \<or> (\<exists>here kd data. apply_change cd local mode r m = merge_in cd here kd r data m) \<or>
   (\<exists>what. apply_change cd local mode r m = hold_back (rr_key r) r (say_unreadable what m)) \<or>
   mg_state (apply_change cd local mode r m) = mg_state (hold_back (rr_key r) r m)"
  by (auto simp: apply_change_def Let_def split: option.split sum.split)

lemma merge_in_held: "rr_key r \<noteq> k \<Longrightarrow> held_at (merge_in cd here kd r data m) k = held_at m k"
  by (simp add: merge_in_def Let_def hold_back_def say_unreadable_def agree_state say_conflicts_def say_pulled_def split: prod.split sum.split)

lemma apply_change_held: "rr_key r \<noteq> k \<Longrightarrow> held_at (apply_change cd local mode r m) k = held_at m k"
  using apply_change_cases [of cd local mode r m] merge_in_held [of r k]
  by (elim disjE exE) (simp_all add: hold_back_def say_unreadable_def)

lemma latest_changes_subset: "set (latest_changes rs) \<subseteq> set rs"
proof
  fix r assume "r \<in> set (latest_changes rs)"
  then obtain k where "(k, r) \<in> set (put_all (map (\<lambda>r. (rr_key r, r)) (sort_key rr_version rs)) [])"
    by (auto simp: latest_changes_def)
  moreover have "in_order (put_all (map (\<lambda>r. (rr_key r, r)) (sort_key rr_version rs)) [])" by (simp add: in_order_put_all)
  ultimately have "map_of (rev (map (\<lambda>r. (rr_key r, r)) (sort_key rr_version rs))) k = Some r"
    using map_of_in_order_mem by (fastforce simp: map_of_put_all)
  then show "r \<in> set rs" using map_of_SomeD by fastforce
qed

lemma apply_remote_held:
  assumes "k \<notin> rr_key ` set rs"
  shows "held_at (apply_remote cd rs mode m) k = held_at m k"
proof -
  have "held_at (fold (apply_change cd local mode) rs' m) k = held_at m k" if "k \<notin> rr_key ` set rs'" for local rs'
    using that by (induction rs' arbitrary: m) (auto simp: apply_change_held)
  moreover have "k \<notin> rr_key ` set (latest_changes rs)" using assms latest_changes_subset by blast
  ultimately show ?thesis by (simp add: apply_remote_def)
qed

lemma absorb_put_held: "ss_deferred (mg_state (fst (absorb_put cd e mr))) = ss_deferred (mg_state (fst mr))"
  by (auto simp: absorb_put_def Let_def split: prod.splits write_outcome.splits option.splits)

lemma absorb_puts_held: "ss_deferred (mg_state (fst (fold (absorb_put cd) es mr))) = ss_deferred (mg_state (fst mr))"
  by (rule fold_invariant) (simp_all add: absorb_put_held)

lemma absorb_delete_held: "ss_deferred (mg_state (fst (absorb_delete e mb))) = ss_deferred (mg_state (fst mb))"
  by (cases e; cases mb; cases "snd e") (simp_all add: absorb_delete_def)

lemma absorb_deletes_held: "ss_deferred (mg_state (fst (fold absorb_delete es mb))) = ss_deferred (mg_state (fst mb))"
  by (rule fold_invariant) (simp_all add: absorb_delete_held)

lemma absorb_puts_raced:
  "k \<notin> fst ` set os \<Longrightarrow> k \<notin> rr_key ` set (snd mr) \<Longrightarrow> k \<notin> rr_key ` set (snd (fold (absorb_put cd) os mr))"
proof (induction os arbitrary: mr)
  case (Cons e os)
  have "k \<notin> rr_key ` set (snd (absorb_put cd e mr))"
    using Cons.prems by (auto simp: absorb_put_def Let_def split: prod.splits write_outcome.splits option.splits)
  with Cons show ?case by simp
qed simp

lemma absorb_held:
  assumes "k \<notin> rr_key ` set (ex_pulled ex @ reaped ex (mg_state m))" "k \<notin> fst ` set (ex_puts ex)"
  shows "held_at (fst (absorb cd ex mode m)) k = held_at m k"
proof -
  let ?pulled = "ex_pulled ex @ reaped ex (mg_state m)"
  let ?b = "?pulled \<noteq> [] \<or> ex_puts ex \<noteq> [] \<or> ex_deletes ex \<noteq> []"
  let ?m1 = "adopt_watermark (ex_watermark ex) (apply_remote cd ?pulled mode (note_bookkeeping ?b m))"
  obtain m2 raced where m2: "fold (absorb_put cd) (ex_puts ex) (?m1, []) = (m2, raced)" by fastforce
  obtain m3 lost where m3: "fold absorb_delete (ex_deletes ex) (apply_remote cd raced mode m2, raced \<noteq> []) = (m3, lost)" by fastforce
  have "held_at (fst (absorb cd ex mode m)) k = held_at m3 k"
    unfolding absorb_def Let_def m2 prod.case m3 by (simp split: option.split)
  also have "\<dots> = held_at (apply_remote cd raced mode m2) k"
    using absorb_deletes_held [of "ex_deletes ex" "(apply_remote cd raced mode m2, raced \<noteq> [])"] m3 by simp
  also have "\<dots> = held_at m2 k"
    using absorb_puts_raced [OF assms(2), of "(?m1, [])" cd] m2 by (simp add: apply_remote_held)
  also have "\<dots> = held_at ?m1 k" using absorb_puts_held [of cd "ex_puts ex" "(?m1, [])"] m2 by simp
  also have "\<dots> = held_at (apply_remote cd ?pulled mode (note_bookkeeping ?b m)) k"
    by (simp add: adopt_watermark_def note_bookkeeping_def split: option.split)
  also have "\<dots> = held_at m k" using apply_remote_held [OF assms(1)] by (simp add: note_bookkeeping_def)
  finally show ?thesis .
qed

text \<open>(C8) 
  A record this build cannot read, because its envelope is malformed or of a newer format or because its value is
  refused when it is written into the configuration, is held: the configuration and the base stay as they are, the
  record is kept with a line saying why, and nothing is sent under its key, whatever the configuration becomes. It stays
  held through every exchange that brings nothing for its key. (A record no newer than the base is not looked at. A
  credential inside a readable record is not covered: one that does not decode is dropped, \<open>undecoded_vrc_dropped\<close>.)
\<close>

theorem unread_held:
  assumes "of_key (rr_key r) = Some kd" "why_unread cd local mode kd r m = Some what"
    and "\<not> stale (map_of (ss_base (mg_state m)) (rr_key r)) (rr_version r)"
    and "m' = apply_change cd local mode r m"
  shows "mg_parts m' = mg_parts m \<and> ss_base (mg_state m') = ss_base (mg_state m) \<and>
    map_of (ss_deferred (mg_state m')) (rr_key r) = Some r \<and>
    sr_unreadable (mg_report m') = sr_unreadable (mg_report m) @ [what] \<and>
    rr_key r \<notin> fst ` set (og_puts (outgoing_of cd p (mg_state m'))) \<and>
    rr_key r \<notin> fst ` set (og_deletes (outgoing_of cd p (mg_state m'))) \<and>
    (map_of (ss_deferred (mg_state m'')) (rr_key r) = Some r \<longrightarrow>
     rr_key r \<notin> rr_key ` set (ex_pulled ex @ reaped ex (mg_state m'')) \<union> fst ` set (ex_puts ex) \<longrightarrow>
       map_of (ss_deferred (mg_state (fst (absorb cd ex mode' m'')))) (rr_key r) = Some r)"
proof -
  have m': "m' = hold_back (rr_key r) r (say_unreadable what m)" using apply_unread [OF assms(1-3)] assms(4) by simp
  then have "map_of (ss_deferred (mg_state m')) (rr_key r) = Some r" by (simp add: hold_back_def)
  moreover from held_not_sent [OF this] have "rr_key r \<notin> fst ` set (og_puts (outgoing_of cd p (mg_state m')))"
    "rr_key r \<notin> fst ` set (og_deletes (outgoing_of cd p (mg_state m')))" by simp_all
  ultimately show ?thesis using absorb_held [of "rr_key r" ex m'' cd mode'] by (simp add: m') (simp add: hold_back_def say_unreadable_def)
qed

section \<open>Two devices with one relationship's TSP row\<close>

text \<open>A codec for the examples: only TSP rows, which need none of the item types.\<close>

definition row_codec :: sync_codec where
  "row_codec =
     \<lparr>sy_hex_sha256 = (\<lambda>i. replicate 64 (CHR ''a'')), sy_uuid = (\<lambda>i. decimal (unat i)), sy_uuid_json = (\<lambda>i. None),
      sy_text = (\<lambda>v. []),
      sy_policy = \<lparr>vp_max_open_requests = 10, vp_session_minutes = 15, vp_statement_validity_days = 90,
        vp_card_retention_days = 365, vp_accepts_documentation = []\<rparr>,
      enc_persona = (\<lambda>r. None), dec_persona = (\<lambda>v. Inl []), enc_member = (\<lambda>m. None), dec_member = (\<lambda>v. Inl []),
      enc_relation = (\<lambda>r. None), dec_relation = (\<lambda>v. Inl []), enc_contact = (\<lambda>c. None), dec_contact = (\<lambda>v. Inl []),
      enc_name = (\<lambda>e. None), dec_name = (\<lambda>v. Inl []), enc_vrc = (\<lambda>c. JNull), dec_vrc = (\<lambda>v. Inl []),
      enc_key = (\<lambda>i. None), dec_key = (\<lambda>v. Inl []), enc_book = (\<lambda>b. None), dec_book = (\<lambda>v. Inl []),
      enc_witness = (\<lambda>r. None), dec_witness = (\<lambda>v. Inl [])\<rparr>"

definition row_key :: string where "row_key = ''v1/tsp/'' @ replicate 32 (CHR ''a'')"

definition row_json :: "string \<Rightarrow> json" where
  "row_json r = JObject [(''key'', JString ''peer''), (''value'', JString r)]"


definition row_parts :: "(string \<times> string) list \<Rightarrow> sync_parts" where
  "row_parts rows =
     \<lparr>sp_account = \<lparr>ac_vta_did = [], ac_vta_url = [], ac_top_context_id = ''acct'', ac_personas = [], ac_communities = [],
        ac_preferred_did_method = None, ac_scid_also_known_as = None, ac_extra = []\<rparr>,
      sp_relationships = no_relationships, sp_contacts = [], sp_aliases = [], sp_agent_names = [], sp_tsp = rows,
      sp_vrcs_issued = vrcs_empty, sp_vrcs_received = vrcs_empty, sp_vetting = empty_book (sy_policy row_codec),
      sp_witnessings = [], sp_key_info = []\<rparr>"

definition row_state :: sync_state where
  "row_state = \<lparr>ss_context_id = ''acct'', ss_watermark = 1,
     ss_base = [(row_key, \<lparr>bs_version = 1, bs_value = row_json ''one''\<rparr>)], ss_deferred = [], ss_rejected = [], ss_load_report = None\<rparr>"

definition row_server :: vta_records where
  "row_server = \<lparr>va_counter = 1, va_records = [(row_key, 1, False, Some (envelope (row_json ''one'')))], va_reaped = 0\<rparr>"

lemma row_codec_ok: "codec_ok row_codec {''peer''}"
proof -
  have "inj (\<lambda>i::128 word. decimal (unat i))"
    by (rule injI) (metis option.inject parse_decimal word_unat_eq_iff)
  then show ?thesis by (simp add: codec_ok_def row_codec_def)
qed

lemma row_simple_key: "simple_key row_codec SyncTsp i = row_key"
  by (simp add: simple_key_def key_segment_def row_codec_def row_key_def kind_prefix.simps)

lemma row_project [simp]: "project row_codec (row_parts []) = []" "project row_codec (row_parts [(''peer'', r)]) = [(row_key, row_json r)]"
  by (simp_all add: project_def all_kinds_def entries_defs tsp_entries_def row_parts_def memberships_def no_relationships_def
      row_simple_key row_json_def witness_entries_def vrcs_empty_def vetting_json_def put_all_def entry_of_def)
    (simp_all add: row_codec_def)


lemma row_of_key: "of_key row_key = Some SyncTsp"
  by (metis of_key_keys(1) row_simple_key)





lemma row_parts_ok: "parts_ok row_codec {''peer''} (row_parts [])" "parts_ok row_codec {''peer''} (row_parts [(''peer'', r)])"
  by (simp_all add: parts_ok_def row_parts_def vrcs_ok_def no_relationships_def vrcs_empty_def)

lemma row_server_at [simp]:
  "entry_at row_server k = (if k = row_key then Some (1, False, Some (envelope (row_json ''one''))) else None)"
  by (simp add: row_server_def)











theorem record_written_witness:
  "\<exists>p'. apply_record row_codec (row_parts []) row_key (Some (row_json ''one'')) = Inr p' \<and> parts_ok row_codec {''peer''} p' \<and>
     map_of (project row_codec p') = (map_of (project row_codec (row_parts [])))(row_key := Some (row_json ''one''))"
proof -
  have "good_change row_codec {''peer''} row_key (Some (row_json ''one''))"
    by (simp add: good_change_def row_of_key row_json_def row_simple_key)
  from record_written [OF row_codec_ok row_parts_ok(1) this] show ?thesis .
qed

theorem edits_kept_witness:
  "let merged = fst (merge3 (Some (row_json ''one'')) (Some (JObject [(''key'', JString ''peer''), (''note'', JString ''mine''), (''value'', JString ''one'')]))
       (Some (row_json ''two'')) [])
   in at merged [''value''] = Some (JString ''two'') \<and> at merged [''note''] = Some (JString ''mine'')"
proof -
  let ?b = "Some (row_json ''one'')" and ?t = "Some (row_json ''two'')"
  let ?h = "Some (JObject [(''key'', JString ''peer''), (''note'', JString ''mine''), (''value'', JString ''one'')])"
  note one = edits_kept [of ?h "[''value'']" ?t ?b "[]"] and two = edits_kept [of ?h "[''note'']" ?t ?b "[]"]
  from one two show ?thesis by (simp add: row_json_def jmember_def Let_def)
qed

text \<open>A device with one key at the VTA and a book with an engine's state.\<close>

definition key_codec :: sync_codec where
  "key_codec = row_codec\<lparr>enc_key := (\<lambda>i. Some JNull),
     enc_book := (\<lambda>b. Some (JObject [(''applications'', JArray [JObject [(''hidden_app'', JString ''s''), (''id'', JString ''1'')]]),
       (''hidden_vetter'', JString ''s'')]))\<rparr>"

definition key_parts :: sync_parts where
  "key_parts = (row_parts [])\<lparr>sp_key_info := [(''k'', \<lparr>ki_path = VtaManaged ''ref'', ki_create_time = 0, ki_purpose = PersonaSigning\<rparr>)]\<rparr>"

theorem no_secret_leaves_witness:
  "(\<exists>name i. (name, i) \<in> set (sp_key_info key_parts) \<and> is_vta_managed i \<and>
      key_record key_codec name i = Some (JObject [(''info'', JNull), (''name'', JString ''k'')])) \<and>
   engine_free (JObject [(''applications'', JArray [JObject [(''id'', JString ''1'')]])])"
proof -
  have "ss_deferred fresh_state = []" "ss_rejected fresh_state = []" by (simp_all add: fresh_state_def)
  note puts = outgoing_puts(1) [OF this, where cd = key_codec and p = key_parts]
  let ?k = "simple_key key_codec SyncKey ''k''"
  have "(?k, JObject [(''info'', JNull), (''name'', JString ''k'')], 0) \<in> set (og_puts (outgoing_of key_codec key_parts fresh_state))"
    unfolding puts by (simp add: fresh_state_def map_of_project key_entries_def key_parts_def key_record_def entry_of_def) (simp add: key_codec_def)
  from no_secret_leaves [OF this] have one: "\<exists>name i. (name, i) \<in> set (sp_key_info key_parts) \<and> is_vta_managed i \<and>
      key_record key_codec name i = Some (JObject [(''info'', JNull), (''name'', JString ''k'')])" by simp
  have "(kind_prefix SyncVetting, JObject [(''applications'', JArray [JObject [(''id'', JString ''1'')]])], 0)
      \<in> set (og_puts (outgoing_of key_codec key_parts fresh_state))"
    unfolding puts by (simp add: fresh_state_def map_of_project entry_of_def vetting_json_def)
      (simp add: key_codec_def drop_key_def strip_applications_def)
  from no_secret_leaves [OF this] one show ?thesis by simp
qed

text \<open>A row written in format 2.\<close>

definition newer_row :: remote_record where
  "newer_row = \<lparr>rr_key = row_key, rr_version = 2, rr_deleted = False,
     rr_value = Some (JObject [(''data'', row_json ''two''), (''schemaVersion'', JNumber (decimal 2))])\<rparr>"

theorem unread_held_witness:
  "let m = device_of (row_parts [(''peer'', ''one'')]) row_state; m' = apply_change row_codec [] ApplyLive newer_row m in
    mg_parts m' = mg_parts m \<and> map_of (ss_deferred (mg_state m')) row_key = Some newer_row \<and>
    row_key \<notin> fst ` set (og_puts (outgoing_of row_codec (mg_parts m') (mg_state m'))) \<and>
    row_key \<notin> fst ` set (og_deletes (outgoing_of row_codec (mg_parts m') (mg_state m')))"
proof -
  let ?m = "device_of (row_parts [(''peer'', ''one'')]) row_state"
  let ?m' = "apply_change row_codec [] ApplyLive newer_row ?m"
  have key: "rr_key newer_row = row_key" by (simp add: newer_row_def)
  have kind: "of_key (rr_key newer_row) = Some SyncTsp" by (simp add: newer_row_def row_of_key)
  have newer: "why_unread row_codec [] ApplyLive SyncTsp newer_row ?m = Some (''a TSP relationship written in format '' @ decimal 2)"
    by (simp add: why_unread_def change_data_def newer_row_def open_record_def record_schema_version_def Let_def)
  have "\<not> stale (map_of (ss_base (mg_state ?m)) (rr_key newer_row)) (rr_version newer_row)"
    by (simp add: stale_def device_of_def row_state_def newer_row_def)
  from unread_held [OF kind newer this refl, of "mg_parts ?m'" ?m' no_exchange ApplyLive] show ?thesis unfolding Let_def key by blast
qed

section \<open>Records that are sent for deletion though nobody removed them\<close>

lemma unprojected_deleted:
  assumes "map_of (project cd p) k = None" "(k, b) \<in> set (ss_base st)" "map_of (ss_deferred st) k = None"
  shows "(k, bs_version b) \<in> set (og_deletes (outgoing_of cd p st))"
  using assms by (force simp: outgoing_of_def Let_def)

text \<open>
  The prefix of the vetting kind ends without a slash: a key of another kind that starts with it is read as the book,
  never projected, and so deleted once it is in the base.
\<close>

lemma vetting_prefix_claims:
  assumes "of_key k = Some SyncVetting" "k \<noteq> kind_prefix SyncVetting" "(k, b) \<in> set (ss_base st)" "map_of (ss_deferred st) k = None"
  shows "(k, bs_version b) \<in> set (og_deletes (outgoing_of cd p st))"
  by (rule unprojected_deleted [OF _ assms(3,4)]) (use assms(1,2) in \<open>simp add: map_of_project entry_of_def split: option.split\<close>)

lemma vetting_prefix_example: "of_key ''v1/vetting-log/7'' = Some SyncVetting"
  using of_key_prefix [of SyncVetting "''-log/7''"] by (simp add: kind_prefix.simps)

text \<open>A credential pulled that does not decode is dropped from the store, though the change counts as applied.\<close>

lemma undecoded_vrc_dropped:
  assumes "dec_vrc cd c = Inl e"
  shows "apply_vrc cd vrcs_empty kd (vrc_sync_key cd kd remote i)
      (Some (JObject [(''credential'', c), (''id'', JString i), (''remote'', JString remote)])) = Inr \<lparr>vr_vrcs = [], vr_retired = 1\<rparr>"
  using assms by (simp add: apply_vrc_def enc_vrcs_def vrcs_empty_def put_all_def str_field_def member_or_null_def dec_vrcs_def
      raw_stores_def readable_vrcs_def ok_or_def rbind_def ensure_def Let_def)

end
