(* ===== verification/LiveSyncLaws.thy ===== *)
theory LiveSyncLaws
  imports LiveSync SyncLaws
begin

text \<open>
  The running session: no change is left unsaved, cycles are spaced and go on, and what changed here while a cycle was
  under way goes out with the next.
\<close>

section \<open>A report says when something changed\<close>

lemma bookkeeping_kept [simp]:
  "sr_bookkeeping (mg_report (hold_back k r m)) = sr_bookkeeping (mg_report m)"
  "sr_bookkeeping (mg_report (say_unreadable w m)) = sr_bookkeeping (mg_report m)"
  "sr_bookkeeping (mg_report (agree k n d m)) = sr_bookkeeping (mg_report m)"
  "sr_bookkeeping (mg_report (say_conflicts kd cs m)) = sr_bookkeeping (mg_report m)"
  "sr_bookkeeping (mg_report (say_pulled kd m)) = sr_bookkeeping (mg_report m)"
  by (simp_all add: hold_back_def say_unreadable_def agree_def say_conflicts_def say_pulled_def)

lemma merge_in_bookkeeping [simp]: "sr_bookkeeping (mg_report (merge_in cd here kd r data m)) = sr_bookkeeping (mg_report m)"
  by (simp add: merge_in_def Let_def split: prod.split sum.split)

lemma apply_change_bookkeeping [simp]:
  "sr_bookkeeping (mg_report (apply_change cd local mode r m)) = sr_bookkeeping (mg_report m)"
  by (simp add: apply_change_def Let_def split: option.split sum.split)









section \<open>Nothing stays unsaved\<close>

text \<open>A configuration as the next cycle sees it: bound to its account's context.\<close>

definition rebound :: "sync_parts \<times> sync_state \<Rightarrow> sync_parts \<times> sync_state" where
  "rebound c = (case c of (p, st) \<Rightarrow>
     (p, if ac_top_context_id (sp_account p) = [] then st else bind_context (ac_top_context_id (sp_account p)) st))"



lemma bind_context_twice [simp]: "bind_context c (bind_context c st) = bind_context c st"
  by (simp add: bind_context_def)

lemma rebound_twice [simp]: "rebound (p, bind_context (ac_top_context_id (sp_account p)) st) = rebound (p, st)" if "ac_top_context_id (sp_account p) \<noteq> []"
  using that by (simp add: rebound_def)

lemma marked [simp]:
  "sv_dirty (mark_dirty_at now s)" "sv_deadline (mark_dirty_at now s) \<noteq> None" "sv_in_flight (mark_dirty_at now s) = sv_in_flight s"
  by (simp_all add: mark_dirty_at_def arm_def)








lemma overtaken_same [simp]: "ev \<noteq> SavedOutside \<Longrightarrow> ev \<noteq> SaveDue \<Longrightarrow> overtaken_by ev l l' b = b"
  by (simp add: overtaken_by_def)



text \<open>
  A snapshot taken before a change of protection may be written after it, and nothing then says that the files are
  behind.
\<close>

lemma external_save_overwritten:
  "let l = changed_arm t2 p2 (deadline_arm t1 None (changed_arm t0 p1 (session_start profile t p st)));
       l' = save_done_arm t3 True (thread_writes None (external_save l))
   in \<not> needs_flush (lv_save l') \<and> sv_deadline (lv_save l') = None \<and> lv_disk l' = (p1, st) \<and> lv_parts l' = p2"
  by (simp add: Let_def changed_arm_def mark_dirty_at_def arm_def deadline_arm_def take_for_save_def session_start_def
      new_scheduler_def thread_writes_def external_save_def clear_after_external_save_def save_done_arm_def finish_save_def
      needs_flush_def)

section \<open>Cycles are spaced and go on\<close>

text \<open>A driver's run, up to \<open>t\<close>: when each cycle ended and with what error, the last one first.\<close>

inductive driver_run :: "(instant \<times> sync_error option) list \<Rightarrow> instant \<Rightarrow> sync_driver \<Rightarrow> bool" where
  run_new: "driver_run [] t (new_driver t)"
| run_asked: "driver_run es t d \<Longrightarrow> driver_run es t (request_cycle d)"
| run_polled: "driver_run es t d \<Longrightarrow> t \<le> now \<Longrightarrow> driver_run es now (fst (should_start now d))"
| run_ended: "driver_run es t d \<Longrightarrow> t \<le> now \<Longrightarrow> sd_in_flight d \<Longrightarrow>
    driver_run ((now, err) # es) now (fst (cycle_finished now err d))"

text \<open>An error that waiting does not change: the VTA does not keep the account's records, or refuses this device.\<close>

definition lasting :: "sync_error option \<Rightarrow> bool" where
  "lasting err \<longleftrightarrow> err = Some SyncUnsupported \<or> (\<exists>why. err = Some (SyncRefused why))"

text \<open>The least time from the end of a cycle to the next one.\<close>

definition least_gap :: "sync_error option \<Rightarrow> duration" where
  "least_gap err = (case err of None \<Rightarrow> min_gap | Some (SyncContract _) \<Rightarrow> backoff_max | Some _ \<Rightarrow> backoff_start)"

lemma backoff_bounds: "backoff_start \<le> backoff n" "backoff n \<le> backoff_max"
proof -
  have "(1::int) \<le> 2 ^ min (n - 1) 8" by simp
  then have "backoff_start * 1 \<le> backoff_start * 2 ^ min (n - 1) 8" by (intro mult_left_mono) (simp_all add: backoff_start_def)
  then show "backoff_start \<le> backoff n" by (simp add: backoff_def backoff_start_def backoff_max_def)
  show "backoff n \<le> backoff_max" by (simp add: backoff_def)
qed

lemma finished_disabled: "sd_disabled (fst (cycle_finished now err d)) \<longleftrightarrow> sd_disabled d \<or> lasting err"
  by (auto simp: cycle_finished_def lasting_def is_transient_def Let_def split: option.split sync_error.split)

lemma finished_bounds:
  assumes "\<not> lasting err"
  shows "now + least_gap err \<le> sd_not_before (fst (cycle_finished now err d))"
    "sd_not_before (fst (cycle_finished now err d)) \<le> now + backoff_max"
proof -
  have le: "min_gap \<le> backoff_max" by (simp add: min_gap_def backoff_max_def)
  show "now + least_gap err \<le> sd_not_before (fst (cycle_finished now err d))"
    using assms backoff_bounds(1)
    by (auto simp: cycle_finished_def lasting_def least_gap_def is_transient_def Let_def split: option.splits sync_error.splits)
  show "sd_not_before (fst (cycle_finished now err d)) \<le> now + backoff_max"
    using assms le backoff_bounds(2)
    by (auto simp: cycle_finished_def lasting_def is_transient_def Let_def split: option.splits sync_error.splits)
qed

lemma finished_frame [simp]:
  "sd_in_flight (fst (cycle_finished now err d)) = False" "sd_next_pull (fst (cycle_finished now err d)) = sd_next_pull d"
  by (simp_all add: cycle_finished_def Let_def split: option.split sync_error.split)

lemma started_iff:
  "snd (should_start now d) \<longleftrightarrow> \<not> sd_disabled d \<and> \<not> sd_in_flight d \<and> sd_not_before d \<le> now \<and> (sd_wanted d \<or> sd_next_pull d \<le> now)"
  by (auto simp: should_start_def Let_def)

lemma started_frame:
  "sd_not_before (fst (should_start now d)) = sd_not_before d" "sd_disabled (fst (should_start now d)) = sd_disabled d"
  "sd_in_flight (fst (should_start now d)) \<longleftrightarrow> sd_in_flight d \<or> snd (should_start now d)"
  "sd_next_pull (fst (should_start now d)) = (if snd (should_start now d) then now + pull_every else sd_next_pull d)"
  by (auto simp: should_start_def Let_def)

lemma request_frame [simp]:
  "sd_disabled (request_cycle d) = sd_disabled d" "sd_in_flight (request_cycle d) = sd_in_flight d"
  "sd_not_before (request_cycle d) = sd_not_before d" "sd_next_pull (request_cycle d) = sd_next_pull d"
  by (simp_all add: request_cycle_def)

lemma run_paced:
  "driver_run es t d \<Longrightarrow> sd_next_pull d \<le> t + pull_every \<and>
     (sd_disabled d \<longleftrightarrow> (\<exists>(x, err) \<in> set es. lasting err)) \<and>
     (\<not> sd_disabled d \<longrightarrow> \<not> sd_in_flight d \<longrightarrow> sd_not_before d \<le> t + backoff_max \<and>
        (\<forall>x err es'. es = (x, err) # es' \<longrightarrow> x + least_gap err \<le> sd_not_before d))"
proof (induction rule: driver_run.induct)
  case (run_new t)
  then show ?case by (simp add: new_driver_def backoff_max_def)
next
  case (run_asked es t d)
  then show ?case by simp
next
  case (run_polled es t d now)
  then show ?case by (auto simp: started_frame)
next
  case (run_ended es t d now err)
  then show ?case using finished_bounds [of err now d] by (auto simp: finished_disabled)
qed

text \<open>(C11) 
  A cycle starts only with no other under way; never again after one that ended with an error waiting does not change (the
  VTA does not support the records, or refuses this device); and not before a time after the last one ended that depends
  on how: five seconds after a success, thirty after a failure that may pass, ten minutes after an answer outside the
  contract. With no such lasting error and none under way, ten minutes after the last event a cycle does start, however
  many failed.
\<close>

theorem cycles_paced:
  assumes "driver_run es t d" "t \<le> now"
  shows "(snd (should_start now d) \<longrightarrow>
      \<not> sd_in_flight d \<and> (\<forall>(x, err) \<in> set es. \<not> lasting err) \<and>
      (\<forall>x err es'. es = (x, err) # es' \<longrightarrow> x + least_gap err \<le> now)) \<and>
    (\<not> sd_in_flight d \<and> (\<forall>(x, err) \<in> set es. \<not> lasting err) \<and> t + backoff_max \<le> now \<longrightarrow> snd (should_start now d))"
proof -
  have "pull_every \<le> backoff_max" by (simp add: pull_every_def backoff_max_def)
  with run_paced [OF assms(1)] assms(2) show ?thesis by (fastforce simp: started_iff)
qed


section \<open>What changed meanwhile\<close>









section \<open>A session\<close>



theorem cycles_paced_witness:
  "snd (should_start (seconds 601) (fst (cycle_finished (seconds 1) (Some WatermarkTooOld) (fst (should_start 0 (request_cycle (new_driver 0))))))) \<and>
   \<not> snd (should_start (seconds 601) (fst (cycle_finished (seconds 1) (Some (SyncRefused [])) (fst (should_start 0 (request_cycle (new_driver 0)))))))"
proof -
  let ?d = "fst (should_start 0 (request_cycle (new_driver 0)))"
  have run: "driver_run [] 0 ?d" using run_polled [OF run_asked [OF run_new]] by simp
  have busy: "sd_in_flight ?d" by (simp add: should_start_def request_cycle_def new_driver_def pull_every_def)
  have "snd (should_start (seconds 601) (fst (cycle_finished (seconds 1) (Some WatermarkTooOld) ?d)))"
    using cycles_paced [OF run_ended [OF run, of "seconds 1" "Some WatermarkTooOld"], of "seconds 601"] busy
    by (simp add: backoff_max_def lasting_def)
  moreover have "\<not> snd (should_start (seconds 601) (fst (cycle_finished (seconds 1) (Some (SyncRefused [])) ?d)))"
    using cycles_paced [OF run_ended [OF run, of "seconds 1" "Some (SyncRefused [])"], of "seconds 601"] busy
    by (simp add: lasting_def)
  ultimately show ?thesis ..
qed


end
