(* ===== verification/Spec2Isabelle.thy ===== *)
theory Spec2Isabelle
  imports Handshake BookFlow HiddenPlan KeyBinding MembershipFlow MessageGate AccountLoad InboundExamples
    VettingLaws ContextLaws LiveSyncLaws
begin

text \<open>
  A verification development for openvtc, the client of a verifiable trust community. A person holds personas
  (DIDs), joins communities as one of them, keeps the credentials a community issues, and forms relationships
  with other people. The development models the logic of \<open>src/openvtc-core\<close> and the protocol handlers of
  \<open>src/openvtc/src/state_handler\<close> that decide what is stored, answered or refused. Its parts:

  Foundations.

  \<^item> \<open>Prelude\<close>: time (nanoseconds as integers, \<open>chrono\<close>), results as sums, lists updated in place
    (\<open>iter_mut().find\<close>), association lists, the std string functions used, and two locales: \<open>keyed_store\<close>
    (records found and updated by key) and \<open>preserved\<close> (a step relation keeping an invariant along every run).
  \<^item> \<open>Wire\<close>: JSON values, the payloads exchanged, and the SDK, a dependency that is not in the repository: the
    record \<open>vetter_sdk\<close> (likewise \<open>applicant_sdk\<close>, \<open>document_sdk\<close>, \<open>credential_sdk\<close>, \<open>join_sdk\<close>, \<open>renew_sdk\<close>,
    \<open>relation_sdk\<close> in the theories that use them) holds each function of it the code calls, an argument of every
    definition that uses it.

  Vetting (\<open>src/openvtc-core/src/vetting\<close>). Joining takes vetting: members the community named vetters check who
  an applicant is and sign a statement (or, on the hidden path, make an attestation that is later counted by a
  zero-knowledge proof that names no vetter). One client plays both sides and keeps both in one book.

  \<^item> \<open>Tickets\<close> (\<open>tickets.rs\<close>): a ticket and its spoken code, the guess throttle, \<open>check\<close> and \<open>consume\<close>.
  \<^item> \<open>Schedule\<close> (\<open>hidden.rs\<close>, \<open>pcs_vta.rs\<close>): reading a criterion's mode, tick lengths, which draw is due, when
    the next window opens. Interprets \<open>tick_lengths\<close>.
  \<^item> \<open>HiddenVetter\<close>, \<open>HiddenPlan\<close> (\<open>book.rs\<close>, \<open>HiddenVetterState\<close>): the vetter's engine state, what a pass
    plans, retries, quotas. \<open>KeyBinding\<close> (\<open>binding.rs\<close>): a key the community says is bound elsewhere, with the step
    relation \<open>key_step\<close>, whose steps are not guarded because the callers test nothing.
  \<^item> \<open>Applicant\<close>, \<open>ApplicantFlow\<close> (\<open>applicant.rs\<close>): an application, its requests, sessions, cards, statements,
    its checklist and next step; every operation, and the step relation \<open>app_step\<close> over them.
  \<^item> \<open>Desk\<close>, \<open>VetterDesk\<close>, \<open>DeskFlow\<close>, \<open>DeskStatement\<close> (\<open>vetter.rs\<close>): the vetter's desk, its operations and the
    step relation \<open>desk_step\<close>. \<open>Book\<close>, \<open>BookFlow\<close> (\<open>book.rs\<close>): what is known of communities, applications,
    grants, pruning; the step relation \<open>book_step\<close>. \<open>Handshake\<close>: applicant and vetter together.
  \<^item> \<open>Queries\<close> (\<open>queries.rs\<close>, \<open>mode.rs\<close>, the profile record of \<open>registry.rs\<close>): the questions open at a community, the
    profile it was sent, and how its vetters vet as far as its manifests said.
  \<^item> \<open>VettingInbound\<close> (\<open>inbound.rs\<close>): every vetting message from its arrival to its effect on the book: opening the
    document, one definition per arm of the match, the refusals, and \<open>handle\<close>, which acts on a community's signed
    answer once. \<open>VettingSafety\<close>: each arm as moves of the step relation \<open>vetting_move\<close>, what a sender can touch, the
    inbox \<open>inbox_step\<close>. \<open>VettingLaws\<close>: its properties.

  Membership (\<open>config/account.rs\<close>, \<open>messaging.rs\<close>, \<open>renewal.rs\<close>, \<open>operational.rs\<close>, \<open>issued_credential.rs\<close>,
  \<open>dtg.rs\<close>). An account holds personas and, per community, membership records; messages from the community move
  a record from pending to active to ended and fill in its credentials.

  \<^item> \<open>Account\<close>, \<open>AccountLoad\<close>, \<open>AccountView\<close>: the records and every operation on them, loading from the saved
    configuration (older forms included), the order of the overview.
  \<^item> \<open>Operational\<close>: the envelope checks of a document from the wire, the set of documents acted on, and the step
    relation \<open>document_step\<close>, in which a document is verified against an empty set, as off the loop, and taken
    later by \<open>take_document\<close> (check, then commit) or dropped.
    \<open>Credentials\<close>: kind, issuer, validity and status of an issued credential. \<open>Renewal\<close>: pending renewals, the
    checks of an answer, its effect.
  \<^item> \<open>Messaging\<close>, \<open>MessageGate\<close>: the age and replay gates, the handlers of receipts, polls, verdicts, errors,
    removal notices, profiles and credential issues, the vetting of a relationship credential.
  \<^item> \<open>MembershipStep\<close>, \<open>MembershipFlow\<close>: the step relation \<open>account_step\<close> over all of them (a join only where
    \<open>has_live_membership\<close> finds none, the gate every join passes; a context that was deleted is let go of), its
    invariants. \<open>account_change\<close> adds what a sync writes, with what it brings as a parameter.

  Relationships (\<open>relationships.rs\<close>, \<open>tasks.rs\<close>, \<open>vrc.rs\<close>, \<open>message_dispatch.rs\<close>, \<open>relationship_actions.rs\<close>,
  \<open>inbox_actions.rs\<close>). Two parties agree on the DIDs they use with each other in three messages; each side proves
  control of its DIDs by a signed binding statement.

  \<^item> \<open>Relations\<close>: the stores of relationships, tasks and credentials (VRCs), their saved form, the binding proofs.
  \<^item> \<open>RelationFlow\<close>: every relationship arm of \<open>process_inbound\<close> with the checks before it (\<open>inbound\<close>), and the
    effects of what the user does. \<open>RelationSafety\<close>: what a message can change. \<open>RelationRun\<close>: the step relation
    \<open>relation_step\<close>. \<open>PeerHandshake\<close>: the two sides together, in every order of the messages.

  Inbound messages (\<open>verify_queue.rs\<close>, \<open>message_dispatch.rs\<close>, \<open>state_handler/mod.rs\<close>). A message is acted on
  only after its signature was checked, which takes a lookup on the network; the checks run one at a time, at a
  limited rate per sender, in two lanes, and the messages wait in hand until their check is back.

  \<^item> \<open>KeyedQueue\<close>: queues of work per key, with the locales \<open>keyed_queue\<close> and \<open>priority_queue\<close> (\<open>keyed_queue\<close>
    with a second lane in front). \<open>VerifyQueue\<close>: the two lanes, the shares of one sender, the rate and the running
    check; interprets \<open>priority_queue\<close>. \<open>QueueOrder\<close>: order, draining, rate and isolation of its runs.
  \<^item> \<open>InboundQueue\<close>: which check a message needs and which lane it goes to, what happens when a check is back, the
    event loop around it (what a handler then does is a parameter). \<open>InboundFlow\<close>: the step relation
    \<open>loop_step\<close> and the messages kept in hand. \<open>InboundExamples\<close>: concrete runs.

  Contexts (\<open>config/context_path.rs\<close>, \<open>config/community_context.rs\<close>). What a persona does in a community may live
  in a context of its own at the VTA, the agent that keeps its keys.

  \<^item> \<open>Contexts\<close>: the rules of a path, slugs and the search for a free name, the options offered, how far a
    membership is kept apart, making a path at the VTA, what may be deleted and its deletion. \<open>ContextNames\<close>: slugs
    and the search. \<open>ContextLaws\<close>: its properties; \<open>store_vta\<close> there is a VTA that keeps contexts as a tree.

  Synchronisation (\<open>vta_sync/\<close>). Several devices of one person share the account through records kept at the VTA;
  each device keeps, per record, the version and value last agreed on (the base).

  \<^item> \<open>SortedMaps\<close>, \<open>Decimals\<close>: a \<open>BTreeMap\<close> as a list in key order, decimal numerals. \<open>Merge\<close> (\<open>merge.rs\<close>): the
    three-way merge of a record's JSON, what stands at each path of the result and which paths it reports (\<open>merge3_at\<close>,
    \<open>merge3_conflicts\<close>).
  \<^item> \<open>SyncRecords\<close> (\<open>records.rs\<close>, \<open>vrc.rs\<close>): the account as records (\<open>project\<close>) and one record written back
    (\<open>apply_record\<close>, one equation per arm). \<open>SyncRecordLaws\<close>: writing a record is an update of the projection at its
    key, for each of the eleven kinds; the locale \<open>record_store\<close> states it and is interpreted on the model.
  \<^item> \<open>SyncEngine\<close> (\<open>mod.rs\<close>, \<open>store.rs\<close>): the store's contract as a record of its calls, the sync state, what goes out,
    pull and push, merging, folding the outcome back, the sync at load.
  \<^item> \<open>SyncStore\<close>: what a store promises (\<open>keeps_versions\<close>) and that \<open>mem_store\<close>, the store of \<open>vta_sync/tests.rs\<close>, keeps
    it; what a pull and a push come to on such a store. \<open>SyncSteps\<close>, \<open>SyncRound\<close>: one change, one round.
    \<open>SyncLaws\<close>: the sync at load, two devices in turn.
  \<^item> \<open>LiveSync\<close> (\<open>save_coalesce.rs\<close>, \<open>vta_sync_driver.rs\<close>, \<open>state_handler/mod.rs\<close>): a running session: the scheduler of
    saves, the driver that starts cycles, and the arms of the event loop that drive them, with the step relation
    \<open>live_step\<close> over labelled events, and \<open>watched_step\<close>, which also remembers whether an older save was under way
    when one was made on the loop's own thread. \<open>LiveSyncLaws\<close>: its properties.

  How they interact: \<open>take_request\<close> (desk) calls \<open>check\<close> and \<open>consume\<close> (tickets) on the book; \<open>plan\<close> (engine)
  calls \<open>due\<close> and \<open>settle_ticks\<close> (schedule); \<open>switch_vetting\<close> and \<open>adopt_known_requirements\<close> (book) call
  \<open>adopt_criterion\<close> (applicant), which calls \<open>read_mode\<close> (schedule); \<open>prune\<close> works on tickets, desk and
  applications at once. The message handlers change the account through \<open>settle\<close> and \<open>membership_mut\<close>; an issued
  or renewed credential reaches them only through \<open>verify_issued_delivery\<close> and \<open>verify_renewal_response\<close>. The
  relationship arms act on relationships, tasks and VRCs at once. Where two clients meet, they meet only in the
  payloads of \<open>Wire\<close> and the messages of \<open>Messaging\<close>. The event loop calls \<open>enqueue\<close> and \<open>finish\<close>
  (queue) and hands a message to its handler together with the result of its check.

  What the lemmas show. Tickets: a code reads back however it is typed; what a check answers and records is
  characterised for every ticket; wrong codes listened to, counted by a log of their own, are bounded in any hour. Desk: a stranger learns nothing, an admission
  costs a ticket use, the capacity holds, what is closed stays closed, a statement repeats only what was checked.
  Applicant: requests follow the documented machine (\<open>drawn\<close>) and five further moves (\<open>undrawn\<close>), a statement is taken only if bound to the card that was
  sent, the identity shown never changes. Engine: nothing is asked twice, a pass owes exactly the ticks that have begun and were
  not served, the plan does not look at the tokens held, the VTA is asked for no key but the one the community
  last named. Vetting messages: each
  changes only what concerns its sender, a grant comes only from the community, an answer is taken for a question
  that was asked and a signed one once. Book: one application per community and persona,
  warnings once, the VTA is told of every application that goes. Membership: the states of a record follow a
  machine (\<open>allowed\<close>), an active membership holds a credential its community proved, as far as what a sync brings does, a reply reaches only the
  sender's records, a document is acted on once as long as it is remembered, the replay sets stay bounded, loading loses no credential
  silently. Relationships: an established one is never changed by a message, is reached only by the handshake, and
  always rests on a proved binding; the handshake establishes both sides or is refused. Inbound: checks of one
  sender come back in the order they arrived, requests of strangers never hold back the answers of known peers, the
  queue drains, each message is handled with the result of its own check, and none is lost while it waits.
  Synchronisation: on a store that keeps its versions, from a device that holds nothing unread, and where the records
  fit, a sync at load ends without an error, with the device and the VTA holding the same records, each the
  merge of what stood before; the merge keeps every edit or reports it, path by path; no key material leaves the device;
  a record that cannot be read is held and neither overwritten nor deleted; in a session no change stays unsaved, unless
  a save on the loop's own thread overtook an older one, and none unsent, and cycles are spaced, back off and stop at an
  error that waiting does not change.
  Contexts: a free, well-formed name is always found, a path is made parents first, a deletion takes nothing in use where
  contexts are directly beneath the top one.

  Bounds and fuel. \<open>pull_loop\<close> and \<open>load_loop\<close> recurse on the source's own bounds (\<open>MAX_PAGES\<close>, \<open>LOAD_ROUNDS\<close>): 500 pages
  hold any store within the limit of \<open>keeps_versions\<close>, and two of the three rounds are enough.  \<open>plan_loop\<close> is the source's loop with its own bound, \<open>MAX_DRAWS_PER_PASS\<close>, as the recursion's
  measure, so it needs no fuel of the model's. Ticks and counters are \<open>u32\<close>: natural numbers with the saturation
  written out; message times are 64-bit words. Durations and instants carry chrono's range where the code can leave
  it: there the model returns \<open>None\<close> for the panic (\<open>checked_instant\<close>, \<open>checked_duration\<close>). A \<open>HashMap\<close> is an
  association list with distinct keys, its order unspecified by being arbitrary. One panic is left out: the validity of
  a statement is an unbounded duration here, where \<open>Duration::days\<close> panics for a day count out of its range.

  Not modelled: the documents \<open>wire.rs\<close> builds (serialisation of SDK types), the
  texts of refusals and pages, everything asynchronous (the terminal client, the VTA and DIDComm sessions), log
  entries and contact names, and the other subsystems that the manifest lists as not modelled.
\<close>

end
